(* ===== verification/Sim_Prelude.thy ===== *)
theory Sim_Prelude
  imports Main "HOL-Library.Word"
begin

unbundle bit_operations_syntax

text \<open>
  What every component theory shares: the machine-integer types of the C++ code, the reading
  of a byte string (a \<^verbatim>\<open>std::string\<close> is a \<^typ>\<open>string\<close>, one \<^typ>\<open>char\<close> per byte), the
  big-endian and little-endian integer codecs, the string searches of \<^verbatim>\<open>std::string\<close>, and the
  collections of rewrite rules that the component proofs use.
\<close>

named_theorems byte_simps \<open>conversions between bytes, characters and wide words\<close>
named_theorems frame_simps \<open>equations of the frame codecs\<close>
named_theorems inv_intros \<open>preservation of component invariants\<close>

section \<open>Machine integers\<close>

type_synonym u8 = "8 word"
type_synonym u16 = "16 word"
type_synonym u32 = "32 word"
type_synonym u64 = "64 word"

lemma unat_u8_lt: "unat (w :: u8) < 256"
  using unsigned_less [of w, where 'a = nat] by simp

lemma unat_u16_lt: "unat (w :: u16) < 65536"
  using unsigned_less [of w, where 'a = nat] by simp

lemma unat_u32_lt: "unat (w :: u32) < 4294967296"
  using unsigned_less [of w, where 'a = nat] by simp

lemma unat_u64_lt: "unat (w :: u64) < 18446744073709551616"
  using unsigned_less [of w, where 'a = nat] by simp

lemma unat_plus_if: "unat (a + b) = unat a + unat b" if "unat a + unat b < 2 ^ LENGTH('a)" for a b :: "'a::len word"
  using that by (simp add: unat_add_lem [THEN iffD1])

lemma unat_minus_if: "unat (a - b) = unat a - unat b" if "b \<le> a" for a b :: "'a::len word"
  using that by (simp add: unat_sub)

lemma u32_length: "LENGTH(32) = 32"
  by simp

lemma unat_eq_0_iff [simp]: "unat w = 0 \<longleftrightarrow> w = (0 :: 'a::len word)"
  by (simp add: unsigned_eq_0_iff)

lemma unat_pos_iff: "0 < unat w \<longleftrightarrow> w \<noteq> (0 :: 'a::len word)"
  by (metis gr0I unat_eq_0_iff less_irrefl)

section \<open>Bytes of a string\<close>

text \<open>\<^verbatim>\<open>static_cast<unsigned char>(c)\<close> and \<^verbatim>\<open>static_cast<char>(b)\<close>.\<close>

definition byte_of :: "char \<Rightarrow> u8" where
  "byte_of c = word_of_nat (of_char c)"

definition chr_of :: "u8 \<Rightarrow> char" where
  "chr_of b = char_of (unat b)"

lemma unat_byte_of [byte_simps]: "unat (byte_of c) = of_char c"
  by (simp add: byte_of_def unat_of_nat)

lemma chr_of_byte_of [simp, byte_simps]: "chr_of (byte_of c) = c"
  by (simp add: chr_of_def unat_byte_of)

lemma byte_of_chr_of [simp, byte_simps]: "byte_of (chr_of b) = b"
proof -
  have "unat b < 256" using unsigned_less [of b] by simp
  then show ?thesis by (simp add: byte_of_def chr_of_def)
qed

lemma byte_of_inj [simp]: "byte_of c = byte_of d \<longleftrightarrow> c = d"
  by (metis chr_of_byte_of)

lemma chr_of_inj [simp]: "chr_of a = chr_of b \<longleftrightarrow> a = b"
  by (metis byte_of_chr_of)

text \<open>The high and the low byte of a 16-bit value, and the four bytes of a 32-bit value.\<close>

definition hi8 :: "u16 \<Rightarrow> u8" where
  "hi8 w = ucast (drop_bit 8 w)"

definition lo8 :: "u16 \<Rightarrow> u8" where
  "lo8 w = ucast w"

definition join16 :: "u8 \<Rightarrow> u8 \<Rightarrow> u16" where
  "join16 h l = push_bit 8 (ucast h) OR ucast l"

lemma join16_hi_lo [simp, byte_simps]: "join16 (hi8 w) (lo8 w) = w"
  by (rule bit_word_eqI)
    (auto simp: join16_def hi8_def lo8_def bit_simps)

lemma hi8_join16 [simp, byte_simps]: "hi8 (join16 h l) = h"
  by (rule bit_word_eqI) (auto simp: join16_def hi8_def bit_simps dest: bit_imp_le_length)

lemma lo8_join16 [simp, byte_simps]: "lo8 (join16 h l) = l"
  by (rule bit_word_eqI) (auto simp: join16_def lo8_def bit_simps)

lemma xor_eq_0 [simp]: "a XOR b = 0 \<longleftrightarrow> a = (b :: 'a::len word)"
  by (metis xor.assoc xor.right_neutral xor_self_eq)

lemma xor_cancel_left [simp]: "c XOR a = c XOR b \<longleftrightarrow> a = (b :: 'a::len word)"
  by (metis xor.left_commute xor.right_neutral xor_self_eq)

lemma xor_cancel_right [simp]: "a XOR c = b XOR c \<longleftrightarrow> a = (b :: 'a::len word)"
  by (metis xor.commute xor_cancel_left)

section \<open>Searching a string\<close>

text \<open>\<^verbatim>\<open>s.starts_with(p)\<close> and \<^verbatim>\<open>s.find(p)\<close> (\<open>None\<close> is \<^verbatim>\<open>npos\<close>).\<close>

definition starts_with :: "'a list \<Rightarrow> 'a list \<Rightarrow> bool" where
  "starts_with p s \<longleftrightarrow> take (length p) s = p"

fun str_find :: "'a list \<Rightarrow> 'a list \<Rightarrow> nat option" where
  "str_find p s =
     (if starts_with p s then Some 0
      else case s of [] \<Rightarrow> None | c # t \<Rightarrow> map_option Suc (str_find p t))"

declare str_find.simps [simp del]

lemma starts_with_Nil [simp]: "starts_with [] s"
  by (simp add: starts_with_def)

lemma starts_with_Cons_Nil [simp]: "\<not> starts_with (a # p) []"
  by (simp add: starts_with_def)

lemma starts_with_Cons_Cons [simp]:
  "starts_with (a # p) (b # s) \<longleftrightarrow> a = b \<and> starts_with p s"
  by (auto simp: starts_with_def)

lemma starts_with_append: "starts_with p (p @ s)"
  by (simp add: starts_with_def)

lemma str_find_Nil: "p \<noteq> [] \<Longrightarrow> str_find p [] = None"
  by (cases p) (simp_all add: str_find.simps)

lemma str_find_Cons:
  "str_find p (c # t) = (if starts_with p (c # t) then Some 0 else map_option Suc (str_find p t))"
  by (simp add: str_find.simps [of p "c # t"])

lemma str_find_le: "str_find p s = Some n \<Longrightarrow> n \<le> length s"
  by (induction p s arbitrary: n rule: str_find.induct)
    (subst (asm) str_find.simps, auto split: if_splits list.splits)

lemma str_find_starts: "str_find p s = Some n \<Longrightarrow> starts_with p (drop n s)"
  by (induction p s arbitrary: n rule: str_find.induct)
    (subst (asm) str_find.simps, auto split: if_splits list.splits)

lemma starts_with_iff: "starts_with p s \<longleftrightarrow> (\<exists>q. s = p @ q)"
proof
  assume "starts_with p s"
  then have "s = p @ drop (length p) s"
    by (metis append_take_drop_id starts_with_def)
  then show "\<exists>q. s = p @ q" by blast
qed (auto simp: starts_with_def)

lemma starts_with_appendI: "starts_with p s \<Longrightarrow> starts_with p (s @ q)"
  by (auto simp: starts_with_iff)

lemma starts_with_length: "starts_with p s \<Longrightarrow> length p \<le> length s"
  by (auto simp: starts_with_iff)

end
