(* ===== verification/Byte_Queue.thy ===== *)
theory Byte_Queue
  imports Sim_Prelude
begin

text \<open>
  Two interfaces that several components share: a first-in first-out queue of bytes (or of any
  items), and an input that may arrive in chunks.  The lemmas of the locales are what the
  properties of the components rest on.
\<close>

section \<open>Queues\<close>

text \<open>An event of a queue's history; \<open>'n\<close> is the type of the counts the code takes.\<close>

datatype ('b, 'n) queue_event = Put "'b list" | Take 'n

definition put_items :: "('b, 'n) queue_event list \<Rightarrow> 'b list" where
  "put_items es = concat (map (\<lambda>e. case e of Put xs \<Rightarrow> xs | Take n \<Rightarrow> []) es)"

lemma put_items_simps [simp]:
  "put_items [] = []" "put_items (Put xs # es) = xs @ put_items es" "put_items (Take n # es) = put_items es"
  by (simp_all add: put_items_def)

locale fifo_queue =
  fixes enq :: "'b list \<Rightarrow> 's \<Rightarrow> 's" and deq :: "'n \<Rightarrow> 's \<Rightarrow> 'b list \<times> 's"
    and many :: "'n \<Rightarrow> nat" and contents :: "'s \<Rightarrow> 'b list"
  assumes contents_enq: "contents (enq xs s) = contents s @ xs"
    and fst_deq: "fst (deq n s) = take (many n) (contents s)"
    and contents_deq: "contents (snd (deq n s)) = drop (many n) (contents s)"
begin

text \<open>A run of the queue: the items taken so far, and the state.\<close>

definition step :: "('b, 'n) queue_event \<Rightarrow> 'b list \<times> 's \<Rightarrow> 'b list \<times> 's" where
  "step e ts = (case e of Put xs \<Rightarrow> (fst ts, enq xs (snd ts))
     | Take n \<Rightarrow> (fst ts @ fst (deq n (snd ts)), snd (deq n (snd ts))))"

lemma run_conserves:
  "fst (fold step es (t, s)) @ contents (snd (fold step es (t, s))) = t @ contents s @ put_items es"
proof (induction es arbitrary: t s)
  case (Cons e es)
  then show ?case
    by (cases e) (simp_all add: step_def contents_enq fst_deq contents_deq)
qed simp

text \<open>Taking the whole contents at the end yields exactly what was put in, in order.\<close>

lemma run_delivers:
  "length (contents (snd (fold step es ([], s)))) \<le> many n \<Longrightarrow>
   fst (fold step (es @ [Take n]) ([], s)) = contents s @ put_items es"
  using run_conserves [of es "[]" s] by (simp add: step_def fst_deq)

lemma enq_enq: "contents (enq ys (enq xs s)) = contents (enq (xs @ ys) s)"
  by (simp add: contents_enq)

end

section \<open>Input in chunks\<close>

locale chunked_input =
  fixes feed :: "'b list \<Rightarrow> 's \<Rightarrow> 's"
  assumes feed_feed: "feed ys (feed xs s) = feed (xs @ ys) s"
begin

lemma fold_feed: "fold feed chunks (feed xs s) = feed (xs @ concat chunks) s"
  by (induction chunks arbitrary: xs) (simp_all add: feed_feed)

lemma rechunk: "concat chunks = concat chunks' \<Longrightarrow> fold feed chunks (feed xs s) = fold feed chunks' (feed xs s)"
  by (simp add: fold_feed)

end

end
