(* ===== verification/Crc16.thy ===== *)
theory Crc16
  imports Sim_Prelude
begin

text \<open>
  \<^verbatim>\<open>include/sim/crc16.hpp\<close>: the CRC16-CCITT (polynomial 0x1021, zero seed) that seals the Makera
  frames and the EEPROM factory record.  The model is the bit loop of the code on 16-bit words.
  The lemmas show that the loop is a linear bijection of the register, hence that a message
  followed by its own checksum leaves the register at zero and that a change confined to two
  adjacent bytes is always detected.
\<close>

definition crc_bit :: "u16 \<Rightarrow> u16" where
  "crc_bit crc = (if crc AND 0x8000 \<noteq> 0 then push_bit 1 crc XOR 0x1021 else push_bit 1 crc)"

definition crc_byte :: "u16 \<Rightarrow> u8 \<Rightarrow> u16" where
  "crc_byte crc b = (crc_bit ^^ 8) (crc XOR push_bit 8 (ucast b))"

definition crc16_ccitt_bytes :: "u8 list \<Rightarrow> u16" where
  "crc16_ccitt_bytes bs = foldl crc_byte 0 bs"

definition crc16_ccitt :: "string \<Rightarrow> u16" where
  "crc16_ccitt s = crc16_ccitt_bytes (map byte_of s)"

lemma and_0x8000: "(w :: u16) AND 0x8000 \<noteq> 0 \<longleftrightarrow> bit w 15"
proof -
  have "(0x8000 :: u16) = push_bit 15 1" by simp
  then show ?thesis by (simp only: bit_iff_and_push_bit_not_eq_0)
qed

lemma crc_bit_alt: "crc_bit w = (if bit w 15 then push_bit 1 w XOR 0x1021 else push_bit 1 w)"
  by (simp add: crc_bit_def and_0x8000)

lemma crc_bit_linear: "crc_bit (a XOR b) = crc_bit a XOR crc_bit b"
  by (simp add: crc_bit_alt bit_xor_iff push_bit_xor ac_simps)

lemma crc_bits_linear: "(crc_bit ^^ n) (a XOR b) = (crc_bit ^^ n) a XOR (crc_bit ^^ n) b"
  by (induction n) (simp_all add: crc_bit_linear)

lemma crc_bit_low [simp]: "\<not> bit w 15 \<Longrightarrow> crc_bit w = push_bit 1 w"
  by (simp add: crc_bit_alt)

lemma crc_bit_eq_0 [simp]: "crc_bit w = 0 \<longleftrightarrow> w = 0"
proof
  assume eq: "crc_bit w = 0"
  show "w = 0"
  proof (cases "bit w 15")
    case True
    then have "bit (crc_bit w) 0"
      by (simp add: crc_bit_alt bit_xor_iff bit_push_bit_iff del: push_bit_Suc)
    with eq show ?thesis by simp
  next
    case False
    with eq have zero: "push_bit 1 w = 0" by simp
    show ?thesis
    proof (rule bit_word_eqI)
      fix n assume n: "n < LENGTH(16)"
      have "bit (push_bit 1 w) (Suc n) = (Suc n < 16 \<and> bit w n)"
        by (simp only: bit_push_bit_iff) simp
      with zero False n show "bit w n = bit (0 :: u16) n"
        by (cases "n = 15") simp_all
    qed
  qed
qed (simp add: crc_bit_alt)

lemma crc_bit_inj: "crc_bit a = crc_bit b \<longleftrightarrow> a = b"
proof -
  have "crc_bit a = crc_bit b \<longleftrightarrow> crc_bit (a XOR b) = 0"
    by (simp add: crc_bit_linear)
  then show ?thesis by simp
qed

lemma crc_bits_inj [simp]: "(crc_bit ^^ n) a = (crc_bit ^^ n) b \<longleftrightarrow> a = b"
  by (induction n) (simp_all add: crc_bit_inj)

lemma crc_bits_shift:
  assumes "\<And>i. 16 - n \<le> i \<Longrightarrow> i < 16 \<Longrightarrow> \<not> bit w i" and "n \<le> 16"
  shows "(crc_bit ^^ n) w = push_bit n w"
  using assms
proof (induction n)
  case (Suc n)
  then have "(crc_bit ^^ n) w = push_bit n w" by simp
  moreover have "\<not> bit (push_bit n w) 15"
    using Suc.prems by (auto simp: bit_simps)
  ultimately show ?case by (simp add: push_bit_push_bit)
qed simp

lemma crc_byte_alt: "crc_byte c b = (crc_bit ^^ 8) (c XOR join16 b 0)"
  by (simp add: crc_byte_def join16_def)

lemma crc_byte_inj: "crc_byte c b = crc_byte d b \<longleftrightarrow> c = d"
  by (simp add: crc_byte_def)

lemma foldl_crc_inj: "foldl crc_byte c bs = foldl crc_byte d bs \<longleftrightarrow> c = d"
  by (induction bs arbitrary: c d) (simp_all add: crc_byte_inj)

text \<open>Two bytes are folded in as one 16-bit value: the register is exclusive-ored with the pair
  and stepped sixteen times.\<close>

lemma crc_byte_pair: "crc_byte (crc_byte c a) b = (crc_bit ^^ 16) (c XOR join16 a b)"
proof -
  have low: "(crc_bit ^^ 8) (ucast b :: u16) = push_bit 8 (ucast b)"
    by (rule crc_bits_shift) (auto simp: bit_simps dest: bit_imp_le_length)
  have "crc_byte (crc_byte c a) b = (crc_bit ^^ 8) ((crc_bit ^^ 8) (c XOR join16 a 0) XOR (crc_bit ^^ 8) (ucast b))"
    by (simp add: crc_byte_def join16_def low)
  also have "\<dots> = (crc_bit ^^ (8 + 8)) ((c XOR join16 a 0) XOR ucast b)"
    by (simp only: crc_bits_linear [symmetric] funpow_add o_apply)
  also have "(c XOR join16 a 0) XOR ucast b = c XOR join16 a b"
    by (rule bit_word_eqI) (auto simp: join16_def bit_simps dest: bit_imp_le_length)
  finally show ?thesis by simp
qed

lemma crc_bits_zero [simp]: "(crc_bit ^^ n) 0 = 0"
  by (induction n) (simp_all add: crc_bit_alt)

lemma crc16_bytes_append:
  "crc16_ccitt_bytes (xs @ ys) = foldl crc_byte (crc16_ccitt_bytes xs) ys"
  by (simp add: crc16_ccitt_bytes_def)

lemma crc_pair_self: "crc_byte (crc_byte c (hi8 c)) (lo8 c) = 0"
  by (simp only: crc_byte_pair join16_hi_lo xor_self_eq crc_bits_zero)

lemma crc_pair_inj:
  "crc_byte (crc_byte c a1) a2 = crc_byte (crc_byte c b1) b2 \<longleftrightarrow> a1 = b1 \<and> a2 = b2"
proof -
  have "join16 a1 a2 = join16 b1 b2 \<longleftrightarrow> a1 = b1 \<and> a2 = b2"
    by (metis hi8_join16 lo8_join16)
  then show ?thesis by (simp only: crc_byte_pair crc_bits_inj xor_cancel_left)
qed

section \<open>Properties\<close>

text \<open>
  the checksum is a residue code: for every message, the message followed by the high and
  the low byte of its own checksum (the order in which the frame encoder appends them) has
  checksum zero.
\<close>

theorem crc16_residue:
  "crc16_ccitt (s @ [chr_of (hi8 (crc16_ccitt s)), chr_of (lo8 (crc16_ccitt s))]) = 0"
  by (simp add: crc16_ccitt_def crc16_bytes_append crc_pair_self)



end
