(* ===== verification/Makera_Protocol.thy ===== *)
theory Makera_Protocol
  imports Crc16 Byte_Queue
begin

text \<open>
  \<^verbatim>\<open>include/sim/makera_protocol.hpp\<close> and \<^verbatim>\<open>src/protocol/makera_protocol.cpp\<close>: the framed serial
  protocol of the Makera controllers.  \<open>encode_frame\<close> builds a frame (\<open>None\<close> is the
  \<^verbatim>\<open>std::length_error\<close>), \<open>encode_console_input\<close> turns console text into control frames, and the
  record \<open>frame_decoder\<close> with \<open>decode_available\<close> is the resynchronising stream decoder.
  The lemmas show that decoding does not depend on how the stream is cut into chunks, that it
  inverts the encoder, and that it keeps all the bytes it is given in bounds.
\<close>

section \<open>Packet types\<close>

text \<open>
  \<^verbatim>\<open>enum class PacketType : std::uint8_t\<close>: the decoder casts any byte to it, so the model is the
  byte, and the enumerators are names for bytes.
\<close>

type_synonym packet_type = u8

abbreviation FirmwareVersion :: packet_type where "FirmwareVersion \<equiv> 0x71"
abbreviation StatusResponse :: packet_type where "StatusResponse \<equiv> 0x81"
abbreviation DiagnosticResponse :: packet_type where "DiagnosticResponse \<equiv> 0x82"
abbreviation LoadInfo :: packet_type where "LoadInfo \<equiv> 0x83"
abbreviation LoadFinish :: packet_type where "LoadFinish \<equiv> 0x84"
abbreviation LoadError :: packet_type where "LoadError \<equiv> 0x85"
abbreviation NormalInfo :: packet_type where "NormalInfo \<equiv> 0x90"
abbreviation ControlSingle :: packet_type where "ControlSingle \<equiv> 0xa1"
abbreviation ControlMulti :: packet_type where "ControlMulti \<equiv> 0xa2"
abbreviation FileStart :: packet_type where "FileStart \<equiv> 0xb0"
abbreviation FileMd5 :: packet_type where "FileMd5 \<equiv> 0xb1"
abbreviation FileView :: packet_type where "FileView \<equiv> 0xb2"
abbreviation FileData :: packet_type where "FileData \<equiv> 0xb3"
abbreviation FileEnd :: packet_type where "FileEnd \<equiv> 0xb4"
abbreviation FileCancel :: packet_type where "FileCancel \<equiv> 0xb5"
abbreviation FileRetry :: packet_type where "FileRetry \<equiv> 0xb6"
abbreviation PlayStatus :: packet_type where "PlayStatus \<equiv> 0xb7"
abbreviation FirmwareStart :: packet_type where "FirmwareStart \<equiv> 0xc1"
abbreviation FirmwareView :: packet_type where "FirmwareView \<equiv> 0xc2"
abbreviation FirmwareData :: packet_type where "FirmwareData \<equiv> 0xc3"
abbreviation FirmwareEnd :: packet_type where "FirmwareEnd \<equiv> 0xc4"
abbreviation FirmwareCancel :: packet_type where "FirmwareCancel \<equiv> 0xc5"
abbreviation ConfigStart :: packet_type where "ConfigStart \<equiv> 0xd1"
abbreviation ConfigView :: packet_type where "ConfigView \<equiv> 0xd2"
abbreviation ConfigData :: packet_type where "ConfigData \<equiv> 0xd3"
abbreviation ConfigEnd :: packet_type where "ConfigEnd \<equiv> 0xd4"
abbreviation ConfigCancel :: packet_type where "ConfigCancel \<equiv> 0xd5"
abbreviation FactoryStart :: packet_type where "FactoryStart \<equiv> 0xe1"
abbreviation FactoryView :: packet_type where "FactoryView \<equiv> 0xe2"
abbreviation FactoryData :: packet_type where "FactoryData \<equiv> 0xe3"
abbreviation FactoryEnd :: packet_type where "FactoryEnd \<equiv> 0xe4"
abbreviation FactoryCancel :: packet_type where "FactoryCancel \<equiv> 0xe5"
abbreviation PlayStart :: packet_type where "PlayStart \<equiv> 0xf1"
abbreviation PlayView :: packet_type where "PlayView \<equiv> 0xf2"
abbreviation PlayData :: packet_type where "PlayData \<equiv> 0xf3"
abbreviation PlayEnd :: packet_type where "PlayEnd \<equiv> 0xf4"
abbreviation PlayCancel :: packet_type where "PlayCancel \<equiv> 0xf5"
abbreviation PlayGoto :: packet_type where "PlayGoto \<equiv> 0xf6"
abbreviation PlayGotoProgress :: packet_type where "PlayGotoProgress \<equiv> 0xf7"

record frame =
  frame_type :: packet_type
  payload :: string

section \<open>Encoder\<close>

definition kHeader :: u16 where "kHeader = 0x8668"
definition kFooter :: u16 where "kFooter = 0x55aa"
definition kMinimumDataLength :: nat where "kMinimumDataLength = 3"
definition kMaximumPayload :: nat where "kMaximumPayload = 65535 - kMinimumDataLength"

text \<open>Both bytes of a 16-bit value, most significant first, as two \<^verbatim>\<open>push_back\<close> calls append them.\<close>

definition be16 :: "u16 \<Rightarrow> string" where
  "be16 w = [chr_of (hi8 w), chr_of (lo8 w)]"

text \<open>\<^verbatim>\<open>read_u16\<close>; the callers guarantee that \<open>offset + 1\<close> is inside the string.\<close>

definition read_u16 :: "string \<Rightarrow> nat \<Rightarrow> u16" where
  "read_u16 bytes offset = join16 (byte_of (bytes ! offset)) (byte_of (bytes ! (offset + 1)))"

definition frame_body :: "packet_type \<Rightarrow> string \<Rightarrow> string" where
  "frame_body type pl =
     be16 (word_of_nat (length pl + kMinimumDataLength)) @ [chr_of type] @ pl"

definition encode_frame :: "packet_type \<Rightarrow> string \<Rightarrow> string option" where
  "encode_frame type pl =
     (if length pl > kMaximumPayload then None
      else let frame = be16 kHeader @ frame_body type pl;
               crc = crc16_ccitt (drop 2 frame)
           in Some (frame @ be16 crc @ be16 kFooter))"

definition is_single_control :: "string \<Rightarrow> bool" where
  "is_single_control input \<longleftrightarrow>
     (case input of
        [c] \<Rightarrow> c \<in> {CHR ''?'', CHR ''*'', CHR ''!'', CHR ''~'', CHR 0x18, CHR 0x19, CHR 0x1A}
      | _ \<Rightarrow> False)"

text \<open>The loop that removes trailing line ends, keeping at least one byte.\<close>

function strip_line_end :: "string \<Rightarrow> string" where
  "strip_line_end s =
     (if length s > 1 \<and> (last s = CHR 0x0A \<or> last s = CHR 0x0D) then strip_line_end (butlast s) else s)"
  by pat_completeness auto
termination
  by (relation "measure length") auto

declare strip_line_end.simps [simp del]

text \<open>
  The loop over the lines: \<open>input\<close> is the rest of the text from \<^verbatim>\<open>offset\<close> on.  A trailing carriage
  return is dropped from each line, and an empty line sends nothing.
\<close>

definition drop_cr :: "string \<Rightarrow> string" where
  "drop_cr s = (if s \<noteq> [] \<and> last s = CHR 0x0D then butlast s else s)"

function encode_lines :: "string \<Rightarrow> string option" where
  "encode_lines input =
     (if input = [] then Some []
      else let newline = str_find [CHR 0x0A] input;
               end = (case newline of None \<Rightarrow> length input | Some n \<Rightarrow> n);
               command = drop_cr (take end input);
               rest = (case newline of None \<Rightarrow> [] | Some n \<Rightarrow> drop (n + 1) input)
           in if command = [] then encode_lines rest
              else case encode_frame ControlMulti command of
                     None \<Rightarrow> None
                   | Some f \<Rightarrow> map_option (\<lambda>fs. f @ fs) (encode_lines rest))"
  by pat_completeness auto
termination
  by (relation "measure length") (auto split: option.splits)

declare encode_lines.simps [simp del]

definition encode_console_input :: "string \<Rightarrow> string option" where
  "encode_console_input input =
     (if input = [] then Some []
      else let control = strip_line_end input
           in if is_single_control control then encode_frame ControlSingle control
              else encode_lines input)"

section \<open>Decoder\<close>

record frame_decoder =
  pending :: string
  decoded_text :: string
  decoded_frames :: "frame list"

definition decoder_reset :: frame_decoder where
  "decoder_reset = \<lparr>pending = [], decoded_text = [], decoded_frames = []\<rparr>"

text \<open>The loop of \<^verbatim>\<open>FrameDecoder::decode_available\<close>.\<close>

function decode_available :: "frame_decoder \<Rightarrow> frame_decoder" where
  "decode_available d =
     (case str_find (be16 kHeader) (pending d) of
        None \<Rightarrow>
          let retain = pending d \<noteq> [] \<and> last (pending d) = chr_of (hi8 kHeader)
          in d\<lparr>decoded_text := decoded_text d @ take (length (pending d) - of_bool retain) (pending d),
               pending := (if retain then [chr_of (hi8 kHeader)] else [])\<rparr>
      | Some header \<Rightarrow>
          let d = d\<lparr>decoded_text := decoded_text d @ take header (pending d),
                    pending := drop header (pending d)\<rparr>;
              p = pending d
          in if length p < 4 then d
             else let data_length = unat (read_u16 p 2)
                  in if data_length < kMinimumDataLength then decode_available (d\<lparr>pending := drop 1 p\<rparr>)
                     else if length p < data_length + 6 then d
                     else let received_crc = read_u16 p (data_length + 2);
                              received_footer = read_u16 p (data_length + 4);
                              calculated_crc = crc16_ccitt (take data_length (drop 2 p))
                          in if received_crc \<noteq> calculated_crc \<or> received_footer \<noteq> kFooter
                             then decode_available (d\<lparr>pending := drop 1 p\<rparr>)
                             else let pl = take (data_length - kMinimumDataLength) (drop 5 p)
                                  in decode_available
                                       (d\<lparr>decoded_text := decoded_text d @ pl,
                                          decoded_frames := decoded_frames d @
                                            [\<lparr>frame_type = byte_of (p ! 4), payload = pl\<rparr>],
                                          pending := drop (data_length + 6) p\<rparr>))"
  by pat_completeness auto
termination
  by (relation "measure (\<lambda>d. length (pending d))") (auto split: option.splits)

declare decode_available.simps [simp del]

definition decoder_append :: "string \<Rightarrow> frame_decoder \<Rightarrow> frame_decoder" where
  "decoder_append bytes d = decode_available (d\<lparr>pending := pending d @ bytes\<rparr>)"

definition take_frames :: "frame_decoder \<Rightarrow> frame list \<times> frame_decoder" where
  "take_frames d = (decoded_frames d, d\<lparr>decoded_frames := []\<rparr>)"

definition take_text :: "frame_decoder \<Rightarrow> string \<times> frame_decoder" where
  "take_text d = (decoded_text d, d\<lparr>decoded_text := []\<rparr>)"

section \<open>Lemmas on the header search\<close>

lemma header_bytes: "be16 kHeader = [CHR 0x86, CHR 0x68]"
  by code_simp

lemma header_high: "chr_of (hi8 kHeader) = CHR 0x86"
  using header_bytes by (simp add: be16_def)

abbreviation find_header :: "string \<Rightarrow> nat option" where
  "find_header \<equiv> str_find [CHR 0x86, CHR 0x68]"

lemma find_header_append_Some: "find_header u = Some n \<Longrightarrow> find_header (u @ v) = Some n"
proof (induction u arbitrary: n)
  case (Cons a u)
  have "starts_with [CHR 0x86, CHR 0x68] (a # u) \<Longrightarrow> starts_with [CHR 0x86, CHR 0x68] (a # u @ v)"
    by (cases u) auto
  moreover have "starts_with [CHR 0x86, CHR 0x68] (a # u @ v) \<Longrightarrow> u \<noteq> [] \<Longrightarrow>
      starts_with [CHR 0x86, CHR 0x68] (a # u)"
    by (cases u) auto
  ultimately show ?case
    using Cons by (cases "u = []") (auto simp: str_find_Cons str_find_Nil split: if_splits)
qed (simp add: str_find_Nil)

lemma find_header_append_None:
  assumes "find_header u = None"
    and "u = [] \<or> last u \<noteq> CHR 0x86 \<or> v = [] \<or> hd v \<noteq> CHR 0x68"
  shows "find_header (u @ v) = map_option ((+) (length u)) (find_header v)"
  using assms
proof (induction u)
  case Nil
  then show ?case by (cases "find_header v") simp_all
next
  case (Cons a u)
  have no: "\<not> starts_with [CHR 0x86, CHR 0x68] (a # u @ v)"
    using Cons.prems by (cases u; cases v) (auto simp: str_find_Cons split: if_splits)
  have "find_header u = None"
    using Cons.prems(1) by (auto simp: str_find_Cons split: if_splits)
  moreover have "u = [] \<or> last u \<noteq> CHR 0x86 \<or> v = [] \<or> hd v \<noteq> CHR 0x68"
    using Cons.prems(2) by auto
  ultimately have "find_header (u @ v) = map_option ((+) (length u)) (find_header v)"
    by (rule Cons.IH)
  moreover have "find_header (a # u @ v) = map_option Suc (find_header (u @ v))"
    using no by (simp only: str_find_Cons if_False)
  ultimately show ?case by (simp add: option.map_comp comp_def)
qed

lemma find_header_butlast: "find_header u = None \<Longrightarrow> find_header (butlast u) = None"
proof (cases "find_header (butlast u)")
  case (Some n)
  moreover assume "find_header u = None"
  ultimately show ?thesis
    using find_header_append_Some [OF Some, of "[last u]"] by (cases "u = []") simp_all
qed

section \<open>Equations of the decoder\<close>

text \<open>The decoder from the three fields of its state.\<close>

abbreviation dec :: "string \<Rightarrow> frame list \<Rightarrow> string \<Rightarrow> frame_decoder" where
  "dec t fs p \<equiv> decode_available \<lparr>pending = p, decoded_text = t, decoded_frames = fs\<rparr>"

text \<open>The checks of a complete candidate frame, and the frame it carries.\<close>

definition frame_ok :: "string \<Rightarrow> nat \<Rightarrow> bool" where
  "frame_ok p n \<longleftrightarrow> read_u16 p (n + 2) = crc16_ccitt (take n (drop 2 p)) \<and> read_u16 p (n + 4) = kFooter"

definition frame_at :: "string \<Rightarrow> nat \<Rightarrow> frame" where
  "frame_at p n = \<lparr>frame_type = byte_of (p ! 4), payload = take (n - kMinimumDataLength) (drop 5 p)\<rparr>"

lemma dec_no_header [frame_simps]:
  "find_header p = None \<Longrightarrow>
   dec t fs p =
     (if p \<noteq> [] \<and> last p = CHR 0x86
      then \<lparr>pending = [CHR 0x86], decoded_text = t @ butlast p, decoded_frames = fs\<rparr>
      else \<lparr>pending = [], decoded_text = t @ p, decoded_frames = fs\<rparr>)"
  by (subst decode_available.simps)
    (simp add: header_bytes header_high Let_def butlast_conv_take)

lemma dec_at_header [frame_simps]:
  assumes "starts_with [CHR 0x86, CHR 0x68] p"
  shows "dec t fs p =
    (if length p < 4 then \<lparr>pending = p, decoded_text = t, decoded_frames = fs\<rparr>
     else let n = unat (read_u16 p 2)
          in if n < kMinimumDataLength then dec t fs (drop 1 p)
             else if length p < n + 6 then \<lparr>pending = p, decoded_text = t, decoded_frames = fs\<rparr>
             else if \<not> frame_ok p n then dec t fs (drop 1 p)
             else dec (t @ payload (frame_at p n)) (fs @ [frame_at p n]) (drop (n + 6) p))"
proof -
  from assms have "find_header p = Some 0" by (simp add: str_find.simps)
  then show ?thesis
    by (subst decode_available.simps) (simp add: header_bytes Let_def frame_ok_def frame_at_def)
qed

lemma dec_skip:
  assumes "find_header (u @ v) = map_option ((+) (length u)) (find_header v)" and "v \<noteq> []"
  shows "dec t fs (u @ v) = dec (t @ u) fs v"
proof (cases "find_header v")
  case None
  with assms show ?thesis by (simp add: dec_no_header butlast_append)
next
  case (Some h)
  with assms show ?thesis
    by (subst (1 2) decode_available.simps) (simp add: header_bytes Let_def)
qed

text \<open>Cutting at the header: what comes before it is text.\<close>

lemma dec_header:
  assumes "find_header p = Some h"
  shows "dec t fs p = dec (t @ take h p) fs (drop h p)"
    and "starts_with [CHR 0x86, CHR 0x68] (drop h p)"
proof -
  show sw: "starts_with [CHR 0x86, CHR 0x68] (drop h p)"
    using assms by (rule str_find_starts)
  then have "drop h p \<noteq> []" by (cases "drop h p") auto
  moreover have "find_header (drop h p) = Some 0"
    using sw by (simp add: str_find.simps)
  moreover have "h \<le> length p" using assms by (rule str_find_le)
  ultimately show "dec t fs p = dec (t @ take h p) fs (drop h p)"
    using dec_skip [of "take h p" "drop h p" t fs] assms by simp
qed

section \<open>Chunk independence\<close>

lemma read_u16_append: "offset + 1 < length p \<Longrightarrow> read_u16 (p @ q) offset = read_u16 p offset"
  by (simp add: read_u16_def nth_append)

lemma frame_ok_append: "n + 6 \<le> length p \<Longrightarrow> frame_ok (p @ q) n = frame_ok p n"
  by (simp add: frame_ok_def read_u16_append)

lemma frame_at_append: "n + 6 \<le> length p \<Longrightarrow> frame_at (p @ q) n = frame_at p n"
  by (simp add: frame_at_def nth_append kMinimumDataLength_def)

text \<open>What is decoded from a decoder's leftover bytes and the next chunk is what would have been
  decoded from both chunks at once.\<close>

definition resume :: "frame_decoder \<Rightarrow> string \<Rightarrow> frame_decoder" where
  "resume d b = dec (decoded_text d) (decoded_frames d) (pending d @ b)"

lemma resume_frame_decoder [simp]:
  "resume \<lparr>pending = p, decoded_text = t, decoded_frames = fs\<rparr> b = dec t fs (p @ b)"
  by (simp add: resume_def)

lemma resume_no_header:
  assumes "find_header a = None"
  shows "resume (dec t fs a) b = dec t fs (a @ b)"
proof (cases "a \<noteq> [] \<and> last a = CHR 0x86")
  case True
  have "find_header (butlast a @ CHR 0x86 # b) =
      map_option ((+) (length (butlast a))) (find_header (CHR 0x86 # b))"
    by (rule find_header_append_None) (simp_all add: assms find_header_butlast)
  from dec_skip [OF this, of t fs] True assms show ?thesis
    by (simp add: dec_no_header) (metis append_Cons append_Nil append_assoc append_butlast_last_id)
next
  case False
  then have "find_header (a @ b) = map_option ((+) (length a)) (find_header b)"
    using assms by (intro find_header_append_None) auto
  from dec_skip [OF this] False assms show ?thesis
    by (cases "b = []") (auto simp: dec_no_header str_find_Nil)
qed

lemma resume_dec: "resume (dec t fs a) b = dec t fs (a @ b)"
proof (induction a arbitrary: t fs rule: length_induct)
  case (1 a)
  have IH: "resume (dec t' fs' c) b = dec t' fs' (c @ b)" if "length c < length a" for t' fs' c
    using 1 that by blast
  show ?case
  proof (cases "find_header a")
    case None
    then show ?thesis by (rule resume_no_header)
  next
    case (Some h)
    define v where "v = drop h a"
    have v: "starts_with [CHR 0x86, CHR 0x68] v" "length v \<le> length a"
      using dec_header(2) [OF Some] by (simp_all add: v_def)
    then have vb: "starts_with [CHR 0x86, CHR 0x68] (v @ b)" and ne: "v \<noteq> []"
      by (auto intro: starts_with_appendI)
    have split: "dec t fs a = dec (t @ take h a) fs v" "dec t fs (a @ b) = dec (t @ take h a) fs (v @ b)"
      using dec_header(1) [OF Some] dec_header(1) [OF find_header_append_Some [OF Some]] str_find_le [OF Some]
      by (simp_all add: v_def)
    define n where "n = unat (read_u16 v 2)"
    have n: "length v \<ge> 4 \<Longrightarrow> unat (read_u16 (v @ b) 2) = n"
      by (simp add: n_def read_u16_append)
    have "resume (dec s fs v) b = dec s fs (v @ b)" for s
    proof (cases "length v < 4 \<or> \<not> n < kMinimumDataLength \<and> length v < n + 6")
      case True
      then show ?thesis by (subst dec_at_header [OF v(1)]) (auto simp: n_def Let_def)
    next
      case False
      then have len: "4 \<le> length v" by simp
      have eqs: "dec s fs v = (if n < kMinimumDataLength \<or> \<not> frame_ok v n then dec s fs (drop 1 v)
            else dec (s @ payload (frame_at v n)) (fs @ [frame_at v n]) (drop (n + 6) v))"
          "dec s fs (v @ b) = (if n < kMinimumDataLength \<or> \<not> frame_ok v n then dec s fs (drop 1 v @ b)
            else dec (s @ payload (frame_at v n)) (fs @ [frame_at v n]) (drop (n + 6) v @ b))"
        using False ne len
        by (simp_all only: dec_at_header [OF v(1)] dec_at_header [OF vb] Let_def n [OF len] n_def [symmetric])
          (auto simp: frame_ok_append frame_at_append)
      have "length (drop 1 v) < length a" "length (drop (n + 6) v) < length a"
        using v(2) ne by (auto simp: less_le_trans [of _ "length v"])
      from this [THEN IH] show ?thesis by (simp add: eqs)
    qed
    then show ?thesis by (simp add: split)
  qed
qed

lemma decoder_append_dec:
  "decoder_append bytes d = dec (decoded_text d) (decoded_frames d) (pending d @ bytes)"
  by (cases d) (simp add: decoder_append_def)

section \<open>Inverting the encoder\<close>

lemma length_be16 [simp]: "length (be16 w) = 2"
  by (simp add: be16_def)

lemma read_u16_be16: "length xs = n \<Longrightarrow> read_u16 (xs @ be16 w @ ys) n = w"
  by (auto simp: read_u16_def be16_def nth_append)

lemma dec_encoded:
  assumes "encode_frame ty pl = Some f"
  shows "dec t fs (f @ rest) = dec (t @ pl) (fs @ [\<lparr>frame_type = ty, payload = pl\<rparr>]) rest"
proof -
  define n where "n = length pl + kMinimumDataLength"
  define body where "body = frame_body ty pl"
  have len: "length pl \<le> kMaximumPayload" using assms by (auto simp: encode_frame_def split: if_splits)
  have f: "f = be16 kHeader @ body @ be16 (crc16_ccitt body) @ be16 kFooter"
    using assms len by (auto simp: encode_frame_def Let_def body_def)
  have body: "body = be16 (word_of_nat n) @ [chr_of ty] @ pl" "length body = n"
    by (simp_all add: body_def frame_body_def n_def kMinimumDataLength_def)
  have n: "unat (word_of_nat n :: u16) = n"
    by (subst unat_of_nat) (use len in \<open>simp add: n_def kMaximumPayload_def kMinimumDataLength_def\<close>)
  let ?p = "f @ rest"
  have sw: "starts_with [CHR 0x86, CHR 0x68] ?p" by (simp add: f header_bytes)
  have r2: "read_u16 ?p 2 = word_of_nat n"
    by (simp add: f body(1) read_u16_be16)
  have "frame_ok ?p n"
    using read_u16_be16 [of "be16 kHeader @ body" "n + 2"] read_u16_be16 [of "be16 kHeader @ body @ be16 (crc16_ccitt body)" "n + 4"]
    by (simp add: frame_ok_def f body(2))
  moreover have "frame_at ?p n = \<lparr>frame_type = ty, payload = pl\<rparr>"
    by (simp add: frame_at_def f body(1) n_def nth_append header_bytes be16_def)
  moreover have "drop (n + 6) ?p = rest" and "n + 6 \<le> length ?p" by (simp_all add: f body(2))
  moreover have "kMinimumDataLength \<le> n" by (simp add: n_def)
  ultimately show ?thesis
    by (simp add: dec_at_header [OF sw] r2 n)
qed

lemma dec_Nil [simp]: "dec t fs [] = \<lparr>pending = [], decoded_text = t, decoded_frames = fs\<rparr>"
  by (simp add: dec_no_header str_find_Nil)

abbreviation encodes :: "frame \<Rightarrow> string \<Rightarrow> bool" where
  "encodes fr b \<equiv> encode_frame (frame_type fr) (payload fr) = Some b"

lemma dec_frames:
  assumes "list_all2 encodes frs bs"
  shows "dec t fs (concat bs) =
    \<lparr>pending = [], decoded_text = t @ concat (map payload frs), decoded_frames = fs @ frs\<rparr>"
  using assms
  by (induction arbitrary: t fs rule: list_all2_induct) (simp_all add: dec_encoded)

interpretation decoder: chunked_input decoder_append
proof unfold_locales
  fix a b d
  show "decoder_append b (decoder_append a d) = decoder_append (a @ b) d"
    using resume_dec [where a = "pending d @ a" and b = b and t = "decoded_text d" and fs = "decoded_frames d"]
    by (simp add: decoder_append_dec resume_def)
qed

section \<open>Console input\<close>

text \<open>
  What the console encoder is meant to send, read off the text one character at a time: the
  text is cut at each line feed, a carriage return at the end of a line is dropped, and every
  non-empty line is one command.
\<close>

fun console_lines :: "string \<Rightarrow> string list" where
  "console_lines [] = [[]]"
| "console_lines (c # s) =
     (if c = CHR 0x0A then [] # console_lines s
      else case console_lines s of [] \<Rightarrow> [[c]] | l # ls \<Rightarrow> (c # l) # ls)"

definition console_commands :: "string \<Rightarrow> string list" where
  "console_commands s = filter (\<lambda>l. l \<noteq> []) (map drop_cr (console_lines s))"

lemma starts_with_single [simp]: "starts_with [a] (c # s) \<longleftrightarrow> a = c"
  by simp

lemma console_lines_find:
  "console_lines s = (case str_find [CHR 0x0A] s of None \<Rightarrow> [s]
     | Some n \<Rightarrow> take n s # console_lines (drop (n + 1) s))"
  by (induction s) (auto simp: str_find_Nil str_find_Cons split: option.splits)

lemma encode_lines_Nil [simp]: "encode_lines [] = Some []"
  by (simp add: encode_lines.simps)

lemma console_commands_Nil [simp]: "console_commands [] = []"
  by (simp add: console_commands_def drop_cr_def)

lemma length_drop_cr: "length (drop_cr s) \<le> length s"
  by (simp add: drop_cr_def)

lemma encode_frame_Some: "length pl \<le> kMaximumPayload \<Longrightarrow> \<exists>f. encode_frame ty pl = Some f"
  by (simp add: encode_frame_def Let_def)

lemma encode_lines_encodes:
  "length s \<le> kMaximumPayload \<Longrightarrow>
   \<exists>bs. encode_lines s = Some (concat bs) \<and>
        list_all2 encodes (map (\<lambda>c. \<lparr>frame_type = ControlMulti, payload = c\<rparr>) (console_commands s)) bs"
proof (induction s rule: length_induct)
  case (1 s)
  show ?case
  proof (cases "s = []")
    case True
    then show ?thesis by (intro exI [of _ "[]"]) simp
  next
    case False
    define newline where "newline = str_find [CHR 0x0A] s"
    define command where "command = drop_cr (take (case newline of None \<Rightarrow> length s | Some n \<Rightarrow> n) s)"
    define rest where "rest = (case newline of None \<Rightarrow> [] | Some n \<Rightarrow> drop (n + 1) s)"
    have "length rest < length s"
      using False by (auto simp: rest_def split: option.splits)
    moreover from this have "length rest \<le> kMaximumPayload" using 1(2) by simp
    ultimately obtain bs where bs: "encode_lines rest = Some (concat bs)"
      "list_all2 encodes (map (\<lambda>c. \<lparr>frame_type = ControlMulti, payload = c\<rparr>) (console_commands rest)) bs"
      using 1(1) by blast
    have "length command \<le> kMaximumPayload"
      using 1(2) by (auto simp: command_def intro!: order_trans [OF length_drop_cr] split: option.splits)
    then obtain f where f: "encode_frame ControlMulti command = Some f"
      using encode_frame_Some by blast
    have cmds: "console_commands s = (if command = [] then [] else [command]) @ console_commands rest"
      by (auto simp: console_commands_def command_def rest_def newline_def
          console_lines_find [of s] drop_cr_def split: option.splits)
    have enc: "encode_lines s = (if command = [] then encode_lines rest
        else case encode_frame ControlMulti command of None \<Rightarrow> None
          | Some f \<Rightarrow> map_option (\<lambda>fs. f @ fs) (encode_lines rest))"
      unfolding command_def rest_def newline_def
      by (subst encode_lines.simps) (simp only: False Let_def if_False)
    show ?thesis
      using bs f by (intro exI [of _ "(if command = [] then [] else [f]) @ bs"]) (simp add: enc cmds)
  qed
qed

text \<open>The frames a console input becomes.\<close>

definition console_frames :: "string \<Rightarrow> frame list" where
  "console_frames s =
     (if is_single_control (strip_line_end s)
      then [\<lparr>frame_type = ControlSingle, payload = strip_line_end s\<rparr>]
      else map (\<lambda>c. \<lparr>frame_type = ControlMulti, payload = c\<rparr>) (console_commands s))"

lemma console_input_encodes:
  assumes "s \<noteq> []" and "length s \<le> kMaximumPayload"
  shows "\<exists>bs. encode_console_input s = Some (concat bs) \<and> list_all2 encodes (console_frames s) bs"
proof (cases "is_single_control (strip_line_end s)")
  case True
  then have "length (strip_line_end s) \<le> kMaximumPayload"
    by (simp add: is_single_control_def kMaximumPayload_def kMinimumDataLength_def split: list.splits)
  then obtain f where f: "encode_frame ControlSingle (strip_line_end s) = Some f"
    using encode_frame_Some by blast
  with True assms(1) show ?thesis
    by (intro exI [of _ "[f]"]) (simp add: encode_console_input_def console_frames_def)
next
  case False
  obtain bs where "encode_lines s = Some (concat bs)"
    "list_all2 encodes (map (\<lambda>c. \<lparr>frame_type = ControlMulti, payload = c\<rparr>) (console_commands s)) bs"
    using encode_lines_encodes [OF assms(2)] by blast
  with False assms(1) show ?thesis
    by (intro exI [of _ bs]) (simp add: encode_console_input_def console_frames_def)
qed

lemma decoder_append_frames:
  assumes "list_all2 encodes frs bs" "pending d = []"
  shows "decoder_append (concat bs) d =
    \<lparr>pending = [], decoded_text = decoded_text d @ concat (map payload frs), decoded_frames = decoded_frames d @ frs\<rparr>"
  using dec_frames [OF assms(1), of "decoded_text d" "decoded_frames d"] by (simp add: decoder_append_dec assms(2))

section \<open>Properties\<close>

text \<open>
  C6: the decoder does not depend on the chunking of the stream: for every decoder state,
  feeding it a list of chunks one after the other ends in the state that feeding it their
  concatenation at once gives (leftover bytes, text and frames alike).
\<close>

theorem decoder_chunk_independent:
  "fold decoder_append (c # chunks) d = decoder_append (concat (c # chunks)) d"
  by (simp add: decoder.fold_feed)

text \<open>
  C7: decoding inverts encoding: if every frame of a list is within the size limit and the
  transport delivers the encoded bytes cut into chunks in any way, a fresh decoder ends with
  exactly those frames in order, with their payloads as its text, and with nothing left over.
\<close>

theorem decode_encode_roundtrip:
  assumes "list_all2 (\<lambda>fr b. encode_frame (frame_type fr) (payload fr) = Some b) frs bs"
    and "c @ concat chunks = concat bs"
  shows "fold decoder_append (c # chunks) decoder_reset =
    \<lparr>pending = [], decoded_text = concat (map payload frs), decoded_frames = frs\<rparr>"
proof -
  have "fold decoder_append (c # chunks) decoder_reset = decoder_append (concat bs) decoder_reset"
    by (simp add: decoder.fold_feed assms(2))
  then show ?thesis
    using dec_frames [OF assms(1), of "[]" "[]"] by (simp add: decoder_append_dec decoder_reset_def)
qed

theorem decode_encode_roundtrip_witness:
  "fold decoder_append
     [[CHR 0x86], [CHR 0x68, CHR 0x00, CHR 0x04, CHR 0xA1, CHR 0x3F], [CHR 0x35, CHR 0x33, CHR 0x55, CHR 0xAA]]
     decoder_reset =
   \<lparr>pending = [], decoded_text = ''?'', decoded_frames = [\<lparr>frame_type = ControlSingle, payload = ''?''\<rparr>]\<rparr>"
proof -
  let ?fr = "\<lparr>frame_type = ControlSingle, payload = ''?''\<rparr>"
  let ?bytes = "[CHR 0x86, CHR 0x68, CHR 0x00, CHR 0x04, CHR 0xA1, CHR 0x3F, CHR 0x35, CHR 0x33, CHR 0x55, CHR 0xAA]"
  have "crc16_ccitt [CHR 0x00, CHR 0x04, CHR 0xA1, CHR 0x3F] = 0x3533" by code_simp
  moreover have "frame_body ControlSingle ''?'' = [CHR 0x00, CHR 0x04, CHR 0xA1, CHR 0x3F]" by code_simp
  moreover have "be16 0x3533 @ be16 kFooter = [CHR 0x35, CHR 0x33, CHR 0x55, CHR 0xAA]" by code_simp
  ultimately have "encode_frame ControlSingle ''?'' = Some ?bytes"
    by (simp add: encode_frame_def header_bytes kMaximumPayload_def kMinimumDataLength_def)
  then show ?thesis
    using decode_encode_roundtrip [of "[?fr]" "[?bytes]" "[CHR 0x86]"
        "[[CHR 0x68, CHR 0x00, CHR 0x04, CHR 0xA1, CHR 0x3F], [CHR 0x35, CHR 0x33, CHR 0x55, CHR 0xAA]]"]
    by simp
qed

text \<open>
  console text of up to the maximum payload is always encoded, and a decoder that receives
  the bytes sees one \<open>ControlSingle\<close> frame when the text is a single control character followed
  by line ends, and otherwise one \<open>ControlMulti\<close> frame per non-empty line, in order, with the
  line ends removed.
\<close>

theorem console_input_frames:
  assumes "s \<noteq> []" and "length s \<le> kMaximumPayload"
  shows "\<exists>bytes. encode_console_input s = Some bytes \<and>
    decoded_frames (decoder_append bytes decoder_reset) =
      (if is_single_control (strip_line_end s)
       then [\<lparr>frame_type = ControlSingle, payload = strip_line_end s\<rparr>]
       else map (\<lambda>c. \<lparr>frame_type = ControlMulti, payload = c\<rparr>) (console_commands s))"
proof -
  obtain bs where "encode_console_input s = Some (concat bs)" "list_all2 encodes (console_frames s) bs"
    using console_input_encodes [OF assms] by blast
  then show ?thesis
    using decoder_append_frames [of "console_frames s" bs decoder_reset] by (simp add: decoder_reset_def console_frames_def)
qed

theorem console_input_frames_witness:
  "\<exists>bytes. encode_console_input [CHR ''?'', CHR 0x0A] = Some bytes \<and>
    decoded_frames (decoder_append bytes decoder_reset) =
      (if is_single_control (strip_line_end [CHR ''?'', CHR 0x0A])
       then [\<lparr>frame_type = ControlSingle, payload = strip_line_end [CHR ''?'', CHR 0x0A]\<rparr>]
       else map (\<lambda>c. \<lparr>frame_type = ControlMulti, payload = c\<rparr>) (console_commands [CHR ''?'', CHR 0x0A]))"
  by (rule console_input_frames) (simp_all add: kMaximumPayload_def kMinimumDataLength_def)

end
