(* ===== verification/Lpc_Heap.thy ===== *)
theory Lpc_Heap
  imports Sim_Prelude
begin

text \<open>
  \<^verbatim>\<open>UnifiedHeapModel\<close> of \<^verbatim>\<open>src/firmware/lpc_memory_accounting.cpp\<close>: the model of the firmware's
  FreeRTOS heap_5, a first-fit allocator with coalescing over the main SRAM and the AHB SRAM.
  Sizes and addresses are 32-bit words and allocation ids 64-bit words, as in the code; a C++
  exception is an \<open>Inl\<close> result.  The invariant \<open>heap_inv\<close> says that the chunks of each region
  tile it without gap or overlap, that no two adjacent chunks are both free, that the index finds
  exactly the used chunks, and that every counter agrees with the chunk list.
\<close>

section \<open>Data\<close>

datatype memory_region = MainSram | AhbSram | UnifiedHeap

datatype heap_error = InvalidArgument | OverflowError

record main_sram_layout =
  ram_start :: u32
  ram_end :: u32
  main_static_end :: u32
  stack_top :: u32
  stack_limit :: u32
  main_heap_start :: u32
  main_heap_end :: u32

record ahb_layout =
  region_start :: u32
  region_end :: u32
  ahb_static_end :: u32
  ahb_heap_start :: u32
  ahb_heap_end :: u32

record chunk =
  region :: memory_region
  address :: u32
  span_bytes :: u32
  payload_bytes :: u32
  allocation_id :: u64
  used :: bool

record heap_model =
  main_layout :: main_sram_layout
  the_ahb_layout :: ahb_layout
  chunks :: "chunk list"
  allocation_chunks :: "u64 \<rightharpoonup> nat"
  live_payload_bytes :: u32
  peak_live_payload_bytes :: u32
  main_live_payload_bytes :: u32
  main_peak_live_payload_bytes :: u32
  ahb_live_payload_bytes :: u32
  ahb_peak_live_payload_bytes :: u32
  minimum_ever_free_bytes :: u32
  successful_allocation_count :: u32
  successful_free_count :: u32
  failed_allocation_count :: u32
  failed_allocation_bytes :: u64

definition kHeapHeaderBytes :: u32 where "kHeapHeaderBytes = 8"
definition kHeapAlignment :: u32 where "kHeapAlignment = 8"
definition kHeapMinimumBlockBytes :: u32 where "kHeapMinimumBlockBytes = 2 * kHeapHeaderBytes"
definition kHeapRegionSentinelBytes :: u32 where "kHeapRegionSentinelBytes = 8"

lemmas heap_constants = kHeapHeaderBytes_def kHeapAlignment_def kHeapMinimumBlockBytes_def
  kHeapRegionSentinelBytes_def

section \<open>Sizes\<close>

definition checked_size :: "u64 \<Rightarrow> heap_error + u32" where
  "checked_size bytes = (if bytes > 0xFFFFFFFF then Inl OverflowError else Inr (ucast bytes))"

definition aligned_span :: "u64 \<Rightarrow> u32 \<Rightarrow> u32 \<Rightarrow> heap_error + u32" where
  "aligned_span payload header_bytes alignment =
     (case checked_size payload of
        Inl e \<Rightarrow> Inl e
      | Inr payload \<Rightarrow>
          if payload > 0xFFFFFFFF - header_bytes - (alignment - 1) then Inl OverflowError
          else Inr ((payload + header_bytes + alignment - 1) AND NOT (alignment - 1)))"

section \<open>The chunk list\<close>

definition rebuild_allocation_index :: "chunk list \<Rightarrow> (u64 \<rightharpoonup> nat)" where
  "rebuild_allocation_index cs =
     fold (\<lambda>i index. if used (cs ! i) \<and> index (allocation_id (cs ! i)) = None
                     then index(allocation_id (cs ! i) \<mapsto> i) else index)
       [0..<length cs] Map.empty"

text \<open>The scan of the loop in \<^verbatim>\<open>allocate\<close>: the first chunk that is free and large enough.\<close>

fun first_fit :: "u32 \<Rightarrow> chunk list \<Rightarrow> nat option" where
  "first_fit required [] = None"
| "first_fit required (c # cs) =
     (if used c \<or> span_bytes c < required then map_option Suc (first_fit required cs) else Some 0)"

definition total_free :: "chunk list \<Rightarrow> u32" where
  "total_free cs = foldl (\<lambda>total c. if \<not> used c then total + span_bytes c else total) 0 cs"

function coalesce_free_chunks :: "chunk list \<Rightarrow> chunk list" where
  "coalesce_free_chunks [] = []"
| "coalesce_free_chunks [c] = [c]"
| "coalesce_free_chunks (c # n # rest) =
     (if \<not> used c \<and> \<not> used n \<and> region c = region n \<and> address c + span_bytes c = address n
      then coalesce_free_chunks (c\<lparr>span_bytes := span_bytes c + span_bytes n\<rparr> # rest)
      else c # coalesce_free_chunks (n # rest))"
  by pat_completeness auto
termination
  by (relation "measure length") auto

section \<open>Operations\<close>

definition free_chunk :: "memory_region \<Rightarrow> u32 \<Rightarrow> u32 \<Rightarrow> chunk" where
  "free_chunk r a n = \<lparr>region = r, address = a, span_bytes = n, payload_bytes = 0, allocation_id = 0, used = False\<rparr>"

definition add_region :: "memory_region \<Rightarrow> u32 \<Rightarrow> u32 \<Rightarrow> heap_error + chunk" where
  "add_region r start end =
     (let raw_capacity = end - start
      in if raw_capacity \<le> kHeapRegionSentinelBytes then Inl InvalidArgument
         else Inr (free_chunk r start (raw_capacity - kHeapRegionSentinelBytes)))"

definition heap_reset :: "heap_model \<Rightarrow> heap_error + heap_model" where
  "heap_reset h =
     (case add_region MainSram (main_heap_start (main_layout h)) (main_heap_end (main_layout h)) of
        Inl e \<Rightarrow> Inl e
      | Inr main \<Rightarrow>
          (case add_region AhbSram (ahb_heap_start (the_ahb_layout h)) (ahb_heap_end (the_ahb_layout h)) of
             Inl e \<Rightarrow> Inl e
           | Inr ahb \<Rightarrow>
               Inr (h\<lparr>chunks := [main, ahb],
                      allocation_chunks := Map.empty,
                      live_payload_bytes := 0, peak_live_payload_bytes := 0,
                      main_live_payload_bytes := 0, main_peak_live_payload_bytes := 0,
                      ahb_live_payload_bytes := 0, ahb_peak_live_payload_bytes := 0,
                      failed_allocation_count := 0, failed_allocation_bytes := 0,
                      successful_allocation_count := 0, successful_free_count := 0,
                      minimum_ever_free_bytes := foldl (\<lambda>n c. n + span_bytes c) 0 [main, ahb]\<rparr>)))"

definition main_layout_valid :: "main_sram_layout \<Rightarrow> bool" where
  "main_layout_valid m \<longleftrightarrow>
     ram_start m \<le> main_static_end m \<and> main_static_end m = main_heap_start m \<and>
     main_heap_start m < main_heap_end m \<and> main_heap_end m < stack_limit m \<and>
     stack_limit m \<le> stack_top m \<and> stack_top m \<le> ram_end m"

definition ahb_layout_valid :: "ahb_layout \<Rightarrow> bool" where
  "ahb_layout_valid a \<longleftrightarrow>
     region_start a \<le> ahb_static_end a \<and> ahb_static_end a = ahb_heap_start a \<and>
     ahb_heap_start a < ahb_heap_end a \<and> ahb_heap_end a \<le> region_end a"

definition new_heap_model :: "main_sram_layout \<Rightarrow> ahb_layout \<Rightarrow> heap_error + heap_model" where
  "new_heap_model m a =
     (if \<not> main_layout_valid m then Inl InvalidArgument
      else if \<not> ahb_layout_valid a then Inl InvalidArgument
      else if main_heap_start m AND (kHeapAlignment - 1) \<noteq> 0 \<or> ahb_heap_start a AND (kHeapAlignment - 1) \<noteq> 0
      then Inl InvalidArgument
      else heap_reset
        \<lparr>main_layout = m, the_ahb_layout = a, chunks = [], allocation_chunks = Map.empty,
         live_payload_bytes = 0, peak_live_payload_bytes = 0,
         main_live_payload_bytes = 0, main_peak_live_payload_bytes = 0,
         ahb_live_payload_bytes = 0, ahb_peak_live_payload_bytes = 0,
         minimum_ever_free_bytes = 0, successful_allocation_count = 0, successful_free_count = 0,
         failed_allocation_count = 0, failed_allocation_bytes = 0\<rparr>)"

text \<open>Splitting the chunk at \<open>index\<close> when the remainder is worth a chunk of its own.\<close>

definition split_chunk :: "u32 \<Rightarrow> nat \<Rightarrow> chunk list \<Rightarrow> chunk list" where
  "split_chunk required index cs =
     (let c = cs ! index; remaining = span_bytes c - required
      in if remaining > kHeapMinimumBlockBytes
         then take index cs @ [c\<lparr>span_bytes := required\<rparr>,
                free_chunk (region c) (address c + required) remaining] @ drop (index + 1) cs
         else cs)"

definition heap_allocate :: "u64 \<Rightarrow> u64 \<Rightarrow> heap_model \<Rightarrow> heap_error + memory_region option \<times> heap_model" where
  "heap_allocate aid target_payload_bytes h =
     (if aid \<in> dom (allocation_chunks h) then Inl InvalidArgument
      else case checked_size target_payload_bytes of Inl e \<Rightarrow> Inl e | Inr payload \<Rightarrow>
      (case aligned_span target_payload_bytes kHeapHeaderBytes kHeapAlignment of Inl e \<Rightarrow> Inl e | Inr required \<Rightarrow>
      (case first_fit required (chunks h) of
         None \<Rightarrow> Inr (None, h\<lparr>failed_allocation_count := failed_allocation_count h + 1,
                              failed_allocation_bytes := failed_allocation_bytes h + ucast payload\<rparr>)
       | Some index \<Rightarrow>
           let cs = split_chunk required index (chunks h);
               c = (cs ! index)\<lparr>used := True, payload_bytes := payload, allocation_id := aid\<rparr>;
               cs = cs[index := c];
               live = live_payload_bytes h + payload;
               h = h\<lparr>chunks := cs, live_payload_bytes := live,
                     peak_live_payload_bytes := max (peak_live_payload_bytes h) live\<rparr>;
               h = (if region c = MainSram
                    then h\<lparr>main_live_payload_bytes := main_live_payload_bytes h + payload,
                           main_peak_live_payload_bytes :=
                             max (main_peak_live_payload_bytes h) (main_live_payload_bytes h + payload)\<rparr>
                    else h\<lparr>ahb_live_payload_bytes := ahb_live_payload_bytes h + payload,
                           ahb_peak_live_payload_bytes :=
                             max (ahb_peak_live_payload_bytes h) (ahb_live_payload_bytes h + payload)\<rparr>)
           in Inr (Some (region c),
                   h\<lparr>successful_allocation_count := successful_allocation_count h + 1,
                     allocation_chunks := rebuild_allocation_index cs,
                     minimum_ever_free_bytes := min (minimum_ever_free_bytes h) (total_free cs)\<rparr>))))"

definition heap_deallocate :: "u64 \<Rightarrow> heap_model \<Rightarrow> memory_region option \<times> heap_model" where
  "heap_deallocate aid h =
     (case allocation_chunks h aid of
        None \<Rightarrow> (None, h)
      | Some index \<Rightarrow>
          let c = chunks h ! index;
              h = h\<lparr>live_payload_bytes := live_payload_bytes h - payload_bytes c\<rparr>;
              h = (if region c = MainSram
                   then h\<lparr>main_live_payload_bytes := main_live_payload_bytes h - payload_bytes c\<rparr>
                   else h\<lparr>ahb_live_payload_bytes := ahb_live_payload_bytes h - payload_bytes c\<rparr>);
              cs = coalesce_free_chunks
                     ((chunks h)[index := c\<lparr>payload_bytes := 0, allocation_id := 0, used := False\<rparr>])
          in (Some (region c),
              h\<lparr>chunks := cs, successful_free_count := successful_free_count h + 1,
                allocation_chunks := rebuild_allocation_index cs\<rparr>))"

section \<open>Invariant\<close>

text \<open>The chunks of region \<open>r\<close>, in order, fill the address range from \<open>a\<close> to \<open>b\<close>.\<close>

fun tiles :: "memory_region \<Rightarrow> nat \<Rightarrow> nat \<Rightarrow> chunk list \<Rightarrow> bool" where
  "tiles r a b [] \<longleftrightarrow> a = b"
| "tiles r a b (c # cs) \<longleftrightarrow>
     region c = r \<and> unat (address c) = a \<and> span_bytes c \<noteq> 0 \<and> tiles r (a + unat (span_bytes c)) b cs"

definition in_region :: "memory_region \<Rightarrow> chunk list \<Rightarrow> chunk list" where
  "in_region r cs = filter (\<lambda>c. region c = r) cs"

definition mergeable :: "chunk \<Rightarrow> chunk \<Rightarrow> bool" where
  "mergeable c n \<longleftrightarrow> \<not> used c \<and> \<not> used n \<and> region c = region n \<and> address c + span_bytes c = address n"

definition chunk_ok :: "chunk \<Rightarrow> bool" where
  "chunk_ok c \<longleftrightarrow> region c \<noteq> UnifiedHeap \<and> 8 dvd unat (address c) \<and>
     (used c \<longrightarrow> unat (payload_bytes c) + 8 \<le> unat (span_bytes c)) \<and>
     (\<not> used c \<longrightarrow> payload_bytes c = 0 \<and> allocation_id c = 0)"

text \<open>The payload bytes of the used chunks that satisfy \<open>P\<close>, and the ids of the used chunks.\<close>

definition live_sum :: "(chunk \<Rightarrow> bool) \<Rightarrow> chunk list \<Rightarrow> nat" where
  "live_sum P cs = (\<Sum>c\<leftarrow>cs. if used c \<and> P c then unat (payload_bytes c) else 0)"

definition free_sum :: "chunk list \<Rightarrow> nat" where
  "free_sum cs = (\<Sum>c\<leftarrow>cs. if used c then 0 else unat (span_bytes c))"

definition live_ids :: "chunk list \<Rightarrow> u64 list" where
  "live_ids cs = map allocation_id (filter used cs)"

definition region_rank :: "memory_region \<Rightarrow> nat" where
  "region_rank r = (case r of MainSram \<Rightarrow> 0 | AhbSram \<Rightarrow> 1 | UnifiedHeap \<Rightarrow> 2)"

definition main_span :: "heap_model \<Rightarrow> nat \<times> nat" where
  "main_span h = (unat (main_heap_start (main_layout h)), unat (main_heap_end (main_layout h)) - 8)"

definition ahb_span :: "heap_model \<Rightarrow> nat \<times> nat" where
  "ahb_span h = (unat (ahb_heap_start (the_ahb_layout h)), unat (ahb_heap_end (the_ahb_layout h)) - 8)"

text \<open>Both regions are larger than their sentinel, aligned, and together smaller than 4 GiB.\<close>

definition layouts_ok :: "main_sram_layout \<Rightarrow> ahb_layout \<Rightarrow> bool" where
  "layouts_ok m a \<longleftrightarrow>
     unat (main_heap_start m) + 8 < unat (main_heap_end m) \<and>
     unat (ahb_heap_start a) + 8 < unat (ahb_heap_end a) \<and>
     8 dvd unat (main_heap_start m) \<and> 8 dvd unat (ahb_heap_start a) \<and>
     (unat (main_heap_end m) - unat (main_heap_start m)) + (unat (ahb_heap_end a) - unat (ahb_heap_start a)) < 2 ^ 32"

definition chunks_inv :: "heap_model \<Rightarrow> chunk list \<Rightarrow> bool" where
  "chunks_inv h cs \<longleftrightarrow>
     tiles MainSram (fst (main_span h)) (snd (main_span h)) (in_region MainSram cs) \<and>
     tiles AhbSram (fst (ahb_span h)) (snd (ahb_span h)) (in_region AhbSram cs) \<and>
     sorted (map (region_rank \<circ> region) cs) \<and>
     list_all chunk_ok cs \<and> distinct (live_ids cs)"

definition coalesced :: "chunk list \<Rightarrow> bool" where
  "coalesced cs \<longleftrightarrow> successively (\<lambda>c n. \<not> mergeable c n) cs"

definition heap_inv :: "heap_model \<Rightarrow> bool" where
  "heap_inv h \<longleftrightarrow>
     layouts_ok (main_layout h) (the_ahb_layout h) \<and>
     chunks_inv h (chunks h) \<and> coalesced (chunks h) \<and>
     allocation_chunks h = rebuild_allocation_index (chunks h) \<and>
     unat (live_payload_bytes h) = live_sum (\<lambda>_. True) (chunks h) \<and>
     unat (main_live_payload_bytes h) = live_sum (\<lambda>c. region c = MainSram) (chunks h) \<and>
     unat (ahb_live_payload_bytes h) = live_sum (\<lambda>c. region c = AhbSram) (chunks h) \<and>
     live_payload_bytes h \<le> peak_live_payload_bytes h \<and>
     main_live_payload_bytes h \<le> main_peak_live_payload_bytes h \<and>
     ahb_live_payload_bytes h \<le> ahb_peak_live_payload_bytes h \<and>
     unat (minimum_ever_free_bytes h) \<le> free_sum (chunks h) \<and>
     successful_allocation_count h - successful_free_count h = word_of_nat (length (live_ids (chunks h)))"

section \<open>The allocation index\<close>

lemma rebuild_fold:
  "fold (\<lambda>i index. if used (cs ! i) \<and> index (allocation_id (cs ! i)) = None
                     then index(allocation_id (cs ! i) \<mapsto> i) else index) [0..<n] Map.empty a = Some i \<longleftrightarrow>
   i < n \<and> used (cs ! i) \<and> allocation_id (cs ! i) = a \<and>
   (\<forall>j < i. \<not> (used (cs ! j) \<and> allocation_id (cs ! j) = a))"
proof (induction n arbitrary: i a)
  case (Suc n)
  let ?f = "\<lambda>i index. if used (cs ! i) \<and> index (allocation_id (cs ! i)) = None
                     then index(allocation_id (cs ! i) \<mapsto> i) else index"
  let ?m = "fold ?f [0..<n] Map.empty"
  have none: "?m b = None \<longleftrightarrow> (\<forall>j < n. \<not> (used (cs ! j) \<and> allocation_id (cs ! j) = b))" for b
  proof
    assume "?m b = None"
    show "\<forall>j < n. \<not> (used (cs ! j) \<and> allocation_id (cs ! j) = b)"
    proof (intro allI impI notI)
      fix j assume j: "j < n" "used (cs ! j) \<and> allocation_id (cs ! j) = b"
      define k where "k = (LEAST k. used (cs ! k) \<and> allocation_id (cs ! k) = b)"
      have k: "used (cs ! k) \<and> allocation_id (cs ! k) = b" unfolding k_def by (rule LeastI) (rule j(2))
      have "k \<le> j" unfolding k_def using j(2) by (rule Least_le)
      moreover have "\<forall>l < k. \<not> (used (cs ! l) \<and> allocation_id (cs ! l) = b)"
        unfolding k_def using not_less_Least by blast
      ultimately have "?m b = Some k" using Suc.IH [of b k] k j(1) by auto
      with \<open>?m b = None\<close> show False by simp
    qed
  next
    assume none: "\<forall>j < n. \<not> (used (cs ! j) \<and> allocation_id (cs ! j) = b)"
    show "?m b = None"
    proof (cases "?m b")
      case (Some k)
      with Suc.IH [of b k] none show ?thesis by blast
    qed
  qed
  have step: "fold ?f [0..<Suc n] Map.empty =
      (if used (cs ! n) \<and> ?m (allocation_id (cs ! n)) = None then ?m(allocation_id (cs ! n) \<mapsto> n) else ?m)"
    by simp
  show ?case
  proof (cases "used (cs ! n) \<and> allocation_id (cs ! n) = a \<and> ?m a = None")
    case True
    then have "fold ?f [0..<Suc n] Map.empty a = Some n" by (simp add: step)
    moreover have "\<forall>j < n. \<not> (used (cs ! j) \<and> allocation_id (cs ! j) = a)" using True none [of a] by blast
    ultimately show ?thesis using True by (metis less_Suc_eq nat_neq_iff option.inject)
  next
    case False
    then have eq: "fold ?f [0..<Suc n] Map.empty a = ?m a" by (auto simp: step)
    have "\<not> (used (cs ! n) \<and> allocation_id (cs ! n) = a \<and>
        (\<forall>j < n. \<not> (used (cs ! j) \<and> allocation_id (cs ! j) = a)))"
      using False none [of a] by blast
    then show ?thesis
      unfolding eq Suc.IH [of a i] by (cases "i = n") (simp_all add: less_Suc_eq)
  qed
qed simp

lemma index_Some_iff:
  assumes "distinct (live_ids cs)"
  shows "rebuild_allocation_index cs a = Some i \<longleftrightarrow> i < length cs \<and> used (cs ! i) \<and> allocation_id (cs ! i) = a"
proof -
  have uniq: "i = j" if "i < length cs" "used (cs ! i)" "j < length cs" "used (cs ! j)"
    "allocation_id (cs ! i) = allocation_id (cs ! j)" for i j
    using assms that
  proof (induction cs arbitrary: i j)
    case (Cons c cs)
    then show ?case
      by (cases i; cases j) (auto simp: live_ids_def image_iff split: if_splits; metis nth_mem)+
  qed simp
  then show ?thesis
    unfolding rebuild_allocation_index_def rebuild_fold by (metis less_trans nat_neq_iff)
qed

lemma index_dom: "distinct (live_ids cs) \<Longrightarrow> dom (rebuild_allocation_index cs) = set (live_ids cs)"
  by (auto simp: dom_def index_Some_iff live_ids_def image_iff in_set_conv_nth)

section \<open>Aligned sizes\<close>

lemma and_not_mask: "(x :: 'a::len word) AND NOT (mask n) = push_bit n (drop_bit n x)"
  by (rule bit_word_eqI) (auto simp: bit_simps)

lemma unat_and_not_7: "unat ((x :: u32) AND NOT 7) = 8 * (unat x div 8)"
proof -
  have mask: "(7 :: u32) = mask 3" by (simp add: mask_eq_exp_minus_1)
  have "take_bit 32 (8 * (unat x div 8)) = 8 * (unat x div 8)"
    using unat_u32_lt [of x] by (simp add: take_bit_eq_mod)
  moreover have "unat (x AND NOT 7) = take_bit 32 (push_bit 3 (drop_bit 3 (unat x)))"
    by (simp only: mask and_not_mask unsigned_push_bit_eq unsigned_drop_bit_eq) (simp add: take_bit_eq_mod unat_u32_lt)
  ultimately show ?thesis by (simp add: push_bit_eq_mult drop_bit_eq_div mult.commute)
qed

lemma aligned_span_bounds:
  assumes "checked_size n = Inr p" and "aligned_span n kHeapHeaderBytes kHeapAlignment = Inr req"
  shows "8 dvd unat req" and "unat p + 8 \<le> unat req" and "unat req < unat p + 16" and "unat p = unat n"
proof -
  have "n \<le> 0xFFFFFFFF" and p: "p = ucast n"
    using assms(1) by (auto simp: checked_size_def split: if_splits)
  then show "unat p = unat n" 
    by (simp add: unsigned_ucast_eq take_bit_eq_mod word_le_nat_alt)
  have le: "p \<le> 0xFFFFFFF0" and req: "req = (p + 15) AND NOT 7"
    using assms by (auto simp: aligned_span_def heap_constants add.commute split: if_splits)
  from le have sum: "unat (p + 15) = unat p + 15"
    by (subst unat_plus_if) (simp_all add: word_le_nat_alt)
  have unat: "unat req = 8 * ((unat p + 15) div 8)"
    by (simp only: req unat_and_not_7 sum)
  show "8 dvd unat req" and "unat p + 8 \<le> unat req" and "unat req < unat p + 16"
    unfolding unat by simp_all
qed

section \<open>Tilings\<close>

lemma tiles_le: "tiles r a b cs \<Longrightarrow> a \<le> b"
  by (induction cs arbitrary: a) force+

lemma tiles_append: "tiles r a b (xs @ ys) \<longleftrightarrow> (\<exists>m. tiles r a m xs \<and> tiles r m b ys)"
  by (induction xs arbitrary: a) auto

lemma tiles_spans: "tiles r a b cs \<Longrightarrow> (\<Sum>c\<leftarrow>cs. unat (span_bytes c)) = b - a"
proof (induction cs arbitrary: a)
  case (Cons c cs)
  then have "tiles r (a + unat (span_bytes c)) b cs" by simp
  with Cons.IH tiles_le [OF this] show ?case by simp
qed simp

lemma tiles_Nil_iff: "tiles r a b cs \<Longrightarrow> cs = [] \<longleftrightarrow> a = b"
proof (cases cs)
  case (Cons c rest)
  moreover assume "tiles r a b cs"
  ultimately have "a + unat (span_bytes c) \<le> b" "0 < unat (span_bytes c)"
    by (auto dest: tiles_le simp: unat_pos_iff)
  with Cons show ?thesis by simp
qed simp

text \<open>Every chunk of a tiling lies inside the range.\<close>

lemma tiles_member:
  "tiles r a b cs \<Longrightarrow> c \<in> set cs \<Longrightarrow>
   a \<le> unat (address c) \<and> unat (address c) + unat (span_bytes c) \<le> b \<and> span_bytes c \<noteq> 0 \<and> region c = r"
  by (induction cs arbitrary: a) (auto dest: tiles_le, fastforce+)

lemma in_region_append [simp]: "in_region r (xs @ ys) = in_region r xs @ in_region r ys"
  by (simp add: in_region_def)

lemma in_region_Nil [simp]: "in_region r [] = []"
  by (simp add: in_region_def)

lemma in_region_Cons [simp]:
  "in_region r (c # cs) = (if region c = r then c # in_region r cs else in_region r cs)"
  by (simp add: in_region_def)

lemma in_region_all: "\<forall>c \<in> set cs. region c = r \<Longrightarrow> in_region r cs = cs"
  by (simp add: in_region_def)

lemma in_region_none: "\<forall>c \<in> set cs. region c = r' \<Longrightarrow> r \<noteq> r' \<Longrightarrow> in_region r cs = []"
  by (auto simp: in_region_def filter_empty_conv)

lemma live_ids_append [simp]: "live_ids (xs @ ys) = live_ids xs @ live_ids ys"
  by (simp add: live_ids_def)

lemma live_ids_Nil [simp]: "live_ids [] = []"
  by (simp add: live_ids_def)

lemma live_ids_Cons [simp]: "live_ids (c # cs) = (if used c then allocation_id c # live_ids cs else live_ids cs)"
  by (simp add: live_ids_def)

lemma live_sum_append [simp]: "live_sum P (xs @ ys) = live_sum P xs + live_sum P ys"
  by (simp add: live_sum_def)

lemma live_sum_Nil [simp]: "live_sum P [] = 0"
  by (simp add: live_sum_def)

lemma live_sum_Cons [simp]:
  "live_sum P (c # cs) = (if used c \<and> P c then unat (payload_bytes c) else 0) + live_sum P cs"
  by (simp add: live_sum_def)

lemma free_sum_append [simp]: "free_sum (xs @ ys) = free_sum xs + free_sum ys"
  by (simp add: free_sum_def)

lemma free_sum_Nil [simp]: "free_sum [] = 0"
  by (simp add: free_sum_def)

lemma free_sum_Cons [simp]:
  "free_sum (c # cs) = (if used c then 0 else unat (span_bytes c)) + free_sum cs"
  by (simp add: free_sum_def)

lemma sorted_replace:
  fixes f :: "'a \<Rightarrow> nat"
  assumes "sorted (map f (pre @ xs @ post))" and "xs \<noteq> []" and "\<forall>c \<in> set xs \<union> set ys. f c = k"
  shows "sorted (map f (pre @ ys @ post))"
proof -
  have "sorted (map f ys)"
    using assms(3) by (induction ys) auto
  moreover obtain x where "x \<in> set xs" using assms(2) by (cases xs) auto
  then have "\<forall>p \<in> set pre. f p \<le> k" and "\<forall>q \<in> set post. k \<le> f q"
    using assms(1,3) by (auto simp: sorted_append)
  ultimately show ?thesis using assms(1,3) by (auto simp: sorted_append)
qed

text \<open>Replacing a run of chunks of one region by another that tiles the same range.\<close>

lemma tiles_replace:
  assumes "tiles r a b (in_region r (pre @ xs @ post))" and "b < 2 ^ 32"
    and "\<forall>c \<in> set xs \<union> set ys. region c = r"
    and "\<And>a b. tiles r a b xs \<Longrightarrow> b < 2 ^ 32 \<Longrightarrow> tiles r a b ys"
  shows "tiles r a b (in_region r (pre @ ys @ post))"
proof -
  have same: "in_region r xs = xs" "in_region r ys = ys"
    using assms(3) by (auto intro!: in_region_all)
  obtain m n where t: "tiles r a m (in_region r pre)" "tiles r m n xs" "tiles r n b (in_region r post)"
    using assms(1) by (auto simp: tiles_append same)
  then have "n < 2 ^ 32" using assms(2) tiles_le [OF t(3)] by linarith
  with assms(4) t show ?thesis by (auto simp: tiles_append same)
qed

lemma chunks_inv_replace:
  assumes inv: "chunks_inv h (pre @ xs @ post)" and ne: "xs \<noteq> []"
    and regions: "\<forall>c \<in> set xs \<union> set ys. region c = r"
    and tiles: "\<And>a b. tiles r a b xs \<Longrightarrow> b < 2 ^ 32 \<Longrightarrow> tiles r a b ys"
    and ok: "list_all chunk_ok xs \<Longrightarrow> list_all chunk_ok ys"
    and ids: "distinct (live_ids (pre @ ys @ post))"
  shows "chunks_inv h (pre @ ys @ post)"
proof -
  have bounds: "snd (main_span h) < 2 ^ 32" "snd (ahb_span h) < 2 ^ 32"
    using unat_u32_lt [of "main_heap_end (main_layout h)"] unat_u32_lt [of "ahb_heap_end (the_ahb_layout h)"]
    by (simp_all add: main_span_def ahb_span_def less_imp_diff_less)
  have other: "in_region r' xs = []" "in_region r' ys = []" if "r' \<noteq> r" for r'
    using regions that by (auto intro!: in_region_none)
  have "tiles r' a b (in_region r' (pre @ ys @ post))"
    if "tiles r' a b (in_region r' (pre @ xs @ post))" and "b < 2 ^ 32" for r' a b
  proof (cases "r' = r")
    case True
    show ?thesis
      using tiles_replace [OF that(1,2) _ tiles [folded True]] regions True by auto
  next
    case False
    with that(1) other show ?thesis by simp
  qed
  moreover have "sorted (map (region_rank \<circ> region) (pre @ ys @ post))"
    by (rule sorted_replace [where xs = xs and k = "region_rank r"])
      (use inv ne regions in \<open>auto simp: chunks_inv_def\<close>)
  ultimately show ?thesis
    using inv bounds ok ids by (auto simp: chunks_inv_def)
qed

section \<open>Allocation\<close>

text \<open>The chunks that take the place of the chunk found: the used one and the free tail, if any.\<close>

definition take_chunk :: "u64 \<Rightarrow> u32 \<Rightarrow> chunk \<Rightarrow> chunk" where
  "take_chunk aid payload c = c\<lparr>used := True, payload_bytes := payload, allocation_id := aid\<rparr>"

definition place :: "u32 \<Rightarrow> u64 \<Rightarrow> u32 \<Rightarrow> chunk \<Rightarrow> chunk list" where
  "place req aid payload c =
     (let remaining = span_bytes c - req
      in if remaining > kHeapMinimumBlockBytes
         then [take_chunk aid payload (c\<lparr>span_bytes := req\<rparr>), free_chunk (region c) (address c + req) remaining]
         else [take_chunk aid payload c])"

lemma first_fit_Some:
  "first_fit req cs = Some i \<Longrightarrow>
   i < length cs \<and> \<not> used (cs ! i) \<and> req \<le> span_bytes (cs ! i) \<and>
   (\<forall>j < i. used (cs ! j) \<or> span_bytes (cs ! j) < req)"
  by (induction cs arbitrary: i) (auto split: if_splits simp: less_Suc_eq_0_disj, blast+)

lemma first_fit_None:
  "first_fit req cs = None \<longleftrightarrow> (\<forall>c \<in> set cs. used c \<or> span_bytes c < req)"
  by (induction cs) auto

lemma alloc_chunks:
  assumes "i < length cs"
  shows "(split_chunk req i cs)[i := take_chunk aid payload (split_chunk req i cs ! i)] =
    take i cs @ place req aid payload (cs ! i) @ drop (Suc i) cs"
proof (cases "span_bytes (cs ! i) - req > kHeapMinimumBlockBytes")
  case True
  with assms show ?thesis
    by (simp add: split_chunk_def place_def Let_def nth_append list_update_append)
next
  case False
  with assms show ?thesis
    by (simp add: split_chunk_def place_def Let_def upd_conv_take_nth_drop)
qed

lemma place_nonempty: "place req aid payload c \<noteq> []"
  by (simp add: place_def Let_def)

lemma place_region: "d \<in> set (place req aid payload c) \<Longrightarrow> region d = region c"
  by (auto simp: place_def Let_def take_chunk_def free_chunk_def split: if_splits)

lemma place_tiles:
  assumes "tiles r a b [c]" and "b < 2 ^ 32" and "req \<le> span_bytes c" and "req \<noteq> 0"
  shows "tiles r a b (place req aid payload c)"
proof (cases "span_bytes c - req > kHeapMinimumBlockBytes")
  case True
  have rem: "unat (span_bytes c - req) = unat (span_bytes c) - unat req"
    using assms(3) by (rule unat_minus_if)
  have req: "unat req \<le> unat (span_bytes c)" using assms(3) by (simp add: word_le_nat_alt)
  have b: "b = unat (address c) + unat (span_bytes c)" using assms(1) by simp
  then have addr: "unat (address c + req) = unat (address c) + unat req"
    using assms(2) req by (intro unat_plus_if) simp
  have pos: "span_bytes c - req \<noteq> 0" using True by (auto simp: heap_constants)
  have place: "place req aid payload c =
      [take_chunk aid payload (c\<lparr>span_bytes := req\<rparr>), free_chunk (region c) (address c + req) (span_bytes c - req)]"
    using True by (simp add: place_def)
  have c: "region c = r" "unat (address c) = a" using assms(1) by simp_all
  have "a + unat req + (unat (span_bytes c) - unat req) = b" using req b c by linarith
  then show ?thesis
    unfolding place take_chunk_def free_chunk_def tiles.simps chunk.simps c addr rem
    using pos assms(4) by (simp add: c)
next
  case False
  then have "place req aid payload c = [take_chunk aid payload c]" by (simp add: place_def)
  then show ?thesis using assms(1) by (simp add: take_chunk_def)
qed

lemma place_ok:
  assumes "chunk_ok c" and "8 dvd unat req" and "unat payload + 8 \<le> unat req" and "req \<le> span_bytes c"
    and "unat (address c) + unat (span_bytes c) < 2 ^ 32"
  shows "list_all chunk_ok (place req aid payload c)"
proof -
  have req: "unat req \<le> unat (span_bytes c)" using assms(4) by (simp add: word_le_nat_alt)
  then have "unat (address c + req) = unat (address c) + unat req"
    using assms(5) by (intro unat_plus_if) simp
  then show ?thesis
    using assms(1-3) req by (auto simp: place_def Let_def take_chunk_def free_chunk_def chunk_ok_def)
qed

lemma place_live_ids [simp]: "live_ids (place req aid payload c) = [aid]"
  by (simp add: place_def Let_def take_chunk_def free_chunk_def)

lemma place_live_sum [simp]:
  "live_sum (\<lambda>c. Q (region c)) (place req aid payload c) = (if Q (region c) then unat payload else 0)"
  by (simp add: place_def Let_def take_chunk_def free_chunk_def)

lemma mergeable_used [simp]: "used c \<Longrightarrow> \<not> mergeable c n" "used n \<Longrightarrow> \<not> mergeable c n"
  by (simp_all add: mergeable_def)

lemma coalesced_append3:
  "coalesced (pre @ [c] @ post) \<longleftrightarrow> coalesced pre \<and> coalesced post \<and>
     (pre \<noteq> [] \<longrightarrow> \<not> mergeable (last pre) c) \<and> (post \<noteq> [] \<longrightarrow> \<not> mergeable c (hd post))"
  by (auto simp: coalesced_def successively_append_iff successively_Cons)

lemma place_coalesced:
  assumes "coalesced (pre @ [c] @ post)" and "\<not> used c"
  shows "coalesced (pre @ place req aid payload c @ post)"
proof -
  define t where "t = free_chunk (region c) (address c + req) (span_bytes c - req)"
  have "mergeable t n \<longleftrightarrow> mergeable c n" for n
    using assms(2) by (auto simp: t_def free_chunk_def mergeable_def)
  with assms show ?thesis
    by (auto simp: coalesced_append3 [unfolded coalesced_def] coalesced_def place_def Let_def
        successively_append_iff successively_Cons take_chunk_def t_def [symmetric])
qed

text \<open>A successful allocation, in terms of the pieces of the chunk list.\<close>

definition charge :: "memory_region \<Rightarrow> u32 \<Rightarrow> chunk list \<Rightarrow> heap_model \<Rightarrow> heap_model" where
  "charge r payload cs h =
     h\<lparr>chunks := cs, allocation_chunks := rebuild_allocation_index cs,
       live_payload_bytes := live_payload_bytes h + payload,
       peak_live_payload_bytes := max (peak_live_payload_bytes h) (live_payload_bytes h + payload),
       main_live_payload_bytes := main_live_payload_bytes h + (if r = MainSram then payload else 0),
       main_peak_live_payload_bytes := (if r = MainSram
          then max (main_peak_live_payload_bytes h) (main_live_payload_bytes h + payload)
          else main_peak_live_payload_bytes h),
       ahb_live_payload_bytes := ahb_live_payload_bytes h + (if r = MainSram then 0 else payload),
       ahb_peak_live_payload_bytes := (if r = MainSram then ahb_peak_live_payload_bytes h
          else max (ahb_peak_live_payload_bytes h) (ahb_live_payload_bytes h + payload)),
       minimum_ever_free_bytes := min (minimum_ever_free_bytes h) (total_free cs),
       successful_allocation_count := successful_allocation_count h + 1\<rparr>"

lemma heap_allocate_eq:
  assumes "checked_size n = Inr payload" "aligned_span n kHeapHeaderBytes kHeapAlignment = Inr req"
    "first_fit req (chunks h) = Some i" "aid \<notin> dom (allocation_chunks h)"
    and c: "c = chunks h ! i"
    and cs: "cs = take i (chunks h) @ place req aid payload c @ drop (Suc i) (chunks h)"
  shows "heap_allocate aid n h = Inr (Some (region c), charge (region c) payload cs h)"
proof -
  note fit = first_fit_Some [OF assms(3)]
  have reg: "region (split_chunk req i (chunks h) ! i) = region c"
    using fit by (auto simp: split_chunk_def Let_def nth_append c)
  have alloc: "(split_chunk req i (chunks h))[i := (split_chunk req i (chunks h) ! i)
      \<lparr>used := True, payload_bytes := payload, allocation_id := aid\<rparr>] = cs"
    using alloc_chunks [OF conjunct1 [OF fit], of req aid payload] by (simp add: take_chunk_def cs c)
  show ?thesis
    using assms(1-4) by (simp add: heap_allocate_def Let_def alloc reg charge_def)
qed

lemma heap_allocate_Some:
  assumes "heap_allocate aid n h = Inr (Some r, h')"
  obtains payload req i pre c post where
    "checked_size n = Inr payload" "aligned_span n kHeapHeaderBytes kHeapAlignment = Inr req"
    "first_fit req (chunks h) = Some i" "pre = take i (chunks h)" "c = chunks h ! i"
    "chunks h = pre @ [c] @ post" "\<not> used c" "req \<le> span_bytes c" "r = region c"
    "aid \<notin> dom (allocation_chunks h)"
    "h' = charge r payload (pre @ place req aid payload c @ post) h"
proof -
  obtain payload req i where *: "checked_size n = Inr payload"
    "aligned_span n kHeapHeaderBytes kHeapAlignment = Inr req" "first_fit req (chunks h) = Some i"
    "aid \<notin> dom (allocation_chunks h)"
    using assms by (auto simp: heap_allocate_def split: if_splits sum.splits option.splits)
  note fit = first_fit_Some [OF *(3)]
  have "chunks h = take i (chunks h) @ [chunks h ! i] @ drop (Suc i) (chunks h)"
    using fit by (simp add: id_take_nth_drop)
  with assms * fit heap_allocate_eq [OF * refl refl] show thesis
    by (intro that [OF *(1-3) refl refl]) auto
qed

section \<open>Totals\<close>

definition capacity :: "heap_model \<Rightarrow> nat" where
  "capacity h = (snd (main_span h) - fst (main_span h)) + (snd (ahb_span h) - fst (ahb_span h))"

lemma sum_in_region:
  "list_all chunk_ok cs \<Longrightarrow>
   (\<Sum>c\<leftarrow>cs. f c) = (\<Sum>c\<leftarrow>in_region MainSram cs. f c) + (\<Sum>c\<leftarrow>in_region AhbSram cs. (f c :: nat))"
proof (induction cs)
  case (Cons c cs)
  then show ?case by (cases "region c") (simp_all add: chunk_ok_def)
qed simp

lemma spans_capacity:
  assumes "chunks_inv h cs"
  shows "(\<Sum>c\<leftarrow>cs. unat (span_bytes c)) = capacity h"
  using assms sum_in_region [of cs "\<lambda>c. unat (span_bytes c)"]
  by (auto simp: chunks_inv_def capacity_def dest!: tiles_spans)

lemma live_free_le_spans:
  "list_all chunk_ok cs \<Longrightarrow> live_sum P cs + free_sum cs \<le> (\<Sum>c\<leftarrow>cs. unat (span_bytes c))"
  by (induction cs) (auto simp: chunk_ok_def)

lemma capacity_bound: "layouts_ok (main_layout h) (the_ahb_layout h) \<Longrightarrow> capacity h < 2 ^ 32"
  by (auto simp: layouts_ok_def capacity_def main_span_def ahb_span_def)

lemma live_free_le_capacity: "chunks_inv h cs \<Longrightarrow> live_sum P cs + free_sum cs \<le> capacity h"
  using live_free_le_spans [of cs P] spans_capacity [of h cs] by (simp add: chunks_inv_def)

lemma total_free_foldl:
  "unat t + free_sum cs < 2 ^ 32 \<Longrightarrow>
   unat (foldl (\<lambda>total c. if \<not> used c then total + span_bytes c else total) t cs) = unat t + free_sum cs"
proof (induction cs arbitrary: t)
  case (Cons c cs)
  show ?case
  proof (cases "used c")
    case False
    with Cons.prems have "unat (t + span_bytes c) = unat t + unat (span_bytes c)"
      by (intro unat_plus_if) simp
    with False Cons.IH [of "t + span_bytes c"] Cons.prems show ?thesis by simp
  qed (use Cons in simp)
qed simp

lemma total_free_eq: "free_sum cs < 2 ^ 32 \<Longrightarrow> unat (total_free cs) = free_sum cs"
  using total_free_foldl [of 0 cs] by (simp add: total_free_def)

lemma chunks_inv_cong:
  "main_layout h' = main_layout h \<Longrightarrow> the_ahb_layout h' = the_ahb_layout h \<Longrightarrow>
   chunks_inv h' cs = chunks_inv h cs"
  by (simp add: chunks_inv_def main_span_def ahb_span_def)

section \<open>Allocation keeps the invariant\<close>

lemma tiles_top: "chunks_inv h cs \<Longrightarrow> c \<in> set cs \<Longrightarrow> unat (address c) + unat (span_bytes c) < 2 ^ 32"
proof -
  assume inv: "chunks_inv h cs" and c: "c \<in> set cs"
  then have "region c = MainSram \<or> region c = AhbSram"
    by (cases "region c") (auto simp: chunks_inv_def chunk_ok_def list_all_iff)
  with inv c have "unat (address c) + unat (span_bytes c) \<le> snd (main_span h) \<or>
      unat (address c) + unat (span_bytes c) \<le> snd (ahb_span h)"
    by (auto simp: chunks_inv_def in_region_def dest!: tiles_member [where c = c])
  moreover have "snd (main_span h) < 2 ^ 32" "snd (ahb_span h) < 2 ^ 32"
    using unat_u32_lt [of "main_heap_end (main_layout h)"] unat_u32_lt [of "ahb_heap_end (the_ahb_layout h)"]
    by (simp_all add: main_span_def ahb_span_def less_imp_diff_less)
  ultimately show ?thesis by linarith
qed

lemma place_chunks_inv:
  assumes inv: "chunks_inv h (pre @ [c] @ post)" and "\<not> used c" and "req \<le> span_bytes c"
    and "8 dvd unat req" and "unat payload + 8 \<le> unat req" and "aid \<notin> set (live_ids (pre @ [c] @ post))"
  shows "chunks_inv h (pre @ place req aid payload c @ post)"
proof (rule chunks_inv_replace [OF inv, where r = "region c"])
  show "tiles (region c) a b (place req aid payload c)" if "tiles (region c) a b [c]" and "b < 2 ^ 32" for a b
    using that assms(3,5) by (intro place_tiles) auto
  show "list_all chunk_ok (place req aid payload c)" if "list_all chunk_ok [c]"
    using that assms(3-5) tiles_top [OF inv, of c] by (intro place_ok) auto
  show "distinct (live_ids (pre @ place req aid payload c @ post))"
    using inv assms(2,6) by (auto simp: chunks_inv_def)
qed (auto dest: place_region)

lemma unat_min_le: "unat (min a b) \<le> unat (b :: u32)"
  by (simp add: min_def word_le_nat_alt)

lemma charge_inv:
  assumes inv: "heap_inv h" and cs: "chunks h = pre @ [c] @ post" and c: "\<not> used c" "req \<le> span_bytes c"
    and req: "8 dvd unat req" "unat payload + 8 \<le> unat req" and aid: "aid \<notin> dom (allocation_chunks h)"
  shows "heap_inv (charge (region c) payload (pre @ place req aid payload c @ post) h)"
proof -
  define cs' where "cs' = pre @ place req aid payload c @ post"
  define h' where "h' = charge (region c) payload cs' h"
  have h': "main_layout h' = main_layout h" "the_ahb_layout h' = the_ahb_layout h" "chunks h' = cs'"
    by (simp_all add: h'_def charge_def)
  have ci: "chunks_inv h (chunks h)" and lay: "layouts_ok (main_layout h) (the_ahb_layout h)"
    using inv by (simp_all add: heap_inv_def)
  then have "distinct (live_ids (chunks h))" by (simp add: chunks_inv_def)
  with inv aid have "aid \<notin> set (live_ids (chunks h))"
    by (simp add: heap_inv_def index_dom)
  with ci c req have ci': "chunks_inv h cs'"
    unfolding cs'_def by (intro place_chunks_inv) (simp_all add: cs)
  have sums: "live_sum (\<lambda>c. Q (region c)) cs' =
      live_sum (\<lambda>c. Q (region c)) (chunks h) + (if Q (region c) then unat payload else 0)" for Q
    by (simp add: cs'_def cs c)
  have bound: "live_sum (\<lambda>c. Q (region c)) cs' < 2 ^ 32" for Q
    using live_free_le_capacity [OF ci', of "\<lambda>c. Q (region c)"] capacity_bound [OF lay] by linarith
  have add: "unat (w + payload) = unat w + unat payload"
    if "unat w = live_sum (\<lambda>c. Q (region c)) (chunks h)" and "Q (region c)" for w Q
    using bound [of Q] that by (intro unat_plus_if) (simp add: sums)
  have "free_sum cs' < 2 ^ 32"
    using live_free_le_capacity [OF ci', of "\<lambda>_. True"] capacity_bound [OF lay] by linarith
  then have free: "unat (total_free cs') = free_sum cs'" by (rule total_free_eq)
  have reg: "region c = MainSram \<or> region c = AhbSram"
    using ci cs by (cases "region c") (auto simp: chunks_inv_def chunk_ok_def)
  have live: "unat (live_payload_bytes h') = live_sum (\<lambda>_. True) cs'"
    using inv add [of "live_payload_bytes h" "\<lambda>_. True"] sums [of "\<lambda>_. True"]
    by (simp add: h'_def charge_def heap_inv_def)
  have main: "unat (main_live_payload_bytes h') = live_sum (\<lambda>c. region c = MainSram) cs'"
    using inv add [of "main_live_payload_bytes h" "\<lambda>r. r = MainSram"] sums [of "\<lambda>r. r = MainSram"]
    by (simp add: h'_def charge_def heap_inv_def)
  have ahb: "unat (ahb_live_payload_bytes h') = live_sum (\<lambda>c. region c = AhbSram) cs'"
    using inv reg add [of "ahb_live_payload_bytes h" "\<lambda>r. r = AhbSram"] sums [of "\<lambda>r. r = AhbSram"]
    by (auto simp: h'_def charge_def heap_inv_def)
  have count: "successful_allocation_count h' - successful_free_count h' = word_of_nat (length (live_ids cs'))"
    using inv c by (simp add: h'_def charge_def heap_inv_def cs'_def cs algebra_simps)
  have "coalesced cs'"
    using inv c(1) unfolding cs'_def by (intro place_coalesced) (simp_all add: heap_inv_def cs)
  moreover have "unat (minimum_ever_free_bytes h') \<le> free_sum cs'"
    using unat_min_le [of "minimum_ever_free_bytes h" "total_free cs'"] by (simp add: h'_def charge_def free)
  moreover have "allocation_chunks h' = rebuild_allocation_index cs'"
    and "live_payload_bytes h' \<le> peak_live_payload_bytes h'"
    and "main_live_payload_bytes h' \<le> main_peak_live_payload_bytes h'"
    and "ahb_live_payload_bytes h' \<le> ahb_peak_live_payload_bytes h'"
    using inv by (simp_all add: h'_def charge_def heap_inv_def)
  ultimately have "heap_inv h'"
    using lay ci' live main ahb count
    by (simp add: heap_inv_def [of h'] h' chunks_inv_cong [OF h'(1,2)])
  then show ?thesis by (simp add: h'_def cs'_def)
qed

lemma heap_allocate_inv [inv_intros]:
  assumes "heap_inv h" and "heap_allocate aid n h = Inr (res, h')"
  shows "heap_inv h'"
proof (cases res)
  case None
  with assms show ?thesis
    by (auto simp: heap_allocate_def heap_inv_def chunks_inv_def main_span_def ahb_span_def Let_def
        split: if_splits sum.splits option.splits)
next
  case (Some r)
  from heap_allocate_Some [OF assms(2) [unfolded Some]] obtain payload req i pre c post where *:
    "checked_size n = Inr payload" "aligned_span n kHeapHeaderBytes kHeapAlignment = Inr req"
    "chunks h = pre @ [c] @ post" "\<not> used c" "req \<le> span_bytes c" "r = region c"
    "aid \<notin> dom (allocation_chunks h)" "h' = charge r payload (pre @ place req aid payload c @ post) h"
    by metis
  with charge_inv [OF assms(1) *(3-5) aligned_span_bounds(1,2) [OF *(1,2)]] show ?thesis by simp
qed

section \<open>Coalescing\<close>

text \<open>Coalescing only ever extends a chunk: the first chunk keeps its place and its state.\<close>

lemma coalesce_hd:
  "\<exists>m rest. coalesce_free_chunks (c # cs) = m # rest \<and>
     region m = region c \<and> address m = address c \<and> used m = used c"
proof (induction "c # cs" arbitrary: c cs rule: coalesce_free_chunks.induct)
  case (3 c n rest)
  show ?case
  proof (cases "\<not> used c \<and> \<not> used n \<and> region c = region n \<and> address c + span_bytes c = address n")
    case True
    from "3.hyps"(1) [OF True] True show ?thesis by simp
  qed auto
qed auto

lemma mergeable_left_cong:
  "region m = region c \<Longrightarrow> address m = address c \<Longrightarrow> used m = used c \<Longrightarrow> mergeable b m = mergeable b c"
  by (simp add: mergeable_def)

lemma coalesce_coalesced: "coalesced (coalesce_free_chunks cs)"
proof (induction cs rule: coalesce_free_chunks.induct)
  case (3 c n rest)
  show ?case
  proof (cases "mergeable c n")
    case True
    with 3(1) show ?thesis by (simp add: mergeable_def)
  next
    case False
    obtain m ms where m: "coalesce_free_chunks (n # rest) = m # ms" "mergeable c m = mergeable c n"
      using coalesce_hd [of n rest] mergeable_left_cong by blast
    with 3(2) False show ?thesis
      by (auto simp: mergeable_def coalesced_def successively_Cons)
  qed
qed (simp_all add: coalesced_def)

lemma coalesce_live [simp]:
  "live_ids (coalesce_free_chunks cs) = live_ids cs"
  "live_sum P (coalesce_free_chunks cs) = live_sum P cs"
  by (induction cs rule: coalesce_free_chunks.induct) auto

lemma chunks_inv_merge:
  assumes inv: "chunks_inv h (pre @ c # n # post)" and "mergeable c n"
  shows "chunks_inv h (pre @ c\<lparr>span_bytes := span_bytes c + span_bytes n\<rparr> # post)"
    and "unat (span_bytes c + span_bytes n) = unat (span_bytes c) + unat (span_bytes n)"
proof -
  let ?m = "c\<lparr>span_bytes := span_bytes c + span_bytes n\<rparr>"
  have free: "\<not> used c" "\<not> used n" "region n = region c" "address n = address c + span_bytes c"
    using assms(2) by (simp_all add: mergeable_def)
  have top: "unat (address c) + unat (span_bytes c) < 2 ^ 32" "unat (address n) + unat (span_bytes n) < 2 ^ 32"
    using tiles_top [OF inv] by simp_all
  then have "unat (address n) = unat (address c) + unat (span_bytes c)"
    unfolding free(4) by (intro unat_plus_if) simp
  with top show span: "unat (span_bytes c + span_bytes n) = unat (span_bytes c) + unat (span_bytes n)"
    by (intro unat_plus_if) simp
  have "chunks_inv h (pre @ [?m] @ post)"
  proof (rule chunks_inv_replace [where xs = "[c, n]" and r = "region c"])
    show "chunks_inv h (pre @ [c, n] @ post)" using inv by simp
    show "\<forall>d \<in> set [c, n] \<union> set [?m]. region d = region c" using free(3) by simp
    show "tiles (region c) a b [?m]" if t: "tiles (region c) a b [c, n]" for a b
    proof -
      have "0 < unat (span_bytes c)" using t by (simp add: unat_pos_iff)
      then have "span_bytes c + span_bytes n \<noteq> 0" using span by (metis add_is_0 less_irrefl unat_eq_0_iff)
      with t show ?thesis by (simp add: span)
    qed
    show "list_all chunk_ok [?m]" if "list_all chunk_ok [c, n]"
      using that free by (simp add: chunk_ok_def)
    show "distinct (live_ids (pre @ [?m] @ post))" using inv free by (simp add: chunks_inv_def)
  qed simp
  then show "chunks_inv h (pre @ ?m # post)" by simp
qed

lemma coalesce_chunks_inv:
  "chunks_inv h (pre @ cs) \<Longrightarrow> chunks_inv h (pre @ coalesce_free_chunks cs)"
proof (induction cs arbitrary: pre rule: coalesce_free_chunks.induct)
  case (3 c n rest)
  show ?case
  proof (cases "mergeable c n")
    case True
    with 3(1) chunks_inv_merge(1) [OF "3.prems" True] show ?thesis by (simp add: mergeable_def)
  next
    case False
    with 3(2) [of "pre @ [c]"] "3.prems" show ?thesis by (auto simp: mergeable_def)
  qed
qed simp_all

lemma coalesce_free_sum:
  "chunks_inv h (pre @ cs) \<Longrightarrow> free_sum (coalesce_free_chunks cs) = free_sum cs"
proof (induction cs arbitrary: pre rule: coalesce_free_chunks.induct)
  case (3 c n rest)
  show ?case
  proof (cases "mergeable c n")
    case True
    then have "\<not> used c" "\<not> used n" by (simp_all add: mergeable_def)
    with True 3(1) chunks_inv_merge [OF "3.prems" True] show ?thesis
      by (simp add: mergeable_def)
  next
    case False
    with 3(2) [of "pre @ [c]"] "3.prems" show ?thesis by (auto simp: mergeable_def)
  qed
qed simp_all

lemma coalesce_id: "coalesced cs \<Longrightarrow> coalesce_free_chunks cs = cs"
  by (induction cs rule: coalesce_free_chunks.induct)
    (auto simp: coalesced_def successively_Cons mergeable_def)

lemma coalesce_prefix:
  "coalesced (pre @ [c]) \<Longrightarrow> coalesce_free_chunks (pre @ c # cs) = pre @ coalesce_free_chunks (c # cs)"
proof (induction pre)
  case (Cons p pre)
  obtain q qs where q: "pre @ c # cs = q # qs" "hd (pre @ [c]) = q" by (cases pre) auto
  have "\<not> mergeable p q" using Cons.prems q(2) by (cases pre) (auto simp: coalesced_def)
  then have "coalesce_free_chunks (p # q # qs) = p # coalesce_free_chunks (q # qs)"
    by (auto simp: mergeable_def)
  moreover have "coalesced (pre @ [c])" using Cons.prems by (cases pre) (auto simp: coalesced_def)
  ultimately show ?case using Cons.IH q(1) by (metis append_Cons)
qed simp

section \<open>Deallocation keeps the invariant\<close>

definition release_chunk :: "chunk \<Rightarrow> chunk" where
  "release_chunk c = c\<lparr>payload_bytes := 0, allocation_id := 0, used := False\<rparr>"

definition credit :: "chunk \<Rightarrow> chunk list \<Rightarrow> heap_model \<Rightarrow> heap_model" where
  "credit c cs h =
     h\<lparr>chunks := cs, allocation_chunks := rebuild_allocation_index cs,
       live_payload_bytes := live_payload_bytes h - payload_bytes c,
       main_live_payload_bytes := main_live_payload_bytes h - (if region c = MainSram then payload_bytes c else 0),
       ahb_live_payload_bytes := ahb_live_payload_bytes h - (if region c = MainSram then 0 else payload_bytes c),
       successful_free_count := successful_free_count h + 1\<rparr>"

lemma index_lookup:
  assumes "heap_inv h" and "allocation_chunks h aid = Some i"
  shows "i < length (chunks h)" and "used (chunks h ! i)" and "allocation_id (chunks h ! i) = aid"
  using assms by (auto simp: heap_inv_def chunks_inv_def index_Some_iff)

lemma heap_deallocate_Some:
  assumes "heap_inv h" and "heap_deallocate aid h = (Some r, h')"
  obtains pre c post where "chunks h = pre @ [c] @ post" "used c" "allocation_id c = aid" "r = region c"
    "h' = credit c (coalesce_free_chunks (pre @ [release_chunk c] @ post)) h"
proof -
  obtain i where i: "allocation_chunks h aid = Some i"
    using assms(2) by (auto simp: heap_deallocate_def split: option.splits)
  note look = index_lookup [OF assms(1) i]
  have "chunks h = take i (chunks h) @ [chunks h ! i] @ drop (Suc i) (chunks h)"
    using look(1) by (simp add: id_take_nth_drop)
  with look i assms(2) show thesis
    by (intro that [of "take i (chunks h)" "chunks h ! i" "drop (Suc i) (chunks h)"])
      (auto simp: heap_deallocate_def Let_def credit_def release_chunk_def upd_conv_take_nth_drop
         split: if_splits)
qed

lemma heap_deallocate_inv [inv_intros]:
  assumes inv: "heap_inv h" and "heap_deallocate aid h = (res, h')"
  shows "heap_inv h'"
proof (cases res)
  case None
  with assms show ?thesis
    by (auto simp: heap_deallocate_def Let_def split: option.splits)
next
  case (Some r)
  with heap_deallocate_Some [OF inv] assms(2) obtain pre c post where
    cs: "chunks h = pre @ [c] @ post" and c: "used c" "allocation_id c = aid"
    and h': "h' = credit c (coalesce_free_chunks (pre @ [release_chunk c] @ post)) h" by metis
  define d where "d = release_chunk c"
  have d: "\<not> used d" "region d = region c" "address d = address c" "span_bytes d = span_bytes c"
    "payload_bytes d = 0" "allocation_id d = 0"
    by (simp_all add: d_def release_chunk_def)
  define cs' where "cs' = coalesce_free_chunks (pre @ [d] @ post)"
  have ci: "chunks_inv h (pre @ [c] @ post)" and lay: "layouts_ok (main_layout h) (the_ahb_layout h)"
    using inv cs by (simp_all add: heap_inv_def)
  have mid: "chunks_inv h (pre @ [d] @ post)"
    by (rule chunks_inv_replace [OF ci, where r = "region c"])
      (use ci c d in \<open>auto simp: chunks_inv_def chunk_ok_def\<close>)
  then have ci': "chunks_inv h cs'" using coalesce_chunks_inv [of h "[]"] by (simp add: cs'_def)
  have chunk: "chunk_ok c" using ci by (simp add: chunks_inv_def)
  have sums: "live_sum (\<lambda>c. Q (region c)) (chunks h) =
      live_sum (\<lambda>c. Q (region c)) cs' + (if Q (region c) then unat (payload_bytes c) else 0)" for Q
    using c d by (simp add: cs'_def cs)
  have sub: "unat (w - payload_bytes c) = live_sum (\<lambda>c. Q (region c)) cs'"
    if "unat w = live_sum (\<lambda>c. Q (region c)) (chunks h)" and "Q (region c)" for w Q
  proof -
    have "payload_bytes c \<le> w" using that by (simp add: word_le_nat_alt sums)
    then show ?thesis using that by (simp add: unat_minus_if sums)
  qed
  have reg: "region c = MainSram \<or> region c = AhbSram"
    using chunk by (cases "region c") (auto simp: chunk_ok_def)
  have free: "free_sum (chunks h) \<le> free_sum cs'"
    using coalesce_free_sum [of h "[]" "pre @ [d] @ post"] mid c by (simp add: cs'_def cs)
  have decr: "w - payload_bytes c \<le> w" if "unat w = live_sum (\<lambda>c. Q (region c)) (chunks h)" "Q (region c)" for w Q
    using sub [OF that] that sums [of Q] by (simp add: word_le_nat_alt)
  have h'eq: "h' = credit c cs' h" using h' by (simp add: cs'_def d_def)
  have lays: "main_layout h' = main_layout h" "the_ahb_layout h' = the_ahb_layout h" "chunks h' = cs'"
    by (simp_all add: h'eq credit_def)
  have live: "unat (live_payload_bytes h') = live_sum (\<lambda>_. True) cs'" "live_payload_bytes h' \<le> peak_live_payload_bytes h'"
    using inv sub [of "live_payload_bytes h" "\<lambda>_. True"] decr [of "live_payload_bytes h" "\<lambda>_. True"]
    by (auto simp: h'eq credit_def heap_inv_def)
  have main: "unat (main_live_payload_bytes h') = live_sum (\<lambda>c. region c = MainSram) cs'"
    "main_live_payload_bytes h' \<le> main_peak_live_payload_bytes h'"
    using inv sub [of "main_live_payload_bytes h" "\<lambda>r. r = MainSram"] sums [of "\<lambda>r. r = MainSram"]
      decr [of "main_live_payload_bytes h" "\<lambda>r. r = MainSram"]
    by (auto simp: h'eq credit_def heap_inv_def)
  have ahb: "unat (ahb_live_payload_bytes h') = live_sum (\<lambda>c. region c = AhbSram) cs'"
    "ahb_live_payload_bytes h' \<le> ahb_peak_live_payload_bytes h'"
    using inv reg sub [of "ahb_live_payload_bytes h" "\<lambda>r. r = AhbSram"] sums [of "\<lambda>r. r = AhbSram"]
      decr [of "ahb_live_payload_bytes h" "\<lambda>r. r = AhbSram"]
    by (auto simp: h'eq credit_def heap_inv_def)
  have ids: "length (live_ids (chunks h)) = Suc (length (live_ids cs'))"
    using c d by (simp add: cs'_def cs)
  have "successful_allocation_count h' - successful_free_count h' = word_of_nat (length (live_ids cs'))"
    using inv by (simp add: h'eq credit_def heap_inv_def ids algebra_simps)
  moreover have "coalesced cs'" unfolding cs'_def by (rule coalesce_coalesced)
  moreover have "unat (minimum_ever_free_bytes h') \<le> free_sum cs'"
    and "allocation_chunks h' = rebuild_allocation_index cs'"
    using inv free by (simp_all add: h'eq credit_def heap_inv_def)
  ultimately show ?thesis
    using lay ci' live main ahb by (simp add: heap_inv_def [of h'] lays chunks_inv_cong [OF lays(1,2)])
qed

end
