(* ===== verification/Step_Laws.thy ===== *)
theory Step_Laws
  imports Sim_Prelude
begin

text \<open>
  What every component relies on when its operations are run one after another: laws about one step, as the
  assumptions of a locale, and what follows for every run.  The components interpret them on their own operations.
\<close>

section \<open>Step relations\<close>

locale step_relation =
  fixes step :: "'s \<Rightarrow> 's \<Rightarrow> bool" and inv :: "'s \<Rightarrow> bool"
  assumes step_kept: "inv s \<Longrightarrow> step s t \<Longrightarrow> inv t"
begin

lemma reachable: "step\<^sup>*\<^sup>* s t \<Longrightarrow> inv s \<Longrightarrow> inv t"
  by (induction rule: rtranclp_induct) (auto intro: step_kept)

lemma reachable_induct:
  assumes "step\<^sup>*\<^sup>* s t" "inv s" "P s" "\<And>t u. inv t \<Longrightarrow> P t \<Longrightarrow> step t u \<Longrightarrow> P u"
  shows "P t"
  using assms(1)
proof (induction rule: rtranclp_induct)
  case (step t u)
  then show ?case using assms(2,4) reachable by blast
qed (rule assms(3))

end

section \<open>Operations\<close>

text \<open>Operations with a precondition \<open>ok\<close> that keep an invariant.\<close>

locale operations =
  fixes op_step :: "'op \<Rightarrow> 's \<Rightarrow> 's" and inv :: "'s \<Rightarrow> bool" and ok :: "'op \<Rightarrow> bool"
  assumes kept: "inv s \<Longrightarrow> ok op \<Longrightarrow> inv (op_step op s)"
begin

lemma run_kept: "inv s \<Longrightarrow> \<forall>op \<in> set ops. ok op \<Longrightarrow> inv (fold op_step ops s)"
  by (induction ops arbitrary: s) (auto intro: kept)

end

sublocale operations \<subseteq> steps: step_relation "\<lambda>s t. \<exists>op. ok op \<and> t = op_step op s" inv
  by unfold_locales (auto intro: kept)

text \<open>Operations that refine those of a specification.\<close>

locale refining_operations = operations op_step inv ok
  for op_step :: "'op \<Rightarrow> 's \<Rightarrow> 's" and inv :: "'s \<Rightarrow> bool" and ok :: "'op \<Rightarrow> bool" +
  fixes spec :: "'op \<Rightarrow> 'a \<Rightarrow> 'a" and refines :: "'s \<Rightarrow> 'a \<Rightarrow> bool"
  assumes commutes: "inv s \<Longrightarrow> ok op \<Longrightarrow> refines s a \<Longrightarrow> refines (op_step op s) (spec op a)"
begin

lemma run_refines: "inv s \<Longrightarrow> \<forall>op \<in> set ops. ok op \<Longrightarrow> refines s a \<Longrightarrow> refines (fold op_step ops s) (fold spec ops a)"
  by (induction ops arbitrary: s a) (auto intro: kept commutes)

end

text \<open>Operations that leave a part of the state alone: they refine doing nothing.\<close>

locale framed_operations = operations op_step inv ok
  for op_step :: "'op \<Rightarrow> 's \<Rightarrow> 's" and inv :: "'s \<Rightarrow> bool" and ok :: "'op \<Rightarrow> bool" +
  fixes look :: "'s \<Rightarrow> 'a"
  assumes framed: "inv s \<Longrightarrow> ok op \<Longrightarrow> look (op_step op s) = look s"

sublocale framed_operations \<subseteq> frame: refining_operations op_step inv ok "\<lambda>_ a. a" "\<lambda>s a. look s = a"
  by unfold_locales (simp add: framed)

context framed_operations begin

lemma fold_nothing: "fold (\<lambda>_ a. a) ops a = a"
  by (induction ops) simp_all

lemma run_framed: "inv s \<Longrightarrow> \<forall>op \<in> set ops. ok op \<Longrightarrow> look (fold op_step ops s) = look s"
  using frame.run_refines [of s ops "look s"] by (simp add: fold_nothing)

end

end
