(* ===== verification/Lpc_Heap_Laws.thy ===== *)
theory Lpc_Heap_Laws
  imports Lpc_Heap Step_Laws
begin

text \<open>
  What the heap model of \<open>Lpc_Heap\<close> promises its client: the constructed heap satisfies the
  invariant, the allocator is an instance of the interface \<open>id_allocator\<close> the memory accounting
  relies on, chunks never overlap, and freeing restores the heap.
\<close>

section \<open>Construction\<close>

lemma unat_heap_raw:
  assumes "s < e" and "\<not> e - s \<le> kHeapRegionSentinelBytes"
  shows "unat s + 8 < unat e" and "unat (e - s - kHeapRegionSentinelBytes) = unat e - unat s - 8"
proof -
  have "unat (e - s) = unat e - unat s" using assms(1) by (intro unat_minus_if) simp
  moreover have "8 < unat (e - s)"
    using assms(2) by (simp add: heap_constants not_le word_less_nat_alt)
  ultimately show "unat s + 8 < unat e" and "unat (e - s - kHeapRegionSentinelBytes) = unat e - unat s - 8"
    by (simp_all add: heap_constants unat_minus_if word_le_nat_alt)
qed

lemma and_7_zero: "(w :: u32) AND 7 = 0 \<Longrightarrow> 8 dvd unat w"
proof -
  assume "w AND 7 = 0"
  moreover have "(7 :: u32) = mask 3" by (simp add: mask_eq_exp_minus_1)
  ultimately have "take_bit 3 w = 0" by (simp add: take_bit_eq_mask)
  then have "take_bit 3 (unat w) = 0" by (metis unsigned_take_bit_eq unsigned_0)
  then show ?thesis by (simp add: take_bit_eq_mod dvd_eq_mod_eq_0)
qed

definition initial_chunks :: "main_sram_layout \<Rightarrow> ahb_layout \<Rightarrow> chunk list" where
  "initial_chunks m a =
     [free_chunk MainSram (main_heap_start m) (main_heap_end m - main_heap_start m - kHeapRegionSentinelBytes),
      free_chunk AhbSram (ahb_heap_start a) (ahb_heap_end a - ahb_heap_start a - kHeapRegionSentinelBytes)]"

lemma heap_reset_inv:
  assumes "heap_reset h0 = Inr h"
    and "main_heap_start (main_layout h0) < main_heap_end (main_layout h0)"
    and "ahb_heap_start (the_ahb_layout h0) < ahb_heap_end (the_ahb_layout h0)"
    and "8 dvd unat (main_heap_start (main_layout h0))" and "8 dvd unat (ahb_heap_start (the_ahb_layout h0))"
    and "unat (main_heap_end (main_layout h0) - main_heap_start (main_layout h0)) +
         unat (ahb_heap_end (the_ahb_layout h0) - ahb_heap_start (the_ahb_layout h0)) < 2 ^ 32"
  shows "heap_inv h \<and> chunks h = initial_chunks (main_layout h) (the_ahb_layout h) \<and>
    main_layout h = main_layout h0 \<and> the_ahb_layout h = the_ahb_layout h0"
proof -
  let ?ms = "main_heap_start (main_layout h0)" and ?me = "main_heap_end (main_layout h0)"
  let ?as = "ahb_heap_start (the_ahb_layout h0)" and ?ae = "ahb_heap_end (the_ahb_layout h0)"
  have big: "\<not> ?me - ?ms \<le> kHeapRegionSentinelBytes" "\<not> ?ae - ?as \<le> kHeapRegionSentinelBytes"
    using assms(1) by (auto simp: heap_reset_def add_region_def Let_def split: if_splits sum.splits)
  note m = unat_heap_raw [OF assms(2) big(1)] and a = unat_heap_raw [OF assms(3) big(2)]
  have lays: "main_layout h = main_layout h0" "the_ahb_layout h = the_ahb_layout h0"
    and cs: "chunks h = initial_chunks (main_layout h0) (the_ahb_layout h0)"
    and idx: "allocation_chunks h = Map.empty"
    and counters: "live_payload_bytes h = 0" "main_live_payload_bytes h = 0" "ahb_live_payload_bytes h = 0"
      "successful_allocation_count h = 0" "successful_free_count h = 0"
    and min: "minimum_ever_free_bytes h = (?me - ?ms - kHeapRegionSentinelBytes) + (?ae - ?as - kHeapRegionSentinelBytes)"
    using assms(1) big
    by (auto simp: heap_reset_def add_region_def Let_def initial_chunks_def free_chunk_def)
  have lay: "layouts_ok (main_layout h0) (the_ahb_layout h0)"
    using m(1) a(1) assms(4-6) assms(2,3)
    by (simp add: layouts_ok_def unat_minus_if)
  have pos: "?me - ?ms - kHeapRegionSentinelBytes \<noteq> 0" "?ae - ?as - kHeapRegionSentinelBytes \<noteq> 0"
    using m(1) a(1) by (simp_all only: unat_pos_iff [symmetric] m(2) a(2))
  have ci: "chunks_inv h (chunks h)"
    using m a pos assms(4,5)
    by (simp add: chunks_inv_def cs initial_chunks_def free_chunk_def main_span_def ahb_span_def lays
        region_rank_def chunk_ok_def)
  have "free_sum (chunks h) = unat (?me - ?ms - kHeapRegionSentinelBytes) + unat (?ae - ?as - kHeapRegionSentinelBytes)"
    by (simp add: cs initial_chunks_def free_chunk_def)
  moreover have "\<dots> < 2 ^ 32" using assms(2,3,6) m a by (simp add: unat_minus_if)
  ultimately have "unat (minimum_ever_free_bytes h) = free_sum (chunks h)"
    unfolding min by (subst unat_plus_if) (simp_all only: u32_length)
  moreover have "rebuild_allocation_index (chunks h) = Map.empty"
    by (simp add: cs initial_chunks_def free_chunk_def rebuild_allocation_index_def)
  moreover have "live_sum P (chunks h) = 0" "live_ids (chunks h) = []" "coalesced (chunks h)" for P
    by (simp_all add: cs initial_chunks_def free_chunk_def coalesced_def mergeable_def)
  ultimately show ?thesis
    using lay ci by (simp add: heap_inv_def lays idx counters cs)
qed

lemma new_heap_model_inv:
  assumes "new_heap_model m a = Inr h"
    and "unat (main_heap_end m - main_heap_start m) + unat (ahb_heap_end a - ahb_heap_start a) < 2 ^ 32"
  shows "heap_inv h \<and> chunks h = initial_chunks m a \<and> main_layout h = m \<and> the_ahb_layout h = a"
proof -
  let ?h0 = "\<lparr>main_layout = m, the_ahb_layout = a, chunks = [], allocation_chunks = Map.empty,
         live_payload_bytes = 0, peak_live_payload_bytes = 0,
         main_live_payload_bytes = 0, main_peak_live_payload_bytes = 0,
         ahb_live_payload_bytes = 0, ahb_peak_live_payload_bytes = 0,
         minimum_ever_free_bytes = 0, successful_allocation_count = 0, successful_free_count = 0,
         failed_allocation_count = 0, failed_allocation_bytes = 0\<rparr>"
  have "heap_reset ?h0 = Inr h" and "main_layout_valid m" and "ahb_layout_valid a"
    and "main_heap_start m AND 7 = 0" and "ahb_heap_start a AND 7 = 0"
    using assms(1) by (auto simp: new_heap_model_def heap_constants split: if_splits)
  then show ?thesis
    using heap_reset_inv [of ?h0 h] assms(2) and_7_zero
    by (simp add: main_layout_valid_def ahb_layout_valid_def)
qed

section \<open>The allocator interface\<close>

text \<open>
  What the memory accounting relies on: allocation and deallocation by id, the set of live ids,
  and the invariant.  The lemmas of the locale are proved from these laws alone.
\<close>

locale id_allocator =
  fixes alloc :: "'id \<Rightarrow> 'n \<Rightarrow> 'h \<Rightarrow> 'e + 'r option \<times> 'h"
    and dealloc :: "'id \<Rightarrow> 'h \<Rightarrow> 'r option \<times> 'h"
    and inv :: "'h \<Rightarrow> bool"
    and live :: "'h \<Rightarrow> 'id set"
  assumes alloc_inv: "inv h \<Longrightarrow> alloc a n h = Inr (res, h') \<Longrightarrow> inv h'"
    and alloc_live: "inv h \<Longrightarrow> alloc a n h = Inr (Some r, h') \<Longrightarrow> a \<notin> live h \<and> live h' = insert a (live h)"
    and alloc_fail: "alloc a n h = Inr (None, h') \<Longrightarrow> live h' = live h"
    and dealloc_inv: "inv h \<Longrightarrow> dealloc a h = (res, h') \<Longrightarrow> inv h'"
    and dealloc_live: "inv h \<Longrightarrow> a \<in> live h \<Longrightarrow> \<exists>r h'. dealloc a h = (Some r, h') \<and> live h' = live h - {a}"
    and dealloc_none: "inv h \<Longrightarrow> a \<notin> live h \<Longrightarrow> dealloc a h = (None, h)"
begin

lemma snd_dealloc: "inv h \<Longrightarrow> inv (snd (dealloc a h)) \<and> live (snd (dealloc a h)) = live h - {a}"
  using dealloc_inv [of h a "fst (dealloc a h)" "snd (dealloc a h)"] dealloc_live [of h a] dealloc_none [of h a]
  by (cases "a \<in> live h") (force, simp)

lemma dealloc_all: "inv h \<Longrightarrow>
   inv (fold (\<lambda>a h. snd (dealloc a h)) as h) \<and> live (fold (\<lambda>a h. snd (dealloc a h)) as h) = live h - set as"
  using snd_dealloc by (induction as arbitrary: h) auto

lemma double_free: "inv h \<Longrightarrow> dealloc a (snd (dealloc a h)) = (None, snd (dealloc a h))"
  using snd_dealloc by (simp add: dealloc_none)

lemma dealloc_alloc_live:
  "inv h \<Longrightarrow> alloc a n h = Inr (Some r, h') \<Longrightarrow> live (snd (dealloc a h')) = live h"
  using alloc_inv alloc_live snd_dealloc by fastforce

end

definition heap_live :: "heap_model \<Rightarrow> u64 set" where
  "heap_live h = set (live_ids (chunks h))"

lemma heap_dom: "heap_inv h \<Longrightarrow> dom (allocation_chunks h) = heap_live h"
  by (simp add: heap_inv_def heap_live_def index_dom chunks_inv_def)

lemma heap_allocate_live:
  assumes "heap_inv h" and "heap_allocate aid n h = Inr (Some r, h')"
  shows "aid \<notin> heap_live h \<and> heap_live h' = insert aid (heap_live h)"
proof -
  from heap_allocate_Some [OF assms(2)] obtain pre c post payload req where
    "chunks h = pre @ [c] @ post" "\<not> used c" "aid \<notin> dom (allocation_chunks h)"
    "h' = charge r payload (pre @ place req aid payload c @ post) h" by metis
  then show ?thesis
    using heap_dom [OF assms(1)] by (auto simp: heap_live_def charge_def)
qed

lemma heap_deallocate_live:
  assumes inv: "heap_inv h" and "aid \<in> heap_live h"
  shows "\<exists>r h'. heap_deallocate aid h = (Some r, h') \<and> heap_live h' = heap_live h - {aid}"
proof -
  obtain i where "allocation_chunks h aid = Some i" using assms heap_dom by blast
  then obtain r h' where *: "heap_deallocate aid h = (Some r, h')"
    by (simp add: heap_deallocate_def Let_def)
  from heap_deallocate_Some [OF inv this] obtain pre c post where
    cs: "chunks h = pre @ [c] @ post" "used c" "allocation_id c = aid"
    and h': "h' = credit c (coalesce_free_chunks (pre @ [release_chunk c] @ post)) h" by metis
  have "distinct (live_ids (chunks h))" using inv by (simp add: heap_inv_def chunks_inv_def)
  then have "heap_live h' = heap_live h - {aid}"
    using cs by (auto simp: h' credit_def heap_live_def release_chunk_def)
  with * show ?thesis by blast
qed

interpretation heap: id_allocator heap_allocate heap_deallocate heap_inv heap_live
proof unfold_locales
  show "heap_live h' = heap_live h" if "heap_allocate a n h = Inr (None, h')" for a n h h'
    using that by (auto simp: heap_allocate_def heap_live_def Let_def split: if_splits sum.splits option.splits)
  show "heap_deallocate a h = (None, h)" if "heap_inv h" "a \<notin> heap_live h" for a h
    using that heap_dom [of h] by (auto simp: heap_deallocate_def split: option.splits)
qed (use heap_allocate_inv heap_allocate_live heap_deallocate_inv heap_deallocate_live in blast)+

section \<open>Shapes of the chunk list\<close>

lemma tiles_sorted:
  "tiles r a b cs \<Longrightarrow> sorted_wrt (\<lambda>c d. unat (address c) + unat (span_bytes c) \<le> unat (address d)) cs"
proof (induction cs arbitrary: a)
  case (Cons c cs)
  then have "tiles r (a + unat (span_bytes c)) b cs" "unat (address c) = a" by simp_all
  with Cons.IH tiles_member [OF this(1)] show ?case by auto
qed simp

text \<open>Two chunks of a region do not overlap.\<close>

definition apart :: "chunk \<Rightarrow> chunk \<Rightarrow> bool" where
  "apart c d \<longleftrightarrow> region c \<noteq> region d \<or>
     unat (address c) + unat (span_bytes c) \<le> unat (address d) \<or>
     unat (address d) + unat (span_bytes d) \<le> unat (address c)"

lemma split_regions:
  "sorted (map (region_rank \<circ> region) cs) \<Longrightarrow> list_all chunk_ok cs \<Longrightarrow>
   cs = in_region MainSram cs @ in_region AhbSram cs"
proof (induction cs)
  case (Cons c cs)
  show ?case
  proof (cases "region c")
    case AhbSram
    then have "\<forall>d \<in> set cs. region d = AhbSram"
      using Cons.prems by (auto simp: region_rank_def chunk_ok_def list_all_iff split: memory_region.splits)
        (metis memory_region.exhaust not_one_le_zero)+
    then show ?thesis using AhbSram by (simp add: in_region_all in_region_none [of cs AhbSram])
  qed (use Cons in \<open>simp_all add: chunk_ok_def\<close>)
qed simp

lemma single_free_chunk:
  assumes "tiles r a b cs" and "a < b" and "b < 2 ^ 32" and "coalesced cs" and "live_ids cs = []"
    and "list_all chunk_ok cs"
  shows "cs = [free_chunk r (word_of_nat a) (word_of_nat (b - a))]"
proof -
  have free: "\<forall>c \<in> set cs. \<not> used c" using assms(5) by (auto simp: live_ids_def filter_empty_conv)
  obtain c rest where cs: "cs = c # rest" using assms(1,2) by (cases cs) auto
  have "rest = []"
  proof (rule ccontr)
    assume "rest \<noteq> []"
    then obtain n rest' where rest: "rest = n # rest'" by (cases rest) auto
    have "unat (address n) = unat (address c) + unat (span_bytes c)" and "region n = region c"
      using assms(1) by (simp_all add: cs rest)
    then have "unat (address n) = unat (address c + span_bytes c)"
      using unat_u32_lt [of "address n"] by (simp add: unat_plus_if)
    then have "address n = address c + span_bytes c" by (simp only: word_unat_eq_iff)
    with assms(4) free \<open>region n = region c\<close> show False
      by (simp add: cs rest coalesced_def mergeable_def)
  qed
  with assms(1) have c: "region c = r" "unat (address c) = a" "a + unat (span_bytes c) = b" by (simp_all add: cs)
  then have "address c = word_of_nat a" and "span_bytes c = word_of_nat (b - a)" by auto
  moreover have "\<not> used c" "payload_bytes c = 0" "allocation_id c = 0"
    using free assms(6) by (simp_all add: cs chunk_ok_def)
  ultimately show ?thesis
    using c(1) by (simp add: cs \<open>rest = []\<close> free_chunk_def)
qed

lemma successively_appendD:
  "successively P (xs @ ys) \<Longrightarrow> successively P xs \<and> successively P ys"
  by (auto simp: successively_append_iff)

lemma chunks_apart: "chunks_inv h cs \<Longrightarrow> sorted_wrt apart cs"
proof -
  assume inv: "chunks_inv h cs"
  have one: "sorted_wrt apart (in_region r cs)" if "tiles r a b (in_region r cs)" for r a b
    using tiles_sorted [OF that] by (rule sorted_wrt_mono_rel [rotated]) (simp add: apart_def)
  have "sorted_wrt apart (in_region MainSram cs)" "sorted_wrt apart (in_region AhbSram cs)"
    using inv by (auto simp: chunks_inv_def intro: one)
  then have "sorted_wrt apart (in_region MainSram cs @ in_region AhbSram cs)"
    by (auto simp: sorted_wrt_append in_region_def apart_def)
  moreover have "cs = in_region MainSram cs @ in_region AhbSram cs"
    using inv by (intro split_regions) (simp_all add: chunks_inv_def)
  ultimately show ?thesis by simp
qed

text \<open>With nothing allocated there is one free chunk per region: the chunks of a fresh heap.\<close>

lemma empty_heap_chunks:
  assumes inv: "heap_inv h" and "heap_live h = {}"
  shows "chunks h = initial_chunks (main_layout h) (the_ahb_layout h)"
proof -
  let ?cs = "chunks h" and ?m = "main_layout h" and ?a = "the_ahb_layout h"
  have ci: "chunks_inv h ?cs" and lay: "layouts_ok ?m ?a" and coal: "coalesced ?cs"
    using inv by (simp_all add: heap_inv_def)
  have split: "?cs = in_region MainSram ?cs @ in_region AhbSram ?cs"
    using ci by (intro split_regions) (simp_all add: chunks_inv_def)
  then have parts: "coalesced (in_region MainSram ?cs)" "coalesced (in_region AhbSram ?cs)"
    using coal successively_appendD unfolding coalesced_def by metis+
  have ids: "live_ids (in_region r ?cs) = []" "list_all chunk_ok (in_region r ?cs)" for r
    using assms(2) ci by (auto simp: heap_live_def live_ids_def in_region_def chunks_inv_def
        filter_empty_conv list_all_iff)
  have one: "in_region r ?cs = [free_chunk r s (e - s - kHeapRegionSentinelBytes)]"
    if "tiles r (unat s) (unat e - 8) (in_region r ?cs)" "unat s + 8 < unat e" "coalesced (in_region r ?cs)"
    for r and s e :: u32
  proof -
    have "in_region r ?cs = [free_chunk r (word_of_nat (unat s)) (word_of_nat (unat e - 8 - unat s))]"
      by (rule single_free_chunk [OF that(1) _ _ that(3) ids])
        (use that(2) unat_u32_lt [of e] in simp_all)
    moreover have "e - s - kHeapRegionSentinelBytes = word_of_nat (unat e - 8 - unat s)"
      using that(2) by (simp add: heap_constants of_nat_diff algebra_simps)
    ultimately show ?thesis by simp
  qed
  show ?thesis
    using split one [of MainSram "main_heap_start ?m" "main_heap_end ?m"]
      one [of AhbSram "ahb_heap_start ?a" "ahb_heap_end ?a"] ci lay parts
    by (simp add: initial_chunks_def chunks_inv_def main_span_def ahb_span_def layouts_ok_def)
qed

lemma heap_layouts_kept:
  "heap_allocate aid n h = Inr (res, h') \<Longrightarrow> main_layout h' = main_layout h \<and> the_ahb_layout h' = the_ahb_layout h"
  "heap_deallocate aid h = (res, h') \<Longrightarrow> main_layout h' = main_layout h \<and> the_ahb_layout h' = the_ahb_layout h"
  by (auto simp: heap_allocate_def heap_deallocate_def Let_def split: if_splits sum.splits option.splits)

text \<open>Undoing an allocation merges the two pieces again.\<close>

lemma coalesce_place:
  assumes inv: "chunks_inv h (pre @ [c] @ post)" and "coalesced (pre @ [c] @ post)" and free: "\<not> used c" 
    and "req \<le> span_bytes c"
  shows "coalesce_free_chunks (pre @ map (\<lambda>d. if used d then release_chunk d else d) (place req aid payload c) @ post)
    = pre @ [c] @ post"
proof -
  have c: "release_chunk (take_chunk aid payload c') = c'" if "chunk_ok c'" "\<not> used c'" for c'
    using that by (simp add: release_chunk_def take_chunk_def chunk_ok_def)
  have ok: "chunk_ok c" using inv by (simp add: chunks_inv_def)
  show ?thesis
  proof (cases "span_bytes c - req > kHeapMinimumBlockBytes")
    case True
    define l where "l = c\<lparr>span_bytes := req\<rparr>"
    define t where "t = free_chunk (region c) (address c + req) (span_bytes c - req)"
    have pieces: "map (\<lambda>d. if used d then release_chunk d else d) (place req aid payload c) = [l, t]"
      using True ok free by (simp add: place_def Let_def l_def t_def take_chunk_def release_chunk_def free_chunk_def chunk_ok_def)
    have "coalesced (pre @ [l])"
      using assms(2) free by (auto simp: coalesced_def successively_append_iff successively_Cons l_def mergeable_def)
    moreover have "coalesce_free_chunks (l # t # post) = coalesce_free_chunks (c # post)"
      using free by (simp add: l_def t_def free_chunk_def)
    moreover have "coalesce_free_chunks (c # post) = c # post"
      by (rule coalesce_id) (use assms(2) in \<open>auto simp: coalesced_def successively_append_iff\<close>)
    ultimately show ?thesis
      using coalesce_prefix [of pre l "t # post"] by (simp add: pieces)
  next
    case False
    then have "map (\<lambda>d. if used d then release_chunk d else d) (place req aid payload c) = [c]"
      using c [OF ok free] by (simp add: place_def Let_def) (simp add: take_chunk_def)
    then show ?thesis using coalesce_id [OF assms(2)] by simp
  qed
qed

section \<open>The snapshot\<close>

record heap_snapshot =
  hs_capacity_bytes :: u32
  hs_live_payload_bytes :: u32
  hs_peak_live_payload_bytes :: u32
  hs_allocator_overhead_bytes :: u32
  hs_total_free_bytes :: u32
  hs_minimum_ever_free_bytes :: u32
  hs_largest_free_block_bytes :: u32
  hs_smallest_free_block_bytes :: u32
  hs_free_area_count :: u32
  hs_successful_allocation_count :: u32
  hs_successful_free_count :: u32
  hs_failed_allocation_count :: u32
  hs_failed_allocation_bytes :: u64

record main_snapshot =
  ms_capacity_bytes :: u32
  ms_static_bytes :: u32
  ms_stack_reserved_bytes :: u32
  ms_heap_break :: u32
  ms_active_heap_limit :: u32
  ms_heap_committed_bytes :: u32
  ms_live_payload_bytes :: u32
  ms_peak_live_payload_bytes :: u32
  ms_allocator_overhead_bytes :: u32
  ms_fragmented_free_bytes :: u32
  ms_largest_free_block_bytes :: u32
  ms_top_unallocated_bytes :: u32
  ms_minimum_margin_bytes :: u32
  ms_config_cache_start :: u32
  ms_config_cache_bytes :: u32
  ms_failed_allocation_count :: u32
  ms_failed_allocation_bytes :: u64
  ms_config_cache_active :: bool
  ms_config_cache_collision :: bool
  ms_heap_limit_collision :: bool

record ahb_snapshot =
  as_capacity_bytes :: u32
  as_static_bytes :: u32
  as_dynamic_capacity_bytes :: u32
  as_live_payload_bytes :: u32
  as_peak_live_payload_bytes :: u32
  as_allocator_overhead_bytes :: u32
  as_total_free_bytes :: u32
  as_largest_free_block_bytes :: u32
  as_failed_allocation_count :: u32
  as_failed_allocation_bytes :: u64

record model_snapshot =
  snap_heap :: heap_snapshot
  snap_main :: main_snapshot
  snap_ahb :: ahb_snapshot

text \<open>The body of the loop of \<^verbatim>\<open>snapshot\<close>.\<close>

definition snapshot_chunk :: "chunk \<Rightarrow> model_snapshot \<Rightarrow> model_snapshot" where
  "snapshot_chunk c s =
     (let hp = (snap_heap s)\<lparr>hs_capacity_bytes := hs_capacity_bytes (snap_heap s) + span_bytes c\<rparr>;
          mn = snap_main s; ah = snap_ahb s; n = span_bytes c
      in if used c
         then let overhead = n - payload_bytes c;
                  hp = hp\<lparr>hs_allocator_overhead_bytes := hs_allocator_overhead_bytes hp + overhead\<rparr>
              in if region c = MainSram
                 then \<lparr>snap_heap = hp,
                       snap_main = mn\<lparr>ms_heap_committed_bytes := ms_heap_committed_bytes mn + n,
                                      ms_allocator_overhead_bytes := ms_allocator_overhead_bytes mn + overhead\<rparr>,
                       snap_ahb = ah\<rparr>
                 else \<lparr>snap_heap = hp, snap_main = mn,
                       snap_ahb = ah\<lparr>as_allocator_overhead_bytes := as_allocator_overhead_bytes ah + overhead\<rparr>\<rparr>
         else let hp = hp\<lparr>hs_total_free_bytes := hs_total_free_bytes hp + n,
                          hs_largest_free_block_bytes := max (hs_largest_free_block_bytes hp) n,
                          hs_smallest_free_block_bytes := min (hs_smallest_free_block_bytes hp) n,
                          hs_free_area_count := hs_free_area_count hp + 1\<rparr>
              in if region c = MainSram
                 then \<lparr>snap_heap = hp,
                       snap_main = mn\<lparr>ms_fragmented_free_bytes := ms_fragmented_free_bytes mn + n,
                                      ms_largest_free_block_bytes := max (ms_largest_free_block_bytes mn) n\<rparr>,
                       snap_ahb = ah\<rparr>
                 else \<lparr>snap_heap = hp, snap_main = mn,
                       snap_ahb = ah\<lparr>as_total_free_bytes := as_total_free_bytes ah + n,
                                     as_largest_free_block_bytes := max (as_largest_free_block_bytes ah) n\<rparr>\<rparr>)"

definition snapshot_start :: "heap_model \<Rightarrow> model_snapshot" where
  "snapshot_start h =
     (let m = main_layout h; a = the_ahb_layout h
      in \<lparr>snap_heap =
            \<lparr>hs_capacity_bytes = 0, hs_live_payload_bytes = live_payload_bytes h,
             hs_peak_live_payload_bytes = peak_live_payload_bytes h, hs_allocator_overhead_bytes = 0,
             hs_total_free_bytes = 0, hs_minimum_ever_free_bytes = minimum_ever_free_bytes h,
             hs_largest_free_block_bytes = 0, hs_smallest_free_block_bytes = 0xFFFFFFFF, hs_free_area_count = 0,
             hs_successful_allocation_count = successful_allocation_count h,
             hs_successful_free_count = successful_free_count h,
             hs_failed_allocation_count = failed_allocation_count h,
             hs_failed_allocation_bytes = failed_allocation_bytes h\<rparr>,
          snap_main =
            \<lparr>ms_capacity_bytes = ram_end m - ram_start m, ms_static_bytes = main_static_end m - ram_start m,
             ms_stack_reserved_bytes = stack_top m - stack_limit m, ms_heap_break = main_heap_start m,
             ms_active_heap_limit = main_heap_end m, ms_heap_committed_bytes = 0,
             ms_live_payload_bytes = main_live_payload_bytes h,
             ms_peak_live_payload_bytes = main_peak_live_payload_bytes h,
             ms_allocator_overhead_bytes = 0, ms_fragmented_free_bytes = 0, ms_largest_free_block_bytes = 0,
             ms_top_unallocated_bytes = 0, ms_minimum_margin_bytes = minimum_ever_free_bytes h,
             ms_config_cache_start = 0, ms_config_cache_bytes = 0,
             ms_failed_allocation_count = failed_allocation_count h,
             ms_failed_allocation_bytes = failed_allocation_bytes h,
             ms_config_cache_active = False, ms_config_cache_collision = False, ms_heap_limit_collision = False\<rparr>,
          snap_ahb =
            \<lparr>as_capacity_bytes = region_end a - region_start a, as_static_bytes = ahb_static_end a - region_start a,
             as_dynamic_capacity_bytes = ahb_heap_end a - ahb_heap_start a - kHeapRegionSentinelBytes,
             as_live_payload_bytes = ahb_live_payload_bytes h, as_peak_live_payload_bytes = ahb_peak_live_payload_bytes h,
             as_allocator_overhead_bytes = 0, as_total_free_bytes = 0, as_largest_free_block_bytes = 0,
             as_failed_allocation_count = 0, as_failed_allocation_bytes = 0\<rparr>\<rparr>)"

definition heap_snapshot_of :: "heap_model \<Rightarrow> model_snapshot" where
  "heap_snapshot_of h =
     (let s = fold snapshot_chunk (chunks h) (snapshot_start h)
      in if hs_free_area_count (snap_heap s) = 0
         then s\<lparr>snap_heap := (snap_heap s)\<lparr>hs_smallest_free_block_bytes := 0\<rparr>\<rparr> else s)"

text \<open>One operation of the heap; an operation that throws changes nothing.\<close>

datatype heap_op = AllocateOp u64 u64 | DeallocateOp u64

definition heap_step :: "heap_op \<Rightarrow> heap_model \<Rightarrow> heap_model" where
  "heap_step op h =
     (case op of
        AllocateOp aid n \<Rightarrow> (case heap_allocate aid n h of Inl e \<Rightarrow> h | Inr (res, h') \<Rightarrow> h')
      | DeallocateOp aid \<Rightarrow> snd (heap_deallocate aid h))"

lemma heap_step_inv: "heap_inv h \<Longrightarrow> heap_inv (heap_step op h)"
  by (cases op) (auto simp: heap_step_def split: sum.splits prod.splits
      intro: heap_allocate_inv heap_deallocate_inv [OF _ surjective_pairing])

lemma heap_step_layouts:
  "main_layout (heap_step op h) = main_layout h \<and> the_ahb_layout (heap_step op h) = the_ahb_layout h"
  by (cases op) (auto simp: heap_step_def split: sum.splits prod.splits dest: heap_layouts_kept(1)
      simp: heap_layouts_kept(2) [OF surjective_pairing])

interpretation heap_ops: operations heap_step heap_inv "\<lambda>op. True"
  by unfold_locales (rule heap_step_inv)

interpretation heap_layouts: framed_operations heap_step "\<lambda>h. True" "\<lambda>op. True" "\<lambda>h. (main_layout h, the_ahb_layout h)"
  by unfold_locales (simp_all add: heap_step_layouts)

lemma heap_run_inv: "heap_inv h \<Longrightarrow> heap_inv (fold heap_step ops h)"
  by (simp add: heap_ops.run_kept)

lemma heap_run_layouts:
  "main_layout (fold heap_step ops h) = main_layout h \<and> the_ahb_layout (fold heap_step ops h) = the_ahb_layout h"
  using heap_layouts.run_framed [where ops = ops and s = h] by simp

text \<open>What the loop of \<^verbatim>\<open>snapshot\<close> adds up.\<close>

lemma snapshot_sums:
  assumes "list_all chunk_ok cs"
  shows "hs_capacity_bytes (snap_heap (fold snapshot_chunk cs s)) =
      hs_capacity_bytes (snap_heap s) + word_of_nat (\<Sum>c\<leftarrow>cs. unat (span_bytes c))"
    and "hs_total_free_bytes (snap_heap (fold snapshot_chunk cs s)) =
      hs_total_free_bytes (snap_heap s) + word_of_nat (free_sum cs)"
    and "hs_allocator_overhead_bytes (snap_heap (fold snapshot_chunk cs s)) =
      hs_allocator_overhead_bytes (snap_heap s) +
      word_of_nat ((\<Sum>c\<leftarrow>cs. unat (span_bytes c)) - live_sum (\<lambda>_. True) cs - free_sum cs)"
    and "hs_live_payload_bytes (snap_heap (fold snapshot_chunk cs s)) = hs_live_payload_bytes (snap_heap s)"
    and "hs_minimum_ever_free_bytes (snap_heap (fold snapshot_chunk cs s)) = hs_minimum_ever_free_bytes (snap_heap s)"
  using assms
proof (induction cs arbitrary: s)
  case (Cons c cs)
  note le = live_free_le_spans [of cs "\<lambda>_. True"]
  {
    case 1
    with Cons.IH(1) show ?case by (simp add: snapshot_chunk_def Let_def)
  next
    case 2
    with Cons.IH(2) show ?case by (simp add: snapshot_chunk_def Let_def)
  next
    case 3
    then have ok: "list_all chunk_ok cs" and "chunk_ok c" by simp_all
    then have fits: "used c \<Longrightarrow> unat (payload_bytes c) \<le> unat (span_bytes c)"
      by (simp add: chunk_ok_def [of c])
    show ?case
    proof (cases "used c")
      case True
      with fits True le [OF ok] Cons.IH(3) [OF ok] show ?thesis
        by (simp add: snapshot_chunk_def Let_def of_nat_diff algebra_simps)
    next
      case False
      with le [OF ok] Cons.IH(3) [OF ok] show ?thesis
        by (simp add: snapshot_chunk_def Let_def)
    qed
  next
    case 4
    with Cons.IH(4) show ?case by (simp add: snapshot_chunk_def Let_def)
  next
    case 5
    with Cons.IH(5) show ?case by (simp add: snapshot_chunk_def Let_def)
  }
qed simp_all

lemma snapshot_largest:
  "hs_largest_free_block_bytes (snap_heap (fold snapshot_chunk cs s)) =
   fold max (map span_bytes (filter (\<lambda>c. \<not> used c) cs)) (hs_largest_free_block_bytes (snap_heap s))"
  by (induction cs arbitrary: s) (simp_all add: snapshot_chunk_def Let_def max.commute)

lemma fold_max_ge: "(k :: 'a::linorder) \<le> fold max xs m \<longleftrightarrow> k \<le> m \<or> (\<exists>x \<in> set xs. k \<le> x)"
  by (induction xs arbitrary: m) (auto simp: le_max_iff_disj)

text \<open>A request is served exactly when its span fits the largest free block.\<close>

lemma first_fit_largest:
  "req \<noteq> 0 \<Longrightarrow> first_fit req cs \<noteq> None \<longleftrightarrow>
   req \<le> fold max (map span_bytes (filter (\<lambda>c. \<not> used c) cs)) 0"
  unfolding fold_max_ge first_fit_None by (auto simp: not_less)

lemma snapshot_final [simp]:
  "hs_capacity_bytes (snap_heap (heap_snapshot_of h)) = hs_capacity_bytes (snap_heap (fold snapshot_chunk (chunks h) (snapshot_start h)))"
  "hs_total_free_bytes (snap_heap (heap_snapshot_of h)) = hs_total_free_bytes (snap_heap (fold snapshot_chunk (chunks h) (snapshot_start h)))"
  "hs_allocator_overhead_bytes (snap_heap (heap_snapshot_of h)) = hs_allocator_overhead_bytes (snap_heap (fold snapshot_chunk (chunks h) (snapshot_start h)))"
  "hs_largest_free_block_bytes (snap_heap (heap_snapshot_of h)) = hs_largest_free_block_bytes (snap_heap (fold snapshot_chunk (chunks h) (snapshot_start h)))"
  "hs_live_payload_bytes (snap_heap (heap_snapshot_of h)) = hs_live_payload_bytes (snap_heap (fold snapshot_chunk (chunks h) (snapshot_start h)))"
  "hs_minimum_ever_free_bytes (snap_heap (heap_snapshot_of h)) = hs_minimum_ever_free_bytes (snap_heap (fold snapshot_chunk (chunks h) (snapshot_start h)))"
  by (simp_all add: heap_snapshot_of_def Let_def)

lemma snapshot_start_simps [simp]:
  "hs_capacity_bytes (snap_heap (snapshot_start h)) = 0"
  "hs_total_free_bytes (snap_heap (snapshot_start h)) = 0"
  "hs_allocator_overhead_bytes (snap_heap (snapshot_start h)) = 0"
  "hs_largest_free_block_bytes (snap_heap (snapshot_start h)) = 0"
  "hs_live_payload_bytes (snap_heap (snapshot_start h)) = live_payload_bytes h"
  "hs_minimum_ever_free_bytes (snap_heap (snapshot_start h)) = minimum_ever_free_bytes h"
  by (simp_all add: snapshot_start_def Let_def)

section \<open>The chunk an allocation takes\<close>

lemma place_hd:
  assumes "req \<le> span_bytes c"
  obtains d rest where "place req aid payload c = d # rest" "used d" "allocation_id d = aid" "region d = region c"
    "payload_bytes d = payload" "address d = address c" "req \<le> span_bytes d" "\<forall>x \<in> set rest. \<not> used x"
    "free_sum rest + unat (span_bytes d) = unat (span_bytes c)"
proof (cases "span_bytes c - req > kHeapMinimumBlockBytes")
  case True
  then show thesis
    using assms by (intro that [of "take_chunk aid payload (c\<lparr>span_bytes := req\<rparr>)"
        "[free_chunk (region c) (address c + req) (span_bytes c - req)]"])
      (simp_all add: place_def Let_def take_chunk_def free_chunk_def unat_minus_if word_le_nat_alt)
next
  case False
  then show thesis
    using assms by (intro that [of "take_chunk aid payload c" "[]"])
      (simp_all add: place_def Let_def take_chunk_def)
qed

section \<open>Sizes that do not overflow\<close>

lemma aligned_span_Inr:
  assumes "unat n \<le> 0xFFFFFFF0"
  obtains p req where "checked_size n = Inr p" "aligned_span n kHeapHeaderBytes kHeapAlignment = Inr req"
    "unat req = 8 * ((unat n + 15) div 8)"
proof -
  have p: "checked_size n = Inr (ucast n)" and n: "unat (ucast n :: u32) = unat n"
    using assms by (simp_all add: checked_size_def word_less_nat_alt unsigned_ucast_eq take_bit_eq_mod)
  then have le: "\<not> (ucast n :: u32) > 0xFFFFFFF0" using assms by (simp add: word_less_nat_alt)
  then have req: "aligned_span n kHeapHeaderBytes kHeapAlignment = Inr ((ucast n + 15) AND NOT 7)"
    using p by (simp add: aligned_span_def heap_constants add.commute)
  have "unat ((ucast n :: u32) + 15) = unat n + 15"
    using assms n by (subst unat_plus_if) simp_all
  then have "unat (((ucast n :: u32) + 15) AND NOT 7) = 8 * ((unat n + 15) div 8)"
    by (simp only: unat_and_not_7)
  with p req show thesis by (rule that)
qed

lemma aligned_span_error:
  assumes "\<not> unat n \<le> 0xFFFFFFF0" and "checked_size n = Inr p"
  shows "aligned_span n kHeapHeaderBytes kHeapAlignment = Inl OverflowError"
proof -
  have "unat n < 2 ^ 32" and p: "p = ucast n"
    using assms(2) by (auto simp: checked_size_def word_less_nat_alt split: if_splits)
  then have "unat p = unat n" by (simp add: unsigned_ucast_eq take_bit_eq_mod)
  then have "p > 0xFFFFFFF0" using assms(1) by (simp add: word_less_nat_alt)
  then show ?thesis using assms(2) by (simp add: aligned_span_def heap_constants)
qed

lemma allocate_deallocate:
  assumes inv: "heap_inv h" and alloc: "heap_allocate aid n h = Inr (Some r, h')"
  shows "\<exists>h''. heap_deallocate aid h' = (Some r, h'') \<and> chunks h'' = chunks h \<and>
      allocation_chunks h'' = allocation_chunks h \<and> live_payload_bytes h'' = live_payload_bytes h \<and>
      main_live_payload_bytes h'' = main_live_payload_bytes h \<and>
      ahb_live_payload_bytes h'' = ahb_live_payload_bytes h \<and> heap_deallocate aid h'' = (None, h'')"
proof -
  from heap_allocate_Some [OF alloc] obtain payload req pre c post where
    cs: "chunks h = pre @ [c] @ post" "\<not> used c" "req \<le> span_bytes c" "r = region c"
    and h': "h' = charge r payload (pre @ place req aid payload c @ post) h" by metis
  have inv': "heap_inv h'" using heap_allocate_inv [OF inv alloc] .
  from place_hd [OF cs(3)] obtain d rest where
    d: "place req aid payload c = d # rest" "used d" "allocation_id d = aid" "region d = region c"
    "payload_bytes d = payload" "address d = address c" "req \<le> span_bytes d" "\<forall>x \<in> set rest. \<not> used x"
    "free_sum rest + unat (span_bytes d) = unat (span_bytes c)" by blast
  have cs': "chunks h' = pre @ d # rest @ post" by (simp add: h' charge_def d(1))
  have "distinct (live_ids (chunks h'))" "allocation_chunks h' = rebuild_allocation_index (chunks h')"
    using inv' by (simp_all add: heap_inv_def chunks_inv_def)
  then have idx: "allocation_chunks h' aid = Some (length pre)"
    using d by (simp add: index_Some_iff cs')
  have "rest = map (\<lambda>d. if used d then release_chunk d else d) rest"
    using d(8) by (simp add: map_idI)
  then have "coalesce_free_chunks (pre @ (release_chunk d # rest) @ post) = pre @ [c] @ post"
    using coalesce_place [of h pre c post req aid payload] inv cs d(1,2)
    by (simp add: heap_inv_def)
  then have eq: "heap_deallocate aid h' = (Some r, credit d (chunks h) h')"
    using d(4) by (simp add: heap_deallocate_def idx Let_def credit_def release_chunk_def cs' cs(1,4))
  let ?h'' = "credit d (chunks h) h'"
  have inv'': "heap_inv ?h''" using heap_deallocate_inv [OF inv' eq] .
  then have same: "allocation_chunks ?h'' = allocation_chunks h" "live_payload_bytes ?h'' = live_payload_bytes h"
    "main_live_payload_bytes ?h'' = main_live_payload_bytes h" "ahb_live_payload_bytes ?h'' = ahb_live_payload_bytes h"
    using inv by (simp_all add: credit_def h' charge_def d(4,5) cs(4) heap_inv_def)
  moreover have "heap_deallocate aid ?h'' = (None, ?h'')"
    using heap.double_free [OF inv', of aid] eq by simp
  ultimately show ?thesis using eq by (simp add: credit_def)
qed

lemma heap_allocate_deallocate_chunks:
  assumes "heap_inv h" and "heap_allocate aid n h = Inr (Some r, h')"
  shows "chunks (snd (heap_deallocate aid h')) = chunks h"
  using allocate_deallocate [OF assms] by auto

section \<open>Properties\<close>

text \<open>The heap of the witnesses: 256 bytes of main SRAM, 128 bytes of AHB SRAM, each with its sentinel.\<close>

definition example_main :: main_sram_layout where
  "example_main = \<lparr>ram_start = 0x10000000, ram_end = 0x10008000, main_static_end = 0x10000100, stack_top = 0x10008000,
     stack_limit = 0x10007000, main_heap_start = 0x10000100, main_heap_end = 0x10000208\<rparr>"

definition example_ahb :: ahb_layout where
  "example_ahb = \<lparr>region_start = 0x2007C000, region_end = 0x20084000, ahb_static_end = 0x2007C100,
     ahb_heap_start = 0x2007C100, ahb_heap_end = 0x2007C188\<rparr>"

definition example_heap :: heap_model where
  "example_heap = projr (new_heap_model example_main example_ahb)"

lemma example_new: "new_heap_model example_main example_ahb = Inr example_heap"
  by (simp add: example_heap_def new_heap_model_def main_layout_valid_def ahb_layout_valid_def heap_reset_def
      add_region_def example_main_def example_ahb_def heap_constants Let_def)

lemma example_bound:
  "unat (main_heap_end example_main - main_heap_start example_main) +
   unat (ahb_heap_end example_ahb - ahb_heap_start example_ahb) < 2 ^ 32"
  by (simp add: example_main_def example_ahb_def)

lemma example_alloc:
  "\<exists>r h'. heap_allocate 7 40 example_heap = Inr (Some r, h') \<and> live_payload_bytes example_heap = 0"
proof -
  have "(case heap_allocate 7 40 example_heap of Inl e \<Rightarrow> False | Inr (r, h') \<Rightarrow> r \<noteq> None) \<and>
    live_payload_bytes example_heap = 0" by code_simp
  then show ?thesis by (auto split: sum.splits prod.splits)
qed

lemma example_inv: "heap_inv example_heap"
  using new_heap_model_inv [OF example_new example_bound] by simp

text \<open>
  C2: starting from a freshly constructed heap, every sequence of allocations and deallocations
  (duplicate ids, oversized requests and unknown ids included) keeps the heap invariant: the chunks
  tile both regions exactly, every counter agrees with the chunk list, and no two chunks overlap.
\<close>

theorem heap_run_safe:
  assumes "new_heap_model m a = Inr h"
    and "unat (main_heap_end m - main_heap_start m) + unat (ahb_heap_end a - ahb_heap_start a) < 2 ^ 32"
  shows "heap_inv (fold heap_step ops h) \<and> sorted_wrt apart (chunks (fold heap_step ops h))"
proof -
  have "heap_inv h" using new_heap_model_inv [OF assms] by simp
  then have "heap_inv (fold heap_step ops h)" by (rule heap_run_inv)
  then show ?thesis using chunks_apart by (auto simp: heap_inv_def)
qed

theorem heap_run_safe_witness:
  "heap_inv (fold heap_step [AllocateOp 1 40, AllocateOp 2 100, DeallocateOp 1, AllocateOp 3 8, AllocateOp 3 8] example_heap)"
  using heap_run_safe [OF example_new example_bound,
      of "[AllocateOp 1 40, AllocateOp 2 100, DeallocateOp 1, AllocateOp 3 8, AllocateOp 3 8]"] by blast

text \<open>
  An allocation succeeds exactly when the id is not live, the size does not overflow and the size
  with its header, rounded up to 8 bytes, fits the largest free block the snapshot reports.
\<close>

theorem heap_allocate_succeeds_iff:
  assumes inv: "heap_inv h"
  shows "(\<exists>r h'. heap_allocate aid n h = Inr (Some r, h')) \<longleftrightarrow>
    aid \<notin> heap_live h \<and> unat n \<le> 0xFFFFFFF0 \<and>
    8 * ((unat n + 15) div 8) \<le> unat (hs_largest_free_block_bytes (snap_heap (heap_snapshot_of h)))"
proof (cases "aid \<notin> heap_live h \<and> unat n \<le> 0xFFFFFFF0")
  case False
  then show ?thesis
    using heap_dom [OF inv] aligned_span_error [of n]
    by (auto simp: heap_allocate_def split: if_splits sum.splits option.splits)
next
  case True
  then obtain p req where p: "checked_size n = Inr p" "aligned_span n kHeapHeaderBytes kHeapAlignment = Inr req"
    "unat req = 8 * ((unat n + 15) div 8)" using aligned_span_Inr by blast
  then have "req \<noteq> 0" by (auto simp: unat_pos_iff [symmetric])
  then have "first_fit req (chunks h) \<noteq> None \<longleftrightarrow>
      unat req \<le> unat (hs_largest_free_block_bytes (snap_heap (heap_snapshot_of h)))"
    using first_fit_largest [of req "chunks h"] by (simp add: snapshot_largest word_le_nat_alt)
  then show ?thesis
    using True p heap_dom [OF inv]
    by (auto simp: heap_allocate_def Let_def split: if_splits option.splits)
qed

theorem heap_allocate_succeeds_iff_witness:
  "(\<exists>r h'. heap_allocate 7 (240 :: u64) example_heap = Inr (Some r, h')) \<and>
   \<not> (\<exists>r h'. heap_allocate 7 (249 :: u64) example_heap = Inr (Some r, h'))"
proof -
  have "heap_live example_heap = {}"
    and "hs_largest_free_block_bytes (snap_heap (heap_snapshot_of example_heap)) = 256"
    by code_simp+
  then show ?thesis
    using heap_allocate_succeeds_iff [OF example_inv, of 7 240] heap_allocate_succeeds_iff [OF example_inv, of 7 249]
    by simp
qed

text \<open>
  C3: a successful allocation returns a region in which the new chunk lies: it carries the id and the
  payload size, is 8-aligned with room for its header, comes out of the free bytes, and no other
  allocation changes.
\<close>

theorem heap_allocate_correct:
  assumes inv: "heap_inv h" and alloc: "heap_allocate aid n h = Inr (Some r, h')"
  shows "\<exists>c. c \<in> set (chunks h') \<and> used c \<and> allocation_id c = aid \<and> region c = r \<and>
      unat (payload_bytes c) = unat n \<and> 8 dvd unat (address c) \<and> unat n + 8 \<le> unat (span_bytes c) \<and>
      free_sum (chunks h') + unat (span_bytes c) = free_sum (chunks h) \<and>
      unat (live_payload_bytes h') = unat (live_payload_bytes h) + unat n \<and>
      filter used (chunks h) = filter (\<lambda>d. used d \<and> allocation_id d \<noteq> aid) (chunks h')"
proof -
  from heap_allocate_Some [OF alloc] obtain payload req pre c post where
    p: "checked_size n = Inr payload" "aligned_span n kHeapHeaderBytes kHeapAlignment = Inr req"
    and cs: "chunks h = pre @ [c] @ post" "\<not> used c" "req \<le> span_bytes c" "r = region c"
    and aid: "aid \<notin> dom (allocation_chunks h)"
    and h': "h' = charge r payload (pre @ place req aid payload c @ post) h" by metis
  note b = aligned_span_bounds [OF p]
  from place_hd [OF cs(3)] obtain d rest where
    d: "place req aid payload c = d # rest" "used d" "allocation_id d = aid" "region d = region c"
    "payload_bytes d = payload" "address d = address c" "req \<le> span_bytes d" "\<forall>x \<in> set rest. \<not> used x"
    "free_sum rest + unat (span_bytes d) = unat (span_bytes c)" by blast
  have cs': "chunks h' = pre @ d # rest @ post" by (simp add: h' charge_def d(1))
  have "chunk_ok c" using inv cs by (simp add: heap_inv_def chunks_inv_def)
  then have "8 dvd unat (address d)" by (simp add: d chunk_ok_def)
  moreover have "unat n + 8 \<le> unat (span_bytes d)"
    using b d(7) by (simp add: word_le_nat_alt)
  moreover have "free_sum (chunks h') + unat (span_bytes d) = free_sum (chunks h)"
    using d(2,9) cs(2) unfolding cs' cs(1) by simp
  moreover have "live_sum (\<lambda>_. True) rest = 0" using d(8) by (induction rest) auto
  then have "unat (live_payload_bytes h') = unat (live_payload_bytes h) + unat n"
    using inv heap_allocate_inv [OF inv alloc] d(2,5) cs(2) b(4)
    by (simp add: heap_inv_def) (simp add: cs' cs(1))
  moreover have "x \<noteq> aid" if "x \<in> set (live_ids (pre @ post))" for x
    using aid that heap_dom [OF inv] cs(1,2) by (auto simp: heap_live_def)
  then have "filter (\<lambda>x. used x \<and> allocation_id x \<noteq> aid) xs = filter used xs" if "xs = pre \<or> xs = post" for xs
    using that by (intro filter_cong) (auto simp: live_ids_def)
  then have "filter used (chunks h) = filter (\<lambda>d. used d \<and> allocation_id d \<noteq> aid) (chunks h')"
    using d(2,3,8) cs(2) unfolding cs' cs(1) by simp
  moreover have "d \<in> set (chunks h')" by (simp add: cs')
  moreover have "region d = r" "unat (payload_bytes d) = unat n" using d cs(4) b(4) by simp_all
  ultimately show ?thesis using d(2,3) by blast
qed

theorem heap_allocate_correct_witness:
  "\<exists>r h' c. heap_allocate 7 40 example_heap = Inr (Some r, h') \<and> c \<in> set (chunks h') \<and> allocation_id c = 7 \<and>
     unat (live_payload_bytes h') = 40"
proof -
  obtain r h' where *: "heap_allocate 7 40 example_heap = Inr (Some r, h')" "live_payload_bytes example_heap = 0"
    using example_alloc by blast
  then show ?thesis using heap_allocate_correct [OF example_inv *(1)] by auto
qed

text \<open>
  Deallocating what was just allocated gives back the same region and restores the chunk list, the
  allocation index and the live byte counts exactly; a second deallocation of the id does nothing.
\<close>

theorem heap_allocate_deallocate:
  assumes inv: "heap_inv h" and alloc: "heap_allocate aid n h = Inr (Some r, h')"
  shows "\<exists>h''. heap_deallocate aid h' = (Some r, h'') \<and> chunks h'' = chunks h \<and>
      allocation_chunks h'' = allocation_chunks h \<and> live_payload_bytes h'' = live_payload_bytes h \<and>
      main_live_payload_bytes h'' = main_live_payload_bytes h \<and>
      ahb_live_payload_bytes h'' = ahb_live_payload_bytes h \<and> heap_deallocate aid h'' = (None, h'')"
  by (rule allocate_deallocate [OF assms])

theorem heap_allocate_deallocate_witness:
  "\<exists>r h' h''. heap_allocate 7 40 example_heap = Inr (Some r, h') \<and> heap_deallocate 7 h' = (Some r, h'') \<and>
     chunks h'' = chunks example_heap"
proof -
  obtain r h' where *: "heap_allocate 7 40 example_heap = Inr (Some r, h')"
    using example_alloc by blast
  then show ?thesis using heap_allocate_deallocate [OF example_inv *] by blast
qed

text \<open>
  C4: whatever was allocated and freed in between, freeing every live id merges the heap back into the
  one free chunk per region it was constructed with, and every live byte count is zero again.
\<close>

theorem heap_free_all_restores:
  assumes new: "new_heap_model m a = Inr h0"
    and bound: "unat (main_heap_end m - main_heap_start m) + unat (ahb_heap_end a - ahb_heap_start a) < 2 ^ 32"
    and run: "h = fold heap_step ops h0" and all: "heap_live h \<subseteq> set ids"
    and freed: "h' = fold (\<lambda>a h. snd (heap_deallocate a h)) ids h"
  shows "chunks h' = chunks h0 \<and> allocation_chunks h' = Map.empty \<and> live_payload_bytes h' = 0 \<and>
    main_live_payload_bytes h' = 0 \<and> ahb_live_payload_bytes h' = 0"
proof -
  note h0 = new_heap_model_inv [OF new bound]
  have "heap_inv h" using h0 by (simp add: run heap_run_inv)
  then have inv': "heap_inv h'" and live: "heap_live h' = {}"
    using heap.dealloc_all [of h ids] all by (auto simp: freed)
  have free_step: "heap_step (DeallocateOp x) = (\<lambda>h. snd (heap_deallocate x h))" for x
    by (simp add: fun_eq_iff heap_step_def)
  have "fold (\<lambda>a h. snd (heap_deallocate a h)) ids h = fold heap_step (map DeallocateOp ids) h"
    by (simp add: fold_map comp_def free_step)
  then have "main_layout h' = m \<and> the_ahb_layout h' = a"
    using heap_run_layouts [of "map DeallocateOp ids" h] heap_run_layouts [of ops h0] h0 by (simp add: freed run)
  then have cs: "chunks h' = initial_chunks m a" using empty_heap_chunks [OF inv' live] by simp
  have "dom (allocation_chunks h') = {}" using heap_dom [OF inv'] live by simp
  moreover have "live_sum P (initial_chunks m a) = 0" for P by (simp add: initial_chunks_def free_chunk_def)
  ultimately show ?thesis using inv' h0 cs by (simp add: heap_inv_def)
qed

theorem heap_free_all_restores_witness:
  "chunks (fold (\<lambda>a h. snd (heap_deallocate a h)) [3, 1, 2] (fold heap_step [AllocateOp 1 40, AllocateOp 2 100, AllocateOp 3 8] example_heap))
   = chunks example_heap"
proof -
  have "live_ids (chunks (fold heap_step [AllocateOp 1 40, AllocateOp 2 100, AllocateOp 3 8] example_heap)) = [1, 2, 3]"
    by code_simp
  then show ?thesis
    using heap_free_all_restores [OF example_new example_bound refl _ refl,
        of "[AllocateOp 1 40, AllocateOp 2 100, AllocateOp 3 8]" "[3, 1, 2]"] by (simp add: heap_live_def)
qed

text \<open>
  the snapshot accounts for every byte: live payload, allocator overhead and free bytes add up to the
  reported capacity, which is that of the two regions, and the low-water mark never exceeds the free bytes.
\<close>

theorem heap_snapshot_conservation:
  assumes inv: "heap_inv h"
  shows "unat (hs_live_payload_bytes (snap_heap (heap_snapshot_of h))) +
      unat (hs_allocator_overhead_bytes (snap_heap (heap_snapshot_of h))) +
      unat (hs_total_free_bytes (snap_heap (heap_snapshot_of h))) =
      unat (hs_capacity_bytes (snap_heap (heap_snapshot_of h))) \<and>
    unat (hs_capacity_bytes (snap_heap (heap_snapshot_of h))) = capacity h \<and>
    hs_minimum_ever_free_bytes (snap_heap (heap_snapshot_of h)) \<le> hs_total_free_bytes (snap_heap (heap_snapshot_of h))"
proof -
  let ?cs = "chunks h" and ?live = "live_sum (\<lambda>_. True) (chunks h)"
  have ci: "chunks_inv h ?cs" and ok: "list_all chunk_ok ?cs" and bound: "capacity h < 2 ^ 32"
    using inv capacity_bound by (simp_all add: heap_inv_def chunks_inv_def)
  have le: "?live + free_sum ?cs \<le> capacity h" using live_free_le_capacity [OF ci] .
  have small: "unat (word_of_nat n :: u32) = n" if "n \<le> capacity h" for n
    using that bound by (simp add: unsigned_of_nat take_bit_eq_mod)
  have free: "unat (hs_total_free_bytes (snap_heap (heap_snapshot_of h))) = free_sum ?cs"
    and over: "unat (hs_allocator_overhead_bytes (snap_heap (heap_snapshot_of h))) = capacity h - ?live - free_sum ?cs"
    and cap: "unat (hs_capacity_bytes (snap_heap (heap_snapshot_of h))) = capacity h"
    using le by (simp_all only: snapshot_final snapshot_sums [OF ok] spans_capacity [OF ci] snapshot_start_simps
        add_0 small diff_le_self order_refl add_leD2 le_trans [OF diff_le_self diff_le_self])
  show ?thesis
    using le inv unfolding word_le_nat_alt free over cap
    by (simp add: heap_inv_def snapshot_sums [OF ok])
qed

theorem heap_snapshot_conservation_witness:
  "unat (hs_capacity_bytes (snap_heap (heap_snapshot_of example_heap))) = capacity example_heap"
  using heap_snapshot_conservation [OF example_inv] by blast

end
