(* ===== verification/Memory_Accounting.thy ===== *)
theory Memory_Accounting
  imports Lpc_Heap_Laws
begin

text \<open>
  \<^verbatim>\<open>MemoryAccounting\<close> of \<^verbatim>\<open>src/firmware/lpc_memory_accounting.cpp\<close>: host pointers of the firmware are
  charged to the LPC heap model of \<open>Lpc_Heap\<close> and to allocation groups; the firmware call stack
  that attributes an allocation to a function; and the resolver of
  \<^verbatim>\<open>src/firmware/lpc_allocation_resolver.cpp\<close> that turns a host request into the size the LPC would
  have asked for.  A pointer is a 64-bit word (0 is \<^verbatim>\<open>nullptr\<close>); the tracked pointers are an association list whose
  order stands for the unspecified iteration order of the hash table.  An operation returns the
  exception it throws, if any, and the state it leaves, so that what a throw leaves behind is visible.
\<close>

section \<open>Groups and allocations\<close>

record allocation_group =
  g_region :: memory_region
  g_type_name :: string
  g_host_payload_bytes :: u32
  g_target_payload_bytes :: u32
  g_live_count :: u32
  g_peak_live_count :: u32
  g_total_count :: u32
  g_live_target_bytes :: u64
  g_peak_target_bytes :: u64
  g_target_size_exact :: bool

record allocation =
  a_region :: memory_region
  a_id :: u64
  a_group_index :: nat
  a_modeled :: bool

record memory_accounting =
  acct_heap :: heap_model
  allocations :: "(u64 \<times> allocation) list"
  groups :: "allocation_group list"
  next_id :: u64

definition same_group :: "memory_region \<Rightarrow> string \<Rightarrow> u64 \<Rightarrow> u64 \<Rightarrow> bool \<Rightarrow> allocation_group \<Rightarrow> bool" where
  "same_group r type_name host target exact g \<longleftrightarrow>
     g_region g = r \<and> g_type_name g = type_name \<and> ucast (g_host_payload_bytes g) = host \<and>
     ucast (g_target_payload_bytes g) = target \<and> g_target_size_exact g = exact"

fun find_group :: "(allocation_group \<Rightarrow> bool) \<Rightarrow> allocation_group list \<Rightarrow> nat option" where
  "find_group p [] = None"
| "find_group p (g # gs) = (if p g then Some 0 else map_option Suc (find_group p gs))"

definition find_or_create_group ::
  "memory_region \<Rightarrow> string \<Rightarrow> u64 \<Rightarrow> u64 \<Rightarrow> bool \<Rightarrow> allocation_group list \<Rightarrow> heap_error + nat \<times> allocation_group list" where
  "find_or_create_group r type_name host target exact gs =
     (case find_group (same_group r type_name host target exact) gs of
        Some i \<Rightarrow> Inr (i, gs)
      | None \<Rightarrow>
          (case checked_size host of Inl e \<Rightarrow> Inl e | Inr host32 \<Rightarrow>
          (case checked_size target of Inl e \<Rightarrow> Inl e | Inr target32 \<Rightarrow>
             Inr (length gs, gs @ [\<lparr>g_region = r, g_type_name = type_name, g_host_payload_bytes = host32,
               g_target_payload_bytes = target32, g_live_count = 0, g_peak_live_count = 0, g_total_count = 0,
               g_live_target_bytes = 0, g_peak_target_bytes = 0, g_target_size_exact = exact\<rparr>]))))"

definition charge_group :: "u64 \<Rightarrow> allocation_group \<Rightarrow> allocation_group" where
  "charge_group target g =
     (let live = g_live_count g + 1; bytes = g_live_target_bytes g + target
      in g\<lparr>g_live_count := live, g_total_count := g_total_count g + 1,
           g_peak_live_count := max (g_peak_live_count g) live,
           g_live_target_bytes := bytes, g_peak_target_bytes := max (g_peak_target_bytes g) bytes\<rparr>)"

definition credit_group :: "allocation_group \<Rightarrow> allocation_group" where
  "credit_group g =
     g\<lparr>g_live_count := g_live_count g - 1,
       g_live_target_bytes := g_live_target_bytes g - ucast (g_target_payload_bytes g)\<rparr>"

section \<open>Operations\<close>

definition new_accounting :: "main_sram_layout \<Rightarrow> ahb_layout \<Rightarrow> heap_error + memory_accounting" where
  "new_accounting m a =
     (case new_heap_model m a of Inl e \<Rightarrow> Inl e
      | Inr h \<Rightarrow> Inr \<lparr>acct_heap = h, allocations = [], groups = [], next_id = 1\<rparr>)"

text \<open>A request of unknown target size is not placed in the heap.\<close>

definition place_request :: "bool \<Rightarrow> u64 \<Rightarrow> u64 \<Rightarrow> heap_model \<Rightarrow> heap_error + memory_region option \<times> heap_model" where
  "place_request exact aid target h = (if exact then heap_allocate aid target h else Inr (None, h))"

definition record_heap ::
  "u64 \<Rightarrow> u64 \<Rightarrow> u64 \<Rightarrow> string \<Rightarrow> bool \<Rightarrow> memory_accounting \<Rightarrow> heap_error option \<times> memory_accounting" where
  "record_heap pointer host target type_name exact s =
     (if pointer = 0 then (None, s)
      else if map_of (allocations s) pointer \<noteq> None then (Some InvalidArgument, s)
      else let aid = next_id s;
               s = s\<lparr>next_id := aid + 1\<rparr>
           in case place_request exact aid target (acct_heap s) of
                Inl e \<Rightarrow> (Some e, s)
              | Inr (placed, h) \<Rightarrow>
                  let s = s\<lparr>acct_heap := h\<rparr>;
                      r = (case placed of Some r \<Rightarrow> r | None \<Rightarrow> UnifiedHeap)
                  in case find_or_create_group r type_name host target exact (groups s) of
                       Inl e \<Rightarrow> (Some e, s)
                     | Inr (i, gs) \<Rightarrow>
                         (None, s\<lparr>allocations := (pointer, \<lparr>a_region = r, a_id = aid, a_group_index = i,
                                                        a_modeled = (placed \<noteq> None)\<rparr>) # allocations s,
                                  groups := gs[i := charge_group target (gs ! i)]\<rparr>))"

text \<open>What releasing one tracked allocation does to the heap and to its group.\<close>

definition release_allocation :: "allocation \<Rightarrow> memory_accounting \<Rightarrow> memory_accounting" where
  "release_allocation al s =
     s\<lparr>acct_heap := (if a_modeled al then snd (heap_deallocate (a_id al) (acct_heap s)) else acct_heap s),
       groups := (groups s)[a_group_index al := credit_group (groups s ! a_group_index al)]\<rparr>"

definition acct_deallocate :: "u64 \<Rightarrow> memory_accounting \<Rightarrow> memory_region option \<times> memory_accounting" where
  "acct_deallocate pointer s =
     (if pointer = 0 then (None, s)
      else case map_of (allocations s) pointer of
             None \<Rightarrow> (None, s)
           | Some al \<Rightarrow>
               let s = release_allocation al s
               in (Some (a_region al), s\<lparr>allocations := filter (\<lambda>(p, _). p \<noteq> pointer) (allocations s)\<rparr>))"

text \<open>The loop of \<^verbatim>\<open>release_config_cache\<close>: \<open>kept\<close> are the allocations it has passed over.\<close>

fun release_config_loop :: "(u64 \<times> allocation) list \<Rightarrow> (u64 \<times> allocation) list \<Rightarrow> memory_accounting \<Rightarrow> memory_accounting" where
  "release_config_loop kept [] s = s\<lparr>allocations := rev kept\<rparr>"
| "release_config_loop kept ((p, al) # rest) s =
     (if g_type_name (groups s ! a_group_index al) \<noteq> ''ConfigCache::Chunk''
      then release_config_loop ((p, al) # kept) rest s
      else release_config_loop kept rest (release_allocation al s))"

definition release_config_cache :: "memory_accounting \<Rightarrow> memory_accounting" where
  "release_config_cache s = release_config_loop [] (allocations s) s"

definition acct_reset :: "memory_accounting \<Rightarrow> heap_error option \<times> memory_accounting" where
  "acct_reset s =
     (case heap_reset (acct_heap s) of
        Inl e \<Rightarrow> (Some e, s)
      | Inr h \<Rightarrow> (None, \<lparr>acct_heap = h, allocations = [], groups = [], next_id = 1\<rparr>))"

datatype acct_op = RecordOp u64 u64 u64 string bool | FreeOp u64 | ReleaseConfigOp

definition acct_step :: "acct_op \<Rightarrow> memory_accounting \<Rightarrow> memory_accounting" where
  "acct_step op s =
     (case op of
        RecordOp p host target ty exact \<Rightarrow> snd (record_heap p host target ty exact s)
      | FreeOp p \<Rightarrow> snd (acct_deallocate p s)
      | ReleaseConfigOp \<Rightarrow> release_config_cache s)"

section \<open>Invariant\<close>

definition modeled_ids :: "(u64 \<times> allocation) list \<Rightarrow> u64 list" where
  "modeled_ids as = map (\<lambda>(p, al). a_id al) (filter (\<lambda>(p, al). a_modeled al) as)"

definition members :: "nat \<Rightarrow> (u64 \<times> allocation) list \<Rightarrow> nat" where
  "members i as = length (filter (\<lambda>(p, al). a_group_index al = i) as)"

definition allocation_ok :: "allocation_group list \<Rightarrow> allocation \<Rightarrow> bool" where
  "allocation_ok gs al \<longleftrightarrow> a_group_index al < length gs \<and> g_region (gs ! a_group_index al) = a_region al \<and>
     (a_modeled al \<longleftrightarrow> a_region al \<noteq> UnifiedHeap)"

definition group_ok :: "nat \<Rightarrow> allocation_group \<Rightarrow> bool" where
  "group_ok n g \<longleftrightarrow> g_live_count g = word_of_nat n \<and>
     g_live_target_bytes g = word_of_nat n * ucast (g_target_payload_bytes g)"

definition acct_inv :: "memory_accounting \<Rightarrow> bool" where
  "acct_inv s \<longleftrightarrow> heap_inv (acct_heap s) \<and>
     distinct (map fst (allocations s)) \<and> 0 \<notin> fst ` set (allocations s) \<and>
     distinct (modeled_ids (allocations s)) \<and> set (modeled_ids (allocations s)) \<subseteq> heap_live (acct_heap s) \<and>
     (\<forall>(p, al) \<in> set (allocations s). allocation_ok (groups s) al) \<and>
     (\<forall>i < length (groups s). group_ok (members i (allocations s)) (groups s ! i))"

lemma acct_invI:
  assumes "heap_inv (acct_heap s)" and "distinct (map fst (allocations s))" and "0 \<notin> fst ` set (allocations s)"
    and "distinct (modeled_ids (allocations s))" and "set (modeled_ids (allocations s)) \<subseteq> heap_live (acct_heap s)"
    and "\<forall>(p, al) \<in> set (allocations s). allocation_ok (groups s) al"
    and "\<forall>i < length (groups s). group_ok (members i (allocations s)) (groups s ! i)"
  shows "acct_inv s"
  using assms unfolding acct_inv_def by blast

text \<open>No live chunk of the heap is without a tracked pointer.\<close>

definition no_leak :: "memory_accounting \<Rightarrow> bool" where
  "no_leak s \<longleftrightarrow> heap_live (acct_heap s) = set (modeled_ids (allocations s))"

lemma modeled_ids_simps [simp]:
  "modeled_ids [] = []"
  "modeled_ids ((p, al) # as) = (if a_modeled al then a_id al # modeled_ids as else modeled_ids as)"
  "modeled_ids (as @ bs) = modeled_ids as @ modeled_ids bs"
  by (simp_all add: modeled_ids_def)

lemma members_simps [simp]:
  "members i [] = 0"
  "members i ((p, al) # as) = (if a_group_index al = i then Suc (members i as) else members i as)"
  "members i (as @ bs) = members i as + members i bs"
  by (simp_all add: members_def)

lemma group_ok_charge:
  "group_ok n g \<Longrightarrow> ucast (g_target_payload_bytes g) = target \<Longrightarrow> group_ok (Suc n) (charge_group target g)"
  by (simp add: group_ok_def charge_group_def Let_def algebra_simps)

lemma group_ok_credit: "group_ok (Suc n) g \<Longrightarrow> group_ok n (credit_group g)"
  by (simp add: group_ok_def credit_group_def algebra_simps)

lemma group_region_kept [simp]:
  "g_region (charge_group t g) = g_region g" "g_region (credit_group g) = g_region g"
  by (simp_all add: charge_group_def credit_group_def Let_def)

lemma allocation_ok_update:
  "allocation_ok gs al \<Longrightarrow> g_region g = g_region (gs ! j) \<Longrightarrow> allocation_ok (gs[j := g]) al"
  by (cases "a_group_index al = j") (auto simp: allocation_ok_def nth_list_update)

lemma allocation_ok_append: "allocation_ok gs al \<Longrightarrow> allocation_ok (gs @ hs) al"
  by (auto simp: allocation_ok_def nth_append)

text \<open>Releasing one tracked allocation.\<close>

lemma release_inv:
  assumes "acct_inv (s\<lparr>allocations := as @ (p, al) # bs\<rparr>)"
  shows "acct_inv ((release_allocation al s)\<lparr>allocations := as @ bs\<rparr>)"
    and "no_leak (s\<lparr>allocations := as @ (p, al) # bs\<rparr>) \<Longrightarrow> no_leak ((release_allocation al s)\<lparr>allocations := as @ bs\<rparr>)"
proof -
  let ?h = "acct_heap s" and ?gs = "groups s" and ?i = "a_group_index al"
  let ?h' = "if a_modeled al then snd (heap_deallocate (a_id al) ?h) else ?h"
  let ?gs' = "?gs[?i := credit_group (?gs ! ?i)]"
  have inv: "heap_inv ?h" and dist: "distinct (modeled_ids (as @ (p, al) # bs))"
    and sub: "set (modeled_ids (as @ (p, al) # bs)) \<subseteq> heap_live ?h"
    and oks: "\<forall>(q, al) \<in> set (as @ (p, al) # bs). allocation_ok ?gs al"
    and gok: "\<forall>i < length ?gs. group_ok (members i (as @ (p, al) # bs)) (?gs ! i)"
    using assms by (simp_all add: acct_inv_def)
  have h': "heap_inv ?h'" "heap_live ?h' = (if a_modeled al then heap_live ?h - {a_id al} else heap_live ?h)"
    using heap.snd_dealloc [OF inv, of "a_id al"] inv by simp_all
  have ids: "set (modeled_ids (as @ bs)) = (if a_modeled al then set (modeled_ids (as @ (p, al) # bs)) - {a_id al}
      else set (modeled_ids (as @ (p, al) # bs)))"
    using dist by auto
  have i: "?i < length ?gs" using oks by (simp add: allocation_ok_def)
  have groups: "\<forall>j < length ?gs'. group_ok (members j (as @ bs)) (?gs' ! j)"
  proof (intro allI impI)
    fix j assume "j < length ?gs'"
    with gok have "group_ok (members j (as @ (p, al) # bs)) (?gs ! j)" by simp
    then show "group_ok (members j (as @ bs)) (?gs' ! j)"
      using i by (cases "j = ?i") (simp_all add: group_ok_credit)
  qed
  have oks': "\<forall>(q, al') \<in> set (as @ bs). allocation_ok ?gs' al'"
  proof clarify
    fix q al' assume "(q, al') \<in> set (as @ bs)"
    then have "allocation_ok ?gs al'" using oks by auto
    then show "allocation_ok ?gs' al'" by (rule allocation_ok_update) simp
  qed
  have fst: "distinct (map fst (as @ bs))" "0 \<notin> fst ` set (as @ bs)"
    using assms by (auto simp: acct_inv_def)
  have ids': "distinct (modeled_ids (as @ bs))" using dist by (auto split: if_splits)
  have sub': "set (modeled_ids (as @ bs)) \<subseteq> heap_live ?h'"
    unfolding ids h'(2) using sub by auto
  define s' where "s' = (release_allocation al s)\<lparr>allocations := as @ bs\<rparr>"
  have s': "acct_heap s' = ?h'" "allocations s' = as @ bs" "groups s' = ?gs'"
    by (simp_all add: s'_def release_allocation_def)
  show "acct_inv ((release_allocation al s)\<lparr>allocations := as @ bs\<rparr>)"
    unfolding s'_def [symmetric]
    by (rule acct_invI, unfold s', rule h'(1), rule fst(1), rule fst(2), rule ids', rule sub', rule oks', rule groups)
  show "no_leak ((release_allocation al s)\<lparr>allocations := as @ bs\<rparr>)"
    if "no_leak (s\<lparr>allocations := as @ (p, al) # bs\<rparr>)"
    unfolding s'_def [symmetric] unfolding no_leak_def s' h'(2) ids using that by (simp add: no_leak_def)
qed

lemma release_config_loop_inv:
  "acct_inv (s\<lparr>allocations := rev kept @ rest\<rparr>) \<Longrightarrow>
   acct_inv (release_config_loop kept rest s) \<and>
   (no_leak (s\<lparr>allocations := rev kept @ rest\<rparr>) \<longrightarrow> no_leak (release_config_loop kept rest s))"
proof (induction kept rest s rule: release_config_loop.induct)
  case (2 kept p al rest s)
  show ?case
  proof (cases "g_type_name (groups s ! a_group_index al) = ''ConfigCache::Chunk''")
    case True
    with release_inv [OF "2.prems"] "2.IH"(2) show ?thesis by simp
  next
    case False
    with "2.IH"(1) "2.prems" show ?thesis by simp
  qed
qed simp

lemma split_allocation:
  assumes "map_of as p = Some al" and "distinct (map fst as)"
  obtains xs ys where "as = xs @ (p, al) # ys" "filter (\<lambda>(q, _). q \<noteq> p) as = xs @ ys"
proof -
  from map_of_SomeD [OF assms(1)] obtain xs ys where as: "as = xs @ (p, al) # ys"
    by (auto simp: in_set_conv_decomp)
  moreover have "\<forall>(q, _) \<in> set xs \<union> set ys. q \<noteq> p" using assms(2) as by force
  then have "filter (\<lambda>(q, _). q \<noteq> p) xs = xs" "filter (\<lambda>(q, _). q \<noteq> p) ys = ys"
    by (auto intro!: filter_True)
  ultimately show thesis by (intro that [of xs ys]) simp_all
qed

lemma acct_deallocate_inv:
  assumes "acct_inv s"
  shows "acct_inv (snd (acct_deallocate p s))" and "no_leak s \<Longrightarrow> no_leak (snd (acct_deallocate p s))"
proof -
  {
    fix al assume al: "map_of (allocations s) p = Some al" "p \<noteq> 0"
    obtain xs ys where split: "allocations s = xs @ (p, al) # ys"
      "filter (\<lambda>(q, _). q \<noteq> p) (allocations s) = xs @ ys"
      using split_allocation [OF al(1)] assms by (auto simp: acct_inv_def)
    have "acct_inv (s\<lparr>allocations := xs @ (p, al) # ys\<rparr>)" "no_leak s = no_leak (s\<lparr>allocations := xs @ (p, al) # ys\<rparr>)"
      using assms by (simp_all add: acct_inv_def split(1) no_leak_def)
    moreover have "snd (acct_deallocate p s) = (release_allocation al s)\<lparr>allocations := xs @ ys\<rparr>"
      using al split(2) by (simp add: acct_deallocate_def Let_def release_allocation_def)
    ultimately have "acct_inv (snd (acct_deallocate p s)) \<and> (no_leak s \<longrightarrow> no_leak (snd (acct_deallocate p s)))"
      using release_inv [where s = s and as = xs and p = p and al = al and bs = ys] by simp
  }
  then have "acct_inv (snd (acct_deallocate p s)) \<and> (no_leak s \<longrightarrow> no_leak (snd (acct_deallocate p s)))"
    using assms by (cases "map_of (allocations s) p") (auto simp: acct_deallocate_def)
  then show "acct_inv (snd (acct_deallocate p s))" and "no_leak s \<Longrightarrow> no_leak (snd (acct_deallocate p s))"
    by blast+
qed

section \<open>Recording\<close>

lemma find_group_Some: "find_group p gs = Some i \<Longrightarrow> i < length gs \<and> p (gs ! i)"
  by (induction gs arbitrary: i) (auto split: if_splits)

lemma checked_size_Inr: "checked_size n = Inr m \<Longrightarrow> ucast m = n"
proof -
  assume "checked_size n = Inr m"
  then have "unat n < 2 ^ 32" and m: "m = ucast n"
    by (auto simp: checked_size_def word_less_nat_alt split: if_splits)
  have "unat m = unat n"
    unfolding m unsigned_ucast_eq by (rule take_bit_nat_eq_self) (use \<open>unat n < 2 ^ 32\<close> in simp)
  moreover have "unat (ucast m :: u64) = unat m"
    unfolding unsigned_ucast_eq by (rule take_bit_nat_eq_self) (use unat_u32_lt [of m] in simp)
  ultimately have "unat (ucast m :: u64) = unat n" by simp
  then show ?thesis by (simp only: word_unat_eq_iff)
qed

text \<open>The group an allocation is charged to: an existing one, or a new one with nothing charged yet.\<close>

lemma find_or_create_group_Inr:
  assumes "find_or_create_group r ty host target exact gs = Inr (i, gs')"
  shows "i < length gs'" and "g_region (gs' ! i) = r" and "ucast (g_target_payload_bytes (gs' ! i)) = target"
    and "\<exists>new. gs' = gs @ new \<and> (\<forall>g \<in> set new. g_live_count g = 0 \<and> g_live_target_bytes g = 0)"
proof -
  let ?found = "find_group (same_group r ty host target exact) gs"
  show "i < length gs'" "g_region (gs' ! i) = r" "ucast (g_target_payload_bytes (gs' ! i)) = target"
    using assms find_group_Some [of "same_group r ty host target exact" gs]
    by (auto simp: find_or_create_group_def same_group_def checked_size_Inr split: option.splits sum.splits)
  show "\<exists>new. gs' = gs @ new \<and> (\<forall>g \<in> set new. g_live_count g = 0 \<and> g_live_target_bytes g = 0)"
    using assms by (auto simp: find_or_create_group_def split: option.splits sum.splits)
qed

lemma placed_region: "heap_inv h \<Longrightarrow> heap_allocate aid n h = Inr (Some r, h') \<Longrightarrow> r \<noteq> UnifiedHeap"
proof -
  assume inv: "heap_inv h" and "heap_allocate aid n h = Inr (Some r, h')"
  from heap_allocate_Some [OF this(2)] obtain pre c post where "chunks h = pre @ [c] @ post" "r = region c" by metis
  with inv show ?thesis by (simp add: heap_inv_def chunks_inv_def chunk_ok_def)
qed

text \<open>The placement of a request: what happens to the heap and to its live ids.\<close>

lemma attempt_cases:
  assumes inv: "heap_inv h"
    and "place_request exact aid target h = Inr (placed, h')"
  shows "heap_inv h'" and "placed \<noteq> Some UnifiedHeap"
    and "heap_live h' = (if placed = None then heap_live h else insert aid (heap_live h))"
    and "placed \<noteq> None \<Longrightarrow> aid \<notin> heap_live h"
proof -
  show "heap_inv h'" using assms heap_allocate_inv [OF inv] by (auto simp: place_request_def split: if_splits)
  show "placed \<noteq> Some UnifiedHeap" using assms placed_region [OF inv] by (auto simp: place_request_def split: if_splits)
  have "heap_live h' = (if placed = None then heap_live h else insert aid (heap_live h)) \<and>
      (placed \<noteq> None \<longrightarrow> aid \<notin> heap_live h)"
  proof (cases placed)
    case None
    then show ?thesis
      using assms(2) heap.alloc_fail [of aid target h h'] by (auto simp: place_request_def split: if_splits)
  next
    case (Some r)
    then have "heap_allocate aid target h = Inr (Some r, h')"
      using assms(2) by (auto simp: place_request_def split: if_splits)
    from heap_allocate_live [OF inv this] Some show ?thesis by simp
  qed
  then show "heap_live h' = (if placed = None then heap_live h else insert aid (heap_live h))"
    "placed \<noteq> None \<Longrightarrow> aid \<notin> heap_live h"
    by blast+
qed

lemma acct_inv_heap:
  assumes "acct_inv s" and "heap_inv h" and "heap_live (acct_heap s) \<subseteq> heap_live h"
  shows "acct_inv (s\<lparr>next_id := n, acct_heap := h\<rparr>)"
  by (rule acct_invI) (use assms in \<open>auto simp: acct_inv_def\<close>)

lemma charge_inv_acct:
  assumes inv: "acct_inv s" and p: "p \<noteq> 0" "p \<notin> fst ` set (allocations s)"
    and found: "find_or_create_group r ty host target exact (groups s) = Inr (i, gs)"
    and heap: "heap_inv h" "heap_live h = (if placed then insert aid (heap_live (acct_heap s)) else heap_live (acct_heap s))"
    and fresh: "placed \<Longrightarrow> aid \<notin> heap_live (acct_heap s)" and r: "placed \<longleftrightarrow> r \<noteq> UnifiedHeap"
  shows "acct_inv (s\<lparr>next_id := n, acct_heap := h,
           allocations := (p, \<lparr>a_region = r, a_id = aid, a_group_index = i, a_modeled = placed\<rparr>) # allocations s,
           groups := gs[i := charge_group target (gs ! i)]\<rparr>)"
proof -
  let ?al = "\<lparr>a_region = r, a_id = aid, a_group_index = i, a_modeled = placed\<rparr>"
  let ?gs = "gs[i := charge_group target (gs ! i)]" and ?as = "allocations s"
  note g = find_or_create_group_Inr [OF found]
  obtain new where new: "gs = groups s @ new" "\<forall>g \<in> set new. g_live_count g = 0 \<and> g_live_target_bytes g = 0"
    using g(4) by blast
  have oks: "\<forall>(q, al) \<in> set ?as. allocation_ok (groups s) al"
    and gok: "\<forall>j < length (groups s). group_ok (members j ?as) (groups s ! j)"
    using inv by (simp_all add: acct_inv_def)
  have none: "members j ?as = 0" if "length (groups s) \<le> j" for j
    using oks that by (auto simp: members_def filter_empty_conv allocation_ok_def)
  have old: "group_ok (members j ?as) (gs ! j)" if "j < length gs" for j
  proof (cases "j < length (groups s)")
    case False
    then have "gs ! j \<in> set new" using that by (simp add: new(1) nth_append)
    with new(2) False none [of j] show ?thesis by (simp add: group_ok_def)
  qed (use gok in \<open>simp add: new(1) nth_append\<close>)
  have "\<forall>j < length ?gs. group_ok (members j ((p, ?al) # ?as)) (?gs ! j)"
  proof (intro allI impI)
    fix j assume "j < length ?gs"
    then show "group_ok (members j ((p, ?al) # ?as)) (?gs ! j)"
      using old [of j] g(1,3) group_ok_charge [of _ "gs ! i" target] by (cases "j = i") simp_all
  qed
  moreover have "\<forall>(q, al) \<in> set ((p, ?al) # ?as). allocation_ok ?gs al"
  proof clarify
    fix q al assume "(q, al) \<in> set ((p, ?al) # ?as)"
    then have "allocation_ok gs al"
      using oks allocation_ok_append [of "groups s" al new] g(1,2) r by (auto simp: new(1) allocation_ok_def)
    then show "allocation_ok ?gs al" by (rule allocation_ok_update) simp
  qed
  moreover have "set (modeled_ids ?as) \<subseteq> heap_live (acct_heap s)" "distinct (modeled_ids ?as)"
    using inv by (simp_all add: acct_inv_def)
  then have "distinct (modeled_ids ((p, ?al) # ?as))" "set (modeled_ids ((p, ?al) # ?as)) \<subseteq> heap_live h"
    using fresh heap(2) by auto
  ultimately show ?thesis
    using inv p heap(1) by (intro acct_invI) (simp_all add: acct_inv_def)
qed

lemma record_heap_inv:
  assumes inv: "acct_inv s"
  shows "acct_inv (snd (record_heap p host target ty exact s))"
proof (cases "p = 0 \<or> map_of (allocations s) p \<noteq> None")
  case True
  then show ?thesis using inv by (auto simp: record_heap_def)
next
  case False
  let ?attempt = "place_request exact (next_id s) target (acct_heap s)"
  have h: "heap_inv (acct_heap s)" using inv by (simp add: acct_inv_def)
  have p: "p \<noteq> 0" "p \<notin> fst ` set (allocations s)" using False by (simp_all add: map_of_eq_None_iff)
  show ?thesis
  proof (cases ?attempt)
    case (Inl e)
    with False acct_inv_heap [OF inv h order_refl, of "next_id s + 1"] show ?thesis
      by (simp add: record_heap_def Let_def) 
  next
    case (Inr res)
    then obtain placed h' where res: "?attempt = Inr (placed, h')" by (cases res) simp
    note a = attempt_cases [OF h res]
    let ?r = "case placed of Some r \<Rightarrow> r | None \<Rightarrow> UnifiedHeap"
    show ?thesis
    proof (cases "find_or_create_group ?r ty host target exact (groups s)")
      case (Inl e)
      then show ?thesis
        using False res acct_inv_heap [OF inv a(1), of "next_id s + 1"] a(3)
        by (cases placed) (auto simp: record_heap_def Let_def)
    next
      case (Inr ig)
      then obtain i gs where ig: "find_or_create_group ?r ty host target exact (groups s) = Inr (i, gs)"
        by (cases ig) simp
      then show ?thesis
        using False res charge_inv_acct [OF inv p ig a(1), of "placed \<noteq> None" "next_id s" "next_id s + 1"] a(2-4)
        by (cases placed) (simp_all add: record_heap_def Let_def)
    qed
  qed
qed

lemma checked_size_small: "unat n < 2 ^ 32 \<Longrightarrow> \<exists>m. checked_size n = Inr m"
  by (simp add: checked_size_def word_less_nat_alt)

lemma allocated_target_small: "heap_allocate aid n h = Inr (Some r, h') \<Longrightarrow> \<exists>m. checked_size n = Inr m"
  by (auto simp: heap_allocate_def split: if_splits sum.splits)

lemma record_heap_no_leak:
  assumes inv: "acct_inv s" and leak: "no_leak s" and host: "unat host < 2 ^ 32"
  shows "no_leak (snd (record_heap p host target ty exact s))"
proof (cases "p = 0 \<or> map_of (allocations s) p \<noteq> None")
  case True
  then show ?thesis using leak by (auto simp: record_heap_def)
next
  case False
  have h: "heap_inv (acct_heap s)" using inv by (simp add: acct_inv_def)
  show ?thesis
  proof (cases "place_request exact (next_id s) target (acct_heap s)")
    case (Inl e)
    with False leak show ?thesis by (simp add: record_heap_def Let_def no_leak_def)
  next
    case (Inr res)
    then obtain placed h' where res: "place_request exact (next_id s) target (acct_heap s) = Inr (placed, h')"
      by (cases res) simp
    note a = attempt_cases [OF h res]
    let ?r = "case placed of Some r \<Rightarrow> r | None \<Rightarrow> UnifiedHeap"
    show ?thesis
    proof (cases "find_or_create_group ?r ty host target exact (groups s)")
      case (Inl e)
      have "placed = None"
      proof (rule ccontr)
        assume "placed \<noteq> None"
        then obtain r where "heap_allocate (next_id s) target (acct_heap s) = Inr (Some r, h')"
          using res by (auto simp: place_request_def split: if_splits)
        with Inl checked_size_small [OF host] allocated_target_small [OF this] show False
          by (auto simp: find_or_create_group_def split: option.splits)
      qed
      then show ?thesis using False res Inl a(3) leak by (simp add: record_heap_def Let_def no_leak_def)
    next
      case (Inr ig)
      then show ?thesis
        using False res a(3) leak by (cases ig) (simp add: record_heap_def Let_def no_leak_def)
    qed
  qed
qed

text \<open>The host size of a request fits the 32-bit field of its group.\<close>

definition host_fits :: "acct_op \<Rightarrow> bool" where
  "host_fits op = (case op of RecordOp p host target ty exact \<Rightarrow> unat host < 2 ^ 32 | _ \<Rightarrow> True)"

lemma acct_step_inv: "acct_inv s \<Longrightarrow> acct_inv (acct_step op s)"
  using release_config_loop_inv [of "[]" "allocations s" s]
  by (cases op) (simp_all add: acct_step_def record_heap_inv acct_deallocate_inv release_config_cache_def)

lemma acct_step_no_leak: "acct_inv s \<Longrightarrow> no_leak s \<Longrightarrow> host_fits op \<Longrightarrow> no_leak (acct_step op s)"
  using release_config_loop_inv [of "[]" "allocations s" s]
  by (cases op) (simp_all add: acct_step_def record_heap_no_leak acct_deallocate_inv release_config_cache_def host_fits_def)

interpretation acct_ops: operations acct_step acct_inv "\<lambda>op. True"
  by unfold_locales (rule acct_step_inv)

interpretation acct_fitting: operations acct_step "\<lambda>s. acct_inv s \<and> no_leak s" host_fits
  by unfold_locales (simp add: acct_step_inv acct_step_no_leak)

lemma acct_run: "acct_inv s \<Longrightarrow> acct_inv (fold acct_step ops s)"
  by (simp add: acct_ops.run_kept)

lemma acct_run_no_leak:
  "acct_inv s \<Longrightarrow> no_leak s \<Longrightarrow> \<forall>op \<in> set ops. host_fits op \<Longrightarrow> no_leak (fold acct_step ops s)"
  using acct_fitting.run_kept by blast

lemma new_accounting_inv:
  assumes "new_accounting m a = Inr s"
    and "unat (main_heap_end m - main_heap_start m) + unat (ahb_heap_end a - ahb_heap_start a) < 2 ^ 32"
  shows "acct_inv s \<and> no_leak s \<and> main_layout (acct_heap s) = m \<and> the_ahb_layout (acct_heap s) = a"
proof -
  obtain h where h: "new_heap_model m a = Inr h" "s = \<lparr>acct_heap = h, allocations = [], groups = [], next_id = 1\<rparr>"
    using assms(1) by (auto simp: new_accounting_def split: sum.splits)
  from new_heap_model_inv [OF h(1) assms(2)] show ?thesis
    by (auto simp: acct_inv_def no_leak_def h(2) heap_live_def initial_chunks_def free_chunk_def)
qed

abbreviation layouts_of :: "memory_accounting \<Rightarrow> main_sram_layout \<times> ahb_layout" where
  "layouts_of s \<equiv> (main_layout (acct_heap s), the_ahb_layout (acct_heap s))"

lemma release_allocations: "allocations (release_allocation al s) = allocations s"
  by (simp add: release_allocation_def)

lemma release_layouts: "layouts_of (release_allocation al s) = layouts_of s"
  using heap_layouts_kept(2) [OF surjective_pairing, of "a_id al" "acct_heap s"] by (simp add: release_allocation_def)

lemma release_config_layouts: "layouts_of (release_config_loop kept rest s) = layouts_of s"
proof (induction kept rest s rule: release_config_loop.induct)
  case (2 kept p al rest s)
  show ?case
  proof (cases "g_type_name (groups s ! a_group_index al) = ''ConfigCache::Chunk''")
    case True
    with "2.IH"(2) release_layouts [of al s] show ?thesis by simp
  next
    case False
    with "2.IH"(1) show ?thesis by simp
  qed
qed simp

lemma record_layouts: "layouts_of (snd (record_heap p host target ty exact s)) = layouts_of s"
proof (cases "p = 0 \<or> map_of (allocations s) p \<noteq> None")
  case False
  show ?thesis
  proof (cases "place_request exact (next_id s) target (acct_heap s)")
    case (Inr res)
    then obtain placed h' where res: "place_request exact (next_id s) target (acct_heap s) = Inr (placed, h')"
      by (cases res) simp
    then have "main_layout h' = main_layout (acct_heap s) \<and> the_ahb_layout h' = the_ahb_layout (acct_heap s)"
      using heap_layouts_kept(1) by (auto simp: place_request_def split: if_splits)
    with False res show ?thesis
      by (cases "find_or_create_group (case placed of Some r \<Rightarrow> r | None \<Rightarrow> UnifiedHeap) ty host target exact (groups s)")
        (auto simp: record_heap_def Let_def)
  qed (use False in \<open>simp add: record_heap_def Let_def\<close>)
qed (auto simp: record_heap_def)

lemma acct_deallocate_layouts: "layouts_of (snd (acct_deallocate p s)) = layouts_of s"
  using release_layouts by (auto simp: acct_deallocate_def Let_def split: option.splits)

lemma acct_step_layouts: "layouts_of (acct_step op s) = layouts_of s"
  using record_layouts acct_deallocate_layouts release_config_layouts
  by (cases op) (simp_all add: acct_step_def release_config_cache_def)

interpretation acct_layouts: framed_operations acct_step "\<lambda>s. True" "\<lambda>op. True" "\<lambda>s. layouts_of s"
  by unfold_locales (simp_all add: acct_step_layouts [simplified])

lemma acct_run_layouts: "layouts_of (fold acct_step ops s) = layouts_of s"
  by (rule acct_layouts.run_framed) simp_all

section \<open>Properties of the accounting\<close>

text \<open>
  C14: from a fresh accounting, every sequence of records, frees and cache releases keeps the accounting
  consistent: each tracked pointer names a live chunk and its own group, each group's live count and
  live bytes are those of its tracked pointers; and as long as every host size fits 32 bits no chunk of
  the heap is live without a tracked pointer.
\<close>

theorem accounting_consistent:
  assumes "new_accounting m a = Inr s"
    and "unat (main_heap_end m - main_heap_start m) + unat (ahb_heap_end a - ahb_heap_start a) < 2 ^ 32"
  shows "acct_inv (fold acct_step ops s) \<and> ((\<forall>op \<in> set ops. host_fits op) \<longrightarrow> no_leak (fold acct_step ops s))"
  using new_accounting_inv [OF assms] acct_run acct_run_no_leak by blast

lemma example_accounting: "new_accounting example_main example_ahb =
    Inr \<lparr>acct_heap = example_heap, allocations = [], groups = [], next_id = 1\<rparr>"
  by (simp add: new_accounting_def example_new)

theorem accounting_consistent_witness:
  "no_leak (fold acct_step [RecordOp 4096 56 40 ''Gcode'' True, RecordOp 8192 56 40 ''Gcode'' True, FreeOp 4096]
     \<lparr>acct_heap = example_heap, allocations = [], groups = [], next_id = 1\<rparr>)"
  using accounting_consistent [OF example_accounting example_bound,
      of "[RecordOp 4096 56 40 ''Gcode'' True, RecordOp 8192 56 40 ''Gcode'' True, FreeOp 4096]"]
  by (simp add: host_fits_def)

lemma drain_run:
  "fold (\<lambda>p s. snd (acct_deallocate p s)) ps s = fold acct_step (map FreeOp ps) s"
  by (induction ps arbitrary: s) (simp_all add: acct_step_def)

lemma drain_allocations:
  "allocations (fold (\<lambda>p s. snd (acct_deallocate p s)) ps s) =
   filter (\<lambda>(p, _). p = 0 \<or> p \<notin> set ps) (allocations s)"
proof (induction ps arbitrary: s)
  case (Cons q ps)
  have "allocations (snd (acct_deallocate q s)) = filter (\<lambda>(p, _). p = 0 \<or> p \<noteq> q) (allocations s)"
  proof (cases "map_of (allocations s) q")
    case None
    then have "\<forall>(p, _) \<in> set (allocations s). p \<noteq> q" by (force simp: map_of_eq_None_iff)
    then have "filter (\<lambda>(p, _). p = 0 \<or> p \<noteq> q) (allocations s) = allocations s" by (auto intro!: filter_True)
    then show ?thesis using None by (simp add: acct_deallocate_def)
  next
    case (Some al)
    then show ?thesis
      by (cases "q = 0") (auto simp: acct_deallocate_def Let_def release_allocation_def intro!: filter_cong)
  qed
  then show ?case using Cons by (auto simp: intro!: filter_cong)
qed simp

text \<open>
  Nothing is lost: when every host size fits 32 bits, freeing every tracked pointer leaves no
  allocation, every group with no live member, and the heap as it was constructed.
\<close>

theorem accounting_drains:
  assumes new: "new_accounting m a = Inr s0"
    and bound: "unat (main_heap_end m - main_heap_start m) + unat (ahb_heap_end a - ahb_heap_start a) < 2 ^ 32"
    and fits: "\<forall>op \<in> set ops. host_fits op" and s: "s = fold acct_step ops s0"
    and all: "fst ` set (allocations s) \<subseteq> set ps" and s': "s' = fold (\<lambda>p s. snd (acct_deallocate p s)) ps s"
  shows "allocations s' = [] \<and> chunks (acct_heap s') = initial_chunks m a \<and>
    live_payload_bytes (acct_heap s') = 0 \<and> (\<forall>g \<in> set (groups s'). g_live_count g = 0 \<and> g_live_target_bytes g = 0)"
proof -
  note init = new_accounting_inv [OF new bound]
  have inv: "acct_inv s" and leak: "no_leak s" using init fits by (simp_all add: s acct_run acct_run_no_leak)
  have "\<forall>op \<in> set (map FreeOp ps). host_fits op" by (simp add: host_fits_def)
  then have inv': "acct_inv s'" and leak': "no_leak s'"
    unfolding s' drain_run using acct_run [OF inv] acct_run_no_leak [OF inv leak] by blast+
  have "\<forall>(p, al) \<in> set (allocations s). \<not> (p = 0 \<or> p \<notin> set ps)"
    using all inv unfolding acct_inv_def by (metis (mono_tags, lifting) case_prodI2 fst_conv image_eqI subsetD)
  then have none: "allocations s' = []"
    by (auto simp: s' drain_allocations filter_empty_conv)
  then have live: "heap_live (acct_heap s') = {}" using leak' by (simp add: no_leak_def)
  have lay: "layouts_of s' = (m, a)" using init unfolding s' drain_run s acct_run_layouts by simp
  have h: "heap_inv (acct_heap s')" using inv' by (simp add: acct_inv_def)
  have cs: "chunks (acct_heap s') = initial_chunks m a"
    using empty_heap_chunks [OF h live] lay by simp
  then have "live_payload_bytes (acct_heap s') = 0"
    using h by (simp add: heap_inv_def initial_chunks_def free_chunk_def)
  moreover have "\<forall>i < length (groups s'). group_ok 0 (groups s' ! i)" using inv' none by (simp add: acct_inv_def)
  ultimately show ?thesis using none cs by (auto simp: group_ok_def in_set_conv_nth)
qed

theorem accounting_drains_witness:
  "chunks (acct_heap (fold (\<lambda>p s. snd (acct_deallocate p s)) [4096, 8192] (fold acct_step
      [RecordOp 4096 56 40 ''Gcode'' True, RecordOp 8192 96 80 ''Pin'' True]
      \<lparr>acct_heap = example_heap, allocations = [], groups = [], next_id = 1\<rparr>))) = initial_chunks example_main example_ahb"
proof -
  have "map fst (allocations (fold acct_step [RecordOp 4096 56 40 ''Gcode'' True, RecordOp 8192 96 80 ''Pin'' True]
      \<lparr>acct_heap = example_heap, allocations = [], groups = [], next_id = 1\<rparr>)) = [8192, 4096]" by code_simp
  then have sub: "fst ` set (allocations (fold acct_step [RecordOp 4096 56 40 ''Gcode'' True, RecordOp 8192 96 80 ''Pin'' True]
      \<lparr>acct_heap = example_heap, allocations = [], groups = [], next_id = 1\<rparr>)) \<subseteq> set [4096, 8192]"
    unfolding list.set_map [symmetric] by simp
  have fits: "\<forall>op \<in> set [RecordOp 4096 56 40 ''Gcode'' True, RecordOp 8192 96 80 ''Pin'' True]. host_fits op"
    by (simp add: host_fits_def)
  show ?thesis
    by (rule accounting_drains [OF example_accounting example_bound fits refl sub refl, THEN conjunct2, THEN conjunct1])
qed

lemma find_group_None: "find_group p gs = None \<longleftrightarrow> (\<forall>g \<in> set gs. \<not> p g)"
  by (induction gs) auto

lemma wide_host_no_group:
  assumes "2 ^ 32 \<le> unat host"
  shows "find_or_create_group r ty host target exact gs = Inl OverflowError"
proof -
  have "unat (ucast (w :: u32) :: u64) < 2 ^ 32" for w
    using unat_u32_lt [of w] by (simp add: unsigned_ucast_eq take_bit_nat_eq_self)
  then have "\<not> same_group r ty host target exact g" for g
    using assms by (metis same_group_def not_less)
  then have "find_group (same_group r ty host target exact) gs = None" by (simp add: find_group_None)
  moreover have "checked_size host = Inl OverflowError" using assms by (simp add: checked_size_def word_less_nat_alt)
  ultimately show ?thesis by (simp add: find_or_create_group_def)
qed

text \<open>
  When a host size needs more than 32 bits but its target size is placed, \<^verbatim>\<open>record\<close> throws after the heap has
  been charged: the chunk stays live although no pointer is tracked for it.
\<close>

theorem record_overflow_leaks:
  assumes inv: "acct_inv s" and p: "p \<noteq> 0" "p \<notin> fst ` set (allocations s)"
    and placed: "heap_allocate (next_id s) target (acct_heap s) = Inr (Some r, h)" and wide: "2 ^ 32 \<le> unat host"
  shows "\<exists>s'. record_heap p host target ty True s = (Some OverflowError, s') \<and>
    allocations s' = allocations s \<and> groups s' = groups s \<and> next_id s \<notin> heap_live (acct_heap s) \<and>
    heap_live (acct_heap s') = insert (next_id s) (heap_live (acct_heap s)) \<and> \<not> no_leak s'"
proof -
  have "heap_inv (acct_heap s)" using inv by (simp add: acct_inv_def)
  from heap_allocate_live [OF this placed] have live: "next_id s \<notin> heap_live (acct_heap s)"
    "heap_live h = insert (next_id s) (heap_live (acct_heap s))" by blast+
  moreover have "set (modeled_ids (allocations s)) \<subseteq> heap_live (acct_heap s)" using inv by (simp add: acct_inv_def)
  ultimately have "heap_live h \<noteq> set (modeled_ids (allocations s))" by blast
  then show ?thesis
    using p placed live by (simp add: record_heap_def Let_def place_request_def map_of_eq_None_iff
        wide_host_no_group [OF wide] no_leak_def)
qed

theorem record_overflow_leaks_witness:
  "\<exists>s'. record_heap 4096 (2 ^ 32) 40 ''float[]'' True \<lparr>acct_heap = example_heap, allocations = [], groups = [], next_id = 7\<rparr>
    = (Some OverflowError, s') \<and> \<not> no_leak s'"
proof -
  let ?s = "\<lparr>acct_heap = example_heap, allocations = [], groups = [], next_id = 7\<rparr>"
  have "acct_inv ?s" using example_inv by (simp add: acct_inv_def)
  moreover obtain r h where "heap_allocate (next_id ?s) 40 (acct_heap ?s) = Inr (Some r, h)"
    using example_alloc by auto
  ultimately show ?thesis
    using record_overflow_leaks [of ?s 4096 40 r h "2 ^ 32" "''float[]''"] by auto
qed

text \<open>
  recording a pointer and releasing it gives back the region it was placed in and restores the heap's
  chunks, the tracked pointers and the live counts of every group that was there before.
\<close>

theorem record_then_deallocate:
  assumes inv: "acct_inv s" and p: "p \<noteq> 0" "p \<notin> fst ` set (allocations s)"
    and rec: "record_heap p host target ty exact s = (None, s1)"
  shows "\<exists>r s2. acct_deallocate p s1 = (Some r, s2) \<and> chunks (acct_heap s2) = chunks (acct_heap s) \<and>
    allocations s2 = allocations s \<and>
    (\<forall>i < length (groups s). g_live_count (groups s2 ! i) = g_live_count (groups s ! i) \<and>
       g_live_target_bytes (groups s2 ! i) = g_live_target_bytes (groups s ! i))"
proof -
  have h: "heap_inv (acct_heap s)" using inv by (simp add: acct_inv_def)
  obtain placed h' where res: "place_request exact (next_id s) target (acct_heap s) = Inr (placed, h')"
    using rec p by (auto simp: record_heap_def Let_def map_of_eq_None_iff split: sum.splits)
  let ?r = "case placed of Some r \<Rightarrow> r | None \<Rightarrow> UnifiedHeap"
  obtain i gs where ig: "find_or_create_group ?r ty host target exact (groups s) = Inr (i, gs)"
    using rec p res by (auto simp: record_heap_def Let_def map_of_eq_None_iff split: sum.splits)
  note g = find_or_create_group_Inr [OF ig]
  define al where "al = \<lparr>a_region = ?r, a_id = next_id s, a_group_index = i, a_modeled = (placed \<noteq> None)\<rparr>"
  have s1: "s1 = s\<lparr>next_id := next_id s + 1, acct_heap := h', allocations := (p, al) # allocations s,
      groups := gs[i := charge_group target (gs ! i)]\<rparr>"
    using rec p res ig by (simp add: record_heap_def Let_def map_of_eq_None_iff al_def)
  have "filter (\<lambda>(q, _). q \<noteq> p) (allocations s) = allocations s"
    using p(2) by (force intro!: filter_True)
  then have s2: "acct_deallocate p s1 = (Some ?r, (release_allocation al s1)\<lparr>allocations := allocations s\<rparr>)"
    using p(1) by (simp add: acct_deallocate_def s1 Let_def) (simp add: release_allocations al_def)
  have chunks: "chunks (acct_heap (release_allocation al s1)) = chunks (acct_heap s)"
  proof (cases placed)
    case None
    then have "chunks h' = chunks (acct_heap s)"
      using res by (auto simp: place_request_def heap_allocate_def Let_def split: if_splits sum.splits option.splits)
    with None show ?thesis by (simp add: release_allocation_def s1 al_def)
  next
    case (Some r)
    then have "heap_allocate (next_id s) target (acct_heap s) = Inr (Some r, h')"
      using res by (auto simp: place_request_def split: if_splits)
    from heap_allocate_deallocate_chunks [OF h this] Some show ?thesis
      by (simp add: release_allocation_def s1 al_def)
  qed
  have "g_live_count (credit_group (charge_group target (gs ! i))) = g_live_count (gs ! i) \<and>
      g_live_target_bytes (credit_group (charge_group target (gs ! i))) = g_live_target_bytes (gs ! i)"
    using g(3) by (simp add: credit_group_def charge_group_def Let_def)
  moreover obtain new where "gs = groups s @ new" using g(4) by blast
  ultimately have "\<forall>j < length (groups s). g_live_count (groups (release_allocation al s1) ! j) = g_live_count (groups s ! j) \<and>
      g_live_target_bytes (groups (release_allocation al s1) ! j) = g_live_target_bytes (groups s ! j)"
    using g(1) by (auto simp: release_allocation_def s1 al_def nth_list_update nth_append)
  then show ?thesis using s2 chunks by auto
qed

theorem record_then_deallocate_witness:
  "\<exists>s1 r s2. record_heap 4096 56 40 ''Gcode'' True \<lparr>acct_heap = example_heap, allocations = [], groups = [], next_id = 7\<rparr>
     = (None, s1) \<and> acct_deallocate 4096 s1 = (Some r, s2) \<and> chunks (acct_heap s2) = chunks example_heap"
proof -
  let ?s = "\<lparr>acct_heap = example_heap, allocations = [], groups = [], next_id = 7\<rparr>"
  have "acct_inv ?s" using example_inv by (simp add: acct_inv_def)
  moreover have "fst (record_heap 4096 56 40 ''Gcode'' True ?s) = None" by code_simp
  then obtain s1 where "record_heap 4096 56 40 ''Gcode'' True ?s = (None, s1)" by (cases "record_heap 4096 56 40 ''Gcode'' True ?s") simp
  ultimately show ?thesis
    using record_then_deallocate [of ?s 4096 56 40 "''Gcode''" True s1] by auto
qed

end
