(* ===== verification/Firmware_Allocation.thy ===== *)
theory Firmware_Allocation
  imports Memory_Accounting
begin

text \<open>
  How a host allocation made while firmware code runs reaches the accounting: the call stack kept by
  the instrumentation hooks, the attribution of the allocation to a firmware function, the resolver
  of \<^verbatim>\<open>src/firmware/lpc_allocation_resolver.cpp\<close>, and the hooks \<^verbatim>\<open>record_host_heap_allocation\<close>,
  \<^verbatim>\<open>release_host_allocation\<close>, \<^verbatim>\<open>tracked_strdup\<close> and \<^verbatim>\<open>tracked_free\<close>.  The symbol names
  (\<^verbatim>\<open>describe_firmware_function\<close>, which asks the dynamic linker), the host's \<^verbatim>\<open>sizeof\<close> of the firmware's classes
  and the generated ABI sizes are parameters.
\<close>

section \<open>The firmware call stack\<close>

definition kMaximumTrackedDepth :: nat where "kMaximumTrackedDepth = 128"

record firmware_call_stack =
  tracked_functions :: "u64 list"
  depth :: nat
  accounting_suppressed :: bool

definition idle_calls :: firmware_call_stack where
  "idle_calls = \<lparr>tracked_functions = replicate kMaximumTrackedDepth 0, depth = 0, accounting_suppressed = False\<rparr>"

definition enter_firmware_function :: "u64 \<Rightarrow> firmware_call_stack \<Rightarrow> firmware_call_stack" where
  "enter_firmware_function f c =
     (let c = (if depth c < length (tracked_functions c) then c\<lparr>tracked_functions := (tracked_functions c)[depth c := f]\<rparr> else c)
      in c\<lparr>depth := depth c + 1\<rparr>)"

definition exit_firmware_function :: "firmware_call_stack \<Rightarrow> firmware_call_stack" where
  "exit_firmware_function c = (if depth c > 0 then c\<lparr>depth := depth c - 1\<rparr> else c)"

definition firmware_allocation_active :: "firmware_call_stack \<Rightarrow> bool" where
  "firmware_allocation_active c \<longleftrightarrow> depth c > 0 \<and> \<not> accounting_suppressed c"

section \<open>The resolver\<close>

record resolved_allocation =
  r_target_payload_bytes :: u64
  r_type_name :: string
  r_target_size_exact :: bool

definition contains_any :: "string \<Rightarrow> string list \<Rightarrow> bool" where
  "contains_any value needles = list_ex (\<lambda>needle. str_find needle value \<noteq> None) needles"

definition is_allocation_runtime_function :: "string \<Rightarrow> bool" where
  "is_allocation_runtime_function name =
     contains_any name [''std::'', ''__gnu_cxx::'', ''operator new('', ''operator new[]('']"

text \<open>
  One \<^verbatim>\<open>resolve_object<HostType>\<close> call: the class, the origins it is allocated from.  The class name also
  selects its host size (\<^verbatim>\<open>sizeof\<close>) and its LPC size (the generated \<^verbatim>\<open>k...Bytes\<close>).
\<close>

definition object_rules :: "(string \<times> string list) list" where
  "object_rules =
     [(''CartesianSolution'', [''Robot::load_config('']),
      (''ConfigCache'', [''Config::config_cache_load('']),
      (''StreamOutputPool'', [''Kernel::Kernel('']),
      (''Adc'', [''Kernel::Kernel('']),
      (''Gcode'', [''GcodeDispatch::'', ''Player::'', ''SimpleShell::'', ''ZProbe::'']),
      (''AppendFileStream'', [''GcodeDispatch::'', ''SimpleShell::'']),
      (''Pin'', [''AnalogSpindleControl::'', ''Laser::'', ''PWMSpindleControl::'', ''Switch::'', ''WifiProvider::'']),
      (''Pwm'', [''Switch::'']),
      (''SoftPWM'', [''Switch::'']),
      (''Switch'', [''SwitchPool::'']),
      (''TemperatureControl'', [''TemperatureControlPool::'']),
      (''Thermistor'', [''TemperatureControl::'']),
      (''Max31855'', [''TemperatureControl::'']),
      (''AD8495'', [''TemperatureControl::'']),
      (''PT100_E3D'', [''TemperatureControl::''])]"

definition resolve_object ::
  "(string \<Rightarrow> u64) \<Rightarrow> (string \<Rightarrow> u64) \<Rightarrow> u64 \<Rightarrow> string \<Rightarrow> string \<times> string list \<Rightarrow> resolved_allocation option" where
  "resolve_object host_size lpc_size host origin rule =
     (if host \<noteq> host_size (fst rule) \<or> \<not> contains_any origin (snd rule) then None
      else Some \<lparr>r_target_payload_bytes = lpc_size (fst rule), r_type_name = fst rule, r_target_size_exact = True\<rparr>)"

fun first_resolved :: "(string \<times> string list \<Rightarrow> resolved_allocation option) \<Rightarrow> (string \<times> string list) list \<Rightarrow> resolved_allocation option" where
  "first_resolved f [] = None"
| "first_resolved f (r # rs) = (case f r of Some x \<Rightarrow> Some x | None \<Rightarrow> first_resolved f rs)"

definition config_chunk_bytes :: "u64 \<Rightarrow> u64" where
  "config_chunk_bytes value_bytes = (let unaligned = 16 * value_bytes + 4 + 1 in (unaligned + 4 - 1) AND NOT (4 - 1))"

definition resolve_generic_heap_allocation ::
  "(string \<Rightarrow> u64) \<Rightarrow> (string \<Rightarrow> u64) \<Rightarrow> u64 \<Rightarrow> bool \<Rightarrow> string \<Rightarrow> string \<Rightarrow> resolved_allocation" where
  "resolve_generic_heap_allocation host_size lpc_size host array_allocation origin implementation =
     (let float_storage =
        contains_any implementation
          [''__libcpp_allocate'', ''std::allocator<float>::allocate'', ''std::__new_allocator<float>::allocate''] \<and>
        contains_any implementation [''<float>'', ''allocator<float>'']
      in if float_storage
         then \<lparr>r_target_payload_bytes = host, r_type_name = ''std::vector<float> storage @ '' @ origin,
               r_target_size_exact = True\<rparr>
         else if array_allocation \<and> contains_any origin [''BlockQueue::resize(''] \<and> host mod host_size ''Block'' = 0
         then \<lparr>r_target_payload_bytes = (host div host_size ''Block'') * lpc_size ''Block'', r_type_name = ''Block[]'',
               r_target_size_exact = True\<rparr>
         else if contains_any origin [''ConfigCache::replace_or_push_back('']
         then \<lparr>r_target_payload_bytes = config_chunk_bytes (lpc_size ''ConfigValue''), r_type_name = ''ConfigCache::Chunk'',
               r_target_size_exact = True\<rparr>
         else if array_allocation \<and> contains_any origin [''StreamOutput::printf('', ''StreamOutput::printfcmd('',
                   ''WifiProvider::printf('', ''WifiProvider::printfcmd('', ''ZProbe::coordinated_move('', ''ATCHandler::rapid_move('']
         then \<lparr>r_target_payload_bytes = host, r_type_name = ''char[]'', r_target_size_exact = True\<rparr>
         else if array_allocation \<and> contains_any origin [''CartGridStrategy::'']
         then \<lparr>r_target_payload_bytes = host, r_type_name = ''float[]'', r_target_size_exact = True\<rparr>
         else case first_resolved (resolve_object host_size lpc_size host origin) object_rules of
                Some r \<Rightarrow> r
              | None \<Rightarrow>
                  \<lparr>r_target_payload_bytes = host,
                   r_type_name = ''ABI-unresolved'' @ (if float_storage then '' float storage'' else '''') @ '' @ '' @
                     (if origin = '''' then ''unknown firmware function'' else origin),
                   r_target_size_exact = False\<rparr>)"

section \<open>Attribution and the hooks\<close>

text \<open>The scan from the innermost tracked frame outwards: the implementation frame and the origin.\<close>

fun attribute_frames :: "(u64 \<Rightarrow> string) \<Rightarrow> string \<Rightarrow> u64 list \<Rightarrow> string \<times> string" where
  "attribute_frames describe implementation [] = (implementation, '''')"
| "attribute_frames describe implementation (f # outer) =
     (let function = describe f;
          implementation = (if implementation = '''' then function else implementation)
      in if \<not> is_allocation_runtime_function function then (implementation, function)
         else attribute_frames describe implementation outer)"

definition attribute_allocation :: "(u64 \<Rightarrow> string) \<Rightarrow> firmware_call_stack \<Rightarrow> string \<times> string" where
  "attribute_allocation describe c =
     (let tracked_depth = min (depth c) (length (tracked_functions c));
          (implementation, origin) = attribute_frames describe '''' (rev (take tracked_depth (tracked_functions c)))
      in (implementation, if origin = '''' then implementation else origin))"

record abi =
  abi_describe :: "u64 \<Rightarrow> string"
  abi_host_size :: "string \<Rightarrow> u64"
  abi_lpc_size :: "string \<Rightarrow> u64"

text \<open>The active context is \<open>None\<close> when no simulator is active; the hooks swallow every exception.\<close>

definition record_host_heap_allocation ::
  "abi \<Rightarrow> u64 \<Rightarrow> u64 \<Rightarrow> bool \<Rightarrow> firmware_call_stack \<Rightarrow> memory_accounting option \<Rightarrow> memory_accounting option" where
  "record_host_heap_allocation abi pointer host array_allocation c context_acct =
     (if pointer = 0 \<or> \<not> firmware_allocation_active c then context_acct
      else case context_acct of
             None \<Rightarrow> None
           | Some s \<Rightarrow>
               let (implementation, origin) = attribute_allocation (abi_describe abi) c;
                   r = resolve_generic_heap_allocation (abi_host_size abi) (abi_lpc_size abi) host array_allocation origin implementation
               in Some (snd (record_heap pointer host (r_target_payload_bytes r) (r_type_name r) (r_target_size_exact r) s)))"

definition release_host_allocation ::
  "u64 \<Rightarrow> firmware_call_stack \<Rightarrow> memory_accounting option \<Rightarrow> bool \<times> memory_accounting option" where
  "release_host_allocation pointer c context_acct =
     (if pointer = 0 \<or> accounting_suppressed c then (False, context_acct)
      else case context_acct of
             None \<Rightarrow> (False, None)
           | Some s \<Rightarrow> let (r, s) = acct_deallocate pointer s in (r \<noteq> None, Some s))"

text \<open>\<^verbatim>\<open>tracked_strdup\<close>: \<open>copy\<close> is what \<^verbatim>\<open>malloc\<close> returned, \<open>source\<close> the string at the pointer, if it is not null.\<close>

definition tracked_strdup ::
  "string option \<Rightarrow> u64 \<Rightarrow> firmware_call_stack \<Rightarrow> memory_accounting option \<Rightarrow> u64 \<times> memory_accounting option" where
  "tracked_strdup source copy c context_acct =
     (case source of
        None \<Rightarrow> (0, context_acct)
      | Some text \<Rightarrow>
          let bytes = word_of_nat (length text + 1)
          in if copy = 0 then (0, context_acct)
             else if \<not> firmware_allocation_active c then (copy, context_acct)
             else (copy, map_option (\<lambda>s. snd (record_heap copy bytes bytes ''strdup char[]'' True s)) context_acct))"

definition tracked_free :: "u64 \<Rightarrow> firmware_call_stack \<Rightarrow> memory_accounting option \<Rightarrow> memory_accounting option" where
  "tracked_free pointer c context_acct = snd (release_host_allocation pointer c context_acct)"

section \<open>The report\<close>

record unresolved_totals =
  un_main_live :: u64
  un_main_peak :: u64
  un_ahb_live :: u64
  un_ahb_peak :: u64
  un_heap_live :: u64
  un_heap_peak :: u64

definition add_unresolved :: "allocation_group \<Rightarrow> unresolved_totals \<Rightarrow> unresolved_totals" where
  "add_unresolved g t =
     (if g_target_size_exact g then t
      else let live = ucast (g_host_payload_bytes g) * ucast (g_live_count g);
               peak = ucast (g_host_payload_bytes g) * ucast (g_peak_live_count g)
           in case g_region g of
                MainSram \<Rightarrow> t\<lparr>un_main_live := un_main_live t + live, un_main_peak := un_main_peak t + peak\<rparr>
              | AhbSram \<Rightarrow> t\<lparr>un_ahb_live := un_ahb_live t + live, un_ahb_peak := un_ahb_peak t + peak\<rparr>
              | UnifiedHeap \<Rightarrow> t\<lparr>un_heap_live := un_heap_live t + live, un_heap_peak := un_heap_peak t + peak\<rparr>)"

definition unresolved_report :: "allocation_group list \<Rightarrow> unresolved_totals" where
  "unresolved_report gs =
     fold add_unresolved gs
       \<lparr>un_main_live = 0, un_main_peak = 0, un_ahb_live = 0, un_ahb_peak = 0, un_heap_live = 0, un_heap_peak = 0\<rparr>"

text \<open>The order of the verbose listing: by region, then by falling peak.\<close>

definition report_less :: "allocation_group \<Rightarrow> allocation_group \<Rightarrow> bool" where
  "report_less l r =
     (if g_region l \<noteq> g_region r then region_rank (g_region l) < region_rank (g_region r)
      else g_peak_target_bytes l > g_peak_target_bytes r)"

section \<open>Properties\<close>

datatype call_event = Enter u64 | Exit

definition call_step :: "call_event \<Rightarrow> firmware_call_stack \<Rightarrow> firmware_call_stack" where
  "call_step e c = (case e of Enter f \<Rightarrow> enter_firmware_function f c | Exit \<Rightarrow> exit_firmware_function c)"

text \<open>The hook calls of code that returns normally from every function it enters.\<close>

inductive balanced :: "call_event list \<Rightarrow> bool" where
  balanced_Nil: "balanced []"
| balanced_call: "balanced body \<Longrightarrow> balanced rest \<Longrightarrow> balanced (Enter f # body @ Exit # rest)"

lemma call_simps [simp]:
  "depth (enter_firmware_function f c) = Suc (depth c)"
  "depth (exit_firmware_function c) = depth c - 1"
  "tracked_functions (exit_firmware_function c) = tracked_functions c"
  "length (tracked_functions (enter_firmware_function f c)) = length (tracked_functions c)"
  "accounting_suppressed (enter_firmware_function f c) = accounting_suppressed c"
  "accounting_suppressed (exit_firmware_function c) = accounting_suppressed c"
  by (simp_all add: enter_firmware_function_def exit_firmware_function_def Let_def)

lemma call_step_simps [simp]:
  "call_step (Enter f) = enter_firmware_function f" "call_step Exit = exit_firmware_function"
  by (simp_all add: call_step_def fun_eq_iff)

lemma enter_keeps_frames: "take (depth c) (tracked_functions (enter_firmware_function f c)) = take (depth c) (tracked_functions c)"
  by (simp add: enter_firmware_function_def Let_def)

lemma balanced_run:
  assumes "balanced es"
  shows "depth (fold call_step es c) = depth c \<and> accounting_suppressed (fold call_step es c) = accounting_suppressed c \<and>
    length (tracked_functions (fold call_step es c)) = length (tracked_functions c) \<and>
    take (depth c) (tracked_functions (fold call_step es c)) = take (depth c) (tracked_functions c)"
  using assms
proof (induction arbitrary: c)
  case (balanced_call body rest f)
  let ?e = "enter_firmware_function f c" and ?b = "fold call_step body (enter_firmware_function f c)"
  have b: "depth ?b = Suc (depth c)" "accounting_suppressed ?b = accounting_suppressed c"
    "length (tracked_functions ?b) = length (tracked_functions c)"
    "take (Suc (depth c)) (tracked_functions ?b) = take (Suc (depth c)) (tracked_functions ?e)"
    using balanced_call.IH(1) [of ?e] by simp_all
  have "take (depth c) (tracked_functions ?b) = take (depth c) (tracked_functions ?e)"
    using arg_cong [OF b(4), of "take (depth c)"] by (simp add: min_def)
  then have "take (depth c) (tracked_functions ?b) = take (depth c) (tracked_functions c)"
    by (simp add: enter_keeps_frames)
  with b balanced_call.IH(2) [of "exit_firmware_function ?b"] show ?case
    by simp
qed simp

text \<open>
  C16: firmware code that returns from every function it enters, however deep it nests (frames beyond the
  128 tracked ones included), leaves the attribution of its caller's allocations as it was.
\<close>

theorem balanced_calls_keep_attribution:
  assumes "balanced es"
  shows "attribute_allocation describe (fold call_step es c) = attribute_allocation describe c \<and>
    firmware_allocation_active (fold call_step es c) = firmware_allocation_active c"
proof -
  note b = balanced_run [OF assms, of c]
  have "take (min (depth c) (length (tracked_functions c))) (tracked_functions (fold call_step es c)) =
      take (min (depth c) (length (tracked_functions c))) (tracked_functions c)"
    using b by (metis min.commute take_take)
  then show ?thesis using b by (simp add: attribute_allocation_def firmware_allocation_active_def Let_def)
qed

theorem balanced_calls_keep_attribution_witness:
  "firmware_allocation_active (fold call_step [Enter 3, Enter 4, Exit, Exit] (enter_firmware_function 2 idle_calls))"
proof -
  have "balanced (Enter 3 # (Enter 4 # [] @ Exit # []) @ Exit # [])" by (intro balanced.intros)
  then have "balanced [Enter 3, Enter 4, Exit, Exit]" by simp
  from balanced_calls_keep_attribution [OF this, of "\<lambda>_. []" "enter_firmware_function 2 idle_calls"]
  show ?thesis by (simp add: firmware_allocation_active_def idle_calls_def)
qed

lemma first_resolved_exact:
  "first_resolved (resolve_object hs ls host origin) rules = Some r \<Longrightarrow> r_target_size_exact r"
  by (induction rules) (auto simp: resolve_object_def split: if_splits option.splits)

text \<open>Attribution skips the frames of the allocation runtime.\<close>

lemma attribute_frames_origin:
  "\<forall>g \<in> set inner. is_allocation_runtime_function (describe g) \<Longrightarrow> \<not> is_allocation_runtime_function (describe f) \<Longrightarrow>
   snd (attribute_frames describe i (inner @ f # outer)) = describe f"
  by (induction inner arbitrary: i) (auto simp: Let_def)

text \<open>
  an allocation the resolver has no rule for is recorded at its host size under an \<^verbatim>\<open>ABI-unresolved @\<close> label
  naming its function, and the LPC heap is not charged for it.
\<close>

theorem unresolved_not_charged:
  assumes "r = resolve_generic_heap_allocation hs ls host arr origin implementation" and "\<not> r_target_size_exact r"
  shows "r_target_payload_bytes r = host \<and>
    r_type_name r = ''ABI-unresolved @ '' @ (if origin = '''' then ''unknown firmware function'' else origin) \<and>
    acct_heap (snd (record_heap p host (r_target_payload_bytes r) (r_type_name r) (r_target_size_exact r) s)) = acct_heap s"
proof -
  have "r_target_payload_bytes r = host \<and>
      r_type_name r = ''ABI-unresolved @ '' @ (if origin = '''' then ''unknown firmware function'' else origin)"
    using assms first_resolved_exact [of hs ls host origin object_rules]
    unfolding resolve_generic_heap_allocation_def Let_def
    by (simp only: split: if_split_asm option.split_asm) simp_all
  moreover have "acct_heap (snd (record_heap p host target ty False s)) = acct_heap s" for target ty
    by (auto simp: record_heap_def place_request_def Let_def split: sum.splits prod.splits)
  ultimately show ?thesis using assms(2) by simp
qed

theorem unresolved_not_charged_witness:
  "r_type_name (resolve_generic_heap_allocation (\<lambda>_. 8) (\<lambda>_. 4) 100 False ''Robot::foo()'' ''Robot::foo()'') =
   ''ABI-unresolved @ Robot::foo()''"
proof -
  have "\<not> r_target_size_exact (resolve_generic_heap_allocation (\<lambda>_. 8) (\<lambda>_. 4) 100 False ''Robot::foo()'' ''Robot::foo()'')"
    by code_simp
  from unresolved_not_charged [OF refl this] show ?thesis by simp
qed

end
