(* ===== verification/Host_Files.thy ===== *)
theory Host_Files
  imports Sim_Prelude "HOL-Library.AList"
begin

text \<open>
  The part of \<^verbatim>\<open>std::filesystem\<close> and of the stream library that the simulator uses, on a POSIX host without
  symbolic links: a path is the list of its names from the host's root, the file system an
  association list of such paths whose order stands for the unspecified order of a directory
  listing.  A host call succeeds whenever the tree allows it (permissions and a full disk are not
  modelled).
\<close>

section \<open>Text\<close>

fun decimal_digits :: "nat \<Rightarrow> string" where
  "decimal_digits n = (if n < 10 then [char_of (48 + n)] else decimal_digits (n div 10) @ [char_of (48 + n mod 10)])"

declare decimal_digits.simps [simp del]

text \<open>The lines \<^verbatim>\<open>std::getline\<close> yields.\<close>

fun getlines :: "string \<Rightarrow> string \<Rightarrow> string list" where
  "getlines line [] = (if line = [] then [] else [rev line])"
| "getlines line (c # cs) = (if c = CHR 0x0A then rev line # getlines [] cs else getlines (c # line) cs)"

definition file_lines :: "string \<Rightarrow> string list" where
  "file_lines content = getlines [] content"

section \<open>Paths\<close>

type_synonym host_path = "string list"

fun split_slash :: "string \<Rightarrow> string \<Rightarrow> string list" where
  "split_slash name [] = [rev name]"
| "split_slash name (c # cs) = (if c = CHR ''/'' then rev name # split_slash [] cs else split_slash (c # name) cs)"

text \<open>Iterating over a \<^verbatim>\<open>std::filesystem::path\<close>: the root directory first, an empty name after a trailing slash.\<close>

definition path_iter :: "string \<Rightarrow> string list" where
  "path_iter s =
     (let names = filter (\<lambda>n. n \<noteq> []) (split_slash [] s)
      in (if s \<noteq> [] \<and> hd s = CHR ''/'' then [''/''] else []) @ names @
         (if s \<noteq> [] \<and> last s = CHR ''/'' \<and> names \<noteq> [] then [''''] else []))"

text \<open>\<^verbatim>\<open>base / s\<close> as the operating system resolves it: an absolute \<open>s\<close> replaces \<open>base\<close>, \<^verbatim>\<open>..\<close> steps up.\<close>

definition os_step :: "string \<Rightarrow> host_path \<Rightarrow> host_path" where
  "os_step n p = (if n = ''/'' then [] else if n = ''.'' \<or> n = '''' then p else if n = ''..'' then butlast p else p @ [n])"

definition os_path :: "host_path \<Rightarrow> string \<Rightarrow> host_path" where
  "os_path base s = fold os_step (path_iter s) base"

section \<open>The file system\<close>

datatype fs_node = Dir | File string

type_synonym host_fs = "(host_path \<times> fs_node) list"

definition fs_lookup :: "host_fs \<Rightarrow> host_path \<Rightarrow> fs_node option" where
  "fs_lookup fs p = (if p = [] then Some Dir else map_of fs p)"

definition is_directory :: "host_fs \<Rightarrow> host_path \<Rightarrow> bool" where
  "is_directory fs p \<longleftrightarrow> fs_lookup fs p = Some Dir"

definition is_regular_file :: "host_fs \<Rightarrow> host_path \<Rightarrow> bool" where
  "is_regular_file fs p \<longleftrightarrow> (case fs_lookup fs p of Some (File c) \<Rightarrow> True | _ \<Rightarrow> False)"

text \<open>Reading through a stream: what cannot be opened reads as empty.\<close>

definition read_file :: "host_fs \<Rightarrow> host_path \<Rightarrow> string" where
  "read_file fs p = (case fs_lookup fs p of Some (File c) \<Rightarrow> c | _ \<Rightarrow> [])"

definition read_block :: "host_fs \<Rightarrow> host_path \<Rightarrow> nat \<Rightarrow> nat \<Rightarrow> string" where
  "read_block fs p offset n = take n (drop offset (read_file fs p))"

text \<open>\<^verbatim>\<open>file_size\<close> throws (\<open>None\<close>) when there is no such file.\<close>

definition file_size :: "host_fs \<Rightarrow> host_path \<Rightarrow> nat option" where
  "file_size fs p = (case fs_lookup fs p of Some (File c) \<Rightarrow> Some (length c) | _ \<Rightarrow> None)"

definition fs_put :: "host_path \<Rightarrow> fs_node \<Rightarrow> host_fs \<Rightarrow> host_fs" where
  "fs_put p n fs = AList.update p n fs"

text \<open>Opening for writing: the parent must be a directory and the path must not be one.\<close>

definition can_write :: "host_fs \<Rightarrow> host_path \<Rightarrow> bool" where
  "can_write fs p \<longleftrightarrow> p \<noteq> [] \<and> is_directory fs (butlast p) \<and> \<not> is_directory fs p"

definition write_trunc :: "host_path \<Rightarrow> string \<Rightarrow> host_fs \<Rightarrow> host_fs option" where
  "write_trunc p c fs = (if can_write fs p then Some (fs_put p (File c) fs) else None)"

definition write_append :: "host_path \<Rightarrow> string \<Rightarrow> host_fs \<Rightarrow> host_fs option" where
  "write_append p c fs = (if can_write fs p then Some (fs_put p (File (read_file fs p @ c)) fs) else None)"

definition create_directory :: "host_path \<Rightarrow> host_fs \<Rightarrow> bool \<times> host_fs" where
  "create_directory p fs =
     (if p \<noteq> [] \<and> fs_lookup fs p = None \<and> is_directory fs (butlast p) then (True, fs_put p Dir fs) else (False, fs))"

definition create_directories :: "host_path \<Rightarrow> host_fs \<Rightarrow> host_fs" where
  "create_directories p fs = fold (\<lambda>n fs. snd (create_directory (take n p) fs)) [1..<Suc (length p)] fs"

definition path_below :: "host_path \<Rightarrow> host_path \<Rightarrow> bool" where
  "path_below p q \<longleftrightarrow> take (length p) q = p"

definition fs_exists :: "host_fs \<Rightarrow> host_path \<Rightarrow> bool" where
  "fs_exists fs p \<longleftrightarrow> fs_lookup fs p \<noteq> None"

definition remove_all :: "host_path \<Rightarrow> host_fs \<Rightarrow> bool \<times> host_fs" where
  "remove_all p fs = (fs_exists fs p, filter (\<lambda>(q, _). \<not> path_below p q) fs)"

text \<open>The names in a directory, in listing order.\<close>

definition dir_names :: "host_fs \<Rightarrow> host_path \<Rightarrow> string list" where
  "dir_names fs p = (if is_directory fs p
     then map (\<lambda>(q, _). last q) (filter (\<lambda>(q, _). q \<noteq> [] \<and> butlast q = p) fs) else [])"

definition remove_entry :: "host_path \<Rightarrow> host_fs \<Rightarrow> host_fs" where
  "remove_entry p fs = (if dir_names fs p = [] then filter (\<lambda>(q, _). q \<noteq> p) fs else fs)"

definition rename_entry :: "host_path \<Rightarrow> host_path \<Rightarrow> host_fs \<Rightarrow> host_fs option" where
  "rename_entry p q fs =
     (if \<not> fs_exists fs p \<or> p = [] \<or> q = [] \<or> \<not> is_directory fs (butlast q) then None
      else if p = q then Some fs
      else if path_below p q \<or> path_below q p then None
      else if is_directory fs q \<and> (\<not> is_directory fs p \<or> dir_names fs q \<noteq> []) then None
      else if is_regular_file fs q \<and> is_directory fs p then None
      else Some (map (\<lambda>(r, n). (if path_below p r then q @ drop (length p) r else r, n))
                   (filter (\<lambda>(r, _). r \<noteq> q) fs)))"

section \<open>Laws\<close>

lemma fs_lookup_put: "fs_lookup (fs_put p n fs) q = (if p \<noteq> [] \<and> q = p then Some n else fs_lookup fs q)"
  by (simp add: fs_lookup_def fs_put_def update_conv')

lemma is_directory_put [simp]: "p \<noteq> [] \<Longrightarrow> is_directory (fs_put p n fs) q = (if q = p then n = Dir else is_directory fs q)"
  by (simp add: is_directory_def fs_lookup_put)

lemma read_file_put [simp]: "p \<noteq> [] \<Longrightarrow> read_file (fs_put p (File c) fs) q = (if q = p then c else read_file fs q)"
  by (simp add: read_file_def fs_lookup_put)

lemma is_regular_file_put [simp]:
  "p \<noteq> [] \<Longrightarrow> is_regular_file (fs_put p (File c) fs) q = (q = p \<or> is_regular_file fs q)"
  by (simp add: is_regular_file_def fs_lookup_put)

lemma can_write_put: "can_write fs p \<Longrightarrow> can_write (fs_put p (File c) fs) p"
  by (cases p rule: rev_cases) (auto simp: can_write_def)

lemma getlines_concat:
  "concat (map (\<lambda>l. l @ [CHR 0x0A]) (getlines acc s)) =
   rev acc @ s @ (if rev acc @ s = [] \<or> last (rev acc @ s) = CHR 0x0A \<and> s \<noteq> [] then [] else [CHR 0x0A])"
  by (induction acc s rule: getlines.induct) auto

lemma split_slash_names: "n \<in> set (split_slash acc s) \<Longrightarrow> CHR ''/'' \<notin> set acc \<Longrightarrow> CHR ''/'' \<notin> set n"
  by (induction acc s rule: split_slash.induct) (auto split: if_splits)

lemma split_slash_plain: "CHR ''/'' \<notin> set s \<Longrightarrow> split_slash acc s = [rev acc @ s]"
  by (induction acc s rule: split_slash.induct) auto

text \<open>A name a cleaned path may contain.\<close>

definition plain_name :: "string \<Rightarrow> bool" where
  "plain_name n \<longleftrightarrow> n \<noteq> '''' \<and> n \<noteq> ''.'' \<and> n \<noteq> ''..'' \<and> CHR ''/'' \<notin> set n"

lemma path_iter_relative: "hd s \<noteq> CHR ''/'' \<Longrightarrow> n \<in> set (path_iter s) \<Longrightarrow> CHR ''/'' \<notin> set n"
  by (auto simp: path_iter_def Let_def dest: split_slash_names split: if_splits)

lemma path_iter_absolute: "path_iter (CHR ''/'' # r) = ''/'' # tl (path_iter (CHR ''/'' # r))"
  by (simp add: path_iter_def Let_def)

end
