(* ===== verification/Z1_Mainboard.thy ===== *)
theory Z1_Mainboard
  imports Makera_Protocol Host_Files "HOL-Library.Monad_Syntax"
begin

text \<open>
  \<^verbatim>\<open>src/protocol/z1_mainboard.cpp\<close>: the Z1 communications mainboard between a host (UART or TCP) and the
  LPC motion board.  It decodes Makera frames from both sides, answers file transfers, directory
  commands and status queries from the host, and streams config, factory, firmware and G-code
  files to the LPC.  The state is a record with the fields of the class and the host file system it
  works on.  An operation returns \<open>None\<close> when an exception escapes it (a frame payload that is too long,
  the size of a file that is gone); MD5 is a library and a parameter.
\<close>

section \<open>Data\<close>

datatype host_channel = Uart | Tcp
datatype transfer_direction = NoTransfer | Upload | Download
datatype upload_stage = Md5Stage | LayoutStage | DataStage

record file_transfer =
  direction :: transfer_direction
  owner :: host_channel
  stage :: upload_stage
  ft_path :: host_path
  md5_path :: "host_path option"
  ft_display_path :: string
  ft_md5 :: string
  frame_count :: u32
  ft_sequence :: u32
  last_reply_type :: packet_type
  last_reply_payload :: string

record streamed_play =
  play_owner :: host_channel
  play_path :: host_path
  play_display_path :: string
  play_identifier :: u16
  line_index :: u32
  prepared :: bool
  running :: bool

record z1 =
  sd_root :: host_path
  fs :: host_fs
  uart_decoder :: frame_decoder
  tcp_decoder :: frame_decoder
  lpc_decoder :: frame_decoder
  uart_tx :: string
  tcp_tx :: string
  lpc_tx :: string
  latest_status :: string
  latest_diagnostic :: string
  latest_version :: string
  transfer :: file_transfer
  play :: streamed_play
  uart_active :: bool
  tcp_active :: bool
  next_status_query_ms :: u64
  next_diagnostic_query_ms :: u64
  firmware_block_size :: u16

definition no_transfer :: file_transfer where
  "no_transfer =
     \<lparr>direction = NoTransfer, owner = Uart, stage = Md5Stage, ft_path = [], md5_path = None, ft_display_path = [],
      ft_md5 = [], frame_count = 0, ft_sequence = 0, last_reply_type = FileCancel, last_reply_payload = []\<rparr>"

definition no_play :: streamed_play where
  "no_play =
     \<lparr>play_owner = Uart, play_path = [], play_display_path = [], play_identifier = 0, line_index = 0,
      prepared = False, running = False\<rparr>"

abbreviation crlf :: string where
  "crlf \<equiv> [CHR 0x0D, CHR 0x0A]"

definition kInitialStatus :: string where
  "kInitialStatus =
     ''<Idle|MPos:-1.0000,-1.0000,-1.0000,0.0000,0.0000|WPos:144.4120,158.7000,77.9550,8.0010,0.0000|'' @
     ''    F:0.0,3000.0,100.0|S:0.0,10000.0,100.0,0,27.0|T:1,-15.180|W:4.13|L:0,0,0,0.0,100.0|'' @
     ''P:1234,50,1200|A:1|O:-1.351|H:1|C:1,5,0,1>'' @ [CHR 0x0A]"

section \<open>Integers and arguments in a payload\<close>

definition read_be16 :: "string \<Rightarrow> nat \<Rightarrow> u16" where
  "read_be16 bytes offset = join16 (byte_of (bytes ! offset)) (byte_of (bytes ! (offset + 1)))"

definition read_be32 :: "string \<Rightarrow> nat \<Rightarrow> u32" where
  "read_be32 bytes offset =
     push_bit 24 (ucast (byte_of (bytes ! offset))) OR push_bit 16 (ucast (byte_of (bytes ! (offset + 1)))) OR
     push_bit 8 (ucast (byte_of (bytes ! (offset + 2)))) OR ucast (byte_of (bytes ! (offset + 3)))"

definition be32 :: "u32 \<Rightarrow> string" where
  "be32 v = [chr_of (ucast (drop_bit 24 v)), chr_of (ucast (drop_bit 16 v)), chr_of (ucast (drop_bit 8 v)), chr_of (ucast v)]"

definition decode_byte :: "char \<Rightarrow> char" where
  "decode_byte c =
     (if c = CHR 0x01 then CHR '' '' else if c = CHR 0x02 then CHR ''?'' else if c = CHR 0x03 then CHR ''*''
      else if c = CHR 0x04 then CHR ''!'' else if c = CHR 0x05 then CHR ''~'' else c)"

definition decode_argument :: "string \<Rightarrow> string" where
  "decode_argument argument =
     (let result = map decode_byte (takeWhile (\<lambda>c. c \<noteq> CHR 0x00) argument);
          result = dropWhile (\<lambda>c. c = CHR '' '') result
      in rev (dropWhile (\<lambda>c. c = CHR '' '' \<or> c = CHR 0x0D \<or> c = CHR 0x0A \<or> c = CHR 0x00) (rev result)))"

text \<open>The first space of a string, \<^verbatim>\<open>find(' ')\<close>.\<close>

definition find_space :: "string \<Rightarrow> nat option" where
  "find_space s = str_find '' '' s"

section \<open>Records of the streamed files\<close>

definition play_lines :: "string \<Rightarrow> string list" where
  "play_lines content = map (\<lambda>l. take 63 l @ [CHR 0x0A]) (file_lines content)"

definition strip_cr :: "string \<Rightarrow> string" where
  "strip_cr l = (if l \<noteq> [] \<and> last l = CHR 0x0D then butlast l else l)"

definition config_records :: "string \<Rightarrow> string list" where
  "config_records content =
     map (\<lambda>l. take 63 l @ [CHR 0x0A])
       (filter (\<lambda>l. \<not> (length l \<le> 2 \<or> hd l = CHR ''#'' \<or> hd l = CHR ''*'')) (map strip_cr (file_lines content)))"

definition factory_records :: "string \<Rightarrow> string list" where
  "factory_records content =
     map (\<lambda>l. l @ [CHR 0x0A])
       (filter (\<lambda>l. \<not> (length l \<le> 2 \<or> hd l = CHR ''#'')) (map strip_cr (file_lines content)))"

section \<open>Paths on the card\<close>

definition md5_sidecar :: "host_path \<Rightarrow> string \<Rightarrow> host_path option" where
  "md5_sidecar root display =
     (if starts_with ''/sd/gcodes/'' display then Some (os_path (root @ [''gcodes'', ''.md5'']) (drop 11 display))
      else if starts_with ''/sd/'' display then Some (os_path (root @ [''.md5'']) (drop 4 display))
      else None)"

text \<open>The loop of \<^verbatim>\<open>resolve_sd_path\<close> over the components: \<open>clean\<close> is absolute or not, and its names.\<close>

definition clean_step :: "string \<Rightarrow> bool \<times> string list \<Rightarrow> bool \<times> string list" where
  "clean_step component clean =
     (if component = ''.'' \<or> component = '''' then clean
      else if component = ''..'' then (fst clean, butlast (snd clean))
      else if component = ''/'' then (True, [])
      else (fst clean, snd clean @ [component]))"

definition resolve_sd_path :: "host_path \<Rightarrow> string \<Rightarrow> host_path option" where
  "resolve_sd_path root encoded =
     (let decoded = decode_argument encoded
      in if decoded = ''/sd'' \<or> decoded = ''/sd/'' then Some root
         else case (if starts_with ''/sd/'' decoded then Some (drop 4 decoded)
                    else if decoded \<noteq> [] \<and> hd decoded \<noteq> CHR ''/'' then Some decoded else None) of
                None \<Rightarrow> None
              | Some relative \<Rightarrow>
                  let (absolute, names) = fold clean_step (path_iter relative) (False, [])
                  in Some (if absolute then names else root @ names))"

section \<open>Sending\<close>

definition send_host :: "host_channel \<Rightarrow> packet_type \<Rightarrow> string \<Rightarrow> z1 \<Rightarrow> z1 option" where
  "send_host ch ty body s =
     (case encode_frame ty body of
        None \<Rightarrow> None
      | Some b \<Rightarrow> Some (case ch of Uart \<Rightarrow> s\<lparr>uart_tx := uart_tx s @ b\<rparr> | Tcp \<Rightarrow> s\<lparr>tcp_tx := tcp_tx s @ b\<rparr>))"

definition broadcast_host :: "packet_type \<Rightarrow> string \<Rightarrow> z1 \<Rightarrow> z1 option" where
  "broadcast_host ty body s = do {
     s \<leftarrow> (if uart_active s then send_host Uart ty body s else Some s);
     (if tcp_active s then send_host Tcp ty body s else Some s) }"

definition send_lpc :: "packet_type \<Rightarrow> string \<Rightarrow> z1 \<Rightarrow> z1 option" where
  "send_lpc ty body s = map_option (\<lambda>b. s\<lparr>lpc_tx := lpc_tx s @ b\<rparr>) (encode_frame ty body)"

definition status_reply :: "z1 \<Rightarrow> string" where
  "status_reply s =
     (case str_find ''>'' (latest_status s) of
        None \<Rightarrow> []
      | Some close \<Rightarrow>
          if latest_status s = [] \<or> hd (latest_status s) \<noteq> CHR ''<'' then []
          else take close (latest_status s) @ ''|E:0,0,0,0,0|OTA:0,0>'' @ [CHR 0x0A])"

definition z1_reset :: "z1 \<Rightarrow> z1" where
  "z1_reset s =
     s\<lparr>uart_decoder := decoder_reset, tcp_decoder := decoder_reset, lpc_decoder := decoder_reset,
       uart_tx := [], tcp_tx := [], lpc_tx := [], latest_status := kInitialStatus, latest_diagnostic := [],
       latest_version := [], transfer := no_transfer, play := no_play, uart_active := False, tcp_active := False,
       next_status_query_ms := 0, next_diagnostic_query_ms := 0, firmware_block_size := 512\<rparr>"

definition new_z1 :: "host_path \<Rightarrow> host_fs \<Rightarrow> z1" where
  "new_z1 root f =
     z1_reset \<lparr>sd_root = root, fs = f, uart_decoder = decoder_reset, tcp_decoder = decoder_reset,
       lpc_decoder = decoder_reset, uart_tx = [], tcp_tx = [], lpc_tx = [], latest_status = [], latest_diagnostic = [],
       latest_version = [], transfer = no_transfer, play = no_play, uart_active = False, tcp_active = False,
       next_status_query_ms = 0, next_diagnostic_query_ms = 0, firmware_block_size = 512\<rparr>"

definition set_sd_root :: "host_path \<Rightarrow> z1 \<Rightarrow> z1" where
  "set_sd_root root s = s\<lparr>sd_root := root\<rparr>"

definition take_host_tx :: "host_channel \<Rightarrow> z1 \<Rightarrow> string \<times> z1" where
  "take_host_tx ch s = (case ch of Uart \<Rightarrow> (uart_tx s, s\<lparr>uart_tx := []\<rparr>) | Tcp \<Rightarrow> (tcp_tx s, s\<lparr>tcp_tx := []\<rparr>))"

definition take_lpc_tx :: "z1 \<Rightarrow> string \<times> z1" where
  "take_lpc_tx s = (lpc_tx s, s\<lparr>lpc_tx := []\<rparr>)"

definition tick :: "u64 \<Rightarrow> z1 \<Rightarrow> z1 option" where
  "tick now s = do {
     s \<leftarrow> (if now \<ge> next_status_query_ms s
           then map_option (next_status_query_ms_update (\<lambda>_. now + 300)) (send_lpc ControlSingle ''?'' s) else Some s);
     (if now \<ge> next_diagnostic_query_ms s
      then map_option (next_diagnostic_query_ms_update (\<lambda>_. now + 500)) (send_lpc ControlMulti (''diagnose'' @ [CHR 0x0A]) s)
      else Some s) }"

section \<open>File transfer with the host\<close>

definition set_transfer :: "file_transfer \<Rightarrow> z1 \<Rightarrow> z1" where
  "set_transfer ft s = s\<lparr>transfer := ft\<rparr>"

definition invalid_filename :: string where
  "invalid_filename = ''Error: Invalid filename!'' @ crlf"

definition open_failed :: "string \<Rightarrow> string" where
  "open_failed display = ''Error: failed to open file ['' @ display @ '']!'' @ crlf"

definition start_download :: "(string \<Rightarrow> string) \<Rightarrow> host_channel \<Rightarrow> file_transfer \<Rightarrow> z1 \<Rightarrow> z1 option" where
  "start_download md5 ch ft s =
     (if \<not> is_regular_file (fs s) (ft_path ft)
      then map_option (set_transfer no_transfer) (send_host ch FileCancel (open_failed (ft_display_path ft)) s)
      else let sum = (if ft_path ft \<noteq> [] \<and> last (ft_path ft) = ''config.txt'' then md5 (read_file (fs s) (ft_path ft))
                      else case md5_path ft of
                             Some m \<Rightarrow> if is_regular_file (fs s) m then take 32 (read_file (fs s) m) else []
                           | None \<Rightarrow> []);
               sum = (if length sum \<noteq> 32 then ''82df799dde08f3d86839e24cb97e74d4'' else sum);
               ft = ft\<lparr>direction := Download, ft_md5 := sum, last_reply_type := FileMd5, last_reply_payload := sum\<rparr>
           in send_host ch FileMd5 sum (set_transfer ft s))"

definition start_upload :: "host_channel \<Rightarrow> file_transfer \<Rightarrow> z1 \<Rightarrow> z1 option" where
  "start_upload ch ft s =
     (let f = create_directories (butlast (ft_path ft)) (fs s);
          f = (case md5_path ft of Some m \<Rightarrow> create_directories (butlast m) f | None \<Rightarrow> f)
      in case write_trunc (ft_path ft) [] f of
           None \<Rightarrow> map_option (set_transfer no_transfer) (send_host ch FileCancel (open_failed (ft_display_path ft)) (s\<lparr>fs := f\<rparr>))
         | Some f \<Rightarrow>
             send_host ch FileMd5 []
               (set_transfer (ft\<lparr>direction := Upload, stage := Md5Stage, last_reply_type := FileMd5, last_reply_payload := []\<rparr>)
                 (s\<lparr>fs := f\<rparr>)))"

definition card_display :: "string \<Rightarrow> string" where
  "card_display display = (if starts_with ''/'' display then display else ''/sd/'' @ display)"

definition start_file_transfer :: "(string \<Rightarrow> string) \<Rightarrow> host_channel \<Rightarrow> string \<Rightarrow> z1 \<Rightarrow> z1 option" where
  "start_file_transfer md5 ch command s =
     (let upload = starts_with ''upload'' command; download = starts_with ''download'' command
      in if \<not> upload \<and> \<not> download then Some s
         else let display = decode_argument (drop (if upload then 6 else 8) command)
              in case resolve_sd_path (sd_root s) display of
                   None \<Rightarrow> map_option (set_transfer no_transfer) (send_host ch FileCancel invalid_filename s)
                 | Some p \<Rightarrow>
                     if upload \<and> display = []
                     then map_option (set_transfer no_transfer) (send_host ch FileCancel invalid_filename s)
                     else let ft = no_transfer\<lparr>owner := ch, ft_path := p, ft_display_path := card_display display,
                                               md5_path := md5_sidecar (sd_root s) (card_display display)\<rparr>
                          in if download then start_download md5 ch ft s else start_upload ch ft s)"

definition reply_and_send :: "host_channel \<Rightarrow> packet_type \<Rightarrow> string \<Rightarrow> file_transfer \<Rightarrow> z1 \<Rightarrow> z1 option" where
  "reply_and_send ch ty body ft s =
     send_host ch ty body (set_transfer (ft\<lparr>last_reply_type := ty, last_reply_payload := body\<rparr>) s)"

definition handle_download :: "host_channel \<Rightarrow> frame \<Rightarrow> z1 \<Rightarrow> z1 option" where
  "handle_download ch f s =
     (let ft = transfer s
      in if frame_type f = FileMd5 then reply_and_send ch FileMd5 (ft_md5 ft) ft s
         else if frame_type f = FileView
         then (case file_size (fs s) (ft_path ft) of
                 None \<Rightarrow> None
               | Some bytes \<Rightarrow>
                   let count = word_of_nat ((bytes + 8191) div 8192)
                   in reply_and_send ch FileView (be32 count @ be16 8192) (ft\<lparr>frame_count := count\<rparr>) s)
         else if frame_type f = FileData \<and> length (payload f) \<ge> 4
         then let seq = read_be32 (payload f) 0;
                  block = read_block (fs s) (ft_path ft) ((if seq > 0 then unat seq - 1 else 0) * 8192) 8192
              in if block = []
                 then map_option (set_transfer no_transfer)
                        (send_host ch FileCancel (''Error: Machine received cmd timeout!'' @ crlf) s)
                 else reply_and_send ch FileData (take 4 (payload f) @ block) (ft\<lparr>ft_sequence := seq\<rparr>) s
         else if frame_type f = FileEnd
         then do {
           s \<leftarrow> send_host ch FileEnd (''ok'' @ crlf) s;
           s \<leftarrow> send_host ch NormalInfo (''Info: download success: '' @ ft_display_path ft @ ''.'' @ crlf) s;
           Some (set_transfer no_transfer s) }
         else Some s)"

definition handle_upload :: "host_channel \<Rightarrow> frame \<Rightarrow> z1 \<Rightarrow> z1 option" where
  "handle_upload ch f s =
     (let ft = transfer s
      in if stage ft = Md5Stage \<and> frame_type f = FileMd5 \<and> length (payload f) \<ge> 32
         then let sum = take 32 (payload f);
                  written = (case md5_path ft of
                               None \<Rightarrow> fs s
                             | Some m \<Rightarrow> (case write_trunc m sum (fs s) of Some g \<Rightarrow> g | None \<Rightarrow> fs s))
              in reply_and_send ch FileView [] (ft\<lparr>ft_md5 := sum, stage := LayoutStage\<rparr>) (s\<lparr>fs := written\<rparr>)
         else if stage ft = LayoutStage \<and> frame_type f = FileView \<and> length (payload f) \<ge> 4
         then reply_and_send ch FileData (be32 1)
                (ft\<lparr>frame_count := read_be32 (payload f) 0, ft_sequence := 1, stage := DataStage\<rparr>) s
         else if stage ft = DataStage \<and> frame_type f = FileData \<and> length (payload f) \<ge> 4 \<and>
                 read_be32 (payload f) 0 = ft_sequence ft
         then (case write_append (ft_path ft) (drop 4 (payload f)) (fs s) of
                 None \<Rightarrow> send_host ch FileRetry (''Error: File Write error!retry...'' @ crlf) s
               | Some g \<Rightarrow>
                   let s = s\<lparr>fs := g\<rparr>
                   in if ft_sequence ft \<ge> frame_count ft
                      then do {
                        s \<leftarrow> send_host ch FileEnd (''ok'' @ crlf) s;
                        s \<leftarrow> send_host ch NormalInfo (''Info: upload success: '' @ ft_display_path ft @ ''.'' @ crlf) s;
                        Some (set_transfer no_transfer s) }
                      else let next = ft_sequence ft + 1
                           in send_host ch FileData (be32 next)
                                (set_transfer (ft\<lparr>ft_sequence := next, last_reply_payload := be32 next\<rparr>) s))
         else Some s)"

definition handle_file_transfer :: "(string \<Rightarrow> string) \<Rightarrow> host_channel \<Rightarrow> frame \<Rightarrow> z1 \<Rightarrow> z1 option" where
  "handle_file_transfer md5 ch f s =
     (if frame_type f = FileStart then start_file_transfer md5 ch (payload f) s
      else if direction (transfer s) = NoTransfer \<or> owner (transfer s) \<noteq> ch then Some s
      else if frame_type f = FileCancel
      then map_option (set_transfer no_transfer)
             (send_host ch FileCancel
               ((if direction (transfer s) = Upload then ''Info: Upload canceled by remote!'' else ''Info: canceled by remote!'') @ crlf) s)
      else if frame_type f = FileRetry
      then send_host ch (last_reply_type (transfer s)) (last_reply_payload (transfer s)) s
      else if direction (transfer s) = Download then handle_download ch f s
      else handle_upload ch f s)"

section \<open>Directory commands of the host\<close>

lemma decode_argument_length: "length (decode_argument s) \<le> length s"
  unfolding decode_argument_def Let_def length_rev
  by (rule order_trans [OF length_dropWhile_le], unfold length_rev, rule order_trans [OF length_dropWhile_le])
    (simp add: length_takeWhile_le)

function strip_options :: "string \<Rightarrow> bool \<Rightarrow> string \<times> bool" where
  "strip_options argument with_size =
     (if starts_with ''-'' argument
      then case find_space argument of
             None \<Rightarrow> ([], with_size \<or> CHR ''s'' \<in> set argument)
           | Some sep \<Rightarrow> strip_options (decode_argument (drop (sep + 1) argument)) (with_size \<or> CHR ''s'' \<in> set (take sep argument))
      else (argument, with_size))"
  by pat_completeness auto
termination
proof (relation "measure (length \<circ> fst)")
  fix argument with_size sep
  assume "starts_with ''-'' argument"
  then have "argument \<noteq> []" by auto
  then show "((decode_argument (drop (sep + 1) argument), with_size \<or> CHR ''s'' \<in> set (take sep argument)), argument, with_size)
      \<in> measure (length \<circ> fst)"
    using decode_argument_length [of "drop (sep + 1) argument"] by (cases argument) auto
qed simp

declare strip_options.simps [simp del]

definition hidden_name :: "string \<Rightarrow> bool" where
  "hidden_name name \<longleftrightarrow> starts_with ''.'' name \<and> name \<noteq> ''.md5'' \<and> name \<noteq> ''.lz''"

definition shown_name :: "bool \<Rightarrow> host_fs \<Rightarrow> host_path \<Rightarrow> string \<Rightarrow> string" where
  "shown_name with_size f p name =
     map (\<lambda>c. if c = CHR '' '' then CHR 0x01 else c) name @
     (if is_directory f (p @ [name]) then ''/'' else '''') @
     (if with_size then '' '' @ decimal_digits (length (read_file f (p @ [name]))) @ '' 19700101000000'' else '''') @ crlf"

fun list_entries :: "bool \<Rightarrow> host_channel \<Rightarrow> host_path \<Rightarrow> string list \<Rightarrow> string \<Rightarrow> z1 \<Rightarrow> (string \<times> z1) option" where
  "list_entries with_size ch p [] reply s = Some (reply, s)"
| "list_entries with_size ch p (name # names) reply s =
     (if hidden_name name then list_entries with_size ch p names reply s
      else let shown = shown_name with_size (fs s) p name
           in if length reply + length shown > 411 \<and> reply \<noteq> []
              then (case send_host ch LoadInfo reply s of None \<Rightarrow> None | Some s \<Rightarrow> list_entries with_size ch p names shown s)
              else list_entries with_size ch p names (reply @ shown) s)"

definition ls_command :: "host_channel \<Rightarrow> string \<Rightarrow> z1 \<Rightarrow> z1 option" where
  "ls_command ch rest s =
     (let (argument, with_size) = strip_options (decode_argument rest) False;
          argument = (if argument = [] then ''/sd'' else argument)
      in do {
        (reply, s) \<leftarrow> (case resolve_sd_path (sd_root s) argument of
                        None \<Rightarrow> Some ([], s)
                      | Some p \<Rightarrow> list_entries with_size ch p (dir_names (fs s) p) [] s);
        s \<leftarrow> (if reply \<noteq> [] then send_host ch LoadInfo reply s else Some s);
        send_host ch LoadFinish (''Load directory finished.'' @ crlf) s })"

definition mkdir_command :: "host_channel \<Rightarrow> string \<Rightarrow> z1 \<Rightarrow> z1 option" where
  "mkdir_command ch rest s =
     (let display = decode_argument rest
      in if display = [] then Some s
         else let (created, f) = (case resolve_sd_path (sd_root s) display of
                                    None \<Rightarrow> (False, fs s) | Some p \<Rightarrow> create_directory p (fs s))
              in do {
                s \<leftarrow> send_host ch (if created then LoadFinish else LoadError)
                       (if created then ''ok'' @ crlf else ''could not create directory '' @ display @ crlf) (s\<lparr>fs := f\<rparr>);
                (if created then send_host ch NormalInfo (''created directory '' @ display @ crlf) s else Some s) })"

definition rm_command :: "host_channel \<Rightarrow> string \<Rightarrow> z1 \<Rightarrow> z1 option" where
  "rm_command ch rest s =
     (let display = decode_argument rest;
          display = (if starts_with ''-r '' display \<or> starts_with ''-R '' display then decode_argument (drop 3 display) else display)
      in if display = [] then Some s
         else let (removed, f) = (case resolve_sd_path (sd_root s) display of
                                    None \<Rightarrow> (False, fs s) | Some p \<Rightarrow> remove_all p (fs s))
              in send_host ch (if removed then LoadFinish else LoadError)
                   (if removed then ''ok'' @ crlf else ''Could not delete '' @ display @ '' '' @ crlf) (s\<lparr>fs := f\<rparr>))"

definition mv_command :: "host_channel \<Rightarrow> string \<Rightarrow> z1 \<Rightarrow> z1 option" where
  "mv_command ch rest s =
     (let arguments = decode_argument rest
      in case find_space arguments of
           None \<Rightarrow> Some s
         | Some sep \<Rightarrow>
             let source_display = take sep arguments;
                 destination_display = decode_argument (drop (sep + 1) arguments);
                 moved = (case (resolve_sd_path (sd_root s) source_display, resolve_sd_path (sd_root s) destination_display) of
                            (Some p, Some q) \<Rightarrow> rename_entry p q (fs s) | _ \<Rightarrow> None)
             in (case moved of
                   None \<Rightarrow> send_host ch LoadError
                     (''Could not rename '' @ source_display @ '' to '' @ destination_display @ crlf) s
                 | Some f \<Rightarrow> do {
                     s \<leftarrow> send_host ch LoadFinish (''ok'' @ crlf) (s\<lparr>fs := f\<rparr>);
                     send_host ch NormalInfo (''renamed '' @ source_display @ '' to '' @ destination_display @ crlf) s }))"

definition md5sum_command :: "(string \<Rightarrow> string) \<Rightarrow> host_channel \<Rightarrow> string \<Rightarrow> z1 \<Rightarrow> z1 option" where
  "md5sum_command md5 ch command s =
     (let display = decode_argument (if length command \<ge> 7 then drop 7 command else [])
      in if display = [] then send_host ch NormalInfo (''Error: md5sum requires a file path'' @ crlf) s
         else let missing = send_host ch NormalInfo (''Error: file not found ['' @ display @ '']'' @ crlf) s
              in case resolve_sd_path (sd_root s) display of
                   None \<Rightarrow> missing
                 | Some p \<Rightarrow>
                     if \<not> fs_exists (fs s) p then missing
                     else if \<not> is_regular_file (fs s) p
                     then send_host ch NormalInfo (''Error: not a file ['' @ display @ '']'' @ crlf) s
                     else send_host ch NormalInfo (md5 (read_file (fs s) p) @ display @ crlf) s)"

text \<open>\<^verbatim>\<open>handle_local_command\<close>: whether the command was local, and the state.\<close>

definition handle_local_command :: "(string \<Rightarrow> string) \<Rightarrow> host_channel \<Rightarrow> string \<Rightarrow> z1 \<Rightarrow> (bool \<times> z1) option" where
  "handle_local_command md5 ch command s =
     (if starts_with ''ftype'' command then map_option (Pair True) (send_host ch NormalInfo (''ftype = nc'' @ crlf) s)
      else if starts_with ''ls'' command then map_option (Pair True) (ls_command ch (drop 2 command) s)
      else if starts_with ''mkdir'' command then map_option (Pair True) (mkdir_command ch (drop 5 command) s)
      else if starts_with ''rm'' command then map_option (Pair True) (rm_command ch (drop 2 command) s)
      else if starts_with ''mv'' command then map_option (Pair True) (mv_command ch (drop 2 command) s)
      else if starts_with ''md5sum'' command then map_option (Pair True) (md5sum_command md5 ch command s)
      else Some (False, s))"

section \<open>Streaming files to the LPC\<close>

definition handle_firmware_transfer :: "frame \<Rightarrow> z1 \<Rightarrow> z1 option" where
  "handle_firmware_transfer f s =
     (let p = sd_root s @ [''lpc1768.bin'']; cancel = send_lpc FirmwareCancel [] s
      in if frame_type f = FirmwareEnd \<or> frame_type f = FirmwareCancel then Some s
         else if frame_type f = FirmwareStart
         then send_lpc (if is_regular_file (fs s) p then FirmwareStart else FirmwareCancel) [] s
         else if frame_type f = FirmwareView
         then (if length (payload f) < 6 \<or> \<not> is_regular_file (fs s) p then cancel
               else let block_size = read_be16 (payload f) 4;
                        s = s\<lparr>firmware_block_size := block_size\<rparr>
                    in if block_size = 0 then send_lpc FirmwareCancel [] s
                       else case file_size (fs s) p of
                              None \<Rightarrow> None
                            | Some bytes \<Rightarrow>
                                send_lpc FirmwareView
                                  (be32 (word_of_nat ((bytes + unat block_size - 1) div unat block_size)) @ be16 block_size) s)
         else if frame_type f \<noteq> FirmwareData \<or> length (payload f) < 4 \<or> \<not> is_regular_file (fs s) p then cancel
         else let index = read_be32 (payload f) 0;
                  offset = (if index > 0 then index - 1 else 0) * ucast (firmware_block_size s);
                  block = read_block (fs s) p (unat offset) (unat (firmware_block_size s))
              in if block = [] then Some s else send_lpc FirmwareData (take 4 (payload f) @ block) s)"

definition prepare_play :: "host_channel \<Rightarrow> string \<Rightarrow> z1 \<Rightarrow> z1 option" where
  "prepare_play ch command s =
     (let argument = (if length command > 5 then drop 5 command else []);
          argument = (if starts_with ''play '' argument \<and> length argument > 5 then drop 5 argument else argument);
          display = decode_argument argument
      in case resolve_sd_path (sd_root s) display of
           None \<Rightarrow> broadcast_host NormalInfo ''Error:open file failed[P0]'' s
         | Some p \<Rightarrow>
             if \<not> is_regular_file (fs s) p then broadcast_host NormalInfo ''Error:open file failed[P0]'' s
             else Some (s\<lparr>play := no_play\<lparr>play_owner := ch, play_path := p, play_display_path := card_display display,
                          play_identifier := crc16_ccitt (card_display display), prepared := True\<rparr>\<rparr>))"

text \<open>The loop that fills a \<^verbatim>\<open>PlayData\<close> reply: the reply and the loop counter at its end.\<close>

fun play_fill :: "nat \<Rightarrow> string \<Rightarrow> nat \<Rightarrow> string list \<Rightarrow> string \<times> nat" where
  "play_fill count_limit reply count [] = (reply, count)"
| "play_fill count_limit reply count (l # ls) =
     (if \<not> count < count_limit then (reply, count)
      else if length reply + length l > 6 + 512 then (reply, count)
      else let reply = reply @ l
           in if 6 + 512 - length reply < 74 then (reply, count) else play_fill count_limit reply (count + 1) ls)"

text \<open>The most lines a request accepts.\<close>

definition play_limit :: "string \<Rightarrow> nat" where
  "play_limit request =
     (let maximum_lines = (if length request \<ge> 8 then read_be16 request 6 else 255)
      in if maximum_lines = 0 then 255 else unat maximum_lines)"

definition stop_play :: "z1 \<Rightarrow> z1" where
  "stop_play s = s\<lparr>play := (play s)\<lparr>running := False, prepared := False\<rparr>\<rparr>"

definition handle_play_frame :: "frame \<Rightarrow> z1 \<Rightarrow> z1 option" where
  "handle_play_frame f s =
     (if frame_type f = PlayEnd \<or> frame_type f = PlayCancel then Some (stop_play s)
      else if frame_type f = PlayStart
      then (if \<not> prepared (play s) \<or> length (payload f) < 2 \<or> read_be16 (payload f) 0 \<noteq> play_identifier (play s)
            then send_lpc PlayCancel [] s
            else case file_size (fs s) (play_path (play s)) of
                   None \<Rightarrow> None
                 | Some bytes \<Rightarrow>
                     map_option (\<lambda>s. s\<lparr>play := (play s)\<lparr>running := True\<rparr>\<rparr>)
                       (send_lpc PlayView (be16 (play_identifier (play s)) @ be32 (word_of_nat bytes)) s))
      else if frame_type f \<noteq> PlayData \<or> length (payload f) < 6 \<or> \<not> prepared (play s) \<or>
              read_be16 (payload f) 0 \<noteq> play_identifier (play s)
      then (if frame_type f = PlayData then send_lpc PlayEnd [] s else Some s)
      else let requested = read_be32 (payload f) 2;
               lines = play_lines (read_file (fs s) (play_path (play s)))
           in if unat requested \<ge> length lines then map_option stop_play (send_lpc PlayEnd [] s)
              else let (reply, count) = play_fill (play_limit (payload f)) (take 6 (payload f)) 0 (drop (unat requested) lines);
                       reached = requested + word_of_nat count
                   in do {
                     s \<leftarrow> send_lpc PlayData reply (s\<lparr>play := (play s)\<lparr>line_index := reached\<rparr>\<rparr>);
                     (if unat reached \<ge> length lines then map_option stop_play (send_lpc PlayEnd [] s) else Some s) })"

text \<open>The loop that fills a config reply.\<close>

fun config_fill :: "string \<Rightarrow> string list \<Rightarrow> string" where
  "config_fill reply [] = reply"
| "config_fill reply (r # rs) =
     (if length reply + length r > 4 + 512 then reply
      else let reply = reply @ r in if 4 + 512 - length reply < 80 then reply else config_fill reply rs)"

definition transfer_reply :: "bool \<Rightarrow> string list \<Rightarrow> string \<Rightarrow> string" where
  "transfer_reply config_lines records request =
     (let index = read_be32 request 0; reply = take 4 request
      in if config_lines
         then let begin_at = (if index \<le> 1 then 0 else min (unat index - 1) (length records));
                  reply = config_fill reply (drop begin_at records)
              in if length reply > 4 \<and> length reply < 4 + 512 then reply @ [CHR 0x0A] else reply
         else if index > 0 \<and> unat index \<le> length records \<and> length (records ! (unat index - 1)) \<le> 132
         then reply @ records ! (unat index - 1)
         else reply)"

definition handle_transfer ::
  "frame \<Rightarrow> packet_type \<Rightarrow> packet_type \<Rightarrow> packet_type \<Rightarrow> packet_type \<Rightarrow> packet_type \<Rightarrow> host_path \<Rightarrow> bool \<Rightarrow> z1 \<Rightarrow> z1 option" where
  "handle_transfer f start view data end_type cancel p config_lines s =
     (if frame_type f = end_type then Some (if \<not> config_lines then s\<lparr>fs := remove_entry p (fs s)\<rparr> else s)
      else if frame_type f = cancel then Some s
      else if frame_type f = start
      then do {
        s \<leftarrow> send_lpc start [] s;
        (if \<not> is_regular_file (fs s) p then send_lpc cancel [] s else Some s) }
      else let content = read_file (fs s) p;
               records = (if config_lines then config_records content else factory_records content)
           in if frame_type f = view
              then (if length (payload f) < 6 then send_lpc cancel [] s
                    else send_lpc view (be32 (word_of_nat (length records)) @
                           be16 (if config_lines then 512 else read_be16 (payload f) 4)) s)
              else if frame_type f \<noteq> data \<or> length (payload f) < 4 then send_lpc cancel [] s
              else let reply = transfer_reply config_lines records (payload f)
                   in if length reply > 4 then send_lpc data reply s else Some s)"

section \<open>Dispatch\<close>

definition handle_host_frame :: "(string \<Rightarrow> string) \<Rightarrow> host_channel \<Rightarrow> frame \<Rightarrow> z1 \<Rightarrow> z1 option" where
  "handle_host_frame md5 ch f s =
     (let ty = frame_type f; body = payload f; forward = send_lpc ty body
      in if ty = FileStart \<or> FileMd5 \<le> ty \<and> ty \<le> FileRetry then handle_file_transfer md5 ch f s
         else if ty = PlayStatus
         then do {
           (handled, s) \<leftarrow> handle_local_command md5 ch body s;
           (if handled then Some s
            else send_host ch PlayStatus (if running (play s) then play_display_path (play s) @ ''|'' else ''|'') s) }
         else if ty = ControlSingle \<and> body \<noteq> [] \<and> hd body = CHR ''?'' then send_host ch StatusResponse (status_reply s) s
         else if ty = ControlMulti
         then (if starts_with ''play'' body then do { s \<leftarrow> prepare_play ch body s; forward s }
               else if starts_with ''diagnose'' body
               then send_host ch DiagnosticResponse (latest_diagnostic s @ ''|RSSI:-40'') s
               else if starts_with ''version'' body
               then send_host ch DiagnosticResponse (''version = '' @ latest_version s @ ''.0.1.13'' @ [CHR 0x0A]) s
               else do { (handled, s) \<leftarrow> handle_local_command md5 ch body s; (if handled then Some s else forward s) })
         else forward s)"

definition handle_lpc_frame :: "frame \<Rightarrow> z1 \<Rightarrow> z1 option" where
  "handle_lpc_frame f s =
     (let ty = frame_type f; body = payload f
      in if ty = StatusResponse then Some (if body \<noteq> [] then s\<lparr>latest_status := body\<rparr> else s)
         else if ty = DiagnosticResponse then Some (if body \<noteq> [] then s\<lparr>latest_diagnostic := body\<rparr> else s)
         else if ty = FirmwareVersion then Some (if body \<noteq> [] then s\<lparr>latest_version := body\<rparr> else s)
         else if ty AND 0xf0 = 0xf0 then handle_play_frame f s
         else if ty AND 0xf0 = 0xd0
         then handle_transfer f ConfigStart ConfigView ConfigData ConfigEnd ConfigCancel (sd_root s @ [''config.txt'']) True s
         else if ty AND 0xf0 = 0xc0 then handle_firmware_transfer f s
         else if ty AND 0xf0 = 0xe0
         then handle_transfer f FactoryStart FactoryView FactoryData FactoryEnd FactoryCancel (sd_root s @ [''factory.ini'']) False s
         else broadcast_host ty body s)"

fun handle_all :: "(frame \<Rightarrow> z1 \<Rightarrow> z1 option) \<Rightarrow> frame list \<Rightarrow> z1 \<Rightarrow> z1 option" where
  "handle_all h [] s = Some s"
| "handle_all h (f # rest) s = (case h f s of None \<Rightarrow> None | Some s \<Rightarrow> handle_all h rest s)"

definition receive_from_host :: "(string \<Rightarrow> string) \<Rightarrow> host_channel \<Rightarrow> string \<Rightarrow> z1 \<Rightarrow> z1 option" where
  "receive_from_host md5 ch bytes s =
     (case ch of
        Uart \<Rightarrow> (let (frames, d) = take_frames (decoder_append bytes (uart_decoder s))
                 in handle_all (handle_host_frame md5 ch) frames (s\<lparr>uart_active := True, uart_decoder := d\<rparr>))
      | Tcp \<Rightarrow> (let (frames, d) = take_frames (decoder_append bytes (tcp_decoder s))
                in handle_all (handle_host_frame md5 ch) frames (s\<lparr>tcp_active := True, tcp_decoder := d\<rparr>)))"

definition receive_from_lpc :: "string \<Rightarrow> z1 \<Rightarrow> z1 option" where
  "receive_from_lpc bytes s =
     (let (frames, d) = take_frames (decoder_append bytes (lpc_decoder s))
      in handle_all handle_lpc_frame frames (s\<lparr>lpc_decoder := d\<rparr>))"

end
