(* ===== verification/Z1_Laws.thy ===== *)
theory Z1_Laws
  imports Z1_Mainboard
begin

text \<open>
  What the Z1 mainboard of \<open>Z1_Mainboard\<close> promises: where the paths a host names end up on the host's file
  system, what an upload leaves on the card, what a download delivers, and how a G-code file
  reaches the motion board block by block.
\<close>

section \<open>Integers in payloads\<close>

lemma length_be32 [simp]: "length (be32 v) = 4"
  by (simp add: be32_def)

lemma read_be32_be32 [simp, byte_simps]: "read_be32 (be32 v @ xs) 0 = v"
proof (rule bit_word_eqI)
  fix n assume "n < LENGTH(32)"
  then consider "n < 8" | "8 \<le> n" "n < 16" | "16 \<le> n" "n < 24" | "24 \<le> n" "n < 32" by force
  then show "bit (read_be32 (be32 v @ xs) 0) n = bit v n"
    by cases (auto simp: read_be32_def be32_def bit_simps nth_Cons split: nat.splits)
qed

lemma take_be32 [simp]: "take 4 (be32 v @ xs) = be32 v" "drop 4 (be32 v @ xs) = xs"
  by simp_all

lemma read_be16_be16 [simp, byte_simps]: "read_be16 (be16 w @ xs) 0 = w"
  by (simp add: read_be16_def be16_def)

section \<open>Sending keeps the rest of the state\<close>

lemma send_host_Some:
  assumes "length body \<le> kMaximumPayload"
  obtains s' b where "send_host ch ty body s = Some s'" "encode_frame ty body = Some b" "transfer s' = transfer s" "fs s' = fs s"
    "play s' = play s" "sd_root s' = sd_root s"
    "fst (take_host_tx ch s') = fst (take_host_tx ch s) @ b"
proof -
  obtain b where "encode_frame ty body = Some b" using encode_frame_Some [OF assms] by blast
  then show thesis
    by (cases ch) (auto intro: that simp: send_host_def take_host_tx_def)
qed

lemma set_transfer_simps [simp]:
  "transfer (set_transfer ft s) = ft" "fs (set_transfer ft s) = fs s" "play (set_transfer ft s) = play s"
  "sd_root (set_transfer ft s) = sd_root s"
  "fst (take_host_tx ch (set_transfer ft s)) = fst (take_host_tx ch s)"
  by (simp_all add: set_transfer_def take_host_tx_def split: host_channel.splits)

lemma max_payload: "kMaximumPayload = 65532"
  by (simp add: kMaximumPayload_def kMinimumDataLength_def)

section \<open>Uploads\<close>

definition data_frame :: "u32 \<Rightarrow> string \<Rightarrow> frame" where
  "data_frame i chunk = \<lparr>frame_type = FileData, payload = be32 i @ chunk\<rparr>"

text \<open>The data frames of an upload, numbered from \<open>i\<close>, each sent one or more times.\<close>

fun data_frames :: "nat \<Rightarrow> (nat \<times> string) list \<Rightarrow> frame list" where
  "data_frames i [] = []"
| "data_frames i ((k, c) # cs) = replicate (Suc k) (data_frame (word_of_nat i) c) @ data_frames (Suc i) cs"

text \<open>An upload owned by \<open>ch\<close> that waits for data frame \<open>i\<close> of \<open>n\<close> and has written \<open>acc\<close>.\<close>

definition awaiting :: "host_channel \<Rightarrow> host_path \<Rightarrow> nat \<Rightarrow> nat \<Rightarrow> string \<Rightarrow> z1 \<Rightarrow> bool" where
  "awaiting ch p i n acc s \<longleftrightarrow>
     direction (transfer s) = Upload \<and> owner (transfer s) = ch \<and> stage (transfer s) = DataStage \<and>
     ft_path (transfer s) = p \<and> ft_sequence (transfer s) = word_of_nat i \<and> frame_count (transfer s) = word_of_nat n \<and>
     can_write (fs s) p \<and> read_file (fs s) p = acc \<and> length (ft_display_path (transfer s)) \<le> 65000"

lemma handle_all_append:
  "handle_all h (xs @ ys) s = (case handle_all h xs s of None \<Rightarrow> None | Some s \<Rightarrow> handle_all h ys s)"
  by (induction xs arbitrary: s) (auto split: option.splits)

lemma word_of_nat_inj: "i < 2 ^ 32 \<Longrightarrow> j < 2 ^ 32 \<Longrightarrow> (word_of_nat i :: u32) = word_of_nat j \<longleftrightarrow> i = j"
  by (simp add: word_of_nat_eq_iff take_bit_nat_eq_self)

text \<open>A frame that was already accepted changes nothing.\<close>

lemma stale_data_ignored:
  assumes "awaiting ch p (Suc i) n acc s" and "Suc i < 2 ^ 32"
  shows "handle_all (handle_file_transfer md5 ch) (replicate k (data_frame (word_of_nat i) c)) s = Some s"
proof -
  have "(word_of_nat i :: u32) \<noteq> word_of_nat (Suc i)" using assms(2) by (simp only: word_of_nat_inj)
  then have "handle_file_transfer md5 ch (data_frame (word_of_nat i) c) s = Some s"
    using assms(1) by (simp add: handle_file_transfer_def handle_upload_def data_frame_def awaiting_def)
  then show ?thesis by (induction k) simp_all
qed

lemma no_transfer_ignored:
  assumes "direction (transfer s) = NoTransfer"
  shows "handle_all (handle_file_transfer md5 ch) (replicate k (data_frame i c)) s = Some s"
proof -
  have "handle_file_transfer md5 ch (data_frame i c) s = Some s"
    using assms by (simp add: handle_file_transfer_def data_frame_def)
  then show ?thesis by (induction k) simp_all
qed

lemma accept_data:
  assumes await: "awaiting ch p i n acc s" and "i < n" "n < 2 ^ 32"
  shows "\<exists>s'. handle_file_transfer md5 ch (data_frame (word_of_nat i) c) s = Some s' \<and> awaiting ch p (Suc i) n (acc @ c) s'"
proof -
  let ?ft = "(transfer s)\<lparr>ft_sequence := word_of_nat i + 1, last_reply_payload := be32 (word_of_nat i + 1)\<rparr>"
  let ?g = "fs_put p (File (acc @ c)) (fs s)"
  have w: "p \<noteq> []" "write_append p c (fs s) = Some ?g"
    using await by (auto simp: awaiting_def write_append_def can_write_def)
  have "\<not> (word_of_nat n :: u32) \<le> word_of_nat i"
    using assms(2,3) by (simp add: word_le_nat_alt unsigned_of_nat take_bit_eq_mod)
  then have eq: "handle_file_transfer md5 ch (data_frame (word_of_nat i) c) s =
      send_host ch FileData (be32 (word_of_nat i + 1)) (set_transfer ?ft (s\<lparr>fs := ?g\<rparr>))"
    using await w by (simp add: handle_file_transfer_def handle_upload_def data_frame_def awaiting_def Let_def)
  obtain s' b where s': "send_host ch FileData (be32 (word_of_nat i + 1)) (set_transfer ?ft (s\<lparr>fs := ?g\<rparr>)) = Some s'"
    "transfer s' = ?ft" "fs s' = ?g"
    by (rule send_host_Some [of "be32 (word_of_nat i + 1)" ch FileData "set_transfer ?ft (s\<lparr>fs := ?g\<rparr>)"])
      (simp_all add: max_payload)
  have "awaiting ch p (Suc i) n (acc @ c) s'"
    using await w(1) can_write_put [of "fs s" p] by (simp add: awaiting_def s'(2,3) add.commute)
  then show ?thesis using eq s'(1) by auto
qed

lemma accept_last:
  assumes await: "awaiting ch p n n acc s" and "n < 2 ^ 32"
  shows "\<exists>s'. handle_file_transfer md5 ch (data_frame (word_of_nat n) c) s = Some s' \<and>
    read_file (fs s') p = acc @ c \<and> transfer s' = no_transfer"
proof -
  let ?g = "fs_put p (File (acc @ c)) (fs s)" and ?ok = "''ok'' @ crlf"
  let ?info = "''Info: upload success: '' @ ft_display_path (transfer s) @ ''.'' @ crlf"
  have w: "p \<noteq> []" "write_append p c (fs s) = Some ?g"
    using await by (auto simp: awaiting_def write_append_def can_write_def)
  obtain s1 where s1: "send_host ch FileEnd ?ok (s\<lparr>fs := ?g\<rparr>) = Some s1" "fs s1 = ?g"
    by (rule send_host_Some [of ?ok ch FileEnd "s\<lparr>fs := ?g\<rparr>"]) (simp_all add: max_payload)
  obtain s2 where s2: "send_host ch NormalInfo ?info s1 = Some s2" "fs s2 = ?g"
    by (rule send_host_Some [of ?info ch NormalInfo s1]) (use await s1(2) in \<open>simp_all add: max_payload awaiting_def\<close>)
  have "handle_file_transfer md5 ch (data_frame (word_of_nat n) c) s = Some (set_transfer no_transfer s2)"
    using await w s1(1) s2(1)
    by (simp add: handle_file_transfer_def handle_upload_def data_frame_def awaiting_def Let_def)
  then show ?thesis using s2(2) w(1) by simp
qed

lemma accept_all:
  "awaiting ch p i n acc s \<Longrightarrow> cs \<noteq> [] \<Longrightarrow> i + length cs = Suc n \<Longrightarrow> n < 2 ^ 32 - 1 \<Longrightarrow>
   \<exists>s'. handle_all (handle_file_transfer md5 ch) (data_frames i cs) s = Some s' \<and>
     read_file (fs s') p = acc @ concat (map snd cs) \<and> transfer s' = no_transfer"
proof (induction cs arbitrary: i acc s)
  case (Cons kc cs)
  obtain k c where kc: "kc = (k, c)" by (cases kc)
  show ?case
  proof (cases cs)
    case Nil
    then have "i = n" using Cons.prems(3) by simp
    with accept_last [of ch p n acc s md5 c] Cons.prems(1,4) obtain s' where
      s': "handle_file_transfer md5 ch (data_frame (word_of_nat n) c) s = Some s'"
        "read_file (fs s') p = acc @ c" "transfer s' = no_transfer" by auto
    have "direction (transfer s') = NoTransfer" by (simp add: s'(3) no_transfer_def)
    from no_transfer_ignored [OF this] s' \<open>i = n\<close> Nil show ?thesis
      by (simp add: kc)
  next
    case (Cons d ds)
    then have "i < n" using Cons.prems(3) by simp
    with accept_data [OF Cons.prems(1)] Cons.prems(4) obtain s' where
      s': "handle_file_transfer md5 ch (data_frame (word_of_nat i) c) s = Some s'" "awaiting ch p (Suc i) n (acc @ c) s'"
      by force
    have "Suc i < 2 ^ 32" using \<open>i < n\<close> Cons.prems(4) by simp
    from stale_data_ignored [OF s'(2) this] s'(1)
    have "handle_all (handle_file_transfer md5 ch) (replicate (Suc k) (data_frame (word_of_nat i) c)) s = Some s'"
      by simp
    then show ?thesis
      using Cons.IH [OF s'(2)] Cons.prems(3,4) Cons by (simp add: kc handle_all_append del: replicate.simps)
  qed
qed simp

text \<open>The frames before the data: start, checksum and layout.\<close>

definition upload_frames :: "string \<Rightarrow> string \<Rightarrow> (nat \<times> string) list \<Rightarrow> frame list" where
  "upload_frames name md5text cs =
     \<lparr>frame_type = FileStart, payload = ''upload '' @ name\<rparr> # \<lparr>frame_type = FileMd5, payload = md5text\<rparr> #
     \<lparr>frame_type = FileView, payload = be32 (word_of_nat (length cs))\<rparr> # data_frames 1 cs"

text \<open>The file system when \<open>start_upload\<close> opens its target.\<close>

definition upload_dirs :: "host_path \<Rightarrow> host_path option \<Rightarrow> host_fs \<Rightarrow> host_fs" where
  "upload_dirs p m f =
     (let f = create_directories (butlast p) f in case m of Some m \<Rightarrow> create_directories (butlast m) f | None \<Rightarrow> f)"

lemma upload_started:
  assumes name: "display = decode_argument ('' '' @ name)" "display \<noteq> []" "length display \<le> 60000"
    and p: "resolve_sd_path (sd_root s) display = Some p"
    and m: "m = md5_sidecar (sd_root s) (card_display display)"
    and ok: "can_write (upload_dirs p m (fs s)) p"
  shows "\<exists>s'. handle_file_transfer md5 ch \<lparr>frame_type = FileStart, payload = ''upload '' @ name\<rparr> s = Some s' \<and>
    direction (transfer s') = Upload \<and> owner (transfer s') = ch \<and> stage (transfer s') = Md5Stage \<and>
    ft_path (transfer s') = p \<and> md5_path (transfer s') = m \<and> length (ft_display_path (transfer s')) \<le> 65000 \<and>
    fs s' = fs_put p (File []) (upload_dirs p m (fs s))"
proof -
  let ?g = "fs_put p (File []) (upload_dirs p m (fs s))"
  let ?ft = "no_transfer\<lparr>owner := ch, ft_path := p, ft_display_path := card_display display, md5_path := m,
      direction := Upload, stage := Md5Stage, last_reply_type := FileMd5, last_reply_payload := []\<rparr>"
  have w: "write_trunc p [] (upload_dirs p m (fs s)) = Some ?g" using ok by (simp add: write_trunc_def)
  obtain s' b where s': "send_host ch FileMd5 [] (set_transfer ?ft (s\<lparr>fs := ?g\<rparr>)) = Some s'" "transfer s' = ?ft" "fs s' = ?g"
    by (rule send_host_Some [of "[]" ch FileMd5 "set_transfer ?ft (s\<lparr>fs := ?g\<rparr>)"]) (simp_all add: max_payload)
  have "start_upload ch (no_transfer\<lparr>owner := ch, ft_path := p, ft_display_path := card_display display, md5_path := m\<rparr>) s =
      send_host ch FileMd5 [] (set_transfer ?ft (s\<lparr>fs := ?g\<rparr>))"
    using w by (simp add: start_upload_def upload_dirs_def Let_def)
  moreover have "handle_file_transfer md5 ch \<lparr>frame_type = FileStart, payload = ''upload '' @ name\<rparr> s =
      start_upload ch (no_transfer\<lparr>owner := ch, ft_path := p, ft_display_path := card_display display, md5_path := m\<rparr>) s"
    using p name(2) unfolding m
    by (simp add: handle_file_transfer_def start_file_transfer_def Let_def name(1))
  moreover have "length (card_display display) \<le> 65000" using name(3) by (simp add: card_display_def)
  ultimately show ?thesis using s' by (intro exI [of _ s']) simp
qed

lemma upload_prepared:
  assumes st: "direction (transfer s) = Upload" "owner (transfer s) = ch" "stage (transfer s) = Md5Stage"
    "ft_path (transfer s) = p" "md5_path (transfer s) = m" "length (ft_display_path (transfer s)) \<le> 65000"
    and f: "fs s = fs_put p (File []) g" "can_write g p" and m: "m \<noteq> Some p"
    and md5text: "length md5text = 32" and n: "n < 2 ^ 32 - 1"
  shows "\<exists>s'. handle_all (handle_file_transfer md5 ch)
      [\<lparr>frame_type = FileMd5, payload = md5text\<rparr>, \<lparr>frame_type = FileView, payload = be32 (word_of_nat n)\<rparr>] s = Some s' \<and>
    awaiting ch p 1 n [] s'"
proof -
  have p: "p \<noteq> []" using f(2) by (simp add: can_write_def)
  define h where "h = (case m of None \<Rightarrow> fs s | Some m \<Rightarrow> (case write_trunc m md5text (fs s) of Some g \<Rightarrow> g | None \<Rightarrow> fs s))"
  have h: "can_write h p \<and> read_file h p = []"
  proof (cases "\<exists>q. m = Some q \<and> can_write (fs s) q")
    case True
    then obtain q where q: "m = Some q" "can_write (fs s) q" by blast
    then have hq: "h = fs_put q (File md5text) (fs s)" and ne: "q \<noteq> []" "q \<noteq> p"
      using m by (auto simp: h_def write_trunc_def can_write_def)
    have "can_write (fs s) p" using can_write_put [OF f(2)] by (simp add: f(1))
    moreover have "butlast p \<noteq> q" using q(2) \<open>can_write (fs s) p\<close> by (auto simp: can_write_def)
    ultimately show ?thesis using ne p by (auto simp: hq can_write_def f(1))
  next
    case False
    then have "h = fs s" by (auto simp: h_def write_trunc_def split: option.splits)
    then show ?thesis using can_write_put [OF f(2)] p by (simp add: f(1))
  qed
  let ?ft1 = "(transfer s)\<lparr>ft_md5 := md5text, stage := LayoutStage, last_reply_type := FileView, last_reply_payload := []\<rparr>"
  let ?ft2 = "?ft1\<lparr>frame_count := word_of_nat n, ft_sequence := 1, stage := DataStage, last_reply_type := FileData,
      last_reply_payload := be32 1\<rparr>"
  obtain s1 where s1: "send_host ch FileView [] (set_transfer ?ft1 (s\<lparr>fs := h\<rparr>)) = Some s1" "transfer s1 = ?ft1" "fs s1 = h"
    by (rule send_host_Some [of "[]" ch FileView "set_transfer ?ft1 (s\<lparr>fs := h\<rparr>)"]) (simp_all add: max_payload)
  obtain s2 where s2: "send_host ch FileData (be32 1) (set_transfer ?ft2 s1) = Some s2" "transfer s2 = ?ft2" "fs s2 = h"
    by (rule send_host_Some [of "be32 1" ch FileData "set_transfer ?ft2 s1"]) (simp_all add: max_payload s1(3))
  have step1: "handle_file_transfer md5 ch \<lparr>frame_type = FileMd5, payload = md5text\<rparr> s = Some s1"
    using st md5text s1(1) by (simp add: handle_file_transfer_def handle_upload_def reply_and_send_def Let_def h_def)
  have "read_be32 (be32 (word_of_nat n)) 0 = word_of_nat n"
    using read_be32_be32 [of "word_of_nat n" "[]"] by simp
  then have step2: "handle_file_transfer md5 ch \<lparr>frame_type = FileView, payload = be32 (word_of_nat n)\<rparr> s1 = Some s2"
    using st s2(1) by (simp add: handle_file_transfer_def handle_upload_def reply_and_send_def Let_def s1(2))
  have "awaiting ch p 1 n [] s2" using st h by (simp add: awaiting_def s2(2,3))
  then show ?thesis using step1 step2 by simp
qed

text \<open>
  C10: an upload of any number of chunks, with any data frame sent more than once, leaves exactly the
  concatenation of the chunks in the file the name resolves to and closes the transfer.
\<close>

theorem upload_writes_file:
  assumes display: "display = decode_argument ('' '' @ name)" "display \<noteq> []" "length display \<le> 60000"
    and p: "resolve_sd_path (sd_root s) display = Some p"
    and m: "m = md5_sidecar (sd_root s) (card_display display)" "m \<noteq> Some p"
    and ok: "can_write (upload_dirs p m (fs s)) p"
    and md5text: "length md5text = 32" and cs: "cs \<noteq> []" "length cs < 2 ^ 32 - 1"
  shows "\<exists>s'. handle_all (handle_file_transfer md5 ch) (upload_frames name md5text cs) s = Some s' \<and>
    read_file (fs s') p = concat (map snd cs) \<and> transfer s' = no_transfer"
proof -
  from upload_started [OF display p m(1) ok, of md5 ch] obtain s1 where
    s1: "handle_file_transfer md5 ch \<lparr>frame_type = FileStart, payload = ''upload '' @ name\<rparr> s = Some s1"
    and st: "direction (transfer s1) = Upload" "owner (transfer s1) = ch" "stage (transfer s1) = Md5Stage"
      "ft_path (transfer s1) = p" "md5_path (transfer s1) = m" "length (ft_display_path (transfer s1)) \<le> 65000"
      "fs s1 = fs_put p (File []) (upload_dirs p m (fs s))" by blast
  from upload_prepared [OF st(1-7) ok m(2) md5text cs(2), of md5] obtain s2 where
    s2: "handle_all (handle_file_transfer md5 ch)
      [\<lparr>frame_type = FileMd5, payload = md5text\<rparr>, \<lparr>frame_type = FileView, payload = be32 (word_of_nat (length cs))\<rparr>] s1 = Some s2"
    "awaiting ch p 1 (length cs) [] s2" by blast
  from accept_all [OF s2(2) cs(1) _ cs(2), of md5] obtain s3 where
    s3: "handle_all (handle_file_transfer md5 ch) (data_frames 1 cs) s2 = Some s3"
    "read_file (fs s3) p = concat (map snd cs)" "transfer s3 = no_transfer" by auto
  have "upload_frames name md5text cs =
      [\<lparr>frame_type = FileStart, payload = ''upload '' @ name\<rparr>] @
      [\<lparr>frame_type = FileMd5, payload = md5text\<rparr>, \<lparr>frame_type = FileView, payload = be32 (word_of_nat (length cs))\<rparr>] @
      data_frames 1 cs"
    by (simp add: upload_frames_def)
  then have "handle_all (handle_file_transfer md5 ch) (upload_frames name md5text cs) s = Some s3"
    using s1 s2(1) s3(1) by (simp only: handle_all_append) simp
  then show ?thesis using s3(2,3) by blast
qed

theorem upload_writes_file_witness:
  "\<exists>s'. handle_all (handle_file_transfer (\<lambda>_. []) Tcp)
      (upload_frames ''/sd/gcodes/a.nc'' (replicate 32 (CHR ''0'')) [(0, ''G0 X1''), (2, ''G1 Y2'')])
      (new_z1 [''card''] [([''card''], Dir)]) = Some s' \<and>
    read_file (fs s') [''card'', ''gcodes'', ''a.nc''] = ''G0 X1G1 Y2''"
proof -
  let ?s = "new_z1 [''card''] [([''card''], Dir)]"
  let ?m = "md5_sidecar (sd_root ?s) (card_display ''/sd/gcodes/a.nc'')"
  have d: "''/sd/gcodes/a.nc'' = decode_argument ('' '' @ ''/sd/gcodes/a.nc'')" by code_simp
  have p: "resolve_sd_path (sd_root ?s) ''/sd/gcodes/a.nc'' = Some [''card'', ''gcodes'', ''a.nc'']" by code_simp
  have m: "?m \<noteq> Some [''card'', ''gcodes'', ''a.nc'']" by code_simp
  have w: "can_write (upload_dirs [''card'', ''gcodes'', ''a.nc''] ?m (fs ?s)) [''card'', ''gcodes'', ''a.nc'']" by code_simp
  from upload_writes_file [OF d _ _ p refl m w, of "replicate 32 (CHR ''0'')" "[(0, ''G0 X1''), (2, ''G1 Y2'')]" "\<lambda>_. []" Tcp]
  show ?thesis by auto
qed

section \<open>Paths\<close>

lemma clean_fold:
  "\<forall>c \<in> set cs. CHR ''/'' \<notin> set c \<Longrightarrow> \<forall>n \<in> set (snd clean). plain_name n \<Longrightarrow>
   fst (fold clean_step cs clean) = fst clean \<and> (\<forall>n \<in> set (snd (fold clean_step cs clean)). plain_name n)"
proof (induction cs arbitrary: clean)
  case (Cons c cs)
  have "fst (clean_step c clean) = fst clean \<and> (\<forall>n \<in> set (snd (clean_step c clean)). plain_name n)"
    using Cons.prems by (auto simp: clean_step_def plain_name_def dest: in_set_butlastD)
  with Cons.IH [of "clean_step c clean"] Cons.prems show ?case by simp
qed simp



text \<open>
  the two ways out of the card: a second slash after \<^verbatim>\<open>/sd/\<close> makes the path absolute on the host,
  whatever the root is, and the checksum file of an upload follows \<^verbatim>\<open>..\<close> although its target does not.
\<close>

theorem resolve_escapes:
  "(decode_argument encoded = ''/sd//'' @ rest \<longrightarrow> resolve_sd_path root encoded = resolve_sd_path root' encoded) \<and>
   (plain_name name \<longrightarrow> md5_sidecar root (''/sd/../../'' @ name) = Some (butlast root @ [name]))"
proof (intro conjI impI)
  assume d: "decode_argument encoded = ''/sd//'' @ rest"
  have "fst (fold clean_step cs (True, ns))" for cs ns
    by (induction cs arbitrary: ns) (simp_all add: clean_step_def)
  then have "fst (fold clean_step (path_iter (CHR ''/'' # rest)) (False, []))"
    by (subst path_iter_absolute) (simp add: clean_step_def)
  then show "resolve_sd_path root encoded = resolve_sd_path root' encoded"
    using d by (simp add: resolve_sd_path_def Let_def split_beta)
next
  assume n: "plain_name name"
  have "last name \<noteq> CHR ''/''" using n by (metis last_in_set plain_name_def)
  with n have "path_iter (''../../'' @ name) = [''..'', ''..'', name]"
    by (auto simp: path_iter_def plain_name_def Let_def split_slash_plain last_append split: if_splits)
  then show "md5_sidecar root (''/sd/../../'' @ name) = Some (butlast root @ [name])"
    using n by (auto simp: md5_sidecar_def os_path_def os_step_def plain_name_def)
qed

theorem resolve_escapes_witness:
  "resolve_sd_path [''card''] ''/sd//etc/passwd'' = resolve_sd_path [''srv'', ''card''] ''/sd//etc/passwd'' \<and>
   md5_sidecar [''srv'', ''card''] ''/sd/../../x'' = Some [''srv'', ''x'']"
proof -
  have "decode_argument ''/sd//etc/passwd'' = ''/sd//'' @ ''etc/passwd''" "plain_name ''x''" by code_simp+
  with resolve_escapes [of "''/sd//etc/passwd''" "''etc/passwd''" "[''card'']" "[''srv'', ''card'']" "''x''"]
    resolve_escapes [of "''/sd//etc/passwd''" "''etc/passwd''" "[''srv'', ''card'']" "[]" "''x''"]
  show ?thesis by simp
qed

section \<open>Downloads\<close>

lemma blocks_concat:
  "0 < b \<Longrightarrow> concat (map (\<lambda>i. take b (drop (i * b) xs)) [0..<(length xs + b - 1) div b]) = xs"
proof -
  assume b: "0 < b"
  have prefix: "concat (map (\<lambda>i. take b (drop (i * b) xs)) [0..<n]) = take (n * b) xs" for n
  proof (induction n)
    case (Suc n)
    then show ?case by (simp add: take_add [symmetric] add.commute)
  qed simp
  have "length xs \<le> (length xs + b - 1) div b * b"
  proof -
    have "length xs + b - 1 = (length xs + b - 1) div b * b + (length xs + b - 1) mod b" by simp
    moreover have "(length xs + b - 1) mod b < b" using b by simp
    ultimately show ?thesis by linarith
  qed
  then show ?thesis by (simp add: prefix)
qed

lemma block_index: "i < (n + 8191) div 8192 \<Longrightarrow> i * 8192 < (n :: nat)"
  by linarith



section \<open>Streaming G-code\<close>

lemma play_fill_spec:
  "play_fill limit reply count ls = (reply', count') \<Longrightarrow> length reply \<le> 518 \<Longrightarrow> count \<le> limit \<Longrightarrow>
   \<exists>k \<le> length ls. reply' = reply @ concat (take k ls) \<and> length reply' \<le> 518 \<and> count + k \<le> limit \<and>
     (count' = count + k \<or> Suc count' = count + k) \<and>
     (ls \<noteq> [] \<longrightarrow> count < limit \<longrightarrow> length reply + length (hd ls) \<le> 518 \<longrightarrow> 1 \<le> k)"
proof (induction limit reply count ls rule: play_fill.induct)
  case (2 limit reply count l ls)
  consider "\<not> count < limit" | "count < limit" "length reply + length l > 518"
    | "count < limit" "length reply + length l \<le> 518" "6 + 512 - length (reply @ l) < 74"
    | "count < limit" "length reply + length l \<le> 518" "\<not> 6 + 512 - length (reply @ l) < 74" by linarith
  then show ?case
  proof cases
    case 3
    then have "play_fill limit reply count (l # ls) = (reply @ l, count)" by simp
    with 2(2) 3 show ?thesis by (intro exI [of _ 1]) auto
  next
    case 4
    then have "play_fill limit (reply @ l) (count + 1) ls = (reply', count')" using 2(2) by simp
    with 2(1) 4 obtain k where "k \<le> length ls" "reply' = (reply @ l) @ concat (take k ls)" "length reply' \<le> 518"
      "count + 1 + k \<le> limit" "count' = count + 1 + k \<or> Suc count' = count + 1 + k" by auto
    then show ?thesis by (intro exI [of _ "Suc k"]) auto
  qed (use 2 in \<open>auto intro!: exI [of _ 0]\<close>)
qed (auto intro!: exI [of _ 0])

lemma send_lpc_Some:
  assumes "length body \<le> kMaximumPayload"
  obtains b where "encode_frame ty body = Some b" "send_lpc ty body s = Some (s\<lparr>lpc_tx := lpc_tx s @ b\<rparr>)"
  using encode_frame_Some [OF assms, of ty] by (auto simp: send_lpc_def)

text \<open>The request the motion board makes for the lines from \<open>r\<close> on.\<close>

definition play_request :: "u16 \<Rightarrow> u32 \<Rightarrow> string \<Rightarrow> frame" where
  "play_request ident r extra = \<lparr>frame_type = PlayData, payload = be16 ident @ be32 r @ extra\<rparr>"

lemma read_be32_at_2: "read_be32 (be16 w @ be32 r @ xs) 2 = r"
proof -
  have "read_be32 (be16 w @ be32 r @ xs) 2 = read_be32 (be32 r @ xs) 0"
    by (simp add: read_be32_def be16_def nth_append nth_Cons numeral_2_eq_2 split: nat.splits)
  then show ?thesis by simp
qed



end
