(* ===== verification/M8266_Wifi.thy ===== *)
theory M8266_Wifi
  imports Byte_Queue
begin

text \<open>
  \<^verbatim>\<open>src/protocol/m8266_wifi.cpp\<close>: the M8266 Wi-Fi module, one TCP server link and one UDP link, and the driver
  functions (\<^verbatim>\<open>M8266WIFI_SPI_...\<close>) the firmware calls on it.  A driver function returns its result and the
  values it writes through its pointers; a null pointer only drops the value.  The names of the
  parameter types come from the firmware's header, which is not part of the repository: they are
  constructors here.
\<close>

section \<open>State\<close>

record access_point =
  ap_ssid :: string
  ap_password :: string
  ap_rssi :: int
  ap_authmode :: u8

datatype ap_param_type = AP_SSID | AP_PASSWORD | AP_CHANNEL | AP_AUTHMODE | AP_IP_ADDR | AP_GATEWAY_ADDR
  | AP_NETMASK_ADDR | AP_PHY_MODE | AP_OTHER nat

datatype sta_param_type = STA_SSID | STA_PASSWORD | STA_HOSTNAME | STA_IP_ADDR | STA_GATEWAY_ADDR | STA_NETMASK_ADDR
  | STA_CHANNEL | STA_MAC | STA_OTHER nat

record wifi =
  tcp_link_no :: u8
  udp_link_no :: u8
  tcp_server_port :: u16
  udp_listen_port :: u16
  tcp_client_connected :: bool
  op_mode :: u8
  sta_connected :: bool
  sta_ssid :: string
  sta_password :: string
  sta_ip :: string
  sta_netmask :: string
  sta_gateway :: string
  sta_hostname :: string
  own_ssid :: string
  own_password :: string
  own_channel :: u8
  own_authmode :: u8
  own_phy_mode :: u8
  own_ip :: string
  own_netmask :: string
  own_gateway :: string
  tcp_rx :: "u8 list"
  wifi_tcp_tx :: "u8 list"
  udp_tx :: "u8 list list"
  scanned_access_points :: "access_point list"

definition status_ok :: u16 where "status_ok = 0"
definition status_no_data :: u16 where "status_no_data = 0x22"
definition status_no_client :: u16 where "status_no_client = 0x18"

definition fresh_wifi :: wifi where
  "fresh_wifi =
     \<lparr>tcp_link_no = 0, udp_link_no = 1, tcp_server_port = 0, udp_listen_port = 0, tcp_client_connected = False,
      op_mode = 3, sta_connected = True, sta_ssid = ''CarveraDev'', sta_password = [], sta_ip = ''127.0.0.1'',
      sta_netmask = ''255.0.0.0'', sta_gateway = ''127.0.0.1'', sta_hostname = ''CARVERA_SIM'', own_ssid = ''CARVERA_SIM'',
      own_password = [], own_channel = 6, own_authmode = 0, own_phy_mode = 3, own_ip = ''192.168.4.10'',
      own_netmask = ''255.255.255.0'', own_gateway = ''192.168.4.10'', tcp_rx = [], wifi_tcp_tx = [], udp_tx = [],
      scanned_access_points =
        [\<lparr>ap_ssid = ''CarveraDev'', ap_password = [], ap_rssi = -42, ap_authmode = 0\<rparr>,
         \<lparr>ap_ssid = ''Workshop'', ap_password = ''password'', ap_rssi = -61, ap_authmode = 4\<rparr>]\<rparr>"

section \<open>The module\<close>

definition wifi_reset :: "wifi \<Rightarrow> wifi" where
  "wifi_reset w =
     w\<lparr>tcp_link_no := 0, udp_link_no := 1, tcp_server_port := 0, udp_listen_port := 0, tcp_client_connected := False,
       op_mode := 3, sta_connected := True, tcp_rx := [], wifi_tcp_tx := [], udp_tx := []\<rparr>"

definition connect_tcp_client :: "wifi \<Rightarrow> wifi" where
  "connect_tcp_client w = w\<lparr>tcp_client_connected := True\<rparr>"

definition disconnect_tcp_client :: "wifi \<Rightarrow> wifi" where
  "disconnect_tcp_client w = w\<lparr>tcp_client_connected := False\<rparr>"

definition receive_tcp :: "u8 list \<Rightarrow> wifi \<Rightarrow> wifi" where
  "receive_tcp bytes w = w\<lparr>tcp_rx := tcp_rx w @ bytes\<rparr>"

definition take_tcp_tx :: "wifi \<Rightarrow> u8 list \<times> wifi" where
  "take_tcp_tx w = (wifi_tcp_tx w, w\<lparr>wifi_tcp_tx := []\<rparr>)"

definition take_udp_tx_datagrams :: "wifi \<Rightarrow> u8 list list \<times> wifi" where
  "take_udp_tx_datagrams w = (udp_tx w, w\<lparr>udp_tx := []\<rparr>)"

definition has_received_data :: "wifi \<Rightarrow> bool" where
  "has_received_data w \<longleftrightarrow> tcp_rx w \<noteq> []"

text \<open>\<^verbatim>\<open>recv_data\<close>: the bytes stored through \<^verbatim>\<open>data\<close> (their number is the result), the link number and the status.\<close>

definition recv_data :: "u16 \<Rightarrow> wifi \<Rightarrow> (u8 list \<times> u8 \<times> u16) \<times> wifi" where
  "recv_data max_len w =
     (if tcp_rx w = [] then (([], tcp_link_no w, status_no_data), w)
      else let count = min (unat max_len) (length (tcp_rx w))
           in ((take count (tcp_rx w), tcp_link_no w, status_ok), w\<lparr>tcp_rx := drop count (tcp_rx w)\<rparr>))"

definition send_tcp :: "u8 list \<Rightarrow> u8 \<Rightarrow> wifi \<Rightarrow> (nat \<times> u16) \<times> wifi" where
  "send_tcp data link w =
     (if link \<noteq> tcp_link_no w \<or> \<not> tcp_client_connected w then ((0, status_no_client), w)
      else ((length data, status_ok), w\<lparr>wifi_tcp_tx := wifi_tcp_tx w @ data\<rparr>))"

definition send_udp :: "u8 list \<Rightarrow> u8 \<Rightarrow> wifi \<Rightarrow> (nat \<times> u16) \<times> wifi" where
  "send_udp data link w =
     (if link \<noteq> udp_link_no w then ((0, status_no_data), w)
      else ((length data, status_ok), w\<lparr>udp_tx := udp_tx w @ [data]\<rparr>))"

definition set_connection :: "u8 \<Rightarrow> u16 \<Rightarrow> u8 \<Rightarrow> wifi \<Rightarrow> wifi" where
  "set_connection tcp_udp local_port link w =
     (if tcp_udp = 2 then w\<lparr>tcp_link_no := link, tcp_server_port := local_port\<rparr>
      else if tcp_udp = 0 then w\<lparr>udp_link_no := link, udp_listen_port := local_port\<rparr> else w)"

definition delete_connection :: "u8 \<Rightarrow> wifi \<Rightarrow> wifi" where
  "delete_connection link w =
     (if link = tcp_link_no w
      then w\<lparr>tcp_client_connected := False, tcp_server_port := 0, tcp_rx := [], wifi_tcp_tx := []\<rparr>
      else if link = udp_link_no w then w\<lparr>udp_listen_port := 0, udp_tx := []\<rparr> else w)"

definition set_ap_param :: "ap_param_type \<Rightarrow> u8 list \<Rightarrow> wifi \<Rightarrow> wifi" where
  "set_ap_param t data w =
     (case t of
        AP_SSID \<Rightarrow> w\<lparr>own_ssid := map chr_of data\<rparr>
      | AP_PASSWORD \<Rightarrow> w\<lparr>own_password := map chr_of data\<rparr>
      | AP_CHANNEL \<Rightarrow> w\<lparr>own_channel := (if data = [] then 0 else hd data)\<rparr>
      | AP_AUTHMODE \<Rightarrow> w\<lparr>own_authmode := (if data = [] then 0 else hd data)\<rparr>
      | _ \<Rightarrow> w)"

definition ap_param :: "ap_param_type \<Rightarrow> wifi \<Rightarrow> string" where
  "ap_param t w =
     (case t of
        AP_SSID \<Rightarrow> own_ssid w | AP_PASSWORD \<Rightarrow> own_password w | AP_IP_ADDR \<Rightarrow> own_ip w
      | AP_GATEWAY_ADDR \<Rightarrow> own_gateway w | AP_NETMASK_ADDR \<Rightarrow> own_netmask w
      | AP_CHANNEL \<Rightarrow> [chr_of (own_channel w)] | AP_AUTHMODE \<Rightarrow> [chr_of (own_authmode w)]
      | AP_PHY_MODE \<Rightarrow> [chr_of (own_phy_mode w)] | AP_OTHER n \<Rightarrow> [])"

definition sta_param :: "sta_param_type \<Rightarrow> wifi \<Rightarrow> string" where
  "sta_param t w =
     (case t of
        STA_SSID \<Rightarrow> sta_ssid w | STA_PASSWORD \<Rightarrow> sta_password w | STA_HOSTNAME \<Rightarrow> sta_hostname w
      | STA_IP_ADDR \<Rightarrow> sta_ip w | STA_GATEWAY_ADDR \<Rightarrow> sta_gateway w | STA_NETMASK_ADDR \<Rightarrow> sta_netmask w
      | STA_CHANNEL \<Rightarrow> [CHR 0x06]
      | STA_MAC \<Rightarrow> [CHR 0x02, CHR 0x00, CHR 0x00, CHR 0x00, CHR 0x00, CHR 0x01]
      | STA_OTHER n \<Rightarrow> [])"

definition connect_sta :: "string \<Rightarrow> string \<Rightarrow> wifi \<Rightarrow> wifi" where
  "connect_sta ssid password w = w\<lparr>sta_ssid := ssid, sta_password := password, sta_connected := True\<rparr>"

definition disconnect_sta :: "wifi \<Rightarrow> wifi" where
  "disconnect_sta w = w\<lparr>sta_connected := False\<rparr>"

definition sta_connection_status :: "wifi \<Rightarrow> u8" where
  "sta_connection_status w = (if sta_connected w then 5 else 0)"

definition sta_rssi :: "wifi \<Rightarrow> int" where
  "sta_rssi w =
     (if \<not> sta_connected w then 31
      else case find (\<lambda>ap. ap_ssid ap = sta_ssid w) (scanned_access_points w) of Some ap \<Rightarrow> ap_rssi ap | None \<Rightarrow> -40)"

section \<open>The driver functions\<close>

text \<open>A string parameter is copied with its length, at most 63 characters.\<close>

definition copy_string_param :: "string \<Rightarrow> string \<times> u8" where
  "copy_string_param v = (take (min (length v) 63) v, word_of_nat (min (length v) 63))"

text \<open>\<^verbatim>\<open>c_str\<close>: what the firmware's byte buffer holds up to its terminator.\<close>

definition c_string :: "u8 list \<Rightarrow> string" where
  "c_string data = map chr_of (takeWhile (\<lambda>b. b \<noteq> 0) data)"

definition SPI_Select :: "wifi \<Rightarrow> (u8 \<times> u16) \<times> wifi" where
  "SPI_Select w = ((1, status_ok), wifi_reset w)"

definition Interface_Communication_OK :: "u8 \<times> u8" where
  "Interface_Communication_OK = (1, 0x41)"

definition Interface_Communication_Stress_Test :: "u32 \<Rightarrow> u32" where
  "Interface_Communication_Stress_Test max_times = max_times"

definition Set_Tx_Max_Power :: "u8 \<times> u16" where
  "Set_Tx_Max_Power = (1, status_ok)"

definition Setup_Connection :: "u8 \<Rightarrow> u16 \<Rightarrow> u8 \<Rightarrow> wifi \<Rightarrow> (u8 \<times> u16) \<times> wifi" where
  "Setup_Connection tcp_udp local_port link w = ((1, status_ok), set_connection tcp_udp local_port link w)"

definition Delete_Connection :: "u8 \<Rightarrow> wifi \<Rightarrow> (u8 \<times> u16) \<times> wifi" where
  "Delete_Connection link w = ((1, status_ok), delete_connection link w)"

definition Disconnect_Connection :: "u8 \<Rightarrow> wifi \<Rightarrow> (u8 \<times> u16) \<times> wifi" where
  "Disconnect_Connection link w = Delete_Connection link w"

definition List_Clients_On_A_TCP_Server :: "wifi \<Rightarrow> u8 \<times> u8 \<times> u16" where
  "List_Clients_On_A_TCP_Server w = (1, if tcp_client_connected w then 1 else 0, status_ok)"

definition Get_STA_Connection_Status :: "wifi \<Rightarrow> u8 \<times> u8 \<times> u16" where
  "Get_STA_Connection_Status w = (1, sta_connection_status w, status_ok)"

definition Query_AP_Param :: "ap_param_type \<Rightarrow> wifi \<Rightarrow> u8 \<times> (string \<times> u8) \<times> u16" where
  "Query_AP_Param t w = (1, copy_string_param (ap_param t w), status_ok)"

definition Query_STA_Param :: "sta_param_type \<Rightarrow> wifi \<Rightarrow> u8 \<times> (string \<times> u8) \<times> u16" where
  "Query_STA_Param t w = (1, copy_string_param (sta_param t w), status_ok)"

definition Config_AP_Param :: "ap_param_type \<Rightarrow> u8 list \<Rightarrow> wifi \<Rightarrow> (u8 \<times> u16) \<times> wifi" where
  "Config_AP_Param t data w = ((1, status_ok), set_ap_param t data w)"

definition Get_Opmode :: "wifi \<Rightarrow> u8 \<times> u8 \<times> u16" where
  "Get_Opmode w = (1, op_mode w, status_ok)"

definition Set_Opmode :: "u8 \<Rightarrow> wifi \<Rightarrow> (u8 \<times> u16) \<times> wifi" where
  "Set_Opmode mode w = ((1, status_ok), w\<lparr>op_mode := mode\<rparr>)"

definition STA_Connect_Ap :: "u8 list \<Rightarrow> u8 list \<Rightarrow> wifi \<Rightarrow> (u8 \<times> u16) \<times> wifi" where
  "STA_Connect_Ap ssid password w = ((1, status_ok), connect_sta (c_string ssid) (c_string password) w)"

definition STA_DisConnect_Ap :: "wifi \<Rightarrow> (u8 \<times> u16) \<times> wifi" where
  "STA_DisConnect_Ap w = ((1, status_ok), disconnect_sta w)"

definition Get_STA_IP_Addr :: "wifi \<Rightarrow> u8 \<times> string \<times> u16" where
  "Get_STA_IP_Addr w = (1, sta_param STA_IP_ADDR w, status_ok)"

text \<open>The result, the SSID buffer (untouched when not connected), the signal strength and the status.\<close>

definition STA_Query_Current_SSID_And_RSSI :: "wifi \<Rightarrow> u8 \<times> string option \<times> int \<times> u16" where
  "STA_Query_Current_SSID_And_RSSI w =
     (if sta_connection_status w = 0 then (0, None, 31, 0x0100)
      else (1, Some (take 31 (sta_ssid w)), sta_rssi w, status_ok))"

text \<open>The signals are copied with the SSID cut to the firmware's buffer of \<open>ssid_size\<close> bytes.\<close>

definition STA_Fetch_Last_Scanned_Signals :: "nat \<Rightarrow> u8 \<Rightarrow> wifi \<Rightarrow> u8 \<times> (string \<times> int \<times> u8) list \<times> u16" where
  "STA_Fetch_Last_Scanned_Signals ssid_size max_signals w =
     (let count = min (unat max_signals) (length (scanned_access_points w))
      in (word_of_nat count,
          map (\<lambda>ap. (take (ssid_size - 1) (ap_ssid ap), ap_rssi ap, ap_authmode ap)) (take count (scanned_access_points w)),
          status_ok))"

definition Has_DataReceived :: "wifi \<Rightarrow> u8" where
  "Has_DataReceived w = (if has_received_data w then 1 else 0)"

text \<open>Waiting for data that is not there advances the virtual clock (in microseconds).\<close>

definition RecvData :: "u16 \<Rightarrow> u16 \<Rightarrow> u64 \<times> wifi \<Rightarrow> (u8 list \<times> u8 \<times> u16) \<times> u64 \<times> wifi" where
  "RecvData max_len max_wait_in_ms cw =
     (let (result, w) = recv_data max_len (snd cw);
          waited = (if fst result = [] \<and> max_wait_in_ms \<noteq> 0 then ucast max_wait_in_ms * 1000 else 0)
      in (result, fst cw + waited, w))"

definition Send_Data :: "u8 list \<Rightarrow> u8 \<Rightarrow> wifi \<Rightarrow> (u16 \<times> u16) \<times> wifi" where
  "Send_Data data link w = (case send_tcp data link w of ((n, status), w) \<Rightarrow> ((word_of_nat n, status), w))"

definition Send_BlockData :: "u8 list \<Rightarrow> u8 \<Rightarrow> wifi \<Rightarrow> (u32 \<times> u16) \<times> wifi" where
  "Send_BlockData data link w = (case send_tcp data link w of ((n, status), w) \<Rightarrow> ((word_of_nat n, status), w))"

definition Send_Udp_Data :: "u8 list \<Rightarrow> u8 \<Rightarrow> wifi \<Rightarrow> (u16 \<times> u16) \<times> wifi" where
  "Send_Udp_Data data link w = (case send_udp data link w of ((n, status), w) \<Rightarrow> ((word_of_nat n, status), w))"

definition Query_Connection :: "u8 \<Rightarrow> wifi \<Rightarrow> u8 \<times> (u8 \<times> u8 \<times> u16) \<times> u16" where
  "Query_Connection link w =
     (1, (if link = tcp_link_no w then 2 else 0, if tcp_client_connected w then 1 else 0,
          if link = tcp_link_no w then tcp_server_port w else udp_listen_port w), status_ok)"

definition Get_Module_Info :: "u8 \<times> u32 \<times> u8 \<times> string \<times> u16" where
  "Get_Module_Info = (1, 0x82660001, 4, ''sim-m8266'', status_ok)"

definition Get_Driver_Info :: string where
  "Get_Driver_Info = ''sim-m8266-driver''"

section \<open>Properties\<close>

definition read_bytes :: "u16 \<Rightarrow> wifi \<Rightarrow> u8 list \<times> wifi" where
  "read_bytes max_len w = (case recv_data max_len w of ((data, link, status), w) \<Rightarrow> (data, w))"

interpretation wifi_rx: fifo_queue receive_tcp read_bytes unat tcp_rx
  by unfold_locales (auto simp: receive_tcp_def read_bytes_def recv_data_def Let_def min_def)

interpretation wifi_input: chunked_input receive_tcp
  by unfold_locales (simp add: receive_tcp_def)

text \<open>The bytes the firmware has read, and the module, after one event of the link.\<close>

definition wifi_event :: "(u8, u16) queue_event \<Rightarrow> u8 list \<times> wifi \<Rightarrow> u8 list \<times> wifi" where
  "wifi_event e = (\<lambda>(got, w). case e of
      Put bytes \<Rightarrow> (got, receive_tcp bytes w)
    | Take n \<Rightarrow> (case recv_data n w of ((data, link, status), w) \<Rightarrow> (got @ data, w)))"

lemma wifi_event_step: "wifi_event = wifi_rx.step"
proof (intro ext)
  fix e and gw :: "u8 list \<times> wifi"
  show "wifi_event e gw = wifi_rx.step e gw"
    by (cases gw; cases e) (auto simp: wifi_event_def wifi_rx.step_def read_bytes_def split: prod.splits)
qed

text \<open>
  However TCP bytes arrive and however the firmware reads them, what it has read followed by what is
  still waiting is what was waiting before followed by what arrived: nothing is lost, repeated or
  reordered, and a read never returns more than it was asked for.
\<close>

theorem wifi_receives_in_order:
  "fst (fold wifi_event es ([], w)) @ tcp_rx (snd (fold wifi_event es ([], w))) = tcp_rx w @ put_items es \<and>
   length (fst (fst (recv_data n w))) \<le> unat n"
  using wifi_rx.run_conserves [of es "[]" w] by (auto simp: wifi_event_step recv_data_def Let_def)

text \<open>
  an access-point parameter that was configured reads back as configured, up to 63 characters for the
  two names and as its first byte for channel and mode, and every other parameter is as before.
\<close>

theorem ap_param_roundtrip:
  assumes "t \<in> {AP_SSID, AP_PASSWORD, AP_CHANNEL, AP_AUTHMODE}" and "data \<noteq> []"
  shows "fst (snd (Query_AP_Param t (snd (Config_AP_Param t data w)))) =
      (let v = (if t \<in> {AP_SSID, AP_PASSWORD} then take 63 data else [hd data]) in (map chr_of v, word_of_nat (length v))) \<and>
    (u \<noteq> t \<longrightarrow> Query_AP_Param u (snd (Config_AP_Param t data w)) = Query_AP_Param u w) \<and>
    Query_STA_Param v (snd (Config_AP_Param t data w)) = Query_STA_Param v w"
proof -
  have "take (min (length data) 63) data = take 63 data" by (cases "length data \<le> 63") simp_all
  then have "fst (snd (Query_AP_Param t (snd (Config_AP_Param t data w)))) =
      (let v = (if t \<in> {AP_SSID, AP_PASSWORD} then take 63 data else [hd data]) in (map chr_of v, word_of_nat (length v)))"
    using assms by (auto simp: Query_AP_Param_def Config_AP_Param_def ap_param_def set_ap_param_def copy_string_param_def
        take_map min.commute Let_def)
  moreover have "u \<noteq> t \<longrightarrow> Query_AP_Param u (snd (Config_AP_Param t data w)) = Query_AP_Param u w"
    using assms(1) by (cases u) (auto simp: Query_AP_Param_def Config_AP_Param_def ap_param_def set_ap_param_def)
  moreover have "Query_STA_Param v (snd (Config_AP_Param t data w)) = Query_STA_Param v w"
    using assms(1) by (cases v) (auto simp: Query_STA_Param_def Config_AP_Param_def sta_param_def set_ap_param_def)
  ultimately show ?thesis by blast
qed

theorem ap_param_roundtrip_witness:
  "fst (snd (Query_AP_Param AP_CHANNEL (snd (Config_AP_Param AP_CHANNEL [11] fresh_wifi)))) = ([chr_of 11], 1)"
  using ap_param_roundtrip [of AP_CHANNEL "[11]" fresh_wifi] by (simp add: Let_def)

end
