(* ===== verification/Lpc1768.thy ===== *)
theory Lpc1768
  imports Sim_Prelude
begin

text \<open>
  The microcontroller's registers: \<^verbatim>\<open>include/LPC17xx.h\<close>, \<^verbatim>\<open>include/sim/lpc1768.hpp\<close> and
  \<^verbatim>\<open>src/core/lpc1768_sim.cpp\<close>.  Registers are words of their width; a family of numbered registers
  is a list.  A write to a GPIO set or clear register also yields the level changes the code
  reports to the stepper axes.
\<close>

section \<open>Registers\<close>

type_synonym irq = int

abbreviation (input) PendSV_IRQn :: irq where "PendSV_IRQn \<equiv> -2"
abbreviation (input) WDT_IRQn :: irq where "WDT_IRQn \<equiv> 0"
abbreviation (input) TIMER0_IRQn :: irq where "TIMER0_IRQn \<equiv> 1"
abbreviation (input) TIMER1_IRQn :: irq where "TIMER1_IRQn \<equiv> 2"
abbreviation (input) TIMER2_IRQn :: irq where "TIMER2_IRQn \<equiv> 3"
abbreviation (input) TIMER3_IRQn :: irq where "TIMER3_IRQn \<equiv> 4"
abbreviation (input) ADC_IRQn :: irq where "ADC_IRQn \<equiv> 22"

record lpc_sc =
  PCONP :: u32
  PCLKSEL0 :: u32
  PCLKSEL1 :: u32
  PLL0CFG :: u32
  CCLKCFG :: u32

record lpc_tim =
  IR :: u32
  TCR :: u32
  TC :: u32
  PR :: u32
  PC :: u32
  MCR :: u32
  MR0 :: u32
  MR1 :: u32
  MR2 :: u32
  MR3 :: u32

record lpc_gpio =
  FIOMASK :: u32
  FIOPIN :: u32
  FIODIR :: u32
  FIOSET :: u32
  FIOCLR :: u32

record lpc_pincon =
  PINSEL :: "u32 list"
  PINMODE :: "u32 list"
  PINMODE_OD :: "u32 list"

record lpc_adc =
  ADCR :: u32
  ADGDR :: u32
  ADINTEN :: u32
  ADDR :: "u32 list"
  ADSTAT :: u32
  ADTRM :: u32

record lpc_wdt =
  WDMOD :: u8
  WDTC :: u32
  WDFEED :: u8
  WDTV :: u32
  WDCLKSEL :: u32

record nvic =
  enabled_irqs :: "bool list"
  priorities :: "u32 list"
  global_irq_enabled :: bool
  priority_grouping :: u32

record lpc1768 =
  SystemCoreClock :: u32
  sc :: lpc_sc
  timers :: "lpc_tim list"
  gpio :: "lpc_gpio list"
  pincon :: lpc_pincon
  adc :: lpc_adc
  watchdog :: lpc_wdt
  the_nvic :: nvic

section \<open>Interrupt enables and priorities\<close>

definition irq_slots :: nat where "irq_slots = 64"

definition irq_valid :: "irq \<Rightarrow> bool" where
  "irq_valid irq \<longleftrightarrow> 0 \<le> irq + 16 \<and> nat (irq + 16) < irq_slots"

definition irq_index :: "irq \<Rightarrow> nat" where
  "irq_index irq = nat (irq + 16)"

definition nvic_reset :: nvic where
  "nvic_reset =
     \<lparr>enabled_irqs = replicate irq_slots False, priorities = replicate irq_slots 0, global_irq_enabled = True,
      priority_grouping = 0\<rparr>"

definition nvic_enable :: "irq \<Rightarrow> nvic \<Rightarrow> nvic" where
  "nvic_enable irq n = (if irq_valid irq then n\<lparr>enabled_irqs := (enabled_irqs n)[irq_index irq := True]\<rparr> else n)"

definition nvic_disable :: "irq \<Rightarrow> nvic \<Rightarrow> nvic" where
  "nvic_disable irq n = (if irq_valid irq then n\<lparr>enabled_irqs := (enabled_irqs n)[irq_index irq := False]\<rparr> else n)"

definition nvic_enabled :: "irq \<Rightarrow> nvic \<Rightarrow> bool" where
  "nvic_enabled irq n \<longleftrightarrow> irq_valid irq \<and> enabled_irqs n ! irq_index irq"

definition nvic_set_priority :: "irq \<Rightarrow> u32 \<Rightarrow> nvic \<Rightarrow> nvic" where
  "nvic_set_priority irq p n = (if irq_valid irq then n\<lparr>priorities := (priorities n)[irq_index irq := p]\<rparr> else n)"

definition nvic_priority :: "irq \<Rightarrow> nvic \<Rightarrow> u32" where
  "nvic_priority irq n = (if irq_valid irq then priorities n ! irq_index irq else 0)"

definition set_priority_grouping :: "u32 \<Rightarrow> nvic \<Rightarrow> nvic" where
  "set_priority_grouping g n = n\<lparr>priority_grouping := g\<rparr>"

definition disable_global_irq :: "nvic \<Rightarrow> nvic" where
  "disable_global_irq n = n\<lparr>global_irq_enabled := False\<rparr>"

definition enable_global_irq :: "nvic \<Rightarrow> nvic" where
  "enable_global_irq n = n\<lparr>global_irq_enabled := True\<rparr>"

section \<open>Timers\<close>

text \<open>Writing the control register with its reset bit clears the counters.\<close>

definition write_TCR :: "u32 \<Rightarrow> lpc_tim \<Rightarrow> lpc_tim" where
  "write_TCR bits t = (let t = t\<lparr>TCR := bits\<rparr> in if bits AND 2 \<noteq> 0 then t\<lparr>TC := 0, PC := 0\<rparr> else t)"

definition or_TCR :: "u32 \<Rightarrow> lpc_tim \<Rightarrow> lpc_tim" where
  "or_TCR bits t = write_TCR (TCR t OR bits) t"

section \<open>GPIO\<close>

text \<open>\<^verbatim>\<open>notify_gpio_changes\<close>: the pins whose level differs, in ascending order, with their new level.\<close>

definition gpio_changes :: "u32 \<Rightarrow> u32 \<Rightarrow> (nat \<times> bool) list" where
  "gpio_changes previous current =
     (let changed = previous XOR current
      in map (\<lambda>pin. (pin, bit current pin)) (filter (\<lambda>pin. bit changed pin) [0..<32]))"

definition gpio_apply :: "bool \<Rightarrow> u32 \<Rightarrow> lpc_gpio \<Rightarrow> (nat \<times> bool) list \<times> lpc_gpio" where
  "gpio_apply sets_bits bits g =
     (let driven = bits AND FIODIR g;
          pins = (if sets_bits then FIOPIN g OR driven else FIOPIN g AND NOT driven)
      in (gpio_changes (FIOPIN g) pins, g\<lparr>FIOPIN := pins\<rparr>))"

text \<open>\<^verbatim>\<open>FIOSET = bits\<close>, \<^verbatim>\<open>FIOSET |= bits\<close> and the same for \<^verbatim>\<open>FIOCLR\<close>.\<close>

definition write_FIOSET :: "u32 \<Rightarrow> lpc_gpio \<Rightarrow> (nat \<times> bool) list \<times> lpc_gpio" where
  "write_FIOSET bits g = gpio_apply True bits (g\<lparr>FIOSET := bits\<rparr>)"

definition or_FIOSET :: "u32 \<Rightarrow> lpc_gpio \<Rightarrow> (nat \<times> bool) list \<times> lpc_gpio" where
  "or_FIOSET bits g = gpio_apply True bits (g\<lparr>FIOSET := FIOSET g OR bits\<rparr>)"

definition write_FIOCLR :: "u32 \<Rightarrow> lpc_gpio \<Rightarrow> (nat \<times> bool) list \<times> lpc_gpio" where
  "write_FIOCLR bits g = gpio_apply False bits (g\<lparr>FIOCLR := bits\<rparr>)"

definition or_FIOCLR :: "u32 \<Rightarrow> lpc_gpio \<Rightarrow> (nat \<times> bool) list \<times> lpc_gpio" where
  "or_FIOCLR bits g = gpio_apply False bits (g\<lparr>FIOCLR := FIOCLR g OR bits\<rparr>)"

definition gpio_block_reset :: "lpc_gpio list" where
  "gpio_block_reset = replicate 5 \<lparr>FIOMASK = 0, FIOPIN = 0, FIODIR = 0, FIOSET = 0, FIOCLR = 0\<rparr>"

text \<open>\<^verbatim>\<open>GpioBlock::find\<close>: an operation on a port, if there is such a port.\<close>

definition on_port :: "u8 \<Rightarrow> (lpc_gpio \<Rightarrow> (nat \<times> bool) list \<times> lpc_gpio) \<Rightarrow> lpc1768 \<Rightarrow> (nat \<times> nat \<times> bool) list \<times> lpc1768" where
  "on_port port f m =
     (if unat port < length (gpio m)
      then let (changes, g) = f (gpio m ! unat port)
           in (map (\<lambda>(pin, level). (unat port, pin, level)) changes, m\<lparr>gpio := (gpio m)[unat port := g]\<rparr>)
      else ([], m))"

definition FIO_SetDir :: "u8 \<Rightarrow> u32 \<Rightarrow> u8 \<Rightarrow> lpc1768 \<Rightarrow> (nat \<times> nat \<times> bool) list \<times> lpc1768" where
  "FIO_SetDir port bits dir =
     on_port port (\<lambda>g. ([], g\<lparr>FIODIR := (if dir \<noteq> 0 then FIODIR g OR bits else FIODIR g AND NOT bits)\<rparr>))"

definition FIO_SetValue :: "u8 \<Rightarrow> u32 \<Rightarrow> lpc1768 \<Rightarrow> (nat \<times> nat \<times> bool) list \<times> lpc1768" where
  "FIO_SetValue port bits = on_port port (or_FIOSET bits)"

definition FIO_ClearValue :: "u8 \<Rightarrow> u32 \<Rightarrow> lpc1768 \<Rightarrow> (nat \<times> nat \<times> bool) list \<times> lpc1768" where
  "FIO_ClearValue port bits = on_port port (or_FIOCLR bits)"

definition FIO_ReadValue :: "u8 \<Rightarrow> lpc1768 \<Rightarrow> u32" where
  "FIO_ReadValue port m = (if unat port < length (gpio m) then FIOPIN (gpio m ! unat port) else 0)"

section \<open>Pin functions\<close>

definition write_two_bit_pin_field :: "nat \<Rightarrow> u8 \<Rightarrow> u32 \<Rightarrow> u32" where
  "write_two_bit_pin_field pin v reg =
     (let shift = (pin mod 16) * 2; mask = push_bit shift 3
      in (reg AND NOT mask) OR push_bit shift (ucast (v AND 3)))"

definition update_nth :: "nat \<Rightarrow> ('a \<Rightarrow> 'a) \<Rightarrow> 'a list \<Rightarrow> 'a list" where
  "update_nth i f xs = (if i < length xs then xs[i := f (xs ! i)] else xs)"

record pinsel_cfg =
  Portnum :: u8
  Pinnum :: u8
  Funcnum :: u8
  Pinmode :: u8
  OpenDrain :: u8

definition PINSEL_ConfigPin :: "pinsel_cfg \<Rightarrow> lpc_pincon \<Rightarrow> lpc_pincon" where
  "PINSEL_ConfigPin cfg p =
     (if Portnum cfg > 4 \<or> Pinnum cfg > 31 then p
      else let bank = unat (Portnum cfg) * 2 + unat (Pinnum cfg) div 16;
               mask = push_bit (unat (Pinnum cfg)) 1
           in p\<lparr>PINSEL := update_nth bank (write_two_bit_pin_field (unat (Pinnum cfg)) (Funcnum cfg)) (PINSEL p),
                PINMODE := update_nth bank (write_two_bit_pin_field (unat (Pinnum cfg)) (Pinmode cfg)) (PINMODE p),
                PINMODE_OD := update_nth (unat (Portnum cfg))
                  (\<lambda>reg. if OpenDrain cfg = 1 then reg OR mask else reg AND NOT mask) (PINMODE_OD p)\<rparr>)"

section \<open>Watchdog registers\<close>

definition WDEN :: u8 where "WDEN = 1"
definition WDRESET :: u8 where "WDRESET = 2"
definition WDTOF :: u8 where "WDTOF = 4"
definition WDINT :: u8 where "WDINT = 8"

definition WDT_Init :: "u32 \<Rightarrow> bool \<Rightarrow> lpc_wdt \<Rightarrow> lpc_wdt" where
  "WDT_Init clk_src mode_reset w =
     w\<lparr>WDCLKSEL := clk_src, WDMOD := (if mode_reset then WDMOD w OR WDRESET else WDMOD w AND NOT WDRESET)\<rparr>"

definition WDT_Feed :: "lpc_wdt \<Rightarrow> lpc_wdt" where
  "WDT_Feed w = w\<lparr>WDFEED := 0x55, WDTV := WDTC w, WDMOD := WDMOD w AND NOT WDINT\<rparr>"

definition WDT_Start :: "u32 \<Rightarrow> lpc_wdt \<Rightarrow> lpc_wdt" where
  "WDT_Start timeout w = WDT_Feed (w\<lparr>WDTC := timeout, WDTV := timeout, WDMOD := WDMOD w OR WDEN\<rparr>)"

definition WDT_UpdateTimeOut :: "u32 \<Rightarrow> lpc_wdt \<Rightarrow> lpc_wdt" where
  "WDT_UpdateTimeOut timeout w = WDT_Feed (w\<lparr>WDTC := timeout\<rparr>)"

definition WDT_ReadTimeOutFlag :: "lpc_wdt \<Rightarrow> bool" where
  "WDT_ReadTimeOutFlag w \<longleftrightarrow> WDMOD w AND WDTOF \<noteq> 0"

definition WDT_ClrTimeOutFlag :: "lpc_wdt \<Rightarrow> lpc_wdt" where
  "WDT_ClrTimeOutFlag w = w\<lparr>WDMOD := WDMOD w AND NOT WDTOF\<rparr>"

definition WDT_GetCurrentCount :: "lpc_wdt \<Rightarrow> u32" where
  "WDT_GetCurrentCount w = WDTV w"

section \<open>Reset\<close>

definition fresh_timer :: lpc_tim where
  "fresh_timer = \<lparr>IR = 0, TCR = 0, TC = 0, PR = 0, PC = 0, MCR = 0, MR0 = 0, MR1 = 0, MR2 = 0, MR3 = 0\<rparr>"

definition lpc_reset :: lpc1768 where
  "lpc_reset =
     \<lparr>SystemCoreClock = 100000000, sc = \<lparr>PCONP = 0, PCLKSEL0 = 0, PCLKSEL1 = 0, PLL0CFG = 0, CCLKCFG = 0\<rparr>,
      timers = replicate 4 fresh_timer, gpio = gpio_block_reset,
      pincon = \<lparr>PINSEL = replicate 11 0, PINMODE = replicate 10 0, PINMODE_OD = replicate 5 0\<rparr>,
      adc = \<lparr>ADCR = 0, ADGDR = 0, ADINTEN = 0, ADDR = replicate 8 0, ADSTAT = 0, ADTRM = 0\<rparr>,
      watchdog = \<lparr>WDMOD = 0, WDTC = 0, WDFEED = 0, WDTV = 0, WDCLKSEL = 0\<rparr>, the_nvic = nvic_reset\<rparr>"

section \<open>Properties\<close>

lemma gpio_change_iff:
  "(pin, level) \<in> set (gpio_changes a b) \<longleftrightarrow> pin < 32 \<and> bit a pin \<noteq> bit b pin \<and> level = bit b pin"
  by (auto simp: gpio_changes_def Let_def bit_simps)

text \<open>
  A write to a port's set or clear register moves exactly the pins it names that are outputs, and
  reports exactly the pins whose level changed, each once in ascending order with its new level; a
  second identical write reports nothing.
\<close>

theorem gpio_write_correct:
  assumes "unat port < length (gpio m)"
    and "r = (if level then FIO_SetValue port bits m else FIO_ClearValue port bits m)"
  shows "(\<forall>pin < 32. bit (FIO_ReadValue port (snd r)) pin =
      (if bit bits pin \<and> bit (FIODIR (gpio m ! unat port)) pin then level else bit (FIO_ReadValue port m) pin)) \<and>
    (\<forall>pin. (unat port, pin, level) \<in> set (fst r) \<longleftrightarrow>
       pin < 32 \<and> bit (FIO_ReadValue port m) pin \<noteq> bit (FIO_ReadValue port (snd r)) pin) \<and>
    sorted_wrt (<) (map (fst \<circ> snd) (fst r)) \<and>
    fst (if level then FIO_SetValue port bits (snd r) else FIO_ClearValue port bits (snd r)) = []"
proof -
  let ?g = "gpio m ! unat port"
  let ?pins = "if level then FIOPIN ?g OR (bits AND FIODIR ?g) else FIOPIN ?g AND NOT (bits AND FIODIR ?g)"
  have r: "fst r = map (\<lambda>(pin, level). (unat port, pin, level)) (gpio_changes (FIOPIN ?g) ?pins)"
    "FIOPIN (gpio (snd r) ! unat port) = ?pins" "FIODIR (gpio (snd r) ! unat port) = FIODIR ?g"
    "length (gpio (snd r)) = length (gpio m)"
    using assms by (simp_all add: FIO_SetValue_def FIO_ClearValue_def or_FIOSET_def or_FIOCLR_def gpio_apply_def Let_def on_port_def)
  have bits: "bit ?pins pin = (if bit bits pin \<and> bit (FIODIR ?g) pin then level else bit (FIOPIN ?g) pin)" if "pin < 32" for pin
    using that by (auto simp: bit_simps)
  have "sorted_wrt (<) (map fst (gpio_changes a b))" for a b :: u32
    by (simp add: gpio_changes_def Let_def comp_def sorted_wrt_filter strict_sorted_equal)
  moreover have "map (fst \<circ> snd) (fst r) = map fst (gpio_changes (FIOPIN ?g) ?pins)"
    unfolding r(1) by (simp add: split_beta comp_def)
  moreover have "gpio_changes ?pins (if level then ?pins OR (bits AND FIODIR ?g) else ?pins AND NOT (bits AND FIODIR ?g)) = []"
  proof -
    have "(if level then ?pins OR (bits AND FIODIR ?g) else ?pins AND NOT (bits AND FIODIR ?g)) = ?pins"
      by (rule bit_word_eqI) (auto simp: bit_simps)
    then show ?thesis by (simp only:) (simp add: gpio_changes_def)
  qed
  then have "fst (if level then FIO_SetValue port bits (snd r) else FIO_ClearValue port bits (snd r)) = []"
    using assms(1) r(2-4) by (auto simp: FIO_SetValue_def FIO_ClearValue_def or_FIOSET_def or_FIOCLR_def gpio_apply_def Let_def on_port_def)
  moreover have "(unat port, pin, level) \<in> set (fst r) \<longleftrightarrow>
       pin < 32 \<and> bit (FIO_ReadValue port m) pin \<noteq> bit (FIO_ReadValue port (snd r)) pin" for pin
    using assms(1) r(2,4) bits by (auto simp: r(1) image_iff gpio_change_iff FIO_ReadValue_def split: if_splits)
  ultimately show ?thesis
    using assms(1) r(2,4) bits by (simp add: FIO_ReadValue_def)
qed

theorem gpio_write_correct_witness:
  "(0, 4, True) \<in> set (fst (FIO_SetValue 0 0x30 (snd (FIO_SetDir 0 0x10 1 lpc_reset)))) \<and>
   (0, 5, True) \<notin> set (fst (FIO_SetValue 0 0x30 (snd (FIO_SetDir 0 0x10 1 lpc_reset))))"
proof -
  let ?m = "snd (FIO_SetDir 0 0x10 1 lpc_reset)"
  have p: "unat (0 :: u8) < length (gpio ?m)" by code_simp
  have "bit (FIO_ReadValue 0 ?m) 4 \<noteq> bit (FIO_ReadValue 0 (snd (FIO_SetValue 0 0x30 ?m))) 4"
    and "bit (FIO_ReadValue 0 ?m) 5 = bit (FIO_ReadValue 0 (snd (FIO_SetValue 0 0x30 ?m))) 5" by code_simp+
  then show ?thesis using gpio_write_correct [OF p, of "FIO_SetValue 0 0x30 ?m" True "0x30"] by simp
qed

text \<open>The two bits of pin \<open>pin\<close> in a select or mode register.\<close>

definition pin_field :: "nat \<Rightarrow> u32 \<Rightarrow> u32" where
  "pin_field pin reg = drop_bit ((pin mod 16) * 2) reg AND 3"

lemma three_mask: "(3 :: u32) = mask 2" "(3 :: u8) = mask 2"
  by (simp_all add: mask_eq_exp_minus_1)

lemma bit_write_field:
  assumes "n < 32"
  shows "bit (write_two_bit_pin_field pin v reg) n =
    (if (pin mod 16) * 2 \<le> n \<and> n < (pin mod 16) * 2 + 2 then bit v (n - (pin mod 16) * 2) else bit reg n)"
  using assms unfolding write_two_bit_pin_field_def Let_def three_mask
  by (auto simp: bit_simps dest: bit_imp_le_length)

lemma bit_pin_field: "bit (pin_field pin reg) n \<longleftrightarrow> n < 2 \<and> bit reg ((pin mod 16) * 2 + n)"
  unfolding pin_field_def three_mask by (auto simp: bit_simps)

lemma pin_field_write:
  "pin_field q (write_two_bit_pin_field p v reg) = (if q mod 16 = p mod 16 then ucast v AND 3 else pin_field q reg)"
proof (rule bit_word_eqI)
  fix n assume "n < LENGTH(32)"
  show "bit (pin_field q (write_two_bit_pin_field p v reg)) n =
      bit (if q mod 16 = p mod 16 then ucast v AND 3 else pin_field q reg) n"
  proof (cases "n < 2")
    case True
    have lt: "q mod 16 * 2 + n < 32" using True mod_less_divisor [of 16 q] by linarith
    show ?thesis
    proof (cases "q mod 16 = p mod 16")
      case same: True
      have "bit (ucast v AND 3 :: u32) n \<longleftrightarrow> bit v n"
        using True unfolding three_mask by (auto simp: bit_simps)
      then show ?thesis
        using True lt bit_write_field [OF lt, of p v reg] by (simp add: bit_pin_field same)
    next
      case False
      then have "\<not> (p mod 16 * 2 \<le> q mod 16 * 2 + n \<and> q mod 16 * 2 + n < p mod 16 * 2 + 2)"
        using True by linarith
      then show ?thesis
        using True False bit_write_field [OF lt, of p v reg] by (simp only: bit_pin_field if_False)
    qed
  next
    case False
    then show ?thesis by (simp add: bit_pin_field three_mask bit_simps)
  qed
qed

lemma pin_field_update:
  assumes "bank < 10" "10 \<le> length xs"
  shows "pin_field pin (update_nth bank (write_two_bit_pin_field p v) xs ! b) =
    (if bank = b \<and> pin mod 16 = p mod 16 then ucast v AND 3 else pin_field pin (xs ! b))"
  using assms by (simp add: update_nth_def nth_list_update pin_field_write)

lemma same_pin:
  fixes port pin p' q' :: nat
  assumes "pin \<le> 31" "q' \<le> 31"
  shows "p' * 2 + q' div 16 = port * 2 + pin div 16 \<and> pin mod 16 = q' mod 16 \<longleftrightarrow> port = p' \<and> pin = q'"
proof
  assume eq: "p' * 2 + q' div 16 = port * 2 + pin div 16 \<and> pin mod 16 = q' mod 16"
  have "pin div 16 \<le> 1" "q' div 16 \<le> 1" using assms by linarith+
  with eq have port: "port = p'" by linarith
  with eq have "pin div 16 = q' div 16" by simp
  moreover have "pin mod 16 = q' mod 16" using eq by blast
  ultimately have "pin = q'" by (metis div_mult_mod_eq)
  with port show "port = p' \<and> pin = q'" by blast
qed simp

lemma PINSEL_ConfigPin_simp:
  assumes "Portnum cfg \<le> 4" and "Pinnum cfg \<le> 31"
  shows "PINSEL (PINSEL_ConfigPin cfg p) = update_nth (unat (Portnum cfg) * 2 + unat (Pinnum cfg) div 16)
      (write_two_bit_pin_field (unat (Pinnum cfg)) (Funcnum cfg)) (PINSEL p)"
    and "PINMODE (PINSEL_ConfigPin cfg p) = update_nth (unat (Portnum cfg) * 2 + unat (Pinnum cfg) div 16)
      (write_two_bit_pin_field (unat (Pinnum cfg)) (Pinmode cfg)) (PINMODE p)"
    and "PINMODE_OD (PINSEL_ConfigPin cfg p) = update_nth (unat (Portnum cfg))
      (\<lambda>reg. if OpenDrain cfg = 1 then reg OR push_bit (unat (Pinnum cfg)) 1
             else reg AND NOT (push_bit (unat (Pinnum cfg)) 1)) (PINMODE_OD p)"
proof -
  have "\<not> (Portnum cfg > 4 \<or> Pinnum cfg > 31)" using assms by (simp add: not_less)
  then show "PINSEL (PINSEL_ConfigPin cfg p) = update_nth (unat (Portnum cfg) * 2 + unat (Pinnum cfg) div 16)
      (write_two_bit_pin_field (unat (Pinnum cfg)) (Funcnum cfg)) (PINSEL p)"
    and "PINMODE (PINSEL_ConfigPin cfg p) = update_nth (unat (Portnum cfg) * 2 + unat (Pinnum cfg) div 16)
      (write_two_bit_pin_field (unat (Pinnum cfg)) (Pinmode cfg)) (PINMODE p)"
    and "PINMODE_OD (PINSEL_ConfigPin cfg p) = update_nth (unat (Portnum cfg))
      (\<lambda>reg. if OpenDrain cfg = 1 then reg OR push_bit (unat (Pinnum cfg)) 1
             else reg AND NOT (push_bit (unat (Pinnum cfg)) 1)) (PINMODE_OD p)"
    by (simp_all add: PINSEL_ConfigPin_def Let_def push_bit_of_1 [symmetric] del: de_Morgan_disj push_bit_of_1)
qed

lemma open_drain_bit:
  assumes "length ods = 5" "port \<le> 4" "p' \<le> 4" "pin \<le> 31" "q' \<le> 31"
  shows "bit (ods[p' := if od then ods ! p' OR push_bit q' (1 :: u32) else ods ! p' AND NOT (push_bit q' 1)] ! port) pin =
    (if port = p' \<and> pin = q' then od else bit (ods ! port) pin)"
  using assms by (auto simp: nth_list_update bit_simps)

text \<open>
  configuring a pin sets exactly its own function and mode fields to the two low bits of the request
  and its own open-drain bit; the fields of every other pin of every port keep their value.
\<close>

theorem pinsel_config_correct:
  assumes "Portnum cfg \<le> 4" and "Pinnum cfg \<le> 31"
    and "length (PINSEL p) = 11" and "length (PINMODE p) = 10" and "length (PINMODE_OD p) = 5"
    and "port \<le> 4" and "pin \<le> 31"
  shows "pin_field pin (PINSEL (PINSEL_ConfigPin cfg p) ! (port * 2 + pin div 16)) =
      (if port = unat (Portnum cfg) \<and> pin = unat (Pinnum cfg) then ucast (Funcnum cfg) AND 3
       else pin_field pin (PINSEL p ! (port * 2 + pin div 16))) \<and>
    pin_field pin (PINMODE (PINSEL_ConfigPin cfg p) ! (port * 2 + pin div 16)) =
      (if port = unat (Portnum cfg) \<and> pin = unat (Pinnum cfg) then ucast (Pinmode cfg) AND 3
       else pin_field pin (PINMODE p ! (port * 2 + pin div 16))) \<and>
    bit (PINMODE_OD (PINSEL_ConfigPin cfg p) ! port) pin =
      (if port = unat (Portnum cfg) \<and> pin = unat (Pinnum cfg) then OpenDrain cfg = 1 else bit (PINMODE_OD p ! port) pin)"
proof -
  have le: "unat (Portnum cfg) \<le> 4" "unat (Pinnum cfg) \<le> 31"
    using assms(1,2) by (simp_all add: word_le_nat_alt)
  define bank where "bank = unat (Portnum cfg) * 2 + unat (Pinnum cfg) div 16"
  have bank: "bank < 10" using le unfolding bank_def by linarith
  have same: "bank = port * 2 + pin div 16 \<and> pin mod 16 = unat (Pinnum cfg) mod 16 \<longleftrightarrow>
      port = unat (Portnum cfg) \<and> pin = unat (Pinnum cfg)"
    unfolding bank_def by (rule same_pin) (use le assms(7) in simp_all)
  note cfg = PINSEL_ConfigPin_simp [OF assms(1,2), of p, folded bank_def]
  have "bit (PINMODE_OD (PINSEL_ConfigPin cfg p) ! port) pin =
      (if port = unat (Portnum cfg) \<and> pin = unat (Pinnum cfg) then OpenDrain cfg = 1 else bit (PINMODE_OD p ! port) pin)"
    using assms(5-7) le by (simp add: cfg(3) update_nth_def open_drain_bit)
  then show ?thesis
    using bank assms(3,4) by (simp only: cfg(1,2) pin_field_update same)
qed

theorem pinsel_config_correct_witness:
  "pin_field 20 (PINSEL (PINSEL_ConfigPin \<lparr>Portnum = 1, Pinnum = 20, Funcnum = 2, Pinmode = 3, OpenDrain = 0\<rparr>
     (pincon lpc_reset)) ! 3) = 2"
proof -
  let ?cfg = "\<lparr>Portnum = 1, Pinnum = 20, Funcnum = 2, Pinmode = 3, OpenDrain = 0\<rparr>"
  have l: "length (PINSEL (pincon lpc_reset)) = 11" "length (PINMODE (pincon lpc_reset)) = 10"
    "length (PINMODE_OD (pincon lpc_reset)) = 5" by (simp_all add: lpc_reset_def)
  have "Portnum ?cfg \<le> 4" "Pinnum ?cfg \<le> 31" by simp_all
  from pinsel_config_correct [OF this l, of 1 20] show ?thesis by simp
qed

end
