(* ===== verification/Interrupt_Controller.thy ===== *)
theory Interrupt_Controller
  imports Lpc1768
begin

text \<open>
  The interrupt controller (\<^verbatim>\<open>src/core/interrupt_controller.cpp\<close>) and the state it shares with the
  timers: the registers, the virtual clock, the pending interrupts and the reset request.

  A pending interrupt carries a handler, a closure in the code; the two closures the code raises are
  the constructors of \<open>isr_handler\<close>.  The interrupt service routines of the firmware
  (\<^verbatim>\<open>TIMER0_IRQHandler\<close> and the others) are linked in from outside the repository: they are a
  parameter \<open>isr\<close>, a function on the whole state, whose own memory is the field \<open>firmware\<close>.  The loop
  \<^verbatim>\<open>while (dispatch_next()) {}\<close> need not end (a handler may raise again), so it is a partial function.
\<close>

section \<open>State\<close>

datatype isr_handler = Timer_Match nat | Watchdog_Timeout

record pending_interrupt =
  pirq :: irq
  psequence :: u64
  phandler :: isr_handler

record 'w sim =
  mcu :: lpc1768
  clock_us :: u64
  clock_cycle_remainder :: u64
  pending_irqs :: "pending_interrupt list"
  next_sequence :: u64
  reset_requested :: bool
  firmware :: 'w

type_synonym 'w isr = "irq \<Rightarrow> 'w sim \<Rightarrow> 'w sim"

definition set_timer :: "nat \<Rightarrow> lpc_tim \<Rightarrow> 'w sim \<Rightarrow> 'w sim" where
  "set_timer i t s = s\<lparr>mcu := (mcu s)\<lparr>timers := (timers (mcu s))[i := t]\<rparr>\<rparr>"

definition timer_at :: "nat \<Rightarrow> 'w sim \<Rightarrow> lpc_tim" where
  "timer_at i s = timers (mcu s) ! i"

section \<open>The controller\<close>

definition controller_reset :: "'w sim \<Rightarrow> 'w sim" where
  "controller_reset s = s\<lparr>pending_irqs := [], next_sequence := 0\<rparr>"

definition raise_irq :: "irq \<Rightarrow> isr_handler \<Rightarrow> 'w sim \<Rightarrow> 'w sim" where
  "raise_irq irq h s =
     s\<lparr>pending_irqs := pending_irqs s @ [\<lparr>pirq = irq, psequence = next_sequence s, phandler = h\<rparr>],
       next_sequence := next_sequence s + 1\<rparr>"

definition eligible :: "nvic \<Rightarrow> pending_interrupt \<Rightarrow> bool" where
  "eligible n p \<longleftrightarrow> global_irq_enabled n \<and> nvic_enabled (pirq p) n"

definition before :: "nvic \<Rightarrow> pending_interrupt \<Rightarrow> pending_interrupt \<Rightarrow> bool" where
  "before n p q \<longleftrightarrow>
     (let l = nvic_priority (pirq p) n; r = nvic_priority (pirq q) n
      in l < r \<or> (l = r \<and> psequence p < psequence q))"

text \<open>The loop of \<^verbatim>\<open>highest_priority_pending\<close>: \<open>i\<close> is the iterator's index, \<open>sel\<close> the choice so far.\<close>

fun select_pending :: "nvic \<Rightarrow> nat \<Rightarrow> (nat \<times> pending_interrupt) option \<Rightarrow> pending_interrupt list \<Rightarrow>
    (nat \<times> pending_interrupt) option" where
  "select_pending n i sel [] = sel"
| "select_pending n i sel (p # ps) =
     (if \<not> eligible n p then select_pending n (Suc i) sel ps
      else case sel of
        None \<Rightarrow> select_pending n (Suc i) (Some (i, p)) ps
      | Some (j, q) \<Rightarrow> select_pending n (Suc i) (if before n p q then Some (i, p) else sel) ps)"

definition highest_priority_pending :: "'w sim \<Rightarrow> (nat \<times> pending_interrupt) option" where
  "highest_priority_pending s = select_pending (the_nvic (mcu s)) 0 None (pending_irqs s)"

definition remove_nth :: "nat \<Rightarrow> 'a list \<Rightarrow> 'a list" where
  "remove_nth i xs = take i xs @ drop (Suc i) xs"

text \<open>\<^verbatim>\<open>call_handler\<close>: the firmware has routines for the timers 0 to 2.\<close>

definition irq_for_timer :: "nat \<Rightarrow> irq" where
  "irq_for_timer i =
     (if i = 0 then TIMER0_IRQn else if i = 1 then TIMER1_IRQn else if i = 2 then TIMER2_IRQn
      else if i = 3 then TIMER3_IRQn else WDT_IRQn)"

definition call_handler :: "'w isr \<Rightarrow> nat \<Rightarrow> 'w sim \<Rightarrow> 'w sim" where
  "call_handler isr i s = (if i \<le> 2 then isr (irq_for_timer i) s else s)"

text \<open>The closure of \<^verbatim>\<open>raise_match\<close>: the counter is put on the match, the routine runs, then the match
  control register says whether the timer restarts or stops.\<close>

definition timer_match_handler :: "'w isr \<Rightarrow> nat \<Rightarrow> 'w sim \<Rightarrow> 'w sim" where
  "timer_match_handler isr i s =
     (let s = set_timer i ((timer_at i s)\<lparr>TC := MR0 (timer_at i s)\<rparr>) s;
          s = call_handler isr i s;
          s = (if MCR (timer_at i s) AND 2 \<noteq> 0 then set_timer i ((timer_at i s)\<lparr>TC := 0\<rparr>) s else s)
      in if MCR (timer_at i s) AND 4 \<noteq> 0 then set_timer i (write_TCR 0 (timer_at i s)) s else s)"

definition run_handler :: "'w isr \<Rightarrow> isr_handler \<Rightarrow> 'w sim \<Rightarrow> 'w sim" where
  "run_handler isr h s = (case h of
     Timer_Match i \<Rightarrow> timer_match_handler isr i s
   | Watchdog_Timeout \<Rightarrow> isr WDT_IRQn s)"

definition dispatch_next :: "'w isr \<Rightarrow> 'w sim \<Rightarrow> 'w sim option" where
  "dispatch_next isr s = (case highest_priority_pending s of
     None \<Rightarrow> None
   | Some (i, p) \<Rightarrow> Some (run_handler isr (phandler p) (s\<lparr>pending_irqs := remove_nth i (pending_irqs s)\<rparr>)))"

partial_function (option) dispatch_all :: "'w isr \<Rightarrow> 'w sim \<Rightarrow> 'w sim option" where
  "dispatch_all isr s = (case dispatch_next isr s of None \<Rightarrow> Some s | Some s' \<Rightarrow> dispatch_all isr s')"

declare dispatch_all.simps [code]

section \<open>Properties\<close>

lemma length_remove_nth: "i < length xs \<Longrightarrow> length (remove_nth i xs) = length xs - 1"
  by (simp add: remove_nth_def)

lemma select_pending_None:
  "select_pending n i sel ps = None \<longleftrightarrow> sel = None \<and> (\<forall>p \<in> set ps. \<not> eligible n p)"
  by (induction n i sel ps rule: select_pending.induct) (auto split: option.splits)

text \<open>What the loop keeps: its choice is eligible and no eligible interrupt seen so far goes before it.\<close>

definition best_of :: "nvic \<Rightarrow> pending_interrupt list \<Rightarrow> nat \<times> pending_interrupt \<Rightarrow> bool" where
  "best_of n ps c \<longleftrightarrow> fst c < length ps \<and> ps ! fst c = snd c \<and> eligible n (snd c) \<and>
     (\<forall>q \<in> set ps. eligible n q \<longrightarrow> \<not> before n q (snd c))"

lemma before_trans: "\<not> before n p q \<Longrightarrow> before n r q \<Longrightarrow> \<not> before n p r"
  by (auto simp: before_def Let_def)

lemma before_irrefl [simp]: "\<not> before n p p"
  by (auto simp: before_def Let_def)

lemma select_pending_best:
  assumes "select_pending n (length seen) sel ps = Some c"
    and "sel = None \<Longrightarrow> \<forall>p \<in> set seen. \<not> eligible n p"
    and "\<And>c. sel = Some c \<Longrightarrow> best_of n seen c"
  shows "best_of n (seen @ ps) c"
  using assms
proof (induction ps arbitrary: seen sel)
  case (Cons p ps)
  have step: "best_of n ((seen @ [p]) @ ps) c" if "select_pending n (length (seen @ [p])) sel' ps = Some c"
    "sel' = None \<Longrightarrow> \<forall>p \<in> set (seen @ [p]). \<not> eligible n p" "\<And>c. sel' = Some c \<Longrightarrow> best_of n (seen @ [p]) c" for sel'
    by (rule Cons.IH [OF that]) 
  show ?case
  proof (cases "eligible n p")
    case False
    then show ?thesis
      using Cons.prems step [of sel] by (cases sel) (auto simp: best_of_def nth_append)
  next
    case True
    show ?thesis
    proof (cases sel)
      case None
      then show ?thesis
        using Cons.prems True step [of "Some (length seen, p)"] by (auto simp: best_of_def)
    next
      case (Some jq)
      obtain j q where jq: "jq = (j, q)" by (cases jq)
      have old: "best_of n seen (j, q)" using Cons.prems(3) Some jq by blast
      have best: "best_of n (seen @ [p]) (if before n p q then (length seen, p) else (j, q))"
        using old True by (auto simp: best_of_def nth_append dest: before_trans)
      show ?thesis
        using Cons.prems(1) Some jq True best step [of "if before n p q then Some (length seen, p) else sel"]
        by (cases "before n p q") simp_all
    qed
  qed
qed simp

lemma dispatch_next_None:
  "dispatch_next isr s = None \<longleftrightarrow> (\<forall>p \<in> set (pending_irqs s). \<not> eligible (the_nvic (mcu s)) p)"
proof -
  have "dispatch_next isr s = None \<longleftrightarrow> highest_priority_pending s = None"
    by (auto simp: dispatch_next_def split: option.splits)
  then show ?thesis by (simp add: highest_priority_pending_def select_pending_None)
qed

lemma dispatch_next_Some:
  assumes "dispatch_next isr s = Some s'"
  obtains before_p p after_p where "pending_irqs s = before_p @ p # after_p" "eligible (the_nvic (mcu s)) p"
    "\<And>q. q \<in> set (before_p @ after_p) \<Longrightarrow> eligible (the_nvic (mcu s)) q \<Longrightarrow> \<not> before (the_nvic (mcu s)) q p"
    "s' = run_handler isr (phandler p) (s\<lparr>pending_irqs := before_p @ after_p\<rparr>)"
proof -
  obtain i p where ip: "highest_priority_pending s = Some (i, p)"
    "s' = run_handler isr (phandler p) (s\<lparr>pending_irqs := remove_nth i (pending_irqs s)\<rparr>)"
    using assms by (auto simp: dispatch_next_def split: option.splits)
  have best: "best_of (the_nvic (mcu s)) (pending_irqs s) (i, p)"
    using select_pending_best [of _ "[]" None "pending_irqs s"] ip(1) by (simp add: highest_priority_pending_def)
  then have "i < length (pending_irqs s)" "pending_irqs s ! i = p" by (simp_all add: best_of_def)
  then have split: "pending_irqs s = take i (pending_irqs s) @ p # drop (Suc i) (pending_irqs s)"
    using id_take_nth_drop by metis
  show thesis
    by (rule that [OF split])
      (use best ip(2) in \<open>auto simp: best_of_def remove_nth_def dest: in_set_takeD in_set_dropD\<close>)
qed

text \<open>
  C19: the controller takes the pending interrupt that is enabled and has the smallest priority value,
  the earliest raised among equals; it removes exactly that one and runs its handler.  It takes none
  exactly when interrupts are off globally or no pending one is enabled.
\<close>

theorem dispatch_picks_highest_priority:
  "case dispatch_next isr s of
     None \<Rightarrow> \<forall>p \<in> set (pending_irqs s). \<not> eligible (the_nvic (mcu s)) p
   | Some s' \<Rightarrow> \<exists>before_p p after_p. pending_irqs s = before_p @ p # after_p \<and>
       eligible (the_nvic (mcu s)) p \<and>
       (\<forall>q \<in> set (before_p @ after_p). eligible (the_nvic (mcu s)) q \<longrightarrow>
         nvic_priority (pirq p) (the_nvic (mcu s)) < nvic_priority (pirq q) (the_nvic (mcu s)) \<or>
         nvic_priority (pirq p) (the_nvic (mcu s)) = nvic_priority (pirq q) (the_nvic (mcu s)) \<and>
           psequence p \<le> psequence q) \<and>
       s' = run_handler isr (phandler p) (s\<lparr>pending_irqs := before_p @ after_p\<rparr>)"
proof (cases "dispatch_next isr s")
  case None
  then show ?thesis by (simp add: dispatch_next_None [THEN iffD1])
next
  case (Some s')
  show ?thesis
    using Some
  proof (rule dispatch_next_Some)
    fix b p a
    assume pick: "pending_irqs s = b @ p # a" "eligible (the_nvic (mcu s)) p"
      "\<And>q. q \<in> set (b @ a) \<Longrightarrow> eligible (the_nvic (mcu s)) q \<Longrightarrow> \<not> before (the_nvic (mcu s)) q p"
      "s' = run_handler isr (phandler p) (s\<lparr>pending_irqs := b @ a\<rparr>)"
    have least: "nvic_priority (pirq p) (the_nvic (mcu s)) < nvic_priority (pirq q) (the_nvic (mcu s)) \<or>
         nvic_priority (pirq p) (the_nvic (mcu s)) = nvic_priority (pirq q) (the_nvic (mcu s)) \<and>
           psequence p \<le> psequence q" if "q \<in> set (b @ a)" "eligible (the_nvic (mcu s)) q" for q
      using pick(3) [OF that] by (auto simp: before_def Let_def not_less)
    show ?thesis
      unfolding Some option.case
      by (rule exI [of _ b], rule exI [of _ p], rule exI [of _ a], intro conjI ballI impI)
        (rule pick least; assumption?)+
  qed
qed

theorem dispatch_picks_highest_priority_witness:
  "\<exists>s' :: irq list sim. dispatch_next (\<lambda>irq (s :: irq list sim). s\<lparr>firmware := firmware s @ [irq]\<rparr>)
     (raise_irq WDT_IRQn Watchdog_Timeout
       \<lparr>mcu = lpc_reset\<lparr>the_nvic := nvic_enable WDT_IRQn nvic_reset\<rparr>, clock_us = 0, clock_cycle_remainder = 0,
        pending_irqs = [], next_sequence = 0, reset_requested = False, firmware = []\<rparr>) = Some s' \<and> firmware s' = [0]"
proof -
  let ?isr = "\<lambda>irq (s :: irq list sim). s\<lparr>firmware := firmware s @ [irq]\<rparr>"
  let ?s = "raise_irq WDT_IRQn Watchdog_Timeout
       \<lparr>mcu = lpc_reset\<lparr>the_nvic := nvic_enable WDT_IRQn nvic_reset\<rparr>, clock_us = 0, clock_cycle_remainder = 0,
        pending_irqs = [], next_sequence = 0, reset_requested = False, firmware = []\<rparr>"
  let ?p = "\<lparr>pirq = WDT_IRQn, psequence = 0, phandler = Watchdog_Timeout\<rparr>"
  have l: "pending_irqs ?s = [?p]" by (simp add: raise_irq_def)
  have e: "eligible (the_nvic (mcu ?s)) ?p" by code_simp
  show ?thesis
    using dispatch_picks_highest_priority [where isr = ?isr and s = ?s] e unfolding l
    by (auto split: option.splits simp: Cons_eq_append_conv run_handler_def raise_irq_def)
qed

end
