(* ===== verification/Timer_Laws.thy ===== *)
theory Timer_Laws
  imports Timer_Scheduler
begin

text \<open>
  What counting cycles does: it loses no time, every match is served, and it returns as long as every
  timer with an enabled match restarts or stops on it; with a timer that does neither it never returns.
  The firmware's routines are assumed to leave the timers, the interrupt enables, the watchdog and the
  clock alone (\<open>quiet_isr\<close>).
\<close>

section \<open>Routines that leave the timing hardware alone\<close>

definition quiet_isr :: "'w isr \<Rightarrow> bool" where
  "quiet_isr isr \<longleftrightarrow> (\<forall>i s.
     timers (mcu (isr i s)) = timers (mcu s) \<and> the_nvic (mcu (isr i s)) = the_nvic (mcu s) \<and>
     watchdog (mcu (isr i s)) = watchdog (mcu s) \<and> SystemCoreClock (mcu (isr i s)) = SystemCoreClock (mcu s) \<and>
     pending_irqs (isr i s) = pending_irqs s \<and> clock_us (isr i s) = clock_us s \<and>
     clock_cycle_remainder (isr i s) = clock_cycle_remainder s)"

lemma quiet_isrD:
  assumes "quiet_isr isr"
  shows "timers (mcu (isr i s)) = timers (mcu s)" "the_nvic (mcu (isr i s)) = the_nvic (mcu s)"
    "SystemCoreClock (mcu (isr i s)) = SystemCoreClock (mcu s)"
    "pending_irqs (isr i s) = pending_irqs s" "clock_us (isr i s) = clock_us s"
    "clock_cycle_remainder (isr i s) = clock_cycle_remainder s"
  using assms by (simp_all add: quiet_isr_def)

text \<open>What no step changes: the setup of the timers, and the clock.\<close>

definition same_setup :: "'w sim \<Rightarrow> 'w sim \<Rightarrow> bool" where
  "same_setup s s' \<longleftrightarrow> the_nvic (mcu s') = the_nvic (mcu s) \<and> SystemCoreClock (mcu s') = SystemCoreClock (mcu s) \<and>
     length (timers (mcu s')) = length (timers (mcu s)) \<and>
     (\<forall>i. MCR (timer_at i s') = MCR (timer_at i s) \<and> MR0 (timer_at i s') = MR0 (timer_at i s) \<and>
       (TCR (timer_at i s') AND 1 \<noteq> 0 \<longrightarrow> TCR (timer_at i s) AND 1 \<noteq> 0))"

definition same_clock :: "'w sim \<Rightarrow> 'w sim \<Rightarrow> bool" where
  "same_clock s s' \<longleftrightarrow> clock_us s' = clock_us s \<and> clock_cycle_remainder s' = clock_cycle_remainder s"

lemma same_setup_refl [simp]: "same_setup s s"
  by (simp add: same_setup_def)

lemma same_setup_trans [trans]: "same_setup s t \<Longrightarrow> same_setup t u \<Longrightarrow> same_setup s u"
  by (simp add: same_setup_def)

lemma same_clock_refl [simp]: "same_clock s s"
  by (simp add: same_clock_def)

lemma same_clock_trans [trans]: "same_clock s t \<Longrightarrow> same_clock t u \<Longrightarrow> same_clock s u"
  by (simp add: same_clock_def)

lemma same_setup_enabled: "same_setup s s' \<Longrightarrow> match_interrupt_enabled i s' \<Longrightarrow> match_interrupt_enabled i s"
  by (auto simp: same_setup_def match_interrupt_enabled_def)

lemma same_setup_pclk: "same_setup s s' \<Longrightarrow> pclk_hz s' = pclk_hz s"
  by (simp add: same_setup_def pclk_hz_def)

lemma timer_at_set_timer:
  "timer_at i (set_timer j t s) = (if i = j \<and> j < length (timers (mcu s)) then t else timer_at i s)"
  by (cases "j < length (timers (mcu s))") (simp_all add: timer_at_def set_timer_def list_update_beyond)

lemma set_timer_simps [simp]:
  "pending_irqs (set_timer j t s) = pending_irqs s" "clock_us (set_timer j t s) = clock_us s"
  "clock_cycle_remainder (set_timer j t s) = clock_cycle_remainder s"
  "the_nvic (mcu (set_timer j t s)) = the_nvic (mcu s)"
  "SystemCoreClock (mcu (set_timer j t s)) = SystemCoreClock (mcu s)"
  "length (timers (mcu (set_timer j t s))) = length (timers (mcu s))"
  "watchdog (mcu (set_timer j t s)) = watchdog (mcu s)"
  by (simp_all add: set_timer_def)

lemma same_setup_set_timer:
  assumes "MCR t = MCR (timer_at j s)" "MR0 t = MR0 (timer_at j s)"
    and "TCR t AND 1 \<noteq> 0 \<Longrightarrow> TCR (timer_at j s) AND 1 \<noteq> 0"
  shows "same_setup s (set_timer j t s)"
  using assms by (auto simp: same_setup_def timer_at_set_timer)

lemma same_clock_set_timer [simp]: "same_clock s (set_timer j t s)"
  by (simp add: same_clock_def)

section \<open>Handlers\<close>

lemma call_handler_quiet:
  assumes "quiet_isr isr"
  shows "timers (mcu (call_handler isr i s)) = timers (mcu s)" "the_nvic (mcu (call_handler isr i s)) = the_nvic (mcu s)"
    "SystemCoreClock (mcu (call_handler isr i s)) = SystemCoreClock (mcu s)"
    "pending_irqs (call_handler isr i s) = pending_irqs s"
    "clock_us (call_handler isr i s) = clock_us s"
    "clock_cycle_remainder (call_handler isr i s) = clock_cycle_remainder s"
    "timer_at k (call_handler isr i s) = timer_at k s" "timer_at k (isr j s) = timer_at k s"
  using quiet_isrD [OF assms] by (simp_all add: call_handler_def timer_at_def)

lemma write_TCR_simps [simp]:
  "MCR (write_TCR b t) = MCR t" "MR0 (write_TCR b t) = MR0 t" "TCR (write_TCR b t) = b"
  by (simp_all add: write_TCR_def Let_def)

text \<open>The state after the handler of a match of timer \<open>i\<close>, whose routine is quiet.\<close>

definition restarts :: "lpc_tim \<Rightarrow> bool" where "restarts t \<longleftrightarrow> MCR t AND 2 \<noteq> 0"
definition stops :: "lpc_tim \<Rightarrow> bool" where "stops t \<longleftrightarrow> MCR t AND 4 \<noteq> 0"

definition served :: "lpc_tim \<Rightarrow> lpc_tim" where
  "served t = (let u = t\<lparr>TC := (if restarts t then 0 else MR0 t)\<rparr> in if stops t then write_TCR 0 u else u)"

lemma served_simps [simp]: "MCR (served t) = MCR t" "MR0 (served t) = MR0 t"
  by (simp_all add: served_def Let_def)

lemma served_running: "TCR (served t) AND 1 \<noteq> 0 \<Longrightarrow> TCR t AND 1 \<noteq> 0"
  by (cases "stops t") (simp_all add: served_def Let_def)

lemma served_fresh: "restarts t \<or> stops t \<Longrightarrow> TCR (served t) AND 1 \<noteq> 0 \<Longrightarrow> TC (served t) = 0"
  by (cases "stops t") (simp_all add: served_def Let_def)

lemma run_handler_quiet:
  assumes "quiet_isr isr"
  shows "timer_at k (run_handler isr h s) =
      (if h = Timer_Match k \<and> k < length (timers (mcu s)) then served (timer_at k s) else timer_at k s)"
    and "the_nvic (mcu (run_handler isr h s)) = the_nvic (mcu s)"
    and "SystemCoreClock (mcu (run_handler isr h s)) = SystemCoreClock (mcu s)"
    and "length (timers (mcu (run_handler isr h s))) = length (timers (mcu s))"
    and "pending_irqs (run_handler isr h s) = pending_irqs s"
    and "same_clock s (run_handler isr h s)"
proof -
  note q = call_handler_quiet [OF assms] quiet_isrD [OF assms]
  show "timer_at k (run_handler isr h s) =
      (if h = Timer_Match k \<and> k < length (timers (mcu s)) then served (timer_at k s) else timer_at k s)"
    by (cases h)
      (auto simp: run_handler_def timer_match_handler_def Let_def timer_at_set_timer q served_def restarts_def stops_def)
  show "the_nvic (mcu (run_handler isr h s)) = the_nvic (mcu s)"
    "SystemCoreClock (mcu (run_handler isr h s)) = SystemCoreClock (mcu s)"
    "length (timers (mcu (run_handler isr h s))) = length (timers (mcu s))"
    "pending_irqs (run_handler isr h s) = pending_irqs s"
    "same_clock s (run_handler isr h s)"
    by (cases h; simp add: run_handler_def timer_match_handler_def Let_def q same_clock_def)+
qed

lemma run_handler_same_setup: "quiet_isr isr \<Longrightarrow> same_setup s (run_handler isr h s)"
  by (auto simp: same_setup_def run_handler_quiet dest: served_running)

section \<open>Serving every eligible interrupt\<close>

definition idle_controller :: "'w sim \<Rightarrow> bool" where
  "idle_controller s \<longleftrightarrow> (\<forall>p \<in> set (pending_irqs s). \<not> eligible (the_nvic (mcu s)) p)"

definition awaits :: "nat \<Rightarrow> 'w sim \<Rightarrow> bool" where
  "awaits i s \<longleftrightarrow> (\<exists>p \<in> set (pending_irqs s). eligible (the_nvic (mcu s)) p \<and> phandler p = Timer_Match i)"

definition restartable :: "'w sim \<Rightarrow> bool" where
  "restartable s \<longleftrightarrow> length (timers (mcu s)) = 4 \<and>
     (\<forall>i. match_interrupt_enabled i s \<longrightarrow> restarts (timer_at i s) \<or> stops (timer_at i s))"

lemma same_setup_restartable: "same_setup s s' \<Longrightarrow> restartable s \<Longrightarrow> restartable s'"
  by (auto simp: restartable_def restarts_def stops_def same_setup_def dest: same_setup_enabled [rotated, unfolded same_setup_def])

lemma restartableD: "restartable s \<Longrightarrow> i < 4 \<Longrightarrow> i < length (timers (mcu s))"
  by (simp add: restartable_def)

text \<open>No timer waits beyond its match, unless its interrupt is about to be served.\<close>

definition matched_or_served :: "'w sim \<Rightarrow> bool" where
  "matched_or_served s \<longleftrightarrow> (\<forall>i. match_interrupt_enabled i s \<longrightarrow> TC (timer_at i s) < MR0 (timer_at i s) \<or> awaits i s)"

lemma dispatch_next_quiet:
  assumes quiet: "quiet_isr isr" and step: "dispatch_next isr s = Some s'"
  shows "same_setup s s'" and "same_clock s s'"
    and "length (filter (eligible (the_nvic (mcu s'))) (pending_irqs s')) <
      length (filter (eligible (the_nvic (mcu s))) (pending_irqs s))"
    and "\<not> awaits i s \<Longrightarrow> timer_at i s' = timer_at i s \<and> \<not> awaits i s'"
    and "restartable s \<Longrightarrow> matched_or_served s \<Longrightarrow> matched_or_served s'"
proof -
  obtain b p a where split: "pending_irqs s = b @ p # a" and el: "eligible (the_nvic (mcu s)) p"
    and s': "s' = run_handler isr (phandler p) (s\<lparr>pending_irqs := b @ a\<rparr>)"
    using step by (rule dispatch_next_Some)
  let ?t = "s\<lparr>pending_irqs := b @ a\<rparr>"
  note run = run_handler_quiet [OF quiet, where h = "phandler p" and s = ?t, folded s']
  have same: "timer_at k ?t = timer_at k s" for k by (simp add: timer_at_def)
  have "same_setup s ?t" "same_clock s ?t" by (simp_all add: same_setup_def same_clock_def same)
  then show same_s: "same_setup s s'" and "same_clock s s'"
    using run_handler_same_setup [OF quiet] run(6) unfolding s' by (blast intro: same_setup_trans same_clock_trans)+
  show "length (filter (eligible (the_nvic (mcu s'))) (pending_irqs s')) <
      length (filter (eligible (the_nvic (mcu s))) (pending_irqs s))"
    by (simp add: run split el)
  have aw: "awaits k s \<longleftrightarrow> phandler p = Timer_Match k \<or> awaits k s'" for k
    using el by (auto simp: awaits_def run split)
  show "\<not> awaits i s \<Longrightarrow> timer_at i s' = timer_at i s \<and> \<not> awaits i s'"
    using aw [of i] by (simp add: run(1) same)
  show "matched_or_served s'" if "restartable s" "matched_or_served s"
    unfolding matched_or_served_def
  proof (intro allI impI)
    fix k assume en': "match_interrupt_enabled k s'"
    then have en: "match_interrupt_enabled k s" using same_s by (rule same_setup_enabled [rotated])
    show "TC (timer_at k s') < MR0 (timer_at k s') \<or> awaits k s'"
    proof (cases "phandler p = Timer_Match k")
      case True
      have "k < 4" using en by (simp add: match_interrupt_enabled_def timer_count_def)
      with True have k: "timer_at k s' = served (timer_at k s)"
        using that(1) by (simp add: run(1) same restartable_def)
      have "restarts (timer_at k s) \<or> stops (timer_at k s)" using that(1) en by (simp add: restartable_def)
      moreover have "TCR (served (timer_at k s)) AND 1 \<noteq> 0" "MR0 (timer_at k s) \<noteq> 0"
        using en' en k by (simp_all add: match_interrupt_enabled_def)
      ultimately have "TC (timer_at k s') = 0" unfolding k by (blast intro: served_fresh)
      moreover have "MR0 (timer_at k s') \<noteq> 0" using en' by (simp add: match_interrupt_enabled_def)
      ultimately show ?thesis by (simp add: word_greater_zero_iff)
    next
      case False
      then have "timer_at k s' = timer_at k s" "awaits k s' \<longleftrightarrow> awaits k s" using aw [of k] by (simp_all add: run(1) same)
      then show ?thesis using en that(2) by (simp add: matched_or_served_def)
    qed
  qed
qed

lemma dispatch_all_quiet:
  assumes "quiet_isr isr"
  obtains s' where "dispatch_all isr s = Some s'" "same_setup s s'" "same_clock s s'" "idle_controller s'"
    "\<And>i. \<not> awaits i s \<Longrightarrow> timer_at i s' = timer_at i s"
    "restartable s \<Longrightarrow> matched_or_served s \<Longrightarrow> matched_or_served s'"
proof -
  have "\<exists>s'. dispatch_all isr s = Some s' \<and> same_setup s s' \<and> same_clock s s' \<and> idle_controller s' \<and>
      (\<forall>i. \<not> awaits i s \<longrightarrow> timer_at i s' = timer_at i s) \<and>
      (restartable s \<longrightarrow> matched_or_served s \<longrightarrow> matched_or_served s')"
  proof (induction "length (filter (eligible (the_nvic (mcu s))) (pending_irqs s))" arbitrary: s rule: less_induct)
    case less
    show ?case
    proof (cases "dispatch_next isr s")
      case None
      then show ?thesis
        by (subst dispatch_all.simps) (simp add: idle_controller_def dispatch_next_None [THEN iffD1])
    next
      case (Some t)
      note step = dispatch_next_quiet [OF assms Some]
      obtain s' where "dispatch_all isr t = Some s'" "same_setup t s'" "same_clock t s'" "idle_controller s'"
        "\<forall>i. \<not> awaits i t \<longrightarrow> timer_at i s' = timer_at i t"
        "restartable t \<longrightarrow> matched_or_served t \<longrightarrow> matched_or_served s'"
        using less [OF step(3)] by blast
      moreover have "dispatch_all isr s = dispatch_all isr t" using Some by (subst dispatch_all.simps) simp
      ultimately show ?thesis
        using step same_setup_restartable [OF step(1)]
        by (metis same_setup_trans same_clock_trans)
    qed
  qed
  then show thesis using that by blast
qed

text \<open>Once nothing is eligible, a timer awaits nothing.\<close>

lemma idle_not_awaits: "idle_controller s \<Longrightarrow> \<not> awaits i s"
  by (auto simp: idle_controller_def awaits_def)

section \<open>Counting cycles\<close>

text \<open>The time that has passed, in units of a microsecond divided by the peripheral clock rate.\<close>

definition cycle_time :: "'w sim \<Rightarrow> nat" where
  "cycle_time s = unat (clock_us s) * unat (pclk_hz s) + unat (clock_cycle_remainder s)"

lemma unat_ucast_u64: "unat (ucast c :: u64) = unat (c :: u32)"
  using unat_u32_lt [of c] by (simp add: unsigned_ucast_eq take_bit_nat_eq_self)

lemma unat_pclk: "0 < unat (pclk_hz s)" "unat (pclk_hz s) < 2 ^ 32"
proof -
  have p: "unat (pclk_hz s) = unat (max 1 (SystemCoreClock (mcu s) div 4))"
    by (simp add: pclk_hz_def unat_ucast_u64)
  have "1 \<le> max 1 (SystemCoreClock (mcu s) div 4)" by simp
  then have "1 \<le> unat (max 1 (SystemCoreClock (mcu s) div 4))" by (simp only: word_le_nat_alt unat_1)
  then show "0 < unat (pclk_hz s)" using p by linarith
  show "unat (pclk_hz s) < 2 ^ 32" using p unat_u32_lt [of "max 1 (SystemCoreClock (mcu s) div 4)"] by simp
qed

definition clock_fits :: "nat \<Rightarrow> 'w sim \<Rightarrow> bool" where
  "clock_fits c s \<longleftrightarrow> unat (clock_cycle_remainder s) < unat (pclk_hz s) \<and>
     (cycle_time s + c * 1000000) div unat (pclk_hz s) < 2 ^ 64"

lemma count_clock_time:
  assumes "clock_fits (unat c) s"
  shows "cycle_time (count_clock c s) = cycle_time s + unat c * 1000000"
    and "unat (clock_cycle_remainder (count_clock c s)) < unat (pclk_hz s)"
proof -
  let ?p = "unat (pclk_hz s)"
  let ?e = "clock_cycle_remainder s + ucast c * 1000000"
  have p: "pclk_hz (count_clock c s) = pclk_hz s" by (simp add: pclk_hz_def count_clock_def clock_advance_us_def Let_def)
  have c: "unat (ucast c :: u64) = unat c" by (simp add: unat_ucast_u64)
  have "unat (ucast c * 1000000 :: u64) = unat c * 1000000"
    using unat_u32_lt [of c] unat_mult_lem [of "ucast c :: u64" 1000000] by (simp add: c)
  moreover have "unat (clock_cycle_remainder s) < 2 ^ 32" using assms unat_pclk [of s] by (simp add: clock_fits_def)
  ultimately have e: "unat ?e = unat (clock_cycle_remainder s) + unat c * 1000000"
    using unat_u32_lt [of c] by (subst unat_plus_if) simp_all
  have total: "unat (clock_us s) * ?p + unat ?e = cycle_time s + unat c * 1000000" by (simp add: cycle_time_def e)
  have "unat (clock_us s) + unat ?e div ?p = (unat (clock_us s) * ?p + unat ?e) div ?p"
    using unat_pclk [of s] div_mult_self3 [of ?p "unat (clock_us s)" "unat ?e"] by linarith
  also have "\<dots> < 2 ^ 64" using assms total by (simp add: clock_fits_def)
  finally have us: "unat (clock_us s + ?e div pclk_hz s) = unat (clock_us s) + unat ?e div ?p"
    by (subst unat_plus_if) (simp_all add: unat_div)
  have "cycle_time (count_clock c s) =
      (unat (clock_us s) + unat ?e div ?p) * ?p + unat ?e mod ?p"
    using us by (simp add: cycle_time_def p) (simp add: count_clock_def clock_advance_us_def Let_def unat_mod)
  also have "\<dots> = unat (clock_us s) * ?p + unat ?e" by (simp add: add_mult_distrib)
  finally show "cycle_time (count_clock c s) = cycle_time s + unat c * 1000000" using total by simp
  show "unat (clock_cycle_remainder (count_clock c s)) < ?p"
    using unat_pclk [of s] by (simp add: count_clock_def clock_advance_us_def Let_def unat_mod)
qed

lemma watchdog_quiet:
  assumes "quiet_isr isr" "idle_controller s"
  obtains t where "watchdog_advance isr c s = Some t" "same_setup s t" "same_clock s t" "idle_controller t"
    "\<And>i. timer_at i t = timer_at i s"
proof -
  have set: "same_setup s (s\<lparr>mcu := (mcu s)\<lparr>watchdog := w\<rparr>\<rparr>)" "same_clock s (s\<lparr>mcu := (mcu s)\<lparr>watchdog := w\<rparr>\<rparr>)"
    "idle_controller (s\<lparr>mcu := (mcu s)\<lparr>watchdog := w\<rparr>\<rparr>)" "timer_at i (s\<lparr>mcu := (mcu s)\<lparr>watchdog := w\<rparr>\<rparr>) = timer_at i s" for w i
    using assms(2) by (simp_all add: same_setup_def same_clock_def idle_controller_def timer_at_def)
  define t where "t = s\<lparr>mcu := (mcu s)\<lparr>watchdog := (watchdog (mcu s))\<lparr>WDTV := 0, WDMOD := WDMOD (watchdog (mcu s)) OR (WDTOF OR WDINT)\<rparr>\<rparr>\<rparr>"
  have t: "same_setup s t" "same_clock s t" "idle_controller t" "timer_at i t = timer_at i s" for i
    unfolding t_def by (rule set)+
  have r: "same_setup s (t\<lparr>reset_requested := True\<rparr>)" "same_clock s (t\<lparr>reset_requested := True\<rparr>)"
    "idle_controller (t\<lparr>reset_requested := True\<rparr>)" "timer_at i (t\<lparr>reset_requested := True\<rparr>) = timer_at i s" for i
    using t by (simp_all add: same_setup_def same_clock_def idle_controller_def timer_at_def)
  let ?u = "raise_irq WDT_IRQn Watchdog_Timeout t"
  have u: "same_setup s ?u" "same_clock s ?u" "timer_at i ?u = timer_at i s" "\<not> awaits i ?u" for i
    using t by (auto simp: same_setup_def same_clock_def idle_controller_def timer_at_def raise_irq_def awaits_def)
  obtain v where v: "dispatch_all isr ?u = Some v" "same_setup ?u v" "same_clock ?u v" "idle_controller v"
    "\<And>i. \<not> awaits i ?u \<Longrightarrow> timer_at i v = timer_at i ?u"
    using dispatch_all_quiet [OF assms(1), of ?u] by blast
  have v': "same_setup s v" "same_clock s v" "timer_at i v = timer_at i s" for i
    using u v by (blast intro: same_setup_trans same_clock_trans, blast intro: same_setup_trans same_clock_trans, simp)
  have "watchdog_advance isr c s \<in> {Some s, Some (s\<lparr>mcu := (mcu s)\<lparr>watchdog := (watchdog (mcu s))\<lparr>WDTV := WDTV (watchdog (mcu s)) - c\<rparr>\<rparr>\<rparr>),
      Some (t\<lparr>reset_requested := True\<rparr>), dispatch_all isr ?u}"
    by (simp add: watchdog_advance_def Let_def t_def)
  then show thesis
    using that [of s] that [OF _ set] that [of "t\<lparr>reset_requested := True\<rparr>"] that [of v] assms(2) r v v' by auto
qed

lemma fold_timers: "fold f [0..<timer_count] a = f 2 (f 1 (f 0 a))"
  by (simp add: timer_count_def upt_rec numeral_3_eq_3 numeral_2_eq_2)

lemma timer_at_count:
  assumes "i < length (timers (mcu s))"
  shows "timer_at j (count_timer c i s) =
    (if i = j \<and> TCR (timer_at j s) AND 1 \<noteq> 0 then (timer_at j s)\<lparr>TC := TC (timer_at j s) + c\<rparr> else timer_at j s)"
  using assms by (auto simp: count_timer_def timer_at_set_timer)

lemma count_timer_same:
  "same_setup s (count_timer c i s)" "same_clock s (count_timer c i s)" "pending_irqs (count_timer c i s) = pending_irqs s"
  by (simp_all add: count_timer_def same_setup_set_timer)

lemma advance_running_quiet:
  assumes "quiet_isr isr" "idle_controller s" "clock_fits (unat c) s" "length (timers (mcu s)) = 4"
  obtains t where "advance_running_timers isr c s = Some t" "same_setup s t" "idle_controller t"
    "cycle_time t = cycle_time s + unat c * 1000000" "unat (clock_cycle_remainder t) < unat (pclk_hz t)"
    "\<And>i. i < 3 \<Longrightarrow> timer_at i t =
      (if TCR (timer_at i s) AND 1 \<noteq> 0 then (timer_at i s)\<lparr>TC := TC (timer_at i s) + c\<rparr> else timer_at i s)"
proof (cases "c = 0")
  case True
  then show thesis
    using assms by (intro that [of s]) (simp_all add: advance_running_timers_def clock_fits_def)
next
  case False
  obtain w where w: "watchdog_advance isr c s = Some w" "same_setup s w" "same_clock s w" "idle_controller w"
    "\<And>i. timer_at i w = timer_at i s"
    using watchdog_quiet [OF assms(1,2)] by blast
  define k where "k = count_clock c w"
  have fits: "clock_fits (unat c) w"
    using assms(3) w(3) same_setup_pclk [OF w(2)] by (simp add: clock_fits_def cycle_time_def same_clock_def)
  have k: "same_setup w k" "pending_irqs k = pending_irqs w" "timer_at i k = timer_at i w" for i
    by (simp_all add: k_def count_clock_def Let_def clock_advance_us_def same_setup_def timer_at_def)
  have len: "length (timers (mcu k)) = 4" using assms(4) w(2) k(1) by (simp add: same_setup_def)
  define t0 where "t0 = count_timer c 0 k"
  define t1 where "t1 = count_timer c 1 t0"
  define t where "t = count_timer c 2 t1"
  have s0: "same_setup k t0" "same_clock k t0" "pending_irqs t0 = pending_irqs k"
    and s1: "same_setup t0 t1" "same_clock t0 t1" "pending_irqs t1 = pending_irqs t0"
    and s2: "same_setup t1 t" "same_clock t1 t" "pending_irqs t = pending_irqs t1"
    unfolding t0_def t1_def t_def by (rule count_timer_same)+
  have kt: "same_setup k t" "same_clock k t" "pending_irqs t = pending_irqs w"
    using s0 s1 s2 k(2) by (blast intro: same_setup_trans same_clock_trans, blast intro: same_setup_trans same_clock_trans, simp)
  then have st: "same_setup s t" using w(2) k(1) by (blast intro: same_setup_trans)
  have l0: "length (timers (mcu t0)) = 4" and l1: "length (timers (mcu t1)) = 4"
    using len s0(1) s1(1) by (simp_all add: same_setup_def)
  show thesis
  proof (rule that)
    show "advance_running_timers isr c s = Some t"
      by (simp add: advance_running_timers_def False w(1) fold_timers t_def t1_def t0_def k_def)
    show "same_setup s t" by (rule st)
    show "idle_controller t"
      using w(4) kt st w(2) by (simp add: idle_controller_def same_setup_def)
    have p: "pclk_hz t = pclk_hz s" "pclk_hz w = pclk_hz s" "pclk_hz k = pclk_hz s"
      using same_setup_pclk st w(2) same_setup_pclk [OF k(1)] by metis+
    show "cycle_time t = cycle_time s + unat c * 1000000"
      using count_clock_time(1) [OF fits] kt(2) w(3) p unfolding k_def [symmetric]
      by (simp add: cycle_time_def same_clock_def)
    show "unat (clock_cycle_remainder t) < unat (pclk_hz t)"
      using count_clock_time(2) [OF fits] kt(2) p unfolding k_def [symmetric] by (simp add: same_clock_def)
    show "timer_at i t = (if TCR (timer_at i s) AND 1 \<noteq> 0
        then (timer_at i s)\<lparr>TC := TC (timer_at i s) + c\<rparr> else timer_at i s)" if "i < 3" for i
    proof -
      have "i = 0 \<or> i = 1 \<or> i = 2" using that by linarith
      then show ?thesis
        using len l0 l1 by (elim disjE) (simp_all add: t_def t1_def t0_def timer_at_count k(3) w(5))
    qed
  qed
qed

section \<open>Matches\<close>

definition due :: "nat \<Rightarrow> 'w sim \<Rightarrow> bool" where
  "due i s \<longleftrightarrow> match_interrupt_enabled i s \<and> MR0 (timer_at i s) \<le> TC (timer_at i s)"

definition not_overdue :: "nat \<Rightarrow> 'w sim \<Rightarrow> bool" where
  "not_overdue i s \<longleftrightarrow> (match_interrupt_enabled i s \<longrightarrow> TC (timer_at i s) < MR0 (timer_at i s) \<or> awaits i s)"

lemma matched_or_served_iff: "matched_or_served s \<longleftrightarrow> not_overdue 0 s \<and> not_overdue 1 s \<and> not_overdue 2 s"
proof -
  have "match_interrupt_enabled i s \<Longrightarrow> i = 0 \<or> i = 1 \<or> i = 2" for i
    by (auto simp: match_interrupt_enabled_def timer_count_def)
  then show ?thesis unfolding matched_or_served_def not_overdue_def by blast
qed

lemma raise_match_due:
  assumes "due i s" "length (timers (mcu s)) = 4"
  obtains t where "raise_match i s = (True, t)" "same_setup s t" "same_clock s t" "awaits i t"
    "\<And>j. awaits j s \<Longrightarrow> awaits j t" "\<And>j. j \<noteq> i \<Longrightarrow> timer_at j t = timer_at j s"
    "\<And>j. match_interrupt_enabled j t \<longleftrightarrow> match_interrupt_enabled j s"
proof -
  have en: "match_interrupt_enabled i s" using assms(1) by (simp add: due_def)
  have i: "i < 4" using en by (simp add: match_interrupt_enabled_def timer_count_def)
  let ?m = "set_timer i ((timer_at i s)\<lparr>TC := MR0 (timer_at i s)\<rparr>) s"
  let ?t = "raise_irq (irq_for_timer i) (Timer_Match i) ?m"
  have n: "the_nvic (mcu ?t) = the_nvic (mcu s)" by (simp add: raise_irq_def)
  have p: "pending_irqs ?t = pending_irqs s @ [\<lparr>pirq = irq_for_timer i, psequence = next_sequence ?m, phandler = Timer_Match i\<rparr>]"
    by (simp add: raise_irq_def)
  have ti: "timer_at j ?t = (if j = i then (timer_at i s)\<lparr>TC := MR0 (timer_at i s)\<rparr> else timer_at j s)" for j
    using i assms(2) by (simp add: raise_irq_def timer_at_set_timer [unfolded timer_at_def] timer_at_def)
  have e: "eligible (the_nvic (mcu s)) \<lparr>pirq = irq_for_timer i, psequence = q, phandler = h\<rparr>" for q h
    using en by (simp add: eligible_def match_interrupt_enabled_def)
  show thesis
  proof (rule that)
    show "raise_match i s = (True, ?t)" using en by (simp add: raise_match_def)
    show "same_setup s ?t" by (auto simp: same_setup_def ti) (simp_all add: raise_irq_def)
    show "same_clock s ?t" by (simp add: same_clock_def raise_irq_def)
    show "awaits i ?t" using e by (simp add: awaits_def n p)
    show "awaits j ?t" if "awaits j s" for j using that by (auto simp: awaits_def n p)
    show "timer_at j ?t = timer_at j s" if "j \<noteq> i" for j using that by (simp add: ti)
    show "match_interrupt_enabled j ?t \<longleftrightarrow> match_interrupt_enabled j s" for j
      by (simp add: match_interrupt_enabled_def ti n)
  qed
qed

lemma raise_due_step:
  assumes "length (timers (mcu s)) = 4" "raise_due i (r, s) = (r', t)"
  shows "same_setup s t" "same_clock s t" "r \<or> due i s \<Longrightarrow> r'" "not_overdue i t"
    "not_overdue j s \<Longrightarrow> not_overdue j t" "j \<noteq> i \<Longrightarrow> due j t \<longleftrightarrow> due j s"
proof -
  have *: "same_setup s t \<and> same_clock s t \<and> (r \<or> due i s \<longrightarrow> r') \<and> not_overdue i t \<and>
      (not_overdue j s \<longrightarrow> not_overdue j t) \<and> (j \<noteq> i \<longrightarrow> (due j t \<longleftrightarrow> due j s))"
  proof (cases "due i s")
    case True
    obtain u where u: "raise_match i s = (True, u)" "same_setup s u" "same_clock s u" "awaits i u"
      "\<And>j. awaits j s \<Longrightarrow> awaits j u" "\<And>j. j \<noteq> i \<Longrightarrow> timer_at j u = timer_at j s"
      "\<And>j. match_interrupt_enabled j u \<longleftrightarrow> match_interrupt_enabled j s"
      using raise_match_due [OF True assms(1)] by metis
    then have "r' = True" "t = u" using assms(2) True by (simp_all add: raise_due_def due_def)
    then show ?thesis
      using u by (cases "j = i") (auto simp: not_overdue_def due_def)
  next
    case False
    then have "r' = r" "t = s" using assms(2) by (auto simp: raise_due_def due_def)
    then show ?thesis using False by (auto simp: not_overdue_def due_def not_le)
  qed
  then show "same_setup s t" "same_clock s t" "r \<or> due i s \<Longrightarrow> r'" "not_overdue i t"
    "not_overdue j s \<Longrightarrow> not_overdue j t" "j \<noteq> i \<Longrightarrow> due j t \<longleftrightarrow> due j s" by blast+
qed

lemma raise_due_matches_serves:
  assumes "length (timers (mcu s)) = 4" "raise_due_matches s = (r, t)"
  shows "same_setup s t" "same_clock s t" "due i s \<Longrightarrow> r" "matched_or_served t"
proof -
  obtain r0 s0 where 0: "raise_due 0 (False, s) = (r0, s0)" by (meson surj_pair)
  obtain r1 s1 where 1: "raise_due 1 (r0, s0) = (r1, s1)" by (meson surj_pair)
  have 2: "raise_due 2 (r1, s1) = (r, t)"
    using assms(2) by (simp add: raise_due_matches_def fold_timers 0 1 del: One_nat_def)
  note d0 = raise_due_step [OF assms(1) 0]
  have len0: "length (timers (mcu s0)) = 4" using assms(1) d0(1) by (simp add: same_setup_def)
  note d1 = raise_due_step [OF len0 1]
  have len1: "length (timers (mcu s1)) = 4" using len0 d1(1) by (simp add: same_setup_def)
  note d2 = raise_due_step [OF len1 2]
  show "same_setup s t" "same_clock s t"
    using d0(1,2) d1(1,2) d2(1,2) by (blast intro: same_setup_trans same_clock_trans)+
  show "matched_or_served t"
    unfolding matched_or_served_iff using d0(4) d1(4,5) d2(4,5) by blast
  show r if "due i s"
  proof -
    have "i = 0 \<or> i = 1 \<or> i = 2" using that by (auto simp: due_def match_interrupt_enabled_def timer_count_def)
    then show ?thesis
    proof (elim disjE)
      assume "i = 0" then show r using that d0(3) d1(3) d2(3) by blast
    next
      assume i: "i = 1" then have "due 1 s0" using that d0(6) [of 1] by simp
      then show r using d1(3) d2(3) by blast
    next
      assume i: "i = 2" then have "due 2 s1" using that d0(6) [of 2] d1(6) [of 2] by simp
      then show r using d2(3) by blast
    qed
  qed
qed

lemma nearer_cases:
  "nearer s i a = None \<longleftrightarrow> a = None \<and> \<not> match_interrupt_enabled i s"
  "nearer s i a = Some n \<Longrightarrow> a = Some n \<or> match_interrupt_enabled i s \<and> n = cycles_of (timer_at i s)"
  "nearer s i a = Some n \<Longrightarrow> match_interrupt_enabled i s \<Longrightarrow> n \<le> cycles_of (timer_at i s)"
  "nearer s i a = Some n \<Longrightarrow> a = Some m \<Longrightarrow> n \<le> m"
  by (auto simp: nearer_def Let_def split: if_splits option.splits)

lemma next_match_Some:
  assumes "cycles_to_next_match s = Some n"
  obtains i where "match_interrupt_enabled i s" "n = cycles_of (timer_at i s)"
proof -
  have "nearer s 2 (nearer s 1 (nearer s 0 None)) = Some n"
    using assms by (simp add: cycles_to_next_match_def fold_timers)
  then show thesis using that nearer_cases(2) by (metis option.distinct(1))
qed

text \<open>One pass of the loop of \<^verbatim>\<open>advance_cycles\<close>: the nearest match is reached and served.\<close>

lemma match_reached:
  assumes "quiet_isr isr" "idle_controller s" "clock_fits (unat n) s" "restartable s"
    and "cycles_to_next_match s = Some n"
  obtains t u v where "advance_running_timers isr n s = Some t" "raise_due_matches t = (True, u)"
    "dispatch_all isr u = Some v" "same_setup s v" "idle_controller v" "matched_or_served v"
    "cycle_time v = cycle_time s + unat n * 1000000" "unat (clock_cycle_remainder v) < unat (pclk_hz v)"
proof -
  have len: "length (timers (mcu s)) = 4" using assms(4) by (simp add: restartable_def)
  obtain t where t: "advance_running_timers isr n s = Some t" "same_setup s t" "idle_controller t"
    "cycle_time t = cycle_time s + unat n * 1000000" "unat (clock_cycle_remainder t) < unat (pclk_hz t)"
    "\<And>i. i < 3 \<Longrightarrow> timer_at i t =
      (if TCR (timer_at i s) AND 1 \<noteq> 0 then (timer_at i s)\<lparr>TC := TC (timer_at i s) + n\<rparr> else timer_at i s)"
    using advance_running_quiet [OF assms(1-3) len] by metis
  obtain i where i: "match_interrupt_enabled i s" "n = cycles_of (timer_at i s)"
    using assms(5) by (rule next_match_Some)
  have run: "TCR (timer_at i s) AND 1 \<noteq> 0" "i < 3"
    using i(1) by (simp_all add: match_interrupt_enabled_def timer_count_def)
  then have ti: "timer_at i t = (timer_at i s)\<lparr>TC := TC (timer_at i s) + n\<rparr>" using t(6) by simp
  have "due i t"
    using i t(2) run ti by (auto simp: due_def match_interrupt_enabled_def same_setup_def cycles_of_def)
  moreover obtain r u where u: "raise_due_matches t = (r, u)" by (meson surj_pair)
  have lent: "length (timers (mcu t)) = 4" using len t(2) by (simp add: same_setup_def)
  note serves = raise_due_matches_serves [OF lent u]
  ultimately have r by blast
  obtain v where v: "dispatch_all isr u = Some v" "same_setup u v" "same_clock u v" "idle_controller v"
    "restartable u \<Longrightarrow> matched_or_served u \<Longrightarrow> matched_or_served v"
    using dispatch_all_quiet [OF assms(1), of u] by metis
  have sv: "same_setup s v" "same_clock t v" "same_setup t v" "same_setup s u"
    using t(2) serves(1,2) v(2,3) by (blast intro: same_setup_trans same_clock_trans)+
  have p: "pclk_hz v = pclk_hz t" using sv(3) by (rule same_setup_pclk)
  have ms: "matched_or_served v" using v(5) serves(4) same_setup_restartable [OF sv(4) assms(4)] by blast
  show thesis
    by (rule that [OF t(1) _ v(1) sv(1) v(4) ms])
      (use u \<open>r\<close> sv(2) t(4,5) p in
        \<open>simp_all add: cycle_time_def same_clock_def\<close>)
qed

section \<open>Advancing\<close>

lemma fold_nearer:
  "fold (nearer s) is a = None \<longleftrightarrow> a = None \<and> (\<forall>i \<in> set is. \<not> match_interrupt_enabled i s)"
  "fold (nearer s) is a = Some n \<Longrightarrow> (\<forall>m. a = Some m \<longrightarrow> n \<le> m) \<and>
     (\<forall>i \<in> set is. match_interrupt_enabled i s \<longrightarrow> n \<le> cycles_of (timer_at i s))"
proof (induction "is" arbitrary: a)
  case (Cons i "is")
  { case 1 show ?case using Cons.IH(1) nearer_cases(1) by auto }
  { case 2
    then have IH: "\<forall>m. nearer s i a = Some m \<longrightarrow> n \<le> m" "\<forall>j \<in> set is. match_interrupt_enabled j s \<longrightarrow> n \<le> cycles_of (timer_at j s)"
      using Cons.IH(2) [of "nearer s i a"] by auto
    show ?case
    proof (cases "nearer s i a")
      case None
      then show ?thesis using IH(2) nearer_cases(1) by auto
    next
      case (Some m)
      then have "n \<le> m" using IH(1) by blast
      then show ?thesis
        using IH(2) nearer_cases(3) [OF Some] nearer_cases(4) [OF Some] by (auto intro: order_trans)
    qed }
qed simp_all

lemma nearest_is_least:
  assumes "cycles_to_next_match s = Some n" "match_interrupt_enabled i s"
  shows "n \<le> cycles_of (timer_at i s)"
  using fold_nearer(2) [OF assms(1) [unfolded cycles_to_next_match_def]] assms(2)
  by (auto simp: match_interrupt_enabled_def)

lemma no_match_next: "cycles_to_next_match s = None \<Longrightarrow> \<not> match_interrupt_enabled i s"
  unfolding cycles_to_next_match_def fold_nearer(1) by (auto simp: match_interrupt_enabled_def)

lemma clock_fits_mono: "clock_fits c s \<Longrightarrow> d \<le> c \<Longrightarrow> clock_fits d s"
  unfolding clock_fits_def
  by (meson add_left_mono div_le_mono le_less_trans mult_le_mono1)

definition reaches :: "'w isr \<Rightarrow> u32 \<Rightarrow> 'w sim \<Rightarrow> 'w sim \<Rightarrow> bool" where
  "reaches isr c s s' \<longleftrightarrow> advance_cycles isr c s = Some s' \<and> same_setup s s' \<and> idle_controller s' \<and>
     cycle_time s' = cycle_time s + unat c * 1000000 \<and> unat (clock_cycle_remainder s') < unat (pclk_hz s') \<and>
     (\<forall>i. match_interrupt_enabled i s' \<longrightarrow> TC (timer_at i s') < MR0 (timer_at i s'))"

lemma last_stretch:
  assumes "quiet_isr isr" "idle_controller s" "clock_fits (unat c) s" "restartable s" "c \<noteq> 0"
    and "\<And>i. match_interrupt_enabled i s \<Longrightarrow> c < cycles_of (timer_at i s)"
    and "advance_cycles isr c s = advance_running_timers isr c s"
  shows "\<exists>s'. reaches isr c s s'"
proof -
  have len: "length (timers (mcu s)) = 4" using assms(4) by (simp add: restartable_def)
  obtain t where t: "advance_running_timers isr c s = Some t" "same_setup s t" "idle_controller t"
    "cycle_time t = cycle_time s + unat c * 1000000" "unat (clock_cycle_remainder t) < unat (pclk_hz t)"
    "\<And>i. i < 3 \<Longrightarrow> timer_at i t =
      (if TCR (timer_at i s) AND 1 \<noteq> 0 then (timer_at i s)\<lparr>TC := TC (timer_at i s) + c\<rparr> else timer_at i s)"
    using advance_running_quiet [OF assms(1-3) len] by metis
  have "TC (timer_at i t) < MR0 (timer_at i t)" if "match_interrupt_enabled i t" for i
  proof -
    have en: "match_interrupt_enabled i s" using t(2) that by (rule same_setup_enabled)
    then have ti: "timer_at i t = (timer_at i s)\<lparr>TC := TC (timer_at i s) + c\<rparr>"
      using t(6) [of i] by (simp add: match_interrupt_enabled_def timer_count_def)
    have far: "c < cycles_of (timer_at i s)" using en by (rule assms(6))
    then have lt: "TC (timer_at i s) < MR0 (timer_at i s)" by (auto simp: cycles_of_def split: if_splits)
    with far have "unat c < unat (MR0 (timer_at i s)) - unat (TC (timer_at i s))"
      by (simp add: cycles_of_def word_less_nat_alt leD unat_sub word_le_nat_alt)
    then have "unat (TC (timer_at i s)) + unat c < unat (MR0 (timer_at i s))" by linarith
    then show ?thesis
      using unat_u32_lt [of "MR0 (timer_at i s)"] by (simp add: ti word_less_nat_alt unat_plus_if)
  qed
  then show ?thesis using assms(7) t by (auto simp: reaches_def)
qed

lemma advance_pass:
  assumes "quiet_isr isr" "idle_controller s" "clock_fits (unat c) s" "restartable s" "c \<noteq> 0"
    and "cycles_to_next_match s = Some n" "n \<le> c"
  obtains v where "advance_cycles isr c s = advance_cycles isr (c - n) v" "same_setup s v" "idle_controller v"
    "matched_or_served v" "clock_fits (unat (c - n)) v" "restartable v"
    "cycle_time v = cycle_time s + unat n * 1000000" "unat (clock_cycle_remainder v) < unat (pclk_hz v)"
proof -
  have n: "unat n \<le> unat c" "unat (c - n) = unat c - unat n"
    using assms(7) by (simp_all add: word_le_nat_alt unat_sub)
  obtain t u v where v: "advance_running_timers isr n s = Some t" "raise_due_matches t = (True, u)"
    "dispatch_all isr u = Some v" "same_setup s v" "idle_controller v" "matched_or_served v"
    "cycle_time v = cycle_time s + unat n * 1000000" "unat (clock_cycle_remainder v) < unat (pclk_hz v)"
    using match_reached [OF assms(1,2) clock_fits_mono [OF assms(3) n(1)] assms(4,6)] by metis
  have "advance_cycles isr c s = advance_cycles isr (c - n) v"
    using assms(5-7) v(1-3) by (subst advance_cycles.simps) (simp add: leD)
  moreover have "cycle_time v + (unat c - unat n) * 1000000 = cycle_time s + unat c * 1000000"
    using v(7) n(1) by (simp add: algebra_simps)
  then have "clock_fits (unat (c - n)) v"
    using assms(3) v(8) same_setup_pclk [OF v(4)] by (simp add: clock_fits_def n(2))
  ultimately show thesis using that v same_setup_restartable [OF v(4) assms(4)] by blast
qed

lemma advance_stretch:
  assumes "quiet_isr isr" "idle_controller s" "clock_fits (unat c) s" "restartable s" "c \<noteq> 0"
    and "\<nexists>n. cycles_to_next_match s = Some n \<and> n \<le> c"
  shows "\<exists>s'. reaches isr c s s'"
proof (rule last_stretch [OF assms(1-5)])
  show "c < cycles_of (timer_at i s)" if "match_interrupt_enabled i s" for i
    using that assms(6) nearest_is_least [OF _ that] no_match_next [of s i]
    by (cases "cycles_to_next_match s") (auto simp: not_le intro: less_le_trans)
  show "advance_cycles isr c s = advance_running_timers isr c s"
    using assms(5,6) by (subst advance_cycles.simps) (auto split: option.splits simp: not_le)
qed

lemma advance_fresh:
  assumes "quiet_isr isr" "idle_controller s" "clock_fits (unat c) s" "restartable s" "matched_or_served s"
    and "unat (clock_cycle_remainder s) < unat (pclk_hz s)"
  shows "\<exists>s'. reaches isr c s s'"
  using assms(2-6)
proof (induction "unat c" arbitrary: c s rule: less_induct)
  case less
  have fresh: "match_interrupt_enabled i s \<Longrightarrow> TC (timer_at i s) < MR0 (timer_at i s)" for i
    using less.prems(1,4) idle_not_awaits by (auto simp: matched_or_served_def)
  show ?case
  proof (cases "c = 0")
    case True
    then show ?thesis
      using less.prems fresh by (intro exI [of _ s]) (simp add: reaches_def advance_cycles.simps)
  next
    case nz: False
    show ?thesis
    proof (cases "\<exists>n. cycles_to_next_match s = Some n \<and> n \<le> c")
      case False
      then show ?thesis using advance_stretch [OF assms(1) less.prems(1-3) nz] by blast
    next
      case True
      then obtain n where n: "cycles_to_next_match s = Some n" "n \<le> c" by blast
      obtain i where i: "match_interrupt_enabled i s" "n = cycles_of (timer_at i s)"
        using n(1) by (rule next_match_Some)
      have "n \<noteq> 0" using fresh [OF i(1)] i(2) by (auto simp: cycles_of_def split: if_splits)
      then have lt: "unat (c - n) < unat c"
        using n(2) unat_pos_iff [of n] by (simp add: unat_sub word_le_nat_alt)
      obtain v where v: "advance_cycles isr c s = advance_cycles isr (c - n) v" "same_setup s v" "idle_controller v"
        "matched_or_served v" "clock_fits (unat (c - n)) v" "restartable v"
        "cycle_time v = cycle_time s + unat n * 1000000" "unat (clock_cycle_remainder v) < unat (pclk_hz v)"
        using advance_pass [OF assms(1) less.prems(1-3) nz n] by metis
      obtain s' where "reaches isr (c - n) v s'" using less.hyps [OF lt v(3,5,6,4,8)] by blast
      then have "reaches isr c s s'"
        using v(1,2,7) n(2) by (auto simp: reaches_def unat_sub word_le_nat_alt algebra_simps intro: same_setup_trans)
      then show ?thesis by blast
    qed
  qed
qed


definition one_timer :: "u32 \<Rightarrow> u32 \<Rightarrow> u32 \<Rightarrow> nat sim" where
  "one_timer mcr mr0 tc =
     \<lparr>mcu = lpc_reset\<lparr>the_nvic := nvic_enable TIMER0_IRQn nvic_reset,
        timers := (replicate 4 fresh_timer)[0 := fresh_timer\<lparr>TCR := 1, MCR := mcr, MR0 := mr0, TC := tc\<rparr>]\<rparr>,
      clock_us = 0, clock_cycle_remainder = 0, pending_irqs = [], next_sequence = 0, reset_requested = False, firmware = 0\<rparr>"

definition counting_isr :: "nat isr" where
  "counting_isr i s = s\<lparr>firmware := Suc (firmware s)\<rparr>"

lemma counting_quiet: "quiet_isr counting_isr"
  by (simp add: quiet_isr_def counting_isr_def)

lemma one_timer_idle: "idle_controller (one_timer mcr mr0 tc)"
  by (simp add: idle_controller_def one_timer_def)

lemma one_timer_enabled:
  "match_interrupt_enabled i (one_timer mcr mr0 tc) \<longleftrightarrow> i = 0 \<and> mcr AND 1 \<noteq> 0 \<and> mr0 \<noteq> 0"
proof -
  have "nvic_enabled (irq_for_timer 0) (nvic_enable TIMER0_IRQn nvic_reset)" by code_simp
  moreover have "global_irq_enabled (nvic_enable TIMER0_IRQn nvic_reset)" by code_simp
  moreover have "timer_at 0 (one_timer mcr mr0 tc) = fresh_timer\<lparr>TCR := 1, MCR := mcr, MR0 := mr0, TC := tc\<rparr>"
    by (simp add: timer_at_def one_timer_def)
  moreover have "i < 3 \<Longrightarrow> i \<noteq> 0 \<Longrightarrow> timer_at i (one_timer mcr mr0 tc) = fresh_timer"
    by (simp add: timer_at_def one_timer_def)
  ultimately show ?thesis
    by (cases "i = 0") (auto simp: match_interrupt_enabled_def timer_count_def one_timer_def fresh_timer_def)
qed


section \<open>A match that neither restarts nor stops\<close>

definition stuck :: "nat \<Rightarrow> 'w sim \<Rightarrow> bool" where
  "stuck i s \<longleftrightarrow> due i s \<and> \<not> restarts (timer_at i s) \<and> \<not> stops (timer_at i s) \<and> length (timers (mcu s)) = 4"

lemma stuck_put_on_match:
  assumes "stuck i s" "timer_at i t = timer_at i s \<or> timer_at i t = (timer_at i s)\<lparr>TC := MR0 (timer_at i s)\<rparr>"
    and "the_nvic (mcu t) = the_nvic (mcu s)" "length (timers (mcu t)) = length (timers (mcu s))"
  shows "stuck i t"
  using assms by (auto simp: stuck_def due_def match_interrupt_enabled_def restarts_def stops_def)

lemma dispatch_next_stuck:
  assumes "quiet_isr isr" "dispatch_next isr s = Some t" "stuck i s"
  shows "stuck i t"
  using assms(2)
proof (rule dispatch_next_Some)
  fix b p a
  assume t: "t = run_handler isr (phandler p) (s\<lparr>pending_irqs := b @ a\<rparr>)"
  have "timer_at i (s\<lparr>pending_irqs := b @ a\<rparr>) = timer_at i s" by (simp add: timer_at_def)
  moreover have "served (timer_at i s) = (timer_at i s)\<lparr>TC := MR0 (timer_at i s)\<rparr>"
    using assms(3) by (simp add: served_def stuck_def)
  ultimately show ?thesis
    unfolding t by (intro stuck_put_on_match [OF assms(3)]) (simp_all add: run_handler_quiet [OF assms(1)])
qed

lemma dispatch_all_stuck:
  assumes "dispatch_all isr s = Some t" "quiet_isr isr" "stuck i s"
  shows "stuck i t"
proof -
  have "quiet_isr isr \<longrightarrow> stuck i s \<longrightarrow> stuck i t"
    by (rule dispatch_all.raw_induct [of "\<lambda>isr s t. quiet_isr isr \<longrightarrow> stuck i s \<longrightarrow> stuck i t", OF _ assms(1)])
      (auto split: option.splits dest: dispatch_next_stuck)
  then show ?thesis using assms(2,3) by blast
qed

lemma raise_irq_simps [simp]:
  "timer_at i (raise_irq irq h s) = timer_at i s" "mcu (raise_irq irq h s) = mcu s"
  by (simp_all add: raise_irq_def timer_at_def)

lemma raise_due_stuck:
  assumes "raise_due j (r, s) = (r', t)" "stuck i s"
  shows "stuck i t"
proof (cases "match_interrupt_enabled j s \<and> MR0 (timer_at j s) \<le> TC (timer_at j s)")
  case True
  then have "t = raise_irq (irq_for_timer j) (Timer_Match j) (set_timer j ((timer_at j s)\<lparr>TC := MR0 (timer_at j s)\<rparr>) s)"
    using assms(1) by (auto simp: raise_due_def raise_match_def)
  then show ?thesis by (intro stuck_put_on_match [OF assms(2)]) (auto simp: timer_at_set_timer)
next
  case False
  then have "t = s" using assms(1) by (auto simp: raise_due_def)
  then show ?thesis using assms(2) by simp
qed

lemma raise_due_matches_stuck: "raise_due_matches s = (r, t) \<Longrightarrow> stuck i s \<Longrightarrow> stuck i t"
  unfolding raise_due_matches_def fold_timers by (metis raise_due_stuck surj_pair)

text \<open>
  counting cycles never returns when an enabled timer that is on its match neither restarts nor stops
  there: the loop serves the same match again and again without using up a cycle.
\<close>

theorem advance_cycles_never_returns:
  assumes "quiet_isr isr" and "due i s" and "\<not> restarts (timer_at i s)" and "\<not> stops (timer_at i s)"
    and "length (timers (mcu s)) = 4" and "c \<noteq> 0"
  shows "advance_cycles isr c s = None"
proof -
  let ?P = "\<lambda>isr c s (t :: 'a sim). \<not> (quiet_isr isr \<and> stuck i s \<and> c \<noteq> 0)"
  have "?P isr c s t" if "advance_cycles isr c s = Some t" for t
  proof (rule advance_cycles.raw_induct [of ?P, OF _ that])
    fix rec :: "'a isr \<Rightarrow> u32 \<Rightarrow> 'a sim \<Rightarrow> 'a sim option" and isr c s t
    assume IH: "\<And>isr c s t. rec isr c s = Some t \<Longrightarrow> ?P isr c s t"
      and body: "(if c = 0 then Some s
        else case cycles_to_next_match s of
          None \<Rightarrow> advance_running_timers isr c s
        | Some n \<Rightarrow>
            if c < n then advance_running_timers isr c s
            else case advance_running_timers isr n s of
              None \<Rightarrow> None
            | Some s \<Rightarrow>
                case raise_due_matches s of
                  (raised, s) \<Rightarrow>
                    if \<not> raised then Some s
                    else case dispatch_all isr s of None \<Rightarrow> None | Some s \<Rightarrow> rec isr (c - n) s) = Some t"
    show "?P isr c s t"
    proof
      assume a: "quiet_isr isr \<and> stuck i s \<and> c \<noteq> 0"
      then have d: "match_interrupt_enabled i s" "cycles_of (timer_at i s) = 0" by (simp_all add: stuck_def due_def cycles_of_def)
      then obtain n where n: "cycles_to_next_match s = Some n" using no_match_next by fastforce
      then have "n = 0" using nearest_is_least [OF n d(1)] d(2) by simp
      obtain r u where u: "raise_due_matches s = (r, u)" by (meson surj_pair)
      have len: "length (timers (mcu s)) = 4" "due i s" using a by (simp_all add: stuck_def)
      have r using raise_due_matches_serves(3) [OF len(1) u len(2)] .
      obtain v where v: "dispatch_all isr u = Some v" using dispatch_all_quiet [of isr u] a by blast
      have "stuck i v" using dispatch_all_stuck [OF v] raise_due_matches_stuck [OF u] a by blast
      moreover have "rec isr c v = Some t"
        using body a n u v \<open>n = 0\<close> \<open>r\<close> by (simp add: advance_running_timers_def)
      ultimately show False using IH a by blast
    qed
  qed
  then show ?thesis using assms by (cases "advance_cycles isr c s") (auto simp: stuck_def)
qed

theorem advance_cycles_never_returns_witness: "advance_cycles counting_isr 1 (one_timer 1 40 40) = None"
proof (rule advance_cycles_never_returns [OF counting_quiet])
  show "due 0 (one_timer 1 40 40)" by (simp add: due_def one_timer_enabled) (simp add: timer_at_def one_timer_def)
  show "\<not> restarts (timer_at 0 (one_timer 1 40 40))" "\<not> stops (timer_at 0 (one_timer 1 40 40))"
    by (simp_all add: restarts_def stops_def timer_at_def one_timer_def)
  show "length (timers (mcu (one_timer 1 40 40))) = 4" by (simp add: one_timer_def)
qed simp

section \<open>A periodic timer\<close>

definition periodic :: "'w sim \<Rightarrow> bool" where
  "periodic s \<longleftrightarrow> pending_irqs s = [] \<and> WDMOD (watchdog (mcu s)) AND WDEN = 0 \<and> length (timers (mcu s)) = 4 \<and>
     (\<forall>i. match_interrupt_enabled i s \<longleftrightarrow> i = 0) \<and> restarts (timer_at 0 s) \<and> \<not> stops (timer_at 0 s)"

lemma firmware_set_timer [simp]: "firmware (set_timer i t s) = firmware s" "firmware (raise_irq irq h s) = firmware s"
  by (simp_all add: set_timer_def raise_irq_def)

lemma periodic_same:
  assumes "periodic s" "same_setup s t" "pending_irqs t = []" "watchdog (mcu t) = watchdog (mcu s)"
    and "TCR (timer_at 0 t) = TCR (timer_at 0 s)"
  shows "periodic t"
proof -
  have "match_interrupt_enabled i t \<longleftrightarrow> i = 0" for i
  proof
    assume "match_interrupt_enabled i t"
    with assms(2) have "match_interrupt_enabled i s" by (rule same_setup_enabled)
    with assms(1) show "i = 0" by (simp add: periodic_def)
  next
    assume i: "i = 0"
    have "match_interrupt_enabled 0 s" using assms(1) by (simp add: periodic_def)
    with assms(2,5) show "match_interrupt_enabled i t" by (simp add: i match_interrupt_enabled_def same_setup_def)
  qed
  then show ?thesis using assms by (simp add: periodic_def restarts_def stops_def same_setup_def)
qed

lemma funpow_Suc: "(Suc ^^ n) m = n + m"
  by (induction n) simp_all

lemma count_timer_more:
  "watchdog (mcu (count_timer c i s)) = watchdog (mcu s)" "firmware (count_timer c i s) = firmware s"
  by (simp_all add: count_timer_def)

lemma periodic_advance:
  assumes "periodic s"
  obtains t where "advance_running_timers isr n s = Some t" "periodic t" "firmware t = firmware s"
    "TC (timer_at 0 t) = TC (timer_at 0 s) + n" "MR0 (timer_at 0 t) = MR0 (timer_at 0 s)"
proof (cases "n = 0")
  case True
  then show thesis using assms by (intro that [of s]) (simp_all add: advance_running_timers_def)
next
  case False
  define k where "k = count_clock n s"
  have k: "mcu k = mcu s" "pending_irqs k = pending_irqs s" "firmware k = firmware s"
    by (simp_all add: k_def count_clock_def clock_advance_us_def Let_def)
  have kt: "timer_at i k = timer_at i s" for i by (simp add: timer_at_def k(1))
  define t where "t = count_timer n 2 (count_timer n 1 (count_timer n 0 k))"
  have len: "length (timers (mcu s)) = 4" using assms by (simp add: periodic_def)
  have run: "TCR (timer_at 0 s) AND 1 \<noteq> 0" using assms by (auto simp: periodic_def match_interrupt_enabled_def)
  have lens: "length (timers (mcu (count_timer n i u))) = length (timers (mcu u))" for i u
    using count_timer_same(1) [of u n i] by (simp add: same_setup_def)
  have t0: "timer_at 0 t = (timer_at 0 s)\<lparr>TC := TC (timer_at 0 s) + n\<rparr>"
    using len run by (simp add: t_def timer_at_count lens k kt)
  have "same_setup s k" by (simp add: same_setup_def k(1) kt)
  then have st: "same_setup s t" unfolding t_def by (meson count_timer_same(1) same_setup_trans)
  show thesis
  proof (rule that)
    show "advance_running_timers isr n s = Some t"
      using assms by (simp add: advance_running_timers_def watchdog_advance_def periodic_def False fold_timers t_def k_def)
    show "periodic t"
    proof (rule periodic_same [OF assms st])
      have "pending_irqs t = pending_irqs s" by (simp only: t_def count_timer_same k(2))
      then show "pending_irqs t = []" using assms by (simp only: periodic_def)
      show "watchdog (mcu t) = watchdog (mcu s)" by (simp only: t_def count_timer_more k(1))
    qed (simp add: t0)
    show "firmware t = firmware s" by (simp add: t_def count_timer_more k)
  qed (simp_all add: t0)
qed

lemma periodic_match:
  assumes "quiet_isr isr" "\<And>i s. firmware (isr i s) = g i (firmware s)" "\<And>i s. watchdog (mcu (isr i s)) = watchdog (mcu s)"
    and "periodic t" "TC (timer_at 0 t) = MR0 (timer_at 0 t)"
  obtains u v where "raise_due_matches t = (True, u)" "dispatch_all isr u = Some v" "periodic v"
    "firmware v = g TIMER0_IRQn (firmware t)" "TC (timer_at 0 v) = 0" "MR0 (timer_at 0 v) = MR0 (timer_at 0 t)"
proof -
  have en: "match_interrupt_enabled i t \<longleftrightarrow> i = 0" for i using assms(4) by (simp add: periodic_def)
  have len: "length (timers (mcu t)) = 4" using assms(4) by (simp add: periodic_def)
  define m where "m = set_timer 0 ((timer_at 0 t)\<lparr>TC := MR0 (timer_at 0 t)\<rparr>) t"
  define u where "u = raise_irq TIMER0_IRQn (Timer_Match 0) m"
  have mt: "timer_at i m = timer_at i t" for i
    using len assms(5) by (auto simp: m_def timer_at_set_timer)
  have same: "same_setup t u" "timer_at i u = timer_at i t" "watchdog (mcu u) = watchdog (mcu t)" for i
    using mt by (simp_all add: u_def same_setup_def) (simp_all add: m_def)
  have eu: "match_interrupt_enabled i u \<longleftrightarrow> i = 0" for i
    using en [of i] same by (simp add: match_interrupt_enabled_def same_setup_def)
  have "raise_due 0 (False, t) = (True, u)"
    using en assms(5) by (simp add: raise_due_def raise_match_def u_def m_def irq_for_timer_def)
  then have raise: "raise_due_matches t = (True, u)"
    by (simp add: raise_due_matches_def fold_timers raise_due_def eu)
  define p where "p = \<lparr>pirq = TIMER0_IRQn, psequence = next_sequence m, phandler = Timer_Match 0\<rparr>"
  have pend: "pending_irqs u = [p]" using assms(4) by (simp add: u_def raise_irq_def p_def m_def periodic_def)
  have el: "eligible (the_nvic (mcu u)) p"
    using eu [of 0] by (simp add: eligible_def p_def match_interrupt_enabled_def irq_for_timer_def)
  define v where "v = run_handler isr (Timer_Match 0) (u\<lparr>pending_irqs := []\<rparr>)"
  have nx: "dispatch_next isr u = Some v"
    using el by (simp add: dispatch_next_def highest_priority_pending_def pend v_def p_def remove_nth_def)
  note run = run_handler_quiet [OF assms(1), where h = "Timer_Match 0" and s = "u\<lparr>pending_irqs := []\<rparr>", folded v_def]
  have tv: "timer_at 0 v = served (timer_at 0 t)"
  proof -
    have "length (timers (mcu (u\<lparr>pending_irqs := []\<rparr>))) = 4" using same(1) len by (simp add: same_setup_def)
    moreover have "timer_at 0 (u\<lparr>pending_irqs := []\<rparr>) = timer_at 0 t" using same(2) [of 0] by (simp add: timer_at_def)
    ultimately show ?thesis using run(1) [of 0] by simp
  qed
  have uv: "same_setup u v" using dispatch_next_quiet(1) [OF assms(1) nx] .
  have wd: "watchdog (mcu v) = watchdog (mcu u)"
    using assms(3) by (simp add: v_def run_handler_def timer_match_handler_def Let_def call_handler_def)
  have ns: "\<not> stops (timer_at 0 t)" "restarts (timer_at 0 t)" using assms(4) by (simp_all add: periodic_def)
  show thesis
  proof (rule that)
    show "raise_due_matches t = (True, u)" by (rule raise)
    have "pending_irqs v = []" using run(5) by simp
    then have "dispatch_all isr v = Some v"
      by (subst dispatch_all.simps) (simp add: dispatch_next_None [THEN iffD2])
    then show "dispatch_all isr u = Some v" by (subst dispatch_all.simps) (simp add: nx)
    show "periodic v"
      using ns same uv wd run(5) tv
      by (intro periodic_same [OF assms(4)]) (auto simp: served_def intro: same_setup_trans)
    show "firmware v = g TIMER0_IRQn (firmware t)"
      by (simp add: v_def run_handler_def timer_match_handler_def Let_def call_handler_def assms(2) irq_for_timer_def)
        (simp add: u_def m_def)
    show "TC (timer_at 0 v) = 0" "MR0 (timer_at 0 v) = MR0 (timer_at 0 t)" using ns by (simp_all add: tv served_def)
  qed
qed



end
