(* ===== verification/Event_Engine.thy ===== *)
theory Event_Engine
  imports Timer_Scheduler
begin

text \<open>
  The event engine (\<^verbatim>\<open>src/core/event_engine.cpp\<close>) and the runtime pump (\<^verbatim>\<open>src/runtime/runtime_pump.cpp\<close>):
  they run the firmware's main loop and its timer interrupts under a budget.

  The firmware's kernel (the conveyor, the serial console, the main-loop events) comes from outside the
  repository, and so do the callbacks it runs: they are the functions of the record \<open>kernel\<close>.  So are the
  microsecond ticker's poll, the physical model's service, the boot and the mainboard link, which this
  component only calls.  A pointer of the code that may be null is an option.
\<close>

section \<open>The firmware's side\<close>

record 'w conveyor =
  force_queue :: "'w sim \<Rightarrow> 'w sim"
  conveyor_on_idle :: "'w sim \<Rightarrow> 'w sim"
  conveyor_is_idle :: "'w sim \<Rightarrow> bool"

record 'w kernel =
  service_rx_irq :: "('w sim \<Rightarrow> 'w sim) option"
  on_main_loop :: "'w sim \<Rightarrow> 'w sim"
  on_idle :: "'w sim \<Rightarrow> 'w sim"
  the_conveyor :: "'w conveyor option"
  poll :: "'w sim \<Rightarrow> 'w sim"
  service_physical_model :: "'w sim \<Rightarrow> 'w sim"
  the_isr :: "'w isr"

section \<open>Options and results\<close>

datatype run_status = ConditionReached | BudgetExhausted | Reset_Status | NoProgress

datatype budget_policy = StopWhenMotionIdle | SpendFullBudget

record run_options =
  main_loop_iterations :: nat
  max_timer_events :: nat
  timer_budget_policy :: budget_policy
  main_loop_interval_us :: u32

definition default_options :: run_options where
  "default_options = \<lparr>main_loop_iterations = 0, max_timer_events = 0, timer_budget_policy = StopWhenMotionIdle,
     main_loop_interval_us = 0\<rparr>"

record run_result =
  status :: run_status
  motion_idle :: bool
  reset_seen :: bool
  iterations_run :: nat
  timer_events :: nat

definition fresh_result :: run_result where
  "fresh_result = \<lparr>status = ConditionReached, motion_idle = True, reset_seen = False, iterations_run = 0, timer_events = 0\<rparr>"

definition timer_budget_idle_interval :: nat where "timer_budget_idle_interval = 1000"

section \<open>The engine\<close>

definition request_reset :: "'w sim \<Rightarrow> 'w sim" where
  "request_reset s = s\<lparr>reset_requested := True\<rparr>"

definition consume_requested :: "'w sim \<Rightarrow> bool \<times> 'w sim" where
  "consume_requested s = (reset_requested s, s\<lparr>reset_requested := False\<rparr>)"

text \<open>One iteration of the firmware's main loop; the first component says whether the run goes on.\<close>

definition run_firmware_iteration ::
  "'w kernel \<Rightarrow> ('w sim \<Rightarrow> 'w sim) option \<Rightarrow> run_result \<Rightarrow> 'w sim \<Rightarrow> bool \<times> run_result \<times> 'w sim" where
  "run_firmware_iteration k reset r s =
     (let s = (case service_rx_irq k of None \<Rightarrow> s | Some f \<Rightarrow> f s);
          s = poll k (on_idle k (on_main_loop k s));
          r = r\<lparr>iterations_run := iterations_run r + 1\<rparr>;
          (requested, s) = consume_requested s
      in if \<not> requested then (True, r, s)
         else (False, r\<lparr>status := Reset_Status, reset_seen := True, motion_idle := True\<rparr>,
               (case reset of None \<Rightarrow> s | Some f \<Rightarrow> f s)))"

definition run_one_timer_event :: "'w kernel \<Rightarrow> 'w sim \<Rightarrow> (bool \<times> 'w sim) option" where
  "run_one_timer_event k s =
     map_option (\<lambda>(advanced, s). (advanced, service_physical_model k s)) (advance_to_next_match (the_isr k) s)"

fun main_loop :: "'w kernel \<Rightarrow> u32 \<Rightarrow> ('w sim \<Rightarrow> 'w sim) option \<Rightarrow> nat \<Rightarrow> run_result \<Rightarrow> 'w sim \<Rightarrow>
    bool \<times> run_result \<times> 'w sim" where
  "main_loop k interval reset 0 r s = (True, r, s)"
| "main_loop k interval reset (Suc n) r s =
     (let (goes_on, r, s) = run_firmware_iteration k reset r (clock_advance_us (ucast interval) s)
      in if \<not> goes_on then (False, r, s) else main_loop k interval reset n r s)"

text \<open>The timer loop with \<open>n\<close> events of the budget left.\<close>

fun timer_loop :: "'w kernel \<Rightarrow> 'w conveyor \<Rightarrow> bool \<Rightarrow> ('w sim \<Rightarrow> 'w sim) option \<Rightarrow> nat \<Rightarrow> run_result \<Rightarrow> 'w sim \<Rightarrow>
    (run_result \<times> 'w sim) option" where
  "timer_loop k c spend_full reset 0 r s =
     Some (r\<lparr>status := (if spend_full then ConditionReached else BudgetExhausted)\<rparr>, s)"
| "timer_loop k c spend_full reset (Suc n) r s = (case run_one_timer_event k s of
     None \<Rightarrow> None
   | Some (advanced, s) \<Rightarrow>
       (if \<not> advanced then Some (r\<lparr>status := NoProgress\<rparr>, s)
        else let r = r\<lparr>timer_events := timer_events r + 1\<rparr>;
                 s = force_queue c (conveyor_on_idle c s);
                 r = r\<lparr>motion_idle := conveyor_is_idle c s\<rparr>;
                 (goes_on, r, s) =
                   (if spend_full \<and> timer_events r mod timer_budget_idle_interval = 0
                    then run_firmware_iteration k reset r s else (True, r, s))
             in if \<not> goes_on then Some (r, s)
                else if motion_idle r \<and> \<not> spend_full then Some (r\<lparr>status := ConditionReached\<rparr>, s)
                else timer_loop k c spend_full reset n r s))"

definition run :: "'w kernel \<Rightarrow> run_options \<Rightarrow> ('w sim \<Rightarrow> 'w sim) option \<Rightarrow> 'w sim \<Rightarrow> (run_result \<times> 'w sim) option" where
  "run k opts reset s =
     (let (goes_on, r, s) = main_loop k (main_loop_interval_us opts) reset (main_loop_iterations opts) fresh_result s
      in if \<not> goes_on then Some (r, s)
         else if max_timer_events opts = 0 then Some (r, s)
         else case the_conveyor k of
           None \<Rightarrow> Some (r\<lparr>motion_idle := False, status := NoProgress\<rparr>, s)
         | Some c \<Rightarrow>
             let spend_full = (timer_budget_policy opts = SpendFullBudget);
                 s = force_queue c s;
                 r = r\<lparr>motion_idle := conveyor_is_idle c s\<rparr>
             in if motion_idle r \<and> \<not> spend_full then Some (r, s)
                else timer_loop k c spend_full reset (max_timer_events opts) r s)"

definition engine_until_idle :: "'w kernel \<Rightarrow> nat \<Rightarrow> 'w sim \<Rightarrow> (run_result \<times> 'w sim) option" where
  "engine_until_idle k n s = run k (default_options\<lparr>max_timer_events := n\<rparr>) None s"

section \<open>The pump\<close>

record 'w boot_session =
  boot :: "'w sim \<Rightarrow> 'w sim"
  service_mainboard_link :: "'w sim \<Rightarrow> 'w sim"
  boot_reset :: "'w sim \<Rightarrow> 'w sim"

definition kManualMainLoopIntervalUs :: u32 where "kManualMainLoopIntervalUs = 2000"

definition runtime_options :: "bool \<Rightarrow> run_options \<Rightarrow> run_options" where
  "runtime_options realtime opts =
     (let timers_advance_clock = (max_timer_events opts > 0 \<and> timer_budget_policy opts = SpendFullBudget)
      in if \<not> realtime \<and> \<not> timers_advance_clock \<and> main_loop_interval_us opts = 0
         then opts\<lparr>main_loop_interval_us := kManualMainLoopIntervalUs\<rparr> else opts)"

definition pump :: "'w kernel \<Rightarrow> 'w boot_session \<Rightarrow> ('w sim \<Rightarrow> bool) \<Rightarrow> run_options \<Rightarrow> 'w sim \<Rightarrow> (run_result \<times> 'w sim) option" where
  "pump k b realtime opts s =
     (let s = service_mainboard_link b (boot b s);
          ropts = runtime_options (realtime s) opts
      in case run k ropts (Some (boot_reset b)) s of
           None \<Rightarrow> None
         | Some (r, s) \<Rightarrow>
             let s = service_mainboard_link b s
             in if max_timer_events opts = 0 \<or> reset_seen r then Some (r, s)
                else case run k (default_options\<lparr>main_loop_iterations := 1, main_loop_interval_us := main_loop_interval_us ropts\<rparr>)
                       (Some (boot_reset b)) s of
                  None \<Rightarrow> None
                | Some (f, s) \<Rightarrow>
                    let r = r\<lparr>iterations_run := iterations_run r + iterations_run f\<rparr>
                    in Some (if reset_seen f
                             then r\<lparr>status := status f, reset_seen := True, motion_idle := True\<rparr> else r, s))"

definition run_main_loop :: "'w kernel \<Rightarrow> 'w boot_session \<Rightarrow> ('w sim \<Rightarrow> bool) \<Rightarrow> nat \<Rightarrow> 'w sim \<Rightarrow> (run_result \<times> 'w sim) option" where
  "run_main_loop k b realtime n = pump k b realtime (default_options\<lparr>main_loop_iterations := n\<rparr>)"

definition run_timer_events :: "'w kernel \<Rightarrow> 'w boot_session \<Rightarrow> nat \<Rightarrow> 'w sim \<Rightarrow> (run_result \<times> 'w sim) option" where
  "run_timer_events k b n s =
     map_option (\<lambda>(r, s). (r, service_mainboard_link b s))
       (run k (default_options\<lparr>max_timer_events := n\<rparr>) None (boot b s))"

definition run_until_motion_idle :: "'w kernel \<Rightarrow> 'w boot_session \<Rightarrow> ('w sim \<Rightarrow> bool) \<Rightarrow> nat \<Rightarrow> 'w sim \<Rightarrow> (run_result \<times> 'w sim) option" where
  "run_until_motion_idle k b realtime n =
     pump k b realtime (default_options\<lparr>main_loop_iterations := 64, max_timer_events := n\<rparr>)"

definition pump_free_running :: "'w kernel \<Rightarrow> 'w boot_session \<Rightarrow> ('w sim \<Rightarrow> bool) \<Rightarrow> nat \<Rightarrow> nat \<Rightarrow> 'w sim \<Rightarrow> (bool \<times> 'w sim) option" where
  "pump_free_running k b realtime iterations ticks s =
     map_option (\<lambda>(r, s). (motion_idle r, s))
       (pump k b realtime (default_options\<lparr>main_loop_iterations := iterations, max_timer_events := ticks,
          timer_budget_policy := SpendFullBudget\<rparr>) s)"

section \<open>Properties\<close>

lemma firmware_iteration_cases:
  assumes "run_firmware_iteration k reset r s = (goes_on, r', s')"
  shows "if goes_on then r' = r\<lparr>iterations_run := iterations_run r + 1\<rparr> \<and> \<not> reset_requested s'
         else r' = r\<lparr>iterations_run := iterations_run r + 1, status := Reset_Status, reset_seen := True, motion_idle := True\<rparr>"
  using assms by (auto simp: run_firmware_iteration_def Let_def consume_requested_def split: if_splits)

lemma main_loop_result:
  "main_loop k interval reset n r s = (goes_on, r', s') \<Longrightarrow> status r = ConditionReached \<Longrightarrow> \<not> reset_seen r \<Longrightarrow>
   timer_events r' = timer_events r \<and> iterations_run r' \<le> iterations_run r + n \<and>
   (if goes_on then r' = r\<lparr>iterations_run := iterations_run r + n\<rparr>
    else status r' = Reset_Status \<and> reset_seen r' \<and> motion_idle r' \<and> iterations_run r < iterations_run r')"
proof (induction n arbitrary: r s)
  case (Suc n)
  obtain g r1 s1 where 1: "run_firmware_iteration k reset r (clock_advance_us (ucast interval) s) = (g, r1, s1)"
    by (metis prod_cases3)
  note it = firmware_iteration_cases [OF 1]
  show ?case
  proof (cases g)
    case False
    then show ?thesis using Suc.prems it 1 by auto
  next
    case True
    have "main_loop k interval reset n r1 s1 = (goes_on, r', s')" using Suc.prems(1) 1 True by simp
    from Suc.IH [OF this] it True Suc.prems(2,3) show ?thesis by (auto split: if_splits)
  qed
qed simp

text \<open>What a result means, for a run of a budget of \<open>n\<close> events.\<close>

definition result_ok :: "bool \<Rightarrow> nat \<Rightarrow> run_result \<Rightarrow> bool" where
  "result_ok spend_full n r \<longleftrightarrow> timer_events r \<le> n \<and> (reset_seen r \<longleftrightarrow> status r = Reset_Status) \<and>
     (case status r of
        ConditionReached \<Rightarrow> (if spend_full then timer_events r = n else motion_idle r)
      | BudgetExhausted \<Rightarrow> \<not> spend_full \<and> timer_events r = n \<and> \<not> motion_idle r
      | Reset_Status \<Rightarrow> motion_idle r
      | NoProgress \<Rightarrow> timer_events r < n)"

lemma timer_loop_ok:
  assumes "timer_loop k c spend_full reset n r s = Some (r', s')"
    and "\<not> reset_seen r" and "spend_full \<or> \<not> motion_idle r"
  shows "result_ok spend_full (timer_events r + n) r'"
  using assms
proof (induction n arbitrary: r s)
  case 0
  then show ?case by (auto simp: result_ok_def)
next
  case (Suc n)
  obtain advanced s1 where 1: "run_one_timer_event k s = Some (advanced, s1)"
    using Suc.prems(1) by (auto split: option.splits)
  show ?case
  proof (cases advanced)
    case False
    then show ?thesis using Suc.prems(1,2) 1 by (auto simp: result_ok_def)
  next
    case True
    define s2 where "s2 = force_queue c (conveyor_on_idle c s1)"
    define r1 where "r1 = r\<lparr>timer_events := timer_events r + 1, motion_idle := conveyor_is_idle c s2\<rparr>"
    obtain g r2 s3 where 2: "(if spend_full \<and> timer_events r1 mod timer_budget_idle_interval = 0
        then run_firmware_iteration k reset r1 s2 else (True, r1, s2)) = (g, r2, s3)"
      by (metis prod_cases3)
    have r2: "timer_events r2 = timer_events r + 1" "g \<Longrightarrow> \<not> reset_seen r2 \<and> motion_idle r2 = motion_idle r1"
      "\<not> g \<Longrightarrow> status r2 = Reset_Status \<and> reset_seen r2 \<and> motion_idle r2"
      using 2 firmware_iteration_cases [of k reset r1 s2 g r2 s3] Suc.prems(2)
      by (auto simp: r1_def split: if_splits)
    have step: "timer_loop k c spend_full reset (Suc n) r s =
        (if \<not> g then Some (r2, s3)
         else if motion_idle r2 \<and> \<not> spend_full then Some (r2\<lparr>status := ConditionReached\<rparr>, s3)
         else timer_loop k c spend_full reset n r2 s3)"
      by (simp only: timer_loop.simps 1 option.case prod.case True not_True_eq_False if_False Let_def
          s2_def [symmetric] r1_def [symmetric] 2)
    show ?thesis
    proof (cases "g \<and> (spend_full \<or> \<not> motion_idle r2)")
      case go: True
      then have "timer_loop k c spend_full reset n r2 s3 = Some (r', s')" using Suc.prems(1) step by auto
      from Suc.IH [OF this] go r2 show ?thesis by simp
    next
      case False
      then show ?thesis using Suc.prems(1) step r2 by (auto simp: result_ok_def split: if_splits)
    qed
  qed
qed


definition idle_kernel :: "nat \<Rightarrow> nat kernel" where
  "idle_kernel target =
     \<lparr>service_rx_irq = None, on_main_loop = (\<lambda>s. s\<lparr>firmware := Suc (firmware s)\<rparr>), on_idle = (\<lambda>s. s),
      the_conveyor = Some \<lparr>force_queue = (\<lambda>s. s), conveyor_on_idle = (\<lambda>s. s), conveyor_is_idle = (\<lambda>s. target \<le> firmware s)\<rparr>,
      poll = (\<lambda>s. s), service_physical_model = (\<lambda>s. s), the_isr = (\<lambda>irq s. s)\<rparr>"


end
