(* ===== verification/I2c_Eeprom.thy ===== *)
theory I2c_Eeprom
  imports Crc16 Host_Files
begin

text \<open>
  The machine's I2C EEPROM (\<^verbatim>\<open>src/firmware/i2c_sim.cpp\<close>, \<^verbatim>\<open>include/sim/i2c_eeprom.hpp\<close>): the bus protocol
  (select, two address bytes, data with page wrap-around), the cells, the factory-settings record and
  the file that keeps the cells across runs.  An operation takes and returns the device together with
  the host's file system.
\<close>

section \<open>State\<close>

definition kEepromSize :: nat where "kEepromSize = 4096"

datatype machine_model = CarveraC1 | CarveraAirCA1 | MakeraZ1 | MakeraZ1Pro

definition model_byte :: "machine_model \<Rightarrow> u8" where
  "model_byte m = (case m of CarveraC1 \<Rightarrow> 1 | CarveraAirCA1 \<Rightarrow> 2 | MakeraZ1 \<Rightarrow> 3 | MakeraZ1Pro \<Rightarrow> 4)"

record factory_settings =
  fs_model :: machine_model
  function_setting :: u8
  reserve1 :: u8
  reserve2 :: u8

record eeprom_config =
  size_bytes :: nat
  page_size :: nat
  fill :: u8
  write_address :: u8
  read_address :: u8

definition default_eeprom_config :: eeprom_config where
  "default_eeprom_config = \<lparr>size_bytes = kEepromSize, page_size = 32, fill = 0xff, write_address = 0xa0, read_address = 0xa1\<rparr>"

record eeprom =
  econfig :: eeprom_config
  storage :: "u8 list"
  persistent_path :: "host_path option"
  loaded_from_file :: bool
  selected :: bool
  read_mode :: bool
  address_bytes_seen :: nat
  current_address :: u16
  page_start_address :: u16

definition new_eeprom :: eeprom where
  "new_eeprom =
     \<lparr>econfig = default_eeprom_config, storage = replicate kEepromSize 0xff, persistent_path = None, loaded_from_file = False,
      selected = False, read_mode = False, address_bytes_seen = 0, current_address = 0, page_start_address = 0\<rparr>"

section \<open>The backing file\<close>

definition eeprom_persist :: "eeprom \<Rightarrow> host_fs \<Rightarrow> host_fs" where
  "eeprom_persist d fs = (case persistent_path d of
     None \<Rightarrow> fs
   | Some p \<Rightarrow> (let fs = create_directories (butlast p) fs
                in case write_trunc p (map chr_of (storage d)) fs of None \<Rightarrow> fs | Some fs \<Rightarrow> fs))"

text \<open>What a stream reads from a directory is nothing.\<close>

definition load_from_persistent_file :: "eeprom \<Rightarrow> host_fs \<Rightarrow> eeprom" where
  "load_from_persistent_file d fs =
     (let d = d\<lparr>loaded_from_file := False\<rparr>
      in case persistent_path d of
           None \<Rightarrow> d
         | Some p \<Rightarrow> (case fs_lookup fs p of
               None \<Rightarrow> d
             | Some node \<Rightarrow>
                 let n = size_bytes (econfig d); got = map byte_of (take n (read_file fs p))
                 in d\<lparr>storage := got @ replicate (n - length got) (fill (econfig d)), loaded_from_file := got \<noteq> []\<rparr>))"

section \<open>The bus\<close>

definition eeprom_stop :: "eeprom \<Rightarrow> eeprom" where
  "eeprom_stop d = d\<lparr>selected := False, read_mode := False, address_bytes_seen := 0\<rparr>"

definition normalized_address :: "eeprom \<Rightarrow> u16 \<Rightarrow> nat" where
  "normalized_address d a = (if storage d = [] then 0 else unat a mod length (storage d))"

definition eeprom_peek :: "u16 \<Rightarrow> eeprom \<Rightarrow> u8" where
  "eeprom_peek a d = storage d ! normalized_address d a"

definition eeprom_poke :: "u16 \<Rightarrow> u8 \<Rightarrow> eeprom \<times> host_fs \<Rightarrow> eeprom \<times> host_fs" where
  "eeprom_poke a v dfs =
     (let (d, fs) = dfs; d = d\<lparr>storage := (storage d)[normalized_address d a := v]\<rparr>
      in (d, eeprom_persist d fs))"

text \<open>\<^verbatim>\<open>(current_address_ + 1 - page_start_address_) % page_size\<close> is taken in \<^verbatim>\<open>size_t\<close>.\<close>

definition wrapped_next_write_address :: "eeprom \<Rightarrow> u16" where
  "wrapped_next_write_address d =
     (let offset = word_of_nat (nat ((uint (current_address d) + 1 - uint (page_start_address d)) mod 2 ^ 64)
                     mod page_size (econfig d)) :: u16
      in page_start_address d + offset)"

definition eeprom_select :: "u8 \<Rightarrow> eeprom \<Rightarrow> int \<times> eeprom" where
  "eeprom_select address d =
     (if address \<noteq> write_address (econfig d) \<and> address \<noteq> read_address (econfig d) then (1, d\<lparr>selected := False\<rparr>)
      else (0, d\<lparr>selected := True, read_mode := (address = read_address (econfig d)), address_bytes_seen := 0\<rparr>))"

definition eeprom_write :: "u8 \<Rightarrow> eeprom \<times> host_fs \<Rightarrow> int \<times> eeprom \<times> host_fs" where
  "eeprom_write v dfs =
     (let (d, fs) = dfs
      in if \<not> selected d then (case eeprom_select v d of (r, d) \<Rightarrow> (r, d, fs))
         else if read_mode d then (0, d, fs)
         else if address_bytes_seen d = 0
         then (0, d\<lparr>current_address := push_bit 8 (ucast v), address_bytes_seen := address_bytes_seen d + 1\<rparr>, fs)
         else if address_bytes_seen d = 1
         then let d = d\<lparr>current_address := current_address d OR ucast v\<rparr>;
                  page = page_size (econfig d)
              in (0, d\<lparr>page_start_address := word_of_nat ((unat (current_address d) div page) * page),
                       address_bytes_seen := address_bytes_seen d + 1\<rparr>, fs)
         else case eeprom_poke (current_address d) v (d, fs) of
           (d, fs) \<Rightarrow> (0, d\<lparr>current_address := wrapped_next_write_address d\<rparr>, fs))"

definition eeprom_read :: "eeprom \<Rightarrow> u8 \<times> eeprom" where
  "eeprom_read d = (eeprom_peek (current_address d) d, d\<lparr>current_address := current_address d + 1\<rparr>)"

section \<open>Configuration\<close>

definition eeprom_configure :: "eeprom_config \<Rightarrow> eeprom \<times> host_fs \<Rightarrow> eeprom \<times> host_fs" where
  "eeprom_configure c dfs =
     (let (d, fs) = dfs;
          c = (if size_bytes c = 0 then c\<lparr>size_bytes := kEepromSize\<rparr> else c);
          c = (if page_size c = 0 then c\<lparr>page_size := 1\<rparr> else c);
          d = d\<lparr>econfig := c, storage := replicate (size_bytes c) (fill c)\<rparr>;
          d = (if persistent_path d \<noteq> None then load_from_persistent_file d fs else d);
          d = eeprom_stop d
      in (d, eeprom_persist d fs))"

definition eeprom_reset :: "eeprom \<times> host_fs \<Rightarrow> eeprom \<times> host_fs" where
  "eeprom_reset dfs =
     (let (d, fs) = dfs;
          d = eeprom_stop (d\<lparr>storage := replicate (size_bytes (econfig d)) (fill (econfig d))\<rparr>)
      in (d, eeprom_persist d fs))"

definition eeprom_reset_fill :: "u8 \<Rightarrow> eeprom \<times> host_fs \<Rightarrow> eeprom \<times> host_fs" where
  "eeprom_reset_fill b = eeprom_configure (default_eeprom_config\<lparr>fill := b\<rparr>)"

text \<open>The path is the absolute one.\<close>

definition use_persistent_file :: "host_path \<Rightarrow> eeprom \<times> host_fs \<Rightarrow> bool \<times> eeprom \<times> host_fs" where
  "use_persistent_file p dfs =
     (let (d, fs) = dfs;
          d = load_from_persistent_file (d\<lparr>persistent_path := Some p, loaded_from_file := False\<rparr>) fs;
          fs = (if \<not> loaded_from_file d then eeprom_persist d fs else fs)
      in (loaded_from_file d, d, fs))"

definition clear_persistent_file :: "eeprom \<Rightarrow> eeprom" where
  "clear_persistent_file d = d\<lparr>persistent_path := None, loaded_from_file := False\<rparr>"

definition factory_address :: u16 where
  "factory_address = 16 * 32"

definition factory_record :: "factory_settings \<Rightarrow> u8 list" where
  "factory_record s = [0x5a, 0xa5, model_byte (fs_model s), function_setting s, reserve1 s, reserve2 s]"

definition configure_factory_settings :: "factory_settings \<Rightarrow> eeprom \<times> host_fs \<Rightarrow> eeprom \<times> host_fs" where
  "configure_factory_settings s dfs =
     (let record_bytes = factory_record s;
          crc = crc16_ccitt_bytes record_bytes;
          dfs = fold (\<lambda>(i, b). eeprom_poke (factory_address + word_of_nat i) b) (enumerate 0 record_bytes) dfs;
          dfs = eeprom_poke (factory_address + 6) (lo8 crc) dfs
      in eeprom_poke (factory_address + 6 + 1) (hi8 crc) dfs)"

section \<open>The firmware's view of the bus\<close>

definition i2c_start :: "eeprom \<times> host_fs \<Rightarrow> eeprom \<times> host_fs" where
  "i2c_start dfs = (eeprom_stop (fst dfs), snd dfs)"

text \<open>\<^verbatim>\<open>I2C::write\<close> answers \<^verbatim>\<open>ACK\<close> (1) or \<^verbatim>\<open>NoACK\<close> (0).\<close>

definition i2c_write :: "u8 \<Rightarrow> eeprom \<times> host_fs \<Rightarrow> int \<times> eeprom \<times> host_fs" where
  "i2c_write v dfs = (case eeprom_write v dfs of (r, dfs) \<Rightarrow> (if r = 0 then 1 else 0, dfs))"

definition i2c_read :: "eeprom \<times> host_fs \<Rightarrow> u8 \<times> eeprom \<times> host_fs" where
  "i2c_read dfs = (case eeprom_read (fst dfs) of (b, d) \<Rightarrow> (b, d, snd dfs))"

definition i2c_stop :: "eeprom \<times> host_fs \<Rightarrow> eeprom \<times> host_fs" where
  "i2c_stop dfs = (eeprom_stop (fst dfs), snd dfs)"

text \<open>The transactions of a bus master: writing \<open>ds\<close> at \<open>a\<close>, and reading \<open>n\<close> bytes from \<open>a\<close>.\<close>

definition bus_write_bytes :: "u8 list \<Rightarrow> eeprom \<times> host_fs \<Rightarrow> eeprom \<times> host_fs" where
  "bus_write_bytes bs = fold (\<lambda>b dfs. snd (i2c_write b dfs)) bs"

fun bus_read_bytes :: "nat \<Rightarrow> eeprom \<times> host_fs \<Rightarrow> u8 list \<times> eeprom \<times> host_fs" where
  "bus_read_bytes 0 dfs = ([], dfs)"
| "bus_read_bytes (Suc n) dfs =
     (let (b, dfs) = i2c_read dfs; (bs, dfs) = bus_read_bytes n dfs in (b # bs, dfs))"

definition write_transaction :: "u16 \<Rightarrow> u8 list \<Rightarrow> eeprom \<times> host_fs \<Rightarrow> eeprom \<times> host_fs" where
  "write_transaction a ds dfs =
     i2c_stop (bus_write_bytes (write_address (econfig (fst dfs)) # hi8 a # lo8 a # ds) (i2c_start dfs))"

definition read_transaction :: "u16 \<Rightarrow> nat \<Rightarrow> eeprom \<times> host_fs \<Rightarrow> u8 list \<times> eeprom \<times> host_fs" where
  "read_transaction a n dfs =
     (let dfs = bus_write_bytes [write_address (econfig (fst dfs)), hi8 a, lo8 a] (i2c_start dfs);
          dfs = bus_write_bytes [read_address (econfig (fst dfs))] (i2c_start dfs);
          (bs, dfs) = bus_read_bytes n dfs
      in (bs, i2c_stop dfs))"

section \<open>Properties\<close>

text \<open>The device never depends on the host's files while the bus is used.\<close>

lemma fst_poke: "fst (eeprom_poke a v dfs) = (fst dfs)\<lparr>storage := (storage (fst dfs))[normalized_address (fst dfs) a := v]\<rparr>"
  by (simp add: eeprom_poke_def split_beta Let_def)

text \<open>The device after the two address bytes, ready for the data byte at \<open>base + o\<close>.\<close>

definition bus_at :: "nat \<Rightarrow> nat \<Rightarrow> eeprom \<Rightarrow> bool" where
  "bus_at base o' d \<longleftrightarrow> selected d \<and> \<not> read_mode d \<and> address_bytes_seen d = 2 \<and>
     page_start_address d = word_of_nat base \<and> current_address d = word_of_nat (base + o')"

fun page_store :: "nat \<Rightarrow> nat \<Rightarrow> nat \<Rightarrow> u8 list \<Rightarrow> u8 list \<Rightarrow> u8 list" where
  "page_store P base o' [] xs = xs"
| "page_store P base o' (v # vs) xs =
     page_store P base ((o' + 1) mod P) vs (xs[(base + o') mod length xs := v])"

definition cells_ok :: "eeprom \<Rightarrow> bool" where
  "cells_ok d \<longleftrightarrow> length (storage d) = size_bytes (econfig d) \<and> 0 < page_size (econfig d) \<and>
     page_size (econfig d) dvd size_bytes (econfig d) \<and> size_bytes (econfig d) dvd 65536 \<and>
     write_address (econfig d) \<noteq> read_address (econfig d)"

lemma write_bytes_simps [simp]:
  "bus_write_bytes [] dfs = dfs" "bus_write_bytes (b # bs) dfs = bus_write_bytes bs (snd (i2c_write b dfs))"
  by (simp_all add: bus_write_bytes_def)

lemma unat_small: "n < 65536 \<Longrightarrow> unat (word_of_nat n :: u16) = n"
  by (simp add: unat_of_nat take_bit_nat_eq_self)

lemma data_byte:
  assumes "bus_at base o' d" and "o' < page_size (econfig d)" and "base + page_size (econfig d) \<le> 65536"
    and "storage d \<noteq> []"
  shows "bus_at base ((o' + 1) mod page_size (econfig d)) (fst (snd (i2c_write v (d, fs))))"
    and "storage (fst (snd (i2c_write v (d, fs)))) = (storage d)[(base + o') mod length (storage d) := v]"
    and "econfig (fst (snd (i2c_write v (d, fs)))) = econfig d"
    and "persistent_path (fst (snd (i2c_write v (d, fs)))) = persistent_path d"
proof -
  let ?P = "page_size (econfig d)"
  have bus: "selected d" "\<not> read_mode d" "address_bytes_seen d = 2" "page_start_address d = word_of_nat base"
    "current_address d = word_of_nat (base + o')" using assms(1) by (simp_all add: bus_at_def)
  define d1 where "d1 = d\<lparr>storage := (storage d)[normalized_address d (current_address d) := v]\<rparr>"
  have w: "fst (snd (i2c_write v (d, fs))) = d1\<lparr>current_address := wrapped_next_write_address d1\<rparr>"
    by (simp add: i2c_write_def eeprom_write_def bus eeprom_poke_def d1_def split_beta Let_def)
  have lt: "base + o' < 65536" "base < 65536" using assms(2,3) by linarith+
  have cur: "current_address d1 = word_of_nat (base + o')" "page_start_address d1 = word_of_nat base"
    unfolding d1_def using bus by simp_all
  have "uint (current_address d1) = int (base + o')" "uint (page_start_address d1) = int base"
    unfolding cur uint_nat unat_small [OF lt(1)] unat_small [OF lt(2)] by (rule refl)+
  then have "nat ((uint (current_address d1) + 1 - uint (page_start_address d1)) mod 2 ^ 64) = o' + 1"
    using lt by simp
  then have nx: "wrapped_next_write_address d1 = word_of_nat (base + (o' + 1) mod ?P)"
    by (simp add: wrapped_next_write_address_def Let_def) (simp add: d1_def bus)
  show "bus_at base ((o' + 1) mod ?P) (fst (snd (i2c_write v (d, fs))))"
    by (simp add: w bus_at_def nx) (simp add: d1_def bus)
  have "unat (current_address d) = base + o'" unfolding bus by (rule unat_small [OF lt(1)])
  then show "storage (fst (snd (i2c_write v (d, fs)))) = (storage d)[(base + o') mod length (storage d) := v]"
    using assms(4) by (simp add: w d1_def normalized_address_def)
  show "econfig (fst (snd (i2c_write v (d, fs)))) = econfig d"
    "persistent_path (fst (snd (i2c_write v (d, fs)))) = persistent_path d" by (simp_all add: w d1_def)
qed

lemma data_phase:
  assumes "bus_at base o' (fst dfs)" and "o' < page_size (econfig (fst dfs))"
    and "base + page_size (econfig (fst dfs)) \<le> 65536" and "storage (fst dfs) \<noteq> []"
  shows "storage (fst (bus_write_bytes ds dfs)) = page_store (page_size (econfig (fst dfs))) base o' ds (storage (fst dfs)) \<and>
    econfig (fst (bus_write_bytes ds dfs)) = econfig (fst dfs) \<and>
    persistent_path (fst (bus_write_bytes ds dfs)) = persistent_path (fst dfs)"
  using assms
proof (induction ds arbitrary: o' dfs)
  case (Cons v ds)
  obtain d fs where dfs: "dfs = (d, fs)" by (cases dfs)
  have pos: "(o' + 1) mod page_size (econfig d) < page_size (econfig d)"
    using Cons.prems(2) dfs by (intro mod_less_divisor) simp
  have byte: "bus_at base o' d" "o' < page_size (econfig d)" "base + page_size (econfig d) \<le> 65536" "storage d \<noteq> []"
    using Cons.prems dfs by simp_all
  note step = data_byte [OF byte, of v fs]
  have "storage (fst (snd (i2c_write v (d, fs)))) \<noteq> []" using step(2) byte(4) by simp
  with Cons.IH [of "(o' + 1) mod page_size (econfig d)" "snd (i2c_write v (d, fs))"] step pos byte(3)
  show ?case by (simp add: dfs)
qed simp

lemma length_page_store [simp]: "length (page_store P base o' vs xs) = length xs"
  by (induction P base o' vs xs rule: page_store.induct) simp_all

lemma page_cell:
  assumes "P dvd S" "P dvd base" "o' < P"
  shows "((base :: nat) + o') mod S = base mod S + o'"
proof (cases "S = 0")
  case False
  have "P dvd base mod S" using assms(1,2) by (simp add: dvd_mod)
  moreover have "base mod S < S" using False by simp
  ultimately have "base mod S + P \<le> S"
    using assms(1) by (auto simp: dvd_def) (metis Suc_leI mult_Suc_right mult_le_mono2 mult_less_cancel1 add.commute)
  then have "base mod S + o' < S" using assms(3) by linarith
  then show ?thesis by (metis mod_add_left_eq mod_less)
qed simp

lemma page_store_nth:
  assumes "P dvd length xs" "P dvd base" "o' < P" "length vs \<le> P" "xs \<noteq> []"
  shows "(\<forall>i < length vs. page_store P base o' vs xs ! (base mod length xs + (o' + i) mod P) = vs ! i) \<and>
    (\<forall>x. (\<forall>i < length vs. x \<noteq> base mod length xs + (o' + i) mod P) \<longrightarrow> page_store P base o' vs xs ! x = xs ! x)"
  using assms
proof (induction P base o' vs xs rule: page_store.induct)
  case (2 P base o' v vs xs)
  let ?o = "(o' + 1) mod P" and ?xs = "xs[(base + o') mod length xs := v]" and ?b = "base mod length xs"
  have pos: "(base + o') mod length xs = ?b + o'" using 2 by (intro page_cell)
  have lt: "?b + o' < length xs" using pos "2.prems"(5) by (metis length_greater_0_conv mod_less_divisor)
  have shift: "(?o + i) mod P = (o' + Suc i) mod P" for i by (simp add: mod_add_left_eq)
  have IH: "\<forall>i < length vs. page_store P base ?o vs ?xs ! (?b + (o' + Suc i) mod P) = vs ! i"
    "\<forall>x. (\<forall>i < length vs. x \<noteq> ?b + (o' + Suc i) mod P) \<longrightarrow> page_store P base ?o vs ?xs ! x = ?xs ! x"
    using "2.IH" "2.prems" shift by simp_all
  have other: "(o' + Suc i) mod P \<noteq> o'" if "i < length vs" for i
  proof
    assume "(o' + Suc i) mod P = o'"
    then have "(o' + Suc i) mod P = o' mod P" using "2.prems"(3) by simp
    then have "P dvd Suc i" by (metis add_diff_cancel_left' le_add1 mod_eq_dvd_iff_nat)
    then show False using that "2.prems"(4) by (auto dest: dvd_imp_le)
  qed
  show ?case
  proof (intro conjI allI impI)
    fix i assume i: "i < length (v # vs)"
    show "page_store P base o' (v # vs) xs ! (?b + (o' + i) mod P) = (v # vs) ! i"
    proof (cases i)
      case 0
      have "page_store P base ?o vs ?xs ! (?b + o') = ?xs ! (?b + o')" using IH(2) other by (metis add_left_cancel)
      then show ?thesis using lt pos "2.prems"(3) by (simp add: 0)
    next
      case (Suc j)
      then show ?thesis using IH(1) i by simp
    qed
  next
    fix x assume x: "\<forall>i < length (v # vs). x \<noteq> ?b + (o' + i) mod P"
    then have "x \<noteq> ?b + o'" using "2.prems"(3) by (metis add_0_right length_greater_0_conv list.distinct(1) mod_less)
    moreover have "\<forall>i < length vs. x \<noteq> ?b + (o' + Suc i) mod P" using x by auto
    ultimately show "page_store P base o' (v # vs) xs ! x = xs ! x" using IH(2) pos by simp
  qed
qed simp

text \<open>The address phase of a write.\<close>

lemma address_phase:
  fixes d :: eeprom and fs :: host_fs and a :: u16
  assumes "write_address (econfig d) \<noteq> read_address (econfig d)" and "page_size (econfig d) dvd 65536"
    and "P = page_size (econfig d)"
  defines "dfs \<equiv> bus_write_bytes [write_address (econfig d), hi8 a, lo8 a] (i2c_start (d, fs))"
  shows "bus_at (unat a div P * P) (unat a mod P) (fst dfs)" and "storage (fst dfs) = storage d" and "econfig (fst dfs) = econfig d"
    and "persistent_path (fst dfs) = persistent_path d" and "snd dfs = fs" and "current_address (fst dfs) = a"
proof -
  have a: "push_bit 8 (ucast (hi8 a)) OR ucast (lo8 a) = a" using join16_hi_lo [of a] by (simp add: join16_def)
  have "dfs = (d\<lparr>selected := True, read_mode := False, address_bytes_seen := 2, current_address := a,
      page_start_address := word_of_nat (unat a div P * P)\<rparr>, fs)"
    using assms(1) a
    by (simp add: dfs_def i2c_start_def i2c_write_def eeprom_write_def eeprom_select_def eeprom_stop_def Let_def numeral_2_eq_2 assms(3))
  then show "bus_at (unat a div P * P) (unat a mod P) (fst dfs)" and "storage (fst dfs) = storage d" and "econfig (fst dfs) = econfig d"
    and "persistent_path (fst dfs) = persistent_path d" and "snd dfs = fs" and "current_address (fst dfs) = a"
    by (simp_all add: bus_at_def)
qed

lemma write_bytes_append: "bus_write_bytes (xs @ ys) dfs = bus_write_bytes ys (bus_write_bytes xs dfs)"
  by (simp add: bus_write_bytes_def)

lemma page_in_range:
  assumes "P dvd 65536" "0 < P"
  shows "unat (a :: u16) div P * P + P \<le> 65536"
proof -
  obtain m where m: "65536 = P * m" using assms(1) by (auto simp: dvd_def)
  have "unat a < P * m" using unat_u16_lt [of a] m by simp
  then have "unat a div P < m" using assms(2) by (simp add: less_mult_imp_div_less mult.commute)
  then have "Suc (unat a div P) * P \<le> m * P" by (intro mult_le_mono1) simp
  then show ?thesis using m by (simp add: algebra_simps)
qed

lemma cells_okD:
  assumes "cells_ok d"
  shows "write_address (econfig d) \<noteq> read_address (econfig d)" "page_size (econfig d) dvd 65536"
    "0 < page_size (econfig d)" "storage d \<noteq> []" "page_size (econfig d) dvd length (storage d)"
    "length (storage d) = size_bytes (econfig d)"
proof -
  show "write_address (econfig d) \<noteq> read_address (econfig d)" "0 < page_size (econfig d)"
    "page_size (econfig d) dvd length (storage d)" and size: "length (storage d) = size_bytes (econfig d)"
    using assms by (simp_all add: cells_ok_def)
  have dvd: "size_bytes (econfig d) dvd 65536" "page_size (econfig d) dvd size_bytes (econfig d)"
    using assms unfolding cells_ok_def by blast+
  show "page_size (econfig d) dvd 65536" by (rule dvd_trans [OF dvd(2,1)])
  have "size_bytes (econfig d) \<noteq> 0" using dvd(1) by (intro notI) simp
  then show "storage d \<noteq> []" using size by auto
qed

lemma write_transaction_device:
  assumes "cells_ok d"
  defines "P \<equiv> page_size (econfig d)"
  shows "storage (fst (write_transaction a ds (d, fs))) = page_store P (unat a div P * P) (unat a mod P) ds (storage d)"
    and "econfig (fst (write_transaction a ds (d, fs))) = econfig d"
    and "persistent_path (fst (write_transaction a ds (d, fs))) = persistent_path d"
    and "\<not> selected (fst (write_transaction a ds (d, fs)))"
proof -
  note ok = cells_okD [OF assms(1), folded P_def]
  define dfs where "dfs = bus_write_bytes [write_address (econfig d), hi8 a, lo8 a] (i2c_start (d, fs))"
  note addr = address_phase [OF ok(1) ok(2) [unfolded P_def] refl, of a fs, folded dfs_def, folded P_def]
  have tr: "write_transaction a ds (d, fs) = i2c_stop (bus_write_bytes ds dfs)"
    using write_bytes_append [of "[write_address (econfig d), hi8 a, lo8 a]" ds "i2c_start (d, fs)"]
    by (simp add: write_transaction_def dfs_def)
  have "storage (fst (bus_write_bytes ds dfs)) = page_store P (unat a div P * P) (unat a mod P) ds (storage d) \<and>
      econfig (fst (bus_write_bytes ds dfs)) = econfig d \<and> persistent_path (fst (bus_write_bytes ds dfs)) = persistent_path d"
    using data_phase [OF addr(1), of ds] addr(2-4) page_in_range [OF ok(2,3), of a] ok(3,4) by (simp add: P_def)
  then show "storage (fst (write_transaction a ds (d, fs))) = page_store P (unat a div P * P) (unat a mod P) ds (storage d)"
    "econfig (fst (write_transaction a ds (d, fs))) = econfig d"
    "persistent_path (fst (write_transaction a ds (d, fs))) = persistent_path d"
    "\<not> selected (fst (write_transaction a ds (d, fs)))"
    by (simp_all add: tr i2c_stop_def eeprom_stop_def)
qed

lemma bus_read_bytes_cells:
  "storage d \<noteq> [] \<Longrightarrow> fst (bus_read_bytes n (d, fs)) =
     map (\<lambda>i. storage d ! (unat (current_address d + word_of_nat i) mod length (storage d))) [0..<n]"
proof (induction n arbitrary: d)
  case (Suc n)
  have "[0..<Suc n] = 0 # map Suc [0..<n]" by (simp add: upt_conv_Cons map_Suc_upt del: upt_Suc)
  then show ?case
    using Suc
    by (simp add: i2c_read_def eeprom_read_def eeprom_peek_def normalized_address_def split_beta comp_def add.assoc del: upt_Suc)
qed simp

lemma read_transaction_cells:
  assumes "cells_ok d"
  shows "fst (read_transaction a n (d, fs)) =
    map (\<lambda>i. storage d ! (unat (a + word_of_nat i) mod length (storage d))) [0..<n]"
proof -
  note ok = cells_okD [OF assms]
  define dfs where "dfs = bus_write_bytes [write_address (econfig d), hi8 a, lo8 a] (i2c_start (d, fs))"
  note addr = address_phase [OF ok(1,2) refl, of a fs, folded dfs_def]
  obtain d1 fs1 where 1: "dfs = (d1, fs1)" by (cases dfs)
  define d2 where "d2 = fst (bus_write_bytes [read_address (econfig d)] (i2c_start dfs))"
  have d2: "storage d2 = storage d" "current_address d2 = a"
    using addr(2,3,6) ok(1)
    by (simp_all add: d2_def 1 i2c_start_def i2c_write_def eeprom_write_def eeprom_stop_def eeprom_select_def)
  have "fst (read_transaction a n (d, fs)) = fst (bus_read_bytes n (bus_write_bytes [read_address (econfig d)] (i2c_start dfs)))"
    unfolding read_transaction_def fst_conv dfs_def [symmetric] Let_def addr(3) by (simp add: split_beta)
  also have "\<dots> = fst (bus_read_bytes n (d2, snd (bus_write_bytes [read_address (econfig d)] (i2c_start dfs))))"
    by (simp add: d2_def)
  finally show ?thesis using bus_read_bytes_cells [of d2 n] ok(4) d2 by simp
qed

text \<open>
  C24: a page write stores its bytes in the addressed page, starting at the addressed cell and wrapping
  around inside the page; it changes no other cell and leaves the bus idle.
\<close>

theorem eeprom_page_write:
  assumes "cells_ok d" and "length ds \<le> page_size (econfig d)"
    and "P = page_size (econfig d)" and "S = size_bytes (econfig d)" and "d' = fst (write_transaction a ds (d, fs))"
  shows "(\<forall>i < length ds. storage d' ! ((unat a div P * P) mod S + (unat a mod P + i) mod P) = ds ! i) \<and>
    (\<forall>x. (\<forall>i < length ds. x \<noteq> (unat a div P * P) mod S + (unat a mod P + i) mod P) \<longrightarrow> storage d' ! x = storage d ! x) \<and>
    length (storage d') = S \<and> \<not> selected d'"
proof -
  note ok = cells_okD [OF assms(1), folded assms(3,4)]
  note dev = write_transaction_device [OF assms(1), of a ds fs, folded assms(3,5)]
  show ?thesis
    using page_store_nth [OF ok(5), of "unat a div P * P" "unat a mod P" ds, folded dev(1)] ok dev assms(2,3) by simp
qed

lemma new_eeprom_ok: "cells_ok new_eeprom"
  by (simp add: cells_ok_def new_eeprom_def default_eeprom_config_def kEepromSize_def)

theorem eeprom_page_write_witness:
  "storage (fst (write_transaction 62 [1, 2, 3] (new_eeprom, []))) ! 32 = 3"
proof -
  have c: "page_size (econfig new_eeprom) = 32" "size_bytes (econfig new_eeprom) = 4096"
    by (simp_all add: new_eeprom_def default_eeprom_config_def kEepromSize_def)
  have "length [1, 2, 3 :: u8] \<le> page_size (econfig new_eeprom)" by (simp add: c)
  from eeprom_page_write [OF new_eeprom_ok this c(1) [symmetric] c(2) [symmetric] refl, of 62 "[]"]
  have "\<forall>i < 3. storage (fst (write_transaction 62 [1, 2, 3] (new_eeprom, []))) ! (32 + (30 + i) mod 32) = [1, 2, 3] ! i"
    by simp
  from this [rule_format, of 2] show ?thesis by simp
qed

text \<open>
  bytes written inside a page are read back from the same address by a read transaction, whatever
  the device's state before.
\<close>

theorem eeprom_reads_back:
  assumes "cells_ok d" and "unat a mod page_size (econfig d) + length ds \<le> page_size (econfig d)"
  shows "fst (read_transaction a (length ds) (write_transaction a ds (d, fs))) = ds"
proof -
  let ?P = "page_size (econfig d)" and ?S = "length (storage d)"
  obtain d' fs' where w: "write_transaction a ds (d, fs) = (d', fs')" by (cases "write_transaction a ds (d, fs)")
  note dev = write_transaction_device [OF assms(1), of a ds fs, unfolded w fst_conv]
  note ok = cells_okD [OF assms(1)]
  have ok': "cells_ok d'" using assms(1) dev by (simp add: cells_ok_def)
  note cells = page_store_nth [OF ok(5), of "unat a div ?P * ?P" "unat a mod ?P" ds, folded dev(1)]
  have "storage d' ! (unat (a + word_of_nat i) mod length (storage d')) = ds ! i" if i: "i < length ds" for i
  proof -
    have "unat a + i < 65536"
      using i assms(2) page_in_range [OF ok(2,3), of a] div_mult_mod_eq [of "unat a" ?P] by linarith
    then have sum: "unat (a + word_of_nat i) = unat a div ?P * ?P + (unat a mod ?P + i)"
      using div_mult_mod_eq [of "unat a" ?P] by (subst unat_plus_if) (simp_all add: unat_small)
    have cell: "(unat a div ?P * ?P + (unat a mod ?P + i)) mod ?S = unat a div ?P * ?P mod ?S + (unat a mod ?P + i)"
      using i assms(2) by (intro page_cell [OF ok(5)]) (rule dvd_triv_right, linarith)
    have inside: "(unat a mod ?P + i) mod ?P = unat a mod ?P + i" using i assms(2) by simp
    have data: "\<forall>i < length ds. storage d' ! (unat a div ?P * ?P mod ?S + (unat a mod ?P + i) mod ?P) = ds ! i"
      using cells ok(3,4) assms(2) by simp
    have "length (storage d') = ?S" by (simp add: dev(1))
    then show ?thesis using data [rule_format, OF i] by (simp only: sum cell inside)
  qed
  then have "map (\<lambda>i. storage d' ! (unat (a + word_of_nat i) mod length (storage d'))) [0..<length ds] = ds"
    by (intro nth_equalityI) simp_all
  then show ?thesis using read_transaction_cells [OF ok'] by (simp add: w)
qed

theorem eeprom_reads_back_witness:
  "fst (read_transaction 100 3 (write_transaction 100 [7, 8, 9] (new_eeprom, []))) = [7, 8, 9]"
proof -
  have "unat (100 :: u16) mod page_size (econfig new_eeprom) + length [7, 8, 9 :: u8] \<le> page_size (econfig new_eeprom)"
    by (simp add: new_eeprom_def default_eeprom_config_def)
  from eeprom_reads_back [OF new_eeprom_ok this, of "[]"] show ?thesis by (simp add: numeral_3_eq_3)
qed

section \<open>The cells across runs\<close>

lemma can_write_mkdir:
  assumes "can_write fs p"
  shows "can_write (snd (create_directory (take n (butlast p)) fs)) p"
proof -
  have p: "p \<noteq> []" "p \<noteq> take n (butlast p)"
    using assms by (auto simp: can_write_def) (metis append_butlast_last_id append_take_drop_id length_append_singleton
        length_butlast length_take min.bounded_iff not_less_eq_eq order_refl diff_Suc_1)
  then show ?thesis
    using assms by (auto simp: create_directory_def can_write_def)
qed

lemma can_write_mkdirs:
  assumes "can_write fs p"
  shows "can_write (create_directories (butlast p) fs) p"
proof -
  have "can_write (fold (\<lambda>n fs. snd (create_directory (take n (butlast p)) fs)) ns fs) p" if "can_write fs p" for ns fs
    using that by (induction ns arbitrary: fs) (simp_all add: can_write_mkdir)
  then show ?thesis using assms by (simp add: create_directories_def)
qed

lemma eeprom_persist_writes:
  assumes "persistent_path d = Some p" "can_write fs p"
  shows "can_write (eeprom_persist d fs) p" and "read_file (eeprom_persist d fs) p = map chr_of (storage d)"
    and "fs_lookup (eeprom_persist d fs) p = Some (File (map chr_of (storage d)))"
proof -
  have w: "can_write (create_directories (butlast p) fs) p" using assms(2) by (rule can_write_mkdirs)
  have "p \<noteq> []" using assms(2) by (simp add: can_write_def)
  then show "can_write (eeprom_persist d fs) p" "read_file (eeprom_persist d fs) p = map chr_of (storage d)"
    "fs_lookup (eeprom_persist d fs) p = Some (File (map chr_of (storage d)))"
    using w by (simp_all add: eeprom_persist_def assms(1) Let_def write_trunc_def can_write_put fs_lookup_put)
qed

definition poke_all :: "(u16 \<times> u8) list \<Rightarrow> eeprom \<times> host_fs \<Rightarrow> eeprom \<times> host_fs" where
  "poke_all ws dfs = fold (\<lambda>(a, v). eeprom_poke a v) ws dfs"

lemma poke_all_keeps:
  "econfig (fst (poke_all ws dfs)) = econfig (fst dfs)" "persistent_path (fst (poke_all ws dfs)) = persistent_path (fst dfs)"
  "length (storage (fst (poke_all ws dfs))) = length (storage (fst dfs))"
  by (induction ws arbitrary: dfs) (simp_all add: poke_all_def split_beta fst_poke)

lemma poke_all_file:
  assumes "persistent_path (fst dfs) = Some p" "can_write (snd dfs) p" "ws \<noteq> []"
  shows "fs_lookup (snd (poke_all ws dfs)) p = Some (File (map chr_of (storage (fst (poke_all ws dfs)))))"
  using assms
proof (induction ws arbitrary: dfs)
  case (Cons w ws)
  obtain a v where w: "w = (a, v)" by (cases w)
  obtain d fs where dfs: "dfs = (d, fs)" by (cases dfs)
  define d' where "d' = d\<lparr>storage := (storage d)[normalized_address d a := v]\<rparr>"
  have step: "eeprom_poke a v dfs = (d', eeprom_persist d' fs)" by (simp add: eeprom_poke_def dfs d'_def Let_def)
  have p: "persistent_path d' = Some p" "can_write fs p" using Cons.prems dfs by (simp_all add: d'_def)
  note written = eeprom_persist_writes [OF p]
  have fold: "poke_all (w # ws) dfs = poke_all ws (d', eeprom_persist d' fs)" by (simp add: poke_all_def w step)
  show ?case
  proof (cases "ws = []")
    case True
    then show ?thesis using written(3) by (simp add: poke_all_def w step)
  next
    case False
    then show ?thesis using Cons.IH [of "(d', eeprom_persist d' fs)"] p(1) written(1) by (simp add: fold)
  qed
qed simp

text \<open>
  C25: what a run stored is there in the next one: after any writes to a device with a backing file, a
  device of the same size that opens the file afterwards has exactly the same cells, and it says so.
\<close>

theorem eeprom_survives_restart:
  assumes "persistent_path d = Some p" and "can_write fs p" and "length (storage d) = size_bytes (econfig d)"
    and "storage d \<noteq> []" and "ws \<noteq> []" and "poke_all ws (d, fs) = (d', fs')"
    and "size_bytes (econfig d2) = size_bytes (econfig d)"
  shows "\<exists>d3. use_persistent_file p (d2, fs') = (True, d3, fs') \<and> storage d3 = storage d' \<and> persistent_path d3 = Some p"
proof -
  have l: "length (storage d') = size_bytes (econfig d2)"
    using poke_all_keeps(3) [of ws "(d, fs)"] assms(3,6,7) by simp
  then have ne: "storage d' \<noteq> []" using assms(3,4,7) by auto
  have stored: "fs_lookup fs' p = Some (File (map chr_of (storage d')))"
    using poke_all_file [of "(d, fs)" p ws] assms(1,2,5,6) by simp
  then have read: "read_file fs' p = map chr_of (storage d')" by (simp add: read_file_def)
  have "map byte_of (take (size_bytes (econfig d2)) (map chr_of (storage d'))) = storage d'"
    using l by (simp add: comp_def)
  then show ?thesis
    using ne l length_greater_0_conv [of "storage d'"] by (simp add: use_persistent_file_def load_from_persistent_file_def Let_def stored read)
qed

theorem eeprom_survives_restart_witness:
  "\<exists>d3 fs'. use_persistent_file [''e''] (new_eeprom, fs') = (True, d3, fs') \<and> storage d3 ! 5 = 9"
proof -
  let ?d = "new_eeprom\<lparr>persistent_path := Some [''e'']\<rparr>"
  obtain d' fs' where r: "poke_all [(5, 9)] (?d, []) = (d', fs')" by fastforce
  have "storage (fst (poke_all [(5, 9)] (?d, []))) ! 5 = 9"
    by (simp add: poke_all_def fst_poke) (simp add: normalized_address_def new_eeprom_def kEepromSize_def)
  then have five: "storage d' ! 5 = 9" by (simp add: r)
  have h: "persistent_path ?d = Some [''e'']" "can_write [] [''e'']" "length (storage ?d) = size_bytes (econfig ?d)"
    "storage ?d \<noteq> []" "[(5 :: u16, 9 :: u8)] \<noteq> []"
    by (simp_all add: new_eeprom_def default_eeprom_config_def kEepromSize_def can_write_def is_directory_def fs_lookup_def)
  have "size_bytes (econfig new_eeprom) = size_bytes (econfig ?d)" by simp
  from eeprom_survives_restart [OF h r this] five show ?thesis by metis
qed

section \<open>The factory record\<close>

lemma enumerate_6: "enumerate 0 [a, b, c, d, e, f] = [(0, a), (1, b), (2, c), (3, d), (4, e), (5, f)]"
  by (simp add: eval_nat_numeral)

lemma poke_storage:
  "length (storage (fst dfs)) = 4096 \<Longrightarrow>
   storage (fst (eeprom_poke a v dfs)) = (storage (fst dfs))[unat a mod 4096 := v]"
  by (cases "storage (fst dfs) = []") (simp_all add: fst_poke normalized_address_def)

text \<open>
  the factory settings are stored as the record the firmware expects: at address 512 the two marker
  bytes, the model and the three setting bytes, then the checksum of these six, low byte first; a read
  transaction returns it, and no other cell changes.
\<close>

theorem factory_record_stored:
  assumes "cells_ok d" and "size_bytes (econfig d) = 4096" and "d' = fst (configure_factory_settings s (d, fs))"
  shows "map ((!) (storage d')) [512..<520] =
      factory_record s @ [lo8 (crc16_ccitt_bytes (factory_record s)), hi8 (crc16_ccitt_bytes (factory_record s))] \<and>
    fst (read_transaction 512 8 (d', fs')) = map ((!) (storage d')) [512..<520] \<and>
    (\<forall>i. i < 512 \<or> 520 \<le> i \<longrightarrow> storage d' ! i = storage d ! i)"
proof -
  have len: "length (storage d) = 4096" using cells_okD(6) [OF assms(1)] assms(2) by simp
  define crc where "crc = crc16_ccitt_bytes (factory_record s)"
  obtain r0 r1 r2 r3 r4 r5 where r: "factory_record s = [r0, r1, r2, r3, r4, r5]" by (simp add: factory_record_def)
  have st: "storage d' = (storage d)[512 := r0, 513 := r1, 514 := r2, 515 := r3, 516 := r4, 517 := r5, 518 := lo8 crc, 519 := hi8 crc]"
    unfolding assms(3) configure_factory_settings_def Let_def crc_def [symmetric] r enumerate_6
    by (simp add: poke_storage len factory_address_def crc_def r)
  have keeps: "econfig d' = econfig d"
    unfolding assms(3) configure_factory_settings_def Let_def r enumerate_6 by (simp add: fst_poke)
  have upt: "[512..<520] = [512, 513, 514, 515, 516, 517, 518, 519 :: nat]" by (simp add: upt_rec)
  have cells: "map ((!) (storage d')) [512..<520] = factory_record s @ [lo8 crc, hi8 crc]"
    by (simp add: upt st r len)
  have ok': "cells_ok d'" using assms(1,2) keeps st len unfolding cells_ok_def by simp
  have "fst (read_transaction 512 8 (d', fs')) = map (\<lambda>i. storage d' ! (512 + i)) [0..<8]"
    unfolding read_transaction_cells [OF ok']
  proof (rule map_cong [OF refl])
    fix i assume "i \<in> set [0..<8 :: nat]"
    then have "unat (512 + word_of_nat i :: u16) = 512 + i" by (subst unat_plus_if) (simp_all add: unat_small)
    then show "storage d' ! (unat (512 + word_of_nat i :: u16) mod length (storage d')) = storage d' ! (512 + i)"
      using \<open>i \<in> set [0..<8]\<close> by (simp add: st len)
  qed
  also have "\<dots> = map ((!) (storage d')) [512..<520]" by (simp add: upt upt_rec)
  finally show ?thesis using cells st by (auto simp: crc_def)
qed

theorem factory_record_stored_witness:
  "storage (fst (configure_factory_settings \<lparr>fs_model = MakeraZ1, function_setting = 2, reserve1 = 0, reserve2 = 0\<rparr>
     (new_eeprom, []))) ! 514 = 3"
proof -
  let ?s = "\<lparr>fs_model = MakeraZ1, function_setting = 2, reserve1 = 0, reserve2 = 0\<rparr>"
  let ?st = "storage (fst (configure_factory_settings ?s (new_eeprom, [])))"
  have s: "size_bytes (econfig new_eeprom) = 4096" by (simp add: new_eeprom_def default_eeprom_config_def kEepromSize_def)
  have "map ((!) ?st) [512..<520] ! 2 = 3"
    using factory_record_stored [OF new_eeprom_ok s refl, of ?s "[]" "[]"]
    by (simp add: factory_record_def model_byte_def del: upt_conv_Nil)
  then show ?thesis by simp
qed

end
