(* ===== verification/Host_Filesystem.thy ===== *)
theory Host_Filesystem
  imports I2c_Eeprom
begin

text \<open>
  The firmware's file calls (\<^verbatim>\<open>src/firmware/host_filesystem.cpp\<close>): named mounts map the firmware's
  absolute paths to directories of the host, and the mount of the SD card also selects the file behind
  the EEPROM.  \<open>cwd\<close> is the working directory of the process, \<open>tmp\<close> the host's temporary directory; both
  come from the operating system.  The streams are in \<^verbatim>\<open>Firmware_Files\<close>.
\<close>

section \<open>Mounts\<close>

type_synonym mounts = "string \<Rightarrow> host_path option"

definition sd_mount_name :: string where "sd_mount_name = ''sd''"

definition eeprom_filename :: string where "eeprom_filename = ''.eeprom.bin''"

definition clear_mounts :: "mounts \<times> eeprom \<times> host_fs \<Rightarrow> mounts \<times> eeprom \<times> host_fs" where
  "clear_mounts s = (let (m, d, fs) = s in (Map.empty, clear_persistent_file d, fs))"

definition mount :: "host_path \<Rightarrow> string \<Rightarrow> string \<Rightarrow> mounts \<times> eeprom \<times> host_fs \<Rightarrow> mounts \<times> eeprom \<times> host_fs" where
  "mount cwd name root s =
     (let (m, d, fs) = s;
          absolute_root = os_path cwd root;
          fs = create_directories absolute_root fs;
          m = m(name \<mapsto> absolute_root)
      in if name = sd_mount_name
         then case use_persistent_file (absolute_root @ [eeprom_filename]) (d, fs) of (loaded, d, fs) \<Rightarrow> (m, d, fs)
         else (m, d, fs))"

definition default_mount_root :: "host_path \<Rightarrow> string \<Rightarrow> host_path" where
  "default_mount_root tmp name = os_path (tmp @ [''carvera_firmware_sim'']) name"

definition ensure_mount :: "host_path \<Rightarrow> string \<Rightarrow> mounts \<times> eeprom \<times> host_fs \<Rightarrow> mounts \<times> eeprom \<times> host_fs" where
  "ensure_mount tmp name s =
     (let (m, d, fs) = s
      in if m name \<noteq> None then s
         else let root = default_mount_root tmp name;
                  fs = create_directories root fs;
                  m = m(name \<mapsto> root)
              in if name = sd_mount_name
                 then case use_persistent_file (root @ [eeprom_filename]) (d, fs) of (loaded, d, fs) \<Rightarrow> (m, d, fs)
                 else (m, d, fs))"

section \<open>Paths\<close>

text \<open>\<open>None\<close> is the empty path.\<close>

definition host_path_of :: "host_path \<Rightarrow> string \<Rightarrow> host_path option" where
  "host_path_of cwd text = (if text = [] then None else Some (os_path cwd text))"

definition translate :: "host_path \<Rightarrow> mounts \<Rightarrow> string option \<Rightarrow> host_path option" where
  "translate cwd m path = (case path of
     None \<Rightarrow> None
   | Some p \<Rightarrow>
       let text = takeWhile (\<lambda>c. \<not> (of_char c :: nat) < 32) p
       in if length text < 2 \<or> hd text \<noteq> CHR ''/'' then host_path_of cwd text
          else let slash = str_find ''/'' (drop 1 text);
                   mount_name = (case slash of None \<Rightarrow> drop 1 text | Some n \<Rightarrow> take n (drop 1 text))
               in case m mount_name of
                    None \<Rightarrow> host_path_of cwd text
                  | Some root \<Rightarrow> (case slash of
                        None \<Rightarrow> Some root
                      | Some n \<Rightarrow> Some (os_path root (drop (n + 1) (drop 1 text)))))"

section \<open>The calls of the firmware\<close>

definition write_mode :: "string option \<Rightarrow> bool" where
  "write_mode mode = (case mode of None \<Rightarrow> False
     | Some s \<Rightarrow> CHR ''w'' \<in> set s \<or> CHR ''a'' \<in> set s \<or> CHR ''+'' \<in> set s)"

definition fw_exists :: "host_path \<Rightarrow> mounts \<Rightarrow> string \<Rightarrow> host_fs \<Rightarrow> bool" where
  "fw_exists cwd m path fs = (case translate cwd m (Some path) of None \<Rightarrow> False | Some p \<Rightarrow> fs_exists fs p)"

text \<open>What \<^verbatim>\<open>fopen\<close> and \<^verbatim>\<open>freopen\<close> do before they hand the translated path to the C library.\<close>

definition fw_open_path :: "host_path \<Rightarrow> mounts \<Rightarrow> string option \<Rightarrow> string option \<Rightarrow> host_fs \<Rightarrow> host_path option \<times> host_fs" where
  "fw_open_path cwd m path mode fs =
     (let translated = translate cwd m path
      in (translated, case translated of
            Some p \<Rightarrow> (if write_mode mode then create_directories (butlast p) fs else fs)
          | None \<Rightarrow> fs))"

definition fw_remove :: "host_path \<Rightarrow> mounts \<Rightarrow> string option \<Rightarrow> host_fs \<Rightarrow> int \<times> host_fs" where
  "fw_remove cwd m path fs = (case translate cwd m path of
     None \<Rightarrow> (-1, fs)
   | Some p \<Rightarrow> (if p \<noteq> [] \<and> fs_exists fs p \<and> dir_names fs p = [] then (0, remove_entry p fs) else (-1, fs)))"

definition fw_rename :: "host_path \<Rightarrow> mounts \<Rightarrow> string option \<Rightarrow> string option \<Rightarrow> host_fs \<Rightarrow> int \<times> host_fs" where
  "fw_rename cwd m old_path new_path fs =
     (let new_p = translate cwd m new_path;
          fs = (case new_p of None \<Rightarrow> fs | Some q \<Rightarrow> create_directories (butlast q) fs);
          old_p = translate cwd m old_path
      in case (old_p, new_p) of
           (Some p, Some q) \<Rightarrow> (case rename_entry p q fs of None \<Rightarrow> (-1, fs) | Some fs \<Rightarrow> (0, fs))
         | _ \<Rightarrow> (-1, fs))"

definition fw_mkdir :: "host_path \<Rightarrow> mounts \<Rightarrow> string option \<Rightarrow> host_fs \<Rightarrow> int \<times> host_fs" where
  "fw_mkdir cwd m path fs = (case translate cwd m path of
     None \<Rightarrow> (-1, fs)
   | Some p \<Rightarrow> (let fs = create_directories p fs in (if is_directory fs p then 0 else -1, fs)))"

section \<open>Properties\<close>

lemma os_fold_plain:
  "list_all (\<lambda>c. c \<noteq> ''/'' \<and> c \<noteq> ''..'') cs \<Longrightarrow>
   fold os_step cs base = base @ filter (\<lambda>c. c \<noteq> ''.'' \<and> c \<noteq> '''') cs"
  by (induction cs arbitrary: base) (auto simp: os_step_def)

lemma find_slash:
  "CHR ''/'' \<notin> set name \<Longrightarrow> str_find ''/'' (name @ CHR ''/'' # rest) = Some (length name)"
  by (induction name) (auto simp: str_find_Cons)

lemma translate_mounted:
  assumes "m name = Some root" and "name \<noteq> []" and "CHR ''/'' \<notin> set name"
    and "\<forall>c \<in> set (name @ rel). 32 \<le> (of_char c :: nat)"
  shows "translate cwd m (Some (''/'' @ name @ ''/'' @ rel)) = Some (os_path root rel)"
proof -
  have "\<forall>c \<in> set (''/'' @ name @ ''/'' @ rel). \<not> (of_char c :: nat) < 32" using assms(4) by (auto simp: not_less)
  then have whole: "takeWhile (\<lambda>c. \<not> (of_char c :: nat) < 32) (''/'' @ name @ ''/'' @ rel) = ''/'' @ name @ ''/'' @ rel"
    by (simp only: takeWhile_eq_all_conv)
  show ?thesis
    unfolding translate_def option.case Let_def whole using assms(1,2) find_slash [OF assms(3), of rel] by simp
qed

text \<open>
  A path below a mount resolves to the mount's directory followed by plain names only, as long as
  what follows the mount's name is relative and never steps up.
\<close>

theorem translate_confined:
  assumes "m name = Some root" and "name \<noteq> []" and "CHR ''/'' \<notin> set name"
    and "\<forall>c \<in> set (name @ rel). 32 \<le> (of_char c :: nat)"
    and "hd rel \<noteq> CHR ''/''" and "''..'' \<notin> set (path_iter rel)"
  shows "\<exists>names. translate cwd m (Some (''/'' @ name @ ''/'' @ rel)) = Some (root @ names) \<and> list_all plain_name names"
proof -
  note t = translate_mounted [where cwd = cwd and m = m, OF assms(1-4)]
  have "CHR ''/'' \<notin> set n" if "n \<in> set (path_iter rel)" for n using path_iter_relative [OF assms(5) that] .
  then have iter: "list_all (\<lambda>c. c \<noteq> ''/'' \<and> c \<noteq> ''..'') (path_iter rel)"
    using assms(6) by (auto simp: list_all_iff) (metis list.set_intros(1))
  have "list_all plain_name (filter (\<lambda>c. c \<noteq> ''.'' \<and> c \<noteq> '''') (path_iter rel))"
    using path_iter_relative [OF assms(5)] assms(6) by (auto simp: list_all_iff plain_name_def)
  then show ?thesis using t os_fold_plain [OF iter, of root] by (simp add: os_path_def)
qed

theorem translate_confined_witness:
  "\<exists>names. translate [] [''sd'' \<mapsto> [''card'']] (Some ''/sd/gcodes/./a.nc'') = Some ([''card''] @ names) \<and> list_all plain_name names"
proof -
  have "''/sd/gcodes/./a.nc'' = ''/'' @ ''sd'' @ ''/'' @ ''gcodes/./a.nc''" by simp
  moreover have "\<forall>c \<in> set (''sd'' @ ''gcodes/./a.nc''). 32 \<le> (of_char c :: nat)" by simp
  moreover have "''..'' \<notin> set (path_iter ''gcodes/./a.nc'')" by code_simp
  ultimately show ?thesis
    using translate_confined [of "[''sd'' \<mapsto> [''card'']]" "''sd''" "[''card'']" "''gcodes/./a.nc''" "[]"] by simp
qed

text \<open>
  the mount does not confine every path: a second slash after the mount's name makes the path
  absolute on the host, and \<^verbatim>\<open>..\<close> steps above the mount's directory.
\<close>

theorem translate_escapes:
  assumes "m name = Some root" and "name \<noteq> []" and "CHR ''/'' \<notin> set name"
    and "\<forall>c \<in> set (name @ rest). 32 \<le> (of_char c :: nat)"
  shows "translate cwd m (Some (''/'' @ name @ ''//'' @ rest)) = Some (os_path [] (''/'' @ rest)) \<and>
    (plain_name rest \<longrightarrow> translate cwd m (Some (''/'' @ name @ ''/../'' @ rest)) = Some (butlast root @ [rest]))"
proof (intro conjI impI)
  have t: "translate cwd m (Some (''/'' @ name @ ''/'' @ rel)) = Some (os_path root rel)"
    if "\<forall>c \<in> set rel. 32 \<le> (of_char c :: nat)" for rel
    using that assms(4) by (intro translate_mounted [where m = m, OF assms(1-3)]) auto
  have "os_path root (''/'' @ rest) = os_path [] (''/'' @ rest)"
    by (simp only: os_path_def append.simps) (subst (1 2) path_iter_absolute, simp add: os_step_def)
  then show "translate cwd m (Some (''/'' @ name @ ''//'' @ rest)) = Some (os_path [] (''/'' @ rest))"
    using t [of "''/'' @ rest"] assms(4) by simp
  assume n: "plain_name rest"
  have "last rest \<noteq> CHR ''/''" using n by (metis last_in_set plain_name_def)
  with n have "path_iter (''../'' @ rest) = [''..'', rest]"
    by (auto simp: path_iter_def plain_name_def Let_def split_slash_plain last_append split: if_splits)
  then have "os_path root (''../'' @ rest) = butlast root @ [rest]"
    using n by (auto simp: os_path_def os_step_def plain_name_def)
  then show "translate cwd m (Some (''/'' @ name @ ''/../'' @ rest)) = Some (butlast root @ [rest])"
    using t [of "''../'' @ rest"] assms(4) by simp
qed

theorem translate_escapes_witness:
  "translate [] [''sd'' \<mapsto> [''srv'', ''card'']] (Some ''/sd/../x'') = Some [''srv'', ''x'']"
proof -
  have "plain_name ''x''" by code_simp
  with translate_escapes [of "[''sd'' \<mapsto> [''srv'', ''card'']]" "''sd''" "[''srv'', ''card'']" "''x''" "[]"]
  show ?thesis by simp
qed

end
