(* ===== verification/Stepper_Axis.thy ===== *)
theory Stepper_Axis
  imports Lpc1768 Complex_Main "HOL-Library.Monad_Syntax"
begin

text \<open>
  The stepper axes (\<^verbatim>\<open>src/core/stepper_axis.cpp\<close>): an axis counts the rising edges of its step pin in the
  direction its direction pin shows, and drives the pins of its endstops from the position.  Positions in
  millimetres are \<^verbatim>\<open>double\<close> in the code and real numbers here (rounding errors are not modelled); the step
  count is an integer (64 bits in the code, out of reach of any run).  An access to a GPIO port or an axis
  that does not exist throws: \<open>None\<close>.
\<close>

section \<open>Pins\<close>

record pin_address =
  pin_port :: u8
  pin_number :: u8

definition set_level :: "pin_address \<Rightarrow> bool \<Rightarrow> lpc1768 \<Rightarrow> lpc1768 option" where
  "set_level p high m =
     (if unat (pin_port p) < length (gpio m)
      then let g = gpio m ! unat (pin_port p); mask = push_bit (unat (pin_number p)) 1
           in Some (m\<lparr>gpio := (gpio m)[unat (pin_port p) :=
                g\<lparr>FIOPIN := (if high then FIOPIN g OR mask else FIOPIN g AND NOT mask)\<rparr>]\<rparr>)
      else None)"

definition pin_level :: "pin_address \<Rightarrow> lpc1768 \<Rightarrow> bool option" where
  "pin_level p m =
     (if unat (pin_port p) < length (gpio m)
      then Some (FIOPIN (gpio m ! unat (pin_port p)) AND push_bit (unat (pin_number p)) 1 \<noteq> 0) else None)"

section \<open>An axis\<close>

datatype endstop_side = Min_Side | Max_Side

record endstop =
  side :: endstop_side
  endstop_enabled :: bool
  endstop_pin :: pin_address
  trigger_position_mm :: real
  trigger_when_ge :: bool
  raw_level_when_triggered :: bool

record axis_config =
  cfg_step_pin :: pin_address
  cfg_direction_pin :: pin_address
  cfg_invert :: bool
  cfg_connected :: bool
  cfg_steps_per_mm :: real
  cfg_initial_mm :: real
  cfg_endstops :: "endstop list"

record axis =
  step_pin :: pin_address
  direction_pin :: pin_address
  endstops :: "endstop list"
  invert_direction :: bool
  motor_connected :: bool
  step_high :: bool
  direction_high :: bool
  steps_per_mm :: real
  initial_position_steps :: int
  position_steps :: int

text \<open>\<^verbatim>\<open>llround\<close> rounds half away from zero.\<close>

definition llround :: "real \<Rightarrow> int" where
  "llround x = (if x < 0 then - \<lfloor>- x + 1 / 2\<rfloor> else \<lfloor>x + 1 / 2\<rfloor>)"

definition position_mm :: "axis \<Rightarrow> real" where
  "position_mm a = of_int (position_steps a) / steps_per_mm a"

definition one_endstop_triggered :: "axis \<Rightarrow> endstop \<Rightarrow> bool" where
  "one_endstop_triggered a e \<longleftrightarrow> endstop_enabled e \<and>
     (\<not> motor_connected a \<or>
      (if trigger_when_ge e then position_mm a \<ge> trigger_position_mm e else position_mm a \<le> trigger_position_mm e))"

definition endstop_triggered :: "axis \<Rightarrow> bool" where
  "endstop_triggered a \<longleftrightarrow> (\<exists>e \<in> set (endstops a). one_endstop_triggered a e)"

definition endstop_side_triggered :: "endstop_side \<Rightarrow> axis \<Rightarrow> bool" where
  "endstop_side_triggered s a \<longleftrightarrow> (\<exists>e \<in> set (endstops a). side e = s \<and> one_endstop_triggered a e)"

text \<open>The loop of \<^verbatim>\<open>update_endstop_pin\<close>; \<open>seen\<close> are the entries before the owner.\<close>

definition pin_state :: "axis \<Rightarrow> endstop \<Rightarrow> bool \<times> bool" where
  "pin_state a owner =
     fold (\<lambda>e (any_triggered, raw). if \<not> endstop_enabled e \<or> endstop_pin e \<noteq> endstop_pin owner then (any_triggered, raw)
             else (any_triggered \<or> one_endstop_triggered a e, raw_level_when_triggered e))
       (endstops a) (False, raw_level_when_triggered owner)"

fun drive_endstops :: "axis \<Rightarrow> endstop list \<Rightarrow> endstop list \<Rightarrow> lpc1768 \<Rightarrow> lpc1768 option" where
  "drive_endstops a seen [] m = Some m"
| "drive_endstops a seen (owner # es) m =
     (if \<not> endstop_enabled owner \<or> (\<exists>e \<in> set seen. endstop_enabled e \<and> endstop_pin e = endstop_pin owner)
      then drive_endstops a (seen @ [owner]) es m
      else let (any_triggered, raw) = pin_state a owner
           in do { m \<leftarrow> set_level (endstop_pin owner) (if any_triggered then raw else \<not> raw) m;
                   drive_endstops a (seen @ [owner]) es m })"

definition update_endstop_pin :: "axis \<Rightarrow> lpc1768 \<Rightarrow> lpc1768 option" where
  "update_endstop_pin a m = drive_endstops a [] (endstops a) m"

definition new_axis :: "axis_config \<Rightarrow> lpc1768 \<Rightarrow> (axis \<times> lpc1768) option" where
  "new_axis c m =
     (let spm = (if cfg_steps_per_mm c > 0 then cfg_steps_per_mm c else 1);
          initial = llround (cfg_initial_mm c * spm)
      in do { sh \<leftarrow> pin_level (cfg_step_pin c) m;
              dh \<leftarrow> pin_level (cfg_direction_pin c) m;
              let a = \<lparr>step_pin = cfg_step_pin c, direction_pin = cfg_direction_pin c, endstops = cfg_endstops c,
                       invert_direction = cfg_invert c, motor_connected = cfg_connected c, step_high = sh,
                       direction_high = dh, steps_per_mm = spm, initial_position_steps = initial, position_steps = initial\<rparr>;
              m \<leftarrow> update_endstop_pin a m;
              Some (a, m) })"

definition reset_position :: "axis \<Rightarrow> lpc1768 \<Rightarrow> (axis \<times> lpc1768) option" where
  "reset_position a m =
     (let a = a\<lparr>position_steps := initial_position_steps a, step_high := False, direction_high := False\<rparr>
      in map_option (Pair a) (update_endstop_pin a m))"

definition on_gpio_level_changed :: "pin_address \<Rightarrow> bool \<Rightarrow> axis \<Rightarrow> lpc1768 \<Rightarrow> (axis \<times> lpc1768) option" where
  "on_gpio_level_changed p high a m =
     (if p = direction_pin a then Some (a\<lparr>direction_high := high\<rparr>, m)
      else if p \<noteq> step_pin a then Some (a, m)
      else let rising_edge = (high \<and> \<not> step_high a);
               a = a\<lparr>step_high := high\<rparr>
           in if \<not> rising_edge \<or> \<not> motor_connected a then Some (a, m)
              else let a = a\<lparr>position_steps := position_steps a + (if direction_high a \<noteq> invert_direction a then - 1 else 1)\<rparr>
                   in map_option (Pair a) (update_endstop_pin a m))"

definition set_motor_connected :: "bool \<Rightarrow> axis \<Rightarrow> lpc1768 \<Rightarrow> (axis \<times> lpc1768) option" where
  "set_motor_connected c a m =
     (let a = a\<lparr>motor_connected := c\<rparr> in map_option (Pair a) (update_endstop_pin a m))"

section \<open>The registry\<close>

definition add_axis :: "axis_config \<Rightarrow> axis list \<Rightarrow> lpc1768 \<Rightarrow> (nat \<times> axis list \<times> lpc1768) option" where
  "add_axis c axes m = do { (a, m) \<leftarrow> new_axis c m; Some (length axes, axes @ [a], m) }"

definition checked :: "nat \<Rightarrow> axis list \<Rightarrow> axis option" where
  "checked i axes = (if i \<ge> length axes then None else Some (axes ! i))"

definition registry_position_steps :: "nat \<Rightarrow> axis list \<Rightarrow> int option" where
  "registry_position_steps i axes = map_option position_steps (checked i axes)"

definition registry_set_motor_connected :: "nat \<Rightarrow> bool \<Rightarrow> axis list \<Rightarrow> lpc1768 \<Rightarrow> (axis list \<times> lpc1768) option" where
  "registry_set_motor_connected i c axes m = do {
     a \<leftarrow> checked i axes;
     (a, m) \<leftarrow> set_motor_connected c a m;
     Some (axes[i := a], m) }"

fun axes_level_changed :: "pin_address \<Rightarrow> bool \<Rightarrow> axis list \<Rightarrow> lpc1768 \<Rightarrow> (axis list \<times> lpc1768) option" where
  "axes_level_changed p high [] m = Some ([], m)"
| "axes_level_changed p high (a # axes) m = do {
     (a, m) \<leftarrow> on_gpio_level_changed p high a m;
     (axes, m) \<leftarrow> axes_level_changed p high axes m;
     Some (a # axes, m) }"

text \<open>A write to a set or clear register followed by the notifications it causes.\<close>

definition notify_axes :: "(nat \<times> nat \<times> bool) list \<Rightarrow> axis list \<Rightarrow> lpc1768 \<Rightarrow> (axis list \<times> lpc1768) option" where
  "notify_axes changes axes m =
     fold (\<lambda>(port, pin, high) s. do { (axes, m) \<leftarrow> s;
             axes_level_changed \<lparr>pin_port = word_of_nat port, pin_number = word_of_nat pin\<rparr> high axes m })
       changes (Some (axes, m))"

definition gpio_set :: "u8 \<Rightarrow> u32 \<Rightarrow> axis list \<times> lpc1768 \<Rightarrow> (axis list \<times> lpc1768) option" where
  "gpio_set port bits s = (case FIO_SetValue port bits (snd s) of (changes, m) \<Rightarrow> notify_axes changes (fst s) m)"

definition gpio_clear :: "u8 \<Rightarrow> u32 \<Rightarrow> axis list \<times> lpc1768 \<Rightarrow> (axis list \<times> lpc1768) option" where
  "gpio_clear port bits s = (case FIO_ClearValue port bits (snd s) of (changes, m) \<Rightarrow> notify_axes changes (fst s) m)"

section \<open>Endstop pins\<close>

definition valid_pin :: "lpc1768 \<Rightarrow> pin_address \<Rightarrow> bool" where
  "valid_pin m p \<longleftrightarrow> unat (pin_port p) < length (gpio m) \<and> unat (pin_number p) < 32"

definition endstops_wired :: "axis \<Rightarrow> lpc1768 \<Rightarrow> bool" where
  "endstops_wired a m \<longleftrightarrow> (\<forall>e \<in> set (endstops a). endstop_enabled e \<longrightarrow> valid_pin m (endstop_pin e))"

lemma pin_level_bit: "valid_pin m p \<Longrightarrow> pin_level p m = Some (bit (FIOPIN (gpio m ! unat (pin_port p))) (unat (pin_number p)))"
  by (auto simp: pin_level_def valid_pin_def bit_iff_and_push_bit_not_eq_0)

lemma set_level_valid:
  assumes "valid_pin m p"
  obtains m' where "set_level p high m = Some m'" "length (gpio m') = length (gpio m)"
    "\<And>q. valid_pin m q \<Longrightarrow> pin_level q m' = (if q = p then Some high else pin_level q m)"
proof -
  define m' where "m' = m\<lparr>gpio := (gpio m)[unat (pin_port p) := (gpio m ! unat (pin_port p))
    \<lparr>FIOPIN := (if high then FIOPIN (gpio m ! unat (pin_port p)) OR push_bit (unat (pin_number p)) 1
       else FIOPIN (gpio m ! unat (pin_port p)) AND NOT (push_bit (unat (pin_number p)) 1))\<rparr>]\<rparr>"
  have "set_level p high m = Some m'" using assms by (simp add: set_level_def valid_pin_def m'_def Let_def)
  moreover have len: "length (gpio m') = length (gpio m)" by (simp add: m'_def)
  moreover have "pin_level q m' = (if q = p then Some high else pin_level q m)" if q: "valid_pin m q" for q
  proof -
    have q': "valid_pin m' q" using q len by (simp add: valid_pin_def)
    have eq: "q = p \<longleftrightarrow> unat (pin_port q) = unat (pin_port p) \<and> unat (pin_number q) = unat (pin_number p)"
      by (auto simp: word_unat_eq_iff)
    have "bit (FIOPIN (gpio m' ! unat (pin_port q))) (unat (pin_number q)) =
        (if q = p then high else bit (FIOPIN (gpio m ! unat (pin_port q))) (unat (pin_number q)))"
      unfolding eq using assms q
      by (auto simp: m'_def valid_pin_def nth_list_update bit_simps)
    then show ?thesis using pin_level_bit [OF q] pin_level_bit [OF q'] by simp
  qed
  ultimately show thesis using that by blast
qed

text \<open>The endstops of a pin, and the level the pin should have.\<close>

definition on_pin :: "axis \<Rightarrow> pin_address \<Rightarrow> endstop list" where
  "on_pin a p = filter (\<lambda>e. endstop_enabled e \<and> endstop_pin e = p) (endstops a)"

definition endstop_level :: "axis \<Rightarrow> pin_address \<Rightarrow> bool" where
  "endstop_level a p = (raw_level_when_triggered (last (on_pin a p)) = (\<exists>e \<in> set (on_pin a p). one_endstop_triggered a e))"

lemma pin_state_fold:
  "fold (\<lambda>e (t, raw). if \<not> endstop_enabled e \<or> endstop_pin e \<noteq> p then (t, raw)
             else (t \<or> one_endstop_triggered a e, raw_level_when_triggered e)) es (b, r) =
   (b \<or> (\<exists>e \<in> set es. endstop_enabled e \<and> endstop_pin e = p \<and> one_endstop_triggered a e),
    if filter (\<lambda>e. endstop_enabled e \<and> endstop_pin e = p) es = [] then r
    else raw_level_when_triggered (last (filter (\<lambda>e. endstop_enabled e \<and> endstop_pin e = p) es)))"
  by (induction es arbitrary: b r) auto

lemma pin_state_level:
  assumes "owner \<in> set (endstops a)" "endstop_enabled owner" "pin_state a owner = (t, raw)"
  shows "(if t then raw else \<not> raw) = endstop_level a (endstop_pin owner)"
proof -
  have "owner \<in> set (on_pin a (endstop_pin owner))" using assms(1,2) by (simp add: on_pin_def)
  then have "on_pin a (endstop_pin owner) \<noteq> []" by auto
  then show ?thesis
    using assms(3) unfolding pin_state_def pin_state_fold endstop_level_def by (auto simp: on_pin_def)
qed

lemma drive_endstops_pins:
  assumes "endstops_wired a m" "set seen \<union> set es = set (endstops a)"
  shows "\<exists>m'. drive_endstops a seen es m = Some m' \<and> length (gpio m') = length (gpio m) \<and>
    (\<forall>p. valid_pin m p \<longrightarrow> pin_level p m' =
      (if (\<exists>e \<in> set es. endstop_enabled e \<and> endstop_pin e = p) \<and> \<not> (\<exists>e \<in> set seen. endstop_enabled e \<and> endstop_pin e = p)
       then Some (endstop_level a p) else pin_level p m))"
  using assms
proof (induction es arbitrary: seen m)
  case (Cons owner es)
  have rest: "set (seen @ [owner]) \<union> set es = set (endstops a)" using Cons.prems(2) by auto
  show ?case
  proof (cases "endstop_enabled owner \<and> \<not> (\<exists>e \<in> set seen. endstop_enabled e \<and> endstop_pin e = endstop_pin owner)")
    case False
    then show ?thesis using Cons.IH [OF Cons.prems(1) rest] by auto
  next
    case True
    have own: "owner \<in> set (endstops a)" using Cons.prems(2) by auto
    then have "valid_pin m (endstop_pin owner)" using Cons.prems(1) True by (simp add: endstops_wired_def)
    then obtain m1 where m1: "set_level (endstop_pin owner) (endstop_level a (endstop_pin owner)) m = Some m1"
      "length (gpio m1) = length (gpio m)"
      "\<And>q. valid_pin m q \<Longrightarrow> pin_level q m1 = (if q = endstop_pin owner then Some (endstop_level a (endstop_pin owner)) else pin_level q m)"
      using set_level_valid by metis
    have same: "valid_pin m1 p \<longleftrightarrow> valid_pin m p" for p using m1(2) by (simp add: valid_pin_def)
    have "endstops_wired a m1" using Cons.prems(1) by (simp add: endstops_wired_def same)
    from Cons.IH [OF this rest] obtain m2 where m2: "drive_endstops a (seen @ [owner]) es m1 = Some m2"
      "length (gpio m2) = length (gpio m1)"
      "\<forall>p. valid_pin m1 p \<longrightarrow> pin_level p m2 =
        (if (\<exists>e \<in> set es. endstop_enabled e \<and> endstop_pin e = p) \<and> \<not> (\<exists>e \<in> set (seen @ [owner]). endstop_enabled e \<and> endstop_pin e = p)
         then Some (endstop_level a p) else pin_level p m1)" by blast
    obtain t raw where ps: "pin_state a owner = (t, raw)" by (cases "pin_state a owner")
    have "drive_endstops a seen (owner # es) m = Some m2"
    proof -
      have "\<not> (\<not> endstop_enabled owner \<or> (\<exists>e \<in> set seen. endstop_enabled e \<and> endstop_pin e = endstop_pin owner))"
        using True by blast
      then show ?thesis
        using m1(1) m2(1) pin_state_level [OF own _ ps] True
        by (simp only: drive_endstops.simps ps Let_def prod.case if_False) simp
    qed
    then show ?thesis using m1(2,3) m2(2,3) True same by auto
  qed
qed simp

text \<open>
  driving the endstop pins of an axis gives every pin that an enabled endstop uses the level that says
  whether any of the pin's endstops is triggered (the last one's polarity counts), and leaves every other
  pin of the controller alone.
\<close>

theorem endstop_pins_correct:
  assumes "endstops_wired a m"
  shows "\<exists>m'. update_endstop_pin a m = Some m' \<and>
    (\<forall>p. valid_pin m p \<longrightarrow> pin_level p m' = (if on_pin a p = [] then pin_level p m else Some (endstop_level a p)))"
  using drive_endstops_pins [OF assms, of "[]" "endstops a"]
  by (auto simp: update_endstop_pin_def on_pin_def filter_empty_conv split: if_splits)

definition sample_endstop :: endstop where
  "sample_endstop = \<lparr>side = Max_Side, endstop_enabled = True, endstop_pin = \<lparr>pin_port = 1, pin_number = 4\<rparr>,
     trigger_position_mm = 10, trigger_when_ge = True, raw_level_when_triggered = True\<rparr>"

definition sample_axis :: axis where
  "sample_axis = \<lparr>step_pin = \<lparr>pin_port = 2, pin_number = 0\<rparr>, direction_pin = \<lparr>pin_port = 2, pin_number = 1\<rparr>,
     endstops = [sample_endstop], invert_direction = False, motor_connected = True, step_high = False,
     direction_high = False, steps_per_mm = 100, initial_position_steps = 0, position_steps = 1200\<rparr>"

theorem endstop_pins_correct_witness:
  "\<exists>m'. update_endstop_pin sample_axis lpc_reset = Some m' \<and> pin_level \<lparr>pin_port = 1, pin_number = 4\<rparr> m' = Some True"
proof -
  let ?p = "\<lparr>pin_port = 1, pin_number = 4\<rparr> :: pin_address"
  have v: "valid_pin lpc_reset ?p" by (simp add: valid_pin_def lpc_reset_def gpio_block_reset_def)
  then have w: "endstops_wired sample_axis lpc_reset" by (simp add: endstops_wired_def sample_axis_def sample_endstop_def)
  have "on_pin sample_axis ?p = [sample_endstop]" by (simp add: on_pin_def sample_axis_def sample_endstop_def)
  moreover have "one_endstop_triggered sample_axis sample_endstop"
    by (simp add: one_endstop_triggered_def sample_axis_def sample_endstop_def position_mm_def)
  ultimately have "endstop_level sample_axis ?p" by (simp add: endstop_level_def sample_endstop_def)
  with \<open>on_pin sample_axis ?p = [sample_endstop]\<close> show ?thesis
    using endstop_pins_correct [OF w] v by auto
qed

section \<open>Counting steps\<close>

text \<open>The level of a pin after a history of level changes.\<close>

definition level_after :: "pin_address \<Rightarrow> bool \<Rightarrow> (pin_address \<times> bool) list \<Rightarrow> bool" where
  "level_after p start es = fold (\<lambda>(q, high) l. if q = p then high else l) es start"

text \<open>The reference: what event \<open>i\<close> of a history adds to the position, from the pin levels alone.\<close>

definition step_of :: "axis \<Rightarrow> (pin_address \<times> bool) list \<Rightarrow> nat \<Rightarrow> int" where
  "step_of a es i =
     (if fst (es ! i) = step_pin a \<and> snd (es ! i) \<and> \<not> level_after (step_pin a) (step_high a) (take i es)
      then (if level_after (direction_pin a) (direction_high a) (take i es) \<noteq> invert_direction a then - 1 else 1)
      else 0)"

definition axis_run :: "(pin_address \<times> bool) list \<Rightarrow> axis \<Rightarrow> lpc1768 \<Rightarrow> (axis \<times> lpc1768) option" where
  "axis_run es a m =
     fold (\<lambda>(p, high) s. do { (a, m) \<leftarrow> s; on_gpio_level_changed p high a m }) es (Some (a, m))"

lemma level_after_snoc: "level_after p start (es @ [(q, high)]) = (if q = p then high else level_after p start es)"
  by (simp add: level_after_def)

lemma axis_run_snoc:
  "axis_run (es @ [(p, high)]) a m = do { (a, m) \<leftarrow> axis_run es a m; on_gpio_level_changed p high a m }"
  by (simp add: axis_run_def)

lemma step_of_prefix: "i < length es \<Longrightarrow> step_of a (es @ [e]) i = step_of a es i"
  by (simp add: step_of_def nth_append)

lemma update_endstop_total:
  assumes "endstops_wired a m"
  obtains m' where "update_endstop_pin a m = Some m'" "length (gpio m') = length (gpio m)"
  using drive_endstops_pins [OF assms, of "[]" "endstops a"] by (auto simp: update_endstop_pin_def)

lemma endstops_wired_same: "endstops a' = endstops a \<Longrightarrow> length (gpio m') = length (gpio m) \<Longrightarrow> endstops_wired a m \<Longrightarrow> endstops_wired a' m'"
  by (simp add: endstops_wired_def valid_pin_def)

definition same_wiring :: "axis \<Rightarrow> axis \<Rightarrow> bool" where
  "same_wiring a a' \<longleftrightarrow> step_pin a' = step_pin a \<and> direction_pin a' = direction_pin a \<and> endstops a' = endstops a \<and>
     invert_direction a' = invert_direction a \<and> motor_connected a' = motor_connected a \<and> steps_per_mm a' = steps_per_mm a"

lemma level_change:
  assumes "endstops_wired a m" "step_pin a \<noteq> direction_pin a" "motor_connected a"
  obtains a' m' where "on_gpio_level_changed p high a m = Some (a', m')" "same_wiring a a'" "length (gpio m') = length (gpio m)"
    "step_high a' = (if p = step_pin a then high else step_high a)"
    "direction_high a' = (if p = direction_pin a then high else direction_high a)"
    "position_steps a' = position_steps a + (if p = step_pin a \<and> high \<and> \<not> step_high a
       then (if direction_high a \<noteq> invert_direction a then - 1 else 1) else 0)"
proof -
  let ?a = "a\<lparr>step_high := high, position_steps := position_steps a + (if direction_high a \<noteq> invert_direction a then - 1 else 1)\<rparr>"
  have "endstops_wired ?a m" using assms(1) by (simp add: endstops_wired_def)
  then obtain m1 where m1: "update_endstop_pin ?a m = Some m1" "length (gpio m1) = length (gpio m)"
    by (rule update_endstop_total)
  consider "p = direction_pin a" | "p \<noteq> direction_pin a" "p \<noteq> step_pin a" | "p = step_pin a" "high \<and> \<not> step_high a"
    | "p = step_pin a" "\<not> (high \<and> \<not> step_high a)" by blast
  then show thesis
  proof cases
    case 1
    then show thesis
      using assms(2) by (intro that [of "a\<lparr>direction_high := high\<rparr>" m]) (auto simp: on_gpio_level_changed_def same_wiring_def)
  next
    case 2
    then show thesis by (intro that [of a m]) (auto simp: on_gpio_level_changed_def same_wiring_def)
  next
    case 3
    then show thesis
      using assms(2,3) m1
      by (intro that [of ?a m1]) (auto simp: on_gpio_level_changed_def same_wiring_def Let_def)
  next
    case 4
    then show thesis
      using assms(2) by (intro that [of "a\<lparr>step_high := high\<rparr>" m]) (auto simp: on_gpio_level_changed_def same_wiring_def Let_def)
  qed
qed

lemma axis_run_counts:
  assumes "endstops_wired a m" "step_pin a \<noteq> direction_pin a" "motor_connected a"
  shows "\<exists>a' m'. axis_run es a m = Some (a', m') \<and> same_wiring a a' \<and> length (gpio m') = length (gpio m) \<and>
    step_high a' = level_after (step_pin a) (step_high a) es \<and>
    direction_high a' = level_after (direction_pin a) (direction_high a) es \<and>
    position_steps a' = position_steps a + (\<Sum>i < length es. step_of a es i)"
proof (induction es rule: rev_induct)
  case Nil
  show ?case by (simp add: axis_run_def same_wiring_def level_after_def)
next
  case (snoc e es)
  obtain p high where e: "e = (p, high)" by (cases e)
  obtain a1 m1 where 1: "axis_run es a m = Some (a1, m1)" "same_wiring a a1" "length (gpio m1) = length (gpio m)"
    "step_high a1 = level_after (step_pin a) (step_high a) es"
    "direction_high a1 = level_after (direction_pin a) (direction_high a) es"
    "position_steps a1 = position_steps a + (\<Sum>i < length es. step_of a es i)" using snoc.IH by blast
  have wired: "endstops_wired a1 m1" "step_pin a1 \<noteq> direction_pin a1" "motor_connected a1"
    using assms 1(2,3) endstops_wired_same [of a1 a m1 m] by (simp_all add: same_wiring_def)
  obtain a2 m2 where 2: "on_gpio_level_changed p high a1 m1 = Some (a2, m2)" "same_wiring a1 a2" "length (gpio m2) = length (gpio m1)"
    "step_high a2 = (if p = step_pin a1 then high else step_high a1)"
    "direction_high a2 = (if p = direction_pin a1 then high else direction_high a1)"
    "position_steps a2 = position_steps a1 + (if p = step_pin a1 \<and> high \<and> \<not> step_high a1
       then (if direction_high a1 \<noteq> invert_direction a1 then - 1 else 1) else 0)"
    using level_change [OF wired] by metis
  have w: "step_pin a1 = step_pin a" "direction_pin a1 = direction_pin a" "invert_direction a1 = invert_direction a"
    using 1(2) by (simp_all add: same_wiring_def)
  have last: "step_of a (es @ [e]) (length es) = (if p = step_pin a \<and> high \<and> \<not> step_high a1
       then (if direction_high a1 \<noteq> invert_direction a then - 1 else 1) else 0)"
    by (simp add: step_of_def e 1(4,5))
  have "(\<Sum>i < length (es @ [e]). step_of a (es @ [e]) i) = (\<Sum>i < length es. step_of a es i) + step_of a (es @ [e]) (length es)"
    by (simp add: step_of_prefix)
  then have "position_steps a2 = position_steps a + (\<Sum>i < length (es @ [e]). step_of a (es @ [e]) i)"
    using 1(6) 2(6) unfolding last w by simp
  moreover have "axis_run (es @ [e]) a m = Some (a2, m2)" by (simp add: e axis_run_snoc 1(1) 2(1))
  moreover have "same_wiring a a2" using 1(2) 2(2) by (simp add: same_wiring_def)
  ultimately show ?case using 1 2 w by (simp add: e level_after_snoc)
qed

text \<open>
  C26: whatever levels the firmware drives, the axis counts exactly the rising edges of its step pin, each in
  the direction the direction pin shows at that moment: the position after a history of level changes is
  the start position plus the sum of the reference's steps, and the history never fails.
\<close>

theorem axis_counts_rising_edges:
  assumes "endstops_wired a m" and "step_pin a \<noteq> direction_pin a" and "motor_connected a"
  shows "\<exists>a' m'. axis_run es a m = Some (a', m') \<and>
    position_steps a' = position_steps a + (\<Sum>i < length es. step_of a es i)"
  using axis_run_counts [OF assms, of es] by blast

theorem axis_counts_rising_edges_witness:
  "\<exists>a' m'. axis_run [(step_pin sample_axis, True), (step_pin sample_axis, False), (step_pin sample_axis, True)]
     sample_axis lpc_reset = Some (a', m') \<and> position_steps a' = 1202"
proof -
  let ?es = "[(step_pin sample_axis, True), (step_pin sample_axis, False), (step_pin sample_axis, True)]"
  have w: "endstops_wired sample_axis lpc_reset"
    by (simp add: endstops_wired_def valid_pin_def sample_axis_def sample_endstop_def lpc_reset_def gpio_block_reset_def)
  have "step_pin sample_axis \<noteq> direction_pin sample_axis" "motor_connected sample_axis" by (simp_all add: sample_axis_def)
  from axis_counts_rising_edges [OF w this, of ?es] show ?thesis
    by (auto simp: step_of_def level_after_def sample_axis_def numeral_3_eq_3)
qed

end
