(* ===== verification/Physical_Tooling.thy ===== *)
theory Physical_Tooling
  imports I2c_Eeprom Complex_Main
begin

text \<open>
  The types of the physical scene (\<^verbatim>\<open>include/sim/physical_scene_types.hpp\<close>) and the tooling helpers
  (\<^verbatim>\<open>src/core/physical_tooling.cpp\<close>): points and boxes, the kinds of tools, probe tips and tool tips.
  A \<^verbatim>\<open>double\<close> is a real number, an \<^verbatim>\<open>int\<close> tool or pocket number an integer.
\<close>

section \<open>Types\<close>

record point3 =
  px :: real
  py :: real
  pz :: real

record box =
  min_x :: real
  min_y :: real
  min_z :: real
  max_x :: real
  max_y :: real
  max_z :: real

datatype tool_kind = Unspecified | CuttingTool | StockZProbe | ThreeAxisProbe

record atc_pocket =
  pocket :: int
  pocket_tool :: int
  occupied :: bool
  pocket_length_mm :: real
  pocket_kind :: tool_kind
  pocket_tip_mm :: real
  pocket_position :: point3

record atc_spindle =
  spindle_tool_no :: int
  spindle_length_mm :: real
  spindle_kind :: tool_kind
  spindle_tip_mm :: real
  has_tool :: bool

definition origin :: point3 where
  "origin = \<lparr>px = 0, py = 0, pz = 0\<rparr>"

definition no_spindle_tool :: atc_spindle where
  "no_spindle_tool = \<lparr>spindle_tool_no = - 1, spindle_length_mm = 0, spindle_kind = Unspecified, spindle_tip_mm = 0,
     has_tool = False\<rparr>"

record physical_atc_config =
  atc_model :: machine_model
  atc_available :: bool
  cfg_tool_setter_box :: "box option"
  anchor1_x :: real
  anchor1_y :: real
  toolrack_offset_x :: real
  toolrack_offset_y :: real
  toolrack_z :: real
  cfg_clamp_action_mm :: real
  persisted_active_tool :: "int option"

definition default_atc_config :: physical_atc_config where
  "default_atc_config = \<lparr>atc_model = CarveraC1, atc_available = False, cfg_tool_setter_box = None, anchor1_x = - 359,
     anchor1_y = - 234, toolrack_offset_x = 356, toolrack_offset_y = 0, toolrack_z = - 105, cfg_clamp_action_mm = 1,
     persisted_active_tool = None\<rparr>"

record probe_contacts =
  probe_contact :: bool
  tool_setter_contact :: bool
  stock_probe_crash_axis :: "nat option"

definition no_contacts :: probe_contacts where
  "no_contacts = \<lparr>probe_contact = False, tool_setter_contact = False, stock_probe_crash_axis = None\<rparr>"

section \<open>Tooling\<close>

definition tool_shank_insert_mm :: real where "tool_shank_insert_mm = 20"

definition detector_tolerance_mm :: real where "detector_tolerance_mm = 3 + 8 / 10"

definition close_enough :: "real \<Rightarrow> real \<Rightarrow> real \<Rightarrow> bool" where
  "close_enough lhs rhs tolerance \<longleftrightarrow> \<bar>lhs - rhs\<bar> \<le> tolerance"

definition is_firmware_probe_tool :: "int \<Rightarrow> bool" where
  "is_firmware_probe_tool tool \<longleftrightarrow> tool = 0 \<or> tool \<ge> 999990"

definition inferred_tool_kind :: "int \<Rightarrow> tool_kind" where
  "inferred_tool_kind tool =
     (if tool \<ge> 999990 then ThreeAxisProbe else if tool = 0 then StockZProbe else CuttingTool)"

definition resolve_tool_kind :: "int \<Rightarrow> tool_kind \<Rightarrow> tool_kind" where
  "resolve_tool_kind tool requested = (if requested = Unspecified then inferred_tool_kind tool else requested)"

text \<open>The recursive call on an unspecified kind is made with the inferred kind, which is specified.\<close>

definition tip_diameter_of :: "tool_kind \<Rightarrow> real" where
  "tip_diameter_of kind = (case kind of ThreeAxisProbe \<Rightarrow> 2 | StockZProbe \<Rightarrow> 16 / 10 | _ \<Rightarrow> 0)"

definition resolve_probe_tip_diameter :: "int \<Rightarrow> tool_kind \<Rightarrow> real \<Rightarrow> real" where
  "resolve_probe_tip_diameter tool kind requested =
     (if requested > 0 then requested
      else tip_diameter_of (if kind = Unspecified then inferred_tool_kind tool else kind))"

definition is_probe_kind :: "tool_kind \<Rightarrow> bool" where
  "is_probe_kind kind \<longleftrightarrow> kind = StockZProbe \<or> kind = ThreeAxisProbe"

definition tool_tip_position :: "point3 \<Rightarrow> real \<Rightarrow> point3" where
  "tool_tip_position spindle tool_length =
     spindle\<lparr>pz := pz spindle - max 0 (tool_length - tool_shank_insert_mm)\<rparr>"

definition normalized :: "box \<Rightarrow> box" where
  "normalized b =
     (let b = (if min_x b > max_x b then b\<lparr>min_x := max_x b, max_x := min_x b\<rparr> else b);
          b = (if min_y b > max_y b then b\<lparr>min_y := max_y b, max_y := min_y b\<rparr> else b)
      in if min_z b > max_z b then b\<lparr>min_z := max_z b, max_z := min_z b\<rparr> else b)"

definition contains :: "box \<Rightarrow> point3 \<Rightarrow> bool" where
  "contains b p \<longleftrightarrow> px p \<ge> min_x b \<and> px p \<le> max_x b \<and> py p \<ge> min_y b \<and> py p \<le> max_y b \<and>
     pz p \<ge> min_z b \<and> pz p \<le> max_z b"

section \<open>Lemmas\<close>

lemma normalized_ordered:
  "min_x (normalized b) \<le> max_x (normalized b)" "min_y (normalized b) \<le> max_y (normalized b)"
  "min_z (normalized b) \<le> max_z (normalized b)"
  by (auto simp: normalized_def Let_def)

lemma tip_x [simp]: "px (tool_tip_position s l) = px s"
  and tip_y [simp]: "py (tool_tip_position s l) = py s"
  by (simp_all add: tool_tip_position_def)

lemma tip_z_le: "pz (tool_tip_position s l) \<le> pz s"
  by (simp add: tool_tip_position_def)

lemma inferred_specified [simp]: "inferred_tool_kind tool \<noteq> Unspecified"
  by (simp add: inferred_tool_kind_def)

lemma resolved_specified [simp]: "resolve_tool_kind tool kind \<noteq> Unspecified"
  by (simp add: resolve_tool_kind_def)

end
