(* ===== verification/Atc_Rack.thy ===== *)
theory Atc_Rack
  imports Physical_Tooling Step_Laws "HOL-Library.Multiset"
begin

text \<open>
  The tool rack of the automatic tool changer (\<^verbatim>\<open>src/core/atc_rack_model.cpp\<close>): the pockets with their
  tools, the tool in the spindle, and the clamp whose axis position opens and closes it with hysteresis.
\<close>

section \<open>State\<close>

record atc_rack =
  rack_pockets :: "atc_pocket list"
  spindle_tool :: atc_spindle
  last_clamp_mm :: "real option"
  clamp_reference_mm :: "real option"
  clamp_action_mm :: real
  physical_clamped :: bool
  rack_available :: bool

definition new_rack :: atc_rack where
  "new_rack = \<lparr>rack_pockets = [], spindle_tool = no_spindle_tool, last_clamp_mm = None, clamp_reference_mm = None,
     clamp_action_mm = 1, physical_clamped = True, rack_available = False\<rparr>"

definition rack_clear :: "atc_rack \<Rightarrow> atc_rack" where
  "rack_clear r = \<lparr>rack_pockets = [], spindle_tool = no_spindle_tool, last_clamp_mm = None, clamp_reference_mm = None,
     clamp_action_mm = 1, physical_clamped = True, rack_available = False\<rparr>"

section \<open>Pockets\<close>

definition tool_transfer_z_tolerance_mm :: real where "tool_transfer_z_tolerance_mm = 3"

definition at_rack_transfer_position :: "point3 \<Rightarrow> atc_pocket \<Rightarrow> bool" where
  "at_rack_transfer_position s p \<longleftrightarrow>
     close_enough (px s) (px (pocket_position p)) detector_tolerance_mm \<and>
     close_enough (py s) (py (pocket_position p)) detector_tolerance_mm \<and>
     close_enough (pz s) (pz (pocket_position p)) tool_transfer_z_tolerance_mm"

text \<open>\<^verbatim>\<open>find_if\<close> and a loop that stops at its first hit: update the first element that satisfies a test.\<close>

fun update_first :: "('a \<Rightarrow> bool) \<Rightarrow> ('a \<Rightarrow> 'a) \<Rightarrow> 'a list \<Rightarrow> 'a list" where
  "update_first test f [] = []"
| "update_first test f (x # xs) = (if test x then f x # xs else x # update_first test f xs)"

definition set_pocket_tool :: "int \<Rightarrow> int \<Rightarrow> bool \<Rightarrow> real \<Rightarrow> tool_kind \<Rightarrow> real \<Rightarrow> atc_rack \<Rightarrow> atc_rack" where
  "set_pocket_tool n tool occ len kind tip r =
     (let kind = resolve_tool_kind tool kind; tip = resolve_probe_tip_diameter tool kind tip
      in if \<not> (\<exists>p \<in> set (rack_pockets r). pocket p = n)
         then r\<lparr>rack_pockets := rack_pockets r @ [\<lparr>pocket = n, pocket_tool = tool, occupied = occ, pocket_length_mm = len,
                 pocket_kind = kind, pocket_tip_mm = tip, pocket_position = origin\<rparr>]\<rparr>
         else r\<lparr>rack_pockets := update_first (\<lambda>p. pocket p = n)
                 (\<lambda>p. p\<lparr>pocket_tool := tool, occupied := occ, pocket_length_mm := len, pocket_kind := kind,
                        pocket_tip_mm := tip\<rparr>) (rack_pockets r)\<rparr>)"

definition clear_pocket_tools :: "atc_rack \<Rightarrow> atc_rack" where
  "clear_pocket_tools r = r\<lparr>rack_pockets := [], spindle_tool := no_spindle_tool\<rparr>"

definition sorted_pockets :: "atc_rack \<Rightarrow> atc_pocket list" where
  "sorted_pockets r = sort_key pocket (rack_pockets r)"

section \<open>The spindle\<close>

definition spindle_of_pocket :: "atc_pocket \<Rightarrow> atc_spindle" where
  "spindle_of_pocket p = \<lparr>spindle_tool_no = pocket_tool p, spindle_length_mm = pocket_length_mm p,
     spindle_kind = pocket_kind p, spindle_tip_mm = pocket_tip_mm p, has_tool = True\<rparr>"

definition pocket_of_spindle :: "atc_spindle \<Rightarrow> atc_pocket \<Rightarrow> atc_pocket" where
  "pocket_of_spindle s p = p\<lparr>pocket_tool := spindle_tool_no s, pocket_length_mm := spindle_length_mm s,
     pocket_kind := spindle_kind s, pocket_tip_mm := spindle_tip_mm s, occupied := True\<rparr>"

definition clamp_open :: "point3 \<Rightarrow> atc_rack \<Rightarrow> atc_rack" where
  "clamp_open pos r =
     (if \<not> has_tool (spindle_tool r) then r
      else if \<exists>p \<in> set (rack_pockets r). at_rack_transfer_position pos p
      then r\<lparr>rack_pockets := update_first (at_rack_transfer_position pos) (pocket_of_spindle (spindle_tool r)) (rack_pockets r),
             spindle_tool := no_spindle_tool\<rparr>
      else r)"

text \<open>The loops of \<^verbatim>\<open>clamp_close\<close> and \<^verbatim>\<open>reconcile_spindle_tool_from_firmware\<close>: the first occupied pocket that
  passes the test gives its tool to the spindle.\<close>

definition take_from_pocket :: "(atc_pocket \<Rightarrow> bool) \<Rightarrow> atc_rack \<Rightarrow> atc_rack" where
  "take_from_pocket test r = (case List.find (\<lambda>p. occupied p \<and> test p) (rack_pockets r) of
     None \<Rightarrow> r
   | Some p \<Rightarrow> r\<lparr>spindle_tool := spindle_of_pocket p,
                 rack_pockets := update_first (\<lambda>p. occupied p \<and> test p) (occupied_update (\<lambda>_. False)) (rack_pockets r)\<rparr>)"

definition clamp_close :: "point3 \<Rightarrow> atc_rack \<Rightarrow> atc_rack" where
  "clamp_close pos r =
     (if has_tool (spindle_tool r) then r else take_from_pocket (at_rack_transfer_position pos) r)"

definition set_spindle_tool :: "int \<Rightarrow> real \<Rightarrow> bool \<Rightarrow> tool_kind \<Rightarrow> real \<Rightarrow> atc_rack \<Rightarrow> atc_rack" where
  "set_spindle_tool tool len installed kind tip r =
     (if \<not> installed then r\<lparr>spindle_tool := no_spindle_tool\<rparr>
      else let kind = resolve_tool_kind tool kind
           in r\<lparr>spindle_tool := \<lparr>spindle_tool_no = tool, spindle_length_mm = len, spindle_kind = kind,
                  spindle_tip_mm = resolve_probe_tip_diameter tool kind tip, has_tool = True\<rparr>\<rparr>)"

definition spindle_has_probe_tool :: "atc_rack \<Rightarrow> bool" where
  "spindle_has_probe_tool r \<longleftrightarrow> has_tool (spindle_tool r) \<and>
     (is_firmware_probe_tool (spindle_tool_no (spindle_tool r)) \<or> is_probe_kind (spindle_kind (spindle_tool r)))"

definition detector_contact :: "point3 \<Rightarrow> atc_rack \<Rightarrow> bool" where
  "detector_contact pos r \<longleftrightarrow> rack_available r \<and>
     (\<exists>p \<in> set (rack_pockets r). occupied p \<and>
        close_enough (px pos) (px (pocket_position p)) detector_tolerance_mm \<and>
        close_enough (py pos) (py (pocket_position p)) detector_tolerance_mm)"

definition reconcile_spindle_tool_from_firmware :: "int \<Rightarrow> atc_rack \<Rightarrow> atc_rack" where
  "reconcile_spindle_tool_from_firmware active_tool r =
     (if has_tool (spindle_tool r) \<or> active_tool < 0 then r
      else take_from_pocket (\<lambda>p. pocket_tool p = active_tool) r)"

definition rack_configure :: "physical_atc_config \<Rightarrow> atc_rack \<Rightarrow> atc_rack" where
  "rack_configure c r =
     (let r = (case persisted_active_tool c of None \<Rightarrow> r | Some t \<Rightarrow> reconcile_spindle_tool_from_firmware t r)
      in if atc_model c \<noteq> CarveraC1 \<or> \<not> atc_available c then r\<lparr>rack_available := False\<rparr>
         else r\<lparr>clamp_action_mm := cfg_clamp_action_mm c,
                rack_pockets := map (\<lambda>p. p\<lparr>pocket_position := \<lparr>
                    px = anchor1_x c + toolrack_offset_x c,
                    py = anchor1_y c + toolrack_offset_y c + (if pocket p = 0 then 210 else of_int (6 - pocket p) * 30),
                    pz = toolrack_z c\<rparr>\<rparr>) (rack_pockets r),
                rack_available := True\<rparr>)"

section \<open>The clamp\<close>

definition clamp_threshold :: "atc_rack \<Rightarrow> real" where
  "clamp_threshold r = max (5 / 100) (\<bar>clamp_action_mm r\<bar> * (8 / 10))"

definition update_clamp_position :: "point3 \<Rightarrow> real \<Rightarrow> atc_rack \<Rightarrow> bool \<times> atc_rack" where
  "update_clamp_position pos x r = (case last_clamp_mm r of
     None \<Rightarrow> (False, r\<lparr>last_clamp_mm := Some x, clamp_reference_mm := Some x\<rparr>)
   | Some previous \<Rightarrow>
       let reference = (case clamp_reference_mm r of None \<Rightarrow> x | Some y \<Rightarrow> y);
           r = r\<lparr>last_clamp_mm := Some x, clamp_reference_mm := Some reference\<rparr>;
           delta = x - previous
       in if physical_clamped r \<and> delta > 0 then (False, r\<lparr>clamp_reference_mm := Some (max reference x)\<rparr>)
          else if \<not> physical_clamped r \<and> delta < 0 then (False, r\<lparr>clamp_reference_mm := Some (min reference x)\<rparr>)
          else if physical_clamped r \<and> delta < 0 \<and> reference - x \<ge> clamp_threshold r
          then (True, clamp_open pos (r\<lparr>physical_clamped := False, clamp_reference_mm := Some x\<rparr>))
          else if \<not> physical_clamped r \<and> delta > 0 \<and> x - reference \<ge> clamp_threshold r
          then (True, clamp_close pos (r\<lparr>physical_clamped := True, clamp_reference_mm := Some x\<rparr>))
          else (False, r))"

section \<open>No tool is made, and which tool may be lost\<close>

type_synonym tool = "int \<times> real \<times> tool_kind \<times> real"

definition pocket_contents :: "atc_pocket \<Rightarrow> tool" where
  "pocket_contents p = (pocket_tool p, pocket_length_mm p, pocket_kind p, pocket_tip_mm p)"

definition spindle_contents :: "atc_spindle \<Rightarrow> tool" where
  "spindle_contents s = (spindle_tool_no s, spindle_length_mm s, spindle_kind s, spindle_tip_mm s)"

definition pocket_tools :: "atc_pocket list \<Rightarrow> tool multiset" where
  "pocket_tools ps = mset (map pocket_contents (filter occupied ps))"

definition tools :: "atc_rack \<Rightarrow> tool multiset" where
  "tools r = pocket_tools (rack_pockets r) + (if has_tool (spindle_tool r) then {#spindle_contents (spindle_tool r)#} else {#})"

text \<open>The tool of the pocket under the spindle, if it has one: what opening the clamp overwrites.\<close>

definition overwritten :: "point3 \<Rightarrow> atc_rack \<Rightarrow> tool multiset" where
  "overwritten pos r = (case List.find (at_rack_transfer_position pos) (rack_pockets r) of
     None \<Rightarrow> {#} | Some p \<Rightarrow> if has_tool (spindle_tool r) \<and> occupied p then {#pocket_contents p#} else {#})"

lemma pocket_tools_Cons:
  "pocket_tools (p # ps) = (if occupied p then add_mset (pocket_contents p) (pocket_tools ps) else pocket_tools ps)"
  by (simp add: pocket_tools_def)

lemma pocket_tools_Nil [simp]: "pocket_tools [] = {#}"
  by (simp add: pocket_tools_def)

lemma spindle_of_pocket_contents [simp]: "spindle_contents (spindle_of_pocket p) = pocket_contents p"
  "has_tool (spindle_of_pocket p)"
  by (simp_all add: spindle_of_pocket_def spindle_contents_def pocket_contents_def)

lemma pocket_of_spindle_contents [simp]: "pocket_contents (pocket_of_spindle s p) = spindle_contents s"
  "occupied (pocket_of_spindle s p)"
  by (simp_all add: pocket_of_spindle_def spindle_contents_def pocket_contents_def)

lemma no_spindle_tool_empty [simp]: "\<not> has_tool no_spindle_tool"
  by (simp add: no_spindle_tool_def)

lemma put_tool:
  "List.find test ps = Some p \<Longrightarrow>
    pocket_tools (update_first test (pocket_of_spindle s) ps) + (if occupied p then {#pocket_contents p#} else {#})
      = add_mset (spindle_contents s) (pocket_tools ps)"
  by (induction ps) (auto simp: pocket_tools_Cons split: if_splits)

lemma take_tool:
  "List.find (\<lambda>p. occupied p \<and> test p) ps = Some p \<Longrightarrow>
    add_mset (pocket_contents p)
      (pocket_tools (update_first (\<lambda>p. occupied p \<and> test p) (occupied_update (\<lambda>_. False)) ps)) = pocket_tools ps"
  by (induction ps) (auto simp: pocket_tools_Cons split: if_splits)

lemma tools_clamp_open: "tools (clamp_open pos r) + overwritten pos r = tools r"
proof (cases "has_tool (spindle_tool r) \<and> (\<exists>p \<in> set (rack_pockets r). at_rack_transfer_position pos p)")
  case True
  then obtain p where p: "List.find (at_rack_transfer_position pos) (rack_pockets r) = Some p"
    by (metis find_None_iff option.exhaust)
  from True put_tool [OF p, of "spindle_tool r"] p show ?thesis
    by (auto simp: clamp_open_def tools_def overwritten_def)
next
  case False
  then show ?thesis
    by (auto simp: clamp_open_def overwritten_def find_None_iff find_Some_iff split: option.splits)
qed

lemma tools_take_from_pocket: "\<not> has_tool (spindle_tool r) \<Longrightarrow> tools (take_from_pocket test r) = tools r"
  using take_tool [of test "rack_pockets r"]
  by (auto simp: take_from_pocket_def tools_def split: option.splits)

lemma tools_clamp_close: "tools (clamp_close pos r) = tools r"
  by (simp add: clamp_close_def tools_take_from_pocket)

lemma tools_irrelevant:
  "tools (r\<lparr>last_clamp_mm := a\<rparr>) = tools r" "tools (r\<lparr>clamp_reference_mm := b\<rparr>) = tools r"
  "tools (r\<lparr>physical_clamped := c\<rparr>) = tools r"
  "overwritten pos (r\<lparr>last_clamp_mm := a\<rparr>) = overwritten pos r" "overwritten pos (r\<lparr>clamp_reference_mm := b\<rparr>) = overwritten pos r"
  "overwritten pos (r\<lparr>physical_clamped := c\<rparr>) = overwritten pos r"
  by (simp_all add: tools_def overwritten_def split: option.splits)

text \<open>
  C27: whatever the clamp does, the tools in the pockets and the spindle afterwards are those before it,
  except that opening the clamp over an occupied pocket overwrites the tool in that pocket.
\<close>
theorem clamp_conserves_tools:
  "update_clamp_position pos x r = (changed, r') \<Longrightarrow>
    tools r' + (if changed \<and> physical_clamped r then overwritten pos r else {#}) = tools r"
  using tools_clamp_open [of pos "r\<lparr>last_clamp_mm := Some x, physical_clamped := False, clamp_reference_mm := Some x\<rparr>"]
  by (auto simp: update_clamp_position_def Let_def tools_irrelevant tools_clamp_close split: option.splits if_splits)

definition sample_pocket :: "int \<Rightarrow> int \<Rightarrow> atc_pocket" where
  "sample_pocket n tool = \<lparr>pocket = n, pocket_tool = tool, occupied = True, pocket_length_mm = 40, pocket_kind = CuttingTool,
     pocket_tip_mm = 0, pocket_position = origin\<rparr>"

definition sample_rack :: atc_rack where
  "sample_rack = new_rack\<lparr>rack_pockets := [sample_pocket 1 5], spindle_tool := spindle_of_pocket (sample_pocket 1 7),
     last_clamp_mm := Some 2, clamp_reference_mm := Some 2\<rparr>"

text \<open>The spindle holds tool 7 over the pocket of tool 5: opening the clamp loses tool 5.\<close>

theorem clamp_conserves_tools_witness:
  "\<exists>r'. update_clamp_position origin 1 sample_rack = (True, r') \<and> tools r' = {#(7, 40, CuttingTool, 0)#} \<and>
        tools sample_rack = {#(5, 40, CuttingTool, 0), (7, 40, CuttingTool, 0)#}"
proof -
  obtain changed r' where up: "update_clamp_position origin 1 sample_rack = (changed, r')"
    by (cases "update_clamp_position origin 1 sample_rack")
  have changed: changed
    using up by (simp add: update_clamp_position_def sample_rack_def new_rack_def clamp_threshold_def)
  have over: "overwritten origin sample_rack = {#(5, 40, CuttingTool, 0)#}"
    by (simp add: overwritten_def sample_rack_def new_rack_def sample_pocket_def at_rack_transfer_position_def
        close_enough_def origin_def detector_tolerance_mm_def tool_transfer_z_tolerance_mm_def pocket_contents_def)
  have all: "tools sample_rack = {#(5, 40, CuttingTool, 0), (7, 40, CuttingTool, 0)#}"
    by (simp add: tools_def sample_rack_def new_rack_def sample_pocket_def pocket_tools_def pocket_contents_def)
  have "physical_clamped sample_rack"
    by (simp add: sample_rack_def new_rack_def)
  with clamp_conserves_tools [OF up] changed over all have "tools r' = {#(7, 40, CuttingTool, 0)#}"
    by simp
  with up changed all show ?thesis
    by simp
qed

section \<open>The clamp as a hysteresis\<close>

text \<open>
  The specification keeps the positions seen since the clamp last changed, newest first.  A closed clamp
  opens when the position has come down by the threshold from the highest of them, an open clamp closes
  when it has come up by the threshold from the lowest.
\<close>

definition hysteresis_step :: "real \<Rightarrow> real \<Rightarrow> bool \<times> real list \<Rightarrow> bool \<times> real list" where
  "hysteresis_step t x s =
     (if fst s then (if x \<le> Max (set (snd s)) - t then (False, [x]) else (True, x # snd s))
      else if x \<ge> Min (set (snd s)) + t then (True, [x]) else (False, x # snd s))"

definition clamp_refines :: "atc_rack \<Rightarrow> bool \<times> real list \<Rightarrow> bool" where
  "clamp_refines r s \<longleftrightarrow> physical_clamped r = fst s \<and> snd s \<noteq> [] \<and> last_clamp_mm r = Some (hd (snd s)) \<and>
     clamp_reference_mm r = Some (if fst s then Max (set (snd s)) else Min (set (snd s))) \<and>
     (if fst s then Max (set (snd s)) - hd (snd s) < clamp_threshold r
      else hd (snd s) - Min (set (snd s)) < clamp_threshold r)"

lemma clamp_threshold_pos: "0 < clamp_threshold r"
  by (simp add: clamp_threshold_def less_max_iff_disj)

lemma clamp_moves_keep [simp]:
  "physical_clamped (clamp_open pos r) = physical_clamped r" "last_clamp_mm (clamp_open pos r) = last_clamp_mm r"
  "clamp_reference_mm (clamp_open pos r) = clamp_reference_mm r" "clamp_action_mm (clamp_open pos r) = clamp_action_mm r"
  "physical_clamped (clamp_close pos r) = physical_clamped r" "last_clamp_mm (clamp_close pos r) = last_clamp_mm r"
  "clamp_reference_mm (clamp_close pos r) = clamp_reference_mm r" "clamp_action_mm (clamp_close pos r) = clamp_action_mm r"
  by (simp_all add: clamp_open_def clamp_close_def take_from_pocket_def split: option.split)

lemma clamp_threshold_keep [simp]:
  "clamp_threshold (r\<lparr>last_clamp_mm := a\<rparr>) = clamp_threshold r"
  "clamp_threshold (r\<lparr>clamp_reference_mm := b\<rparr>) = clamp_threshold r"
  "clamp_threshold (r\<lparr>physical_clamped := c\<rparr>) = clamp_threshold r"
  "clamp_threshold (clamp_open pos r) = clamp_threshold r" "clamp_threshold (clamp_close pos r) = clamp_threshold r"
  by (simp_all add: clamp_threshold_def)

lemma update_clamp_threshold [simp]:
  "clamp_threshold (snd (update_clamp_position pos x r)) = clamp_threshold r"
  by (simp add: update_clamp_position_def Let_def split: option.split)

lemma clamp_step_closed:
  assumes R: "clamp_refines r (True, y # ys)"
  shows "clamp_refines (snd (update_clamp_position pos x r)) (hysteresis_step (clamp_threshold r) x (True, y # ys))"
proof -
  define m where "m = Max (set (y # ys))"
  have le: "y \<le> m" and max_x: "Max (set (x # y # ys)) = max x m"
    by (simp_all add: m_def)
  have last: "last_clamp_mm r = Some y" "clamp_reference_mm r = Some m" "physical_clamped r" "m - y < clamp_threshold r"
    using R by (simp_all add: clamp_refines_def m_def)
  have step: "hysteresis_step (clamp_threshold r) x (True, y # ys) =
      (if x \<le> m - clamp_threshold r then (False, [x]) else (True, x # y # ys))"
    by (simp add: hysteresis_step_def m_def)
  consider "x > y" | "x \<le> y" "x \<le> m - clamp_threshold r" | "x \<le> y" "\<not> x \<le> m - clamp_threshold r"
    by linarith
  then show ?thesis
  proof cases
    case 1
    with last le show ?thesis
      by (simp add: clamp_refines_def step max_x update_clamp_position_def Let_def max.commute
          del: Max_insert set_simps)
  next
    case 2
    with last clamp_threshold_pos [of r] have "x < y"
      by linarith
    with 2 last clamp_threshold_pos [of r] show ?thesis
      by (simp add: clamp_refines_def step update_clamp_position_def Let_def)
  next
    case 3
    with last le show ?thesis
      by (simp add: clamp_refines_def step max_x update_clamp_position_def Let_def max_def
          del: Max_insert set_simps)
  qed
qed

lemma clamp_step_open:
  assumes R: "clamp_refines r (False, y # ys)"
  shows "clamp_refines (snd (update_clamp_position pos x r)) (hysteresis_step (clamp_threshold r) x (False, y # ys))"
proof -
  define m where "m = Min (set (y # ys))"
  have le: "m \<le> y" and min_x: "Min (set (x # y # ys)) = min x m"
    by (simp_all add: m_def)
  have last: "last_clamp_mm r = Some y" "clamp_reference_mm r = Some m" "\<not> physical_clamped r" "y - m < clamp_threshold r"
    using R by (simp_all add: clamp_refines_def m_def)
  have step: "hysteresis_step (clamp_threshold r) x (False, y # ys) =
      (if x \<ge> m + clamp_threshold r then (True, [x]) else (False, x # y # ys))"
    by (simp add: hysteresis_step_def m_def)
  consider "x < y" | "x \<ge> y" "x \<ge> m + clamp_threshold r" | "x \<ge> y" "\<not> x \<ge> m + clamp_threshold r"
    by linarith
  then show ?thesis
  proof cases
    case 1
    with last le show ?thesis
      by (simp add: clamp_refines_def step min_x update_clamp_position_def Let_def min.commute
          del: Min_insert set_simps)
  next
    case 2
    with last clamp_threshold_pos [of r] have "x > y"
      by linarith
    with 2 last clamp_threshold_pos [of r] show ?thesis
      by (simp add: clamp_refines_def step update_clamp_position_def Let_def)
  next
    case 3
    with last le show ?thesis
      by (simp add: clamp_refines_def step min_x update_clamp_position_def Let_def min_def
          del: Min_insert set_simps)
  qed
qed

lemma clamp_step:
  "clamp_refines r s \<Longrightarrow> clamp_refines (snd (update_clamp_position pos x r)) (hysteresis_step (clamp_threshold r) x s)"
proof -
  assume R: "clamp_refines r s"
  then obtain c y ys where "s = (c, y # ys)"
    by (cases s; cases "snd s") (auto simp: clamp_refines_def)
  with R clamp_step_closed [of r y ys pos x] clamp_step_open [of r y ys pos x] show ?thesis
    by (cases c) simp_all
qed

text \<open>A run of the clamp axis: each sample is a spindle position and a clamp position.\<close>

definition clamp_run :: "(point3 \<times> real) list \<Rightarrow> atc_rack \<Rightarrow> atc_rack" where
  "clamp_run samples r = fold (\<lambda>(pos, x) r. snd (update_clamp_position pos x r)) samples r"

interpretation clamp: refining_operations "\<lambda>(pos, x) r. snd (update_clamp_position pos x r)" "\<lambda>r. clamp_threshold r = t" "\<lambda>op. True"
    "\<lambda>(pos, x). hysteresis_step t x" clamp_refines
  for t
  by unfold_locales (auto simp: clamp_step)

lemma clamp_run_refines:
  "clamp_refines r s \<Longrightarrow>
    clamp_refines (clamp_run samples r) (fold (hysteresis_step (clamp_threshold r)) (map snd samples) s)"
  using clamp.run_refines [where s = r and t = "clamp_threshold r" and ops = samples and a = s] by (simp add: clamp_run_def fold_map comp_def case_prod_unfold)

text \<open>
  From the first clamp position on, the clamp is open or closed exactly as the hysteresis says that
  compares each position with the extreme reached since the last change.
\<close>
theorem clamp_follows_hysteresis:
  "last_clamp_mm r = None \<Longrightarrow>
    physical_clamped (clamp_run ((pos, x) # samples) r) \<longleftrightarrow>
      fst (fold (hysteresis_step (clamp_threshold r)) (map snd samples) (physical_clamped r, [x]))"
  using clamp_run_refines [of "snd (update_clamp_position pos x r)" "(physical_clamped r, [x])" samples]
    clamp_threshold_pos [of r]
  by (simp add: clamp_refines_def update_clamp_position_def clamp_run_def)

lemma new_rack_unmoved: "last_clamp_mm new_rack = None"
  by (simp add: new_rack_def)

text \<open>With an action of 1 mm the clamp opens 0.8 mm below the top and stays open over a smaller rise.\<close>

theorem clamp_follows_hysteresis_witness:
  "\<not> physical_clamped (clamp_run [(origin, 0), (origin, 1), (origin, 1 / 10), (origin, 1 / 2)] new_rack)"
  unfolding clamp_follows_hysteresis [of new_rack origin 0 "[(origin, 1), (origin, 1 / 10), (origin, 1 / 2)]",
      OF new_rack_unmoved]
  by (simp add: hysteresis_step_def new_rack_def clamp_threshold_def)

section \<open>A tool change\<close>

lemma update_first_key:
  "distinct (map key xs) \<Longrightarrow> (\<And>x. x \<in> set xs \<Longrightarrow> test x \<longleftrightarrow> key x = k) \<Longrightarrow>
    update_first test f xs = map (\<lambda>x. if key x = k then f x else x) xs"
proof (induction xs)
  case (Cons y ys)
  have "map (\<lambda>x. if key x = k then f x else x) ys = ys" if "key y = k"
    using Cons.prems(1) that by (auto intro!: map_idI simp: image_iff)
  with Cons show ?case
    by auto
qed simp

lemma find_key:
  "distinct (map key xs) \<Longrightarrow> (\<And>x. x \<in> set xs \<Longrightarrow> test x \<longleftrightarrow> key x = key p) \<Longrightarrow> p \<in> set xs \<Longrightarrow> List.find test xs = Some p"
  by (induction xs) (auto simp: image_iff)

text \<open>A rack as \<^verbatim>\<open>configure\<close> leaves it: the pockets 0 to 6, each at its place on the line of the rack.\<close>

definition pocket_place :: "physical_atc_config \<Rightarrow> int \<Rightarrow> point3" where
  "pocket_place c n = \<lparr>px = anchor1_x c + toolrack_offset_x c,
     py = anchor1_y c + toolrack_offset_y c + (if n = 0 then 210 else of_int (6 - n) * 30), pz = toolrack_z c\<rparr>"

definition racked :: "physical_atc_config \<Rightarrow> atc_pocket list \<Rightarrow> bool" where
  "racked c ps \<longleftrightarrow> distinct (map pocket ps) \<and> (\<forall>p \<in> set ps. pocket p \<in> {0..6} \<and> pocket_position p = pocket_place c (pocket p))"

lemma places_apart:
  assumes "m \<in> {0..6}" "n \<in> {0..6}"
  shows "close_enough (py (pocket_place c m)) (py (pocket_place c n)) detector_tolerance_mm \<longleftrightarrow> m = n"
proof -
  have "real_of_int (m - n) \<ge> 1 \<or> real_of_int (m - n) \<le> - 1" if "m \<noteq> n"
    using that by linarith
  then show ?thesis
    using assms by (auto simp: close_enough_def pocket_place_def detector_tolerance_mm_def abs_if algebra_simps)
qed

lemma at_place:
  "racked c ps \<Longrightarrow> p \<in> set ps \<Longrightarrow> n \<in> {0..6} \<Longrightarrow> at_rack_transfer_position (pocket_place c n) p \<longleftrightarrow> pocket p = n"
  using places_apart [of n "pocket p" c]
  by (auto simp: racked_def at_rack_transfer_position_def)
    (simp_all add: pocket_place_def close_enough_def detector_tolerance_mm_def tool_transfer_z_tolerance_mm_def)

lemma configured_racked:
  assumes "atc_model c = CarveraC1" "atc_available c" "persisted_active_tool c = None"
    and "distinct (map pocket (rack_pockets r))" "\<forall>p \<in> set (rack_pockets r). pocket p \<in> {0..6}"
  shows "racked c (rack_pockets (rack_configure c r))"
  using assms by (auto simp: rack_configure_def racked_def pocket_place_def comp_def)

lemma close_takes:
  assumes "racked c (rack_pockets r)" "\<not> has_tool (spindle_tool r)" "p \<in> set (rack_pockets r)" "occupied p"
  shows "clamp_close (pocket_place c (pocket p)) r =
    r\<lparr>spindle_tool := spindle_of_pocket p,
      rack_pockets := map (\<lambda>x. if pocket x = pocket p then x\<lparr>occupied := False\<rparr> else x) (rack_pockets r)\<rparr>"
proof -
  have d: "distinct (map pocket (rack_pockets r))" and n: "pocket p \<in> {0..6}"
    using assms by (auto simp: racked_def)
  have test: "occupied x \<and> at_rack_transfer_position (pocket_place c (pocket p)) x \<longleftrightarrow> pocket x = pocket p"
    if "x \<in> set (rack_pockets r)" for x
    using that d assms(3,4) at_place [OF assms(1) that n] by (auto simp: distinct_map dest: inj_onD)
  show ?thesis
    using find_key [OF d test assms(3)] update_first_key [OF d test] assms(2)
    by (simp add: clamp_close_def take_from_pocket_def)
qed

lemma open_puts:
  assumes "racked c (rack_pockets r)" "has_tool (spindle_tool r)" "q \<in> set (rack_pockets r)"
  shows "clamp_open (pocket_place c (pocket q)) r =
    r\<lparr>spindle_tool := no_spindle_tool,
      rack_pockets := map (\<lambda>x. if pocket x = pocket q then pocket_of_spindle (spindle_tool r) x else x) (rack_pockets r)\<rparr>"
proof -
  have d: "distinct (map pocket (rack_pockets r))" and n: "pocket q \<in> {0..6}"
    using assms by (auto simp: racked_def)
  from update_first_key [OF d at_place [OF assms(1) _ n]] assms at_place [OF assms(1) assms(3) n] show ?thesis
    by (auto simp: clamp_open_def)
qed

text \<open>
  In a configured rack, closing the clamp over an occupied pocket with an empty spindle takes exactly
  that pocket's tool, and opening it over another pocket puts exactly that tool there; the other pockets
  stay as they are.
\<close>
theorem tool_change_moves_tool:
  assumes "atc_model c = CarveraC1" "atc_available c" "persisted_active_tool c = None"
    and "distinct (map pocket (rack_pockets r0))" "\<forall>p \<in> set (rack_pockets r0). pocket p \<in> {0..6}"
    and r: "r = rack_configure c r0" and empty: "\<not> has_tool (spindle_tool r)"
    and p: "p \<in> set (rack_pockets r)" "occupied p" and q: "q \<in> set (rack_pockets r)" "pocket q \<noteq> pocket p"
    and taken: "r1 = clamp_close (pocket_place c (pocket p)) r"
    and put: "r2 = clamp_open (pocket_place c (pocket q)) r1"
  shows "spindle_tool r1 = spindle_of_pocket p \<and> \<not> has_tool (spindle_tool r2) \<and>
     rack_pockets r2 = map (\<lambda>x. if pocket x = pocket p then x\<lparr>occupied := False\<rparr>
       else if pocket x = pocket q then pocket_of_spindle (spindle_of_pocket p) x else x) (rack_pockets r)"
proof -
  have R: "racked c (rack_pockets r)"
    unfolding r by (rule configured_racked) fact+
  note r1 = close_takes [OF R empty p, folded taken]
  have R1: "racked c (rack_pockets r1)"
    using R by (auto simp: r1 racked_def comp_def if_distrib [of pocket] cong: if_cong)
  have tool: "has_tool (spindle_tool r1)" and q1: "q \<in> set (rack_pockets r1)"
    using q by (auto simp: r1 intro!: image_eqI [of q])
  from open_puts [OF R1 tool q1, folded put] show ?thesis
    using q(2) by (auto simp: r1)
qed

definition c1_config :: physical_atc_config where
  "c1_config = default_atc_config\<lparr>atc_available := True\<rparr>"

definition two_pockets :: atc_rack where
  "two_pockets = new_rack\<lparr>rack_pockets := [sample_pocket 1 5, (sample_pocket 2 0)\<lparr>occupied := False\<rparr>]\<rparr>"

theorem tool_change_moves_tool_witness:
  "pocket_tools (rack_pockets (clamp_open (pocket_place c1_config 2) (clamp_close (pocket_place c1_config 1)
     (rack_configure c1_config two_pockets)))) = {#(5, 40, CuttingTool, 0)#}"
proof -
  define r where "r = rack_configure c1_config two_pockets"
  define p where "p = (sample_pocket 1 5)\<lparr>pocket_position := pocket_place c1_config 1\<rparr>"
  define q where "q = (sample_pocket 2 0)\<lparr>occupied := False, pocket_position := pocket_place c1_config 2\<rparr>"
  have r: "rack_pockets r = [p, q]" "\<not> has_tool (spindle_tool r)"
    by (simp_all add: r_def p_def q_def rack_configure_def c1_config_def default_atc_config_def two_pockets_def
        new_rack_def sample_pocket_def pocket_place_def)
  have nums: "pocket p = 1" "pocket q = 2" "occupied p" "\<not> occupied q" "pocket_contents p = (5, 40, CuttingTool, 0)"
    by (simp_all add: p_def q_def sample_pocket_def pocket_contents_def)
  have "rack_pockets (clamp_open (pocket_place c1_config (pocket q)) (clamp_close (pocket_place c1_config (pocket p)) r)) =
     map (\<lambda>x. if pocket x = pocket p then x\<lparr>occupied := False\<rparr>
       else if pocket x = pocket q then pocket_of_spindle (spindle_of_pocket p) x else x) (rack_pockets r)"
    by (rule tool_change_moves_tool [of c1_config two_pockets, OF _ _ _ _ _ r_def, THEN conjunct2, THEN conjunct2])
      (use r nums in \<open>simp_all add: c1_config_def default_atc_config_def two_pockets_def new_rack_def sample_pocket_def\<close>)
  with r nums show ?thesis
    by (simp add: pocket_tools_def r_def)
qed

end
