(* ===== verification/Probe_Contact.thy ===== *)
theory Probe_Contact
  imports Physical_Tooling
begin

text \<open>
  Contacts of the probe and the tool setter (\<^verbatim>\<open>src/core/probe_contact_model.cpp\<close>): which boxes the tip of
  the installed tool touches, and the axis along which a stock Z probe has crashed into the stock.
\<close>

section \<open>State\<close>

record probe_model =
  probe_tool_installed :: bool
  tool_setter_box :: "box option"
  bed_box :: "box option"
  stock_box :: "box option"
  previous_probe_position :: "point3 option"
  tool_setter_overridden :: bool

definition new_probe_model :: probe_model where
  "new_probe_model = \<lparr>probe_tool_installed = False, tool_setter_box = None, bed_box = None, stock_box = None,
     previous_probe_position = None, tool_setter_overridden = False\<rparr>"

definition probe_clear :: "probe_model \<Rightarrow> probe_model" where
  "probe_clear m = m\<lparr>probe_tool_installed := False, tool_setter_box := None, bed_box := None, stock_box := None,
     previous_probe_position := None, tool_setter_overridden := False\<rparr>"

section \<open>Contact of a tip with a box\<close>

definition z_probe_top_contact_window_mm :: real where "z_probe_top_contact_window_mm = 25 / 100"

definition over_box :: "box \<Rightarrow> point3 \<Rightarrow> bool" where
  "over_box b tip \<longleftrightarrow> px tip \<ge> min_x b \<and> px tip \<le> max_x b \<and> py tip \<ge> min_y b \<and> py tip \<le> max_y b"

definition tool_tip_contacts_box :: "box \<Rightarrow> point3 \<Rightarrow> real \<Rightarrow> bool" where
  "tool_tip_contacts_box b spindle len = (let tip = tool_tip_position spindle len in over_box b tip \<and> pz tip \<le> max_z b)"

definition stock_z_probe_contacts_top_face :: "box \<Rightarrow> point3 \<Rightarrow> real \<Rightarrow> bool" where
  "stock_z_probe_contacts_top_face b spindle len =
     (let tip = tool_tip_position spindle len
      in over_box b tip \<and> pz tip \<le> max_z b \<and> pz tip \<ge> max_z b - z_probe_top_contact_window_mm)"

definition stock_z_probe_side_crash_axis :: "box \<Rightarrow> point3 \<Rightarrow> point3 \<Rightarrow> real \<Rightarrow> nat option" where
  "stock_z_probe_side_crash_axis b previous spindle len =
     (let tip = tool_tip_position spindle len;
          inside_stock = (over_box b tip \<and> pz tip \<le> max_z b \<and> pz tip \<ge> min_z b)
      in if \<not> inside_stock \<or> stock_z_probe_contacts_top_face b spindle len then None
         else let dx = \<bar>px spindle - px previous\<bar>; dy = \<bar>py spindle - py previous\<bar>; dz = \<bar>pz spindle - pz previous\<bar>
              in if dx \<ge> dy \<and> dx > dz then Some 0 else if dy > dx \<and> dy > dz then Some 1 else None)"

definition distance_outside_axis :: "real \<Rightarrow> real \<Rightarrow> real \<Rightarrow> real" where
  "distance_outside_axis v lo hi = (if v < lo then lo - v else if v > hi then v - hi else 0)"

definition sphere_contacts_box :: "box \<Rightarrow> point3 \<Rightarrow> real \<Rightarrow> bool" where
  "sphere_contacts_box b center radius =
     (let dx = distance_outside_axis (px center) (min_x b) (max_x b);
          dy = distance_outside_axis (py center) (min_y b) (max_y b);
          dz = distance_outside_axis (pz center) (min_z b) (max_z b)
      in dx * dx + dy * dy + dz * dz \<le> radius * radius)"

definition probe_tool_contacts_box :: "box \<Rightarrow> point3 \<Rightarrow> atc_spindle \<Rightarrow> bool" where
  "probe_tool_contacts_box b spindle tool =
     (if spindle_kind tool = ThreeAxisProbe
      then sphere_contacts_box b (tool_tip_position spindle (spindle_length_mm tool)) (spindle_tip_mm tool / 2) \<or>
           tool_tip_contacts_box b spindle (spindle_length_mm tool)
      else if spindle_kind tool = StockZProbe then stock_z_probe_contacts_top_face b spindle (spindle_length_mm tool)
      else False)"

section \<open>Operations\<close>

definition set_probe_tool_installed :: "bool \<Rightarrow> probe_model \<Rightarrow> probe_model" where
  "set_probe_tool_installed i m = m\<lparr>probe_tool_installed := i\<rparr>"

definition set_tool_setter_box :: "box \<Rightarrow> probe_model \<Rightarrow> probe_model" where
  "set_tool_setter_box b m = m\<lparr>tool_setter_box := Some (normalized b), tool_setter_overridden := True\<rparr>"

definition clear_tool_setter_box :: "probe_model \<Rightarrow> probe_model" where
  "clear_tool_setter_box m = m\<lparr>tool_setter_box := None, tool_setter_overridden := True\<rparr>"

definition configure_tool_setter :: "box option \<Rightarrow> probe_model \<Rightarrow> probe_model" where
  "configure_tool_setter b m =
     (if \<not> tool_setter_overridden m \<and> b \<noteq> None then m\<lparr>tool_setter_box := b\<rparr> else m)"

definition configure_bed :: "box option \<Rightarrow> probe_model \<Rightarrow> probe_model" where
  "configure_bed b m = m\<lparr>bed_box := map_option normalized b\<rparr>"

definition set_stock_box :: "box \<Rightarrow> probe_model \<Rightarrow> probe_model" where
  "set_stock_box b m = m\<lparr>stock_box := Some (normalized b)\<rparr>"

definition clear_stock_box :: "probe_model \<Rightarrow> probe_model" where
  "clear_stock_box m = m\<lparr>stock_box := None\<rparr>"

text \<open>A test on a box that may be absent.\<close>

definition on_box :: "box option \<Rightarrow> (box \<Rightarrow> bool) \<Rightarrow> bool" where
  "on_box b test = (case b of None \<Rightarrow> False | Some b \<Rightarrow> test b)"

definition spindle_probe_installed :: "atc_spindle \<Rightarrow> bool" where
  "spindle_probe_installed tool \<longleftrightarrow> has_tool tool \<and>
     (is_firmware_probe_tool (spindle_tool_no tool) \<or> is_probe_kind (spindle_kind tool))"

definition probe_update :: "point3 \<Rightarrow> atc_spindle \<Rightarrow> probe_model \<Rightarrow> probe_contacts \<times> probe_model" where
  "probe_update pos tool m =
     (let any_probe = (probe_tool_installed m \<or> spindle_probe_installed tool);
          top = (\<lambda>b. stock_z_probe_contacts_top_face b pos tool_shank_insert_mm);
          contact = (any_probe \<and> (on_box (stock_box m) top \<or> on_box (bed_box m) top));
          setter = on_box (tool_setter_box m) (\<lambda>b. contains b pos);
          setter = (if \<not> setter \<and> has_tool tool
                    then on_box (tool_setter_box m) (\<lambda>b. tool_tip_contacts_box b pos (spindle_length_mm tool)) else setter);
          probe = (\<lambda>b. probe_tool_contacts_box b pos tool);
          contact = (if \<not> contact \<and> any_probe \<and> has_tool tool \<and> is_probe_kind (spindle_kind tool)
                     then on_box (stock_box m) probe \<or> on_box (bed_box m) probe \<or> on_box (tool_setter_box m) probe
                     else contact);
          crash = (case (stock_box m, previous_probe_position m) of
                     (Some b, Some previous) \<Rightarrow>
                       if any_probe \<and> (\<not> has_tool tool \<or> spindle_kind tool = StockZProbe)
                       then stock_z_probe_side_crash_axis b previous pos
                              (if has_tool tool then spindle_length_mm tool else tool_shank_insert_mm)
                       else None
                   | _ \<Rightarrow> None)
      in (\<lparr>probe_contact = contact, tool_setter_contact = setter, stock_probe_crash_axis = crash\<rparr>,
          m\<lparr>previous_probe_position := Some pos\<rparr>))"

section \<open>The sphere test is the geometric one\<close>

definition ordered_box :: "box \<Rightarrow> bool" where
  "ordered_box b \<longleftrightarrow> min_x b \<le> max_x b \<and> min_y b \<le> max_y b \<and> min_z b \<le> max_z b"

definition squared_distance :: "point3 \<Rightarrow> point3 \<Rightarrow> real" where
  "squared_distance p q = (px p - px q)\<^sup>2 + (py p - py q)\<^sup>2 + (pz p - pz q)\<^sup>2"

text \<open>The point of an interval nearest to a value, and its distance.\<close>

definition nearest :: "real \<Rightarrow> real \<Rightarrow> real \<Rightarrow> real" where
  "nearest v lo hi = max lo (min hi v)"

lemma nearest_in: "lo \<le> hi \<Longrightarrow> lo \<le> nearest v lo hi \<and> nearest v lo hi \<le> hi"
  by (auto simp: nearest_def)

lemma nearest_distance: "lo \<le> hi \<Longrightarrow> distance_outside_axis v lo hi = \<bar>nearest v lo hi - v\<bar>"
  by (auto simp: nearest_def distance_outside_axis_def)

lemma distance_least: "lo \<le> w \<Longrightarrow> w \<le> hi \<Longrightarrow> distance_outside_axis v lo hi * distance_outside_axis v lo hi \<le> (w - v)\<^sup>2"
proof -
  assume "lo \<le> w" "w \<le> hi"
  then have "\<bar>distance_outside_axis v lo hi\<bar> \<le> \<bar>w - v\<bar>"
    by (auto simp: distance_outside_axis_def)
  then show ?thesis
    using abs_le_square_iff [of "distance_outside_axis v lo hi" "w - v"] by (simp add: power2_eq_square)
qed

lemma ordered_normalized [simp]: "ordered_box (normalized b)"
  using normalized_ordered by (simp add: ordered_box_def)

text \<open>
  C29: the ball of a probe tip is found in contact with a box exactly when some point of the box lies
  within the radius of its centre.
\<close>
theorem sphere_contact_exact:
  assumes "ordered_box b"
  shows "sphere_contacts_box b c r \<longleftrightarrow> (\<exists>p. contains b p \<and> squared_distance p c \<le> r * r)"
proof
  assume touch: "sphere_contacts_box b c r"
  define p where "p = \<lparr>px = nearest (px c) (min_x b) (max_x b), py = nearest (py c) (min_y b) (max_y b),
    pz = nearest (pz c) (min_z b) (max_z b)\<rparr>"
  have "contains b p"
    using assms by (simp add: contains_def ordered_box_def p_def nearest_in)
  moreover have "squared_distance p c \<le> r * r"
    using touch assms
    by (simp add: sphere_contacts_box_def squared_distance_def p_def ordered_box_def nearest_distance Let_def
        power2_eq_square)
  ultimately show "\<exists>p. contains b p \<and> squared_distance p c \<le> r * r"
    by blast
next
  assume "\<exists>p. contains b p \<and> squared_distance p c \<le> r * r"
  then obtain p where p: "contains b p" "squared_distance p c \<le> r * r"
    by blast
  from p(1) distance_least [of "min_x b" "px p" "max_x b" "px c"] distance_least [of "min_y b" "py p" "max_y b" "py c"]
    distance_least [of "min_z b" "pz p" "max_z b" "pz c"] p(2)
  show "sphere_contacts_box b c r"
    by (simp add: sphere_contacts_box_def contains_def squared_distance_def Let_def)
qed

definition unit_box :: box where
  "unit_box = \<lparr>min_x = 0, min_y = 0, min_z = 0, max_x = 1, max_y = 1, max_z = 1\<rparr>"

theorem sphere_contact_exact_witness:
  "\<exists>p. contains unit_box p \<and> squared_distance p \<lparr>px = 2, py = 1 / 2, pz = 1 / 2\<rparr> \<le> 1 * 1"
  by (rule sphere_contact_exact [THEN iffD1])
    (simp_all add: ordered_box_def unit_box_def sphere_contacts_box_def distance_outside_axis_def)

section \<open>A Z probe cannot pass the top face unnoticed\<close>

lemma update_contact_stock:
  assumes "has_tool tool" "spindle_kind tool = StockZProbe" "stock_box m = Some b"
    and "stock_z_probe_contacts_top_face b pos (spindle_length_mm tool)"
  shows "probe_contact (fst (probe_update pos tool m))"
  using assms by (auto simp: probe_update_def Let_def on_box_def spindle_probe_installed_def is_probe_kind_def
      probe_tool_contacts_box_def)

text \<open>
  A stock Z probe that goes down over the stock in steps no larger than the contact window reports the
  contact at the first position whose tip is not above the top face.
\<close>
theorem z_probe_notices_top_face:
  assumes tool: "has_tool tool" "spindle_kind tool = StockZProbe" and stock: "stock_box m = Some b"
    and above: "pz (tool_tip_position previous (spindle_length_mm tool)) > max_z b"
    and here: "over_box b pos" "pz (tool_tip_position pos (spindle_length_mm tool)) \<le> max_z b"
    and small: "pz previous - pz pos \<le> z_probe_top_contact_window_mm"
  shows "probe_contact (fst (probe_update pos tool m))"
proof (rule update_contact_stock [OF tool stock])
  have "over_box b (tool_tip_position pos (spindle_length_mm tool))"
    using here by (simp add: over_box_def)
  with above here small show "stock_z_probe_contacts_top_face b pos (spindle_length_mm tool)"
    by (simp add: stock_z_probe_contacts_top_face_def tool_tip_position_def Let_def)
qed

definition z_probe :: atc_spindle where
  "z_probe = \<lparr>spindle_tool_no = 0, spindle_length_mm = 45, spindle_kind = StockZProbe, spindle_tip_mm = 16 / 10, has_tool = True\<rparr>"

theorem z_probe_notices_top_face_witness:
  "probe_contact (fst (probe_update \<lparr>px = 1 / 2, py = 1 / 2, pz = 259 / 10\<rparr> z_probe (new_probe_model\<lparr>stock_box := Some unit_box\<rparr>)))"
  by (rule z_probe_notices_top_face [where previous = "\<lparr>px = 1 / 2, py = 1 / 2, pz = 261 / 10\<rparr>" and b = unit_box])
    (simp_all add: z_probe_def new_probe_model_def unit_box_def tool_tip_position_def over_box_def tool_shank_insert_mm_def
      z_probe_top_contact_window_mm_def)

end
