(* ===== verification/Board_Profile.thy ===== *)
theory Board_Profile
  imports Physical_Tooling Stepper_Axis
begin

text \<open>
  The boards of the supported machines (\<^verbatim>\<open>src/core/board_profile.cpp\<close>): which pin each physical signal
  is wired to, its active level, and the geometry of the machine (\<^verbatim>\<open>src/core/machine_geometry.cpp\<close>).
  Lengths are exact decimals of real numbers.
\<close>

section \<open>Types\<close>

record board_signal =
  signal_pin :: pin_address
  active_level :: bool
  connected :: bool

record axis_limit_signals =
  limit_min :: board_signal
  limit_max :: board_signal

record axis_geometry =
  initial_position_mm :: real
  min_switch_mm :: real
  max_switch_mm :: real

record machine_geometry =
  physical_travel :: box
  bed_z :: real
  geometry_tool_setter :: box
  geometry_axes :: "axis_geometry list"

record board_profile =
  profile_model :: machine_model
  profile_name :: string
  default_main_button_pin :: string
  default_e_stop_pin :: string
  default_cover_pin :: string
  default_led_r_pin :: string
  default_led_g_pin :: string
  default_led_b_pin :: string
  physical_main_button :: board_signal
  physical_e_stop :: board_signal
  physical_probe :: board_signal
  physical_tool_setter :: board_signal
  physical_atc_detector :: board_signal
  physical_atc_home :: board_signal
  spindle_fan_output :: board_signal
  power_fan_output :: board_signal
  physical_limits :: "axis_limit_signals list"
  profile_geometry :: "machine_geometry option"

definition unconnected :: board_signal where
  "unconnected = \<lparr>signal_pin = \<lparr>pin_port = 0, pin_number = 0\<rparr>, active_level = True, connected = False\<rparr>"

definition wired :: "u8 \<Rightarrow> u8 \<Rightarrow> bool \<Rightarrow> board_signal" where
  "wired p n level = \<lparr>signal_pin = \<lparr>pin_port = p, pin_number = n\<rparr>, active_level = level, connected = True\<rparr>"

definition limit_pair :: "board_signal \<Rightarrow> board_signal \<Rightarrow> axis_limit_signals" where
  "limit_pair lo hi = \<lparr>limit_min = lo, limit_max = hi\<rparr>"

definition make_box :: "real \<Rightarrow> real \<Rightarrow> real \<Rightarrow> real \<Rightarrow> real \<Rightarrow> real \<Rightarrow> box" where
  "make_box x0 y0 z0 x1 y1 z1 = \<lparr>min_x = x0, min_y = y0, min_z = z0, max_x = x1, max_y = y1, max_z = z1\<rparr>"

text \<open>The three axes of a machine start at -10 mm and have their switches at the ends of the travel.\<close>

definition travel_axes :: "box \<Rightarrow> axis_geometry list" where
  "travel_axes b =
     [\<lparr>initial_position_mm = - 10, min_switch_mm = min_x b, max_switch_mm = max_x b\<rparr>,
      \<lparr>initial_position_mm = - 10, min_switch_mm = min_y b, max_switch_mm = max_y b\<rparr>,
      \<lparr>initial_position_mm = - 10, min_switch_mm = min_z b, max_switch_mm = max_z b\<rparr>]"

section \<open>The boards\<close>

definition c1_physical_travel :: box where
  "c1_physical_travel = make_box (- 372) (- 251) (- 136) 1 1 1"

definition c1_tool_setter :: box where
  "c1_tool_setter = make_box (- 10158 / 1000) (- 60568 / 1000) (- 1075 / 10) (1842 / 1000) (- 48568 / 1000) (- 1055 / 10)"

definition c1_profile :: board_profile where
  "c1_profile = \<lparr>profile_model = CarveraC1, profile_name = ''C1'',
     default_main_button_pin = ''1.16^'', default_e_stop_pin = ''0.26^'', default_cover_pin = ''1.9^'',
     default_led_r_pin = ''1.10'', default_led_g_pin = ''1.15'', default_led_b_pin = ''1.14'',
     physical_main_button = wired 1 16 True, physical_e_stop = wired 0 26 False,
     physical_probe = wired 2 6 True, physical_tool_setter = wired 0 5 True,
     physical_atc_detector = wired 0 20 True, physical_atc_home = wired 1 0 True,
     spindle_fan_output = wired 2 1 True, power_fan_output = unconnected,
     physical_limits = [limit_pair (wired 0 24 True) (wired 0 25 True), limit_pair (wired 1 1 True) (wired 1 4 True),
       limit_pair unconnected (wired 1 8 True)],
     profile_geometry = Some \<lparr>physical_travel = c1_physical_travel, bed_z = - 1475 / 10,
       geometry_tool_setter = c1_tool_setter, geometry_axes = travel_axes c1_physical_travel\<rparr>\<rparr>"

definition ca1_physical_travel :: box where
  "ca1_physical_travel = make_box (- 303) (- 213) (- 122) 1 1 1"

definition ca1_tool_setter :: box where
  "ca1_tool_setter = make_box (- 17) (- 13) (- 117) (- 5) (- 1) (- 115)"

definition ca1_profile :: board_profile where
  "ca1_profile = \<lparr>profile_model = CarveraAirCA1, profile_name = ''CA1'',
     default_main_button_pin = ''2.13!^'', default_e_stop_pin = ''0.20^'', default_cover_pin = ''1.8!^'',
     default_led_r_pin = ''nc'', default_led_g_pin = ''1.15'', default_led_b_pin = ''nc'',
     physical_main_button = wired 2 13 False, physical_e_stop = wired 0 20 True,
     physical_probe = wired 2 6 True, physical_tool_setter = wired 0 5 True,
     physical_atc_detector = unconnected, physical_atc_home = unconnected,
     spindle_fan_output = wired 2 1 True, power_fan_output = wired 2 3 True,
     physical_limits = [limit_pair unconnected (wired 0 24 True), limit_pair unconnected (wired 0 25 True),
       limit_pair unconnected (wired 1 1 True)],
     profile_geometry = Some \<lparr>physical_travel = ca1_physical_travel, bed_z = - 137,
       geometry_tool_setter = ca1_tool_setter, geometry_axes = travel_axes ca1_physical_travel\<rparr>\<rparr>"

definition z1_physical_travel :: box where
  "z1_physical_travel = make_box (- 210) (- 210) (- 105) 1 1 1"

definition z1_tool_setter :: box where
  "z1_tool_setter = make_box (- 1593 / 100) (- 1849 / 100) (- 110) (- 393 / 100) (- 649 / 100) (- 108)"

definition z1_base_profile :: board_profile where
  "z1_base_profile = \<lparr>profile_model = MakeraZ1, profile_name = ''Z1'',
     default_main_button_pin = ''1.8!^'', default_e_stop_pin = ''0.20^'', default_cover_pin = ''1.9!v'',
     default_led_r_pin = ''nc'', default_led_g_pin = ''0.22'', default_led_b_pin = ''nc'',
     physical_main_button = wired 1 8 False, physical_e_stop = wired 0 20 True,
     physical_probe = wired 2 6 True, physical_tool_setter = wired 1 10 True,
     physical_atc_detector = unconnected, physical_atc_home = unconnected,
     spindle_fan_output = wired 2 0 True, power_fan_output = unconnected,
     physical_limits = [limit_pair unconnected (wired 0 24 True), limit_pair unconnected (wired 0 25 True),
       limit_pair unconnected (wired 1 1 True)],
     profile_geometry = Some \<lparr>physical_travel = z1_physical_travel, bed_z = - 108,
       geometry_tool_setter = z1_tool_setter, geometry_axes = travel_axes z1_physical_travel\<rparr>\<rparr>"

definition z1_profile :: "machine_model \<Rightarrow> board_profile" where
  "z1_profile model =
     (if model = MakeraZ1Pro
      then z1_base_profile\<lparr>profile_model := MakeraZ1Pro, profile_name := ''Z1 Pro'', power_fan_output := wired 2 3 True\<rparr>
      else z1_base_profile)"

definition board_profile_of :: "machine_model \<Rightarrow> board_profile" where
  "board_profile_of model = (case model of
     CarveraAirCA1 \<Rightarrow> ca1_profile | MakeraZ1 \<Rightarrow> z1_profile model | MakeraZ1Pro \<Rightarrow> z1_profile model
   | CarveraC1 \<Rightarrow> c1_profile)"

definition signal_level :: "board_signal \<Rightarrow> bool \<Rightarrow> bool" where
  "signal_level s active = (if active then active_level s else \<not> active_level s)"

definition geometry_for :: "machine_model \<Rightarrow> machine_geometry option" where
  "geometry_for model = profile_geometry (board_profile_of model)"

section \<open>The wiring is consistent\<close>

text \<open>The inputs of a board that are wired.\<close>

definition input_signals :: "machine_model \<Rightarrow> board_signal list" where
  "input_signals model = (let p = board_profile_of model in
     filter connected ([physical_main_button p, physical_e_stop p, physical_probe p, physical_tool_setter p,
       physical_atc_detector p, physical_atc_home p] @ concat (map (\<lambda>l. [limit_min l, limit_max l]) (physical_limits p))))"

definition wired_pins :: "machine_model \<Rightarrow> pin_address list" where
  "wired_pins model = (let p = board_profile_of model in
     map signal_pin (input_signals model @ filter connected [spindle_fan_output p, power_fan_output p]))"

lemmas profile_defs = board_profile_of_def c1_profile_def ca1_profile_def z1_profile_def z1_base_profile_def
  wired_def unconnected_def limit_pair_def

text \<open>
  On every board no two wired signals share a pin, and every pin is one of the 32 of one of the five
  GPIO ports.
\<close>
theorem wired_pins_distinct:
  "distinct (wired_pins model) \<and> (\<forall>p \<in> set (wired_pins model). unat (pin_port p) < 5 \<and> unat (pin_number p) < 32)"
  by (cases model) (simp_all add: wired_pins_def input_signals_def profile_defs Let_def)

lemma geometry_ordered:
  "geometry_for model = Some g \<Longrightarrow> normalized (physical_travel g) = physical_travel g \<and>
    normalized (geometry_tool_setter g) = geometry_tool_setter g"
  by (cases model) (auto simp: geometry_for_def profile_defs normalized_def c1_physical_travel_def ca1_physical_travel_def
      z1_physical_travel_def c1_tool_setter_def ca1_tool_setter_def z1_tool_setter_def make_box_def)

end
