(* ===== verification/Physical_Scene.thy ===== *)
theory Physical_Scene
  imports Board_Profile Atc_Rack Probe_Contact
begin

text \<open>
  The physical scene (\<^verbatim>\<open>src/core/physical_scene.cpp\<close>): the tool rack, the probe contacts and the machine
  model together, and the signal driver (\<^verbatim>\<open>src/core/physical_signal_driver.cpp\<close>) that puts what they report
  on the pins of the board.  Operations that drive pins take and return the registers; \<open>None\<close> is the
  exception of a GPIO port that does not exist.
\<close>

section \<open>The signal driver\<close>

definition drive_signal :: "board_signal \<Rightarrow> bool \<Rightarrow> lpc1768 \<Rightarrow> lpc1768 option" where
  "drive_signal s active m = (if connected s then set_level (signal_pin s) (signal_level s active) m else Some m)"

definition signals_drive :: "machine_model \<Rightarrow> probe_contacts \<Rightarrow> bool \<Rightarrow> lpc1768 \<Rightarrow> lpc1768 option" where
  "signals_drive model contacts detector m = (let profile = board_profile_of model in do {
     m \<leftarrow> drive_signal (physical_probe profile) (probe_contact contacts) m;
     m \<leftarrow> drive_signal (physical_tool_setter profile) (tool_setter_contact contacts) m;
     drive_signal (physical_atc_detector profile) detector m })"

section \<open>The scene\<close>

record physical_scene =
  scene_model :: machine_model
  scene_probe :: probe_model
  scene_rack :: atc_rack
  last_contacts :: probe_contacts

definition new_scene :: physical_scene where
  "new_scene = \<lparr>scene_model = CarveraC1, scene_probe = new_probe_model, scene_rack = new_rack, last_contacts = no_contacts\<rparr>"

definition update_probe_contacts :: "point3 \<Rightarrow> physical_scene \<times> lpc1768 \<Rightarrow> (physical_scene \<times> lpc1768) option" where
  "update_probe_contacts pos sm =
     (let (s, m) = sm;
          (contacts, probe) = probe_update pos (spindle_tool (scene_rack s)) (scene_probe s);
          s = s\<lparr>scene_probe := probe, last_contacts := contacts\<rparr>
      in map_option (Pair s) (signals_drive (scene_model s) contacts (detector_contact pos (scene_rack s)) m))"

definition scene_clear :: "physical_scene \<times> lpc1768 \<Rightarrow> (physical_scene \<times> lpc1768) option" where
  "scene_clear sm = update_probe_contacts origin
     ((fst sm)\<lparr>scene_model := CarveraC1, scene_probe := probe_clear (scene_probe (fst sm)),
        scene_rack := rack_clear (scene_rack (fst sm)), last_contacts := no_contacts\<rparr>, snd sm)"

definition scene_probe_tool_installed :: "physical_scene \<Rightarrow> bool" where
  "scene_probe_tool_installed s \<longleftrightarrow> probe_tool_installed (scene_probe s) \<or> spindle_has_probe_tool (scene_rack s)"

definition sync_probe_install_from_spindle :: "physical_scene \<Rightarrow> physical_scene" where
  "sync_probe_install_from_spindle s =
     s\<lparr>scene_probe := set_probe_tool_installed (spindle_has_probe_tool (scene_rack s)) (scene_probe s)\<rparr>"

definition set_atc_pocket_tool :: "int \<Rightarrow> int \<Rightarrow> bool \<Rightarrow> real \<Rightarrow> tool_kind \<Rightarrow> real \<Rightarrow> physical_scene \<Rightarrow> physical_scene" where
  "set_atc_pocket_tool n tool occ len kind tip s =
     s\<lparr>scene_rack := set_pocket_tool n tool occ len kind tip (scene_rack s)\<rparr>"

definition clear_atc_pocket_tools :: "physical_scene \<Rightarrow> physical_scene" where
  "clear_atc_pocket_tools s = sync_probe_install_from_spindle (s\<lparr>scene_rack := clear_pocket_tools (scene_rack s)\<rparr>)"

definition bed_of :: "machine_geometry \<Rightarrow> box" where
  "bed_of g = (let t = physical_travel g in make_box (min_x t) (min_y t) (bed_z g) (max_x t) (max_y t) (bed_z g))"

definition configure_atc :: "physical_atc_config \<Rightarrow> physical_scene \<Rightarrow> physical_scene" where
  "configure_atc c s =
     (let s = s\<lparr>scene_model := atc_model c, scene_probe := configure_tool_setter (cfg_tool_setter_box c) (scene_probe s)\<rparr>;
          s = s\<lparr>scene_probe := configure_bed (map_option bed_of (geometry_for (scene_model s))) (scene_probe s)\<rparr>
      in s\<lparr>scene_rack := rack_configure c (scene_rack s)\<rparr>)"

definition update_atc_clamp_position :: "point3 \<Rightarrow> real \<Rightarrow> physical_scene \<Rightarrow> physical_scene" where
  "update_atc_clamp_position pos x s =
     (let (changed, rack) = update_clamp_position pos x (scene_rack s); s = s\<lparr>scene_rack := rack\<rparr>
      in if changed then sync_probe_install_from_spindle s else s)"

definition atc_clamp_open :: "point3 \<Rightarrow> physical_scene \<Rightarrow> physical_scene" where
  "atc_clamp_open pos s = sync_probe_install_from_spindle (s\<lparr>scene_rack := clamp_open pos (scene_rack s)\<rparr>)"

definition atc_clamp_close :: "point3 \<Rightarrow> physical_scene \<Rightarrow> physical_scene" where
  "atc_clamp_close pos s = sync_probe_install_from_spindle (s\<lparr>scene_rack := clamp_close pos (scene_rack s)\<rparr>)"

definition scene_set_spindle_tool :: "int \<Rightarrow> real \<Rightarrow> bool \<Rightarrow> tool_kind \<Rightarrow> real \<Rightarrow> physical_scene \<Rightarrow> physical_scene" where
  "scene_set_spindle_tool tool len installed kind tip s =
     sync_probe_install_from_spindle (s\<lparr>scene_rack := set_spindle_tool tool len installed kind tip (scene_rack s)\<rparr>)"

section \<open>The pins show the contacts\<close>

text \<open>The signals of the scene on a board, with what they should report.\<close>

definition scene_signals :: "machine_model \<Rightarrow> probe_contacts \<Rightarrow> bool \<Rightarrow> (board_signal \<times> bool) list" where
  "scene_signals model contacts detector = (let p = board_profile_of model in
     [(physical_probe p, probe_contact contacts), (physical_tool_setter p, tool_setter_contact contacts),
      (physical_atc_detector p, detector)])"

lemma scene_pins_distinct:
  "distinct (map (signal_pin \<circ> fst) (filter (connected \<circ> fst) (scene_signals model contacts detector)))"
  by (cases model) (simp_all add: scene_signals_def profile_defs Let_def)

lemma scene_pins_valid:
  "(s, active) \<in> set (scene_signals model contacts detector) \<Longrightarrow> length (gpio m) = 5 \<Longrightarrow> valid_pin m (signal_pin s)"
  by (cases model) (auto simp: scene_signals_def profile_defs Let_def valid_pin_def)

lemma drive_signal_valid:
  assumes "valid_pin m (signal_pin s)"
  obtains m' where "drive_signal s active m = Some m'" "length (gpio m') = length (gpio m)"
    "\<And>q. valid_pin m q \<Longrightarrow>
      pin_level q m' = (if connected s \<and> q = signal_pin s then Some (signal_level s active) else pin_level q m)"
proof (cases "connected s")
  case True
  then show thesis
    using set_level_valid [OF assms, of "signal_level s active"] that by (auto simp: drive_signal_def)
next
  case False
  then show thesis
    using that by (auto simp: drive_signal_def)
qed

text \<open>Driving any list of signals whose wired pins differ.\<close>

fun drive_all :: "(board_signal \<times> bool) list \<Rightarrow> lpc1768 \<Rightarrow> lpc1768 option" where
  "drive_all [] m = Some m"
| "drive_all ((s, active) # ss) m = do { m \<leftarrow> drive_signal s active m; drive_all ss m }"

definition shown_level :: "(board_signal \<times> bool) list \<Rightarrow> lpc1768 \<Rightarrow> pin_address \<Rightarrow> bool option" where
  "shown_level ss m p = (case List.find (\<lambda>(s, _). connected s \<and> signal_pin s = p) ss of
     Some (s, active) \<Rightarrow> Some (signal_level s active) | None \<Rightarrow> pin_level p m)"

lemma drive_all_pins:
  assumes "\<forall>(s, a) \<in> set ss. valid_pin m (signal_pin s)"
    and "distinct (map (signal_pin \<circ> fst) (filter (connected \<circ> fst) ss))"
  shows "\<exists>m'. drive_all ss m = Some m' \<and> length (gpio m') = length (gpio m) \<and>
    (\<forall>p. valid_pin m p \<longrightarrow> pin_level p m' = shown_level ss m p)"
  using assms
proof (induction ss arbitrary: m)
  case (Cons sa ss)
  obtain s a where sa: "sa = (s, a)"
    by (cases sa)
  have "valid_pin m (signal_pin s)"
    using Cons.prems by (simp add: sa)
  then obtain m1 where m1: "drive_signal s a m = Some m1" "length (gpio m1) = length (gpio m)"
    "\<And>q. valid_pin m q \<Longrightarrow> pin_level q m1 = (if connected s \<and> q = signal_pin s then Some (signal_level s a) else pin_level q m)"
    using drive_signal_valid by metis
  have valid: "valid_pin m1 q \<longleftrightarrow> valid_pin m q" for q
    using m1(2) by (simp add: valid_pin_def)
  have "\<forall>(s, a) \<in> set ss. valid_pin m1 (signal_pin s)" "distinct (map (signal_pin \<circ> fst) (filter (connected \<circ> fst) ss))"
    using Cons.prems valid by (auto simp: sa comp_def split: if_splits)
  from Cons.IH [OF this] obtain m2 where m2: "drive_all ss m1 = Some m2" "length (gpio m2) = length (gpio m1)"
    "\<forall>p. valid_pin m1 p \<longrightarrow> pin_level p m2 = shown_level ss m1 p"
    by blast
  have fresh: "List.find (\<lambda>(s', _). connected s' \<and> signal_pin s' = signal_pin s) ss = None" if "connected s"
    using Cons.prems(2) that by (force simp: sa find_None_iff comp_def)
  have "pin_level p m2 = shown_level (sa # ss) m p" if "valid_pin m p" for p
    using m2(3) m1(3) [OF that] fresh that valid
    by (auto simp: shown_level_def sa split: option.splits)
  with m1 m2 show ?case
    by (auto simp: sa)
qed (simp add: shown_level_def)

lemma signals_drive_all: "signals_drive model contacts detector m = drive_all (scene_signals model contacts detector) m"
  by (auto simp: signals_drive_def scene_signals_def Let_def split: Option.bind_splits)

text \<open>
  C31: updating the contacts never throws, and afterwards the pins of the board show exactly the new contacts,
  each with its active level, while every other pin keeps its level.
\<close>
theorem scene_drives_board:
  assumes "length (gpio m) = 5" "probe_update pos (spindle_tool (scene_rack s)) (scene_probe s) = (contacts, probe)"
  shows "\<exists>m'. update_probe_contacts pos (s, m) = Some (s\<lparr>scene_probe := probe, last_contacts := contacts\<rparr>, m') \<and>
    (\<forall>p. valid_pin m p \<longrightarrow>
      pin_level p m' = shown_level (scene_signals (scene_model s) contacts (detector_contact pos (scene_rack s))) m p)"
proof -
  have "\<forall>(s, a) \<in> set (scene_signals (scene_model s) contacts (detector_contact pos (scene_rack s))). valid_pin m (signal_pin s)"
    using scene_pins_valid assms(1) by blast
  from drive_all_pins [OF this scene_pins_distinct] show ?thesis
    by (auto simp: update_probe_contacts_def assms(2) signals_drive_all)
qed

text \<open>A stock probe whose tip is 0.1 mm into the stock shows on pin 2.6 of a C1, and nothing else changes.\<close>

definition probing_scene :: physical_scene where
  "probing_scene = new_scene\<lparr>scene_probe := new_probe_model\<lparr>stock_box := Some unit_box\<rparr>, scene_rack := new_rack\<lparr>spindle_tool := z_probe\<rparr>\<rparr>"

lemma probing_contact:
  "probe_contact (fst (probe_update \<lparr>px = 1 / 2, py = 1 / 2, pz = 259 / 10\<rparr> z_probe (new_probe_model\<lparr>stock_box := Some unit_box\<rparr>)))"
  by (rule update_contact_stock [of _ _ unit_box])
    (simp_all add: z_probe_def unit_box_def new_probe_model_def stock_z_probe_contacts_top_face_def tool_tip_position_def
      over_box_def tool_shank_insert_mm_def z_probe_top_contact_window_mm_def)

theorem scene_drives_board_witness:
  "\<exists>s' m'. update_probe_contacts \<lparr>px = 1 / 2, py = 1 / 2, pz = 259 / 10\<rparr> (probing_scene, lpc_reset) = Some (s', m') \<and>
    pin_level \<lparr>pin_port = 2, pin_number = 6\<rparr> m' = Some True"
proof -
  obtain contacts probe where up: "probe_update \<lparr>px = 1 / 2, py = 1 / 2, pz = 259 / 10\<rparr> (spindle_tool (scene_rack probing_scene))
      (scene_probe probing_scene) = (contacts, probe)"
    by (cases "probe_update \<lparr>px = 1 / 2, py = 1 / 2, pz = 259 / 10\<rparr> (spindle_tool (scene_rack probing_scene)) (scene_probe probing_scene)")
  have contact: "probe_contact contacts"
    using probing_contact up by (simp add: probing_scene_def new_scene_def new_rack_def)
  have ports: "length (gpio lpc_reset) = 5"
    by (simp add: lpc_reset_def gpio_block_reset_def)
  have valid: "valid_pin lpc_reset \<lparr>pin_port = 2, pin_number = 6\<rparr>"
    by (simp add: valid_pin_def ports)
  have model: "scene_model probing_scene = CarveraC1"
    by (simp add: probing_scene_def new_scene_def)
  from scene_drives_board [OF ports up] valid show ?thesis
    by (auto simp: shown_level_def scene_signals_def model profile_defs Let_def contact signal_level_def)
qed

end
