(* ===== verification/Spindle_State.thy ===== *)
theory Spindle_State
  imports I2c_Eeprom Complex_Main
begin

text \<open>
  The speed of the spindle (\<^verbatim>\<open>src/core/spindle_state.cpp\<close>): the target follows the request at once, the
  actual speed ramps towards the target of the previous update.  Speeds are real numbers; the mutex of the
  class is left out, since every method holds it from start to end.
\<close>

section \<open>State and operations\<close>

definition ramp_rate_rpm_per_second :: real where "ramp_rate_rpm_per_second = 4000"

definition max_rpm :: "machine_model \<Rightarrow> real" where
  "max_rpm model = (case model of CarveraAirCA1 \<Rightarrow> 14500 | _ \<Rightarrow> 15500)"

record spindle_state =
  actual_rpm :: real
  target_rpm :: real
  last_update_us :: u64
  initialized :: bool

record spindle_snapshot =
  spinning :: bool
  snap_actual_rpm :: real
  snap_target_rpm :: real
  snap_max_rpm :: real

definition spindle_reset :: spindle_state where
  "spindle_reset = \<lparr>actual_rpm = 0, target_rpm = 0, last_update_us = 0, initialized = False\<rparr>"

definition clamped_target :: "machine_model \<Rightarrow> bool \<Rightarrow> real \<Rightarrow> real" where
  "clamped_target model enabled requested =
     (if \<not> enabled \<or> requested \<le> 0 then 0 else max 0 (min requested (max_rpm model)))"

definition spindle_update :: "machine_model \<Rightarrow> bool \<Rightarrow> real \<Rightarrow> u64 \<Rightarrow> spindle_state \<Rightarrow> spindle_state" where
  "spindle_update model enabled requested now s =
     (let next_target = clamped_target model enabled requested
      in if \<not> initialized s then s\<lparr>initialized := True, last_update_us := now, target_rpm := next_target\<rparr>
         else let elapsed_seconds = (if now \<ge> last_update_us s then real (unat (now - last_update_us s)) / 1000000 else 0);
                  max_delta = elapsed_seconds * ramp_rate_rpm_per_second;
                  actual = (if actual_rpm s < target_rpm s then min (actual_rpm s + max_delta) (target_rpm s)
                            else if actual_rpm s > target_rpm s then max (actual_rpm s - max_delta) (target_rpm s)
                            else actual_rpm s)
              in s\<lparr>actual_rpm := actual, target_rpm := next_target, last_update_us := now\<rparr>)"

definition spindle_snapshot_of :: "machine_model \<Rightarrow> spindle_state \<Rightarrow> spindle_snapshot" where
  "spindle_snapshot_of model s = \<lparr>spinning = actual_rpm s > 1 / 2, snap_actual_rpm = actual_rpm s,
     snap_target_rpm = target_rpm s, snap_max_rpm = max_rpm model\<rparr>"

section \<open>Bounds\<close>

lemma max_rpm_pos: "0 < max_rpm model"
  by (cases model) (simp_all add: max_rpm_def)

lemma clamped_bounds: "0 \<le> clamped_target model enabled requested" "clamped_target model enabled requested \<le> max_rpm model"
  using max_rpm_pos [of model] by (auto simp: clamped_target_def)

definition spindle_inv :: "machine_model \<Rightarrow> spindle_state \<Rightarrow> bool" where
  "spindle_inv model s \<longleftrightarrow> 0 \<le> actual_rpm s \<and> actual_rpm s \<le> max_rpm model \<and> 0 \<le> target_rpm s \<and> target_rpm s \<le> max_rpm model"

lemma spindle_inv_reset [inv_intros]: "spindle_inv model spindle_reset"
  using max_rpm_pos [of model] by (simp add: spindle_inv_def spindle_reset_def)

lemma unsigned_nonneg: "0 \<le> (unsigned w :: real)"
  by (metis of_nat_0_le_iff of_nat_unat)

lemma spindle_inv_update [inv_intros]: "spindle_inv model s \<Longrightarrow> spindle_inv model (spindle_update model enabled requested now s)"
  using clamped_bounds [of model enabled requested] unsigned_nonneg [of "now - last_update_us s"]
  by (auto simp: spindle_inv_def spindle_update_def ramp_rate_rpm_per_second_def Let_def)

section \<open>The ramp does not depend on how often it is sampled\<close>

text \<open>The speed after \<open>d\<close> microseconds on the way from \<open>a\<close> to \<open>t\<close>.\<close>

definition ramp :: "real \<Rightarrow> real \<Rightarrow> nat \<Rightarrow> real" where
  "ramp a t d = (if a < t then min (a + real d * (4 / 1000)) t else max (a - real d * (4 / 1000)) t)"

lemma ramp_0 [simp]: "ramp a t 0 = a"
  by (simp add: ramp_def)

lemma ramp_ramp: "ramp (ramp a t d) t e = ramp a t (d + e)"
proof -
  have pos: "0 \<le> real d * (4 / 1000)" "0 \<le> real e * (4 / 1000)" by simp_all
  have sum: "real (d + e) * (4 / 1000) = real d * (4 / 1000) + real e * (4 / 1000)" by (simp add: algebra_simps)
  show ?thesis
    unfolding ramp_def sum using pos by (auto simp: min_def max_def)
qed

lemma ramp_reaches: "\<bar>t - a\<bar> \<le> real d * (4 / 1000) \<Longrightarrow> ramp a t d = t"
  by (auto simp: ramp_def min_def max_def abs_if split: if_splits)

lemma spindle_update_ramp:
  assumes "initialized s" "last_update_us s \<le> now"
  shows "spindle_update model enabled requested now s =
    s\<lparr>actual_rpm := ramp (actual_rpm s) (target_rpm s) (unat now - unat (last_update_us s)),
      target_rpm := clamped_target model enabled requested, last_update_us := now\<rparr>"
proof -
  have "unat (now - last_update_us s) = unat now - unat (last_update_us s)"
    using assms(2) by (rule unat_minus_if)
  then show ?thesis
    using assms by (auto simp: spindle_update_def ramp_def ramp_rate_rpm_per_second_def Let_def)
qed

definition spindle_run :: "machine_model \<Rightarrow> bool \<Rightarrow> real \<Rightarrow> u64 list \<Rightarrow> spindle_state \<Rightarrow> spindle_state" where
  "spindle_run model enabled requested ts s = fold (spindle_update model enabled requested) ts s"

lemma spindle_run_ramp:
  "initialized s \<Longrightarrow> target_rpm s = clamped_target model enabled requested \<Longrightarrow>
    sorted (map unat (last_update_us s # ts)) \<Longrightarrow>
    spindle_run model enabled requested ts s =
      s\<lparr>actual_rpm := ramp (actual_rpm s) (target_rpm s) (unat (last (last_update_us s # ts)) - unat (last_update_us s)),
        last_update_us := last (last_update_us s # ts)\<rparr>"
proof (induction ts arbitrary: s)
  case Nil
  then show ?case
    by (simp add: spindle_run_def)
next
  case (Cons now ts)
  have now: "last_update_us s \<le> now"
    using Cons.prems(3) by (simp add: word_le_nat_alt)
  define s1 where "s1 = spindle_update model enabled requested now s"
  have s1: "s1 = s\<lparr>actual_rpm := ramp (actual_rpm s) (target_rpm s) (unat now - unat (last_update_us s)), last_update_us := now\<rparr>"
    unfolding s1_def spindle_update_ramp [OF Cons.prems(1) now] using Cons.prems(2) by simp
  have ge: "unat (last (now # ts)) \<ge> unat now"
    using Cons.prems(3) by (auto dest: last_in_set split: if_splits)
  have "spindle_run model enabled requested (now # ts) s = spindle_run model enabled requested ts s1"
    by (simp add: spindle_run_def s1_def)
  also have "\<dots> = s1\<lparr>actual_rpm := ramp (actual_rpm s1) (target_rpm s1) (unat (last (now # ts)) - unat now),
      last_update_us := last (now # ts)\<rparr>"
    using Cons.IH [of s1] Cons.prems by (simp add: s1)
  finally show ?case
    using ge now by (simp add: s1 ramp_ramp word_le_nat_alt)
qed

text \<open>
  While the request stays the same, the actual speed after any sequence of updates depends only on the
  time that has passed, moves by 4 rpm per millisecond and stops exactly on the target; after
  |target - actual| / 4 milliseconds it is there.
\<close>
theorem spindle_ramp_sampling_independent:
  assumes "initialized s" "target_rpm s = clamped_target model enabled requested"
    and "sorted (map unat (last_update_us s # ts))"
    and "d = unat (last (last_update_us s # ts)) - unat (last_update_us s)"
  shows "actual_rpm (spindle_run model enabled requested ts s) = ramp (actual_rpm s) (target_rpm s) d \<and>
    (\<bar>target_rpm s - actual_rpm s\<bar> \<le> real d * (4 / 1000) \<longrightarrow>
      actual_rpm (spindle_run model enabled requested ts s) = clamped_target model enabled requested)"
  using spindle_run_ramp [OF assms(1-3)] ramp_reaches [of "target_rpm s" "actual_rpm s" d] assms(2,4) by simp

theorem spindle_ramp_sampling_independent_witness:
  "actual_rpm (spindle_run CarveraC1 True 12000 [1000000, 2000000, 3000000] (spindle_update CarveraC1 True 12000 0 spindle_reset)) = 12000"
proof -
  define s where "s = spindle_update CarveraC1 True 12000 0 spindle_reset"
  have s: "initialized s" "actual_rpm s = 0" "target_rpm s = 12000" "last_update_us s = 0"
    by (simp_all add: s_def spindle_update_def spindle_reset_def clamped_target_def max_rpm_def)
  have target: "clamped_target CarveraC1 True 12000 = 12000"
    by (simp add: clamped_target_def max_rpm_def)
  have sorted_ts: "sorted (map unat (last_update_us s # [1000000, 2000000, 3000000]))"
    by (simp add: s)
  have d: "(3000000 :: nat) = unat (last (last_update_us s # [1000000, 2000000, 3000000])) - unat (last_update_us s)"
    by (simp add: s)
  have "target_rpm s = clamped_target CarveraC1 True 12000"
    by (simp add: s target)
  from spindle_ramp_sampling_independent [OF s(1) this sorted_ts d, THEN conjunct2] show ?thesis
    by (simp add: s target s_def [symmetric])
qed

text \<open>whatever updates the spindle gets, its actual and target speeds stay between zero and the machine's maximum.\<close>
theorem spindle_bounded:
  "spindle_inv model (fold (\<lambda>(enabled, requested, now). spindle_update model enabled requested now) us spindle_reset)"
proof -
  have "spindle_inv model s \<Longrightarrow> spindle_inv model (fold (\<lambda>(enabled, requested, now). spindle_update model enabled requested now) us s)" for s
    by (induction us arbitrary: s) (auto intro: inv_intros)
  then show ?thesis
    by (simp add: inv_intros)
qed

end
