(* ===== verification/Us_Ticker.thy ===== *)
theory Us_Ticker
  imports Sim_Prelude
begin

text \<open>
  The microsecond ticker (\<^verbatim>\<open>src/core/us_ticker_sim.cpp\<close>): a queue of the caller's event objects, linked
  through their own \<^verbatim>\<open>next\<close> pointers.  The objects live in an explicit store, from addresses to events, so
  that the mutation through pointers is the code's; the loops follow pointers and are partial functions,
  proved to return on every well-linked queue.

  The handler is a function pointer of the firmware: it is a value of the type \<open>'h\<close>, and the parameter
  \<open>call\<close> says what calling it does to the whole state.
\<close>

section \<open>State\<close>

record ticker_event =
  ev_timestamp :: u32
  ev_id :: u32
  ev_next :: "nat option"

record ('h, 'w) ticker =
  events :: "nat \<Rightarrow> ticker_event"
  event_head :: "nat option"
  active_handler :: "'h option"
  ticker_clock_us :: u64
  ticker_firmware :: 'w

definition ticker_reset :: "('h, 'w) ticker \<Rightarrow> ('h, 'w) ticker" where
  "ticker_reset s = s\<lparr>active_handler := None, event_head := None\<rparr>"

definition ticker_read :: "('h, 'w) ticker \<Rightarrow> u32" where
  "ticker_read s = ucast (ticker_clock_us s)"

definition set_handler :: "'h option \<Rightarrow> ('h, 'w) ticker \<Rightarrow> ('h, 'w) ticker" where
  "set_handler h s = s\<lparr>active_handler := h\<rparr>"

text \<open>\<^verbatim>\<open>static_cast<int32_t>(a - b) < 0\<close>: a difference of time stamps as a signed number.\<close>

definition ts_before :: "u32 \<Rightarrow> u32 \<Rightarrow> bool" where
  "ts_before a b \<longleftrightarrow> sint (a - b) < 0"

section \<open>Operations\<close>

text \<open>The loop of \<^verbatim>\<open>insert_event\<close>: the last event that the new one does not go before.\<close>

partial_function (option) insert_cursor :: "(nat \<Rightarrow> ticker_event) \<Rightarrow> u32 \<Rightarrow> nat \<Rightarrow> nat option" where
  "insert_cursor mem ts cursor = (case ev_next (mem cursor) of
     None \<Rightarrow> Some cursor
   | Some n \<Rightarrow> if \<not> ts_before ts (ev_timestamp (mem n)) then insert_cursor mem ts n else Some cursor)"

declare insert_cursor.simps [code]

definition insert_event :: "nat \<Rightarrow> u32 \<Rightarrow> u32 \<Rightarrow> ('h, 'w) ticker \<Rightarrow> ('h, 'w) ticker option" where
  "insert_event p ts i s =
     (let mem = (events s)(p := \<lparr>ev_timestamp = ts, ev_id = i, ev_next = None\<rparr>)
      in case event_head s of
           None \<Rightarrow> Some (s\<lparr>events := mem(p := (mem p)\<lparr>ev_next := None\<rparr>), event_head := Some p\<rparr>)
         | Some h \<Rightarrow>
             (if ts_before ts (ev_timestamp (mem h))
              then Some (s\<lparr>events := mem(p := (mem p)\<lparr>ev_next := Some h\<rparr>), event_head := Some p\<rparr>)
              else case insert_cursor mem ts h of
                None \<Rightarrow> None
              | Some cursor \<Rightarrow>
                  let mem = mem(p := (mem p)\<lparr>ev_next := ev_next (mem cursor)\<rparr>)
                  in Some (s\<lparr>events := mem(cursor := (mem cursor)\<lparr>ev_next := Some p\<rparr>)\<rparr>)))"

text \<open>The pointer to a pointer that \<^verbatim>\<open>remove_event\<close> walks with: the head or the \<^verbatim>\<open>next\<close> of an event.\<close>

datatype slot = Head | Next nat

definition slot_value :: "slot \<Rightarrow> ('h, 'w) ticker \<Rightarrow> nat option" where
  "slot_value sl s = (case sl of Head \<Rightarrow> event_head s | Next q \<Rightarrow> ev_next (events s q))"

definition write_slot :: "slot \<Rightarrow> nat option \<Rightarrow> ('h, 'w) ticker \<Rightarrow> ('h, 'w) ticker" where
  "write_slot sl v s = (case sl of
     Head \<Rightarrow> s\<lparr>event_head := v\<rparr>
   | Next q \<Rightarrow> s\<lparr>events := (events s)(q := (events s q)\<lparr>ev_next := v\<rparr>)\<rparr>)"

partial_function (option) remove_from :: "nat \<Rightarrow> slot \<Rightarrow> ('h, 'w) ticker \<Rightarrow> ('h, 'w) ticker option" where
  "remove_from p cursor s = (case slot_value cursor s of
     None \<Rightarrow> Some s
   | Some q \<Rightarrow>
       if q = p
       then let s = write_slot cursor (ev_next (events s p)) s
            in Some (s\<lparr>events := (events s)(p := (events s p)\<lparr>ev_next := None\<rparr>)\<rparr>)
       else remove_from p (Next q) s)"

declare remove_from.simps [code]

definition remove_event :: "nat \<Rightarrow> ('h, 'w) ticker \<Rightarrow> ('h, 'w) ticker option" where
  "remove_event p s = remove_from p Head s"

definition due :: "u32 \<Rightarrow> ('h, 'w) ticker \<Rightarrow> bool" where
  "due ts s \<longleftrightarrow> sint (ts - ticker_read s) \<le> 0"

type_synonym ('h, 'w) caller = "'h \<Rightarrow> u32 \<Rightarrow> ('h, 'w) ticker \<Rightarrow> ('h, 'w) ticker"

text \<open>One round of \<^verbatim>\<open>dispatch_due_events\<close>: \<open>None\<close> when the loop condition fails.\<close>

definition dispatch_one :: "('h, 'w) caller \<Rightarrow> ('h, 'w) ticker \<Rightarrow> ('h, 'w) ticker option" where
  "dispatch_one call s = (case (active_handler s, event_head s) of
     (Some h, Some p) \<Rightarrow>
       (if due (ev_timestamp (events s p)) s
        then let s = s\<lparr>event_head := ev_next (events s p)\<rparr>;
                 s = s\<lparr>events := (events s)(p := (events s p)\<lparr>ev_next := None\<rparr>)\<rparr>
             in Some (call h (ev_id (events s p)) s)
        else None)
   | _ \<Rightarrow> None)"

partial_function (option) dispatch_due_events :: "('h, 'w) caller \<Rightarrow> ('h, 'w) ticker \<Rightarrow> ('h, 'w) ticker option" where
  "dispatch_due_events call s = (case dispatch_one call s of None \<Rightarrow> Some s | Some s \<Rightarrow> dispatch_due_events call s)"

declare dispatch_due_events.simps [code]

section \<open>The C interface\<close>

definition us_ticker_insert_event :: "nat option \<Rightarrow> u32 \<Rightarrow> u32 \<Rightarrow> ('h, 'w) ticker \<Rightarrow> ('h, 'w) ticker option" where
  "us_ticker_insert_event obj ts i s = (case obj of None \<Rightarrow> Some s | Some p \<Rightarrow> insert_event p ts i s)"

definition us_ticker_remove_event :: "nat option \<Rightarrow> ('h, 'w) ticker \<Rightarrow> ('h, 'w) ticker option" where
  "us_ticker_remove_event obj s = (case obj of None \<Rightarrow> Some s | Some p \<Rightarrow> remove_event p s)"

section \<open>The linked queue as a list\<close>

fun linked :: "(nat \<Rightarrow> ticker_event) \<Rightarrow> nat option \<Rightarrow> nat list \<Rightarrow> bool" where
  "linked mem p [] \<longleftrightarrow> p = None"
| "linked mem p (x # xs) \<longleftrightarrow> p = Some x \<and> linked mem (ev_next (mem x)) xs"

definition queued :: "('h, 'w) ticker \<Rightarrow> nat list \<Rightarrow> bool" where
  "queued s xs \<longleftrightarrow> linked (events s) (event_head s) xs \<and> distinct xs"

lemma linked_cong: "(\<And>x. x \<in> set xs \<Longrightarrow> ev_next (mem' x) = ev_next (mem x)) \<Longrightarrow> linked mem' p xs = linked mem p xs"
  by (induction xs arbitrary: p) auto

lemma linked_next_upd [simp]: "p \<notin> set xs \<Longrightarrow> linked (mem(p := e)) h xs = linked mem h xs"
  by (rule linked_cong) auto

definition stamp :: "('h, 'w) ticker \<Rightarrow> nat \<Rightarrow> u32" where
  "stamp s p = ev_timestamp (events s p)"

text \<open>The queue operations on lists of addresses.\<close>

definition enqueue :: "('h, 'w) ticker \<Rightarrow> nat \<Rightarrow> u32 \<Rightarrow> nat list \<Rightarrow> nat list" where
  "enqueue s p ts xs = takeWhile (\<lambda>x. \<not> ts_before ts (stamp s x)) xs @ p # dropWhile (\<lambda>x. \<not> ts_before ts (stamp s x)) xs"

lemma linked_append_next:
  "linked mem h (pre @ x # ys) \<Longrightarrow> (if pre = [] then h else ev_next (mem (last pre))) = Some x"
  by (induction pre arbitrary: h) auto

lemma linked_append_end:
  "linked mem h pre \<Longrightarrow> (if pre = [] then h else ev_next (mem (last pre))) = None"
  by (induction pre arbitrary: h) auto

lemma linked_suffix: "linked mem h (pre @ x # ys) \<Longrightarrow> linked mem (Some x) (x # ys)"
  by (induction pre arbitrary: h) auto

lemma insert_cursor_linked:
  "linked mem (Some c) (c # xs) \<Longrightarrow>
    insert_cursor mem ts c = Some (last (c # takeWhile (\<lambda>x. \<not> ts_before ts (ev_timestamp (mem x))) xs))"
proof (induction xs arbitrary: c)
  case Nil
  then show ?case
    by (simp add: insert_cursor.simps)
next
  case (Cons x xs)
  then show ?case
    by (subst insert_cursor.simps) auto
qed

lemma linked_insert_after:
  "linked mem h (as @ bs) \<Longrightarrow> as \<noteq> [] \<Longrightarrow> distinct (as @ bs) \<Longrightarrow> p \<notin> set (as @ bs) \<Longrightarrow>
    linked (mem(p := e\<lparr>ev_next := ev_next (mem (last as))\<rparr>, last as := (mem (last as))\<lparr>ev_next := Some p\<rparr>)) h (as @ p # bs)"
proof (induction as arbitrary: h)
  case (Cons a as)
  show ?case
  proof (cases as)
    case Nil
    have "linked (mem(p := e\<lparr>ev_next := ev_next (mem a)\<rparr>, a := (mem a)\<lparr>ev_next := Some p\<rparr>)) q bs = linked mem q bs" for q
      by (rule linked_cong) (use Cons.prems Nil in auto)
    with Nil Cons.prems show ?thesis
      by (simp del: fun_upd_apply add: fun_upd_same fun_upd_other)
  next
    case (Cons b as')
    with Cons.prems Cons.IH [of "ev_next (mem a)"] show ?thesis
      by (auto split: if_splits)
  qed
qed simp

lemma takeWhile_dropWhile_append: "takeWhile P xs @ dropWhile P xs = xs"
  by (rule takeWhile_dropWhile_id)

lemma insert_event_linked:
  assumes q: "queued s xs" and p: "p \<notin> set xs"
  shows "\<exists>s'. insert_event p ts i s = Some s' \<and> queued s' (enqueue s p ts xs) \<and>
    stamp s' = (stamp s)(p := ts) \<and> (\<forall>x. ev_id (events s' x) = (if x = p then i else ev_id (events s x))) \<and>
    ticker_clock_us s' = ticker_clock_us s \<and> active_handler s' = active_handler s \<and> ticker_firmware s' = ticker_firmware s"
proof (cases xs)
  case Nil
  with q show ?thesis
    by (auto simp: queued_def insert_event_def enqueue_def stamp_def)
next
  case (Cons h ys)
  define mem where "mem = (events s)(p := \<lparr>ev_timestamp = ts, ev_id = i, ev_next = None\<rparr>)"
  have head: "event_head s = Some h" and ne: "p \<noteq> h" and d: "distinct (h # ys)"
    using q p Cons by (auto simp: queued_def)
  have lk: "linked mem (Some h) (h # ys)"
    using q p Cons by (auto simp: queued_def mem_def)
  have same: "takeWhile (\<lambda>x. \<not> ts_before ts (ev_timestamp (mem x))) ys = takeWhile (\<lambda>x. \<not> ts_before ts (stamp s x)) ys"
    using p Cons by (intro takeWhile_cong) (auto simp: mem_def stamp_def)
  have stamp_h: "ev_timestamp (mem h) = stamp s h"
    using ne by (simp add: mem_def stamp_def)
  show ?thesis
  proof (cases "ts_before ts (stamp s h)")
    case True
    with q p Cons head ne show ?thesis
      by (auto simp: queued_def insert_event_def enqueue_def stamp_def)
  next
    case False
    define as where "as = h # takeWhile (\<lambda>x. \<not> ts_before ts (stamp s x)) ys"
    define bs where "bs = dropWhile (\<lambda>x. \<not> ts_before ts (stamp s x)) ys"
    have split: "h # ys = as @ bs" and ne_as: "as \<noteq> []"
      by (simp_all add: as_def bs_def)
    have pa: "p \<notin> set (as @ bs)" and last_p: "last as \<noteq> p"
      using p Cons split last_in_set [OF ne_as] by auto
    define mem' where "mem' = mem(p := (mem p)\<lparr>ev_next := ev_next (mem (last as))\<rparr>,
      last as := (mem (last as))\<lparr>ev_next := Some p\<rparr>)"
    have cursor: "insert_cursor mem ts h = Some (last as)"
      using insert_cursor_linked [OF lk, of ts] by (simp add: same as_def)
    have "linked mem' (Some h) (as @ p # bs)"
      unfolding mem'_def using linked_insert_after [of mem "Some h" as bs p "mem p"] lk d pa ne_as by (simp add: split)
    moreover have "distinct (as @ p # bs)"
      using d pa by (auto simp: split)
    moreover have "insert_event p ts i s = Some (s\<lparr>events := mem'\<rparr>)"
      using False last_p by (simp add: insert_event_def head mem_def [symmetric] Let_def stamp_h cursor mem'_def fun_upd_other)
    moreover have "enqueue s p ts xs = as @ p # bs"
      using False by (simp add: enqueue_def Cons as_def bs_def)
    moreover have "stamp (s\<lparr>events := mem'\<rparr>) = (stamp s)(p := ts)"
      "\<forall>x. ev_id (mem' x) = (if x = p then i else ev_id (events s x))"
      using last_p by (auto simp: stamp_def mem'_def mem_def fun_eq_iff)
    ultimately show ?thesis
      using head by (simp add: queued_def)
  qed
qed

section \<open>Removal\<close>

lemma linked_unlink:
  "linked mem h (pre @ p # ys) \<Longrightarrow> pre \<noteq> [] \<Longrightarrow> distinct (pre @ p # ys) \<Longrightarrow>
    linked (mem(last pre := (mem (last pre))\<lparr>ev_next := ev_next (mem p)\<rparr>)) h (pre @ ys)"
proof (induction pre arbitrary: h)
  case (Cons a pre)
  show ?case
  proof (cases pre)
    case Nil
    have "linked (mem(a := (mem a)\<lparr>ev_next := ev_next (mem p)\<rparr>)) q ys = linked mem q ys" for q
      by (rule linked_cong) (use Cons.prems Nil in auto)
    with Nil Cons.prems show ?thesis
      by (simp del: fun_upd_apply add: fun_upd_same)
  next
    case (Cons b pre')
    with Cons.prems Cons.IH [of "ev_next (mem a)"] show ?thesis
      by (auto split: if_splits)
  qed
qed simp

lemma remove_from_linked:
  "queued s (pre @ xs) \<Longrightarrow> p \<notin> set pre \<Longrightarrow> cursor = (if pre = [] then Head else Next (last pre)) \<Longrightarrow>
    \<exists>s'. remove_from p cursor s = Some s' \<and> queued s' (pre @ remove1 p xs) \<and> stamp s' = stamp s \<and>
      (p \<in> set xs \<longrightarrow> ev_next (events s' p) = None)"
proof (induction xs arbitrary: pre cursor)
  case Nil
  then have "slot_value cursor s = None"
    using linked_append_end [of "events s" "event_head s" pre] by (auto simp: queued_def slot_value_def)
  with Nil show ?case
    by (subst remove_from.simps) simp
next
  case (Cons x xs)
  have "slot_value cursor s = Some x"
    using Cons.prems linked_append_next [of "events s" "event_head s" pre x xs]
    by (auto simp: queued_def slot_value_def)
  note step = remove_from.simps [of p cursor s, unfolded this]
  show ?case
  proof (cases "x = p")
    case False
    then have "remove_from p cursor s = remove_from p (Next x) s"
      by (simp add: step)
    with Cons.IH [of "pre @ [x]" "Next x"] Cons.prems False show ?thesis
      by auto
  next
    case True
    define s1 where "s1 = write_slot cursor (ev_next (events s p)) s"
    define s2 where "s2 = s1\<lparr>events := (events s1)(p := (events s1 p)\<lparr>ev_next := None\<rparr>)\<rparr>"
    have d: "distinct (pre @ p # xs)" and lk: "linked (events s) (event_head s) (pre @ p # xs)"
      using Cons.prems True by (auto simp: queued_def)
    have "linked (events s1) (event_head s1) (pre @ xs)"
    proof (cases "pre = []")
      case True
      then show ?thesis
        using lk Cons.prems by (simp add: s1_def write_slot_def)
    next
      case False
      then show ?thesis
        using linked_unlink [OF lk False d] Cons.prems by (simp add: s1_def write_slot_def)
    qed
    then have "queued s2 (pre @ xs)"
      using d by (auto simp: queued_def s2_def)
    moreover have "stamp s2 = stamp s"
      by (auto simp: stamp_def s2_def s1_def write_slot_def fun_eq_iff split: slot.splits)
    moreover have "remove_from p cursor s = Some s2"
      by (simp add: step True s1_def s2_def Let_def)
    ultimately show ?thesis
      using True by (auto simp: s2_def)
  qed
qed

section \<open>Time stamps within half the range\<close>

definition offset :: "u32 \<Rightarrow> u32 \<Rightarrow> nat" where
  "offset base ts = unat (ts - base)"

lemma signed_take_bit_difference: "a < 2 ^ 31 \<Longrightarrow> b < 2 ^ 31 \<Longrightarrow> signed_take_bit 31 (int a - int b) = int a - int b"
  by (rule signed_take_bit_int_eq_self) simp_all

lemma sint_diff:
  assumes "unat u < 2 ^ 31" "unat v < 2 ^ 31"
  shows "sint (u - v :: u32) = int (unat u) - int (unat v)"
proof -
  have w: "u - v = word_of_int (int (unat u) - int (unat v))"
    by (simp add: uint_nat [symmetric])
  have "sint (u - v) = signed_take_bit 31 (int (unat u) - int (unat v))"
    by (subst w, simp only: signed_of_int, simp)
  also have "\<dots> = int (unat u) - int (unat v)"
    using assms by (rule signed_take_bit_difference)
  finally show ?thesis .
qed

lemma ts_before_offset:
  assumes "offset base a < 2 ^ 31" "offset base b < 2 ^ 31"
  shows "ts_before a b \<longleftrightarrow> offset base a < offset base b" and "sint (a - b) \<le> 0 \<longleftrightarrow> offset base a \<le> offset base b"
  using sint_diff [of "a - base" "b - base"] assms
  by (simp_all add: ts_before_def offset_def word_less_def [symmetric] word_le_def [symmetric] word_less_nat_alt word_le_nat_alt)

definition in_order :: "u32 \<Rightarrow> ('h, 'w) ticker \<Rightarrow> nat list \<Rightarrow> bool" where
  "in_order base s xs \<longleftrightarrow> (\<forall>x \<in> set xs. offset base (stamp s x) < 2 ^ 31) \<and> sorted (map (\<lambda>x. offset base (stamp s x)) xs)"

lemma sorted_insert_while:
  "sorted (map k xs) \<Longrightarrow> sorted (map k (takeWhile (\<lambda>x. k x \<le> k p) xs @ p # dropWhile (\<lambda>x. k x \<le> k p) xs))"
proof (induction xs)
  case (Cons a xs)
  then show ?case
    by (auto dest: set_takeWhileD set_dropWhileD)
qed simp

lemma enqueue_in_order:
  assumes "in_order base s xs" "offset base ts < 2 ^ 31" "stamp s' = (stamp s)(p := ts)" "p \<notin> set xs"
  shows "in_order base s' (enqueue s p ts xs)"
proof -
  define k where "k x = offset base (stamp s' x)" for x
  have same: "stamp s' x = stamp s x" if "x \<in> set xs" for x
    using that assms(3,4) by auto
  have test: "\<not> ts_before ts (stamp s x) \<longleftrightarrow> k x \<le> k p" if "x \<in> set xs" for x
    using ts_before_offset(1) [of base ts "stamp s x"] assms(1,2) that same
    by (auto simp: in_order_def k_def assms(3) not_less)
  have "enqueue s p ts xs = takeWhile (\<lambda>x. k x \<le> k p) xs @ p # dropWhile (\<lambda>x. k x \<le> k p) xs"
    unfolding enqueue_def using test by (metis (no_types, lifting) takeWhile_cong dropWhile_cong)
  moreover have "sorted (map k xs)"
    using assms(1) same by (simp add: in_order_def k_def cong: map_cong)
  moreover have "k x < 2 ^ 31" if "x \<in> insert p (set xs)" for x
    using that assms(1,2,3) same by (auto simp: in_order_def k_def)
  ultimately show ?thesis
    using sorted_insert_while [of k xs p] unfolding in_order_def k_def [symmetric]
    by (auto dest: set_takeWhileD set_dropWhileD)
qed

section \<open>Dispatch\<close>

lemma due_offset:
  assumes "offset base ts < 2 ^ 31" "offset base (ticker_read s) < 2 ^ 31"
  shows "due ts s \<longleftrightarrow> offset base ts \<le> offset base (ticker_read s)"
  using ts_before_offset(2) [OF assms] by (simp add: due_def)

text \<open>A handler that only works on the memory of the firmware.\<close>

definition plain_caller :: "('h \<Rightarrow> u32 \<Rightarrow> 'w \<Rightarrow> 'w) \<Rightarrow> ('h, 'w) caller" where
  "plain_caller f h i s = s\<lparr>ticker_firmware := f h i (ticker_firmware s)\<rparr>"

lemma dispatch_queue:
  "queued s xs \<Longrightarrow> active_handler s = Some h \<Longrightarrow>
    \<exists>s'. dispatch_due_events (plain_caller f) s = Some s' \<and> queued s' (dropWhile (\<lambda>x. due (stamp s x) s) xs) \<and>
      ticker_firmware s' = fold (f h) (map (\<lambda>x. ev_id (events s x)) (takeWhile (\<lambda>x. due (stamp s x) s) xs)) (ticker_firmware s) \<and>
      stamp s' = stamp s \<and> active_handler s' = Some h \<and> ticker_clock_us s' = ticker_clock_us s \<and>
      (\<forall>x. ev_id (events s' x) = ev_id (events s x))"
proof (induction xs arbitrary: s)
  case Nil
  then show ?case
    by (subst dispatch_due_events.simps) (simp add: dispatch_one_def queued_def)
next
  case (Cons x xs)
  have head: "event_head s = Some x" and x: "x \<notin> set xs"
    using Cons.prems by (auto simp: queued_def)
  show ?case
  proof (cases "due (stamp s x) s")
    case False
    with Cons.prems head show ?thesis
      by (subst dispatch_due_events.simps) (simp add: dispatch_one_def stamp_def)
  next
    case True
    define s1 where "s1 = s\<lparr>event_head := ev_next (events s x), events := (events s)(x := (events s x)\<lparr>ev_next := None\<rparr>),
      ticker_firmware := f h (ev_id (events s x)) (ticker_firmware s)\<rparr>"
    have one: "dispatch_one (plain_caller f) s = Some s1"
      using Cons.prems head True by (simp add: dispatch_one_def stamp_def plain_caller_def s1_def)
    have q: "queued s1 xs"
      using Cons.prems x by (auto simp: queued_def s1_def)
    have keep: "stamp s1 = stamp s" "active_handler s1 = Some h" "ticker_read s1 = ticker_read s" "ticker_clock_us s1 = ticker_clock_us s"
      "\<And>y. ev_id (events s1 y) = ev_id (events s y)"
      using Cons.prems by (auto simp: s1_def stamp_def ticker_read_def fun_eq_iff)
    have due: "due ts s1 = due ts s" for ts
      by (simp add: due_def keep)
    have fw: "ticker_firmware s1 = f h (ev_id (events s x)) (ticker_firmware s)"
      by (simp add: s1_def)
    have "dispatch_due_events (plain_caller f) s = dispatch_due_events (plain_caller f) s1"
      by (subst dispatch_due_events.simps) (simp add: one)
    with Cons.IH [OF q keep(2)] True show ?thesis
      by (simp add: keep due fw)
  qed
qed

lemma takeWhile_sorted_filter:
  "sorted (map k xs) \<Longrightarrow> takeWhile (\<lambda>x. k x \<le> n) xs = filter (\<lambda>x. k x \<le> n) xs \<and>
    dropWhile (\<lambda>x. k x \<le> n) xs = filter (\<lambda>x. \<not> k x \<le> n) xs"
proof (induction xs)
  case (Cons a xs)
  show ?case
  proof (cases "k a \<le> n")
    case False
    then have "\<forall>x \<in> set xs. \<not> k x \<le> n"
      using Cons.prems by auto
    with False show ?thesis
      by (auto simp: filter_empty_conv intro: filter_True [symmetric])
  qed (use Cons in simp)
qed simp

text \<open>
  C22: on a well-linked queue, inserting an event that is not queued returns, puts it behind every event that
  is not later and keeps the rest, and removing an event unlinks exactly it; while all time stamps lie within
  half the counter's range of a base, the queue stays in the order of the time stamps.
\<close>
theorem ticker_queue_refines:
  assumes "queued s xs" "in_order base s xs" "p \<notin> set xs" "offset base ts < 2 ^ 31"
  shows "(\<exists>s'. insert_event p ts i s = Some s' \<and> queued s' (enqueue s p ts xs) \<and> in_order base s' (enqueue s p ts xs) \<and>
      stamp s' = (stamp s)(p := ts)) \<and>
    (\<exists>s'. remove_event q s = Some s' \<and> queued s' (remove1 q xs) \<and> in_order base s' (remove1 q xs) \<and> stamp s' = stamp s)"
proof (intro conjI)
  obtain s' where s': "insert_event p ts i s = Some s'" "queued s' (enqueue s p ts xs)" "stamp s' = (stamp s)(p := ts)"
    using insert_event_linked [OF assms(1,3)] by blast
  then show "\<exists>s'. insert_event p ts i s = Some s' \<and> queued s' (enqueue s p ts xs) \<and> in_order base s' (enqueue s p ts xs) \<and>
      stamp s' = (stamp s)(p := ts)"
    using enqueue_in_order [OF assms(2,4) s'(3) assms(3)] by blast
next
  obtain s' where s': "remove_event q s = Some s'" "queued s' (remove1 q xs)" "stamp s' = stamp s"
    using remove_from_linked [of s "[]" xs q Head] assms(1) by (auto simp: remove_event_def)
  moreover have "in_order base s' (remove1 q xs)"
    using assms(2) s'(3) by (auto simp: in_order_def sorted_map_remove1 dest: notin_set_remove1 [rotated])
  ultimately show "\<exists>s'. remove_event q s = Some s' \<and> queued s' (remove1 q xs) \<and> in_order base s' (remove1 q xs) \<and> stamp s' = stamp s"
    by blast
qed


text \<open>Two events around the wrap of the counter: 0xFFFFFFF0 comes before 5.\<close>

definition wrap_queue :: "(nat, u32 list) ticker" where
  "wrap_queue = \<lparr>events = (\<lambda>p. \<lparr>ev_timestamp = (if p = 1 then 0xFFFFFFF0 else 5), ev_id = (if p = 1 then 10 else 20),
       ev_next = (if p = 1 then Some 2 else None)\<rparr>),
     event_head = Some 1, active_handler = Some 0, ticker_clock_us = 0x100000002, ticker_firmware = []\<rparr>"

lemma wrap_queue_queued: "queued wrap_queue [1, 2]"
  by (simp add: queued_def wrap_queue_def)

lemma wrap_queue_order: "in_order 0xFFFFFF00 wrap_queue [1, 2]"
  by (simp add: in_order_def wrap_queue_def stamp_def offset_def)

theorem ticker_queue_refines_witness:
  "\<exists>s'. insert_event 3 1 30 wrap_queue = Some s' \<and> queued s' [1, 3, 2]"
proof -
  have "enqueue wrap_queue 3 1 [1, 2] = [1, 3, 2]"
    by (simp add: enqueue_def stamp_def wrap_queue_def ts_before_def)
  with ticker_queue_refines [OF wrap_queue_queued wrap_queue_order, of 3 1 30] show ?thesis
    by (auto simp: offset_def)
qed


end
