(* ===== verification/Adc.thy ===== *)
theory Adc
  imports Lpc1768 "HOL-Library.Signed_Division"
begin

text \<open>
  The analogue-digital converter (\<^verbatim>\<open>src/core/adc_sim.cpp\<close>): the raw channel values, the data and control
  registers and the mbed driver on top of them.  A new sample is put in the registers at once and, when the
  channel's interrupt is enabled, delivered to the handlers 32 times.

  Handlers are function pointers of the firmware: values of type \<open>'h\<close>, and the parameters \<open>on_channel\<close> and
  \<open>on_global\<close> say what a call does to the whole state.  The number of clocks per sample is a macro of a
  header outside the repository: the parameter \<open>clks_per_sample\<close>.  The \<^verbatim>\<open>int\<close> arithmetic of the constructor
  does not overflow for the clock rates of the chip and is exact here.
\<close>

section \<open>State\<close>

record ('h, 'w) adc_sim =
  adc_mcu :: lpc1768
  raw_channels :: "u16 list"
  channel_handlers :: "'h option list"
  global_handler :: "'h option"
  active_adc :: bool
  adc_clk_freq :: int
  driver_isr :: "'h option list"
  driver_g_isr :: "'h option"
  driver_m_isr :: "'h option"
  adc_firmware :: 'w

type_synonym ('h, 'w) on_channel = "'h \<Rightarrow> u32 \<Rightarrow> ('h, 'w) adc_sim \<Rightarrow> ('h, 'w) adc_sim"
type_synonym ('h, 'w) on_global = "'h \<Rightarrow> nat \<Rightarrow> u32 \<Rightarrow> ('h, 'w) adc_sim \<Rightarrow> ('h, 'w) adc_sim"

definition channel_count :: nat where "channel_count = 8"
definition isr_repeats_per_sample :: nat where "isr_repeats_per_sample = 32"

definition adc_registers :: "('h, 'w) adc_sim \<Rightarrow> lpc_adc" where
  "adc_registers s = adc (adc_mcu s)"

definition map_registers :: "(lpc_adc \<Rightarrow> lpc_adc) \<Rightarrow> ('h, 'w) adc_sim \<Rightarrow> ('h, 'w) adc_sim" where
  "map_registers f s = s\<lparr>adc_mcu := (adc_mcu s)\<lparr>adc := f (adc (adc_mcu s))\<rparr>\<rparr>"

definition map_ADCR :: "(u32 \<Rightarrow> u32) \<Rightarrow> ('h, 'w) adc_sim \<Rightarrow> ('h, 'w) adc_sim" where
  "map_ADCR f = map_registers (\<lambda>r. r\<lparr>ADCR := f (ADCR r)\<rparr>)"

definition map_ADINTEN :: "(u32 \<Rightarrow> u32) \<Rightarrow> ('h, 'w) adc_sim \<Rightarrow> ('h, 'w) adc_sim" where
  "map_ADINTEN f = map_registers (\<lambda>r. r\<lparr>ADINTEN := f (ADINTEN r)\<rparr>)"

definition map_nvic :: "(nvic \<Rightarrow> nvic) \<Rightarrow> ('h, 'w) adc_sim \<Rightarrow> ('h, 'w) adc_sim" where
  "map_nvic f s = s\<lparr>adc_mcu := (adc_mcu s)\<lparr>the_nvic := f (the_nvic (adc_mcu s))\<rparr>\<rparr>"

section \<open>Samples\<close>

definition done_bit :: u32 where "done_bit = push_bit 31 1"
definition overrun_bit :: u32 where "overrun_bit = push_bit 30 1"

definition data_register :: "nat \<Rightarrow> ('h, 'w) adc_sim \<Rightarrow> u32" where
  "data_register ch s = push_bit 4 (ucast (raw_channels s ! ch)) OR push_bit 24 (word_of_nat ch AND 7) OR done_bit"

text \<open>\<^verbatim>\<open>channel_register\<close>: channels 7 and above share the last data register.\<close>

definition register_index :: "nat \<Rightarrow> nat" where
  "register_index ch = min ch 7"

definition adc_reset :: "('h, 'w) adc_sim \<Rightarrow> ('h, 'w) adc_sim" where
  "adc_reset s = s\<lparr>raw_channels := replicate channel_count 0, channel_handlers := replicate channel_count None,
     global_handler := None, active_adc := False\<rparr>"

primrec deliver :: "('h, 'w) on_channel \<Rightarrow> ('h, 'w) on_global \<Rightarrow> nat \<Rightarrow> u32 \<Rightarrow> nat \<Rightarrow> ('h, 'w) adc_sim \<Rightarrow> ('h, 'w) adc_sim" where
  "deliver oc og ch data 0 s = s"
| "deliver oc og ch data (Suc n) s =
     (let s = (case channel_handlers s ! ch of None \<Rightarrow> s | Some h \<Rightarrow> oc h data s);
          s = (case global_handler s of None \<Rightarrow> s | Some g \<Rightarrow> og g ch data s)
      in deliver oc og ch data n s)"

definition store_sample :: "nat \<Rightarrow> u32 \<Rightarrow> lpc_adc \<Rightarrow> lpc_adc" where
  "store_sample ch data r = r\<lparr>ADDR := (ADDR r)[register_index ch := data], ADGDR := data, ADSTAT := ADSTAT r OR push_bit ch 1\<rparr>"

definition publish_sample :: "('h, 'w) on_channel \<Rightarrow> ('h, 'w) on_global \<Rightarrow> nat \<Rightarrow> nat \<Rightarrow> ('h, 'w) adc_sim \<Rightarrow> ('h, 'w) adc_sim" where
  "publish_sample oc og ch repeats s =
     (if ch \<ge> channel_count then s
      else let data = data_register ch s;
               s = map_registers (store_sample ch data) s
           in if ADINTEN (adc_registers s) AND push_bit ch 1 = 0 \<or> \<not> nvic_enabled ADC_IRQn (the_nvic (adc_mcu s)) then s
              else deliver oc og ch data repeats s)"

definition set_channel_raw :: "('h, 'w) on_channel \<Rightarrow> ('h, 'w) on_global \<Rightarrow> nat \<Rightarrow> u16 \<Rightarrow> ('h, 'w) adc_sim \<Rightarrow> ('h, 'w) adc_sim" where
  "set_channel_raw oc og ch raw12 s =
     (if ch \<ge> channel_count then s
      else publish_sample oc og ch isr_repeats_per_sample (s\<lparr>raw_channels := (raw_channels s)[ch := min raw12 4095]\<rparr>))"

definition channel_raw :: "nat \<Rightarrow> ('h, 'w) adc_sim \<Rightarrow> u16" where
  "channel_raw ch s = (if ch \<ge> channel_count then 0 else raw_channels s ! ch)"

definition set_channel_handler :: "nat \<Rightarrow> 'h option \<Rightarrow> ('h, 'w) adc_sim \<Rightarrow> ('h, 'w) adc_sim" where
  "set_channel_handler ch h s =
     (if ch < channel_count then s\<lparr>channel_handlers := (channel_handlers s)[ch := h]\<rparr> else s)"

definition set_global_handler :: "'h option \<Rightarrow> ('h, 'w) adc_sim \<Rightarrow> ('h, 'w) adc_sim" where
  "set_global_handler h s = s\<lparr>global_handler := h\<rparr>"

section \<open>The driver\<close>

text \<open>Pins p15 to p20 of \<^verbatim>\<open>include/PinNames.h\<close>.\<close>

type_synonym pin_name = int

definition pin_to_channel :: "pin_name \<Rightarrow> nat" where
  "pin_to_channel pin =
     (if pin = 24 then 1 else if pin = 25 then 2 else if pin = 26 then 3 else if pin = 62 then 4
      else if pin = 63 then 5 else 0)"

definition channel_to_pin :: "int \<Rightarrow> pin_name" where
  "channel_to_pin ch = [23, 24, 25, 26, 62, 63, 23, 23] ! nat (ch mod 8)"

definition channel_to_pin_number :: "int \<Rightarrow> int" where
  "channel_to_pin_number ch = [15, 16, 17, 18, 19, 20, 0, 0] ! nat (ch mod 8)"

definition adc_clock_div :: "int \<Rightarrow> int \<Rightarrow> int \<Rightarrow> lpc1768 \<Rightarrow> int \<times> int" where
  "adc_clock_div clks_per_sample sample_rate cclk_div m =
     (let clk = clks_per_sample * sample_rate;
          pclk = sint (SystemCoreClock m) sdiv max cclk_div 1;
          clock_div = max 1 (min 255 (pclk sdiv max clk 1))
      in (clock_div, pclk sdiv clock_div))"

definition new_adc :: "int \<Rightarrow> int \<Rightarrow> int \<Rightarrow> ('h, 'w) adc_sim \<Rightarrow> ('h, 'w) adc_sim" where
  "new_adc clks_per_sample sample_rate cclk_div s =
     (let (clock_div, freq) = adc_clock_div clks_per_sample sample_rate cclk_div (adc_mcu s);
          s = s\<lparr>active_adc := True, driver_g_isr := None, driver_m_isr := None, driver_isr := replicate channel_count None,
                adc_clk_freq := freq\<rparr>;
          power = sc (adc_mcu s);
          s = s\<lparr>adc_mcu := (adc_mcu s)\<lparr>sc := power\<lparr>PCONP := PCONP power OR push_bit 12 1,
                  PCLKSEL0 := PCLKSEL0 power AND NOT (push_bit 24 3)\<rparr>\<rparr>\<rparr>;
          s = map_ADCR (\<lambda>_. (push_bit 8 (word_of_int (clock_div - 1)) OR push_bit 21 1) AND NOT 0xFF) s
      in map_ADINTEN (\<lambda>w. w AND NOT 0x100) s)"

definition burst :: "('h, 'w) adc_sim \<Rightarrow> u32" where
  "burst s = drop_bit 16 (ADCR (adc_registers s)) AND 1"

definition set_burst :: "int \<Rightarrow> ('h, 'w) adc_sim \<Rightarrow> ('h, 'w) adc_sim" where
  "set_burst state s = map_ADCR (\<lambda>w. if state mod 2 \<noteq> 0 then w OR push_bit 16 1 else w AND NOT (push_bit 16 1)) s"

definition select :: "pin_name \<Rightarrow> ('h, 'w) adc_sim \<Rightarrow> ('h, 'w) adc_sim" where
  "select pin s =
     (let ch = pin_to_channel pin; s = (if burst s = 0 then map_ADCR (\<lambda>w. w AND NOT 0xFF) s else s)
      in map_ADCR (\<lambda>w. w OR push_bit ch 1) s)"

definition setup_pin :: "('h, 'w) on_channel \<Rightarrow> ('h, 'w) on_global \<Rightarrow> pin_name \<Rightarrow> int \<Rightarrow> ('h, 'w) adc_sim \<Rightarrow> ('h, 'w) adc_sim" where
  "setup_pin oc og pin state s =
     (let ch = pin_to_channel pin
      in if state mod 2 \<noteq> 0
         then let s = (if burst s = 0 then map_ADCR (\<lambda>w. w AND NOT 0xFF) s else s);
                  s = map_ADCR (\<lambda>w. w OR push_bit ch 1) s
              in publish_sample oc og ch isr_repeats_per_sample s
         else map_ADCR (\<lambda>w. w AND NOT (push_bit ch 1)) s)"

definition pin_is_setup :: "pin_name \<Rightarrow> ('h, 'w) adc_sim \<Rightarrow> u32" where
  "pin_is_setup pin s = drop_bit (pin_to_channel pin) (ADCR (adc_registers s)) AND 1"

definition startmode :: "int \<Rightarrow> int \<Rightarrow> ('h, 'w) adc_sim \<Rightarrow> ('h, 'w) adc_sim" where
  "startmode mode edge = map_ADCR (\<lambda>w. (w AND NOT (push_bit 24 0xF)) OR push_bit 24 (word_of_int mode AND 7) OR
     push_bit 27 (word_of_int edge AND 1))"

definition startmode_of :: "int \<Rightarrow> ('h, 'w) adc_sim \<Rightarrow> u32" where
  "startmode_of mode_edge s =
     (if mode_edge = 1 then drop_bit 27 (ADCR (adc_registers s)) AND 1 else drop_bit 24 (ADCR (adc_registers s)) AND 7)"

definition adc_start :: "('h, 'w) adc_sim \<Rightarrow> ('h, 'w) adc_sim" where
  "adc_start = startmode 1 0"

definition set_interrupt_state :: "('h, 'w) on_channel \<Rightarrow> ('h, 'w) on_global \<Rightarrow> pin_name \<Rightarrow> int \<Rightarrow> ('h, 'w) adc_sim \<Rightarrow> ('h, 'w) adc_sim" where
  "set_interrupt_state oc og pin state s =
     (let ch = pin_to_channel pin
      in if state = 1
         then let s = map_ADINTEN (\<lambda>w. (w AND NOT 0x100) OR push_bit ch 1) s;
                  s = map_nvic (nvic_enable ADC_IRQn) s
              in publish_sample oc og ch isr_repeats_per_sample s
         else let s = map_ADINTEN (\<lambda>w. w AND NOT (push_bit ch 1)) s
              in if ADINTEN (adc_registers s) AND 0xFF = 0 then map_nvic (nvic_disable ADC_IRQn) s else s)"

definition interrupt_state :: "pin_name \<Rightarrow> ('h, 'w) adc_sim \<Rightarrow> u32" where
  "interrupt_state pin s = drop_bit (pin_to_channel pin) (ADINTEN (adc_registers s)) AND 1"

definition attach :: "'h option \<Rightarrow> ('h, 'w) adc_sim \<Rightarrow> ('h, 'w) adc_sim" where
  "attach f s = s\<lparr>driver_m_isr := f\<rparr>"

definition detach :: "('h, 'w) adc_sim \<Rightarrow> ('h, 'w) adc_sim" where
  "detach s = s\<lparr>driver_m_isr := None\<rparr>"

definition append_pin :: "pin_name \<Rightarrow> 'h option \<Rightarrow> ('h, 'w) adc_sim \<Rightarrow> ('h, 'w) adc_sim" where
  "append_pin pin f s =
     (let ch = pin_to_channel pin; s = set_channel_handler ch f s in s\<lparr>driver_isr := (driver_isr s)[ch := f]\<rparr>)"

definition unappend_pin :: "pin_name \<Rightarrow> ('h, 'w) adc_sim \<Rightarrow> ('h, 'w) adc_sim" where
  "unappend_pin pin s =
     (let ch = pin_to_channel pin; s = set_channel_handler ch None s in s\<lparr>driver_isr := (driver_isr s)[ch := None]\<rparr>)"

definition append_global :: "'h option \<Rightarrow> ('h, 'w) adc_sim \<Rightarrow> ('h, 'w) adc_sim" where
  "append_global f s = (set_global_handler f s)\<lparr>driver_g_isr := f\<rparr>"

definition unappend_global :: "('h, 'w) adc_sim \<Rightarrow> ('h, 'w) adc_sim" where
  "unappend_global s = (set_global_handler None s)\<lparr>driver_g_isr := None\<rparr>"

definition set_offset :: "int \<Rightarrow> ('h, 'w) adc_sim \<Rightarrow> ('h, 'w) adc_sim" where
  "set_offset off = map_registers (\<lambda>r. r\<lparr>ADTRM := (ADTRM r AND NOT (push_bit 4 7)) OR push_bit 4 (word_of_int off AND 7)\<rparr>)"

definition adc_offset :: "('h, 'w) adc_sim \<Rightarrow> u32" where
  "adc_offset s = drop_bit 4 (ADTRM (adc_registers s)) AND 7"

definition data_of_pin :: "pin_name \<Rightarrow> ('h, 'w) adc_sim \<Rightarrow> u32" where
  "data_of_pin pin s = ADDR (adc_registers s) ! register_index (pin_to_channel pin)"

definition adc_read :: "('h, 'w) on_channel \<Rightarrow> ('h, 'w) on_global \<Rightarrow> pin_name \<Rightarrow> ('h, 'w) adc_sim \<Rightarrow> u32 \<times> ('h, 'w) adc_sim" where
  "adc_read oc og pin s =
     (let s = publish_sample oc og (pin_to_channel pin) 1 s in (drop_bit 4 (data_of_pin pin s) AND 0xFFF, s))"

definition adc_done :: "pin_name \<Rightarrow> ('h, 'w) adc_sim \<Rightarrow> u32" where
  "adc_done pin s = drop_bit 31 (data_of_pin pin s) AND 1"

definition adc_overrun :: "pin_name \<Rightarrow> ('h, 'w) adc_sim \<Rightarrow> bool" where
  "adc_overrun pin s \<longleftrightarrow> data_of_pin pin s AND overrun_bit \<noteq> 0"

definition actual_sample_rate :: "int \<Rightarrow> ('h, 'w) adc_sim \<Rightarrow> int" where
  "actual_sample_rate clks_per_sample s = adc_clk_freq s sdiv clks_per_sample"

definition adcisr :: "('h, 'w) on_channel \<Rightarrow> ('h, 'w) on_global \<Rightarrow> ('h, 'w) adc_sim \<Rightarrow> ('h, 'w) adc_sim" where
  "adcisr oc og s = fold (\<lambda>ch s. if ADSTAT (adc_registers s) AND push_bit ch 1 \<noteq> 0 then publish_sample oc og ch 1 s else s)
     [0..<channel_count] s"

definition adc_irq :: "('h, 'w) on_channel \<Rightarrow> ('h, 'w) on_global \<Rightarrow> ('h, 'w) adc_sim \<Rightarrow> ('h, 'w) adc_sim" where
  "adc_irq oc og s = (if active_adc s then adcisr oc og s else s)"

section \<open>Lemmas\<close>

lemma registers_map [simp]:
  "adc_registers (map_registers f s) = f (adc_registers s)" "raw_channels (map_registers f s) = raw_channels s"
  "channel_handlers (map_registers f s) = channel_handlers s" "global_handler (map_registers f s) = global_handler s"
  "adc_firmware (map_registers f s) = adc_firmware s" "the_nvic (adc_mcu (map_registers f s)) = the_nvic (adc_mcu s)"
  by (simp_all add: adc_registers_def map_registers_def)

lemma store_sample_simps [simp]:
  "ADCR (store_sample ch data r) = ADCR r" "ADGDR (store_sample ch data r) = data"
  "ADINTEN (store_sample ch data r) = ADINTEN r" "ADTRM (store_sample ch data r) = ADTRM r"
  "ADSTAT (store_sample ch data r) = ADSTAT r OR push_bit ch 1"
  "ADDR (store_sample ch data r) = (ADDR r)[register_index ch := data]"
  by (simp_all add: store_sample_def)

lemma register_index_lt: "ch < 8 \<Longrightarrow> register_index ch = ch"
  by (simp add: register_index_def)

lemma sample_bits: "w \<le> (4095 :: u16) \<Longrightarrow> bit w n \<Longrightarrow> n < 12"
proof (rule ccontr)
  assume le: "w \<le> 4095" and b: "bit w n" and n: "\<not> n < 12"
  have "unat w < 2 ^ 12"
    using le by (simp add: word_le_nat_alt)
  then have "take_bit 12 (unat w) = unat w"
    by (rule take_bit_nat_eq_self)
  moreover have "bit (unat w) n"
    using b by (simp add: bit_unsigned_iff)
  ultimately show False
    using n by (metis bit_take_bit_iff)
qed

lemma bit_done [simp]: "bit done_bit n \<longleftrightarrow> n = 31"
proof -
  have "bit (push_bit 31 (1 :: u32)) n \<longleftrightarrow> n = 31"
    by (auto simp: bit_simps simp del: push_bit_numeral_minus_1 push_bit_of_1)
  then show ?thesis
    by (simp only: done_bit_def)
qed

lemma data_register_sample:
  assumes "raw_channels s ! ch \<le> 4095"
  shows "drop_bit 4 (data_register ch s) AND 0xFFF = ucast (raw_channels s ! ch)"
proof (rule bit_word_eqI)
  fix n
  assume n: "n < LENGTH(32)"
  have m: "(0xFFF :: u32) = mask 12"
    by (simp add: mask_eq_exp_minus_1)
  show "bit (drop_bit 4 (data_register ch s) AND 0xFFF) n = bit (ucast (raw_channels s ! ch) :: u32) n"
    using n sample_bits [OF assms, of n] unfolding m
    by (auto simp: data_register_def bit_done bit_simps)
qed

lemma data_register_done: "bit (data_register ch s) 31"
  by (simp add: data_register_def bit_done bit_simps)

section \<open>Handlers that work on the memory of the firmware\<close>

definition plain_channel :: "('h \<Rightarrow> u32 \<Rightarrow> 'w \<Rightarrow> 'w) \<Rightarrow> ('h, 'w) on_channel" where
  "plain_channel f h data s = s\<lparr>adc_firmware := f h data (adc_firmware s)\<rparr>"

definition plain_global :: "('h \<Rightarrow> nat \<Rightarrow> u32 \<Rightarrow> 'w \<Rightarrow> 'w) \<Rightarrow> ('h, 'w) on_global" where
  "plain_global g h ch data s = s\<lparr>adc_firmware := g h ch data (adc_firmware s)\<rparr>"

text \<open>What the firmware's memory goes through at each repeat.\<close>

definition notified :: "('h \<Rightarrow> u32 \<Rightarrow> 'w \<Rightarrow> 'w) \<Rightarrow> ('h \<Rightarrow> nat \<Rightarrow> u32 \<Rightarrow> 'w \<Rightarrow> 'w) \<Rightarrow> nat \<Rightarrow> u32 \<Rightarrow> ('h, 'w) adc_sim \<Rightarrow> 'w \<Rightarrow> 'w" where
  "notified f g ch data s w =
     (let w = (case channel_handlers s ! ch of None \<Rightarrow> w | Some h \<Rightarrow> f h data w)
      in case global_handler s of None \<Rightarrow> w | Some h \<Rightarrow> g h ch data w)"

lemma deliver_plain:
  "deliver (plain_channel f) (plain_global g) ch data n s = s\<lparr>adc_firmware := (notified f g ch data s ^^ n) (adc_firmware s)\<rparr>"
proof (induction n arbitrary: s)
  case (Suc n)
  have same: "notified f g ch data (s\<lparr>adc_firmware := w\<rparr>) = notified f g ch data s" for w
    by (simp add: notified_def fun_eq_iff)
  have "deliver (plain_channel f) (plain_global g) ch data (Suc n) s =
      deliver (plain_channel f) (plain_global g) ch data n (s\<lparr>adc_firmware := notified f g ch data s (adc_firmware s)\<rparr>)"
    by (simp add: Let_def notified_def plain_channel_def plain_global_def split: option.split)
  also have "\<dots> = s\<lparr>adc_firmware := (notified f g ch data s ^^ Suc n) (adc_firmware s)\<rparr>"
    unfolding Suc.IH same funpow_Suc_right by simp
  finally show ?case .
qed simp

definition delivers :: "nat \<Rightarrow> ('h, 'w) adc_sim \<Rightarrow> bool" where
  "delivers ch s \<longleftrightarrow> bit (ADINTEN (adc_registers s)) ch \<and> nvic_enabled ADC_IRQn (the_nvic (adc_mcu s))"

lemma publish_plain:
  "ch < channel_count \<Longrightarrow> publish_sample (plain_channel f) (plain_global g) ch n s =
    (map_registers (store_sample ch (data_register ch s)) s)
      \<lparr>adc_firmware := (if delivers ch s then (notified f g ch (data_register ch s) s ^^ n) (adc_firmware s) else adc_firmware s)\<rparr>"
proof -
  have b: "ADINTEN (adc_registers s) AND 2 ^ ch = 0 \<longleftrightarrow> \<not> bit (ADINTEN (adc_registers s)) ch"
    by (simp add: bit_iff_and_push_bit_not_eq_0)
  have same: "notified f g ch data (map_registers r s) = notified f g ch data s" for data r
    by (simp add: notified_def fun_eq_iff)
  assume "ch < channel_count"
  then show ?thesis
    by (simp add: publish_sample_def b delivers_def deliver_plain same Let_def)
qed

lemma publish_ADCR:
  "ch < channel_count \<Longrightarrow> ADCR (adc_registers (publish_sample (plain_channel f) (plain_global g) ch n s)) = ADCR (adc_registers s)"
  by (simp add: publish_plain adc_registers_def map_registers_def)

definition adc_wf :: "('h, 'w) adc_sim \<Rightarrow> bool" where
  "adc_wf s \<longleftrightarrow> length (raw_channels s) = 8 \<and> length (channel_handlers s) = 8 \<and> length (ADDR (adc_registers s)) = 8 \<and>
     (\<forall>r \<in> set (raw_channels s). r \<le> 4095)"

text \<open>
  A new sample is clipped to 12 bits, stored in the channel's and the global data register with the done
  bit, marked in the status register, and, exactly when the channel's interrupt is enabled, delivered 32 times
  to the channel's handler and then the global one; a read of the channel returns the sample.
\<close>
theorem adc_sample_delivered:
  assumes "adc_wf s" "ch < 8"
    and "s' = set_channel_raw (plain_channel f) (plain_global g) ch v s"
    and "data = ADDR (adc_registers s') ! ch"
  shows "channel_raw ch s' = min v 4095 \<and> drop_bit 4 data AND 0xFFF = ucast (min v 4095) \<and> bit data 31 \<and>
    ADGDR (adc_registers s') = data \<and> bit (ADSTAT (adc_registers s')) ch \<and>
    adc_firmware s' = (if delivers ch s then (notified f g ch data s ^^ 32) (adc_firmware s) else adc_firmware s)"
proof -
  define s0 where "s0 = s\<lparr>raw_channels := (raw_channels s)[ch := min v 4095]\<rparr>"
  have len: "length (raw_channels s) = 8" "length (ADDR (adc_registers s)) = 8"
    using assms(1) by (simp_all add: adc_wf_def)
  have raw: "raw_channels s0 ! ch = min v 4095"
    using assms(2) len by (simp add: s0_def)
  have keep: "notified f g ch d s0 = notified f g ch d s" "delivers ch s0 = delivers ch s"
    "adc_firmware s0 = adc_firmware s" "adc_registers s0 = adc_registers s" for d
    by (simp_all add: s0_def notified_def delivers_def adc_registers_def fun_eq_iff)
  have s': "s' = (map_registers (store_sample ch (data_register ch s0)) s0)
      \<lparr>adc_firmware := (if delivers ch s0 then (notified f g ch (data_register ch s0) s0 ^^ 32) (adc_firmware s0) else adc_firmware s0)\<rparr>"
    using assms(2,3) publish_plain [of ch f g 32 s0]
    by (simp add: set_channel_raw_def channel_count_def isr_repeats_per_sample_def s0_def)
  have regs: "adc_registers s' = store_sample ch (data_register ch s0) (adc_registers s)"
    and raws: "raw_channels s' = raw_channels s0"
    unfolding s' by (simp_all add: adc_registers_def map_registers_def s0_def)
  have data: "data = data_register ch s0"
    using assms(2,4) len by (simp add: regs register_index_lt)
  show ?thesis
    using assms(2) data_register_sample [of s0 ch] data_register_done [of ch s0]
    by (simp add: regs data raw raws channel_raw_def channel_count_def bit_simps) (simp add: s' keep)
qed

definition sampled_adc :: "(nat, u32 list) adc_sim" where
  "sampled_adc = \<lparr>adc_mcu = lpc_reset\<lparr>adc := (adc lpc_reset)\<lparr>ADINTEN := 4\<rparr>, the_nvic := nvic_enable ADC_IRQn nvic_reset\<rparr>,
     raw_channels = replicate 8 0, channel_handlers = (replicate 8 None)[2 := Some 0], global_handler = None,
     active_adc = True, adc_clk_freq = 0, driver_isr = replicate 8 None, driver_g_isr = None, driver_m_isr = None,
     adc_firmware = []\<rparr>"

theorem adc_sample_delivered_witness:
  "\<exists>s'. s' = set_channel_raw (plain_channel (\<lambda>h data w. data # w)) (plain_global (\<lambda>h ch data w. w)) 2 5000 sampled_adc \<and>
    channel_raw 2 s' = 4095 \<and> length (adc_firmware s') = 32"
proof -
  define s' where "s' = set_channel_raw (plain_channel (\<lambda>h data w. data # w)) (plain_global (\<lambda>h ch data w. w)) 2 5000 sampled_adc"
  have wf: "adc_wf sampled_adc"
    by (simp add: adc_wf_def sampled_adc_def adc_registers_def lpc_reset_def)
  have "delivers 2 sampled_adc"
    by code_simp
  moreover have "length ((notified (\<lambda>h data w. data # w) (\<lambda>h ch data w. w) 2 d sampled_adc ^^ n) w) = n + length w" for d n w
    by (induction n) (simp_all add: notified_def sampled_adc_def)
  moreover have "adc_firmware sampled_adc = []"
    by (simp add: sampled_adc_def)
  ultimately show ?thesis
    using adc_sample_delivered [OF wf _ s'_def refl] by (auto simp: s'_def [symmetric])
qed

section \<open>Channel selection\<close>

lemma burst_bit: "burst s = 0 \<longleftrightarrow> \<not> bit (ADCR (adc_registers s)) 16"
  by (auto simp: burst_def bit_iff_odd_drop_bit and_one_eq odd_iff_mod_2_eq_one)

lemma map_ADCR_simps [simp]: "ADCR (adc_registers (map_ADCR f s)) = f (ADCR (adc_registers s))"
  by (simp add: map_ADCR_def)

lemma pin_channel_lt: "pin_to_channel pin < 6"
  by (simp add: pin_to_channel_def)

lemma bit_0xFF: "bit (0xFF :: int) n \<longleftrightarrow> n < 8"
proof -
  have "(0xFF :: int) = mask 8"
    by (simp add: mask_eq_exp_minus_1)
  moreover have "bit (mask 8 :: int) n \<longleftrightarrow> n < 8"
    by (auto simp: bit_mask_iff simp del: mask_numeral)
  ultimately show ?thesis
    by (simp only:)
qed

text \<open>
  outside burst mode selecting a pin leaves exactly its channel selected, in burst mode it adds its
  channel; every other bit of the control register stays, and setting a pin up selects in the same way.
\<close>
theorem adc_select_exclusive:
  "(\<forall>n. bit (ADCR (adc_registers (select pin s))) n =
      (if n < 8 then n = pin_to_channel pin \<or> burst s \<noteq> 0 \<and> bit (ADCR (adc_registers s)) n
       else bit (ADCR (adc_registers s)) n)) \<and>
    ADCR (adc_registers (setup_pin (plain_channel f) (plain_global g) pin 1 s)) = ADCR (adc_registers (select pin s))"
proof (intro conjI allI)
  fix n
  show "bit (ADCR (adc_registers (select pin s))) n =
      (if n < 8 then n = pin_to_channel pin \<or> burst s \<noteq> 0 \<and> bit (ADCR (adc_registers s)) n
       else bit (ADCR (adc_registers s)) n)"
    using pin_channel_lt [of pin] bit_imp_le_length [of "ADCR (adc_registers s)" n]
    by (auto simp: select_def Let_def bit_0xFF bit_simps simp del: push_bit_of_1)
next
  show "ADCR (adc_registers (setup_pin (plain_channel f) (plain_global g) pin 1 s)) = ADCR (adc_registers (select pin s))"
    using pin_channel_lt [of pin]
    by (simp add: setup_pin_def select_def Let_def publish_ADCR channel_count_def)
qed

end
