(* ===== verification/Serial_Port.thy ===== *)
theory Serial_Port
  imports Byte_Queue
begin

text \<open>
  The UART class that the firmware sees (\<^verbatim>\<open>include/Serial.h\<close>): bytes still on the wire, bytes in the
  receive FIFO, the transmitted bytes, the two interrupt handlers and the sink that may take transmitted
  bytes away (the mainboard of a Z1 does).

  A handler is a closure of the firmware: a value of the type \<open>'h\<close>, and the parameter \<open>call\<close> says what
  calling it does to the port and to the firmware's memory, the field \<open>port_firmware\<close>.  The sink is a
  parameter too, a function that says whether it took the byte.
\<close>

section \<open>State\<close>

datatype parity = ParityNone | ParityOdd | ParityEven | Forced1 | Forced0

datatype irq_type = RxIrq | TxIrq

record ('h, 'w) serial =
  tx_pin :: int
  rx_pin :: int
  serial_name :: string
  baudrate :: int
  serial_bits :: int
  serial_parity :: parity
  stop_bits :: int
  wire :: string
  rx :: string
  tx :: string
  rx_irq :: "'h option"
  tx_irq :: "'h option"
  port_firmware :: 'w

type_synonym ('h, 'w) port_call = "'h \<Rightarrow> ('h, 'w) serial \<Rightarrow> ('h, 'w) serial"
type_synonym ('h, 'w) tx_sink = "char \<Rightarrow> ('h, 'w) serial \<Rightarrow> bool \<times> ('h, 'w) serial"

definition kRxFifoBytes :: nat where "kRxFifoBytes = 16"

definition new_serial :: "int \<Rightarrow> int \<Rightarrow> string option \<Rightarrow> 'w \<Rightarrow> ('h, 'w) serial" where
  "new_serial tx_p rx_p name w = \<lparr>tx_pin = tx_p, rx_pin = rx_p,
     serial_name = (case name of None \<Rightarrow> '''' | Some n \<Rightarrow> n), baudrate = 9600, serial_bits = 8, serial_parity = ParityNone,
     stop_bits = 1, wire = '''', rx = '''', tx = '''', rx_irq = None, tx_irq = None, port_firmware = w\<rparr>"

section \<open>Operations\<close>

definition set_baud :: "int \<Rightarrow> ('h, 'w) serial \<Rightarrow> ('h, 'w) serial" where
  "set_baud b s = s\<lparr>baudrate := b\<rparr>"

definition set_format :: "int \<Rightarrow> parity \<Rightarrow> int \<Rightarrow> ('h, 'w) serial \<Rightarrow> ('h, 'w) serial" where
  "set_format bits p stop s = s\<lparr>serial_bits := bits, serial_parity := p, stop_bits := stop\<rparr>"

definition readable :: "('h, 'w) serial \<Rightarrow> int" where
  "readable s = (if rx s = [] then 0 else 1)"

definition attach_irq :: "'h option \<Rightarrow> irq_type \<Rightarrow> ('h, 'w) serial \<Rightarrow> ('h, 'w) serial" where
  "attach_irq h t s = (case t of RxIrq \<Rightarrow> s\<lparr>rx_irq := h\<rparr> | TxIrq \<Rightarrow> s\<lparr>tx_irq := h\<rparr>)"

definition getc :: "('h, 'w) serial \<Rightarrow> int \<times> ('h, 'w) serial" where
  "getc s = (case rx s of [] \<Rightarrow> (0, s) | c # cs \<Rightarrow> (int (of_char c), s\<lparr>rx := cs\<rparr>))"

definition putc :: "('h, 'w) port_call \<Rightarrow> ('h, 'w) tx_sink option \<Rightarrow> int \<Rightarrow> ('h, 'w) serial \<Rightarrow> int \<times> ('h, 'w) serial" where
  "putc call sink c s =
     (let byte = chr_of (word_of_int c);
          (taken, s) = (case sink of None \<Rightarrow> (False, s) | Some f \<Rightarrow> f byte s);
          s = (if taken then s else s\<lparr>tx := tx s @ [byte]\<rparr>);
          s = (case tx_irq s of None \<Rightarrow> s | Some h \<Rightarrow> call h s)
      in (c, s))"

text \<open>The loop of \<^verbatim>\<open>service_rx_irq\<close> moves bytes from the wire until the FIFO is full.\<close>

definition fill_fifo :: "('h, 'w) serial \<Rightarrow> ('h, 'w) serial" where
  "fill_fifo s = (let n = kRxFifoBytes - length (rx s) in s\<lparr>rx := rx s @ take n (wire s), wire := drop n (wire s)\<rparr>)"

definition service_rx_irq :: "('h, 'w) port_call \<Rightarrow> ('h, 'w) serial \<Rightarrow> ('h, 'w) serial" where
  "service_rx_irq call s =
     (let s = fill_fifo s
      in case rx_irq s of None \<Rightarrow> s | Some h \<Rightarrow> if rx s \<noteq> [] then call h s else s)"

definition simulate_rx :: "('h, 'w) port_call \<Rightarrow> string \<Rightarrow> ('h, 'w) serial \<Rightarrow> ('h, 'w) serial" where
  "simulate_rx call bytes s =
     (if rx_irq s = None then s\<lparr>rx := rx s @ bytes\<rparr>
      else service_rx_irq call (s\<lparr>wire := wire s @ bytes\<rparr>))"

definition rx_in_flight :: "('h, 'w) serial \<Rightarrow> bool" where
  "rx_in_flight s \<longleftrightarrow> wire s \<noteq> [] \<or> rx s \<noteq> []"

definition take_tx :: "('h, 'w) serial \<Rightarrow> string \<times> ('h, 'w) serial" where
  "take_tx s = (tx s, s\<lparr>tx := []\<rparr>)"

section \<open>Received bytes keep their order\<close>

text \<open>
  What the port relies on: the receive handler reads some of the FIFO, from its front, into the firmware's
  memory (\<open>log\<close> is what the firmware has read), and leaves the wire and the handlers alone.
\<close>

definition reads_fifo :: "('h, 'w) port_call \<Rightarrow> ('w \<Rightarrow> string) \<Rightarrow> bool" where
  "reads_fifo call log \<longleftrightarrow> (\<forall>h s. \<exists>k w. k \<le> length (rx s) \<and> call h s = s\<lparr>rx := drop k (rx s), port_firmware := w\<rparr> \<and>
     log w = log (port_firmware s) @ take k (rx s))"

text \<open>What happens to a receiving port: bytes arrive, an interrupt is serviced.\<close>

datatype rx_event = Arrive string | Service

definition rx_step :: "('h, 'w) port_call \<Rightarrow> rx_event \<Rightarrow> ('h, 'w) serial \<Rightarrow> ('h, 'w) serial" where
  "rx_step call e s = (case e of Arrive bytes \<Rightarrow> simulate_rx call bytes s | Service \<Rightarrow> service_rx_irq call s)"

definition rx_run :: "('h, 'w) port_call \<Rightarrow> rx_event list \<Rightarrow> ('h, 'w) serial \<Rightarrow> ('h, 'w) serial" where
  "rx_run call es s = fold (rx_step call) es s"

definition arrived :: "rx_event list \<Rightarrow> string" where
  "arrived es = concat (map (\<lambda>e. case e of Arrive bytes \<Rightarrow> bytes | Service \<Rightarrow> []) es)"

definition pending_rx :: "('w \<Rightarrow> string) \<Rightarrow> ('h, 'w) serial \<Rightarrow> string" where
  "pending_rx log s = log (port_firmware s) @ rx s @ wire s"

lemma take_drop_append: "take k xs @ drop k xs @ ys = xs @ ys"
  by (metis append.assoc append_take_drop_id)

lemma service_irq_keeps:
  assumes "reads_fifo call log"
  shows "pending_rx log (service_rx_irq call s) = pending_rx log s \<and> rx_irq (service_rx_irq call s) = rx_irq s \<and>
    (length (rx s) \<le> kRxFifoBytes \<longrightarrow> length (rx (service_rx_irq call s)) \<le> kRxFifoBytes)"
proof (cases "rx_irq s")
  case None
  then show ?thesis
    by (auto simp: service_rx_irq_def fill_fifo_def pending_rx_def Let_def)
next
  case (Some h)
  define s1 where "s1 = fill_fifo s"
  have s1: "pending_rx log s1 = pending_rx log s" "rx_irq s1 = rx_irq s"
    "length (rx s) \<le> kRxFifoBytes \<longrightarrow> length (rx s1) \<le> kRxFifoBytes"
    by (auto simp: s1_def fill_fifo_def pending_rx_def Let_def)
  obtain k w where "k \<le> length (rx s1)" "call h s1 = s1\<lparr>rx := drop k (rx s1), port_firmware := w\<rparr>"
    "log w = log (port_firmware s1) @ take k (rx s1)"
    using assms unfolding reads_fifo_def by meson
  with s1 Some show ?thesis
    by (auto simp: service_rx_irq_def s1_def [symmetric] pending_rx_def take_drop_append)
qed

lemma rx_step_keeps:
  assumes "reads_fifo call log"
  shows "pending_rx log (rx_step call e s) = pending_rx log s @ arrived [e] \<or> rx_irq s = None"
    and "rx_irq (rx_step call e s) = rx_irq s"
    and "rx_irq s \<noteq> None \<Longrightarrow> length (rx s) \<le> kRxFifoBytes \<Longrightarrow> length (rx (rx_step call e s)) \<le> kRxFifoBytes"
  using service_irq_keeps [OF assms, of s] service_irq_keeps [OF assms, of "s\<lparr>wire := wire s @ b\<rparr>" for b]
  by (auto simp: rx_step_def simulate_rx_def arrived_def pending_rx_def split: rx_event.splits)

text \<open>
  With a receive handler attached, whatever the interleaving of arriving bytes and serviced interrupts,
  what the firmware has read, followed by the FIFO and the wire, is exactly what has arrived, in order, and
  the FIFO never holds more than 16 bytes.
\<close>
theorem serial_receives_in_order:
  assumes "reads_fifo call log" "rx_irq s \<noteq> None" "length (rx s) \<le> kRxFifoBytes"
  shows "pending_rx log (rx_run call es s) = pending_rx log s @ arrived es \<and> length (rx (rx_run call es s)) \<le> kRxFifoBytes"
  using assms(2,3)
proof (induction es arbitrary: s)
  case Nil
  then show ?case
    by (simp add: rx_run_def arrived_def)
next
  case (Cons e es)
  note step = rx_step_keeps [OF assms(1), where e = e and s = s]
  have "rx_irq (rx_step call e s) \<noteq> None" "length (rx (rx_step call e s)) \<le> kRxFifoBytes"
    using step Cons.prems by auto
  note Cons.IH [OF this]
  moreover have "rx_run call (e # es) s = rx_run call es (rx_step call e s)"
    by (simp add: rx_run_def)
  moreover have "arrived (e # es) = arrived [e] @ arrived es"
    by (simp add: arrived_def)
  ultimately show ?case
    using step(1) Cons.prems by simp
qed

text \<open>A handler that empties the FIFO into the firmware's buffer.\<close>

definition drain_handler :: "(nat, string) port_call" where
  "drain_handler h s = s\<lparr>rx := [], port_firmware := port_firmware s @ rx s\<rparr>"

lemma drain_handler_reads: "reads_fifo drain_handler (\<lambda>w. w)"
  unfolding reads_fifo_def drain_handler_def by (metis append_take_drop_id drop_all le_refl take_all)

theorem serial_receives_in_order_witness:
  "pending_rx (\<lambda>w. w) (rx_run drain_handler [Arrive ''G0 X10 Y20 Z30 and more'', Service]
     (attach_irq (Some 0) RxIrq (new_serial 0 1 None ''''))) = ''G0 X10 Y20 Z30 and more''"
proof -
  define s :: "(nat, string) serial" where "s = attach_irq (Some 0) RxIrq (new_serial 0 1 None '''')"
  have s: "rx_irq s \<noteq> None" "length (rx s) \<le> kRxFifoBytes" "pending_rx (\<lambda>w. w) s = ''''"
    by (simp_all add: s_def attach_irq_def new_serial_def pending_rx_def)
  from serial_receives_in_order [OF drain_handler_reads s(1,2), of "[Arrive ''G0 X10 Y20 Z30 and more'', Service]"]
  show ?thesis
    by (simp add: s(3) arrived_def s_def [symmetric])
qed


end
