(* ===== verification/Framed_Stream.thy ===== *)
theory Framed_Stream
  imports Sim_Prelude
begin

text \<open>
  The control protocol on standard input and output: length-prefixed messages
  (\<^verbatim>\<open>src/protocol/framed_proto.cpp\<close>) and the pump that reads requests as they arrive and writes a response
  for each (\<^verbatim>\<open>src/protocol/stream_request_pump_posix.cpp\<close>).

  Protocol buffers are a library outside the repository: parsing and serialising are the parameters \<open>parse\<close>
  and \<open>ser\<close>.  The system calls \<^verbatim>\<open>poll\<close> and \<^verbatim>\<open>read\<close> are parameters on a state \<open>'os\<close> of the operating system.
  The handler of requests is a parameter on a state \<open>'w\<close>.  An output stream is the bytes written to it and
  whether it is good; a write to a bad stream does nothing.
\<close>

section \<open>Frames\<close>

definition kMaxFrameSize :: nat where "kMaxFrameSize = 16 * 1024 * 1024"

definition encode_frame_size :: "u32 \<Rightarrow> string" where
  "encode_frame_size n = map (\<lambda>i. chr_of (ucast (drop_bit (8 * i) n AND 0xFF))) [0, 1, 2, 3]"

definition decode_frame_size :: "string \<Rightarrow> u32" where
  "decode_frame_size bytes = ucast (byte_of (bytes ! 0)) OR push_bit 8 (ucast (byte_of (bytes ! 1))) OR
     push_bit 16 (ucast (byte_of (bytes ! 2))) OR push_bit 24 (ucast (byte_of (bytes ! 3)))"

record ostream =
  written :: string
  good :: bool

definition stream_write :: "string \<Rightarrow> ostream \<Rightarrow> ostream" where
  "stream_write bytes s = (if good s then s\<lparr>written := written s @ bytes\<rparr> else s)"

definition write_message :: "('m \<Rightarrow> string) \<Rightarrow> 'm \<Rightarrow> ostream \<Rightarrow> bool \<times> ostream" where
  "write_message ser m s =
     (let payload = ser m
      in if length payload > kMaxFrameSize then (False, s)
         else let s = stream_write (encode_frame_size (word_of_nat (length payload))) s;
                  s = stream_write payload s
              in (good s, s))"

text \<open>\<^verbatim>\<open>read_message\<close> on a stream with the given bytes left: the message and the rest of the stream.\<close>

definition read_message :: "(string \<Rightarrow> 'm option) \<Rightarrow> string \<Rightarrow> 'm option \<times> string" where
  "read_message parse bytes =
     (if length bytes < 4 then (None, [])
      else let size = unat (decode_frame_size bytes); rest = drop 4 bytes
           in if size > kMaxFrameSize then (None, rest)
              else if length rest < size then (None, [])
              else (parse (take size rest), drop size rest))"

section \<open>The request pump\<close>

datatype poll_result = Poll_Idle | Poll_Interrupted | Poll_Failed | Poll_Ready bool bool

datatype read_result = Read_Bytes string | Read_Eof | Read_Interrupted | Read_Would_Block | Read_Failed

record 'os stdin_calls =
  sys_poll :: "'os \<Rightarrow> poll_result \<times> 'os"
  sys_read :: "nat \<Rightarrow> 'os \<Rightarrow> read_result \<times> 'os"

record ('w, 'os) request_pump =
  pump_output :: ostream
  pump_closed :: bool
  pump_buffer :: string
  pump_world :: 'w
  pump_os :: 'os

text \<open>The loop of \<^verbatim>\<open>read_available\<close>.  \<^verbatim>\<open>Poll_Ready hangup input\<close> carries the two groups of event flags.\<close>

partial_function (option) pump_read :: "'os stdin_calls \<Rightarrow> ('w, 'os) request_pump \<Rightarrow> (bool \<times> ('w, 'os) request_pump) option" where
  "pump_read c s = (case sys_poll c (pump_os s) of
     (Poll_Idle, os) \<Rightarrow> Some (True, s\<lparr>pump_os := os\<rparr>)
   | (Poll_Interrupted, os) \<Rightarrow> pump_read c (s\<lparr>pump_os := os\<rparr>)
   | (Poll_Failed, os) \<Rightarrow> Some (False, s\<lparr>pump_os := os\<rparr>)
   | (Poll_Ready hangup readable, os) \<Rightarrow>
       (if hangup \<and> \<not> readable then Some (False, s\<lparr>pump_os := os, pump_closed := True\<rparr>)
        else if \<not> readable then Some (True, s\<lparr>pump_os := os\<rparr>)
        else case sys_read c 4096 os of
            (Read_Bytes bytes, os) \<Rightarrow> pump_read c (s\<lparr>pump_os := os, pump_buffer := pump_buffer s @ bytes\<rparr>)
          | (Read_Eof, os) \<Rightarrow> Some (False, s\<lparr>pump_os := os, pump_closed := True\<rparr>)
          | (Read_Interrupted, os) \<Rightarrow> pump_read c (s\<lparr>pump_os := os\<rparr>)
          | (Read_Would_Block, os) \<Rightarrow> Some (True, s\<lparr>pump_os := os\<rparr>)
          | (Read_Failed, os) \<Rightarrow> Some (False, s\<lparr>pump_os := os\<rparr>)))"

declare pump_read.simps [code]

text \<open>The loop of \<^verbatim>\<open>drain_available\<close>.\<close>

function drain_frames :: "(string \<Rightarrow> 'req option) \<Rightarrow> ('resp \<Rightarrow> string) \<Rightarrow> ('req \<Rightarrow> 'w \<Rightarrow> 'resp \<times> 'w) \<Rightarrow>
    ('w, 'os) request_pump \<Rightarrow> bool \<times> ('w, 'os) request_pump" where
  "drain_frames parse ser handler s =
     (let b = pump_buffer s; size = unat (decode_frame_size b)
      in if length b < 4 then (True, s)
         else if size > kMaxFrameSize then (False, s)
         else if length b < 4 + size then (True, s)
         else case parse (take size (drop 4 b)) of
           None \<Rightarrow> (False, s)
         | Some request \<Rightarrow>
             (case handler request (pump_world s) of (response, w) \<Rightarrow>
              (case write_message ser response (pump_output s) of (ok, out) \<Rightarrow>
                let s = s\<lparr>pump_buffer := drop (4 + size) b, pump_world := w, pump_output := out\<rparr>
                in if \<not> ok then (False, s) else drain_frames parse ser handler s)))"
  by pat_completeness auto
termination
  by (relation "measure (\<lambda>(_, _, _, s). length (pump_buffer s))") auto

declare drain_frames.simps [simp del]

definition drain_available :: "'os stdin_calls \<Rightarrow> (string \<Rightarrow> 'req option) \<Rightarrow> ('resp \<Rightarrow> string) \<Rightarrow>
    ('req \<Rightarrow> 'w \<Rightarrow> 'resp \<times> 'w) \<Rightarrow> ('w, 'os) request_pump \<Rightarrow> (bool \<times> ('w, 'os) request_pump) option" where
  "drain_available c parse ser handler s = (case pump_read c s of
     None \<Rightarrow> None
   | Some (ok, s) \<Rightarrow> Some (if \<not> ok then (False, s) else drain_frames parse ser handler s))"

section \<open>Round trip of the frames\<close>

lemma length_encode [simp]: "length (encode_frame_size n) = 4"
  by (simp add: encode_frame_size_def)

lemma decode_encode_size: "decode_frame_size (encode_frame_size n @ rest) = n"
proof (rule bit_word_eqI)
  fix i
  assume i: "i < LENGTH(32)"
  have byte: "ucast (drop_bit k n AND 0xFF :: u32) = (ucast (drop_bit k n) :: u8)" for k
  proof (rule bit_word_eqI)
    fix j
    assume "j < LENGTH(8)"
    then show "bit (ucast (drop_bit k n AND 0xFF :: u32) :: u8) j = bit (ucast (drop_bit k n) :: u8) j"
      using bit_mask_iff [of 8 j, where 'a = u32] by (auto simp: bit_simps mask_eq_exp_minus_1)
  qed
  show "bit (decode_frame_size (encode_frame_size n @ rest)) i = bit n i"
    using i by (cases "24 \<le> i"; cases "16 \<le> i"; cases "8 \<le> i") (auto simp: decode_frame_size_def encode_frame_size_def byte bit_simps)
qed

definition frame_of :: "string \<Rightarrow> string" where
  "frame_of payload = encode_frame_size (word_of_nat (length payload)) @ payload"

lemma unat_frame_size: "length payload \<le> kMaxFrameSize \<Longrightarrow> unat (word_of_nat (length payload) :: u32) = length payload"
  by (simp add: kMaxFrameSize_def unat_of_nat)

lemma write_message_frame:
  "good s \<Longrightarrow> length (ser m) \<le> kMaxFrameSize \<Longrightarrow> write_message ser m s = (True, s\<lparr>written := written s @ frame_of (ser m)\<rparr>)"
  by (simp add: write_message_def stream_write_def frame_of_def Let_def)

text \<open>
  a message written to a good stream is read back from it, followed by whatever comes after it, when the
  serialised message fits a frame and the parser undoes the serialiser.
\<close>
theorem message_roundtrip:
  assumes "parse (ser m) = Some m" "length (ser m) \<le> kMaxFrameSize"
  shows "\<exists>s. write_message ser m \<lparr>written = [], good = True\<rparr> = (True, s) \<and> read_message parse (written s @ rest) = (Some m, rest)"
  using assms by (simp add: write_message_frame read_message_def frame_of_def decode_encode_size unat_frame_size)

text \<open>A message that is its own serialisation.\<close>

theorem message_roundtrip_witness:
  "\<exists>s. write_message (\<lambda>m. m) ''hello'' \<lparr>written = [], good = True\<rparr> = (True, s) \<and> read_message Some (written s @ ''x'') = (Some ''hello'', ''x'')"
  by (rule message_roundtrip) (simp_all add: kMaxFrameSize_def)

section \<open>The pump serves every request, in order, whatever the chunks\<close>

text \<open>The responses to a list of requests, and the state the handler ends in.\<close>

fun serve :: "('req \<Rightarrow> 'w \<Rightarrow> 'resp \<times> 'w) \<Rightarrow> 'req list \<Rightarrow> 'w \<Rightarrow> 'resp list \<times> 'w" where
  "serve h [] w = ([], w)"
| "serve h (r # rs) w = (case h r w of (resp, w) \<Rightarrow> case serve h rs w of (resps, w) \<Rightarrow> (resp # resps, w))"

definition frames :: "('m \<Rightarrow> string) \<Rightarrow> 'm list \<Rightarrow> string" where
  "frames enc ms = concat (map (\<lambda>m. frame_of (enc m)) ms)"

lemma frames_simps [simp]: "frames enc [] = []" "frames enc (m # ms) = frame_of (enc m) @ frames enc ms"
  by (simp_all add: frames_def)

text \<open>The pump after the requests \<open>rs\<close>, with \<open>b\<close> left in the buffer.\<close>

definition served :: "('resp \<Rightarrow> string) \<Rightarrow> ('req \<Rightarrow> 'w \<Rightarrow> 'resp \<times> 'w) \<Rightarrow> 'req list \<Rightarrow> string \<Rightarrow>
    ('w, 'os) request_pump \<Rightarrow> ('w, 'os) request_pump" where
  "served ser h rs b s = s\<lparr>pump_buffer := b, pump_world := snd (serve h rs (pump_world s)),
     pump_output := (pump_output s)\<lparr>written := written (pump_output s) @ frames ser (fst (serve h rs (pump_world s)))\<rparr>\<rparr>"

lemma served_snoc:
  "served ser h rs' b' (served ser h rs b s) = served ser h (rs @ rs') b' s"
proof -
  have "serve h (rs @ rs') w = (fst (serve h rs w) @ fst (serve h rs' (snd (serve h rs w))), snd (serve h rs' (snd (serve h rs w))))" for w
    by (induction rs arbitrary: w) (simp_all split: prod.splits)
  moreover have "frames ser (a @ b) = frames ser a @ frames ser b" for a b
    by (simp add: frames_def)
  ultimately show ?thesis
    by (simp add: served_def)
qed

text \<open>What the pump is given: requests that fit a frame, a parser that reads them back, responses that fit.\<close>

definition fits :: "(string \<Rightarrow> 'req option) \<Rightarrow> ('req \<Rightarrow> string) \<Rightarrow> ('resp \<Rightarrow> string) \<Rightarrow> bool" where
  "fits parse enc ser \<longleftrightarrow> (\<forall>r. parse (enc r) = Some r \<and> length (enc r) \<le> kMaxFrameSize) \<and> (\<forall>r. length (ser r) \<le> kMaxFrameSize)"

lemma drain_one:
  assumes "fits parse enc ser" "good (pump_output s)" "pump_buffer s = frame_of (enc r) @ b"
  shows "drain_frames parse ser h s = drain_frames parse ser h (served ser h [r] b s)"
proof -
  have b: "decode_frame_size (pump_buffer s) = word_of_nat (length (enc r))" "unat (word_of_nat (length (enc r)) :: u32) = length (enc r)"
    "parse (enc r) = Some r" "length (enc r) \<le> kMaxFrameSize" "\<And>m. length (ser m) \<le> kMaxFrameSize"
    using assms(1) by (auto simp: assms(3) frame_of_def decode_encode_size fits_def intro: unat_frame_size)
  show ?thesis
    by (subst drain_frames.simps)
      (simp add: Let_def b not_less, simp add: assms(3) frame_of_def b leD [OF b(4)] decode_encode_size write_message_frame assms(2) served_def
        split: prod.splits)
qed

lemma drain_partial:
  assumes "fits parse enc ser" "pump_buffer s @ t = frame_of (enc r) @ u" "length (pump_buffer s) < length (frame_of (enc r))"
  shows "drain_frames parse ser h s = (True, s)"
proof (cases "length (pump_buffer s) < 4")
  case True
  then show ?thesis
    by (subst drain_frames.simps) (simp add: Let_def)
next
  case False
  have fit: "length (enc r) \<le> kMaxFrameSize"
    using assms(1) by (simp add: fits_def)
  have "take (length (pump_buffer s)) (pump_buffer s @ t) = take (length (pump_buffer s)) (frame_of (enc r) @ u)"
    by (simp only: assms(2))
  then have "pump_buffer s = take (length (pump_buffer s)) (frame_of (enc r))"
    using assms(3) by simp
  also have "\<dots> = encode_frame_size (word_of_nat (length (enc r))) @ take (length (pump_buffer s) - 4) (enc r)"
    using False by (simp add: frame_of_def)
  finally have "decode_frame_size (pump_buffer s) = word_of_nat (length (enc r))"
    by (metis decode_encode_size)
  then show ?thesis
    using False assms(3) fit unat_frame_size [OF fit] by (subst drain_frames.simps) (simp add: Let_def frame_of_def)
qed

lemma drain_requests:
  assumes "fits parse enc ser" "good (pump_output s)" "pump_buffer s @ t = frames enc rs"
  shows "\<exists>ds rest b. rs = ds @ rest \<and> drain_frames parse ser h s = (True, served ser h ds b s) \<and>
    b @ t = frames enc rest \<and> (\<forall>r rs'. rest = r # rs' \<longrightarrow> length b < length (frame_of (enc r)))"
  using assms(2,3)
proof (induction rs arbitrary: s)
  case Nil
  then have "drain_frames parse ser h s = (True, served ser h [] [] s)"
    by (subst drain_frames.simps) (simp add: Let_def served_def)
  with Nil show ?case
    by fastforce
next
  case (Cons r rs)
  show ?case
  proof (cases "length (pump_buffer s) < length (frame_of (enc r))")
    case True
    have "drain_frames parse ser h s = (True, served ser h [] (pump_buffer s) s)"
      using drain_partial [OF assms(1) _ True] Cons.prems(2) by (simp add: served_def)
    with Cons.prems True show ?thesis
      by (intro exI [of _ "[]"] exI [of _ "r # rs"] exI [of _ "pump_buffer s"]) simp
  next
    case False
    define b where "b = drop (length (frame_of (enc r))) (pump_buffer s)"
    have "take (length (frame_of (enc r))) (pump_buffer s @ t) = frame_of (enc r)"
      by (simp add: Cons.prems(2))
    then have s: "pump_buffer s = frame_of (enc r) @ b"
      using False unfolding b_def by (metis append_take_drop_id le_eq_less_or_eq linorder_not_less take_append
          diff_is_0_eq' take_0 append_Nil2)
    have "good (pump_output (served ser h [r] b s))" "pump_buffer (served ser h [r] b s) @ t = frames enc rs"
      using Cons.prems by (simp_all add: served_def s)
    from Cons.IH [OF this] obtain ds rest b' where
      "rs = ds @ rest" "drain_frames parse ser h (served ser h [r] b s) = (True, served ser h ds b' (served ser h [r] b s))"
      "b' @ t = frames enc rest" "\<forall>r rs'. rest = r # rs' \<longrightarrow> length b' < length (frame_of (enc r))"
      by blast
    moreover from this have "drain_frames parse ser h s = (True, served ser h (r # ds) b' s)"
      using drain_one [OF assms(1) Cons.prems(1) s, of h] by (simp add: served_snoc)
    ultimately show ?thesis
      by (intro exI [of _ "r # ds"] exI [of _ rest] exI [of _ b']) simp
  qed
qed

text \<open>What one call does when the bytes \<open>bs\<close> are available on standard input.\<close>

definition feed_pump :: "(string \<Rightarrow> 'req option) \<Rightarrow> ('resp \<Rightarrow> string) \<Rightarrow> ('req \<Rightarrow> 'w \<Rightarrow> 'resp \<times> 'w) \<Rightarrow> string \<Rightarrow>
    ('w, 'os) request_pump \<Rightarrow> bool \<times> ('w, 'os) request_pump" where
  "feed_pump parse ser h bs s = drain_frames parse ser h (s\<lparr>pump_buffer := pump_buffer s @ bs\<rparr>)"

lemma drain_available_feed:
  "pump_read c s = Some (True, s\<lparr>pump_os := os, pump_buffer := pump_buffer s @ bs\<rparr>) \<Longrightarrow>
    drain_available c parse ser h s = Some (feed_pump parse ser h bs (s\<lparr>pump_os := os\<rparr>))"
  by (simp add: drain_available_def feed_pump_def)

text \<open>A sequence of calls, which stops at the first failure.\<close>

fun feed_chunks :: "(string \<Rightarrow> 'req option) \<Rightarrow> ('resp \<Rightarrow> string) \<Rightarrow> ('req \<Rightarrow> 'w \<Rightarrow> 'resp \<times> 'w) \<Rightarrow> string list \<Rightarrow>
    ('w, 'os) request_pump \<Rightarrow> bool \<times> ('w, 'os) request_pump" where
  "feed_chunks parse ser h [] s = (True, s)"
| "feed_chunks parse ser h (bs # chunks) s =
     (case feed_pump parse ser h bs s of (ok, s) \<Rightarrow> if ok then feed_chunks parse ser h chunks s else (False, s))"

lemma frames_short: "b = frames enc rest \<Longrightarrow> \<forall>r rs'. rest = r # rs' \<longrightarrow> length b < length (frame_of (enc r)) \<Longrightarrow> rest = [] \<and> b = []"
  by (cases rest) auto

lemma served_keeps: "good (pump_output (served ser h rs b s)) = good (pump_output s)" "pump_buffer (served ser h rs b s) = b"
  by (simp_all add: served_def)

lemma feed_chunks_served:
  assumes "fits parse enc ser" "good (pump_output s)" "pump_buffer s @ concat chunks = frames enc rs"
    and "\<forall>r rs'. rs = r # rs' \<longrightarrow> length (pump_buffer s) < length (frame_of (enc r))"
  shows "feed_chunks parse ser h chunks s = (True, served ser h rs [] s)"
  using assms(2-4)
proof (induction chunks arbitrary: s rs)
  case Nil
  have "rs = [] \<and> pump_buffer s = []"
    by (rule frames_short) (use Nil in simp_all)
  then show ?case
    by (simp add: served_def)
next
  case (Cons bs chunks)
  define s1 where "s1 = s\<lparr>pump_buffer := pump_buffer s @ bs\<rparr>"
  have "good (pump_output s1)" "pump_buffer s1 @ concat chunks = frames enc rs"
    using Cons.prems by (simp_all add: s1_def)
  from drain_requests [OF assms(1) this, of h] obtain ds rest b where d: "rs = ds @ rest"
    "drain_frames parse ser h s1 = (True, served ser h ds b s1)" "b @ concat chunks = frames enc rest"
    "\<forall>r rs'. rest = r # rs' \<longrightarrow> length b < length (frame_of (enc r))"
    by blast
  have "served ser h ds b s1 = served ser h ds b s"
    by (simp add: served_def s1_def)
  with d Cons.IH [of "served ser h ds b s" rest] Cons.prems(1) show ?case
    by (simp add: feed_pump_def s1_def [symmetric] served_keeps served_snoc)
qed

text \<open>
  However the bytes of a sequence of framed requests are cut into chunks, the pump hands every request to
  the handler once, in order, and writes exactly the framed responses; nothing is left in its buffer.
\<close>
theorem requests_served_in_order:
  assumes "fits parse enc ser" "good (pump_output s)" "pump_buffer s = []" "concat chunks = frames enc rs"
  shows "feed_chunks parse ser h chunks s = (True, served ser h rs [] s)"
  by (rule feed_chunks_served [OF assms(1,2)]) (use assms in \<open>simp_all add: frame_of_def\<close>)

text \<open>Requests are single bytes; the handler answers with the byte doubled and counts the requests.\<close>

definition byte_parse :: "string \<Rightarrow> char option" where
  "byte_parse s = (case s of [c] \<Rightarrow> Some c | _ \<Rightarrow> None)"

definition counting_pump :: "(nat, unit) request_pump" where
  "counting_pump = \<lparr>pump_output = \<lparr>written = [], good = True\<rparr>, pump_closed = False, pump_buffer = [], pump_world = 0, pump_os = ()\<rparr>"

theorem requests_served_in_order_witness:
  "\<exists>s. feed_chunks byte_parse (\<lambda>c. [c, c]) (\<lambda>r n. (r, n + 1)) [[CHR 0x01, CHR 0x00], [CHR 0x00, CHR 0x00, CHR ''a'', CHR 0x01], [CHR 0x00, CHR 0x00, CHR 0x00, CHR ''b'']]
      counting_pump = (True, s) \<and> pump_world s = 2"
proof -
  have fit: "fits byte_parse (\<lambda>c. [c]) (\<lambda>c. [c, c])"
    by (simp add: fits_def byte_parse_def kMaxFrameSize_def)
  have chunks: "concat [[CHR 0x01, CHR 0x00], [CHR 0x00, CHR 0x00, CHR ''a'', CHR 0x01], [CHR 0x00, CHR 0x00, CHR 0x00, CHR ''b'']] =
      frames (\<lambda>c. [c]) [CHR ''a'', CHR ''b'']"
    by code_simp
  from requests_served_in_order [OF fit _ _ chunks, of counting_pump "\<lambda>r n. (r, n + 1)"] show ?thesis
    by (simp add: counting_pump_def served_def)
qed

end
