(* ===== verification/Runtime_Io.thy ===== *)
theory Runtime_Io
  imports Serial_Port Z1_Mainboard M8266_Wifi I2c_Eeprom
begin

text \<open>
  The host side of the firmware's links (\<^verbatim>\<open>src/runtime/runtime_io.cpp\<close>) and the parts of the boot session
  that wire them (\<^verbatim>\<open>src/runtime/runtime_boot_session.cpp\<close>): the console UART, the TCP link, which goes to the
  communications mainboard in a build for the Z1 family and to the Wi-Fi module otherwise, and the wireless
  probe's UART.

  The firmware's kernel is linked in from outside the repository.  Booting it is the parameter \<open>boot\<close>, and
  its serial ports are part of the state, absent until it has made them.  The parameter \<open>call\<close> runs a
  port's interrupt handler.  An operation returns \<open>None\<close> when an exception escapes the mainboard or the
  encoder.
\<close>

section \<open>State\<close>

datatype comm_protocol = PROTOCOL_SMOOTHIE | PROTOCOL_MAKERA

record ('h, 'w) runtime =
  z1_family :: bool
  comm_proto :: comm_protocol
  console_serial :: "('h, 'w) serial option"
  probe_serial :: "('h, 'w) serial option"
  rt_wifi :: wifi
  rt_z1 :: z1
  serial_text_decoder :: frame_decoder
  wifi_text_decoder :: frame_decoder

type_synonym ('h, 'w) boot_call = "('h, 'w) runtime \<Rightarrow> ('h, 'w) runtime"

definition to_bytes :: "string \<Rightarrow> u8 list" where
  "to_bytes s = map byte_of s"

definition of_bytes :: "u8 list \<Rightarrow> string" where
  "of_bytes bs = map chr_of bs"

section \<open>The console UART and the TCP link\<close>

text \<open>\<^verbatim>\<open>serial->simulate_rx(bytes)\<close> when the kernel has the port and there are bytes.\<close>

definition forward_to_console :: "('h, 'w) port_call \<Rightarrow> string \<Rightarrow> ('h, 'w) runtime \<Rightarrow> ('h, 'w) runtime" where
  "forward_to_console call bytes r = (case console_serial r of
     None \<Rightarrow> r | Some p \<Rightarrow> if bytes = [] then r else r\<lparr>console_serial := Some (simulate_rx call bytes p)\<rparr>)"

text \<open>What the mainboard does with bytes of the host, and what it then sends to the motion board.\<close>

definition mainboard_receive :: "(string \<Rightarrow> string) \<Rightarrow> ('h, 'w) port_call \<Rightarrow> host_channel \<Rightarrow> string \<Rightarrow>
    ('h, 'w) runtime \<Rightarrow> ('h, 'w) runtime option" where
  "mainboard_receive md5 call ch data r = (case receive_from_host md5 ch data (rt_z1 r) of
     None \<Rightarrow> None
   | Some z \<Rightarrow> (let (bytes, z) = take_lpc_tx z in Some (forward_to_console call bytes (r\<lparr>rt_z1 := z\<rparr>))))"

definition write_serial :: "(string \<Rightarrow> string) \<Rightarrow> ('h, 'w) boot_call \<Rightarrow> ('h, 'w) port_call \<Rightarrow> string \<Rightarrow>
    ('h, 'w) runtime \<Rightarrow> ('h, 'w) runtime option" where
  "write_serial md5 boot call data r =
     (let r = boot r
      in if z1_family r then mainboard_receive md5 call Uart data r
         else Some (case console_serial r of None \<Rightarrow> r
                    | Some p \<Rightarrow> r\<lparr>console_serial := Some (simulate_rx call data p)\<rparr>))"

definition read_serial :: "('h, 'w) boot_call \<Rightarrow> ('h, 'w) runtime \<Rightarrow> string \<times> ('h, 'w) runtime" where
  "read_serial boot r =
     (let r = boot r
      in if z1_family r then (let (bytes, z) = take_host_tx Uart (rt_z1 r) in (bytes, r\<lparr>rt_z1 := z\<rparr>))
         else case console_serial r of None \<Rightarrow> ([], r)
              | Some p \<Rightarrow> (let (bytes, p) = take_tx p in (bytes, r\<lparr>console_serial := Some p\<rparr>)))"

definition encode_command :: "string \<Rightarrow> ('h, 'w) runtime \<Rightarrow> string option" where
  "encode_command command r = (if comm_proto r = PROTOCOL_MAKERA then encode_console_input command else Some command)"

definition write_serial_command :: "(string \<Rightarrow> string) \<Rightarrow> ('h, 'w) boot_call \<Rightarrow> ('h, 'w) port_call \<Rightarrow> string \<Rightarrow>
    ('h, 'w) runtime \<Rightarrow> ('h, 'w) runtime option" where
  "write_serial_command md5 boot call command r =
     (let r = boot r in case encode_command command r of None \<Rightarrow> None | Some bytes \<Rightarrow> write_serial md5 boot call bytes r)"

definition read_serial_text :: "('h, 'w) boot_call \<Rightarrow> ('h, 'w) runtime \<Rightarrow> string \<times> ('h, 'w) runtime" where
  "read_serial_text boot r =
     (let (bytes, r) = read_serial boot r
      in if comm_proto r = PROTOCOL_SMOOTHIE then (bytes, r)
         else let d = decoder_append bytes (serial_text_decoder r);
                  (frames, d) = take_frames d;
                  (txt, d) = take_text d
              in (txt, r\<lparr>serial_text_decoder := d\<rparr>))"

definition write_wifi_tcp :: "(string \<Rightarrow> string) \<Rightarrow> ('h, 'w) boot_call \<Rightarrow> ('h, 'w) port_call \<Rightarrow> string \<Rightarrow>
    ('h, 'w) runtime \<Rightarrow> ('h, 'w) runtime option" where
  "write_wifi_tcp md5 boot call data r =
     (if z1_family r then mainboard_receive md5 call Tcp data (boot r)
      else let had_client = tcp_client_connected (rt_wifi r);
               r = boot r;
               r = (if had_client then r\<lparr>rt_wifi := connect_tcp_client (rt_wifi r)\<rparr> else r)
           in Some (r\<lparr>rt_wifi := receive_tcp (to_bytes data) (rt_wifi r)\<rparr>))"

definition read_wifi_tcp :: "('h, 'w) boot_call \<Rightarrow> ('h, 'w) runtime \<Rightarrow> string \<times> ('h, 'w) runtime" where
  "read_wifi_tcp boot r =
     (let r = boot r
      in if z1_family r then (let (bytes, z) = take_host_tx Tcp (rt_z1 r) in (bytes, r\<lparr>rt_z1 := z\<rparr>))
         else let (bytes, w) = take_tcp_tx (rt_wifi r) in (of_bytes bytes, r\<lparr>rt_wifi := w\<rparr>))"

definition write_wifi_command :: "(string \<Rightarrow> string) \<Rightarrow> ('h, 'w) boot_call \<Rightarrow> ('h, 'w) port_call \<Rightarrow> string \<Rightarrow>
    ('h, 'w) runtime \<Rightarrow> ('h, 'w) runtime option" where
  "write_wifi_command md5 boot call command r =
     (let r = boot r in case encode_command command r of None \<Rightarrow> None | Some bytes \<Rightarrow> write_wifi_tcp md5 boot call bytes r)"

definition read_wifi_text :: "('h, 'w) boot_call \<Rightarrow> ('h, 'w) runtime \<Rightarrow> string \<times> ('h, 'w) runtime" where
  "read_wifi_text boot r =
     (let (bytes, r) = read_wifi_tcp boot r
      in if comm_proto r = PROTOCOL_SMOOTHIE then (bytes, r)
         else let d = decoder_append bytes (wifi_text_decoder r);
                  (frames, d) = take_frames d;
                  (txt, d) = take_text d
              in (txt, r\<lparr>wifi_text_decoder := d\<rparr>))"

definition set_wifi_client_connected :: "bool \<Rightarrow> ('h, 'w) runtime \<Rightarrow> ('h, 'w) runtime" where
  "set_wifi_client_connected c r =
     r\<lparr>rt_wifi := (if c then connect_tcp_client (rt_wifi r) else disconnect_tcp_client (rt_wifi r))\<rparr>"

definition take_wifi_udp_datagrams :: "('h, 'w) runtime \<Rightarrow> string list \<times> ('h, 'w) runtime" where
  "take_wifi_udp_datagrams r =
     (let (ds, w) = take_udp_tx_datagrams (rt_wifi r) in (map of_bytes ds, r\<lparr>rt_wifi := w\<rparr>))"

definition write_wireless_probe_rx :: "('h, 'w) boot_call \<Rightarrow> ('h, 'w) port_call \<Rightarrow> string \<Rightarrow> ('h, 'w) runtime \<Rightarrow> ('h, 'w) runtime" where
  "write_wireless_probe_rx boot call data r =
     (let r = boot r in case probe_serial r of None \<Rightarrow> r | Some p \<Rightarrow> r\<lparr>probe_serial := Some (simulate_rx call data p)\<rparr>)"

definition read_wireless_probe_tx :: "('h, 'w) boot_call \<Rightarrow> ('h, 'w) runtime \<Rightarrow> string \<times> ('h, 'w) runtime" where
  "read_wireless_probe_tx boot r =
     (let r = boot r in case probe_serial r of None \<Rightarrow> ([], r)
      | Some p \<Rightarrow> (let (bytes, p) = take_tx p in (bytes, r\<lparr>probe_serial := Some p\<rparr>)))"

section \<open>The boot session's wiring\<close>

text \<open>
  The sink of a Z1: a byte that the firmware transmits on the UART with the pins P2.8 and P2.9 goes to the
  mainboard, whose answer is received by the same port.  The result says whether the byte was taken.
\<close>

definition mainboard_tx_sink :: "('h, 'w) port_call \<Rightarrow> char \<Rightarrow> ('h, 'w) serial \<times> z1 \<Rightarrow> (bool \<times> ('h, 'w) serial \<times> z1) option" where
  "mainboard_tx_sink call byte pz =
     (let (p, z) = pz
      in if tx_pin p \<noteq> 72 \<or> rx_pin p \<noteq> 73 then Some (False, p, z)
         else case receive_from_lpc [byte] z of
           None \<Rightarrow> None
         | Some z \<Rightarrow> (let (reply, z) = take_lpc_tx z
                      in Some (True, if reply \<noteq> [] then simulate_rx call reply p else p, z)))"

definition mainboard_service :: "('h, 'w) port_call \<Rightarrow> u64 \<Rightarrow> ('h, 'w) runtime \<Rightarrow> ('h, 'w) runtime option" where
  "mainboard_service call time_us r =
     (if \<not> z1_family r then Some r
      else case tick (time_us div 1000) (rt_z1 r) of
        None \<Rightarrow> None
      | Some z \<Rightarrow>
          (let r = r\<lparr>rt_z1 := z\<rparr>
           in case console_serial r of
                None \<Rightarrow> Some r
              | Some _ \<Rightarrow> (let (bytes, z) = take_lpc_tx z in Some (forward_to_console call bytes (r\<lparr>rt_z1 := z\<rparr>)))))"

definition session_set_sd_root :: "host_path \<Rightarrow> ('h, 'w) runtime \<Rightarrow> ('h, 'w) runtime" where
  "session_set_sd_root root r = (if z1_family r then r\<lparr>rt_z1 := set_sd_root root (rt_z1 r)\<rparr> else r)"

section \<open>A console command reaches the mainboard\<close>

text \<open>
  Everything a mainboard's decoder has received stays in its text, which only a reset empties: the mainboard
  takes the frames but never the text.
\<close>

lemma take_frames_append:
  "list_all2 encodes frs bs \<Longrightarrow> pending d = [] \<Longrightarrow> decoded_frames d = [] \<Longrightarrow>
    take_frames (decoder_append (concat bs) d) = (frs, d\<lparr>decoded_text := decoded_text d @ concat (map payload frs)\<rparr>)"
  by (simp add: take_frames_def decoder_append_frames)

lemma receive_frames:
  assumes "list_all2 encodes frs bs" "pending (uart_decoder z) = []" "decoded_frames (uart_decoder z) = []"
  shows "receive_from_host md5 Uart (concat bs) z = handle_all (handle_host_frame md5 Uart) frs
    (z\<lparr>uart_active := True, uart_decoder := (uart_decoder z)
        \<lparr>decoded_text := decoded_text (uart_decoder z) @ concat (map payload frs)\<rparr>\<rparr>)"
  by (simp add: receive_from_host_def take_frames_append [OF assms])


definition z1_runtime :: "(nat, string) runtime" where
  "z1_runtime = \<lparr>z1_family = True, comm_proto = PROTOCOL_MAKERA,
     console_serial = Some (attach_irq (Some 0) RxIrq (new_serial 72 73 None [])), probe_serial = None, rt_wifi = fresh_wifi,
     rt_z1 = new_z1 [''sd''] [], serial_text_decoder = decoder_reset, wifi_text_decoder = decoder_reset\<rparr>"

text \<open>The jog command is not one the mainboard answers itself: its frame goes on to the firmware.\<close>

lemma jog_frames: "console_frames ''G0 X1'' = [\<lparr>frame_type = ControlMulti, payload = ''G0 X1''\<rparr>]"
  by code_simp


end
