(* ===== verification/Transport.thy ===== *)
theory Transport
  imports Runtime_Io "HOL-Library.Sublist" Complex_Main
begin

text \<open>
  The interactive transports: the nonblocking reads and writes of \<^verbatim>\<open>src/protocol/platform_io_posix.cpp\<close>, the
  byte pump on a file descriptor (\<^verbatim>\<open>src/protocol/nonblocking_fd_pump.cpp\<close>), the TCP bridge that joins host
  clients to the machine's TCP link (\<^verbatim>\<open>src/protocol/localhost_tcp_bridge.cpp\<close>), the discovery beacon
  (\<^verbatim>\<open>src/protocol/discovery_beacon.cpp\<close>) and the parts of the transport manager that join them
  (\<^verbatim>\<open>src/protocol/interactive_transport_manager.cpp\<close>).

  The system calls are parameters on a state \<open>'os\<close> of the operating system; a result says what the call
  returned, with the three errors that mean "try again" as one.  The threads that poll in the background
  take the same mutex as the foreground calls: the state changes by whole operations, and \<open>bridge_worker\<close>
  is what one turn of such a thread does.  Reading until nothing is left need not end: it is a partial
  function.
\<close>

section \<open>Descriptors\<close>

type_synonym handle = u64

definition kInvalidHandle :: handle where "kInvalidHandle = NOT 0"

definition kMaxDrainBytesPerService :: nat where "kMaxDrainBytesPerService = 16 * 1024"

datatype recv_result = Received string | Recv_Eof | Recv_Again | Recv_Error

datatype send_result = Sent nat | Send_Again | Send_Error

record 'os sys_calls =
  sys_recv :: "handle \<Rightarrow> nat \<Rightarrow> 'os \<Rightarrow> recv_result \<times> 'os"
  sys_send :: "handle \<Rightarrow> string \<Rightarrow> 'os \<Rightarrow> send_result \<times> 'os"
  sys_close :: "handle \<Rightarrow> 'os \<Rightarrow> 'os"
  sys_listen :: "u16 \<Rightarrow> 'os \<Rightarrow> (handle \<times> u16) \<times> 'os"
  sys_accept :: "handle \<Rightarrow> 'os \<Rightarrow> handle \<times> 'os"
  sys_udp_socket :: "'os \<Rightarrow> handle \<times> 'os"
  sys_sendto :: "handle \<Rightarrow> u16 \<Rightarrow> string \<Rightarrow> 'os \<Rightarrow> 'os"

definition close_fd :: "'os sys_calls \<Rightarrow> handle \<Rightarrow> 'os \<Rightarrow> handle \<times> 'os" where
  "close_fd c fd os = (if fd \<noteq> kInvalidHandle then (kInvalidHandle, sys_close c fd os) else (fd, os))"

text \<open>\<^verbatim>\<open>read_available\<close>: the bytes read and whether the descriptor is still open.\<close>

partial_function (option) read_available :: "'os sys_calls \<Rightarrow> handle \<Rightarrow> string \<Rightarrow> 'os \<Rightarrow> ((string \<times> bool) \<times> 'os) option" where
  "read_available c fd bytes os = (case sys_recv c fd 1024 os of (res, os) \<Rightarrow>
     (case res of
        Received got \<Rightarrow> read_available c fd (bytes @ got) os
      | Recv_Again \<Rightarrow> Some ((bytes, True), os)
      | Recv_Eof \<Rightarrow> Some ((bytes, False), os)
      | Recv_Error \<Rightarrow> Some ((bytes, False), os)))"

declare read_available.simps [code]

text \<open>\<^verbatim>\<open>drain_write_buffer\<close>: whether it succeeded and what is left of the buffer.\<close>

function drain_from :: "'os sys_calls \<Rightarrow> handle \<Rightarrow> nat \<Rightarrow> string \<Rightarrow> 'os \<Rightarrow> (bool \<times> string) \<times> 'os" where
  "drain_from c fd drained bytes os =
     (if bytes = [] \<or> \<not> drained < kMaxDrainBytesPerService then ((True, bytes), os)
      else case sys_send c fd (take (kMaxDrainBytesPerService - drained) bytes) os of
        (Sent n, os) \<Rightarrow> (if n > 0 then drain_from c fd (drained + n) (drop n bytes) os else ((False, bytes), os))
      | (Send_Again, os) \<Rightarrow> ((True, bytes), os)
      | (Send_Error, os) \<Rightarrow> ((False, bytes), os))"
  by pat_completeness auto
termination
  by (relation "measure (\<lambda>(_, _, drained, _, _). kMaxDrainBytesPerService - drained)") auto

declare drain_from.simps [simp del]

definition drain_write_buffer :: "'os sys_calls \<Rightarrow> handle \<Rightarrow> string \<Rightarrow> 'os \<Rightarrow> (bool \<times> string) \<times> 'os" where
  "drain_write_buffer c fd bytes os = drain_from c fd 0 bytes os"

section \<open>The byte pump\<close>

record fd_pump =
  pump_fd :: handle
  pump_input :: string
  pump_out :: string

record pump_options =
  close_on_read_error :: bool
  close_on_write_error :: bool

definition default_pump_options :: pump_options where
  "default_pump_options = \<lparr>close_on_read_error = True, close_on_write_error = True\<rparr>"

definition new_fd_pump :: "handle \<Rightarrow> fd_pump" where
  "new_fd_pump fd = \<lparr>pump_fd = fd, pump_input = [], pump_out = []\<rparr>"

definition clear_buffers :: "fd_pump \<Rightarrow> fd_pump" where
  "clear_buffers p = p\<lparr>pump_input := [], pump_out := []\<rparr>"

definition pump_close :: "'os sys_calls \<Rightarrow> fd_pump \<Rightarrow> 'os \<Rightarrow> fd_pump \<times> 'os" where
  "pump_close c p os = (let (fd, os) = close_fd c (pump_fd p) os in (clear_buffers (p\<lparr>pump_fd := fd\<rparr>), os))"

definition pump_reset :: "'os sys_calls \<Rightarrow> handle \<Rightarrow> fd_pump \<Rightarrow> 'os \<Rightarrow> fd_pump \<times> 'os" where
  "pump_reset c fd p os = (let (p, os) = pump_close c p os in (p\<lparr>pump_fd := fd\<rparr>, os))"

definition pump_release :: "fd_pump \<Rightarrow> handle \<times> fd_pump" where
  "pump_release p = (pump_fd p, p\<lparr>pump_fd := kInvalidHandle\<rparr>)"

definition queue_output :: "string \<Rightarrow> fd_pump \<Rightarrow> fd_pump" where
  "queue_output bytes p = (if bytes \<noteq> [] then p\<lparr>pump_out := pump_out p @ bytes\<rparr> else p)"

definition take_input :: "fd_pump \<Rightarrow> string \<times> fd_pump" where
  "take_input p = (pump_input p, p\<lparr>pump_input := []\<rparr>)"

definition pump_service :: "'os sys_calls \<Rightarrow> pump_options \<Rightarrow> fd_pump \<Rightarrow> 'os \<Rightarrow> ((bool \<times> fd_pump) \<times> 'os) option" where
  "pump_service c opts p os =
     (if pump_fd p = kInvalidHandle then Some ((False, p), os)
      else case read_available c (pump_fd p) [] os of
        None \<Rightarrow> None
      | Some ((bytes, still_open), os) \<Rightarrow>
          (let p = p\<lparr>pump_input := pump_input p @ bytes\<rparr>
           in if \<not> still_open \<and> close_on_read_error opts
              then (let (p, os) = pump_close c p os in Some ((False, p), os))
              else let ((ok, out), os) =
                     (if pump_out p \<noteq> [] then drain_write_buffer c (pump_fd p) (pump_out p) os else ((True, pump_out p), os));
                       p = p\<lparr>pump_out := out\<rparr>
                   in if \<not> ok \<and> close_on_write_error opts
                      then (let (p, os) = pump_close c p os in Some ((False, p), os))
                      else Some ((pump_fd p \<noteq> kInvalidHandle, p), os)))"

section \<open>The TCP bridge\<close>

record tcp_bridge =
  listen_fd :: handle
  clients :: "fd_pump list"
  bridge_port :: u16

definition new_bridge :: tcp_bridge where
  "new_bridge = \<lparr>listen_fd = kInvalidHandle, clients = [], bridge_port = 0\<rparr>"

definition bridge_start :: "'os sys_calls \<Rightarrow> u16 \<Rightarrow> tcp_bridge \<Rightarrow> 'os \<Rightarrow> (bool \<times> tcp_bridge) \<times> 'os" where
  "bridge_start c port b os =
     (if listen_fd b \<noteq> kInvalidHandle then ((True, b), os)
      else let ((fd, bound), os) = sys_listen c port os; b = b\<lparr>listen_fd := fd\<rparr>
           in if fd = kInvalidHandle then ((False, b), os) else ((True, b\<lparr>bridge_port := bound\<rparr>), os))"

text \<open>The loops over the clients: \<^verbatim>\<open>service_clients_locked\<close> erases those whose service fails.\<close>

fun service_clients :: "'os sys_calls \<Rightarrow> fd_pump list \<Rightarrow> 'os \<Rightarrow> (fd_pump list \<times> 'os) option" where
  "service_clients c [] os = Some ([], os)"
| "service_clients c (p # ps) os = (case pump_service c default_pump_options p os of
     None \<Rightarrow> None
   | Some ((ok, p), os) \<Rightarrow> (case service_clients c ps os of
       None \<Rightarrow> None
     | Some (ps, os) \<Rightarrow> Some (if ok then (p # ps, os) else (ps, os))))"

fun close_clients :: "'os sys_calls \<Rightarrow> fd_pump list \<Rightarrow> 'os \<Rightarrow> 'os" where
  "close_clients c [] os = os"
| "close_clients c (p # ps) os = close_clients c ps (snd (pump_close c p os))"

partial_function (option) accept_pending_clients :: "'os sys_calls \<Rightarrow> tcp_bridge \<Rightarrow> 'os \<Rightarrow> (tcp_bridge \<times> 'os) option" where
  "accept_pending_clients c b os = (case sys_accept c (listen_fd b) os of (client, os) \<Rightarrow>
     if client = kInvalidHandle then Some (b, os)
     else accept_pending_clients c (b\<lparr>clients := clients b @ [new_fd_pump client]\<rparr>) os)"

declare accept_pending_clients.simps [code]

definition bridge_worker :: "'os sys_calls \<Rightarrow> tcp_bridge \<Rightarrow> 'os \<Rightarrow> (tcp_bridge \<times> 'os) option" where
  "bridge_worker c b os = (case accept_pending_clients c b os of
     None \<Rightarrow> None
   | Some (b, os) \<Rightarrow> map_option (\<lambda>(ps, os). (b\<lparr>clients := ps\<rparr>, os)) (service_clients c (clients b) os))"

definition bridge_stop :: "'os sys_calls \<Rightarrow> tcp_bridge \<Rightarrow> ('h, 'w) runtime \<Rightarrow> 'os \<Rightarrow> tcp_bridge \<times> ('h, 'w) runtime \<times> 'os" where
  "bridge_stop c b r os =
     (let os = close_clients c (clients b) os;
          r = set_wifi_client_connected False r;
          (fd, os) = close_fd c (listen_fd b) os
      in (b\<lparr>clients := [], listen_fd := fd, bridge_port := 0\<rparr>, r, os))"

text \<open>The loop that takes each client's input and writes it to the TCP link.\<close>

fun collect_input :: "(string \<Rightarrow> ('h, 'w) runtime \<Rightarrow> ('h, 'w) runtime option) \<Rightarrow> string \<Rightarrow> fd_pump list \<Rightarrow> ('h, 'w) runtime \<Rightarrow>
    ((string \<times> fd_pump list) \<times> ('h, 'w) runtime) option" where
  "collect_input write combined [] r = Some ((combined, []), r)"
| "collect_input write combined (p # ps) r =
     (case take_input p of (input, p) \<Rightarrow>
       (case (if input \<noteq> [] then write input r else Some r) of
          None \<Rightarrow> None
        | Some r \<Rightarrow> (case collect_input write (combined @ input) ps r of
            None \<Rightarrow> None
          | Some ((combined, ps), r) \<Rightarrow> Some ((combined, p # ps), r))))"

definition bridge_poll_input :: "'os sys_calls \<Rightarrow> (string \<Rightarrow> ('h, 'w) runtime \<Rightarrow> ('h, 'w) runtime option) \<Rightarrow>
    tcp_bridge \<Rightarrow> ('h, 'w) runtime \<Rightarrow> 'os \<Rightarrow> (string \<times> tcp_bridge \<times> ('h, 'w) runtime \<times> 'os) option" where
  "bridge_poll_input c write b r os =
     (if listen_fd b = kInvalidHandle then Some ([], b, r, os)
      else case bridge_worker c b os of
        None \<Rightarrow> None
      | Some (b, os) \<Rightarrow> (case collect_input write [] (clients b) r of
          None \<Rightarrow> None
        | Some ((combined, ps), r) \<Rightarrow>
            Some (combined, b\<lparr>clients := ps\<rparr>, set_wifi_client_connected (clients b \<noteq> []) r, os)))"

definition bridge_write_output :: "'os sys_calls \<Rightarrow> string \<Rightarrow> tcp_bridge \<Rightarrow> 'os \<Rightarrow> (tcp_bridge \<times> 'os) option" where
  "bridge_write_output c bytes b os =
     (if bytes = [] then Some (b, os)
      else map_option (\<lambda>(ps, os). (b\<lparr>clients := ps\<rparr>, os)) (service_clients c (map (queue_output bytes) (clients b)) os))"

definition queued_output_bytes :: "tcp_bridge \<Rightarrow> nat" where
  "queued_output_bytes b = sum_list (map (\<lambda>p. length (pump_out p)) (clients b))"

definition bridge_poll :: "'os sys_calls \<Rightarrow> (string \<Rightarrow> ('h, 'w) runtime \<Rightarrow> ('h, 'w) runtime option) \<Rightarrow> ('h, 'w) boot_call \<Rightarrow>
    tcp_bridge \<Rightarrow> ('h, 'w) runtime \<Rightarrow> 'os \<Rightarrow> (tcp_bridge \<times> ('h, 'w) runtime \<times> 'os) option" where
  "bridge_poll c write boot b r os = (case bridge_poll_input c write b r os of
     None \<Rightarrow> None
   | Some (_, b, r, os) \<Rightarrow> (let (bytes, r) = read_wifi_tcp boot r in
       map_option (\<lambda>(b, os). (b, r, os)) (bridge_write_output c bytes b os)))"

section \<open>Discovery\<close>

record beacon =
  beacon_payload :: string
  next_send_ms :: nat
  beacon_fd :: handle

definition beacon_start :: "'os sys_calls \<Rightarrow> nat \<Rightarrow> beacon \<Rightarrow> 'os \<Rightarrow> (bool \<times> beacon) \<times> 'os" where
  "beacon_start c now b os =
     (if beacon_fd b \<noteq> kInvalidHandle then ((True, b), os)
      else let (fd, os) = sys_udp_socket c os; b = b\<lparr>beacon_fd := fd\<rparr>
           in if fd = kInvalidHandle then ((False, b), os) else ((True, b\<lparr>next_send_ms := now\<rparr>), os))"

definition beacon_stop :: "'os sys_calls \<Rightarrow> beacon \<Rightarrow> 'os \<Rightarrow> beacon \<times> 'os" where
  "beacon_stop c b os = (let (fd, os) = close_fd c (beacon_fd b) os in (b\<lparr>beacon_fd := fd, beacon_payload := []\<rparr>, os))"

definition send_payload :: "'os sys_calls \<Rightarrow> beacon \<Rightarrow> 'os \<Rightarrow> 'os" where
  "send_payload c b os =
     (if beacon_fd b = kInvalidHandle \<or> beacon_payload b = [] then os else sys_sendto c (beacon_fd b) 3333 (beacon_payload b) os)"

definition beacon_publish :: "'os sys_calls \<Rightarrow> nat \<Rightarrow> string \<Rightarrow> beacon \<Rightarrow> 'os \<Rightarrow> beacon \<times> 'os" where
  "beacon_publish c now pl b os =
     (let b = b\<lparr>beacon_payload := pl\<rparr>; os = send_payload c b os in (b\<lparr>next_send_ms := now + 250\<rparr>, os))"

definition beacon_poll :: "'os sys_calls \<Rightarrow> nat \<Rightarrow> beacon \<Rightarrow> 'os \<Rightarrow> beacon \<times> 'os" where
  "beacon_poll c now b os =
     (if beacon_payload b = [] \<or> now < next_send_ms b then (b, os)
      else (b\<lparr>next_send_ms := now + 250\<rparr>, send_payload c b os))"

text \<open>\<^verbatim>\<open>std::to_string\<close> of a port, and the payload with the address and port of the bridge in place of the firmware's.\<close>

fun decimal :: "nat \<Rightarrow> string" where
  "decimal n = (if n < 10 then [char_of (48 + n)] else decimal (n div 10) @ [char_of (48 + n mod 10)])"

declare decimal.simps [simp del]

definition comma_from :: "nat \<Rightarrow> string \<Rightarrow> nat option" where
  "comma_from start s = map_option (\<lambda>n. start + n) (str_find '','' (drop start s))"

definition localhost_discovery_payload :: "string \<Rightarrow> u16 \<Rightarrow> string" where
  "localhost_discovery_payload p port = (case comma_from 0 p of
     None \<Rightarrow> p
   | Some first \<Rightarrow> (case comma_from (first + 1) p of
       None \<Rightarrow> p
     | Some second \<Rightarrow> (case comma_from (second + 1) p of
         None \<Rightarrow> p
       | Some third \<Rightarrow> take first p @ '',127.0.0.1,'' @ decimal (unat port) @ drop third p)))"

definition relay_wifi_discovery :: "'os sys_calls \<Rightarrow> nat \<Rightarrow> tcp_bridge list \<Rightarrow> beacon \<times> ('h, 'w) runtime \<times> 'os \<Rightarrow> beacon \<times> ('h, 'w) runtime \<times> 'os" where
  "relay_wifi_discovery c now bridges s =
     (case bridges of [] \<Rightarrow> s
      | front # _ \<Rightarrow>
          (let (b, r, os) = s; (payloads, r) = take_wifi_udp_datagrams r;
               (b, os) = fold (\<lambda>p (b, os). beacon_publish c now (localhost_discovery_payload p (bridge_port front)) b os) payloads (b, os)
           in (b, r, os)))"

definition kMaxFreeRunningBatches :: nat where "kMaxFreeRunningBatches = 100"

text \<open>The speed is finite here; the code answers 1 for a speed that is not.\<close>

definition free_running_batches :: "real \<Rightarrow> nat" where
  "free_running_batches speed =
     (if speed \<le> 1 then 1 else max 1 (min kMaxFreeRunningBatches (nat \<lceil>speed\<rceil>)))"

section \<open>What the operating system promises\<close>

text \<open>
  \<open>sent os fd\<close> are the bytes the system has accepted for a descriptor and \<open>waiting os fd\<close> those it has
  received and not yet handed over.  A send accepts a prefix of what it is given, a receive hands over a
  nonempty prefix of what waits, and no call touches another descriptor.
\<close>

definition sends_prefix :: "'os sys_calls \<Rightarrow> ('os \<Rightarrow> handle \<Rightarrow> string) \<Rightarrow> ('os \<Rightarrow> handle \<Rightarrow> string) \<Rightarrow> bool" where
  "sends_prefix c sent waiting \<longleftrightarrow> (\<forall>fd bs os. case sys_send c fd bs os of (res, os') \<Rightarrow> waiting os' = waiting os \<and>
     (case res of Sent n \<Rightarrow> n \<le> length bs \<and> sent os' = (sent os)(fd := sent os fd @ take n bs) | _ \<Rightarrow> sent os' = sent os))"

definition receives_prefix :: "'os sys_calls \<Rightarrow> ('os \<Rightarrow> handle \<Rightarrow> string) \<Rightarrow> ('os \<Rightarrow> handle \<Rightarrow> string) \<Rightarrow> bool" where
  "receives_prefix c sent waiting \<longleftrightarrow> (\<forall>fd n os. case sys_recv c fd n os of (res, os') \<Rightarrow> sent os' = sent os \<and>
     (case res of Received got \<Rightarrow> got \<noteq> [] \<and> got @ waiting os' fd = waiting os fd \<and> (\<forall>g. g \<noteq> fd \<longrightarrow> waiting os' g = waiting os g)
      | _ \<Rightarrow> waiting os' = waiting os))"

definition closes_quietly :: "'os sys_calls \<Rightarrow> ('os \<Rightarrow> handle \<Rightarrow> string) \<Rightarrow> ('os \<Rightarrow> handle \<Rightarrow> string) \<Rightarrow> bool" where
  "closes_quietly c sent waiting \<longleftrightarrow> (\<forall>fd os. sent (sys_close c fd os) = sent os \<and> (\<forall>g. g \<noteq> fd \<longrightarrow> waiting (sys_close c fd os) g = waiting os g))"

definition streams_ok :: "'os sys_calls \<Rightarrow> ('os \<Rightarrow> handle \<Rightarrow> string) \<Rightarrow> ('os \<Rightarrow> handle \<Rightarrow> string) \<Rightarrow> bool" where
  "streams_ok c sent waiting \<longleftrightarrow> sends_prefix c sent waiting \<and> receives_prefix c sent waiting \<and> closes_quietly c sent waiting"

lemma sys_send_law:
  assumes "sends_prefix c sent waiting" "sys_send c fd bs os = (res, os')"
  shows "waiting os' = waiting os"
    and "res = Sent n \<Longrightarrow> n \<le> length bs \<and> sent os' = (sent os)(fd := sent os fd @ take n bs)"
    and "res = Send_Again \<Longrightarrow> sent os' = sent os" and "res = Send_Error \<Longrightarrow> sent os' = sent os"
  using assms(1)[unfolded sends_prefix_def, THEN spec[of _ fd], THEN spec[of _ bs], THEN spec[of _ os]] assms(2) by (auto split: send_result.splits)

lemma sys_recv_law:
  assumes "receives_prefix c sent waiting" "sys_recv c fd n os = (res, os')"
  shows "sent os' = sent os"
    and "res = Received got \<Longrightarrow> got \<noteq> [] \<and> got @ waiting os' fd = waiting os fd \<and> (\<forall>g. g \<noteq> fd \<longrightarrow> waiting os' g = waiting os g)"
    and "res = Recv_Eof \<or> res = Recv_Again \<or> res = Recv_Error \<Longrightarrow> waiting os' = waiting os"
  using assms(1)[unfolded receives_prefix_def, THEN spec[of _ fd], THEN spec[of _ n], THEN spec[of _ os]] assms(2) by (auto split: recv_result.splits)

text \<open>Draining keeps the bytes of a stream in order: what the system has taken, then what is left.\<close>

lemma drain_from_law:
  assumes "sends_prefix c sent waiting" "drain_from c fd k bytes os = ((ok, rest), os')"
  shows "sent os' fd @ rest = sent os fd @ bytes \<and> (\<forall>g. g \<noteq> fd \<longrightarrow> sent os' g = sent os g) \<and> waiting os' = waiting os"
  using assms
proof (induction c fd k bytes os arbitrary: ok rest os' rule: drain_from.induct)
  case (1 c fd k bytes os)
  show ?case
  proof (cases "bytes = [] \<or> \<not> k < kMaxDrainBytesPerService")
    case True
    then show ?thesis using "1.prems"(2) by (simp add: drain_from.simps[of c fd k bytes os])
  next
    case False
    obtain res os1 where s: "sys_send c fd (take (kMaxDrainBytesPerService - k) bytes) os = (res, os1)" by fastforce
    note law = sys_send_law[OF "1.prems"(1) s]
    show ?thesis
    proof (cases res)
      case (Sent n)
      note law = law(1) law(2)[OF Sent]
      show ?thesis
      proof (cases "n > 0")
        case True
        have "drain_from c fd (k + n) (drop n bytes) os1 = ((ok, rest), os')"
          using "1.prems"(2) False s Sent True by (simp add: drain_from.simps[of c fd k bytes os])
        note ih = "1.IH"[OF False s[symmetric] Sent True "1.prems"(1) this]
        show ?thesis using ih law by simp
      next
        case n: False
        then show ?thesis using "1.prems"(2) False s Sent law
          by (auto simp: drain_from.simps[of c fd k bytes os])
      qed
    next
      case Send_Again
      then show ?thesis using "1.prems"(2) False s law(1) law(3)[OF Send_Again]
        by (auto simp: drain_from.simps[of c fd k bytes os])
    next
      case Send_Error
      then show ?thesis using "1.prems"(2) False s law(1) law(4)[OF Send_Error]
        by (auto simp: drain_from.simps[of c fd k bytes os])
    qed
  qed
qed

lemma drain_write_buffer_law:
  assumes "sends_prefix c sent waiting" "drain_write_buffer c fd bytes os = ((ok, rest), os')"
  shows "sent os' fd @ rest = sent os fd @ bytes" and "g \<noteq> fd \<Longrightarrow> sent os' g = sent os g" and "waiting os' = waiting os"
  using drain_from_law[OF assms(1) assms(2)[unfolded drain_write_buffer_def]] by auto

text \<open>Reading ends, because every receive takes bytes that wait, and it takes a prefix of them.\<close>

lemma read_available_law:
  assumes "receives_prefix c sent waiting"
  shows "\<exists>got opened os'. read_available c fd bytes os = Some ((bytes @ got, opened), os') \<and> sent os' = sent os \<and>
    got @ waiting os' fd = waiting os fd \<and> (\<forall>g. g \<noteq> fd \<longrightarrow> waiting os' g = waiting os g)"
proof (induction "length (waiting os fd)" arbitrary: bytes os rule: less_induct)
  case less
  obtain res os1 where r: "sys_recv c fd 1024 os = (res, os1)" by fastforce
  note law = sys_recv_law[OF assms r]
  show ?case
  proof (cases res)
    case (Received got)
    note law = law(1) law(2)[OF Received]
    have "length (waiting os1 fd) < length (waiting os fd)"
      using law(2) by (metis add_less_same_cancel2 length_append length_greater_0_conv less_add_same_cancel2)
    from less(1)[OF this, of "bytes @ got"] obtain got' opened os' where
      "read_available c fd (bytes @ got) os1 = Some ((bytes @ got @ got', opened), os')" "sent os' = sent os1"
      "got' @ waiting os' fd = waiting os1 fd" "\<forall>g. g \<noteq> fd \<longrightarrow> waiting os' g = waiting os1 g" by auto
    then show ?thesis using law Received
      by (intro exI[of _ "got @ got'"] exI[of _ opened] exI[of _ os']) (auto simp: read_available.simps[of c fd bytes os] r)
  qed (use law r in \<open>auto simp: read_available.simps[of c fd bytes os]\<close>)
qed

text \<open>One service of a client: both streams go on in order, and no other descriptor is touched.\<close>

definition carried :: "('os \<Rightarrow> handle \<Rightarrow> string) \<Rightarrow> ('os \<Rightarrow> handle \<Rightarrow> string) \<Rightarrow> fd_pump \<Rightarrow> 'os \<Rightarrow> fd_pump \<Rightarrow> 'os \<Rightarrow> bool" where
  "carried sent waiting p os p' os' \<longleftrightarrow> pump_fd p' = pump_fd p \<and>
     sent os' (pump_fd p) @ pump_out p' = sent os (pump_fd p) @ pump_out p \<and>
     pump_input p' @ waiting os' (pump_fd p) = pump_input p @ waiting os (pump_fd p)"

definition untouched :: "('os \<Rightarrow> handle \<Rightarrow> string) \<Rightarrow> ('os \<Rightarrow> handle \<Rightarrow> string) \<Rightarrow> handle set \<Rightarrow> 'os \<Rightarrow> 'os \<Rightarrow> bool" where
  "untouched sent waiting fds os os' \<longleftrightarrow> (\<forall>g. g \<notin> fds \<longrightarrow> sent os' g = sent os g \<and> waiting os' g = waiting os g)"

lemma untouched_trans: "untouched s w A a b \<Longrightarrow> untouched s w B b c \<Longrightarrow> untouched s w (A \<union> B) a c"
  by (simp add: untouched_def)

lemma pump_close_law:
  assumes "closes_quietly c sent waiting" "pump_close c p os = (p', os')"
  shows "sent os' = sent os" and "g \<noteq> pump_fd p \<Longrightarrow> waiting os' g = waiting os g"
  using assms by (auto simp: pump_close_def close_fd_def Let_def closes_quietly_def split: if_splits)

lemma pump_service_law:
  assumes "streams_ok c sent waiting"
  shows "\<exists>ok p' os'. pump_service c default_pump_options p os = Some ((ok, p'), os') \<and>
    (ok \<longrightarrow> carried sent waiting p os p' os') \<and> untouched sent waiting {pump_fd p} os os'"
proof (cases "pump_fd p = kInvalidHandle")
  case True
  then show ?thesis by (auto simp: pump_service_def untouched_def)
next
  case False
  have laws: "sends_prefix c sent waiting" "receives_prefix c sent waiting" "closes_quietly c sent waiting"
    using assms by (simp_all add: streams_ok_def)
  obtain got opened os1 where r: "read_available c (pump_fd p) [] os = Some ((got, opened), os1)" "sent os1 = sent os"
    "got @ waiting os1 (pump_fd p) = waiting os (pump_fd p)" "\<forall>g. g \<noteq> pump_fd p \<longrightarrow> waiting os1 g = waiting os g"
    using read_available_law[OF laws(2), of "pump_fd p" "[]" os] by auto
  let ?p = "p\<lparr>pump_input := pump_input p @ got\<rparr>"
  obtain ok out os2 where d: "(if pump_out p \<noteq> [] then drain_write_buffer c (pump_fd p) (pump_out p) os1 else ((True, pump_out p), os1))
    = ((ok, out), os2)" by (metis surj_pair)
  have dl: "sent os2 (pump_fd p) @ out = sent os1 (pump_fd p) @ pump_out p" "waiting os2 = waiting os1"
    "\<And>g. g \<noteq> pump_fd p \<Longrightarrow> sent os2 g = sent os1 g"
    using d drain_write_buffer_law[OF laws(1), of "pump_fd p" "pump_out p" os1 ok out os2] by (auto split: if_splits)
  obtain p3 os3 where c3: "pump_close c ?p os1 = (p3, os3)" by fastforce
  obtain p4 os4 where c4: "pump_close c (?p\<lparr>pump_out := out\<rparr>) os2 = (p4, os4)" by fastforce
  note cl3 = pump_close_law[OF laws(3) c3] and cl4 = pump_close_law[OF laws(3) c4]
  consider "\<not> opened" | "opened" "\<not> ok" | "opened" "ok" by blast
  then show ?thesis
  proof cases
    case 1
    then show ?thesis using False r c3 cl3
      by (auto simp add: pump_service_def default_pump_options_def untouched_def)
  next
    case 2
    then show ?thesis using False r d c4 cl4 dl
      by (auto simp add: pump_service_def default_pump_options_def untouched_def Let_def)
  next
    case 3
    then show ?thesis using False r d dl
      by (auto simp add: pump_service_def default_pump_options_def untouched_def carried_def Let_def)
  qed
qed

lemma untouched_mem: "untouched s w A a b \<Longrightarrow> g \<notin> A \<Longrightarrow> s b g = s a g \<and> w b g = w a g"
  by (simp add: untouched_def)

lemma service_clients_law:
  assumes "streams_ok c sent waiting" "distinct (map pump_fd ps)"
  shows "\<exists>ps' os'. service_clients c ps os = Some (ps', os') \<and> subseq (map pump_fd ps') (map pump_fd ps) \<and>
    (\<forall>p' \<in> set ps'. \<exists>p \<in> set ps. carried sent waiting p os p' os') \<and> untouched sent waiting (pump_fd ` set ps) os os'"
  using assms(2)
proof (induction ps arbitrary: os)
  case Nil
  then show ?case by (simp add: untouched_def)
next
  case (Cons p ps)
  obtain ok p' os1 where s: "pump_service c default_pump_options p os = Some ((ok, p'), os1)"
    "ok \<longrightarrow> carried sent waiting p os p' os1" "untouched sent waiting {pump_fd p} os os1"
    using pump_service_law[OF assms(1), of p os] by blast
  obtain ps' os' where r: "service_clients c ps os1 = Some (ps', os')" "subseq (map pump_fd ps') (map pump_fd ps)"
    "\<forall>p' \<in> set ps'. \<exists>p \<in> set ps. carried sent waiting p os1 p' os'" "untouched sent waiting (pump_fd ` set ps) os1 os'"
    using Cons by fastforce
  have fresh: "pump_fd p \<notin> pump_fd ` set ps" using Cons.prems by auto
  have tail: "\<exists>q \<in> set ps. carried sent waiting q os q' os'" if q': "q' \<in> set ps'" for q'
  proof -
    obtain q where q: "q \<in> set ps" "carried sent waiting q os1 q' os'" using q' r(3) by blast
    have "pump_fd q \<notin> {pump_fd p}" using q(1) fresh by (metis image_eqI singletonD)
    note u = untouched_mem[OF s(3) this]
    show ?thesis using q u by (intro bexI[of _ q]) (simp_all add: carried_def)
  qed
  have hd: "ok \<Longrightarrow> carried sent waiting p os p' os'"
    using s(2) untouched_mem[OF r(4) fresh] by (simp add: carried_def)
  have unt: "untouched sent waiting (pump_fd ` set (p # ps)) os os'"
    using untouched_trans[OF s(3) r(4)] by simp
  show ?case
  proof (cases ok)
    case True
    have "subseq (map pump_fd (p' # ps')) (map pump_fd (p # ps))"
      using r(2) hd[OF True] by (simp add: carried_def)
    moreover have "\<forall>q' \<in> set (p' # ps'). \<exists>q \<in> set (p # ps). carried sent waiting q os q' os'"
      using hd[OF True] tail by simp
    ultimately show ?thesis using unt s(1) r(1) True by (intro exI[of _ "p' # ps'"] exI[of _ os']) simp
  next
    case False
    have "subseq (map pump_fd ps') (map pump_fd (p # ps))" using r(2) by (simp add: list_emb_Cons)
    then show ?thesis using unt s(1) r(1) False tail by (intro exI[of _ ps'] exI[of _ os']) simp
  qed
qed

section \<open>Properties\<close>

text \<open>
  What the firmware sends reaches every TCP client in order: after \<^verbatim>\<open>write_output\<close> the clients that are
  left are clients from before, and for each the bytes the system has taken, followed by those still queued,
  are those of before followed by the new ones; its input grows by a prefix of what waited.  The call
  returns.
\<close>
theorem bridge_broadcasts_in_order:
  assumes "streams_ok c sent waiting" "distinct (map pump_fd (clients b))"
  shows "\<exists>b' os'. bridge_write_output c bytes b os = Some (b', os') \<and>
    subseq (map pump_fd (clients b')) (map pump_fd (clients b)) \<and>
    (\<forall>p' \<in> set (clients b'). \<exists>p \<in> set (clients b). pump_fd p' = pump_fd p \<and>
      sent os' (pump_fd p) @ pump_out p' = sent os (pump_fd p) @ pump_out p @ bytes \<and>
      pump_input p' @ waiting os' (pump_fd p) = pump_input p @ waiting os (pump_fd p))"
proof (cases "bytes = []")
  case True
  then show ?thesis by (auto simp: bridge_write_output_def)
next
  case False
  have fds: "map pump_fd (map (queue_output bytes) (clients b)) = map pump_fd (clients b)"
    by (simp add: queue_output_def)
  obtain ps' os' where r: "service_clients c (map (queue_output bytes) (clients b)) os = Some (ps', os')"
    "subseq (map pump_fd ps') (map pump_fd (clients b))"
    "\<forall>p' \<in> set ps'. \<exists>p \<in> set (map (queue_output bytes) (clients b)). carried sent waiting p os p' os'"
    using service_clients_law[OF assms(1), of "map (queue_output bytes) (clients b)" os] assms(2) unfolding fds by blast
  show ?thesis using r False
    by (fastforce simp: bridge_write_output_def carried_def queue_output_def)
qed

text \<open>A system that takes three bytes at a time, with two clients, one of which has sent a byte.\<close>

definition three_at_a_time :: "((handle \<Rightarrow> string) \<times> (handle \<Rightarrow> string)) sys_calls" where
  "three_at_a_time = \<lparr>sys_recv = (\<lambda>fd n (s, w). if w fd = [] then (Recv_Again, (s, w)) else (Received [hd (w fd)], (s, w(fd := tl (w fd))))),
     sys_send = (\<lambda>fd bs (s, w). (Sent (min 3 (length bs)), (s(fd := s fd @ take 3 bs), w))),
     sys_close = (\<lambda>fd os. os), sys_listen = (\<lambda>port os. ((1, port), os)), sys_accept = (\<lambda>fd os. (kInvalidHandle, os)),
     sys_udp_socket = (\<lambda>os. (2, os)), sys_sendto = (\<lambda>fd port bs os. os)\<rparr>"

theorem bridge_broadcasts_in_order_witness:
  "\<exists>b' os'. bridge_write_output three_at_a_time ''ok'' (new_bridge\<lparr>clients := [new_fd_pump 5, new_fd_pump 6]\<rparr>)
      (\<lambda>_. [], (\<lambda>_. [])(6 := ''?'')) = Some (b', os') \<and>
    subseq (map pump_fd (clients b')) [5, 6] \<and>
    (\<forall>p' \<in> set (clients b'). fst os' (pump_fd p') @ pump_out p' = ''ok'')"
proof -
  have "streams_ok three_at_a_time fst snd"
    by (auto simp: streams_ok_def sends_prefix_def receives_prefix_def closes_quietly_def three_at_a_time_def min_def)
  from bridge_broadcasts_in_order[OF this, of "new_bridge\<lparr>clients := [new_fd_pump 5, new_fd_pump 6]\<rparr>" "''ok''" "(\<lambda>_. [], (\<lambda>_. [])(6 := ''?''))"]
  show ?thesis by (fastforce simp: new_bridge_def new_fd_pump_def)
qed

text \<open>The payload keeps the name and what follows the port, and the batches are between 1 and 100.\<close>

lemma str_find_comma: "CHR '','' \<notin> set u \<Longrightarrow> str_find '','' (u @ CHR '','' # v) = Some (length u)"
  by (induction u) (auto simp: str_find_Cons)

lemma localhost_discovery_payload_fields:
  assumes "CHR '','' \<notin> set name" "CHR '','' \<notin> set addr" "CHR '','' \<notin> set port'"
  shows "localhost_discovery_payload (name @ '','' @ addr @ '','' @ port' @ '','' @ rest) port =
    name @ '',127.0.0.1,'' @ decimal (unat port) @ '','' @ rest"
proof -
  let ?p = "name @ '','' @ addr @ '','' @ port' @ '','' @ rest"
  have "comma_from 0 ?p = Some (length name)" using str_find_comma[OF assms(1)] by (simp add: comma_from_def)
  moreover have "comma_from (length name + 1) ?p = Some (length name + 1 + length addr)"
    using str_find_comma[OF assms(2)] by (simp add: comma_from_def)
  moreover have "comma_from (length name + 1 + length addr + 1) ?p = Some (length name + 1 + length addr + 1 + length port')"
    using str_find_comma[OF assms(3)] by (simp add: comma_from_def)
  ultimately show ?thesis by (simp add: localhost_discovery_payload_def)
qed

lemma free_running_batches_bounds: "1 \<le> free_running_batches speed \<and> free_running_batches speed \<le> 100"
proof (cases "speed \<le> 1")
  case False
  then have "1 \<le> \<lceil>speed\<rceil>" by linarith
  then show ?thesis by (simp add: free_running_batches_def kMaxFreeRunningBatches_def le_nat_iff)
qed (simp add: free_running_batches_def)

end
