(* ===== verification/Machine_Simulator.thy ===== *)
theory Machine_Simulator
  imports Complex_Main Physical_Scene Spindle_State Adc
begin

text \<open>
  The machine as the host sees it (\<^verbatim>\<open>src/core/machine_simulator.cpp\<close>) and the part of the simulator context
  it works on: the registers with the converter, the stepper axes, the PWM outputs and interrupt inputs
  (\<^verbatim>\<open>src/core/mbed_peripheral_state.cpp\<close>), the light strip (\<^verbatim>\<open>src/core/main_button_led.cpp\<close>), the spindle, the
  physical scene and the motor alarms (\<^verbatim>\<open>src/runtime/runtime_motor_alarm_wiring.cpp\<close>).

  Handlers of the firmware are values of type \<open>'h\<close>; the parameters say what calling one does.  \<open>None\<close> is an
  exception or an index out of an array.  Doubles are real numbers.
\<close>

section \<open>State\<close>

record pwm_pin =
  duty :: real
  period_us :: real
  configured :: bool

record rgb_color =
  red :: u8
  green :: u8
  blue :: u8

record led_state =
  strip_available :: bool
  current_strip :: "rgb_color list"

record alarm_signal =
  alarm_pin :: pin_address
  alarm_active_level :: bool
  alarm_connected :: bool

record ('h, 'w) machine =
  m_adc :: "('h, 'w) adc_sim"
  m_axes :: "axis list"
  m_pwm :: "pwm_pin list"
  m_rises :: "'h option list"
  m_led :: led_state
  m_spindle :: spindle_state
  m_scene :: physical_scene
  m_alarms :: "alarm_signal list"
  rotary_installed :: bool

definition m_mcu :: "('h, 'w) machine \<Rightarrow> lpc1768" where
  "m_mcu s = adc_mcu (m_adc s)"

definition put_mcu :: "lpc1768 \<Rightarrow> ('h, 'w) machine \<Rightarrow> ('h, 'w) machine" where
  "put_mcu m s = s\<lparr>m_adc := (m_adc s)\<lparr>adc_mcu := m\<rparr>\<rparr>"

section \<open>PWM outputs and interrupt inputs\<close>

definition peripheral_pins :: nat where "peripheral_pins = 160"

definition port_pin :: "pin_address \<Rightarrow> nat" where
  "port_pin p = unat (pin_port p) * 32 + unat (pin_number p AND 0x1F)"

definition pwm_reset :: "pwm_pin list" where
  "pwm_reset = replicate peripheral_pins \<lparr>duty = 0, period_us = 0, configured = False\<rparr>"

definition pwm_state :: "nat \<Rightarrow> pwm_pin list \<Rightarrow> pwm_pin option" where
  "pwm_state i ps = (if i < length ps then Some (ps ! i) else None)"

definition pwm_update :: "nat \<Rightarrow> (pwm_pin \<Rightarrow> pwm_pin) \<Rightarrow> pwm_pin list \<Rightarrow> pwm_pin list option" where
  "pwm_update i f ps = (if i < length ps then Some (ps[i := f (ps ! i)]) else None)"

definition new_pwm_out :: "nat \<Rightarrow> pwm_pin list \<Rightarrow> pwm_pin list option" where
  "new_pwm_out i = pwm_update i (configured_update (\<lambda>_. True))"

definition pwm_period :: "nat \<Rightarrow> real \<Rightarrow> pwm_pin list \<Rightarrow> pwm_pin list option" where
  "pwm_period i seconds = pwm_update i (period_us_update (\<lambda>_. seconds * 1000000))"

definition pwm_period_ms :: "nat \<Rightarrow> real \<Rightarrow> pwm_pin list \<Rightarrow> pwm_pin list option" where
  "pwm_period_ms i milliseconds = pwm_update i (period_us_update (\<lambda>_. milliseconds * 1000))"

definition pwm_period_us :: "nat \<Rightarrow> real \<Rightarrow> pwm_pin list \<Rightarrow> pwm_pin list option" where
  "pwm_period_us i microseconds = pwm_update i (period_us_update (\<lambda>_. microseconds))"

definition pwm_write :: "nat \<Rightarrow> real \<Rightarrow> pwm_pin list \<Rightarrow> pwm_pin list option" where
  "pwm_write i d = pwm_update i (duty_update (\<lambda>_. if d < 0 then 0 else if d > 1 then 1 else d))"

definition pwm_read :: "nat \<Rightarrow> pwm_pin list \<Rightarrow> real option" where
  "pwm_read i ps = map_option duty (pwm_state i ps)"

definition rises_reset :: "'h option list" where
  "rises_reset = replicate peripheral_pins None"

definition set_rise_handler :: "nat \<Rightarrow> 'h option \<Rightarrow> 'h option list \<Rightarrow> 'h option list option" where
  "set_rise_handler i h hs = (if i < length hs then Some (hs[i := h]) else None)"

definition simulate_rise :: "('h \<Rightarrow> ('h, 'w) machine \<Rightarrow> ('h, 'w) machine) \<Rightarrow> nat \<Rightarrow> ('h, 'w) machine \<Rightarrow> ('h, 'w) machine option" where
  "simulate_rise call i s =
     (if i < length (m_rises s) then Some (case m_rises s ! i of None \<Rightarrow> s | Some h \<Rightarrow> call h s) else None)"

section \<open>The light strip and the motor alarms\<close>

definition led_reset :: led_state where
  "led_reset = \<lparr>strip_available = False, current_strip = replicate 5 \<lparr>red = 0, green = 0, blue = 0\<rparr>\<rparr>"

definition set_strip :: "rgb_color list \<Rightarrow> led_state \<Rightarrow> led_state" where
  "set_strip strip l = l\<lparr>strip_available := True, current_strip := strip\<rparr>"

definition motor_alarm_count :: nat where "motor_alarm_count = 5"

definition alarms_clear :: "alarm_signal list" where
  "alarms_clear = replicate motor_alarm_count
     \<lparr>alarm_pin = \<lparr>pin_port = 0, pin_number = 0\<rparr>, alarm_active_level = True, alarm_connected = False\<rparr>"

definition alarms_set :: "nat \<Rightarrow> pin_address \<Rightarrow> bool \<Rightarrow> alarm_signal list \<Rightarrow> alarm_signal list" where
  "alarms_set axis pin level as = (if axis \<ge> length as then as
     else as[axis := \<lparr>alarm_pin = pin, alarm_active_level = level, alarm_connected = True\<rparr>])"

definition alarms_drive :: "nat \<Rightarrow> bool \<Rightarrow> alarm_signal list \<Rightarrow> lpc1768 \<Rightarrow> lpc1768 option" where
  "alarms_drive axis triggered as m =
     (if axis \<ge> length as \<or> \<not> alarm_connected (as ! axis) then Some m
      else set_level (alarm_pin (as ! axis))
        (if triggered then alarm_active_level (as ! axis) else \<not> alarm_active_level (as ! axis)) m)"

section \<open>Pins, rails and outputs\<close>

definition set_gpio_input :: "pin_address \<Rightarrow> bool \<Rightarrow> ('h, 'w) machine \<Rightarrow> ('h, 'w) machine option" where
  "set_gpio_input p high s = map_option (\<lambda>m. put_mcu m s) (set_level p high (m_mcu s))"

definition machine_level :: "pin_address \<Rightarrow> ('h, 'w) machine \<Rightarrow> bool option" where
  "machine_level p s = pin_level p (m_mcu s)"

definition machine_main_button :: "machine_model \<Rightarrow> bool \<Rightarrow> ('h, 'w) machine \<Rightarrow> ('h, 'w) machine option" where
  "machine_main_button model pressed s =
     (let b = physical_main_button (board_profile_of model) in set_gpio_input (signal_pin b) (signal_level b pressed) s)"

definition machine_e_stop :: "machine_model \<Rightarrow> bool \<Rightarrow> ('h, 'w) machine \<Rightarrow> ('h, 'w) machine option" where
  "machine_e_stop model pressed s =
     (let b = physical_e_stop (board_profile_of model) in set_gpio_input (signal_pin b) (signal_level b pressed) s)"

text \<open>The 12 V and the 24 V rail.\<close>

definition power_rails :: "('h, 'w) machine \<Rightarrow> (bool \<times> bool) option" where
  "power_rails s = do {
     v12 \<leftarrow> machine_level \<lparr>pin_port = 0, pin_number = 22\<rparr> s;
     v24 \<leftarrow> machine_level \<lparr>pin_port = 0, pin_number = 10\<rparr> s;
     Some (v12, v24) }"

definition pwm_output :: "pin_address \<Rightarrow> ('h, 'w) machine \<Rightarrow> pwm_pin option" where
  "pwm_output p s = pwm_state (port_pin p) (m_pwm s)"

definition trigger_interrupt_rise :: "('h \<Rightarrow> ('h, 'w) machine \<Rightarrow> ('h, 'w) machine) \<Rightarrow> pin_address \<Rightarrow>
    ('h, 'w) machine \<Rightarrow> ('h, 'w) machine option" where
  "trigger_interrupt_rise call p s = simulate_rise call (port_pin p) s"

definition set_adc_input :: "('h, 'w) on_channel \<Rightarrow> ('h, 'w) on_global \<Rightarrow> nat \<Rightarrow> u16 \<Rightarrow> ('h, 'w) machine \<Rightarrow> ('h, 'w) machine" where
  "set_adc_input oc og ch raw s = s\<lparr>m_adc := set_channel_raw oc og ch raw (m_adc s)\<rparr>"

definition adc_input :: "nat \<Rightarrow> ('h, 'w) machine \<Rightarrow> u16" where
  "adc_input ch s = channel_raw ch (m_adc s)"

section \<open>Temperature\<close>

text \<open>The resistance of the stock beta thermistor and the divider it is in.\<close>

definition thermistor_ratio :: "real \<Rightarrow> real" where
  "thermistor_ratio celsius =
     (let kelvin = celsius + 27315 / 100;
          resistance = 100000 * exp (3950 * (1 / kelvin - 1 / (25 + 27315 / 100)))
      in 4095 * resistance / (resistance + 4700))"

definition stock_beta_thermistor_raw :: "real \<Rightarrow> u16" where
  "stock_beta_thermistor_raw celsius = word_of_int (max 1 (min 4094 (llround (thermistor_ratio celsius))))"

datatype temperature_sensor = Spindle_Sensor | Power_Sensor

definition set_temperature :: "('h, 'w) on_channel \<Rightarrow> ('h, 'w) on_global \<Rightarrow> temperature_sensor \<Rightarrow> real \<Rightarrow>
    ('h, 'w) machine \<Rightarrow> ('h, 'w) machine" where
  "set_temperature oc og sensor celsius s =
     (let raw = stock_beta_thermistor_raw celsius
      in if sensor = Power_Sensor then set_adc_input oc og 4 raw (set_adc_input oc og 3 raw s)
         else set_adc_input oc og 5 raw s)"

section \<open>Axes\<close>

definition set_rotary_accessory_installed :: "bool \<Rightarrow> ('h, 'w) machine \<Rightarrow> ('h, 'w) machine option" where
  "set_rotary_accessory_installed installed s =
     (let s = s\<lparr>rotary_installed := installed\<rparr>
      in if length (m_axes s) > 3
         then map_option (\<lambda>(axes, m). put_mcu m (s\<lparr>m_axes := axes\<rparr>)) (registry_set_motor_connected 3 installed (m_axes s) (m_mcu s))
         else Some s)"

definition plain_axis_config :: "pin_address \<Rightarrow> pin_address \<Rightarrow> bool \<Rightarrow> axis_config" where
  "plain_axis_config step dir invert = \<lparr>cfg_step_pin = step, cfg_direction_pin = dir, cfg_invert = invert,
     cfg_connected = True, cfg_steps_per_mm = 1, cfg_initial_mm = 0, cfg_endstops = []\<rparr>"

definition add_step_dir_axis :: "pin_address \<Rightarrow> pin_address \<Rightarrow> bool \<Rightarrow> ('h, 'w) machine \<Rightarrow> (nat \<times> ('h, 'w) machine) option" where
  "add_step_dir_axis step dir invert s =
     map_option (\<lambda>(i, axes, m). (i, put_mcu m (s\<lparr>m_axes := axes\<rparr>))) (add_axis (plain_axis_config step dir invert) (m_axes s) (m_mcu s))"

definition axis_position_steps :: "nat \<Rightarrow> ('h, 'w) machine \<Rightarrow> int option" where
  "axis_position_steps i s = registry_position_steps i (m_axes s)"

definition axis_position_mm :: "nat \<Rightarrow> ('h, 'w) machine \<Rightarrow> real option" where
  "axis_position_mm i s = map_option position_mm (checked i (m_axes s))"

definition axis_endstop_triggered :: "nat \<Rightarrow> ('h, 'w) machine \<Rightarrow> bool option" where
  "axis_endstop_triggered i s = map_option endstop_triggered (checked i (m_axes s))"

definition axis_endstop_side_triggered :: "nat \<Rightarrow> endstop_side \<Rightarrow> ('h, 'w) machine \<Rightarrow> bool option" where
  "axis_endstop_side_triggered i sd s = map_option (endstop_side_triggered sd) (checked i (m_axes s))"

section \<open>Reset\<close>

text \<open>
  The resets of \<^verbatim>\<open>SimulatorContext::reset\<close> in its order, for the parts of this state; those of the clock, the
  ticker, the accounting, the Wi-Fi module, the EEPROM and the schedulers touch none of it.
\<close>

definition context_reset :: "bool \<Rightarrow> ('h, 'w) machine \<Rightarrow> ('h, 'w) machine option" where
  "context_reset preserve s =
     (let s = put_mcu lpc_reset s;
          s = s\<lparr>m_pwm := pwm_reset, m_rises := rises_reset, m_led := led_reset, m_spindle := spindle_reset, m_axes := [],
                m_alarms := alarms_clear\<rparr>;
          s = s\<lparr>m_adc := adc_reset (m_adc s)\<rparr>
      in if preserve then Some s
         else map_option (\<lambda>(scene, m). put_mcu m (s\<lparr>m_scene := scene\<rparr>)) (scene_clear (m_scene s, m_mcu s)))"

definition machine_reset :: "('h, 'w) on_channel \<Rightarrow> ('h, 'w) on_global \<Rightarrow> bool \<Rightarrow> ('h, 'w) machine \<Rightarrow> ('h, 'w) machine option" where
  "machine_reset oc og preserve s = map_option (\<lambda>s.
     (set_temperature oc og Power_Sensor 25 (set_temperature oc og Spindle_Sensor 25 s))\<lparr>rotary_installed := False\<rparr>)
     (context_reset preserve s)"

section \<open>Temperatures keep their order\<close>

lemma llround_mono: "x \<le> y \<Longrightarrow> llround x \<le> llround y"
  by (auto simp: llround_def intro: floor_mono order_trans [of _ 0])

lemma thermistor_ratio_antimono:
  assumes "- 27315 / 100 < a" "a \<le> b"
  shows "thermistor_ratio b \<le> thermistor_ratio a"
proof -
  define r where "r c = 100000 * exp (3950 * (1 / (c + 27315 / 100) - 1 / (25 + 27315 / 100)))" for c :: real
  have "1 / (b + 27315 / 100) \<le> 1 / (a + 27315 / 100)"
    using assms by (intro divide_left_mono) auto
  then have le: "r b \<le> r a" by (simp add: r_def)
  have pos: "0 < r c" for c by (simp add: r_def)
  have "4095 * r b / (r b + 4700) \<le> 4095 * r a / (r a + 4700)"
    using le pos [of a] pos [of b] by (simp add: divide_simps) (simp add: algebra_simps)
  then show ?thesis by (simp add: thermistor_ratio_def r_def Let_def)
qed

lemma clamped_sample: "unat (word_of_int (max 1 (min 4094 i)) :: u16) = nat (max 1 (min 4094 i))"
proof -
  have "uint (word_of_int (max 1 (min 4094 i)) :: u16) = max 1 (min 4094 i)"
    by (simp add: uint_word_of_int take_bit_int_eq_self)
  then show ?thesis by (simp only: unat_eq_nat_uint)
qed

text \<open>
  A hotter thermistor never reads higher, and no temperature reads as a shorted or an open sensor: the
  samples are between 1 and 4094.
\<close>
theorem thermistor_orders_temperatures:
  assumes "- 27315 / 100 < a" "a \<le> b"
  shows "stock_beta_thermistor_raw b \<le> stock_beta_thermistor_raw a \<and>
    1 \<le> stock_beta_thermistor_raw b \<and> stock_beta_thermistor_raw a \<le> 4094"
proof -
  have "llround (thermistor_ratio b) \<le> llround (thermistor_ratio a)"
    using thermistor_ratio_antimono [OF assms] by (rule llround_mono)
  then show ?thesis
    by (auto simp: stock_beta_thermistor_raw_def word_le_nat_alt clamped_sample)
qed

theorem thermistor_orders_temperatures_witness:
  "stock_beta_thermistor_raw 80 \<le> stock_beta_thermistor_raw 25 \<and> 1 \<le> stock_beta_thermistor_raw 80 \<and>
   stock_beta_thermistor_raw 25 \<le> 4094"
  using thermistor_orders_temperatures [of 25 80] by simp

section \<open>The shape of the machine\<close>

definition machine_wf :: "('h, 'w) machine \<Rightarrow> bool" where
  "machine_wf s \<longleftrightarrow> length (gpio (m_mcu s)) = 5 \<and> adc_wf (m_adc s) \<and> length (m_pwm s) = 160 \<and> length (m_rises s) = 160 \<and>
     length (m_alarms s) = 5 \<and> length (current_strip (m_led s)) = 5 \<and>
     (\<forall>a \<in> set (m_axes s). endstops_wired a (m_mcu s)) \<and>
     (\<forall>al \<in> set (m_alarms s). alarm_connected al \<longrightarrow> valid_pin (m_mcu s) (alarm_pin al))"

text \<open>What the handlers of the firmware may not do: change the shape of the machine.\<close>

definition adc_same_shape :: "('h, 'w) adc_sim \<Rightarrow> ('h, 'w) adc_sim \<Rightarrow> bool" where
  "adc_same_shape s s' \<longleftrightarrow> (adc_wf s \<longrightarrow> adc_wf s') \<and> length (gpio (adc_mcu s')) = length (gpio (adc_mcu s))"

definition handlers_ok :: "('h, 'w) on_channel \<Rightarrow> ('h, 'w) on_global \<Rightarrow> bool" where
  "handlers_ok oc og \<longleftrightarrow> (\<forall>h data s. adc_same_shape s (oc h data s)) \<and> (\<forall>h ch data s. adc_same_shape s (og h ch data s))"

lemma same_shape_trans: "adc_same_shape a b \<Longrightarrow> adc_same_shape b c \<Longrightarrow> adc_same_shape a c"
  by (simp add: adc_same_shape_def)

lemma same_shape_refl [simp]: "adc_same_shape s s"
  by (simp add: adc_same_shape_def)

lemma deliver_same_shape:
  assumes "handlers_ok oc og"
  shows "adc_same_shape s (deliver oc og ch data n s)"
proof (induction n arbitrary: s)
  case (Suc n)
  have step: "adc_same_shape s (case channel_handlers s ! ch of None \<Rightarrow> s | Some h \<Rightarrow> oc h data s)" for s
    using assms by (simp add: handlers_ok_def split: option.split)
  have step2: "adc_same_shape s (case global_handler s of None \<Rightarrow> s | Some g \<Rightarrow> og g ch data s)" for s
    using assms by (simp add: handlers_ok_def split: option.split)
  show ?case
    unfolding deliver.simps Let_def by (rule same_shape_trans [OF step same_shape_trans [OF step2 Suc.IH]])
qed simp

lemma set_channel_raw_same_shape:
  assumes "handlers_ok oc og"
  shows "adc_same_shape s (set_channel_raw oc og ch raw s)"
proof (cases "ch < channel_count")
  case True
  define t where "t = map_registers (store_sample ch (data_register ch (s\<lparr>raw_channels := (raw_channels s)[ch := min raw 4095]\<rparr>)))
    (s\<lparr>raw_channels := (raw_channels s)[ch := min raw 4095]\<rparr>)"
  have "adc_same_shape s t"
    by (auto simp: adc_same_shape_def t_def adc_wf_def map_registers_def store_sample_def adc_registers_def
      dest!: set_update_subset_insert [THEN subsetD])
  moreover have "set_channel_raw oc og ch raw s = t \<or> set_channel_raw oc og ch raw s = deliver oc og ch
      (data_register ch (s\<lparr>raw_channels := (raw_channels s)[ch := min raw 4095]\<rparr>)) isr_repeats_per_sample t"
    using True by (auto simp: set_channel_raw_def publish_sample_def t_def Let_def)
  ultimately show ?thesis
    using same_shape_trans deliver_same_shape [OF assms] by metis
qed (simp add: set_channel_raw_def)

lemma set_level_keeps:
  "set_level p high m = Some m' \<Longrightarrow> length (gpio m') = length (gpio m) \<and> adc m' = adc m"
  by (auto simp: set_level_def Let_def split: if_splits)

lemma drive_endstops_keeps:
  "drive_endstops a seen es m = Some m' \<Longrightarrow> length (gpio m') = length (gpio m) \<and> adc m' = adc m"
proof (induction es arbitrary: seen m)
  case (Cons owner es)
  then show ?case
    by (fastforce split: if_splits prod.splits simp: bind_eq_Some_conv dest: set_level_keeps)
qed simp

lemma drive_signal_keeps:
  "drive_signal b active m = Some m' \<Longrightarrow> length (gpio m') = length (gpio m) \<and> adc m' = adc m"
  by (auto simp: drive_signal_def split: if_splits dest: set_level_keeps)

lemma signals_drive_keeps:
  "signals_drive model contacts detector m = Some m' \<Longrightarrow> length (gpio m') = length (gpio m) \<and> adc m' = adc m"
  by (auto simp: signals_drive_def Let_def bind_eq_Some_conv dest!: drive_signal_keeps)

lemma m_mcu_simps [simp]:
  "m_mcu (put_mcu m s) = m" "m_axes (put_mcu m s) = m_axes s" "m_pwm (put_mcu m s) = m_pwm s" "m_rises (put_mcu m s) = m_rises s"
  "m_alarms (put_mcu m s) = m_alarms s" "m_led (put_mcu m s) = m_led s" "m_scene (put_mcu m s) = m_scene s"
  "m_mcu (m_axes_update f s) = m_mcu s" "m_mcu (m_rises_update h s) = m_mcu s" "m_mcu (rotary_installed_update g s) = m_mcu s"
  "m_mcu (m_scene_update k s) = m_mcu s"
  by (simp_all add: m_mcu_def put_mcu_def)

lemma machine_wf_put_mcu:
  assumes "machine_wf s" "length (gpio m) = length (gpio (m_mcu s))" "adc m = adc (m_mcu s)"
  shows "machine_wf (put_mcu m s)"
proof -
  have "adc_wf (m_adc (put_mcu m s))"
    using assms(1,3) by (simp add: machine_wf_def put_mcu_def adc_wf_def adc_registers_def m_mcu_def)
  moreover have "endstops_wired a m \<longleftrightarrow> endstops_wired a (m_mcu s)" "valid_pin m p \<longleftrightarrow> valid_pin (m_mcu s) p" for a p
    using assms(2) by (simp_all add: endstops_wired_def valid_pin_def)
  ultimately show ?thesis
    using assms(1,2) by (simp add: machine_wf_def)
qed

lemma machine_wf_pins: "machine_wf s \<Longrightarrow> unat (pin_port p) < 5 \<Longrightarrow> unat (pin_number p) < 32 \<Longrightarrow> valid_pin (m_mcu s) p"
  by (simp add: machine_wf_def valid_pin_def)

lemma set_gpio_input_wf:
  assumes "machine_wf s" "valid_pin (m_mcu s) p"
  obtains s' where "set_gpio_input p high s = Some s'" "machine_wf s'" "m_axes s' = m_axes s"
    "\<And>q. valid_pin (m_mcu s) q \<Longrightarrow> machine_level q s' = (if q = p then Some high else machine_level q s)"
proof -
  obtain m' where m': "set_level p high (m_mcu s) = Some m'"
    "\<And>q. valid_pin (m_mcu s) q \<Longrightarrow> pin_level q m' = (if q = p then Some high else pin_level q (m_mcu s))"
    using set_level_valid [OF assms(2)] by metis
  have "machine_wf (put_mcu m' s)"
    using set_level_keeps [OF m'(1)] by (intro machine_wf_put_mcu [OF assms(1)]) auto
  then show thesis
    using m' by (intro that [of "put_mcu m' s"]) (simp_all add: set_gpio_input_def machine_level_def)
qed

lemma machine_level_total: "valid_pin (m_mcu s) p \<Longrightarrow> \<exists>b. machine_level p s = Some b"
  by (simp add: machine_level_def pin_level_def valid_pin_def)

lemma set_adc_input_wf [inv_intros]:
  assumes "handlers_ok oc og" "machine_wf s"
  shows "machine_wf (set_adc_input oc og ch raw s)"
proof -
  have sh: "adc_same_shape (m_adc s) (set_channel_raw oc og ch raw (m_adc s))"
    by (rule set_channel_raw_same_shape [OF assms(1)])
  have "length (gpio (m_mcu (set_adc_input oc og ch raw s))) = length (gpio (m_mcu s))"
    using sh by (simp add: set_adc_input_def m_mcu_def adc_same_shape_def)
  then have "endstops_wired a (m_mcu (set_adc_input oc og ch raw s)) \<longleftrightarrow> endstops_wired a (m_mcu s)"
    "valid_pin (m_mcu (set_adc_input oc og ch raw s)) p \<longleftrightarrow> valid_pin (m_mcu s) p" for a p
    by (simp_all add: endstops_wired_def valid_pin_def)
  with sh assms(2) show ?thesis
    by (simp add: machine_wf_def) (simp add: set_adc_input_def m_mcu_def adc_same_shape_def)
qed

lemma set_temperature_wf [inv_intros]:
  "handlers_ok oc og \<Longrightarrow> machine_wf s \<Longrightarrow> machine_wf (set_temperature oc og sensor celsius s)"
  by (simp add: set_temperature_def Let_def inv_intros)

lemma new_axis_total:
  assumes "valid_pin m (cfg_step_pin c)" "valid_pin m (cfg_direction_pin c)" "cfg_endstops c = []"
  shows "\<exists>a. new_axis c m = Some (a, m) \<and> endstops a = []"
  using assms by (simp add: new_axis_def pin_level_def valid_pin_def update_endstop_pin_def Let_def)

lemma add_step_dir_axis_wf:
  assumes "machine_wf s" "valid_pin (m_mcu s) step" "valid_pin (m_mcu s) dir"
  shows "\<exists>s'. add_step_dir_axis step dir invert s = Some (length (m_axes s), s') \<and> machine_wf s'"
proof -
  obtain a where a: "new_axis (plain_axis_config step dir invert) (m_mcu s) = Some (a, m_mcu s)" "endstops a = []"
    using new_axis_total [of "m_mcu s" "plain_axis_config step dir invert"] assms(2,3) by (auto simp: plain_axis_config_def)
  have "machine_wf (put_mcu (m_mcu s) (s\<lparr>m_axes := m_axes s @ [a]\<rparr>))"
    using assms(1) a(2) by (intro machine_wf_put_mcu) (auto simp: machine_wf_def endstops_wired_def m_mcu_def)
  then show ?thesis
    by (simp add: add_step_dir_axis_def add_axis_def a)
qed

lemma set_motor_connected_keeps:
  assumes "set_motor_connected c a m = Some (a', m')"
  shows "endstops a' = endstops a \<and> length (gpio m') = length (gpio m) \<and> adc m' = adc m"
  using assms drive_endstops_keeps by (auto simp: set_motor_connected_def update_endstop_pin_def Let_def)

lemma set_rotary_wf:
  assumes "machine_wf s"
  shows "\<exists>s'. set_rotary_accessory_installed installed s = Some s' \<and> machine_wf s'"
proof (cases "length (m_axes s) > 3")
  case True
  let ?a = "(m_axes s ! 3)\<lparr>motor_connected := installed\<rparr>"
  have "endstops_wired (m_axes s ! 3) (m_mcu s)"
    using assms True by (simp add: machine_wf_def)
  then have "endstops_wired ?a (m_mcu s)" by (simp add: endstops_wired_def)
  then obtain m' where m': "update_endstop_pin ?a (m_mcu s) = Some m'"
    using update_endstop_total by metis
  have keeps: "length (gpio m') = length (gpio (m_mcu s)) \<and> adc m' = adc (m_mcu s)"
    using drive_endstops_keeps m' by (metis update_endstop_pin_def)
  have "\<forall>a \<in> set ((m_axes s)[3 := ?a]). endstops_wired a (m_mcu s)"
    using assms \<open>endstops_wired ?a (m_mcu s)\<close> by (auto simp: machine_wf_def dest!: set_update_subset_insert [THEN subsetD])
  then have "machine_wf (s\<lparr>rotary_installed := installed, m_axes := (m_axes s)[3 := ?a]\<rparr>)"
    using assms by (simp add: machine_wf_def m_mcu_def)
  with keeps have "machine_wf (put_mcu m' (s\<lparr>rotary_installed := installed, m_axes := (m_axes s)[3 := ?a]\<rparr>))"
    by (intro machine_wf_put_mcu) (simp_all add: m_mcu_def)
  then show ?thesis
    using True m' by (simp add: set_rotary_accessory_installed_def registry_set_motor_connected_def checked_def set_motor_connected_def)
qed (use assms in \<open>simp add: set_rotary_accessory_installed_def machine_wf_def m_mcu_def\<close>)

text \<open>A machine as it is before its first reset.\<close>

definition blank_machine :: "'w \<Rightarrow> ('h, 'w) machine" where
  "blank_machine w = \<lparr>m_adc = \<lparr>adc_mcu = lpc_reset, raw_channels = replicate 8 0, channel_handlers = replicate 8 None,
       global_handler = None, active_adc = False, adc_clk_freq = 0, driver_isr = replicate 8 None, driver_g_isr = None,
       driver_m_isr = None, adc_firmware = w\<rparr>,
     m_axes = [], m_pwm = pwm_reset, m_rises = rises_reset, m_led = led_reset, m_spindle = spindle_reset, m_scene = new_scene,
     m_alarms = alarms_clear, rotary_installed = False\<rparr>"

lemma blank_machine_wf: "machine_wf (blank_machine w)"
  by (simp add: machine_wf_def blank_machine_def m_mcu_def adc_wf_def adc_registers_def lpc_reset_def gpio_block_reset_def
    pwm_reset_def rises_reset_def peripheral_pins_def alarms_clear_def motor_alarm_count_def led_reset_def)

text \<open>A reset never throws and leaves a machine of the right shape, whatever it was before.\<close>

lemma scene_clear_total:
  assumes "length (gpio m) = 5"
  shows "\<exists>sc m'. scene_clear (s, m) = Some (sc, m') \<and> length (gpio m') = 5 \<and> adc m' = adc m"
proof -
  obtain contacts probe where "probe_update origin (spindle_tool (rack_clear (scene_rack s))) (probe_clear (scene_probe s)) = (contacts, probe)"
    by fastforce
  moreover have "\<exists>m'. signals_drive CarveraC1 contacts d m = Some m'" for d
    using drive_all_pins [of "scene_signals CarveraC1 contacts d" m] scene_pins_valid [OF _ assms] scene_pins_distinct
    by (fastforce simp: signals_drive_all)
  ultimately show ?thesis
    using assms signals_drive_keeps by (fastforce simp: scene_clear_def update_probe_contacts_def)
qed

lemma machine_reset_wf:
  assumes "handlers_ok oc og"
  shows "\<exists>s'. machine_reset oc og preserve s = Some s' \<and> machine_wf s' \<and> m_axes s' = []"
proof -
  define s0 where "s0 = (let s = put_mcu lpc_reset s;
          s = s\<lparr>m_pwm := pwm_reset, m_rises := rises_reset, m_led := led_reset, m_spindle := spindle_reset, m_axes := [],
                m_alarms := alarms_clear\<rparr> in s\<lparr>m_adc := adc_reset (m_adc s)\<rparr>)"
  have wf0: "machine_wf s0" "m_axes s0 = []"
    by (simp_all add: s0_def Let_def machine_wf_def put_mcu_def m_mcu_def adc_wf_def adc_reset_def adc_registers_def
      channel_count_def lpc_reset_def gpio_block_reset_def pwm_reset_def rises_reset_def peripheral_pins_def
      alarms_clear_def motor_alarm_count_def led_reset_def)
  have "\<exists>s1. context_reset preserve s = Some s1 \<and> machine_wf s1 \<and> m_axes s1 = []"
  proof (cases preserve)
    case True
    then show ?thesis using wf0 by (simp add: context_reset_def s0_def Let_def)
  next
    case False
    have "length (gpio (m_mcu s0)) = 5" using wf0(1) by (simp add: machine_wf_def)
    then obtain sc m' where c: "scene_clear (m_scene s0, m_mcu s0) = Some (sc, m')" "length (gpio m') = length (gpio (m_mcu s0))"
      "adc m' = adc (m_mcu s0)"
      using scene_clear_total by metis
    have "machine_wf (s0\<lparr>m_scene := sc\<rparr>)" using wf0(1) by (simp add: machine_wf_def)
    then have "machine_wf (put_mcu m' (s0\<lparr>m_scene := sc\<rparr>))" using c by (intro machine_wf_put_mcu) simp_all
    moreover have "context_reset preserve s = Some (put_mcu m' (s0\<lparr>m_scene := sc\<rparr>))"
      using False c(1) unfolding context_reset_def s0_def Let_def by simp
    ultimately show ?thesis using wf0(2) by simp
  qed
  then obtain s1 where s1: "context_reset preserve s = Some s1" "machine_wf s1" "m_axes s1 = []" by blast
  let ?t = "set_temperature oc og Power_Sensor 25 (set_temperature oc og Spindle_Sensor 25 s1)"
  have "machine_wf ?t" using assms s1(2) by (intro inv_intros)
  then have "machine_wf (?t\<lparr>rotary_installed := False\<rparr>)" by (simp add: machine_wf_def)
  moreover have "m_axes ?t = []" using s1(3) by (simp add: set_temperature_def set_adc_input_def Let_def)
  ultimately show ?thesis using s1(1) by (simp add: machine_reset_def)
qed

end
