(* ===== verification/Runtime_Controls.thy ===== *)
theory Runtime_Controls
  imports Machine_Simulator
begin

text \<open>
  The runtime's view of pins the firmware configures (\<^verbatim>\<open>src/runtime/runtime_pin_config.cpp\<close>), the physical
  controls on top of them (\<^verbatim>\<open>src/runtime/runtime_physical_controls.cpp\<close>), the wiring of the motor alarms
  (\<^verbatim>\<open>src/runtime/runtime_motor_alarm_wiring.cpp\<close>), the refresh of a temperature reading
  (\<^verbatim>\<open>src/runtime/runtime_temperature.cpp\<close>) and the tool changer's configuration
  (\<^verbatim>\<open>src/runtime/runtime_atc_config.cpp\<close>).

  The firmware is linked in from outside the repository.  Its kernel is a value of type \<open>'k\<close>, and the record
  \<open>firmware\<close> holds what the runtime calls of it: booting, the configuration, parsing and reading a \<^verbatim>\<open>Pin\<close>, the
  public data of its modules, its events and its main loop.  An operation returns \<open>None\<close> when a pin's port
  does not exist.
\<close>

section \<open>The firmware\<close>

record firm_pin =
  fp_connected :: bool
  fp_port :: u8
  fp_number :: u8
  fp_inverting :: bool

record ('h, 'w, 'k) simulation =
  machine :: "('h, 'w) machine"
  kernel :: 'k

datatype firmware_machine = CARVERA | CARVERA_AIR | Z1 | Z1PRO | Other_Machine

datatype machine_switch = Light | Vacuum | SpindleFan | PowerFan | ToolSensor | ProbeCharger | Air | Beep

record switch_state =
  switch_available :: bool
  switch_on :: bool
  switch_value :: real

record ('h, 'w, 'k) firmware =
  fw_checksum :: "string \<Rightarrow> u16"
  fw_booted :: "'k \<Rightarrow> bool"
  fw_first_boot :: "('h, 'w, 'k) simulation \<Rightarrow> ('h, 'w, 'k) simulation"
  fw_model :: "'k \<Rightarrow> machine_model"
  fw_has_config :: "'k \<Rightarrow> bool"
  fw_as_string :: "'k \<Rightarrow> u16 list \<Rightarrow> string \<Rightarrow> string"
  fw_as_number :: "'k \<Rightarrow> u16 list \<Rightarrow> real \<Rightarrow> real"
  fw_pin :: "string \<Rightarrow> firm_pin"
  fw_pin_get :: "firm_pin \<Rightarrow> lpc1768 \<Rightarrow> bool"
  fw_has_robot :: "'k \<Rightarrow> bool"
  fw_factory :: "'k \<Rightarrow> firmware_machine option"
  fw_eeprom_tool :: "'k \<Rightarrow> int option"
  fw_switch_checksum :: "machine_switch \<Rightarrow> u16"
  fw_set_switch :: "u16 \<Rightarrow> bool \<Rightarrow> real option \<Rightarrow> ('h, 'w, 'k) simulation \<Rightarrow> bool \<times> ('h, 'w, 'k) simulation"
  fw_get_switch :: "u16 \<Rightarrow> ('h, 'w, 'k) simulation \<Rightarrow> (bool \<times> real) option"
  fw_temperature_enabled :: "temperature_sensor \<Rightarrow> 'k \<Rightarrow> bool"
  fw_temperature :: "temperature_sensor \<Rightarrow> ('h, 'w, 'k) simulation \<Rightarrow> real option"
  fw_timer2_irq :: "('h, 'w, 'k) simulation \<Rightarrow> ('h, 'w, 'k) simulation"
  fw_second_tick :: "('h, 'w, 'k) simulation \<Rightarrow> ('h, 'w, 'k) simulation"
  fw_main_loop :: "nat \<Rightarrow> ('h, 'w, 'k) simulation \<Rightarrow> ('h, 'w, 'k) simulation"
  fw_on_channel :: "('h, 'w) on_channel"
  fw_on_global :: "('h, 'w) on_global"

text \<open>\<^verbatim>\<open>RuntimeBootSession::boot\<close> returns at once when there is a kernel.\<close>

definition session_boot :: "('h, 'w, 'k) firmware \<Rightarrow> ('h, 'w, 'k) simulation \<Rightarrow> ('h, 'w, 'k) simulation" where
  "session_boot fw s = (if fw_booted fw (kernel s) then s else fw_first_boot fw s)"

definition machine_op :: "(('h, 'w) machine \<Rightarrow> ('h, 'w) machine option) \<Rightarrow> ('h, 'w, 'k) simulation \<Rightarrow> ('h, 'w, 'k) simulation option" where
  "machine_op f s = map_option (\<lambda>m. s\<lparr>machine := m\<rparr>) (f (machine s))"

section \<open>Configured pins\<close>

definition firm_pin_address :: "firm_pin \<Rightarrow> pin_address" where
  "firm_pin_address p = \<lparr>pin_port = fp_port p, pin_number = fp_number p\<rparr>"

definition raw_level_for_pin_get :: "firm_pin \<Rightarrow> bool \<Rightarrow> bool" where
  "raw_level_for_pin_get p logical \<longleftrightarrow> (fp_inverting p \<noteq> logical)"

definition configured_pin :: "('h, 'w, 'k) firmware \<Rightarrow> 'k \<Rightarrow> u16 list \<Rightarrow> string \<Rightarrow> firm_pin" where
  "configured_pin fw k cs def = fw_pin fw (if fw_has_config fw k then fw_as_string fw k cs def else def)"

definition drive_pin :: "firm_pin \<Rightarrow> bool \<Rightarrow> ('h, 'w, 'k) simulation \<Rightarrow> ('h, 'w, 'k) simulation option" where
  "drive_pin p logical s =
     (if fp_connected p then machine_op (set_gpio_input (firm_pin_address p) (raw_level_for_pin_get p logical)) s else Some s)"

definition drive_configured_input :: "('h, 'w, 'k) firmware \<Rightarrow> u16 list \<Rightarrow> string \<Rightarrow> bool \<Rightarrow> ('h, 'w, 'k) simulation \<Rightarrow> ('h, 'w, 'k) simulation option" where
  "drive_configured_input fw cs def logical s = drive_pin (configured_pin fw (kernel s) cs def) logical s"

definition pin_reading :: "('h, 'w, 'k) firmware \<Rightarrow> firm_pin \<Rightarrow> ('h, 'w, 'k) simulation \<Rightarrow> bool" where
  "pin_reading fw p s = fw_pin_get fw p (m_mcu (machine s))"

definition read_configured_input :: "('h, 'w, 'k) firmware \<Rightarrow> u16 list \<Rightarrow> string \<Rightarrow> ('h, 'w, 'k) simulation \<Rightarrow> bool" where
  "read_configured_input fw cs def s =
     (let p = configured_pin fw (kernel s) cs def in fp_connected p \<and> pin_reading fw p s)"

text \<open>The value, and \<^verbatim>\<open>available\<close>, which is only ever set.\<close>

definition read_configured_output :: "('h, 'w, 'k) firmware \<Rightarrow> u16 list \<Rightarrow> string \<Rightarrow> bool \<Rightarrow> ('h, 'w, 'k) simulation \<Rightarrow> bool \<times> bool" where
  "read_configured_output fw cs def avail s =
     (let p = configured_pin fw (kernel s) cs def
      in if \<not> fp_connected p then (False, avail) else (pin_reading fw p s, True))"

section \<open>Physical inputs\<close>

definition actuator_names :: "string list" where
  "actuator_names = [''alpha'', ''beta'', ''gamma'', ''delta'', ''epsilon'']"

definition limit_checksum :: "('h, 'w, 'k) firmware \<Rightarrow> endstop_side \<Rightarrow> nat \<Rightarrow> u16" where
  "limit_checksum fw sd axis =
     fw_checksum fw (actuator_names ! axis @ (if sd = Min_Side then ''_min_endstop'' else ''_max_endstop''))"

definition motor_alarm_checksum :: "('h, 'w, 'k) firmware \<Rightarrow> nat \<Rightarrow> u16" where
  "motor_alarm_checksum fw axis = fw_checksum fw (actuator_names ! axis @ ''_motor_alarm_pin'')"

definition set_probe_inputs :: "('h, 'w, 'k) firmware \<Rightarrow> bool \<Rightarrow> bool \<Rightarrow> ('h, 'w, 'k) simulation \<Rightarrow> ('h, 'w, 'k) simulation option" where
  "set_probe_inputs fw probe tool_setter s =
     (let s = session_boot fw s; p = board_profile_of (fw_model fw (kernel s)) in do {
        s \<leftarrow> machine_op (set_gpio_input (signal_pin (physical_probe p)) (signal_level (physical_probe p) probe)) s;
        machine_op (set_gpio_input (signal_pin (physical_tool_setter p)) (signal_level (physical_tool_setter p) tool_setter)) s })"

definition probe_inputs :: "('h, 'w, 'k) firmware \<Rightarrow> ('h, 'w, 'k) simulation \<Rightarrow> ((bool \<times> bool) \<times> ('h, 'w, 'k) simulation) option" where
  "probe_inputs fw s =
     (let s = session_boot fw s; p = board_profile_of (fw_model fw (kernel s)) in do {
        probe \<leftarrow> machine_level (signal_pin (physical_probe p)) (machine s);
        setter \<leftarrow> machine_level (signal_pin (physical_tool_setter p)) (machine s);
        Some ((probe = signal_level (physical_probe p) True, setter = signal_level (physical_tool_setter p) True), s) })"

definition cover_pin :: "('h, 'w, 'k) firmware \<Rightarrow> 'k \<Rightarrow> firm_pin" where
  "cover_pin fw k = fw_pin fw (fw_as_string fw k [fw_checksum fw ''cover_endstop''] (default_cover_pin (board_profile_of (fw_model fw k))))"

definition set_cover_open :: "('h, 'w, 'k) firmware \<Rightarrow> bool \<Rightarrow> ('h, 'w, 'k) simulation \<Rightarrow> ('h, 'w, 'k) simulation option" where
  "set_cover_open fw opened s =
     (let s = session_boot fw s
      in if \<not> fw_has_config fw (kernel s) then Some s else drive_pin (cover_pin fw (kernel s)) (\<not> opened) s)"

definition cover_open :: "('h, 'w, 'k) firmware \<Rightarrow> ('h, 'w, 'k) simulation \<Rightarrow> bool \<times> ('h, 'w, 'k) simulation" where
  "cover_open fw s =
     (let s = session_boot fw s; p = cover_pin fw (kernel s)
      in (fw_has_config fw (kernel s) \<and> fp_connected p \<and> \<not> pin_reading fw p s, s))"

definition set_limit_switch :: "('h, 'w, 'k) firmware \<Rightarrow> nat \<Rightarrow> endstop_side \<Rightarrow> bool \<Rightarrow> ('h, 'w, 'k) simulation \<Rightarrow> ('h, 'w, 'k) simulation option" where
  "set_limit_switch fw axis sd triggered s =
     (let s = session_boot fw s
      in if \<not> fw_has_config fw (kernel s) \<or> axis \<ge> length actuator_names then Some s
         else drive_configured_input fw [limit_checksum fw sd axis] ''nc'' triggered s)"

definition limit_switch :: "('h, 'w, 'k) firmware \<Rightarrow> nat \<Rightarrow> endstop_side \<Rightarrow> ('h, 'w, 'k) simulation \<Rightarrow> bool \<times> ('h, 'w, 'k) simulation" where
  "limit_switch fw axis sd s =
     (let s = session_boot fw s
      in (fw_has_config fw (kernel s) \<and> axis < length actuator_names \<and>
          read_configured_input fw [limit_checksum fw sd axis] ''nc'' s, s))"

definition main_button_reading :: "('h, 'w, 'k) firmware \<Rightarrow> ('h, 'w, 'k) simulation \<Rightarrow> bool" where
  "main_button_reading fw s = read_configured_input fw [fw_checksum fw ''main_button_pin'']
     (default_main_button_pin (board_profile_of (fw_model fw (kernel s)))) s"

definition e_stop_reading :: "('h, 'w, 'k) firmware \<Rightarrow> ('h, 'w, 'k) simulation \<Rightarrow> bool" where
  "e_stop_reading fw s = read_configured_input fw [fw_checksum fw ''e_stop_pin'']
     (default_e_stop_pin (board_profile_of (fw_model fw (kernel s)))) s"

definition set_main_button_pressed :: "('h, 'w, 'k) firmware \<Rightarrow> bool \<Rightarrow> ('h, 'w, 'k) simulation \<Rightarrow> ('h, 'w, 'k) simulation option" where
  "set_main_button_pressed fw pressed s =
     (let s = session_boot fw s in drive_configured_input fw [fw_checksum fw ''main_button_pin'']
        (default_main_button_pin (board_profile_of (fw_model fw (kernel s)))) pressed s)"

definition set_e_stop_pressed :: "('h, 'w, 'k) firmware \<Rightarrow> bool \<Rightarrow> ('h, 'w, 'k) simulation \<Rightarrow> ('h, 'w, 'k) simulation option" where
  "set_e_stop_pressed fw pressed s =
     (let s = session_boot fw s in drive_configured_input fw [fw_checksum fw ''e_stop_pin'']
        (default_e_stop_pin (board_profile_of (fw_model fw (kernel s)))) pressed s)"

section \<open>Readings of the firmware\<close>

record front_panel =
  main_button_pressed :: bool
  e_stop_pressed :: bool
  panel_rails :: "bool \<times> bool"
  rgb_available :: bool
  rgb_red :: bool
  rgb_green :: bool
  rgb_blue :: bool
  led_strip_available :: bool
  led_segments :: "rgb_color list"

definition front_panel_state :: "('h, 'w, 'k) firmware \<Rightarrow> ('h, 'w, 'k) simulation \<Rightarrow> (front_panel \<times> ('h, 'w, 'k) simulation) option" where
  "front_panel_state fw s =
     (let s = session_boot fw s; p = board_profile_of (fw_model fw (kernel s));
          (r, avail) = read_configured_output fw [fw_checksum fw ''main_button_LED_R_pin''] (default_led_r_pin p) False s;
          (g, avail) = read_configured_output fw [fw_checksum fw ''main_button_LED_G_pin''] (default_led_g_pin p) avail s;
          (b, avail) = read_configured_output fw [fw_checksum fw ''main_button_LED_B_pin''] (default_led_b_pin p) avail s
      in map_option (\<lambda>rails.
           (\<lparr>main_button_pressed = main_button_reading fw s, e_stop_pressed = e_stop_reading fw s, panel_rails = rails,
             rgb_available = avail, rgb_red = r, rgb_green = g, rgb_blue = b,
             led_strip_available = (fw_model fw (kernel s) = CarveraAirCA1 \<and> strip_available (m_led (machine s))),
             led_segments = current_strip (m_led (machine s))\<rparr>, s))
           (power_rails (machine s)))"

definition no_switch :: switch_state where
  "no_switch = \<lparr>switch_available = False, switch_on = False, switch_value = 0\<rparr>"

definition set_switch_state :: "('h, 'w, 'k) firmware \<Rightarrow> machine_switch \<Rightarrow> bool \<Rightarrow> real option \<Rightarrow> ('h, 'w, 'k) simulation \<Rightarrow>
    bool \<times> ('h, 'w, 'k) simulation" where
  "set_switch_state fw name on v s = fw_set_switch fw (fw_switch_checksum fw name) on v (session_boot fw s)"

definition switch_state_of :: "('h, 'w, 'k) firmware \<Rightarrow> machine_switch \<Rightarrow> ('h, 'w, 'k) simulation \<Rightarrow> switch_state \<times> ('h, 'w, 'k) simulation" where
  "switch_state_of fw name s =
     (let s = session_boot fw s
      in (case fw_get_switch fw (fw_switch_checksum fw name) s of
            None \<Rightarrow> no_switch
          | Some (on, v) \<Rightarrow> \<lparr>switch_available = True, switch_on = on, switch_value = v\<rparr>, s))"

section \<open>Faults\<close>

definition set_motor_alarm :: "('h, 'w, 'k) firmware \<Rightarrow> nat \<Rightarrow> bool \<Rightarrow> ('h, 'w, 'k) simulation \<Rightarrow> ('h, 'w, 'k) simulation option" where
  "set_motor_alarm fw axis triggered s =
     (let s = session_boot fw s in machine_op (\<lambda>m. map_option (\<lambda>mcu. put_mcu mcu m) (alarms_drive axis triggered (m_alarms m) (m_mcu m))) s)"

definition motor_alarm :: "('h, 'w, 'k) firmware \<Rightarrow> nat \<Rightarrow> ('h, 'w, 'k) simulation \<Rightarrow> bool \<times> ('h, 'w, 'k) simulation" where
  "motor_alarm fw axis s =
     (let s = session_boot fw s; p = fw_pin fw (fw_as_string fw (kernel s) [motor_alarm_checksum fw axis] ''nc'')
      in (fw_has_config fw (kernel s) \<and> axis < length actuator_names \<and> fp_connected p \<and> pin_reading fw p s, s))"

definition spindle_alarm_pin :: "('h, 'w, 'k) firmware \<Rightarrow> 'k \<Rightarrow> firm_pin" where
  "spindle_alarm_pin fw k = configured_pin fw k [fw_checksum fw ''spindle'', fw_checksum fw ''alarm_pin''] ''nc''"

definition set_spindle_alarm :: "('h, 'w, 'k) firmware \<Rightarrow> bool \<Rightarrow> ('h, 'w, 'k) simulation \<Rightarrow> (bool \<times> ('h, 'w, 'k) simulation) option" where
  "set_spindle_alarm fw triggered s =
     (let s = session_boot fw s; p = spindle_alarm_pin fw (kernel s)
      in if \<not> fw_has_config fw (kernel s) \<or> \<not> fp_connected p then Some (False, s)
         else map_option (Pair True) (drive_pin p triggered s))"

definition spindle_alarm :: "('h, 'w, 'k) firmware \<Rightarrow> ('h, 'w, 'k) simulation \<Rightarrow> bool option \<times> ('h, 'w, 'k) simulation" where
  "spindle_alarm fw s =
     (let s = session_boot fw s; p = spindle_alarm_pin fw (kernel s)
      in (if \<not> fw_has_config fw (kernel s) \<or> \<not> fp_connected p then None else Some (pin_reading fw p s), s))"

section \<open>Temperatures\<close>

definition kMaximumRefreshTicks :: nat where "kMaximumRefreshTicks = 4096"

primrec refresh_ticks :: "('h, 'w, 'k) firmware \<Rightarrow> temperature_sensor \<Rightarrow> real \<Rightarrow> nat \<Rightarrow> ('h, 'w, 'k) simulation \<Rightarrow> ('h, 'w, 'k) simulation" where
  "refresh_ticks fw sensor expected 0 s = s"
| "refresh_ticks fw sensor expected (Suc n) s =
     (let s = fw_timer2_irq fw s
      in case fw_temperature fw sensor s of
           Some t \<Rightarrow> if \<bar>t - expected\<bar> \<le> 1 / 2 then s else refresh_ticks fw sensor expected n s
         | None \<Rightarrow> refresh_ticks fw sensor expected n s)"

definition refresh_temperature_reading :: "('h, 'w, 'k) firmware \<Rightarrow> temperature_sensor \<Rightarrow> real \<Rightarrow> ('h, 'w, 'k) simulation \<Rightarrow> ('h, 'w, 'k) simulation" where
  "refresh_temperature_reading fw sensor expected s =
     (if \<not> fw_temperature_enabled fw sensor (kernel s) then s else refresh_ticks fw sensor expected kMaximumRefreshTicks s)"

definition fan_switch_for_temperature :: "temperature_sensor \<Rightarrow> machine_switch" where
  "fan_switch_for_temperature sensor = (if sensor = Power_Sensor then PowerFan else SpindleFan)"

definition default_fan_value_for_temperature :: "temperature_sensor \<Rightarrow> real" where
  "default_fan_value_for_temperature sensor = (if sensor = Power_Sensor then 30 else 50)"

definition inject_temperature :: "('h, 'w, 'k) firmware \<Rightarrow> temperature_sensor \<Rightarrow> real \<Rightarrow> ('h, 'w, 'k) simulation \<Rightarrow> ('h, 'w, 'k) simulation" where
  "inject_temperature fw sensor celsius s =
     (let s = session_boot fw s;
          s = s\<lparr>machine := set_temperature (fw_on_channel fw) (fw_on_global fw) sensor celsius (machine s)\<rparr>;
          s = refresh_temperature_reading fw sensor celsius s;
          s = fw_second_tick fw s;
          fan = fan_switch_for_temperature sensor;
          (st, s) = switch_state_of fw fan s;
          s = (if switch_available st \<and> switch_on st \<and> switch_value st \<le> 0
               then snd (set_switch_state fw fan True (Some (default_fan_value_for_temperature sensor)) s) else s)
      in fw_main_loop fw 1 s)"

section \<open>Motor alarms and the tool changer\<close>

definition configure_alarms :: "('h, 'w, 'k) firmware \<Rightarrow> 'k \<Rightarrow> alarm_signal list" where
  "configure_alarms fw k = fold (\<lambda>axis as.
       (let p = configured_pin fw k [motor_alarm_checksum fw axis] ''nc''
        in if \<not> fp_connected p then as else alarms_set axis (firm_pin_address p) (raw_level_for_pin_get p True) as))
     [0..<motor_alarm_count] alarms_clear"

definition model_from_factory :: "firmware_machine \<Rightarrow> machine_model" where
  "model_from_factory f = (case f of CARVERA_AIR \<Rightarrow> CarveraAirCA1 | Z1 \<Rightarrow> MakeraZ1 | Z1PRO \<Rightarrow> MakeraZ1Pro | _ \<Rightarrow> CarveraC1)"

definition active_tool_from_eeprom :: "('h, 'w, 'k) firmware \<Rightarrow> 'k \<Rightarrow> bool \<Rightarrow> int option" where
  "active_tool_from_eeprom fw k reconcile = (if \<not> reconcile then None else fw_eeprom_tool fw k)"

definition coordinate_number :: "('h, 'w, 'k) firmware \<Rightarrow> 'k \<Rightarrow> string \<Rightarrow> real \<Rightarrow> real" where
  "coordinate_number fw k name def = fw_as_number fw k [fw_checksum fw ''coordinate'', fw_checksum fw name] def"

definition c1_tool_setter_box :: "real \<Rightarrow> real \<Rightarrow> real \<Rightarrow> box" where
  "c1_tool_setter_box probe_x probe_y rack_z =
     (let trigger_z = rack_z + 8 - 1 in make_box (probe_x - 6) (probe_y - 6) (trigger_z - 2) (probe_x + 6) (probe_y + 6) trigger_z)"

definition read_config :: "('h, 'w, 'k) firmware \<Rightarrow> 'k \<Rightarrow> bool \<Rightarrow> physical_atc_config" where
  "read_config fw k reconcile =
     (let c = default_atc_config;
          c = (case fw_factory fw k of None \<Rightarrow> c | Some f \<Rightarrow> c\<lparr>atc_model := model_from_factory f\<rparr>);
          c = c\<lparr>persisted_active_tool := active_tool_from_eeprom fw k reconcile\<rparr>
      in if \<not> fw_has_config fw k \<or> \<not> fw_has_robot fw k \<or> fw_factory fw k = None then c
         else if atc_model c \<noteq> CarveraC1
         then (case geometry_for (atc_model c) of None \<Rightarrow> c | Some g \<Rightarrow> c\<lparr>cfg_tool_setter_box := Some (geometry_tool_setter g)\<rparr>)
         else if fw_factory fw k \<noteq> Some CARVERA then c
         else let c = c\<lparr>atc_available := True, anchor1_x := coordinate_number fw k ''anchor1_x'' (- 359),
                        anchor1_y := coordinate_number fw k ''anchor1_y'' (- 234),
                        toolrack_offset_x := coordinate_number fw k ''toolrack_offset_x'' 356,
                        toolrack_offset_y := coordinate_number fw k ''toolrack_offset_y'' 0,
                        toolrack_z := coordinate_number fw k ''toolrack_z'' (- 105),
                        cfg_clamp_action_mm := fw_as_number fw k [fw_checksum fw ''atc'', fw_checksum fw ''action_mm''] 1\<rparr>;
                  probe_x = coordinate_number fw k ''probe_mcs_x'' (anchor1_x c + toolrack_offset_x c);
                  probe_y = coordinate_number fw k ''probe_mcs_y'' (anchor1_y c + toolrack_offset_y c + 180)
              in c\<lparr>cfg_tool_setter_box := Some (c1_tool_setter_box probe_x probe_y (toolrack_z c))\<rparr>)"

definition configure_physical_scene :: "('h, 'w, 'k) firmware \<Rightarrow> 'k \<Rightarrow> bool \<Rightarrow> physical_scene \<Rightarrow> physical_scene" where
  "configure_physical_scene fw k reconcile = configure_atc (read_config fw k reconcile)"

section \<open>What is set is read back\<close>

text \<open>\<^verbatim>\<open>Pin::get()\<close> returns the inversion XOR the level of the pin.\<close>

definition pins_read :: "('h, 'w, 'k) firmware \<Rightarrow> bool" where
  "pins_read fw \<longleftrightarrow> (\<forall>p m high. pin_level (firm_pin_address p) m = Some high \<longrightarrow> fw_pin_get fw p m = (fp_inverting p \<noteq> high))"

definition usable :: "firm_pin \<Rightarrow> bool" where
  "usable p \<longleftrightarrow> fp_connected p \<and> unat (fp_port p) < 5 \<and> unat (fp_number p) < 32"

lemma drive_pin_reads:
  assumes "machine_wf (machine s)" "pins_read fw" "usable p"
  obtains s' where "drive_pin p v s = Some s'" "kernel s' = kernel s" "machine_wf (machine s')" "pin_reading fw p s' = v"
proof -
  have valid: "valid_pin (m_mcu (machine s)) (firm_pin_address p)"
    using assms(1,3) by (intro machine_wf_pins) (simp_all add: usable_def firm_pin_address_def)
  obtain m' where m': "set_gpio_input (firm_pin_address p) (raw_level_for_pin_get p v) (machine s) = Some m'" "machine_wf m'"
    "machine_level (firm_pin_address p) m' = Some (raw_level_for_pin_get p v)"
    using set_gpio_input_wf [OF assms(1) valid] valid by metis
  have "fw_pin_get fw p (m_mcu m') = v"
    using assms(2) m'(3) by (auto simp: pins_read_def machine_level_def raw_level_for_pin_get_def)
  then show thesis
    using that [of "s\<lparr>machine := m'\<rparr>"] m' assms(3) by (simp add: drive_pin_def usable_def machine_op_def pin_reading_def)
qed

lemma booted_session [simp]: "fw_booted fw (kernel s) \<Longrightarrow> session_boot fw s = s"
  by (simp add: session_boot_def)

text \<open>Every board has a probe and a tool setter pin, and they differ.\<close>

lemma probe_pins:
  "machine_wf m \<Longrightarrow> valid_pin (m_mcu m) (signal_pin (physical_probe (board_profile_of model)))"
  "machine_wf m \<Longrightarrow> valid_pin (m_mcu m) (signal_pin (physical_tool_setter (board_profile_of model)))"
  "signal_pin (physical_probe (board_profile_of model)) \<noteq> signal_pin (physical_tool_setter (board_profile_of model))"
  by (cases model; simp add: profile_defs Let_def valid_pin_def machine_wf_def)+

lemma signal_level_active: "(signal_level b v = signal_level b True) = v"
  by (auto simp: signal_level_def)

lemma probe_inputs_read_back:
  assumes "machine_wf (machine s)" "fw_booted fw (kernel s)"
  shows "\<exists>s'. set_probe_inputs fw probe setter s = Some s' \<and> machine_wf (machine s') \<and> kernel s' = kernel s \<and>
    probe_inputs fw s' = Some ((probe, setter), s')"
proof -
  let ?p = "board_profile_of (fw_model fw (kernel s))"
  obtain m1 where m1: "set_gpio_input (signal_pin (physical_probe ?p)) (signal_level (physical_probe ?p) probe) (machine s) = Some m1"
    "machine_wf m1" "machine_level (signal_pin (physical_probe ?p)) m1 = Some (signal_level (physical_probe ?p) probe)"
    using set_gpio_input_wf [OF assms(1) probe_pins(1) [OF assms(1)]] probe_pins(1) [OF assms(1)] by metis
  obtain m2 where m2: "set_gpio_input (signal_pin (physical_tool_setter ?p)) (signal_level (physical_tool_setter ?p) setter) m1 = Some m2"
    "machine_wf m2" "machine_level (signal_pin (physical_tool_setter ?p)) m2 = Some (signal_level (physical_tool_setter ?p) setter)"
    "machine_level (signal_pin (physical_probe ?p)) m2 = Some (signal_level (physical_probe ?p) probe)"
    using set_gpio_input_wf [OF m1(2) probe_pins(2) [OF m1(2)]] probe_pins(1,2) [OF m1(2)] probe_pins(3) m1(3) by metis
  show ?thesis
    using m1 m2 assms(2)
    by (intro exI [of _ "s\<lparr>machine := m2\<rparr>"])
      (simp add: set_probe_inputs_def probe_inputs_def machine_op_def Let_def signal_level_active)
qed

lemma inputs_read:
  assumes "machine_wf (machine s)" "fw_booted fw (kernel s)" "pins_read fw" "fw_has_config fw (kernel s)"
  shows "\<exists>s'. set_probe_inputs fw v w s = Some s' \<and> map_option fst (probe_inputs fw s') = Some (v, w)"
    and "usable (cover_pin fw (kernel s)) \<Longrightarrow> \<exists>s'. set_cover_open fw v s = Some s' \<and> fst (cover_open fw s') = v"
    and "axis < 5 \<Longrightarrow> usable (configured_pin fw (kernel s) [limit_checksum fw sd axis] ''nc'') \<Longrightarrow>
      \<exists>s'. set_limit_switch fw axis sd v s = Some s' \<and> fst (limit_switch fw axis sd s') = v"
    and "usable (configured_pin fw (kernel s) [fw_checksum fw ''main_button_pin''] (default_main_button_pin (board_profile_of (fw_model fw (kernel s))))) \<Longrightarrow>
      \<exists>s'. set_main_button_pressed fw v s = Some s' \<and> main_button_reading fw s' = v"
    and "usable (configured_pin fw (kernel s) [fw_checksum fw ''e_stop_pin''] (default_e_stop_pin (board_profile_of (fw_model fw (kernel s))))) \<Longrightarrow>
      \<exists>s'. set_e_stop_pressed fw v s = Some s' \<and> e_stop_reading fw s' = v"
    and "usable (spindle_alarm_pin fw (kernel s)) \<Longrightarrow>
      \<exists>s'. set_spindle_alarm fw v s = Some (True, s') \<and> fst (spindle_alarm fw s') = Some v"
proof -
  note reads = drive_pin_reads [OF assms(1,3)]
  note defs = set_cover_open_def cover_open_def set_limit_switch_def limit_switch_def set_main_button_pressed_def
    main_button_reading_def set_e_stop_pressed_def e_stop_reading_def drive_configured_input_def
    read_configured_input_def set_spindle_alarm_def spindle_alarm_def Let_def actuator_names_def
  show "\<exists>s'. set_probe_inputs fw v w s = Some s' \<and> map_option fst (probe_inputs fw s') = Some (v, w)"
    using probe_inputs_read_back [OF assms(1,2)] by fastforce
  show "\<exists>s'. set_cover_open fw v s = Some s' \<and> fst (cover_open fw s') = v" if u: "usable (cover_pin fw (kernel s))"
    using reads [OF u, of "\<not> v"] assms(2,4) u by (fastforce simp: defs usable_def)
  show "\<exists>s'. set_limit_switch fw axis sd v s = Some s' \<and> fst (limit_switch fw axis sd s') = v"
    if "axis < 5" and u: "usable (configured_pin fw (kernel s) [limit_checksum fw sd axis] ''nc'')"
    using reads [OF u, of v] assms(2,4) u that(1) by (fastforce simp: defs usable_def)
  show "\<exists>s'. set_main_button_pressed fw v s = Some s' \<and> main_button_reading fw s' = v"
    if u: "usable (configured_pin fw (kernel s) [fw_checksum fw ''main_button_pin''] (default_main_button_pin (board_profile_of (fw_model fw (kernel s)))))"
    using reads [OF u, of v] assms(2) u by (fastforce simp: defs usable_def)
  show "\<exists>s'. set_e_stop_pressed fw v s = Some s' \<and> e_stop_reading fw s' = v"
    if u: "usable (configured_pin fw (kernel s) [fw_checksum fw ''e_stop_pin''] (default_e_stop_pin (board_profile_of (fw_model fw (kernel s)))))"
    using reads [OF u, of v] assms(2) u by (fastforce simp: defs usable_def)
  show "\<exists>s'. set_spindle_alarm fw v s = Some (True, s') \<and> fst (spindle_alarm fw s') = Some v"
    if u: "usable (spindle_alarm_pin fw (kernel s))"
    using reads [OF u, of v] assms(2,4) u by (fastforce simp: defs usable_def)
qed

text \<open>
  The physical inputs read back as they were set, on every board: the probe and the tool setter, and the
  cover, a limit switch, the main button, the emergency stop and the spindle alarm when the firmware's
  configuration wires them to a pin, whatever the pin's inversion.  Nothing throws.
\<close>
theorem physical_inputs_read_back:
  assumes "machine_wf (machine s)" "fw_booted fw (kernel s)" "pins_read fw" "fw_has_config fw (kernel s)"
  shows "(\<exists>s'. set_probe_inputs fw v w s = Some s' \<and> map_option fst (probe_inputs fw s') = Some (v, w)) \<and>
    (usable (cover_pin fw (kernel s)) \<longrightarrow> (\<exists>s'. set_cover_open fw v s = Some s' \<and> fst (cover_open fw s') = v)) \<and>
    (axis < 5 \<and> usable (configured_pin fw (kernel s) [limit_checksum fw sd axis] ''nc'') \<longrightarrow>
      (\<exists>s'. set_limit_switch fw axis sd v s = Some s' \<and> fst (limit_switch fw axis sd s') = v)) \<and>
    (usable (configured_pin fw (kernel s) [fw_checksum fw ''main_button_pin''] (default_main_button_pin (board_profile_of (fw_model fw (kernel s))))) \<longrightarrow>
      (\<exists>s'. set_main_button_pressed fw v s = Some s' \<and> main_button_reading fw s' = v)) \<and>
    (usable (configured_pin fw (kernel s) [fw_checksum fw ''e_stop_pin''] (default_e_stop_pin (board_profile_of (fw_model fw (kernel s))))) \<longrightarrow>
      (\<exists>s'. set_e_stop_pressed fw v s = Some s' \<and> e_stop_reading fw s' = v)) \<and>
    (usable (spindle_alarm_pin fw (kernel s)) \<longrightarrow>
      (\<exists>s'. set_spindle_alarm fw v s = Some (True, s') \<and> fst (spindle_alarm fw s') = Some v))"
  using inputs_read [OF assms] by blast

text \<open>A booted C1 whose firmware wires every input to pin 1.4, inverted.\<close>

definition sample_firmware :: "(nat, unit, bool) firmware" where
  "sample_firmware = \<lparr>fw_checksum = (\<lambda>_. 0), fw_booted = (\<lambda>k. k), fw_first_boot = (\<lambda>s. s\<lparr>kernel := True\<rparr>), fw_model = (\<lambda>_. CarveraC1),
     fw_has_config = (\<lambda>_. True), fw_as_string = (\<lambda>_ _ _. ''1.4!''), fw_as_number = (\<lambda>_ _ x. x),
     fw_pin = (\<lambda>_. \<lparr>fp_connected = True, fp_port = 1, fp_number = 4, fp_inverting = True\<rparr>),
     fw_pin_get = (\<lambda>p m. fp_inverting p \<noteq> (pin_level (firm_pin_address p) m = Some True)), fw_has_robot = (\<lambda>_. True),
     fw_factory = (\<lambda>_. Some CARVERA), fw_eeprom_tool = (\<lambda>_. None), fw_switch_checksum = (\<lambda>_. 0), fw_set_switch = (\<lambda>_ _ _ s. (False, s)),
     fw_get_switch = (\<lambda>_ _. None), fw_temperature_enabled = (\<lambda>_ _. False), fw_temperature = (\<lambda>_ _. None), fw_timer2_irq = (\<lambda>s. s),
     fw_second_tick = (\<lambda>s. s), fw_main_loop = (\<lambda>_ s. s), fw_on_channel = (\<lambda>_ _ s. s), fw_on_global = (\<lambda>_ _ _ s. s)\<rparr>"

definition sample_sim :: "(nat, unit, bool) simulation" where
  "sample_sim = \<lparr>machine = blank_machine (), kernel = True\<rparr>"

theorem physical_inputs_read_back_witness:
  "\<exists>s'. set_cover_open sample_firmware True sample_sim = Some s' \<and> fst (cover_open sample_firmware s')"
proof -
  have wf: "machine_wf (machine sample_sim)" by (simp add: sample_sim_def blank_machine_wf)
  have booted: "fw_booted sample_firmware (kernel sample_sim)" by (simp add: sample_firmware_def sample_sim_def)
  have reads: "pins_read sample_firmware" by (auto simp: pins_read_def sample_firmware_def)
  have config: "fw_has_config sample_firmware (kernel sample_sim)" by (simp add: sample_firmware_def)
  have usable: "usable (cover_pin sample_firmware (kernel sample_sim))"
    by (simp add: usable_def cover_pin_def sample_firmware_def)
  show ?thesis
    using physical_inputs_read_back [OF wf booted reads config, of True True 0 Min_Side] usable by blast
qed

end
