(* ===== verification/Api_Harness.thy ===== *)
theory Api_Harness
  imports Runtime_Controls I2c_Eeprom
begin

text \<open>
  The simulator's API: the conversions of requests (\<^verbatim>\<open>src/protocol/api_conversions.cpp\<close>), the reply helpers
  (\<^verbatim>\<open>src/protocol/api_service.cpp\<close>) and the harness commands, which reach below the physical machine
  (\<^verbatim>\<open>src/protocol/api_harness_commands.cpp\<close>).

  Requests are the messages of \<^verbatim>\<open>src/proto/carvera_sim.proto\<close>; an enumeration of the protocol is its number,
  since a peer may send any.  The layout of the firmware's \<^verbatim>\<open>EEPROM_data\<close> is outside the repository: the
  parameter \<open>layout\<close> converts it to bytes and back and says which byte is the \<^verbatim>\<open>bool\<close>.  A handler returns
  \<open>None\<close> when an exception escapes, and otherwise the response, absent for a command of another group.
\<close>

section \<open>Requests and responses\<close>

record pb_pin =
  pb_port :: u32
  pb_number :: u32

record persistent_variable =
  var_number :: u32
  var_value :: real

record work_coordinate_system =
  wcs_number :: u32
  wcs_x :: real
  wcs_y :: real
  wcs_z :: real
  wcs_a :: real
  wcs_rotation :: real

record eeprom_contents =
  tool_length_offset :: real
  reference_machine_z :: real
  tool_machine_z :: real
  reserved :: real
  active_tool :: int
  contents_not_calibrated :: bool
  contents_current_wcs :: int
  persistent_variables :: "persistent_variable list"
  work_coordinate_systems :: "work_coordinate_system list"

record pocket_tool_request =
  req_pocket :: u32
  req_tool :: int
  req_occupied :: bool
  req_length_mm :: real
  req_kind :: int
  req_tip_mm :: real

datatype command =
    Set_Gpio_Input pb_pin bool
  | Get_Gpio_Level pb_pin
  | Attach_Step_Dir_Axis pb_pin pb_pin bool
  | Get_Axis_Position u32
  | Get_Pwm_Output pb_pin
  | Trigger_Interrupt_Rise pb_pin
  | Set_Adc_Input u32 u32
  | Get_Adc_Input u32
  | Get_Eeprom_Bytes u32 u32
  | Set_Eeprom_Bytes u32 string
  | Get_Eeprom_Contents
  | Set_Eeprom_Contents eeprom_contents
  | Set_Probe_Inputs bool bool
  | Get_Probe_Inputs
  | Set_Cover_Open bool
  | Get_Cover_Open
  | Set_Limit_Switch int int bool
  | Get_Limit_Switch int int
  | Set_Motor_Alarm int bool
  | Get_Motor_Alarm int
  | Set_Spindle_Alarm bool
  | Get_Spindle_Alarm
  | Set_Rotary_Accessory_Installed bool
  | Set_Main_Button_Pressed bool
  | Set_E_Stop_Pressed bool
  | Get_Front_Panel_State
  | Set_Atc_Pocket_Tools "pocket_tool_request list" bool
  | Set_Spindle_Tool bool int real int real
  | Set_Probe_Tool_Installed bool
  | Set_Tool_Setter_Box "box option"
  | Set_Stock_Box "box option"
  | Set_Temperature int real
  | Set_Switch_State int bool "real option"
  | Get_Switch_State int
  | Another_Command

datatype body =
    No_Body
  | Gpio_Level pb_pin bool
  | Attached_Axis u32
  | Axis_Position u32 int
  | Pwm_Output pb_pin pwm_pin
  | Adc_Input u32 u16
  | Eeprom_Bytes u32 string
  | Eeprom_Contents eeprom_contents
  | Probe_Inputs bool bool
  | Cover_State bool
  | Limit_Switch_State int int bool
  | Motor_Alarm_State int bool
  | Spindle_Alarm_State bool bool
  | Front_Panel_State front_panel
  | Switch_State int switch_state

record response =
  resp_id :: u64
  resp_ok :: bool
  resp_error :: string
  resp_body :: body

definition ok :: "u64 \<Rightarrow> response" where
  "ok i = \<lparr>resp_id = i, resp_ok = True, resp_error = [], resp_body = No_Body\<rparr>"

definition error :: "u64 \<Rightarrow> string \<Rightarrow> response" where
  "error i message = \<lparr>resp_id = i, resp_ok = False, resp_error = message, resp_body = No_Body\<rparr>"

definition ok_with :: "u64 \<Rightarrow> body \<Rightarrow> response" where
  "ok_with i b = (ok i)\<lparr>resp_body := b\<rparr>"

section \<open>Conversions\<close>

definition api_axis_index :: "int \<Rightarrow> nat option" where
  "api_axis_index axis = (if 1 \<le> axis \<and> axis \<le> 5 then Some (nat (axis - 1)) else None)"

definition api_limit_switch_side :: "int \<Rightarrow> endstop_side option" where
  "api_limit_switch_side sd = (if sd = 1 then Some Min_Side else if sd = 2 then Some Max_Side else None)"

definition api_temperature_sensor :: "int \<Rightarrow> temperature_sensor option" where
  "api_temperature_sensor sensor = (if sensor = 1 then Some Spindle_Sensor else if sensor = 2 then Some Power_Sensor else None)"

definition api_machine_switch :: "int \<Rightarrow> machine_switch option" where
  "api_machine_switch name =
     (if 1 \<le> name \<and> name \<le> 8
      then Some ([Light, Vacuum, SpindleFan, PowerFan, ToolSensor, ProbeCharger, Air, Beep] ! nat (name - 1)) else None)"

definition api_tool_kind :: "int \<Rightarrow> tool_kind" where
  "api_tool_kind kind = (if kind = 1 then CuttingTool else if kind = 2 then StockZProbe else if kind = 3 then ThreeAxisProbe
     else Unspecified)"

definition proto_tool_kind :: "tool_kind \<Rightarrow> int" where
  "proto_tool_kind kind = (case kind of CuttingTool \<Rightarrow> 1 | StockZProbe \<Rightarrow> 2 | ThreeAxisProbe \<Rightarrow> 3 | Unspecified \<Rightarrow> 0)"

definition api_valid_pin :: "pb_pin \<Rightarrow> bool" where
  "api_valid_pin p \<longleftrightarrow> pb_port p \<le> 4 \<and> pb_number p \<le> 31"

definition api_pin_address :: "pb_pin \<Rightarrow> pin_address" where
  "api_pin_address p = \<lparr>pin_port = ucast (pb_port p), pin_number = ucast (pb_number p)\<rparr>"

definition proto_machine_model :: "machine_model \<Rightarrow> int" where
  "proto_machine_model model = (case model of CarveraC1 \<Rightarrow> 1 | CarveraAirCA1 \<Rightarrow> 2 | MakeraZ1 \<Rightarrow> 3 | MakeraZ1Pro \<Rightarrow> 4)"

text \<open>\<^verbatim>\<open>MachineModel{}\<close>, which is no model, is \<open>None\<close>.\<close>

definition api_machine_model :: "int \<Rightarrow> machine_model option" where
  "api_machine_model model = (if model = 1 then Some CarveraC1 else if model = 2 then Some CarveraAirCA1
     else if model = 3 then Some MakeraZ1 else if model = 4 then Some MakeraZ1Pro else None)"

section \<open>The persistent data\<close>

record eeprom_data =
  data_tlo :: real
  data_refmz :: real
  data_toolmz :: real
  data_reserve :: real
  data_tool :: int
  data_not_calibrated :: bool
  data_current_wcs :: int
  perm_vars :: "real list"
  wcs_coord :: "(real \<times> real \<times> real \<times> real) list"
  wcs_rotations :: "real list"

record layout =
  data_size :: nat
  not_calibrated_offset :: nat
  data_of_bytes :: "u8 list \<Rightarrow> eeprom_data"
  bytes_of_data :: "eeprom_data \<Rightarrow> u8 list"
  single :: "real \<Rightarrow> real"

definition eeprom_data_offset :: nat where "eeprom_data_offset = 32"
definition persistent_variable_base :: int where "persistent_variable_base = 501"
definition persistent_variable_count :: nat where "persistent_variable_count = 20"
definition work_coordinate_system_base :: int where "work_coordinate_system_base = 54"
definition work_coordinate_system_count :: nat where "work_coordinate_system_count = 6"

definition data_address :: "nat \<Rightarrow> u16" where
  "data_address i = word_of_nat (eeprom_data_offset + i)"

definition read_persistent_data :: "layout \<Rightarrow> eeprom \<Rightarrow> eeprom_data" where
  "read_persistent_data l d = data_of_bytes l (map (\<lambda>i. let b = eeprom_peek (data_address i) d
     in if i = not_calibrated_offset l then (if b \<noteq> 0 then 1 else 0) else b) [0..<data_size l])"

definition write_persistent_data :: "layout \<Rightarrow> eeprom_data \<Rightarrow> eeprom \<times> host_fs \<Rightarrow> eeprom \<times> host_fs" where
  "write_persistent_data l v dfs =
     (let dfs = fold (\<lambda>i dfs. if i = not_calibrated_offset l then dfs else eeprom_poke (data_address i) (bytes_of_data l v ! i) dfs)
            [0..<data_size l] dfs
      in eeprom_poke (data_address (not_calibrated_offset l)) (if data_not_calibrated v then 1 else 0) dfs)"

definition fill_eeprom_contents :: "eeprom_data \<Rightarrow> eeprom_contents" where
  "fill_eeprom_contents v =
     \<lparr>tool_length_offset = data_tlo v, reference_machine_z = data_refmz v, tool_machine_z = data_toolmz v, reserved = data_reserve v,
      active_tool = data_tool v, contents_not_calibrated = data_not_calibrated v, contents_current_wcs = data_current_wcs v,
      persistent_variables = map (\<lambda>i. \<lparr>var_number = word_of_int (persistent_variable_base + int i), var_value = perm_vars v ! i\<rparr>)
        [0..<persistent_variable_count],
      work_coordinate_systems = map (\<lambda>i. case wcs_coord v ! i of (x, y, z, a) \<Rightarrow>
          \<lparr>wcs_number = word_of_int (work_coordinate_system_base + int i), wcs_x = x, wcs_y = y, wcs_z = z, wcs_a = a,
           wcs_rotation = wcs_rotations v ! i\<rparr>)
        [0..<work_coordinate_system_count]\<rparr>"

text \<open>The loops of \<^verbatim>\<open>apply_eeprom_contents\<close> with the indices already seen; \<open>None\<close> rejects the contents.\<close>

fun apply_variables :: "layout \<Rightarrow> int list \<Rightarrow> persistent_variable list \<Rightarrow> eeprom_data \<Rightarrow> eeprom_data option" where
  "apply_variables l seen [] v = Some v"
| "apply_variables l seen (p # ps) v =
     (let index = sint (var_number p) - persistent_variable_base
      in if index < 0 \<or> index \<ge> int persistent_variable_count \<or> index \<in> set seen then None
         else apply_variables l (index # seen) ps (v\<lparr>perm_vars := (perm_vars v)[nat index := single l (var_value p)]\<rparr>))"

fun apply_systems :: "layout \<Rightarrow> int list \<Rightarrow> work_coordinate_system list \<Rightarrow> eeprom_data \<Rightarrow> eeprom_data option" where
  "apply_systems l seen [] v = Some v"
| "apply_systems l seen (w # ws) v =
     (let index = sint (wcs_number w) - work_coordinate_system_base
      in if index < 0 \<or> index \<ge> int work_coordinate_system_count \<or> index \<in> set seen then None
         else apply_systems l (index # seen) ws
           (v\<lparr>wcs_coord := (wcs_coord v)[nat index := (single l (wcs_x w), single l (wcs_y w), single l (wcs_z w), single l (wcs_a w))],
              wcs_rotations := (wcs_rotations v)[nat index := single l (wcs_rotation w)]\<rparr>))"

definition apply_eeprom_contents :: "layout \<Rightarrow> eeprom_contents \<Rightarrow> eeprom_data \<Rightarrow> eeprom_data option" where
  "apply_eeprom_contents l c v =
     (if length (persistent_variables c) \<noteq> persistent_variable_count \<or>
         length (work_coordinate_systems c) \<noteq> work_coordinate_system_count then None
      else let v = v\<lparr>data_tlo := single l (tool_length_offset c), data_refmz := single l (reference_machine_z c),
                     data_toolmz := single l (tool_machine_z c), data_reserve := single l (reserved c), data_tool := active_tool c,
                     data_not_calibrated := contents_not_calibrated c, data_current_wcs := contents_current_wcs c\<rparr>
           in do { v \<leftarrow> apply_variables l [] (persistent_variables c) v; apply_systems l [] (work_coordinate_systems c) v })"

section \<open>The harness commands\<close>

record ('h, 'w, 'k) api =
  api_sim :: "('h, 'w, 'k) simulation"
  api_eeprom :: "eeprom \<times> host_fs"

definition on_machine :: "(('h, 'w) machine \<Rightarrow> ('h, 'w) machine option) \<Rightarrow> ('h, 'w, 'k) api \<Rightarrow> ('h, 'w, 'k) api option" where
  "on_machine f s = map_option (\<lambda>m. s\<lparr>api_sim := m\<rparr>) (machine_op f (api_sim s))"

definition api_machine :: "('h, 'w, 'k) api \<Rightarrow> ('h, 'w) machine" where
  "api_machine s = machine (api_sim s)"

type_synonym ('h, 'w, 'k) handled = "(response option \<times> ('h, 'w, 'k) api) option"

definition reply :: "response \<Rightarrow> ('h, 'w, 'k) api \<Rightarrow> ('h, 'w, 'k) handled" where
  "reply r s = Some (Some r, s)"

definition handle_harness_command :: "layout \<Rightarrow> ('h, 'w, 'k) firmware \<Rightarrow> ('h \<Rightarrow> ('h, 'w) machine \<Rightarrow> ('h, 'w) machine) \<Rightarrow>
    u64 \<Rightarrow> command \<Rightarrow> ('h, 'w, 'k) api \<Rightarrow> ('h, 'w, 'k) handled" where
  "handle_harness_command l fw call i c s = (case c of
     Set_Gpio_Input p high \<Rightarrow>
       (if \<not> api_valid_pin p then reply (error i ''invalid GPIO pin'') s
        else do { s \<leftarrow> on_machine (set_gpio_input (api_pin_address p) high) s; reply (ok i) s })
   | Get_Gpio_Level p \<Rightarrow>
       (if \<not> api_valid_pin p then reply (error i ''invalid GPIO pin'') s
        else do { high \<leftarrow> machine_level (api_pin_address p) (api_machine s); reply (ok_with i (Gpio_Level p high)) s })
   | Attach_Step_Dir_Axis step dir invert \<Rightarrow>
       (if \<not> api_valid_pin step \<or> \<not> api_valid_pin dir then reply (error i ''invalid step/dir axis pin'') s
        else do { (axis, m) \<leftarrow> add_step_dir_axis (api_pin_address step) (api_pin_address dir) invert (api_machine s);
                  reply (ok_with i (Attached_Axis (word_of_nat axis))) (s\<lparr>api_sim := (api_sim s)\<lparr>machine := m\<rparr>\<rparr>) })
   | Get_Axis_Position axis \<Rightarrow>
       (case axis_position_steps (unat axis) (api_machine s) of
          Some steps \<Rightarrow> reply (ok_with i (Axis_Position axis steps)) s
        | None \<Rightarrow> reply (error i ''invalid axis'') s)
   | Get_Pwm_Output p \<Rightarrow>
       (if \<not> api_valid_pin p then reply (error i ''invalid PWM pin'') s
        else do { out \<leftarrow> pwm_output (api_pin_address p) (api_machine s); reply (ok_with i (Pwm_Output p out)) s })
   | Trigger_Interrupt_Rise p \<Rightarrow>
       (if \<not> api_valid_pin p then reply (error i ''invalid interrupt pin'') s
        else do { s \<leftarrow> on_machine (trigger_interrupt_rise call (api_pin_address p)) s; reply (ok i) s })
   | Set_Adc_Input ch raw \<Rightarrow>
       (if ch > 7 then reply (error i ''invalid ADC channel'') s
        else if raw > 4095 then reply (error i ''ADC raw value must be 0..4095'') s
        else do { s \<leftarrow> on_machine (\<lambda>m. Some (set_adc_input (fw_on_channel fw) (fw_on_global fw) (unat ch) (ucast raw) m)) s; reply (ok i) s })
   | Get_Adc_Input ch \<Rightarrow>
       (if ch > 7 then reply (error i ''invalid ADC channel'') s
        else reply (ok_with i (Adc_Input ch (adc_input (unat ch) (api_machine s)))) s)
   | Get_Eeprom_Bytes offset len \<Rightarrow>
       (if unat offset + unat len > kEepromSize then reply (error i ''EEPROM range is out of bounds'') s
        else reply (ok_with i (Eeprom_Bytes offset
               (map (\<lambda>o'. chr_of (eeprom_peek (ucast (offset + word_of_nat o')) (fst (api_eeprom s)))) [0..<unat len]))) s)
   | Set_Eeprom_Bytes offset bytes \<Rightarrow>
       (if unat offset + length bytes > kEepromSize then reply (error i ''EEPROM range is out of bounds'') s
        else reply (ok i) (s\<lparr>api_eeprom := fold (\<lambda>o'. eeprom_poke (word_of_nat (unat offset + o')) (byte_of (bytes ! o')))
               [0..<length bytes] (api_eeprom s)\<rparr>))
   | Get_Eeprom_Contents \<Rightarrow>
       reply (ok_with i (Eeprom_Contents (fill_eeprom_contents (read_persistent_data l (fst (api_eeprom s)))))) s
   | Set_Eeprom_Contents contents \<Rightarrow>
       (case apply_eeprom_contents l contents (read_persistent_data l (fst (api_eeprom s))) of
          None \<Rightarrow> reply (error i ''invalid EEPROM contents'') s
        | Some v \<Rightarrow> reply (ok i) (s\<lparr>api_eeprom := write_persistent_data l v (api_eeprom s)\<rparr>))
   | _ \<Rightarrow> Some (None, s))"

definition handle_cooperative_harness_command :: "layout \<Rightarrow> ('h, 'w, 'k) firmware \<Rightarrow> ('h \<Rightarrow> ('h, 'w) machine \<Rightarrow> ('h, 'w) machine) \<Rightarrow>
    u64 \<Rightarrow> command \<Rightarrow> ('h, 'w, 'k) api \<Rightarrow> ('h, 'w, 'k) handled" where
  "handle_cooperative_harness_command l fw call i c s = (case c of
     Attach_Step_Dir_Axis _ _ _ \<Rightarrow> Some (None, s)
   | Trigger_Interrupt_Rise _ \<Rightarrow> Some (None, s)
   | _ \<Rightarrow> handle_harness_command l fw call i c s)"

section \<open>Properties\<close>

definition api_wf :: "('h, 'w, 'k) api \<Rightarrow> bool" where
  "api_wf s \<longleftrightarrow> machine_wf (api_machine s) \<and> length (storage (fst (api_eeprom s))) = kEepromSize"

lemma api_pin_valid:
  assumes "api_valid_pin p" "api_wf s"
  shows "valid_pin (m_mcu (api_machine s)) (api_pin_address p)"
proof -
  have "unat (pb_port p) \<le> 4" "unat (pb_number p) \<le> 31"
    using assms(1) by (simp_all add: api_valid_pin_def word_le_nat_alt)
  then have "unat (ucast (pb_port p) :: u8) \<le> 4" "unat (ucast (pb_number p) :: u8) \<le> 31"
    by (simp_all add: unsigned_ucast_eq take_bit_nat_def)
  then show ?thesis
    using assms(2) by (simp add: api_wf_def machine_wf_def valid_pin_def api_pin_address_def)
qed

lemma port_pin_bound: "valid_pin m p \<Longrightarrow> length (gpio m) = 5 \<Longrightarrow> port_pin p < 160"
  using word_and_le1 [of "pin_number p" "0x1F"] by (auto simp: valid_pin_def port_pin_def word_le_nat_alt)

lemma on_machine_wf:
  assumes "f (api_machine s) = Some m" "machine_wf m" "api_wf s"
  shows "\<exists>s'. on_machine f s = Some s' \<and> api_wf s' \<and> api_eeprom s' = api_eeprom s"
  using assms by (simp add: on_machine_def machine_op_def api_machine_def api_wf_def)

lemma poke_range:
  assumes "length (storage (fst dfs)) = kEepromSize" "off + n \<le> kEepromSize"
    and "dfs' = fold (\<lambda>i. eeprom_poke (word_of_nat (off + i)) (f i)) [0..<n] dfs"
  shows "length (storage (fst dfs')) = kEepromSize \<and>
    (\<forall>x < kEepromSize. storage (fst dfs') ! x = (if off \<le> x \<and> x < off + n then f (x - off) else storage (fst dfs) ! x))"
  unfolding assms(3) using assms(2)
proof (induction n)
  case (Suc n)
  have addr: "unat (word_of_nat (off + n) :: u16) = off + n"
    using Suc.prems by (intro unat_small) (simp add: kEepromSize_def)
  define g where "g = fold (\<lambda>i. eeprom_poke (word_of_nat (off + i)) (f i)) [0..<n] dfs"
  have ih: "length (storage (fst g)) = kEepromSize"
    "\<forall>x < kEepromSize. storage (fst g) ! x = (if off \<le> x \<and> x < off + n then f (x - off) else storage (fst dfs) ! x)"
    using Suc by (simp_all add: g_def)
  have lt: "off + n < kEepromSize" using Suc.prems by simp
  have "kEepromSize \<noteq> 0" by (simp add: kEepromSize_def)
  then have at: "normalized_address (fst g) (word_of_nat (off + n)) = off + n"
    unfolding normalized_address_def addr using lt ih(1) by auto
  have "fst (fold (\<lambda>i. eeprom_poke (word_of_nat (off + i)) (f i)) [0..<Suc n] dfs) = fst (eeprom_poke (word_of_nat (off + n)) (f n) g)"
    by (simp add: g_def)
  then show ?case
    using ih lt unfolding fst_poke at by (auto simp: nth_list_update less_Suc_eq)
qed (use assms(1) in auto)

lemma peek_cell:
  assumes "length (storage d) = kEepromSize" "x < kEepromSize"
  shows "eeprom_peek (word_of_nat x) d = storage d ! x"
proof -
  have "unat (word_of_nat x :: u16) = x" using assms(2) by (intro unat_small) (simp add: kEepromSize_def)
  then show ?thesis using assms by (auto simp: eeprom_peek_def normalized_address_def kEepromSize_def)
qed

lemma write_persistent_data_size: "length (storage (fst (write_persistent_data l v dfs))) = length (storage (fst dfs))"
proof -
  have "length (storage (fst (fold (\<lambda>i dfs. if i = o' then dfs else eeprom_poke (data_address i) (g i) dfs) is dfs))) =
      length (storage (fst dfs))" for o' g "is"
    by (induction "is" arbitrary: dfs) (simp_all add: fst_poke)
  then show ?thesis by (simp add: write_persistent_data_def Let_def fst_poke)
qed

text \<open>What an interrupt handler of the firmware may not do.\<close>

definition keeps_wf :: "('h \<Rightarrow> ('h, 'w) machine \<Rightarrow> ('h, 'w) machine) \<Rightarrow> bool" where
  "keeps_wf call \<longleftrightarrow> (\<forall>h m. machine_wf m \<longrightarrow> machine_wf (call h m))"


text \<open>A fresh machine with a blank EEPROM, and a handler that does nothing.\<close>

definition sample_api :: "(nat, unit, bool) api" where
  "sample_api = \<lparr>api_sim = sample_sim, api_eeprom = (new_eeprom, [])\<rparr>"

definition sample_layout :: layout where
  "sample_layout = \<lparr>data_size = 0, not_calibrated_offset = 0, data_of_bytes = (\<lambda>_. \<lparr>data_tlo = 0, data_refmz = 0, data_toolmz = 0,
     data_reserve = 0, data_tool = 0, data_not_calibrated = False, data_current_wcs = 0, perm_vars = [], wcs_coord = [], wcs_rotations = []\<rparr>),
     bytes_of_data = (\<lambda>_. []), single = (\<lambda>x. x)\<rparr>"

lemma sample_api_wf: "api_wf sample_api"
  by (simp add: api_wf_def sample_api_def api_machine_def sample_sim_def blank_machine_wf new_eeprom_def)


text \<open>C36: A harness command that is rejected changes nothing.\<close>
theorem harness_error_changes_nothing:
  assumes "handle_harness_command l fw call i c s = Some (Some r, s')" "\<not> resp_ok r"
  shows "s' = s \<and> resp_error r \<noteq> []"
  using assms
  by (cases c) (auto simp: handle_harness_command_def reply_def ok_def ok_with_def error_def bind_eq_Some_conv
    split: if_splits option.splits)

theorem harness_error_changes_nothing_witness:
  "\<exists>r s'. handle_harness_command sample_layout sample_firmware (\<lambda>_ m. m) 7 (Set_Adc_Input 8 0) sample_api = Some (Some r, s') \<and>
    s' = sample_api \<and> resp_error r \<noteq> []"
proof -
  have "handle_harness_command sample_layout sample_firmware (\<lambda>_ m. m) 7 (Set_Adc_Input 8 0) sample_api =
      Some (Some (error 7 ''invalid ADC channel''), sample_api)" (is "?h = _")
    by (simp add: handle_harness_command_def reply_def)
  from harness_error_changes_nothing [OF this] this show ?thesis by (simp add: error_def)
qed

text \<open>
  The bytes written to a range of the EEPROM are read back, and every other cell keeps its byte; a range
  that leaves the device is refused, also when the sum of offset and length does not fit into 32 bits.
\<close>
theorem eeprom_bytes_read_back:
  assumes "api_wf s"
  shows "if unat offset + length bytes \<le> kEepromSize
    then \<exists>s'. handle_harness_command l fw call i (Set_Eeprom_Bytes offset bytes) s = Some (Some (ok i), s') \<and>
      handle_harness_command l fw call j (Get_Eeprom_Bytes offset (word_of_nat (length bytes))) s' =
        Some (Some (ok_with j (Eeprom_Bytes offset bytes)), s') \<and>
      (\<forall>x < kEepromSize. x < unat offset \<or> unat offset + length bytes \<le> x \<longrightarrow>
        storage (fst (api_eeprom s')) ! x = storage (fst (api_eeprom s)) ! x)
    else handle_harness_command l fw call i (Set_Eeprom_Bytes offset bytes) s =
      Some (Some (error i ''EEPROM range is out of bounds''), s)"
proof (cases "unat offset + length bytes \<le> kEepromSize")
  case True
  define dfs where "dfs = fold (\<lambda>o'. eeprom_poke (word_of_nat (unat offset + o')) (byte_of (bytes ! o'))) [0..<length bytes] (api_eeprom s)"
  have len: "length (storage (fst (api_eeprom s))) = kEepromSize" using assms by (simp add: api_wf_def)
  note cells = poke_range [OF len True dfs_def]
  have n: "unat (word_of_nat (length bytes) :: u32) = length bytes"
    using True by (simp add: kEepromSize_def unsigned_of_nat take_bit_nat_eq_self)
  have addr: "ucast (offset + word_of_nat k) = (word_of_nat (unat offset + k) :: u16)" if k: "k < length bytes" for k
  proof -
    have "unat (word_of_nat k :: u32) = k"
      using True k by (simp add: kEepromSize_def unsigned_of_nat take_bit_nat_eq_self)
    then have "unat (offset + word_of_nat k) = unat offset + k"
      using True k by (subst unat_plus_if) (simp_all add: kEepromSize_def)
    then show ?thesis by (metis of_nat_unat)
  qed
  have "chr_of (eeprom_peek (ucast (offset + word_of_nat k)) (fst dfs)) = bytes ! k" if k: "k < length bytes" for k
  proof -
    have lt: "unat offset + k < kEepromSize" using True k by simp
    have "eeprom_peek (ucast (offset + word_of_nat k)) (fst dfs) = byte_of (bytes ! k)"
      unfolding addr [OF k] using peek_cell [OF conjunct1 [OF cells] lt] cells lt k by simp
    then show ?thesis by simp
  qed
  then have "map (\<lambda>o'. chr_of (eeprom_peek (ucast (offset + word_of_nat o')) (fst dfs))) [0..<length bytes] = bytes"
    by (intro nth_equalityI) simp_all
  moreover have "handle_harness_command l fw call i (Set_Eeprom_Bytes offset bytes) s = Some (Some (ok i), s\<lparr>api_eeprom := dfs\<rparr>)"
    using True by (simp add: handle_harness_command_def reply_def dfs_def)
  ultimately show ?thesis
    using True cells n by (intro if_P [THEN iffD2] exI [of _ "s\<lparr>api_eeprom := dfs\<rparr>"])
      (auto simp: handle_harness_command_def reply_def not_less)
qed (simp add: handle_harness_command_def reply_def)

theorem eeprom_bytes_read_back_witness:
  "\<exists>s'. handle_harness_command sample_layout sample_firmware (\<lambda>_ m. m) 1 (Set_Eeprom_Bytes 4094 ''hi'') sample_api = Some (Some (ok 1), s') \<and>
    handle_harness_command sample_layout sample_firmware (\<lambda>_ m. m) 2 (Get_Eeprom_Bytes 4094 2) s' =
      Some (Some (ok_with 2 (Eeprom_Bytes 4094 ''hi'')), s')"
  using eeprom_bytes_read_back [OF sample_api_wf, of 4094 "''hi''" sample_layout sample_firmware "\<lambda>_ m. m" 1 2]
  by (auto simp: kEepromSize_def)

end
