(* ===== verification/Api_Physical.thy ===== *)
theory Api_Physical
  imports Api_Harness
begin

text \<open>
  The physical commands of the API (\<^verbatim>\<open>src/protocol/api_physical_commands.cpp\<close>): what an operator does to
  the machine and what is read from it, and the whitelist of commands that are accepted while the firmware
  blocks in a cooperative wait.  The log and the laser, which is only relayed, are left out.
\<close>

section \<open>The commands\<close>

definition api_boot_state :: "('h, 'w, 'k) api \<Rightarrow> ('h, 'w, 'k) simulation \<Rightarrow> ('h, 'w, 'k) api" where
  "api_boot_state s m = s\<lparr>api_sim := m\<rparr>"

definition on_sim :: "(('h, 'w, 'k) simulation \<Rightarrow> ('h, 'w, 'k) simulation option) \<Rightarrow> ('h, 'w, 'k) api \<Rightarrow> ('h, 'w, 'k) api option" where
  "on_sim f s = map_option (api_boot_state s) (f (api_sim s))"

definition on_scene :: "(physical_scene \<Rightarrow> physical_scene) \<Rightarrow> ('h, 'w, 'k) api \<Rightarrow> ('h, 'w, 'k) api" where
  "on_scene f s = s\<lparr>api_sim := (api_sim s)\<lparr>machine := (api_machine s)\<lparr>m_scene := f (m_scene (api_machine s))\<rparr>\<rparr>\<rparr>"

definition apply_tool_setter_box :: "box option \<Rightarrow> physical_scene \<Rightarrow> physical_scene" where
  "apply_tool_setter_box b scene = scene\<lparr>scene_probe := (case b of
     Some b \<Rightarrow> set_tool_setter_box b (scene_probe scene) | None \<Rightarrow> clear_tool_setter_box (scene_probe scene))\<rparr>"

definition apply_stock_box :: "box option \<Rightarrow> physical_scene \<Rightarrow> physical_scene" where
  "apply_stock_box b scene = scene\<lparr>scene_probe := (case b of
     Some b \<Rightarrow> set_stock_box b (scene_probe scene) | None \<Rightarrow> clear_stock_box (scene_probe scene))\<rparr>"

text \<open>The loop over the tools: the scene with the tools so far, and the message of the tool that stopped it.\<close>

fun apply_tools :: "pocket_tool_request list \<Rightarrow> physical_scene \<Rightarrow> string option \<times> physical_scene" where
  "apply_tools [] scene = (None, scene)"
| "apply_tools (t # ts) scene =
     (if req_length_mm t < 0 then (Some ''ATC tool length must be non-negative'', scene)
      else if req_tip_mm t < 0 then (Some ''ATC probe tip diameter must be non-negative'', scene)
      else apply_tools ts (set_atc_pocket_tool (sint (req_pocket t)) (req_tool t) (req_occupied t) (req_length_mm t)
             (api_tool_kind (req_kind t)) (req_tip_mm t) scene))"

definition apply_atc_pocket_tools :: "('h, 'w, 'k) firmware \<Rightarrow> pocket_tool_request list \<Rightarrow> bool \<Rightarrow> ('h, 'w, 'k) api \<Rightarrow>
    string option \<times> ('h, 'w, 'k) api" where
  "apply_atc_pocket_tools fw pockets_req replaced s =
     (let s = (if replaced then on_scene clear_atc_pocket_tools s else s);
          (message, scene) = apply_tools pockets_req (m_scene (api_machine s));
          s = on_scene (\<lambda>_. scene) s
      in if message \<noteq> None then (message, s)
         else (None, if fw_booted fw (kernel (api_sim s)) then on_scene (configure_physical_scene fw (kernel (api_sim s)) True) s else s))"

definition apply_spindle_tool :: "bool \<Rightarrow> int \<Rightarrow> real \<Rightarrow> int \<Rightarrow> real \<Rightarrow> ('h, 'w, 'k) api \<Rightarrow> string option \<times> ('h, 'w, 'k) api" where
  "apply_spindle_tool installed tool len kind tip s =
     (if len < 0 then (Some ''spindle tool length must be non-negative'', s)
      else if tip < 0 then (Some ''spindle probe tip diameter must be non-negative'', s)
      else (None, on_scene (scene_set_spindle_tool tool len installed (api_tool_kind kind) tip) s))"

definition apply_temperature :: "('h, 'w, 'k) firmware \<Rightarrow> int \<Rightarrow> real \<Rightarrow> ('h, 'w, 'k) api \<Rightarrow> string option \<times> ('h, 'w, 'k) api" where
  "apply_temperature fw sensor celsius s = (case api_temperature_sensor sensor of
     None \<Rightarrow> (Some ''unsupported temperature sensor'', s)
   | Some sensor \<Rightarrow> (if celsius \<le> - 27315 / 100 then (Some ''temperature must be finite and above absolute zero'', s)
       else (None, s\<lparr>api_sim := inject_temperature fw sensor celsius (api_sim s)\<rparr>)))"

definition answered :: "u64 \<Rightarrow> string option \<times> ('h, 'w, 'k) api \<Rightarrow> ('h, 'w, 'k) handled" where
  "answered i ms = (case ms of (None, s) \<Rightarrow> reply (ok i) s | (Some message, s) \<Rightarrow> reply (error i message) s)"

definition pump_once :: "('h, 'w, 'k) firmware \<Rightarrow> bool \<Rightarrow> ('h, 'w, 'k) api \<Rightarrow> ('h, 'w, 'k) api" where
  "pump_once fw pump s = (if pump then s\<lparr>api_sim := fw_main_loop fw 1 (api_sim s)\<rparr> else s)"

definition handle_physical_command :: "('h, 'w, 'k) firmware \<Rightarrow> bool \<Rightarrow> u64 \<Rightarrow> command \<Rightarrow> ('h, 'w, 'k) api \<Rightarrow> ('h, 'w, 'k) handled" where
  "handle_physical_command fw pump i c s = (case c of
     Set_Probe_Inputs probe setter \<Rightarrow> do { s \<leftarrow> on_sim (set_probe_inputs fw probe setter) s; reply (ok i) s }
   | Get_Probe_Inputs \<Rightarrow> do { ((probe, setter), m) \<leftarrow> probe_inputs fw (api_sim s);
       reply (ok_with i (Probe_Inputs probe setter)) (api_boot_state s m) }
   | Set_Cover_Open opened \<Rightarrow> do { s \<leftarrow> on_sim (set_cover_open fw opened) s; reply (ok i) s }
   | Get_Cover_Open \<Rightarrow> (let (opened, m) = cover_open fw (api_sim s) in reply (ok_with i (Cover_State opened)) (api_boot_state s m))
   | Set_Limit_Switch axis sd triggered \<Rightarrow> (case (api_axis_index axis, api_limit_switch_side sd) of
       (Some a, Some b) \<Rightarrow> do { s \<leftarrow> on_sim (set_limit_switch fw a b triggered) s; reply (ok i) s }
     | _ \<Rightarrow> reply (error i ''invalid limit switch'') s)
   | Get_Limit_Switch axis sd \<Rightarrow> (case (api_axis_index axis, api_limit_switch_side sd) of
       (Some a, Some b) \<Rightarrow> (let (triggered, m) = limit_switch fw a b (api_sim s)
         in reply (ok_with i (Limit_Switch_State axis sd triggered)) (api_boot_state s m))
     | _ \<Rightarrow> reply (error i ''invalid limit switch'') s)
   | Set_Motor_Alarm axis triggered \<Rightarrow> (case api_axis_index axis of
       Some a \<Rightarrow> do { s \<leftarrow> on_sim (set_motor_alarm fw a triggered) s; reply (ok i) s }
     | None \<Rightarrow> reply (error i ''invalid motor alarm axis'') s)
   | Get_Motor_Alarm axis \<Rightarrow> (case api_axis_index axis of
       Some a \<Rightarrow> (let (triggered, m) = motor_alarm fw a (api_sim s)
         in reply (ok_with i (Motor_Alarm_State axis triggered)) (api_boot_state s m))
     | None \<Rightarrow> reply (error i ''invalid motor alarm axis'') s)
   | Set_Spindle_Alarm triggered \<Rightarrow> do {
       (done', m) \<leftarrow> set_spindle_alarm fw triggered (api_sim s);
       let s = api_boot_state s m;
       if \<not> done' then reply (error i ''spindle alarm is not configured'') s else reply (ok i) (pump_once fw pump s) }
   | Set_Rotary_Accessory_Installed installed \<Rightarrow>
       do { s \<leftarrow> on_machine (set_rotary_accessory_installed installed) s; reply (ok i) s }
   | Get_Spindle_Alarm \<Rightarrow> (let (alarm, m) = spindle_alarm fw (api_sim s)
       in reply (ok_with i (Spindle_Alarm_State (alarm \<noteq> None) (alarm = Some True))) (api_boot_state s m))
   | Set_Main_Button_Pressed pressed \<Rightarrow>
       do { s \<leftarrow> on_sim (set_main_button_pressed fw pressed) s; reply (ok i) (pump_once fw pump s) }
   | Set_E_Stop_Pressed pressed \<Rightarrow>
       do { s \<leftarrow> on_sim (set_e_stop_pressed fw pressed) s; reply (ok i) (pump_once fw pump s) }
   | Get_Front_Panel_State \<Rightarrow> do { (panel, m) \<leftarrow> front_panel_state fw (api_sim s);
       reply (ok_with i (Front_Panel_State panel)) (api_boot_state s m) }
   | Set_Atc_Pocket_Tools pockets_req replaced \<Rightarrow> answered i (apply_atc_pocket_tools fw pockets_req replaced s)
   | Set_Spindle_Tool installed tool len kind tip \<Rightarrow> answered i (apply_spindle_tool installed tool len kind tip s)
   | Set_Probe_Tool_Installed installed \<Rightarrow>
       reply (ok i) (on_scene (\<lambda>scene. scene\<lparr>scene_probe := set_probe_tool_installed installed (scene_probe scene)\<rparr>) s)
   | Set_Tool_Setter_Box b \<Rightarrow> reply (ok i) (on_scene (apply_tool_setter_box b) s)
   | Set_Stock_Box b \<Rightarrow> reply (ok i) (on_scene (apply_stock_box b) s)
   | Set_Temperature sensor celsius \<Rightarrow> answered i (apply_temperature fw sensor celsius s)
   | Set_Switch_State name on v \<Rightarrow> (case api_machine_switch name of
       None \<Rightarrow> reply (error i ''unsupported switch name'') s
     | Some sw \<Rightarrow> (let (done', m) = set_switch_state fw sw on v (api_sim s); s = api_boot_state s m
         in if \<not> done' then reply (error i ''switch is not available'') s else reply (ok i) s))
   | Get_Switch_State name \<Rightarrow> (case api_machine_switch name of
       None \<Rightarrow> reply (error i ''unsupported switch name'') s
     | Some sw \<Rightarrow> (let (st, m) = switch_state_of fw sw (api_sim s)
         in reply (ok_with i (Switch_State name st)) (api_boot_state s m)))
   | _ \<Rightarrow> Some (None, s))"

text \<open>The commands that are accepted while the firmware blocks.\<close>

definition cooperative :: "command \<Rightarrow> bool" where
  "cooperative c = (case c of Set_Probe_Inputs _ _ \<Rightarrow> True | Set_Cover_Open _ \<Rightarrow> True | Set_Limit_Switch _ _ _ \<Rightarrow> True
     | Set_Motor_Alarm _ _ \<Rightarrow> True | Set_Spindle_Alarm _ \<Rightarrow> True | Set_Main_Button_Pressed _ \<Rightarrow> True
     | Set_E_Stop_Pressed _ \<Rightarrow> True | Set_Rotary_Accessory_Installed _ \<Rightarrow> True | Set_Atc_Pocket_Tools _ _ \<Rightarrow> True
     | Set_Spindle_Tool _ _ _ _ _ \<Rightarrow> True | Set_Tool_Setter_Box _ \<Rightarrow> True | Set_Stock_Box _ \<Rightarrow> True
     | Set_Temperature _ _ \<Rightarrow> True | _ \<Rightarrow> False)"

definition handle_cooperative_physical_command :: "('h, 'w, 'k) firmware \<Rightarrow> u64 \<Rightarrow> command \<Rightarrow> ('h, 'w, 'k) api \<Rightarrow> ('h, 'w, 'k) handled" where
  "handle_cooperative_physical_command fw i c s =
     (if cooperative c then handle_physical_command fw False i c s else Some (None, s))"

section \<open>Properties\<close>

definition with_main_loop :: "(nat \<Rightarrow> ('h, 'w, 'k) simulation \<Rightarrow> ('h, 'w, 'k) simulation) \<Rightarrow> ('h, 'w, 'k) firmware \<Rightarrow> ('h, 'w, 'k) firmware" where
  "with_main_loop g fw = fw\<lparr>fw_main_loop := g\<rparr>"

lemma main_loop_irrelevant [simp]:
  "session_boot (with_main_loop g fw) = session_boot fw"
  "configured_pin (with_main_loop g fw) = configured_pin fw"
  "set_probe_inputs (with_main_loop g fw) = set_probe_inputs fw"
  "set_cover_open (with_main_loop g fw) = set_cover_open fw"
  "set_limit_switch (with_main_loop g fw) = set_limit_switch fw"
  "set_motor_alarm (with_main_loop g fw) = set_motor_alarm fw"
  "set_spindle_alarm (with_main_loop g fw) = set_spindle_alarm fw"
  "set_main_button_pressed (with_main_loop g fw) = set_main_button_pressed fw"
  "set_e_stop_pressed (with_main_loop g fw) = set_e_stop_pressed fw"
  "read_config (with_main_loop g fw) = read_config fw"
  "configure_physical_scene (with_main_loop g fw) = configure_physical_scene fw"
  "apply_atc_pocket_tools (with_main_loop g fw) = apply_atc_pocket_tools fw"
proof -
  show sb [simp]: "session_boot (with_main_loop g fw) = session_boot fw"
    by (simp add: fun_eq_iff session_boot_def with_main_loop_def)
  show cp [simp]: "configured_pin (with_main_loop g fw) = configured_pin fw"
    by (simp add: fun_eq_iff configured_pin_def with_main_loop_def)
  have dc [simp]: "drive_configured_input (with_main_loop g fw) = drive_configured_input fw"
    by (simp add: fun_eq_iff drive_configured_input_def)
  have sel [simp]: "fw_checksum (with_main_loop g fw) = fw_checksum fw" "fw_model (with_main_loop g fw) = fw_model fw"
    "fw_has_config (with_main_loop g fw) = fw_has_config fw" "fw_as_string (with_main_loop g fw) = fw_as_string fw"
    "fw_pin (with_main_loop g fw) = fw_pin fw" "fw_booted (with_main_loop g fw) = fw_booted fw"
    "fw_factory (with_main_loop g fw) = fw_factory fw" "fw_has_robot (with_main_loop g fw) = fw_has_robot fw"
    "fw_as_number (with_main_loop g fw) = fw_as_number fw" "fw_eeprom_tool (with_main_loop g fw) = fw_eeprom_tool fw"
    by (simp_all add: with_main_loop_def)
  have pins [simp]: "cover_pin (with_main_loop g fw) = cover_pin fw" "limit_checksum (with_main_loop g fw) = limit_checksum fw"
    "spindle_alarm_pin (with_main_loop g fw) = spindle_alarm_pin fw"
    by (simp_all add: fun_eq_iff cover_pin_def limit_checksum_def spindle_alarm_pin_def)
  show "set_probe_inputs (with_main_loop g fw) = set_probe_inputs fw" by (simp add: fun_eq_iff set_probe_inputs_def Let_def)
  show "set_cover_open (with_main_loop g fw) = set_cover_open fw" by (simp add: fun_eq_iff set_cover_open_def Let_def)
  show "set_limit_switch (with_main_loop g fw) = set_limit_switch fw" by (simp add: fun_eq_iff set_limit_switch_def Let_def)
  show "set_motor_alarm (with_main_loop g fw) = set_motor_alarm fw" by (simp add: fun_eq_iff set_motor_alarm_def Let_def)
  show "set_spindle_alarm (with_main_loop g fw) = set_spindle_alarm fw" by (simp add: fun_eq_iff set_spindle_alarm_def Let_def)
  show "set_main_button_pressed (with_main_loop g fw) = set_main_button_pressed fw" by (simp add: fun_eq_iff set_main_button_pressed_def Let_def)
  show "set_e_stop_pressed (with_main_loop g fw) = set_e_stop_pressed fw" by (simp add: fun_eq_iff set_e_stop_pressed_def Let_def)
  show rc [simp]: "read_config (with_main_loop g fw) = read_config fw"
  proof (intro ext)
    have parts: "coordinate_number (with_main_loop g fw) = coordinate_number fw"
      "active_tool_from_eeprom (with_main_loop g fw) = active_tool_from_eeprom fw"
      by (simp_all add: fun_eq_iff coordinate_number_def active_tool_from_eeprom_def)
    show "read_config (with_main_loop g fw) k reconcile = read_config fw k reconcile" for k reconcile
      unfolding read_config_def sel parts by (rule refl)
  qed
  show cs [simp]: "configure_physical_scene (with_main_loop g fw) = configure_physical_scene fw"
    by (simp add: fun_eq_iff configure_physical_scene_def)
  show "apply_atc_pocket_tools (with_main_loop g fw) = apply_atc_pocket_tools fw"
    by (intro ext) (unfold apply_atc_pocket_tools_def sel cs, rule refl)
qed

lemma pump_once_False [simp]: "pump_once fw False s = s"
  by (simp add: pump_once_def)

text \<open>
  While the firmware blocks in a cooperative wait, an accepted physical command does not run its main
  loop: what it does and answers is the same whatever the main loop would do.  Setting a temperature is the
  one exception: its last act is to run the main loop, in the middle of the wait.
\<close>
theorem cooperative_commands_do_not_pump:
  "((\<forall>sensor celsius. c \<noteq> Set_Temperature sensor celsius) \<longrightarrow>
      handle_cooperative_physical_command (with_main_loop g fw) i c s = handle_cooperative_physical_command fw i c s) \<and>
   (handle_cooperative_physical_command fw i (Set_Temperature sensor celsius) s = Some (Some (ok i), s') \<longrightarrow>
      (\<exists>m. api_sim s' = fw_main_loop fw 1 m))"
proof
  show "(\<forall>sensor celsius. c \<noteq> Set_Temperature sensor celsius) \<longrightarrow>
      handle_cooperative_physical_command (with_main_loop g fw) i c s = handle_cooperative_physical_command fw i c s"
    by (cases c) (simp_all add: handle_cooperative_physical_command_def handle_physical_command_def cooperative_def Let_def split_beta split: option.split cong: if_cong)
  show "handle_cooperative_physical_command fw i (Set_Temperature sensor celsius) s = Some (Some (ok i), s') \<longrightarrow>
      (\<exists>m. api_sim s' = fw_main_loop fw 1 m)"
    by (auto simp: handle_cooperative_physical_command_def handle_physical_command_def cooperative_def apply_temperature_def
      answered_def reply_def ok_def error_def inject_temperature_def Let_def split: option.splits if_splits prod.splits)
qed

text \<open>A main loop that unboots the kernel would be seen after setting a temperature, and only then.\<close>

theorem cooperative_commands_do_not_pump_witness:
  "handle_cooperative_physical_command (with_main_loop (\<lambda>n m. m\<lparr>kernel := False\<rparr>) sample_firmware) 3 (Set_E_Stop_Pressed True) sample_api =
     handle_cooperative_physical_command sample_firmware 3 (Set_E_Stop_Pressed True) sample_api"
  using cooperative_commands_do_not_pump [of "Set_E_Stop_Pressed True" "\<lambda>n m. m\<lparr>kernel := False\<rparr>" sample_firmware 3 sample_api]
  by simp

text \<open>
  A list of pocket tools with a tool of negative length is refused, but the tools before it have been
  put into the rack, and the rack has been emptied first when the request replaces it.
\<close>
theorem refused_pocket_tools_stay:
  assumes "\<forall>t \<in> set before'. 0 \<le> req_length_mm t \<and> 0 \<le> req_tip_mm t" "req_length_mm bad < 0"
  shows "handle_physical_command fw pump i (Set_Atc_Pocket_Tools (before' @ bad # after) replaced) s =
    reply (error i ''ATC tool length must be non-negative'')
      (on_scene (\<lambda>scene. snd (apply_tools before' (if replaced then clear_atc_pocket_tools scene else scene))) s)"
proof -
  have "apply_tools (before' @ bad # after) scene = (Some ''ATC tool length must be non-negative'', snd (apply_tools before' scene))" for scene
    using assms by (induction before' arbitrary: scene) auto
  then show ?thesis
    by (auto simp: handle_physical_command_def apply_atc_pocket_tools_def answered_def Let_def on_scene_def api_machine_def)
qed

definition sample_pocket_tool :: "u32 \<Rightarrow> real \<Rightarrow> pocket_tool_request" where
  "sample_pocket_tool n len = \<lparr>req_pocket = n, req_tool = 3, req_occupied = True, req_length_mm = len, req_kind = 1, req_tip_mm = 0\<rparr>"

theorem refused_pocket_tools_stay_witness:
  "handle_physical_command sample_firmware True 5 (Set_Atc_Pocket_Tools [sample_pocket_tool 1 40, sample_pocket_tool 2 (- 1)] True) sample_api =
    reply (error 5 ''ATC tool length must be non-negative'')
      (on_scene (\<lambda>scene. snd (apply_tools [sample_pocket_tool 1 40] (clear_atc_pocket_tools scene))) sample_api)"
  using refused_pocket_tools_stay [of "[sample_pocket_tool 1 40]" "sample_pocket_tool 2 (- 1)" sample_firmware True 5 "[]" True sample_api]
  by (simp add: sample_pocket_tool_def)

end
