(* ===== verification/Firmware_Utils.thy ===== *)
theory Firmware_Utils
  imports Host_Filesystem "HOL-Library.Signed_Division"
begin

text \<open>
  The utilities the simulator supplies to the firmware (\<^verbatim>\<open>src/firmware/utils_stubs.cpp\<close>): character classes,
  the splitting of command lines and lists, configuration checksums, paths relative to the current directory
  and the time stamps of the FAT file system.

  A C++ \<^verbatim>\<open>char\<close> may be signed: the parameter \<open>char_val\<close> of the checksum is the value the platform gives a
  character.  Arguments of the character classes are the \<^verbatim>\<open>int\<close>s they are called with.
\<close>

section \<open>Characters\<close>

definition char_code :: "char \<Rightarrow> int" where
  "char_code c = of_char c"

definition is_whitespace :: "int \<Rightarrow> bool" where
  "is_whitespace c \<longleftrightarrow> c = 32 \<or> c = 9"

definition is_alpha :: "int \<Rightarrow> bool" where
  "is_alpha c \<longleftrightarrow> (97 \<le> c \<and> c \<le> 122) \<or> (65 \<le> c \<and> c \<le> 90) \<or> c = 95"

definition is_digit :: "int \<Rightarrow> bool" where
  "is_digit c \<longleftrightarrow> 48 \<le> c \<and> c \<le> 57"

definition is_numeric :: "int \<Rightarrow> bool" where
  "is_numeric c \<longleftrightarrow> is_digit c \<or> c = 46 \<or> c = 45 \<or> c = 101"

definition is_alphanum :: "int \<Rightarrow> bool" where
  "is_alphanum c \<longleftrightarrow> is_alpha c \<or> is_numeric c"

text \<open>\<^verbatim>\<open>std::tolower\<close> in the C locale.\<close>

definition lower_char :: "char \<Rightarrow> char" where
  "lower_char c = (if 65 \<le> char_code c \<and> char_code c \<le> 90 then char_of (char_code c + 32) else c)"

definition lc :: "string \<Rightarrow> string" where
  "lc s = map lower_char s"

section \<open>Command lines\<close>

definition blank :: "char \<Rightarrow> bool" where
  "blank c \<longleftrightarrow> c = CHR '' '' \<or> c = CHR 0x09"

definition skip_blanks :: "string \<Rightarrow> string" where
  "skip_blanks s = dropWhile blank s"

definition shift_parameter :: "string \<Rightarrow> string \<times> string" where
  "shift_parameter parameters =
     (let rest = skip_blanks parameters
      in if rest = [] then ([], [])
         else if (hd rest = CHR 0x22 \<or> hd rest = CHR 0x27) \<and> hd rest \<in> set (tl rest)
         then let quote = hd rest
              in (takeWhile (\<lambda>c. c \<noteq> quote) (tl rest), skip_blanks (tl (dropWhile (\<lambda>c. c \<noteq> quote) (tl rest))))
         else (takeWhile (\<lambda>c. c \<noteq> CHR '' '') rest, skip_blanks (dropWhile (\<lambda>c. c \<noteq> CHR '' '') rest)))"

definition get_arguments :: "string \<Rightarrow> string" where
  "get_arguments command = tl (dropWhile (\<lambda>c. \<not> blank c) command)"

definition ltrim :: "string \<Rightarrow> string \<Rightarrow> string" where
  "ltrim t s = dropWhile (\<lambda>c. c \<in> set t) s"

text \<open>\<^verbatim>\<open>std::isspace\<close> in the C locale.\<close>

definition is_space :: "char \<Rightarrow> bool" where
  "is_space c \<longleftrightarrow> c = CHR '' '' \<or> 9 \<le> char_code c \<and> char_code c \<le> 13"

definition ltrim_cstr :: "string \<Rightarrow> string" where
  "ltrim_cstr s = dropWhile is_space s"

section \<open>Lists and checksums\<close>

fun split_at :: "char \<Rightarrow> string \<Rightarrow> string list" where
  "split_at delimiter [] = [[]]"
| "split_at delimiter (c # s) =
     (if c = delimiter then [] # split_at delimiter s
      else case split_at delimiter s of [] \<Rightarrow> [[c]] | p # ps \<Rightarrow> (c # p) # ps)"

definition parse_number_list :: "(string \<Rightarrow> 'n) \<Rightarrow> string option \<Rightarrow> 'n list" where
  "parse_number_list number str = (case str of None \<Rightarrow> [] | Some s \<Rightarrow> map number (split_at CHR '','' s))"

text \<open>The sums are unsigned 16-bit words; \<^verbatim>\<open>(sum + value) % 255\<close> is taken in \<^verbatim>\<open>int\<close> and cut to 16 bits.\<close>

fun checksum_from :: "(char \<Rightarrow> int) \<Rightarrow> u16 \<Rightarrow> u16 \<Rightarrow> string \<Rightarrow> u16 \<times> u16" where
  "checksum_from char_val sum1 sum2 [] = (sum1, sum2)"
| "checksum_from char_val sum1 sum2 (c # s) =
     (let sum1 = word_of_int ((uint sum1 + char_val c) smod 255);
          sum2 = word_of_int ((uint sum2 + uint sum1) smod 255)
      in checksum_from char_val sum1 sum2 s)"

definition get_checksum :: "(char \<Rightarrow> int) \<Rightarrow> string \<Rightarrow> u16" where
  "get_checksum char_val s = (case checksum_from char_val 0 0 s of (sum1, sum2) \<Rightarrow> push_bit 8 sum2 OR sum1)"

text \<open>The loop of \<^verbatim>\<open>get_checksums\<close> with the number of sums that are still to be stored.\<close>

fun checksums_from :: "(char \<Rightarrow> int) \<Rightarrow> nat \<Rightarrow> string \<Rightarrow> u16 list" where
  "checksums_from char_val 0 key = []"
| "checksums_from char_val (Suc n) key =
     (let part = takeWhile (\<lambda>c. c \<noteq> CHR ''.'') key; sum = (if part = [] then 0 else get_checksum char_val part)
      in case dropWhile (\<lambda>c. c \<noteq> CHR ''.'') key of
           [] \<Rightarrow> sum # replicate n 0
         | _ # rest \<Rightarrow> sum # checksums_from char_val n rest)"

definition get_checksums :: "(char \<Rightarrow> int) \<Rightarrow> string \<Rightarrow> u16 list" where
  "get_checksums char_val key = checksums_from char_val 3 key"

definition remove_non_number :: "string \<Rightarrow> string" where
  "remove_non_number s = filter (\<lambda>c. c \<in> set ''0123456789-.abcdefpxABCDEFPX'') s"

definition wcs2gcode :: "int \<Rightarrow> string" where
  "wcs2gcode wcs = ''G5'' @ [char_of (min wcs 5 + 52)] @ (if wcs \<ge> 6 then ''.'' @ [char_of (49 + (wcs - 6))] else [])"

section \<open>Paths\<close>

definition parent_path :: "string \<Rightarrow> string" where
  "parent_path cwd = rev (tl (dropWhile (\<lambda>c. c \<noteq> CHR ''/'') (rev cwd)))"

fun starts :: "string \<Rightarrow> string \<Rightarrow> bool" where
  "starts p s = (take (length p) s = p)"

function climb :: "string \<Rightarrow> string \<Rightarrow> string \<times> string" where
  "climb cwd path = (if starts ''../'' path then climb (parent_path cwd) (drop 3 path) else (cwd, path))"
  by pat_completeness auto
termination
proof (relation "measure (\<lambda>(_, path). length path)")
  fix cwd path :: string
  assume "starts ''../'' path"
  then have "path \<noteq> []" by auto
  then show "((parent_path cwd, drop 3 path), cwd, path) \<in> measure (\<lambda>(_, path). length path)" by simp
qed simp

declare climb.simps [simp del]

definition absolute_from_relative :: "string option \<Rightarrow> string \<Rightarrow> string" where
  "absolute_from_relative current path =
     (let cwd = (case current of None \<Rightarrow> ''/sd'' | Some p \<Rightarrow> p)
      in if path = [] then cwd
         else if hd path = CHR ''/'' then path
         else let (cwd, path) = climb cwd path;
                  (cwd, path) = (if starts ''..'' path then (parent_path cwd, drop 2 path) else (cwd, path))
              in if cwd \<noteq> [] \<and> last cwd = CHR ''/'' then cwd @ path else cwd @ ''/'' @ path)"

text \<open>The directories \<^verbatim>\<open>check_and_make_path\<close> creates, in order: the part before each slash.\<close>

definition path_prefixes :: "string \<Rightarrow> string list" where
  "path_prefixes origin = filter (\<lambda>d. d \<noteq> []) (map (\<lambda>i. take i origin) (filter (\<lambda>i. origin ! i = CHR ''/'') [0..<length origin]))"

definition gcodes_filename :: "string \<Rightarrow> string" where
  "gcodes_filename origin = (case str_find ''gcodes/'' origin of None \<Rightarrow> origin | Some n \<Rightarrow> drop (n + 7) origin)"

definition change_to_gcodes_subdir :: "string \<Rightarrow> string \<Rightarrow> string" where
  "change_to_gcodes_subdir subdir origin = ''/sd/gcodes/'' @ subdir @ ''/'' @ gcodes_filename origin"

section \<open>Parameters in a buffer\<close>

text \<open>
  A write outside the buffer is the value \<open>None\<close>.  \<^verbatim>\<open>snprintf\<close> writes at most one character less than the size
  it is given and then a terminating zero, nothing at all for the size zero, and returns the length of the
  whole text.  The parameter \<open>fmt\<close> is the text of \<^verbatim>\<open>"%1.4f "\<close> for a value.
\<close>

definition write_at :: "nat \<Rightarrow> string \<Rightarrow> string \<Rightarrow> string option" where
  "write_at n s buf = (if n + length s \<le> length buf then Some (take n buf @ s @ drop (n + length s) buf) else None)"

definition snprintf_at :: "nat \<Rightarrow> nat \<Rightarrow> string \<Rightarrow> string \<Rightarrow> string option" where
  "snprintf_at n room s buf = (if room = 0 then Some buf else write_at n (take (room - 1) s @ [CHR 0x00]) buf)"

fun append_from :: "('v \<Rightarrow> string) \<Rightarrow> nat \<Rightarrow> nat \<Rightarrow> (char \<times> 'v) list \<Rightarrow> string \<Rightarrow> (nat \<times> string) option" where
  "append_from fmt bufsize n [] buf = Some (n, buf)"
| "append_from fmt bufsize n ((letter, value) # params) buf =
     (if n \<ge> bufsize then Some (n, buf)
      else case write_at n [letter] buf of
          None \<Rightarrow> None
        | Some buf \<Rightarrow> (case snprintf_at (n + 1) (bufsize - (n + 1)) (fmt value) buf of
              None \<Rightarrow> None
            | Some buf \<Rightarrow> append_from fmt bufsize (n + 1 + length (fmt value)) params buf))"

definition append_parameters :: "('v \<Rightarrow> string) \<Rightarrow> nat \<Rightarrow> (char \<times> 'v) list \<Rightarrow> string \<Rightarrow> (nat \<times> string) option" where
  "append_parameters fmt bufsize params buf = append_from fmt bufsize 0 params buf"

section \<open>Time\<close>

record fat_time =
  tm_sec :: nat
  tm_min :: nat
  tm_hour :: nat
  tm_mday :: nat
  tm_mon :: nat
  tm_year :: nat

definition get_fftime :: "u16 \<Rightarrow> u16 \<Rightarrow> fat_time" where
  "get_fftime t_date t_time =
     \<lparr>tm_sec = unat (t_time AND mask 5), tm_min = unat (drop_bit 5 t_time AND mask 6), tm_hour = unat (drop_bit 11 t_time AND mask 5),
      tm_mday = unat (t_date AND mask 5), tm_mon = unat (drop_bit 5 t_date AND mask 4), tm_year = unat (drop_bit 9 t_date AND mask 7)\<rparr>"

record clock_state =
  time_offset_seconds :: int

definition current_time :: "int \<Rightarrow> clock_state \<Rightarrow> int" where
  "current_time host_epoch s = host_epoch + time_offset_seconds s"

definition set_time :: "int \<Rightarrow> int \<Rightarrow> clock_state \<Rightarrow> clock_state" where
  "set_time host_epoch new_time s = s\<lparr>time_offset_seconds := new_time - host_epoch\<rparr>"

section \<open>Properties\<close>

fun join_with :: "char \<Rightarrow> string list \<Rightarrow> string" where
  "join_with d [] = []"
| "join_with d [p] = p"
| "join_with d (p # q # ps) = p @ d # join_with d (q # ps)"

lemma split_at_nonempty [simp]: "split_at d s \<noteq> []"
  by (cases s) (auto split: list.split)

lemma join_split_at: "join_with d (split_at d s) = s \<and> (\<forall>p\<in>set (split_at d s). d \<notin> set p)"
proof (induction s)
  case (Cons c s)
  then show ?case by (cases "split_at d s"; cases "tl (split_at d s)") (auto split: list.splits)
qed simp

lemma split_at_join:
  "ps \<noteq> [] \<Longrightarrow> \<forall>p\<in>set ps. d \<notin> set p \<Longrightarrow> split_at d (join_with d ps) = ps"
proof (induction d ps rule: join_with.induct)
  case (2 d p)
  then have "d \<notin> set p" by simp
  then show ?case by (induction p) auto
next
  case (3 d p q ps)
  then have "d \<notin> set p" "split_at d (join_with d (q # ps)) = q # ps" by simp_all
  then show ?case by (induction p) auto
qed simp

text \<open>Taking a parameter shortens the line, so the loops that take parameters until the line is empty end.\<close>

lemma length_skip_blanks: "length (skip_blanks s) \<le> length s"
  by (simp add: skip_blanks_def length_dropWhile_le)

lemma shift_parameter_shortens:
  assumes "parameters \<noteq> []"
  shows "length (snd (shift_parameter parameters)) < length parameters"
proof (cases "skip_blanks parameters")
  case (Cons c rest)
  have len: "length (c # rest) \<le> length parameters" using length_skip_blanks [of parameters] Cons by simp
  have "c \<noteq> CHR '' ''" using Cons hd_dropWhile [of blank parameters] by (auto simp: skip_blanks_def blank_def)
  then have "length (dropWhile (\<lambda>c. c \<noteq> CHR '' '') (c # rest)) \<le> length rest"
    by (simp add: length_dropWhile_le)
  moreover have "length (skip_blanks (tl (dropWhile (\<lambda>d. d \<noteq> c) rest))) \<le> length rest"
    using length_skip_blanks length_dropWhile_le [of "\<lambda>d. d \<noteq> c" rest]
    by (metis diff_le_self le_trans length_tl)
  ultimately show ?thesis
    using len length_skip_blanks [of "dropWhile (\<lambda>c. c \<noteq> CHR '' '') (c # rest)"] Cons
    by (auto simp: shift_parameter_def Let_def)
qed (use assms in \<open>simp add: shift_parameter_def\<close>)

lemma length_write_at: "write_at n s buf = Some buf' \<Longrightarrow> length buf' = length buf"
  by (auto simp: write_at_def split: if_splits)

lemma append_from_total:
  "length buf = bufsize \<Longrightarrow> \<exists>n' buf'. append_from fmt bufsize n params buf = Some (n', buf') \<and> length buf' = bufsize"
proof (induction fmt bufsize n params buf rule: append_from.induct)
  case (2 fmt bufsize n letter v params buf)
  show ?case
  proof (cases "n \<ge> bufsize")
    case False
    then obtain buf1 where 1: "write_at n [letter] buf = Some buf1" using 2 by (simp add: write_at_def)
    then have l1: "length buf1 = bufsize" using 2 length_write_at by simp
    then have "snprintf_at (n + 1) (bufsize - (n + 1)) (fmt v) buf1 \<noteq> None"
      by (auto simp: snprintf_at_def write_at_def)
    then obtain buf2 where 3: "snprintf_at (n + 1) (bufsize - (n + 1)) (fmt v) buf1 = Some buf2" by blast
    then have "length buf2 = bufsize" using l1 length_write_at by (auto simp: snprintf_at_def split: if_splits)
    then show ?thesis using 2 False 1 3 by simp
  qed (use 2 in simp)
qed simp

lemma checksum_halves_bounded:
  assumes "\<forall>c\<in>set s. 0 \<le> char_val c" and "unat a < 255" and "unat b < 255"
    and "checksum_from char_val a b s = (x, y)"
  shows "unat x < 255 \<and> unat y < 255"
  using assms
proof (induction char_val a b s rule: checksum_from.induct)
  case (2 cv a b c s)
  let ?a = "word_of_int ((uint a + cv c) smod 255) :: u16"
  let ?b = "word_of_int ((uint b + uint ?a) smod 255) :: u16"
  have lt: "unat (word_of_int (i smod 255) :: u16) < 255" if "0 \<le> i" for i
  proof -
    have "i smod 255 = i mod 255" using that
      by (cases "i = 0") (simp_all add: signed_modulo_int_def signed_divide_int_def minus_div_mult_eq_mod)
    moreover have "0 \<le> i mod 255" "i mod 255 < 255" by simp_all
    ultimately show ?thesis by (simp add: unsigned_of_int take_bit_int_eq_self nat_less_iff)
  qed
  have "unat ?a < 255" "unat ?b < 255" using 2(2) by (intro lt; simp)+
  then show ?case using 2 by (simp add: Let_def)
qed simp

end
