(* ===== verification/Realtime_Clock.thy ===== *)
theory Realtime_Clock
  imports Sim_Prelude Complex_Main "HOL-Library.Monad_Syntax"
begin

text \<open>
  The virtual clock with its modes (\<^verbatim>\<open>src/core/virtual_clock.cpp\<close>), the pacer that holds the simulated timers
  to the wall clock in real time (\<^verbatim>\<open>src/core/realtime_timer_pacer.cpp\<close>) and the callback the firmware's
  delays run (\<^verbatim>\<open>src/core/delay_hooks.cpp\<close>).

  A \<^verbatim>\<open>double\<close> that may be infinite or not a number is a \<^typ>\<open>real option\<close>.  Wall-clock times and durations are
  nanoseconds; a conversion to 64 bits that does not fit is undefined in C++ and \<open>None\<close> here.
\<close>

section \<open>The clock\<close>

record virtual_clock =
  realtime :: bool
  base_us :: u64
  realtime_speed :: real

definition vc_reset :: virtual_clock where
  "vc_reset = \<lparr>realtime = False, base_us = 0, realtime_speed = 1\<rparr>"

definition vc_advance_us :: "u64 \<Rightarrow> virtual_clock \<Rightarrow> virtual_clock" where
  "vc_advance_us delta c = c\<lparr>base_us := base_us c + delta\<rparr>"

definition start_realtime :: "virtual_clock \<Rightarrow> virtual_clock" where
  "start_realtime c = c\<lparr>realtime := True\<rparr>"

definition pause_realtime :: "virtual_clock \<Rightarrow> virtual_clock" where
  "pause_realtime c = c\<lparr>realtime := False\<rparr>"

definition set_realtime_speed :: "real option \<Rightarrow> virtual_clock \<Rightarrow> bool \<times> virtual_clock" where
  "set_realtime_speed speed c = (case speed of
     None \<Rightarrow> (False, c)
   | Some v \<Rightarrow> if v \<le> 0 \<or> v > 100 then (False, c) else (True, c\<lparr>realtime_speed := v\<rparr>))"

definition speed_ok :: "virtual_clock \<Rightarrow> bool" where
  "speed_ok c \<longleftrightarrow> 0 < realtime_speed c \<and> realtime_speed c \<le> 100"

lemma speed_ok_ops [simp, inv_intros]:
  "speed_ok vc_reset" "speed_ok (vc_advance_us d c) = speed_ok c" "speed_ok (start_realtime c) = speed_ok c"
  "speed_ok (pause_realtime c) = speed_ok c" "speed_ok c \<Longrightarrow> speed_ok (snd (set_realtime_speed speed c))"
  by (auto simp: speed_ok_def vc_reset_def vc_advance_us_def start_realtime_def pause_realtime_def set_realtime_speed_def
      split: option.split)

section \<open>Durations\<close>

text \<open>The sum is a 64-bit one.\<close>

definition cycles_to_duration :: "u32 \<Rightarrow> u32 \<Rightarrow> u64" where
  "cycles_to_duration core cycles =
     (let pclk = ucast (max 1 (core div 4)) :: u64 in (ucast cycles * 1000000000 + pclk - 1) div pclk)"

definition scale_duration :: "int \<Rightarrow> real \<Rightarrow> int option" where
  "scale_duration duration speed =
     (let scaled = \<lfloor>of_int duration / speed\<rfloor> in if scaled < 2 ^ 63 then Some (max 1 scaled) else None)"

lemma unat_pclk_ns: "unat (ucast (max 1 (core div 4)) :: u64) = max 1 (unat core div 4)" for core :: u32
proof -
  have "unat (max 1 (core div 4)) = max 1 (unat core div 4)"
    by (simp add: max_def word_le_nat_alt unat_div)
  moreover have "unat (ucast w :: u64) = unat w" for w :: u32
    using unat_u32_lt [of w] by (simp add: unsigned_ucast_eq take_bit_nat_eq_self)
  ultimately show ?thesis by simp
qed

text \<open>The sum does not overflow: the duration is that of the cycles at a quarter of the core clock, rounded up.\<close>

lemma cycles_to_duration_exact:
  "unat (cycles_to_duration core cycles) =
     (unat cycles * 1000000000 + (max 1 (unat core div 4) - 1)) div max 1 (unat core div 4)"
proof -
  define p where "p = (ucast (max 1 (core div 4)) :: u64)"
  have p: "unat p = max 1 (unat core div 4)" by (simp only: p_def unat_pclk_ns)
  have lt: "unat p < 2 ^ 31" using unat_u32_lt [of core] by (simp add: p)
  have c: "unat (ucast cycles :: u64) = unat cycles"
    using unat_u32_lt [of cycles] by (simp add: unsigned_ucast_eq take_bit_nat_eq_self)
  have prod: "unat ((ucast cycles :: u64) * 1000000000) = unat cycles * 1000000000"
    using unat_u32_lt [of cycles] by (subst unat_mult_lem [THEN iffD1]) (simp_all add: c)
  have sum: "unat ((ucast cycles :: u64) * 1000000000 + p) = unat cycles * 1000000000 + unat p"
    using unat_u32_lt [of cycles] lt by (subst unat_plus_if) (simp_all add: prod)
  have "unat ((ucast cycles :: u64) * 1000000000 + p - 1) = unat cycles * 1000000000 + unat p - 1"
  proof -
    have "1 \<le> (ucast cycles :: u64) * 1000000000 + p" using p sum by (simp add: word_le_nat_alt)
    then show ?thesis by (simp add: unat_minus_if sum)
  qed
  then have "unat (cycles_to_duration core cycles) = (unat cycles * 1000000000 + unat p - 1) div unat p"
    unfolding cycles_to_duration_def Let_def p_def [symmetric] by (simp add: unat_div)
  then show ?thesis by (simp add: p)
qed

section \<open>The pacer\<close>

text \<open>The result says until when the thread sleeps, if it does, and the next deadline.\<close>

definition lag_limit_ns :: int where "lag_limit_ns = 100000000"

definition pace_cycles :: "u32 \<Rightarrow> virtual_clock \<Rightarrow> int \<Rightarrow> u32 \<Rightarrow> int option \<Rightarrow> (int option \<times> int option) option" where
  "pace_cycles core c now cycles deadline =
     (if \<not> realtime c then Some (None, None)
      else let start = (case deadline of None \<Rightarrow> now | Some d \<Rightarrow> d)
           in do { scaled \<leftarrow> scale_duration (uint (cycles_to_duration core cycles)) (realtime_speed c);
                   let next_deadline = start + scaled;
                   Some (if next_deadline > now then (Some next_deadline, Some next_deadline)
                         else (None, Some (if now - next_deadline > lag_limit_ns then now else next_deadline))) })"

text \<open>Calls at the times \<open>ns\<close>, each with its cycles.\<close>

fun pace_all :: "u32 \<Rightarrow> virtual_clock \<Rightarrow> (int \<times> u32) list \<Rightarrow> int option \<Rightarrow> int option option" where
  "pace_all core c [] deadline = Some deadline"
| "pace_all core c ((now, cycles) # calls) deadline =
     do { (_, deadline) \<leftarrow> pace_cycles core c now cycles deadline; pace_all core c calls deadline }"

text \<open>The wall-clock time a number of cycles takes at the chosen speed.\<close>

definition paced_ns :: "u32 \<Rightarrow> virtual_clock \<Rightarrow> u32 \<Rightarrow> int" where
  "paced_ns core c cycles = max 1 \<lfloor>of_int (uint (cycles_to_duration core cycles)) / realtime_speed c\<rfloor>"

text \<open>The schedule: each call is due one duration after the one before, and no call is late by more than the limit.\<close>

fun on_time :: "u32 \<Rightarrow> virtual_clock \<Rightarrow> (int \<times> u32) list \<Rightarrow> int \<Rightarrow> bool" where
  "on_time core c [] due \<longleftrightarrow> True"
| "on_time core c ((now, cycles) # calls) due \<longleftrightarrow>
     now \<le> due + paced_ns core c cycles + lag_limit_ns \<and> on_time core c calls (due + paced_ns core c cycles)"

lemma cycles_to_duration_bound: "unat (cycles_to_duration core cycles) < 4611686018427387904"
proof -
  define p where "p = max 1 (unat core div 4)"
  have p: "p \<le> 2 ^ 30" using unat_u32_lt [of core] by (simp add: p_def)
  have "unat (cycles_to_duration core cycles) \<le> unat cycles * 1000000000 + (p - 1)"
    unfolding cycles_to_duration_exact p_def [symmetric] by (rule div_le_dividend)
  also have "\<dots> < 4611686018427387904" using p unat_u32_lt [of cycles] by simp
  finally show ?thesis .
qed

lemma scale_paced:
  assumes "1 / 2 \<le> realtime_speed c"
  shows "scale_duration (uint (cycles_to_duration core cycles)) (realtime_speed c) = Some (paced_ns core c cycles)"
proof -
  define d where "d = uint (cycles_to_duration core cycles)"
  have "int (unat (cycles_to_duration core cycles)) < int 4611686018427387904"
    using cycles_to_duration_bound unfolding of_nat_less_iff by simp
  then have d: "0 \<le> d" "d < 4611686018427387904" by (simp_all add: d_def)
  have "real_of_int d / realtime_speed c \<le> real_of_int d / (1 / 2)"
    using assms d(1) by (intro divide_left_mono) auto
  also have "\<dots> < 9223372036854775808" using d(2) by simp
  finally have "\<lfloor>real_of_int d / realtime_speed c\<rfloor> < 2 ^ 63" by (simp add: floor_less_iff)
  then show ?thesis by (simp only: scale_duration_def paced_ns_def Let_def d_def if_True)
qed

lemma pace_cycles_on_time:
  assumes "realtime c" "1 / 2 \<le> realtime_speed c" "now \<le> due + paced_ns core c cycles + lag_limit_ns"
  shows "pace_cycles core c now cycles (Some due) =
    Some (if due + paced_ns core c cycles > now then Some (due + paced_ns core c cycles) else None, Some (due + paced_ns core c cycles))"
  using assms by (auto simp: pace_cycles_def scale_paced Let_def)



text \<open>After a call the deadline is never more than a tenth of a second in the past: a delay is not caught up with a burst.\<close>

lemma pacer_lag_bounded:
  "pace_cycles core c now cycles deadline = Some (sleep, Some d) \<Longrightarrow> now - lag_limit_ns \<le> d"
  by (auto simp: pace_cycles_def Let_def bind_eq_Some_conv lag_limit_ns_def split: if_splits)

text \<open>
  The clock accepts every positive speed, and a small one makes the pacer convert a duration that does not fit
  into 64 bits: here 25 million cycles, a second of a 100 MHz core, at a speed of 10 to the minus ten.
\<close>
theorem tiny_speed_overflows_pacer:
  "fst (set_realtime_speed (Some (1 / 10 ^ 10)) vc_reset) \<and>
   pace_cycles 100000000 (start_realtime (snd (set_realtime_speed (Some (1 / 10 ^ 10)) vc_reset))) 0 25000000 None = None"
  by (simp add: set_realtime_speed_def vc_reset_def start_realtime_def pace_cycles_def cycles_to_duration_def scale_duration_def)

section \<open>Delay hooks\<close>

text \<open>
  The active callback of a thread.  A scope replaces it and puts the one before back; \<open>hook_run\<close> also says
  whether there was one to call.
\<close>

definition hook_enter :: "('w \<Rightarrow> 'w) option \<Rightarrow> ('w \<Rightarrow> 'w) option \<Rightarrow> ('w \<Rightarrow> 'w) option \<times> ('w \<Rightarrow> 'w) option" where
  "hook_enter callback active = (active, callback)"

definition hook_leave :: "('w \<Rightarrow> 'w) option \<Rightarrow> ('w \<Rightarrow> 'w) option \<Rightarrow> ('w \<Rightarrow> 'w) option" where
  "hook_leave previous active = previous"

definition hook_run :: "('w \<Rightarrow> 'w) option \<Rightarrow> 'w \<Rightarrow> bool \<times> 'w" where
  "hook_run active w = (case active of None \<Rightarrow> (False, w) | Some f \<Rightarrow> (True, f w))"

end
