(* ===== verification/Robot_Axes.thy ===== *)
theory Robot_Axes
  imports Runtime_Controls
begin

text \<open>
  The stepper axes as the firmware's configuration wires them (\<^verbatim>\<open>src/core/robot_axis_binding.cpp\<close>): for every
  registered motor whose step and direction pins are connected, an axis with its scale, its position at power
  up and its limit switches, then the motor alarm pin driven inactive.

  The record \<open>robot_view\<close> is what the binding asks of the firmware's \<^verbatim>\<open>Robot\<close>.  A soft endstop that is not a
  finite number is \<open>None\<close>.  The firmware numbers its axes X, Y, Z, A from 0.
\<close>

section \<open>What the binding reads\<close>

record 'k robot_view =
  rb_motors :: "'k \<Rightarrow> nat"
  rb_steps_per_mm :: "'k \<Rightarrow> nat \<Rightarrow> real"
  rb_soft_min :: "'k \<Rightarrow> nat \<Rightarrow> real option"
  rb_soft_max :: "'k \<Rightarrow> nat \<Rightarrow> real option"

definition z_axis :: nat where "z_axis = 2"

definition a_axis :: nat where "a_axis = 3"

definition named_pin :: "('h, 'w, 'k) firmware \<Rightarrow> 'k \<Rightarrow> nat \<Rightarrow> string \<Rightarrow> firm_pin" where
  "named_pin fw k actuator suffix = fw_pin fw (fw_as_string fw k [fw_checksum fw (actuator_names ! actuator @ suffix)] ''nc'')"

definition limit_pin :: "('h, 'w, 'k) firmware \<Rightarrow> 'k \<Rightarrow> nat \<Rightarrow> endstop_side \<Rightarrow> firm_pin" where
  "limit_pin fw k actuator sd = fw_pin fw (fw_as_string fw k [limit_checksum fw sd actuator] ''nc'')"

definition home_to_min :: "('h, 'w, 'k) firmware \<Rightarrow> 'k \<Rightarrow> nat \<Rightarrow> bool" where
  "home_to_min fw k actuator \<longleftrightarrow>
     fw_as_string fw k [fw_checksum fw (actuator_names ! actuator @ ''_homing_direction'')] ''home_to_min'' \<noteq> ''home_to_max''"

definition shared_endstop_switch :: "('h, 'w, 'k) firmware \<Rightarrow> 'k \<Rightarrow> nat \<Rightarrow> bool" where
  "shared_endstop_switch fw k actuator \<longleftrightarrow>
     (let lo = limit_pin fw k actuator Min_Side; hi = limit_pin fw k actuator Max_Side
      in fp_connected lo \<and> fp_connected hi \<and> firm_pin_address lo = firm_pin_address hi)"

section \<open>Positions\<close>

definition configured_travel_range :: "('h, 'w, 'k) firmware \<Rightarrow> 'k \<Rightarrow> nat \<Rightarrow> bool \<Rightarrow> real \<times> real" where
  "configured_travel_range fw k actuator to_min =
     (let name = actuator_names ! actuator;
          home = fw_as_number fw k [fw_checksum fw (name @ (if to_min then ''_min'' else ''_max''))] 0;
          max_travel = fw_as_number fw k [fw_checksum fw (name @ ''_max_travel'')] 500
      in (if to_min then home else home - max_travel, if to_min then home + max_travel else home))"

definition soft_range :: "('h, 'w, 'k) firmware \<Rightarrow> 'k robot_view \<Rightarrow> 'k \<Rightarrow> nat \<Rightarrow> real \<times> real" where
  "soft_range fw rb k actuator =
     (let configured_range = configured_travel_range fw k actuator (home_to_min fw k actuator)
      in if actuator > z_axis then configured_range
         else case (rb_soft_min rb k actuator, rb_soft_max rb k actuator) of
             (Some lo, Some hi) \<Rightarrow> if lo \<ge> hi then configured_range else (lo, hi)
           | _ \<Rightarrow> configured_range)"

definition hard_limit_half_padding_mm :: real where "hard_limit_half_padding_mm = 1"

definition switch_positions :: "('h, 'w, 'k) firmware \<Rightarrow> 'k robot_view \<Rightarrow> 'k \<Rightarrow> machine_model \<Rightarrow> nat \<Rightarrow> real \<times> real" where
  "switch_positions fw rb k model actuator =
     (let (soft_min, soft_max) = soft_range fw rb k actuator;
          padded = (min soft_min soft_max - hard_limit_half_padding_mm, max soft_min soft_max + hard_limit_half_padding_mm);
          cartesian_shared = (actuator \<le> z_axis \<and> shared_endstop_switch fw k actuator)
      in case geometry_for model of
           None \<Rightarrow> padded
         | Some g \<Rightarrow> if actuator < length (geometry_axes g) \<and> \<not> cartesian_shared
                     then (min_switch_mm (geometry_axes g ! actuator), max_switch_mm (geometry_axes g ! actuator)) else padded)"

definition rotary_initial_angle_degrees :: real where "rotary_initial_angle_degrees = 10"

definition axis_initial_mm :: "machine_model \<Rightarrow> nat \<Rightarrow> real" where
  "axis_initial_mm model actuator =
     (let default = (if actuator = a_axis then rotary_initial_angle_degrees else if actuator \<le> z_axis then - 10 else 0)
      in case geometry_for model of
           None \<Rightarrow> default
         | Some g \<Rightarrow> if actuator < length (geometry_axes g) then initial_position_mm (geometry_axes g ! actuator) else default)"

section \<open>The configuration of an axis\<close>

definition bound_endstop :: "endstop_side \<Rightarrow> firm_pin \<Rightarrow> real \<Rightarrow> endstop" where
  "bound_endstop sd p trigger = \<lparr>side = sd, endstop_enabled = True, endstop_pin = firm_pin_address p,
     trigger_position_mm = trigger, trigger_when_ge = (sd = Max_Side), raw_level_when_triggered = (\<not> fp_inverting p)\<rparr>"

definition profile_limit :: "machine_model \<Rightarrow> nat \<Rightarrow> endstop_side \<Rightarrow> board_signal" where
  "profile_limit model actuator sd =
     (let l = physical_limits (board_profile_of model) ! actuator in if sd = Min_Side then limit_min l else limit_max l)"

definition side_endstops :: "('h, 'w, 'k) firmware \<Rightarrow> 'k robot_view \<Rightarrow> 'k \<Rightarrow> machine_model \<Rightarrow> nat \<Rightarrow> endstop_side \<Rightarrow> endstop list" where
  "side_endstops fw rb k model actuator sd =
     (let rotary_shared = (actuator > z_axis \<and> shared_endstop_switch fw k actuator);
          home_side = (if home_to_min fw k actuator then Min_Side else Max_Side);
          p = limit_pin fw k actuator sd
      in if rotary_shared \<and> sd \<noteq> home_side then []
         else if actuator \<le> z_axis \<and> \<not> connected (profile_limit model actuator sd) then []
         else if \<not> fp_connected p then []
         else [bound_endstop sd p (if rotary_shared then 0
                 else if sd = Min_Side then fst (switch_positions fw rb k model actuator)
                 else snd (switch_positions fw rb k model actuator))])"

definition atc_homing_endstops :: "('h, 'w, 'k) firmware \<Rightarrow> 'k \<Rightarrow> nat \<Rightarrow> endstop list" where
  "atc_homing_endstops fw k actuator =
     (if actuator = 4
      then let p = fw_pin fw (fw_as_string fw k [fw_checksum fw ''atc'', fw_checksum fw ''homing_endstop_pin''] ''1.0^'')
           in if fp_connected p then [bound_endstop Max_Side p 1] else []
      else [])"

definition bound_axis_config :: "('h, 'w, 'k) firmware \<Rightarrow> 'k robot_view \<Rightarrow> 'k \<Rightarrow> machine_model \<Rightarrow> bool \<Rightarrow> nat \<Rightarrow> axis_config" where
  "bound_axis_config fw rb k model rotary actuator =
     (let direction = named_pin fw k actuator ''_dir_pin''
      in \<lparr>cfg_step_pin = firm_pin_address (named_pin fw k actuator ''_step_pin''), cfg_direction_pin = firm_pin_address direction,
          cfg_invert = fp_inverting direction,
          cfg_connected = (if actuator = a_axis then rotary
            else \<not> ((model = MakeraZ1 \<or> model = MakeraZ1Pro) \<and> actuator = 4)),
          cfg_steps_per_mm = rb_steps_per_mm rb k actuator, cfg_initial_mm = axis_initial_mm model actuator,
          cfg_endstops = side_endstops fw rb k model actuator Min_Side @ side_endstops fw rb k model actuator Max_Side @
            atc_homing_endstops fw k actuator\<rparr>)"

section \<open>Binding\<close>

definition set_pin_inactive :: "firm_pin \<Rightarrow> lpc1768 \<Rightarrow> lpc1768 option" where
  "set_pin_inactive p m = (if \<not> fp_connected p then Some m else set_level (firm_pin_address p) (fp_inverting p) m)"

definition has_motor :: "('h, 'w, 'k) firmware \<Rightarrow> 'k \<Rightarrow> nat \<Rightarrow> bool" where
  "has_motor fw k actuator \<longleftrightarrow>
     fp_connected (named_pin fw k actuator ''_step_pin'') \<and> fp_connected (named_pin fw k actuator ''_dir_pin'')"

definition bind_axis :: "('h, 'w, 'k) firmware \<Rightarrow> 'k robot_view \<Rightarrow> 'k \<Rightarrow> machine_model \<Rightarrow> bool \<Rightarrow> nat \<Rightarrow>
    axis list \<times> lpc1768 \<Rightarrow> (axis list \<times> lpc1768) option" where
  "bind_axis fw rb k model rotary actuator = (\<lambda>(axes, m).
     if \<not> has_motor fw k actuator then Some (axes, m)
     else do { m \<leftarrow> set_pin_inactive (named_pin fw k actuator ''_motor_alarm_pin'') m;
               (i, axes, m) \<leftarrow> add_axis (bound_axis_config fw rb k model rotary actuator) axes m;
               Some (axes, m) })"

fun bind_axes :: "('h, 'w, 'k) firmware \<Rightarrow> 'k robot_view \<Rightarrow> 'k \<Rightarrow> machine_model \<Rightarrow> bool \<Rightarrow> nat list \<Rightarrow>
    axis list \<times> lpc1768 \<Rightarrow> (axis list \<times> lpc1768) option" where
  "bind_axes fw rb k model rotary [] st = Some st"
| "bind_axes fw rb k model rotary (actuator # actuators) st = do {
     st \<leftarrow> bind_axis fw rb k model rotary actuator st;
     bind_axes fw rb k model rotary actuators st }"

definition attach_configured_stepper_axes :: "('h, 'w, 'k) firmware \<Rightarrow> 'k robot_view \<Rightarrow> machine_model \<Rightarrow> bool \<Rightarrow>
    ('h, 'w, 'k) simulation \<Rightarrow> ('h, 'w, 'k) simulation option" where
  "attach_configured_stepper_axes fw rb model rotary s =
     (if \<not> fw_has_config fw (kernel s) \<or> \<not> fw_has_robot fw (kernel s) then Some s
      else map_option (\<lambda>(axes, m). s\<lparr>machine := put_mcu m ((machine s)\<lparr>m_axes := axes\<rparr>)\<rparr>)
        (bind_axes fw rb (kernel s) model rotary [0..<min (rb_motors rb (kernel s)) (length actuator_names)]
          (m_axes (machine s), m_mcu (machine s))))"

definition attach_for_model :: "('h, 'w, 'k) firmware \<Rightarrow> 'k robot_view \<Rightarrow> machine_model \<Rightarrow>
    ('h, 'w, 'k) simulation \<Rightarrow> ('h, 'w, 'k) simulation option" where
  "attach_for_model fw rb model s = attach_configured_stepper_axes fw rb model True s"

definition attach_default :: "('h, 'w, 'k) firmware \<Rightarrow> 'k robot_view \<Rightarrow> ('h, 'w, 'k) simulation \<Rightarrow> ('h, 'w, 'k) simulation option" where
  "attach_default fw rb s = attach_for_model fw rb CarveraC1 s"

section \<open>Binding succeeds\<close>

text \<open>Every pin the firmware parses out of its configuration is one of the controller's.\<close>

definition pins_exist :: "('h, 'w, 'k) firmware \<Rightarrow> bool" where
  "pins_exist fw \<longleftrightarrow> (\<forall>spec. fp_connected (fw_pin fw spec) \<longrightarrow> usable (fw_pin fw spec))"

lemma side_endstops_mem:
  "e \<in> set (side_endstops fw rb k model actuator sd) \<Longrightarrow>
    \<exists>trigger. e = bound_endstop sd (limit_pin fw k actuator sd) trigger \<and> fp_connected (limit_pin fw k actuator sd)"
  unfolding side_endstops_def Let_def by (simp only: split: if_splits) auto

lemma atc_homing_mem:
  "e \<in> set (atc_homing_endstops fw k actuator) \<Longrightarrow>
    actuator = 4 \<and> (\<exists>spec. e = bound_endstop Max_Side (fw_pin fw spec) 1 \<and> fp_connected (fw_pin fw spec))"
  by (auto simp: atc_homing_endstops_def Let_def split: if_splits)

lemma bound_endstop_usable:
  "usable p \<Longrightarrow> unat (pin_port (endstop_pin (bound_endstop sd p t))) < 5 \<and>
    unat (pin_number (endstop_pin (bound_endstop sd p t))) < 32 \<and> endstop_enabled (bound_endstop sd p t)"
  by (simp add: bound_endstop_def usable_def firm_pin_address_def)

lemma bound_endstops_usable:
  assumes "pins_exist fw" "e \<in> set (cfg_endstops (bound_axis_config fw rb k model rotary actuator))"
  shows "unat (pin_port (endstop_pin e)) < 5 \<and> unat (pin_number (endstop_pin e)) < 32 \<and> endstop_enabled e"
proof -
  consider sd where "e \<in> set (side_endstops fw rb k model actuator sd)" | "e \<in> set (atc_homing_endstops fw k actuator)"
    using assms(2) by (auto simp: bound_axis_config_def Let_def)
  then show ?thesis
    using assms(1) bound_endstop_usable by cases (fastforce dest!: side_endstops_mem atc_homing_mem simp: pins_exist_def limit_pin_def)+
qed

lemma update_endstop_keeps: "update_endstop_pin a m = Some m' \<Longrightarrow> length (gpio m') = length (gpio m) \<and> adc m' = adc m"
  unfolding update_endstop_pin_def by (rule drive_endstops_keeps)

lemma set_pin_inactive_total:
  assumes "pins_exist fw" "length (gpio m) = 5" "p = fw_pin fw t"
  shows "\<exists>m'. set_pin_inactive p m = Some m' \<and> length (gpio m') = 5 \<and> adc m' = adc m"
proof (cases "fp_connected p")
  case True
  then have "valid_pin m (firm_pin_address p)"
    using assms by (simp add: pins_exist_def usable_def valid_pin_def firm_pin_address_def)
  then obtain m' where "set_level (firm_pin_address p) (fp_inverting p) m = Some m'" using set_level_valid by metis
  then show ?thesis using set_level_keeps True assms(2) by (fastforce simp: set_pin_inactive_def)
qed (use assms(2) in \<open>simp add: set_pin_inactive_def\<close>)

lemma new_axis_bound:
  assumes "pins_exist fw" "length (gpio m) = 5" "has_motor fw k actuator"
  shows "\<exists>a m'. new_axis (bound_axis_config fw rb k model rotary actuator) m = Some (a, m') \<and>
    endstops a = cfg_endstops (bound_axis_config fw rb k model rotary actuator) \<and> length (gpio m') = 5 \<and> adc m' = adc m"
proof -
  let ?c = "bound_axis_config fw rb k model rotary actuator"
  have pins: "valid_pin m (cfg_step_pin ?c)" "valid_pin m (cfg_direction_pin ?c)"
    using assms by (auto simp: bound_axis_config_def has_motor_def named_pin_def pins_exist_def usable_def valid_pin_def
        firm_pin_address_def Let_def)
  obtain sh dh where levels: "pin_level (cfg_step_pin ?c) m = Some sh" "pin_level (cfg_direction_pin ?c) m = Some dh"
    using pins pin_level_bit by metis
  define a where "a = \<lparr>step_pin = cfg_step_pin ?c, direction_pin = cfg_direction_pin ?c, endstops = cfg_endstops ?c,
     invert_direction = cfg_invert ?c, motor_connected = cfg_connected ?c, step_high = sh, direction_high = dh,
     steps_per_mm = (if cfg_steps_per_mm ?c > 0 then cfg_steps_per_mm ?c else 1),
     initial_position_steps = llround (cfg_initial_mm ?c * (if cfg_steps_per_mm ?c > 0 then cfg_steps_per_mm ?c else 1)),
     position_steps = llround (cfg_initial_mm ?c * (if cfg_steps_per_mm ?c > 0 then cfg_steps_per_mm ?c else 1))\<rparr>"
  have "endstops_wired a m"
    using bound_endstops_usable [OF assms(1)] assms(2) by (fastforce simp: endstops_wired_def a_def valid_pin_def)
  then obtain m' where m': "update_endstop_pin a m = Some m'" "length (gpio m') = length (gpio m)"
    using update_endstop_total by metis
  then have "new_axis ?c m = Some (a, m')"
    using levels by (simp add: new_axis_def Let_def a_def)
  then show ?thesis
    using m' update_endstop_keeps [OF m'(1)] assms(2) by (auto simp: a_def)
qed

text \<open>What binding keeps: the registers' shape, and that every endstop of every axis has a pin.\<close>

definition bound_ok :: "axis list \<times> lpc1768 \<Rightarrow> bool" where
  "bound_ok st \<longleftrightarrow> length (gpio (snd st)) = 5 \<and> (\<forall>a \<in> set (fst st). endstops_wired a (snd st))"

lemma bind_axis_total:
  assumes "pins_exist fw" "bound_ok st"
  shows "\<exists>st'. bind_axis fw rb k model rotary actuator st = Some st' \<and> bound_ok st' \<and> adc (snd st') = adc (snd st) \<and>
    length (fst st') = length (fst st) + (if has_motor fw k actuator then 1 else 0)"
proof (cases "has_motor fw k actuator")
  case True
  obtain axes m where st: "st = (axes, m)" by (cases st)
  obtain m1 where m1: "set_pin_inactive (named_pin fw k actuator ''_motor_alarm_pin'') m = Some m1" "length (gpio m1) = 5" "adc m1 = adc m"
    using set_pin_inactive_total [OF assms(1), of m "named_pin fw k actuator ''_motor_alarm_pin''"] assms(2) st
    by (auto simp: bound_ok_def named_pin_def)
  obtain a m2 where a: "new_axis (bound_axis_config fw rb k model rotary actuator) m1 = Some (a, m2)"
    "endstops a = cfg_endstops (bound_axis_config fw rb k model rotary actuator)" "length (gpio m2) = 5" "adc m2 = adc m1"
    using new_axis_bound [OF assms(1) m1(2) True] by metis
  have "endstops_wired a m2"
    using bound_endstops_usable [OF assms(1)] a by (fastforce simp: endstops_wired_def valid_pin_def)
  moreover have "endstops_wired b m2" if "b \<in> set axes" for b
    using that assms(2) st a(3) by (auto simp: bound_ok_def endstops_wired_def valid_pin_def)
  ultimately have "bound_ok (axes @ [a], m2)" using a(3) by (auto simp: bound_ok_def)
  then show ?thesis
    using True m1 a by (simp add: bind_axis_def st add_axis_def)
qed (use assms in \<open>auto simp: bind_axis_def split: prod.split\<close>)

lemma bind_axes_total:
  assumes "pins_exist fw" "bound_ok st"
  shows "\<exists>st'. bind_axes fw rb k model rotary as st = Some st' \<and> bound_ok st' \<and> adc (snd st') = adc (snd st) \<and>
    length (fst st') = length (fst st) + length (filter (has_motor fw k) as)"
  using assms(2)
proof (induction as arbitrary: st)
  case (Cons actuator as)
  obtain st1 where st1: "bind_axis fw rb k model rotary actuator st = Some st1" "bound_ok st1" "adc (snd st1) = adc (snd st)"
    "length (fst st1) = length (fst st) + (if has_motor fw k actuator then 1 else 0)"
    using bind_axis_total [OF assms(1) Cons.prems] by blast
  show ?case using Cons.IH [OF st1(2)] st1 by auto
qed simp

text \<open>
  Binding the configured motors never throws and leaves a well-formed machine with one axis more for each of
  the first five registered motors whose step and direction pins are connected.
\<close>
theorem attach_binds_connected_motors:
  assumes "machine_wf (machine s)" "pins_exist fw" "fw_has_config fw (kernel s)" "fw_has_robot fw (kernel s)"
  shows "\<exists>s'. attach_configured_stepper_axes fw rb model rotary s = Some s' \<and> machine_wf (machine s') \<and> kernel s' = kernel s \<and>
    length (m_axes (machine s')) =
      length (m_axes (machine s)) + length (filter (has_motor fw (kernel s)) [0..<min (rb_motors rb (kernel s)) 5])"
proof -
  have "bound_ok (m_axes (machine s), m_mcu (machine s))"
    using assms(1) by (simp add: bound_ok_def machine_wf_def)
  from bind_axes_total [OF assms(2) this] obtain axes m where b:
    "bind_axes fw rb (kernel s) model rotary [0..<min (rb_motors rb (kernel s)) 5] (m_axes (machine s), m_mcu (machine s)) = Some (axes, m)"
    "bound_ok (axes, m)" "adc m = adc (m_mcu (machine s))"
    "length axes = length (m_axes (machine s)) + length (filter (has_motor fw (kernel s)) [0..<min (rb_motors rb (kernel s)) 5])"
    by fastforce
  have shape: "adc_wf (m_adc (put_mcu m (machine s)))" "valid_pin m p \<longleftrightarrow> valid_pin (m_mcu (machine s)) p" for p
    using assms(1) b(2,3) by (simp_all add: machine_wf_def put_mcu_def adc_wf_def adc_registers_def m_mcu_def bound_ok_def valid_pin_def)
  have actuators: "length actuator_names = 5" by (simp add: actuator_names_def)
  have "machine_wf (put_mcu m ((machine s)\<lparr>m_axes := axes\<rparr>))"
    using assms(1) b(2) shape by (simp add: machine_wf_def bound_ok_def) (simp add: put_mcu_def)
  with b assms show ?thesis
    by (simp add: attach_configured_stepper_axes_def actuators)
qed

text \<open>Five motors with 80 steps per millimetre and no soft limits.\<close>

definition sample_robot :: "bool robot_view" where
  "sample_robot = \<lparr>rb_motors = (\<lambda>_. 5), rb_steps_per_mm = (\<lambda>_ _. 80), rb_soft_min = (\<lambda>_ _. None), rb_soft_max = (\<lambda>_ _. None)\<rparr>"

lemma sample_pins_exist: "pins_exist sample_firmware"
  by (simp add: pins_exist_def sample_firmware_def usable_def)

theorem attach_binds_connected_motors_witness:
  "\<exists>s'. attach_configured_stepper_axes sample_firmware sample_robot CarveraC1 True sample_sim = Some s' \<and>
    length (m_axes (machine s')) = length (m_axes (machine sample_sim)) + 5"
proof -
  have wf: "machine_wf (machine sample_sim)" by (simp add: sample_sim_def blank_machine_wf)
  have fw: "fw_has_config sample_firmware (kernel sample_sim)" "fw_has_robot sample_firmware (kernel sample_sim)"
    by (simp_all add: sample_firmware_def)
  have "filter (has_motor sample_firmware (kernel sample_sim)) [0..<min (rb_motors sample_robot (kernel sample_sim)) 5] = [0..<5]"
    by (simp add: has_motor_def named_pin_def sample_firmware_def sample_robot_def)
  with attach_binds_connected_motors [OF wf sample_pins_exist fw, of sample_robot CarveraC1 True] show ?thesis by auto
qed

section \<open>No limit switch is pressed at power up\<close>

lemma initial_position_near:
  assumes "(0::real) < spm"
  shows "- 20 \<le> real_of_int (llround (- 10 * spm)) / spm \<and> real_of_int (llround (- 10 * spm)) / spm \<le> 0"
proof -
  have eq: "llround (- 10 * spm) = - \<lfloor>10 * spm + 1 / 2\<rfloor>" using assms by (simp add: llround_def)
  have "real_of_int \<lfloor>10 * spm + 1 / 2\<rfloor> \<le> 20 * spm"
  proof (cases "spm < 1 / 20")
    case True
    then have "\<lfloor>10 * spm + 1 / 2\<rfloor> = 0" using assms by (simp add: floor_eq_iff)
    then show ?thesis using assms by simp
  next
    case False
    then have "10 * spm + 1 / 2 \<le> 20 * spm" by simp
    then show ?thesis using of_int_floor_le [of "10 * spm + 1 / 2"] by linarith
  qed
  moreover have "0 \<le> \<lfloor>10 * spm + 1 / 2\<rfloor>" using assms by simp
  ultimately show ?thesis unfolding eq using assms by (simp add: pos_divide_le_eq divide_nonpos_pos)
qed

lemma cartesian_geometry:
  assumes "actuator < 3"
  shows "axis_initial_mm model actuator = - 10"
    and "\<not> shared_endstop_switch fw k actuator \<Longrightarrow>
      fst (switch_positions fw rb k model actuator) < - 20 \<and> snd (switch_positions fw rb k model actuator) = 1"
proof -
  have "actuator = 0 \<or> actuator = 1 \<or> actuator = 2" using assms by auto
  then show "axis_initial_mm model actuator = - 10"
    and "\<not> shared_endstop_switch fw k actuator \<Longrightarrow>
      fst (switch_positions fw rb k model actuator) < - 20 \<and> snd (switch_positions fw rb k model actuator) = 1"
    by (cases model; auto simp: axis_initial_mm_def switch_positions_def geometry_for_def profile_defs travel_axes_def
        c1_physical_travel_def ca1_physical_travel_def z1_physical_travel_def make_box_def split_beta Let_def)+
qed

lemma bound_axis_power_up:
  assumes "actuator < 3" "\<not> shared_endstop_switch fw k actuator"
    and new: "new_axis (bound_axis_config fw rb k model rotary actuator) m = Some (a, m')"
    and e: "e \<in> set (endstops a)"
  shows "\<not> one_endstop_triggered a e"
proof -
  let ?c = "bound_axis_config fw rb k model rotary actuator"
  obtain spm where spm: "0 < spm" "steps_per_mm a = spm" "position_steps a = llround (- 10 * spm)" "motor_connected a" "endstops a = cfg_endstops ?c"
    using new assms(1) cartesian_geometry(1) [OF assms(1), of model]
    by (fastforce simp: new_axis_def Let_def bind_eq_Some_conv bound_axis_config_def a_axis_def split: if_splits)
  have pos: "- 20 \<le> position_mm a" "position_mm a \<le> 0"
    using initial_position_near [OF spm(1)] by (simp_all add: position_mm_def spm)
  have "trigger_when_ge e \<longrightarrow> trigger_position_mm e = 1" "\<not> trigger_when_ge e \<longrightarrow> trigger_position_mm e < - 20"
    using e assms(1) cartesian_geometry(2) [OF assms(1,2), of rb model] spm(5)
    by (auto simp: bound_axis_config_def side_endstops_def atc_homing_endstops_def bound_endstop_def Let_def z_axis_def split: if_splits)
  then show ?thesis
    using pos spm(4) by (auto simp: one_endstop_triggered_def)
qed

text \<open>
  Whatever the scale of its motor and whatever the soft limits, a Cartesian axis with separate limit switches
  starts with no switch pressed, on every machine: its pins read as open, and the axis is in its travel.
\<close>
theorem limit_switches_open_at_power_up:
  assumes "actuator < 3" "\<not> shared_endstop_switch fw k actuator" "pins_exist fw" "length (gpio m) = 5"
    and "new_axis (bound_axis_config fw rb k model rotary actuator) m = Some (a, m')"
  shows "\<not> endstop_triggered a \<and> (\<forall>e \<in> set (endstops a). pin_level (endstop_pin e) m' = Some (\<not> raw_level_when_triggered e))"
proof -
  have wired: "endstops_wired a m" "endstops a = cfg_endstops (bound_axis_config fw rb k model rotary actuator)" "update_endstop_pin a m = Some m'"
    using assms(5) bound_endstops_usable [OF assms(3)] assms(4)
    by (fastforce simp: new_axis_def Let_def bind_eq_Some_conv endstops_wired_def valid_pin_def)+
  have open_: "\<not> one_endstop_triggered a e" if "e \<in> set (endstops a)" for e
    using bound_axis_power_up [OF assms(1,2,5) that] .
  have "pin_level (endstop_pin e) m' = Some (\<not> raw_level_when_triggered e)" if e: "e \<in> set (endstops a)" for e
  proof -
    have v: "valid_pin m (endstop_pin e)" "endstop_enabled e"
      using e wired(2) bound_endstops_usable [OF assms(3)] assms(4) by (auto simp: valid_pin_def)
    have "on_pin a (endstop_pin e) = [e]"
      using e assms(1,2) unfolding on_pin_def wired(2)
      by (auto simp: bound_axis_config_def side_endstops_def atc_homing_endstops_def bound_endstop_def Let_def z_axis_def
          shared_endstop_switch_def split: if_splits)
    then show ?thesis
      using endstop_pins_correct [OF wired(1)] wired(3) v open_ [OF e] by (auto simp: endstop_level_def)
  qed
  then show ?thesis
    using open_ by (auto simp: endstop_triggered_def)
qed

text \<open>The lower limit switch of the first axis is on pin 1.5, every other pin is 1.4.\<close>

definition switch_firmware :: "(nat, unit, bool) firmware" where
  "switch_firmware = sample_firmware\<lparr>fw_checksum := (\<lambda>name. if name = ''alpha_min_endstop'' then 1 else 0),
     fw_as_string := (\<lambda>_ cs _. if cs = [1] then ''1.5!'' else ''1.4!''),
     fw_pin := (\<lambda>spec. \<lparr>fp_connected = True, fp_port = 1, fp_number = (if spec = ''1.5!'' then 5 else 4), fp_inverting = True\<rparr>)\<rparr>"

theorem limit_switches_open_at_power_up_witness:
  "\<exists>a m'. new_axis (bound_axis_config switch_firmware sample_robot True CarveraC1 True 0) lpc_reset = Some (a, m') \<and>
    \<not> endstop_triggered a \<and> length (endstops a) = 2"
proof -
  have pins: "pins_exist switch_firmware" by (simp add: pins_exist_def switch_firmware_def usable_def)
  have split: "\<not> shared_endstop_switch switch_firmware True 0"
    by (simp add: shared_endstop_switch_def limit_pin_def limit_checksum_def switch_firmware_def actuator_names_def firm_pin_address_def)
  have ports: "length (gpio lpc_reset) = 5" by (simp add: lpc_reset_def gpio_block_reset_def)
  have motor: "has_motor switch_firmware True 0" by (simp add: has_motor_def named_pin_def switch_firmware_def)
  obtain a m' where new: "new_axis (bound_axis_config switch_firmware sample_robot True CarveraC1 True 0) lpc_reset = Some (a, m')"
    "endstops a = cfg_endstops (bound_axis_config switch_firmware sample_robot True CarveraC1 True 0)"
    using new_axis_bound [OF pins ports motor] by blast
  have "length (endstops a) = 2"
    by (simp add: new(2) bound_axis_config_def side_endstops_def atc_homing_endstops_def Let_def z_axis_def profile_limit_def
        profile_defs limit_pin_def switch_firmware_def)
  with new limit_switches_open_at_power_up [OF _ split pins ports new(1)] show ?thesis by auto
qed

end
