(* ===== verification/Boot_Session.thy ===== *)
theory Boot_Session
  imports Robot_Axes Realtime_Clock Memory_Accounting M8266_Wifi Z1_Mainboard
begin

text \<open>
  Power up, boot and reboot of the machine (\<^verbatim>\<open>src/runtime/runtime_boot_session.cpp\<close>,
  \<^verbatim>\<open>src/runtime/firmware_runtime.cpp\<close>): the state of a session, what a reboot keeps and clears, the factory
  settings in the EEPROM and the objects the boot registers with the memory accounting.

  The record \<open>boot_code\<close> is the firmware that is linked in: constructing its kernel, the objects this creates,
  loading its modules, its factory settings and its homed axes.  Destroying a kernel frees memory whose
  accounting the reset clears anyway and is left out.  The mainboard exists in the builds for the Z1 only.
\<close>

section \<open>State\<close>

record ('h, 'w, 'k) session =
  ses_machine :: "('h, 'w) machine"
  ses_clock :: virtual_clock
  ses_eeprom :: "eeprom \<times> host_fs"
  ses_wifi :: wifi
  ses_mainboard :: "z1 option"
  ses_accounting :: memory_accounting
  ses_kernel :: "'k option"
  ses_factory :: factory_settings
  ses_homed :: bool

record firmware_object =
  obj_pointer :: u64
  obj_host_bytes :: u64
  obj_target_bytes :: u64
  obj_type :: string

record ('h, 'w, 'k) boot_code =
  bc_construct :: "('h, 'w, 'k) session \<Rightarrow> 'k \<times> ('h, 'w, 'k) session"
  bc_objects :: "'k \<Rightarrow> firmware_object list"
  bc_load :: "'k \<Rightarrow> ('h, 'w, 'k) session \<Rightarrow> ('h, 'w, 'k) session"
  bc_factory :: "'k \<Rightarrow> (firmware_machine \<times> u8 \<times> u8 \<times> u8) option"
  bc_homed :: "'k \<Rightarrow> bool option"
  bc_first_run :: "('h, 'w, 'k) session \<Rightarrow> ('h, 'w, 'k) session"
  bc_on_channel :: "('h, 'w) on_channel"
  bc_on_global :: "('h, 'w) on_global"

definition booted :: "('h, 'w, 'k) session \<Rightarrow> bool" where
  "booted s \<longleftrightarrow> ses_kernel s \<noteq> None"

definition machine_model_from_firmware :: "firmware_machine \<Rightarrow> machine_model \<Rightarrow> machine_model" where
  "machine_model_from_firmware model fallback = (case model of
     CARVERA \<Rightarrow> CarveraC1 | CARVERA_AIR \<Rightarrow> CarveraAirCA1 | Z1 \<Rightarrow> MakeraZ1 | Z1PRO \<Rightarrow> MakeraZ1Pro | Other_Machine \<Rightarrow> fallback)"

section \<open>The EEPROM at power on and at a reboot\<close>

definition initialize_eeprom_for_power_on :: "factory_settings \<Rightarrow> eeprom \<times> host_fs \<Rightarrow> eeprom \<times> host_fs" where
  "initialize_eeprom_for_power_on settings dfs =
     (if persistent_path (fst dfs) \<noteq> None \<and> loaded_from_file (fst dfs) then (eeprom_stop (fst dfs), snd dfs)
      else configure_factory_settings settings (eeprom_reset dfs))"

definition initialize_eeprom_for_reboot :: "factory_settings \<Rightarrow> eeprom \<times> host_fs \<Rightarrow> eeprom \<times> host_fs" where
  "initialize_eeprom_for_reboot settings dfs =
     (if persistent_path (fst dfs) \<noteq> None then (eeprom_stop (fst dfs), snd dfs)
      else configure_factory_settings settings (eeprom_reset dfs))"

section \<open>Factory settings\<close>

definition session_factory_settings :: "('h, 'w, 'k) boot_code \<Rightarrow> ('h, 'w, 'k) session \<Rightarrow> factory_settings" where
  "session_factory_settings bc s = (case ses_kernel s of
     None \<Rightarrow> ses_factory s
   | Some k \<Rightarrow> (case bc_factory bc k of
       None \<Rightarrow> ses_factory s
     | Some (model, f, r1, r2) \<Rightarrow>
         \<lparr>fs_model = machine_model_from_firmware model (fs_model (ses_factory s)), function_setting = f, reserve1 = r1, reserve2 = r2\<rparr>))"

definition set_factory_settings :: "factory_settings \<Rightarrow> ('h, 'w, 'k) session \<Rightarrow> bool \<times> ('h, 'w, 'k) session" where
  "set_factory_settings settings s =
     (if booted s then (False, s)
      else (True, s\<lparr>ses_factory := settings,
                    ses_eeprom := configure_factory_settings settings (eeprom_reset (ses_eeprom s))\<rparr>))"

section \<open>Booting\<close>

definition record_firmware_object :: "firmware_object \<Rightarrow> memory_accounting \<Rightarrow> heap_error option \<times> memory_accounting" where
  "record_firmware_object ob a =
     (if obj_pointer ob = 0 then (None, a)
      else record_heap (obj_pointer ob) (obj_host_bytes ob) (obj_target_bytes ob) (obj_type ob) True
        (snd (acct_deallocate (obj_pointer ob) a)))"

fun record_objects :: "firmware_object list \<Rightarrow> memory_accounting \<Rightarrow> heap_error option \<times> memory_accounting" where
  "record_objects [] a = (None, a)"
| "record_objects (ob # obs) a = (case record_firmware_object ob a of
     (Some e, a) \<Rightarrow> (Some e, a) | (None, a) \<Rightarrow> record_objects obs a)"

text \<open>An exception of the accounting leaves the constructed kernel in place and skips the modules.\<close>

definition start_session :: "('h, 'w, 'k) boot_code \<Rightarrow> ('h, 'w, 'k) session \<Rightarrow> heap_error option \<times> ('h, 'w, 'k) session" where
  "start_session bc s =
     (if booted s then (None, s)
      else let (k, s) = bc_construct bc s;
               (e, a) = record_objects (bc_objects bc k) (ses_accounting s);
               s = s\<lparr>ses_kernel := Some k, ses_accounting := a\<rparr>
           in (e, if e = None then bc_load bc k s else s))"

definition refresh_homed :: "('h, 'w, 'k) boot_code \<Rightarrow> ('h, 'w, 'k) session \<Rightarrow> ('h, 'w, 'k) session" where
  "refresh_homed bc s = s\<lparr>ses_homed := (case ses_kernel s of None \<Rightarrow> False | Some k \<Rightarrow> bc_homed bc k = Some True)\<rparr>"

text \<open>\<^verbatim>\<open>FirmwareRuntime::boot\<close> also lets the firmware run until its motion is idle, the first time.\<close>

definition boot_firmware :: "('h, 'w, 'k) boot_code \<Rightarrow> ('h, 'w, 'k) session \<Rightarrow> heap_error option \<times> ('h, 'w, 'k) session" where
  "boot_firmware bc s =
     (case start_session bc s of
        (Some e, t) \<Rightarrow> (Some e, t)
      | (None, t) \<Rightarrow> (None, if booted s then t else refresh_homed bc (bc_first_run bc t)))"

section \<open>Rebooting\<close>

text \<open>\<^verbatim>\<open>MachineSimulator::reset(true)\<close> on the parts of the session; \<open>None\<close> is an exception.\<close>

definition simulator_reset :: "('h, 'w, 'k) boot_code \<Rightarrow> ('h, 'w, 'k) session \<Rightarrow> ('h, 'w, 'k) session option" where
  "simulator_reset bc s =
     (case (acct_reset (ses_accounting s), machine_reset (bc_on_channel bc) (bc_on_global bc) True (ses_machine s)) of
        ((None, a), Some m) \<Rightarrow>
          Some (s\<lparr>ses_clock := vc_reset, ses_accounting := a, ses_machine := m, ses_wifi := wifi_reset (ses_wifi s),
                  ses_eeprom := (eeprom_stop (fst (ses_eeprom s)), snd (ses_eeprom s))\<rparr>)
      | _ \<Rightarrow> None)"

definition session_reset :: "('h, 'w, 'k) boot_code \<Rightarrow> ('h, 'w, 'k) session \<Rightarrow> ('h, 'w, 'k) session option" where
  "session_reset bc s =
     (let settings = session_factory_settings bc s; was_realtime = realtime (ses_clock s); speed = realtime_speed (ses_clock s);
          s = s\<lparr>ses_factory := settings, ses_kernel := None\<rparr>
      in do { s \<leftarrow> simulator_reset bc s;
              let s = s\<lparr>ses_clock := snd (set_realtime_speed (Some speed) (ses_clock s))\<rparr>;
              let s = (if was_realtime then s\<lparr>ses_clock := start_realtime (ses_clock s)\<rparr> else s);
              Some (s\<lparr>ses_eeprom := initialize_eeprom_for_reboot settings (ses_eeprom s), ses_wifi := wifi_reset (ses_wifi s),
                      ses_mainboard := map_option z1_reset (ses_mainboard s), ses_homed := False\<rparr>) })"

text \<open>The constructor, on a simulator with the given EEPROM; the Z1 builds give the root of the SD card.\<close>

definition new_session :: "('h, 'w) machine \<Rightarrow> eeprom \<times> host_fs \<Rightarrow> memory_accounting \<Rightarrow> (host_path \<times> host_fs) option \<Rightarrow>
    factory_settings \<Rightarrow> ('h, 'w, 'k) session" where
  "new_session m dfs a sd settings =
     \<lparr>ses_machine = m, ses_clock = vc_reset, ses_eeprom = initialize_eeprom_for_power_on settings dfs, ses_wifi = wifi_reset fresh_wifi,
      ses_mainboard = map_option (\<lambda>(root, f). new_z1 root f) sd, ses_accounting = a, ses_kernel = None, ses_factory = settings,
      ses_homed = False\<rparr>"

definition default_factory_settings :: factory_settings where
  "default_factory_settings = \<lparr>fs_model = CarveraC1, function_setting = 4, reserve1 = 0, reserve2 = 0\<rparr>"

section \<open>What a reboot keeps\<close>

lemma set_temperature_scene [simp]: "m_scene (set_temperature oc og sensor celsius s) = m_scene s"
  by (simp add: set_temperature_def set_adc_input_def Let_def)

lemma machine_reset_scene: "machine_reset oc og True s = Some s' \<Longrightarrow> m_scene s' = m_scene s"
  by (auto simp: machine_reset_def context_reset_def Let_def put_mcu_def)

lemma session_reset_steps:
  assumes "handlers_ok (bc_on_channel bc) (bc_on_global bc)" "acct_reset (ses_accounting s) = (None, a)" "speed_ok (ses_clock s)"
  obtains m where "machine_wf m" "m_axes m = []" "m_scene m = m_scene (ses_machine s)"
    "session_reset bc s = Some (s\<lparr>ses_machine := m, ses_clock := (ses_clock s)\<lparr>base_us := 0\<rparr>,
       ses_eeprom := initialize_eeprom_for_reboot (session_factory_settings bc s) (eeprom_stop (fst (ses_eeprom s)), snd (ses_eeprom s)),
       ses_wifi := wifi_reset (wifi_reset (ses_wifi s)), ses_mainboard := map_option z1_reset (ses_mainboard s),
       ses_accounting := a, ses_kernel := None, ses_factory := session_factory_settings bc s, ses_homed := False\<rparr>)"
proof -
  obtain m where m: "machine_reset (bc_on_channel bc) (bc_on_global bc) True (ses_machine s) = Some m" "machine_wf m" "m_axes m = []"
    using machine_reset_wf [OF assms(1)] by blast
  have speed: "snd (set_realtime_speed (Some (realtime_speed (ses_clock s))) vc_reset) = vc_reset\<lparr>realtime_speed := realtime_speed (ses_clock s)\<rparr>"
    using assms(3) by (simp add: set_realtime_speed_def speed_ok_def)
  have clock: "realtime (ses_clock s) \<Longrightarrow> start_realtime (vc_reset\<lparr>realtime_speed := realtime_speed (ses_clock s)\<rparr>) = (ses_clock s)\<lparr>base_us := 0\<rparr>"
    "\<not> realtime (ses_clock s) \<Longrightarrow> vc_reset\<lparr>realtime_speed := realtime_speed (ses_clock s)\<rparr> = (ses_clock s)\<lparr>base_us := 0\<rparr>"
    by (simp_all add: vc_reset_def start_realtime_def)
  show thesis
    using m machine_reset_scene [OF m(1)] assms(2) speed clock
    by (intro that [of m]) (simp_all add: session_reset_def simulator_reset_def Let_def)
qed

text \<open>
  A reboot never fails.  It leaves a machine of the right shape with no axes, not booted and not homed, the
  clock at zero in the mode and at the speed it had, the scene with its tools as it was, no tracked
  allocation, and the factory settings the firmware was running with, so that a second reboot finds the same.
\<close>
theorem reboot_outcome:
  assumes "handlers_ok (bc_on_channel bc) (bc_on_global bc)" "acct_reset (ses_accounting s) = (None, a)" "speed_ok (ses_clock s)"
  shows "\<exists>s'. session_reset bc s = Some s' \<and> \<not> booted s' \<and> \<not> ses_homed s' \<and> machine_wf (ses_machine s') \<and>
    m_axes (ses_machine s') = [] \<and> m_scene (ses_machine s') = m_scene (ses_machine s) \<and>
    ses_clock s' = (ses_clock s)\<lparr>base_us := 0\<rparr> \<and> allocations (ses_accounting s') = [] \<and>
    session_factory_settings bc s' = session_factory_settings bc s"
proof -
  obtain m where m: "machine_wf m" "m_axes m = []" "m_scene m = m_scene (ses_machine s)"
    "session_reset bc s = Some (s\<lparr>ses_machine := m, ses_clock := (ses_clock s)\<lparr>base_us := 0\<rparr>,
       ses_eeprom := initialize_eeprom_for_reboot (session_factory_settings bc s) (eeprom_stop (fst (ses_eeprom s)), snd (ses_eeprom s)),
       ses_wifi := wifi_reset (wifi_reset (ses_wifi s)), ses_mainboard := map_option z1_reset (ses_mainboard s),
       ses_accounting := a, ses_kernel := None, ses_factory := session_factory_settings bc s, ses_homed := False\<rparr>)"
    using session_reset_steps [OF assms] by blast
  have "allocations a = []"
    using assms(2) by (auto simp: acct_reset_def split: sum.splits)
  with m show ?thesis
    by (simp add: booted_def session_factory_settings_def)
qed

definition blank_session :: "bool \<Rightarrow> eeprom \<times> host_fs \<Rightarrow> (nat, unit, nat) session" where
  "blank_session up dfs = \<lparr>ses_machine = blank_machine (), ses_clock = \<lparr>realtime = True, base_us = 77, realtime_speed = 5\<rparr>,
     ses_eeprom = dfs, ses_wifi = fresh_wifi, ses_mainboard = None,
     ses_accounting = \<lparr>acct_heap = example_heap, allocations = [], groups = [], next_id = 1\<rparr>,
     ses_kernel = (if up then Some 0 else None), ses_factory = default_factory_settings, ses_homed = True\<rparr>"

definition z1_code :: "(nat, unit, nat) boot_code" where
  "z1_code = \<lparr>bc_construct = (\<lambda>s. (0, s)), bc_objects = (\<lambda>_. []), bc_load = (\<lambda>_ s. s), bc_factory = (\<lambda>_. Some (Z1, 3, 0, 0)),
     bc_homed = (\<lambda>_. None), bc_first_run = (\<lambda>s. s), bc_on_channel = (\<lambda>_ _ s. s), bc_on_global = (\<lambda>_ _ _ s. s)\<rparr>"

lemma z1_handlers: "handlers_ok (bc_on_channel z1_code) (bc_on_global z1_code)"
  by (simp add: handlers_ok_def z1_code_def)

lemma example_layouts: "main_layout example_heap = example_main" "the_ahb_layout example_heap = example_ahb"
  by (simp_all add: example_heap_def new_heap_model_def main_layout_valid_def ahb_layout_valid_def heap_reset_def
      add_region_def example_main_def example_ahb_def heap_constants Let_def)

lemma blank_accounting: "\<exists>a. acct_reset (ses_accounting (blank_session up dfs)) = (None, a)"
proof -
  have "\<exists>h. heap_reset example_heap = Inr h"
    by (simp add: heap_reset_def example_layouts add_region_def example_main_def example_ahb_def heap_constants Let_def)
  then show ?thesis by (auto simp: blank_session_def acct_reset_def)
qed

theorem reboot_outcome_witness:
  "\<exists>s'. session_reset z1_code (blank_session True (new_eeprom, [])) = Some s' \<and> realtime (ses_clock s') \<and>
    realtime_speed (ses_clock s') = 5 \<and> fs_model (session_factory_settings z1_code s') = MakeraZ1"
proof -
  obtain a where a: "acct_reset (ses_accounting (blank_session True (new_eeprom, []))) = (None, a)" using blank_accounting by blast
  have speed: "speed_ok (ses_clock (blank_session True (new_eeprom, [])))" by (simp add: speed_ok_def blank_session_def)
  show ?thesis
    using reboot_outcome [OF z1_handlers a speed]
    by (auto simp: blank_session_def session_factory_settings_def z1_code_def machine_model_from_firmware_def)
qed

section \<open>The EEPROM across reboots\<close>

lemma cells_ok_reset: "cells_ok d \<Longrightarrow> cells_ok (fst (eeprom_reset (d, files)))"
  by (simp add: cells_ok_def eeprom_reset_def eeprom_stop_def Let_def)

definition stored_factory_record :: "eeprom \<Rightarrow> u8 list" where
  "stored_factory_record d = map ((!) (storage d)) [512..<518]"

definition only_factory_record :: "factory_settings \<Rightarrow> eeprom \<Rightarrow> bool" where
  "only_factory_record settings d \<longleftrightarrow> stored_factory_record d = factory_record settings \<and>
     (\<forall>i < length (storage d). i < 512 \<or> 520 \<le> i \<longrightarrow> storage d ! i = fill (econfig d))"

lemma poke_keeps: "econfig (fst (eeprom_poke a v dfs)) = econfig (fst dfs)" "length (storage (fst (eeprom_poke a v dfs))) = length (storage (fst dfs))"
  by (simp_all add: fst_poke)

lemma configure_keeps: "econfig (fst (configure_factory_settings settings dfs)) = econfig (fst dfs)"
  "length (storage (fst (configure_factory_settings settings dfs))) = length (storage (fst dfs))"
  by (simp_all add: configure_factory_settings_def factory_record_def Let_def enumerate_eq_zip poke_keeps)

lemma reset_then_factory:
  assumes "cells_ok d" "size_bytes (econfig d) = 4096"
  shows "only_factory_record settings (fst (configure_factory_settings settings (eeprom_reset (d, files))))"
proof -
  obtain d1 files1 where r: "eeprom_reset (d, files) = (d1, files1)" by fastforce
  then have d1: "cells_ok d1" "size_bytes (econfig d1) = 4096" "econfig d1 = econfig d" "storage d1 = replicate 4096 (fill (econfig d))"
    using cells_ok_reset [OF assms(1), of files] assms(2) by (auto simp: eeprom_reset_def eeprom_stop_def Let_def)
  define d' where "d' = fst (configure_factory_settings settings (d1, files1))"
  note stored = factory_record_stored [OF d1(1,2) d'_def, of files1]
  have "stored_factory_record d' = take 6 (map ((!) (storage d')) [512..<520])"
    unfolding stored_factory_record_def by (simp only: take_map take_upt) simp
  also have "\<dots> = take 6 (factory_record settings @ [lo8 (crc16_ccitt_bytes (factory_record settings)), hi8 (crc16_ccitt_bytes (factory_record settings))])"
    using stored by (simp only:)
  also have "\<dots> = factory_record settings" by (simp add: factory_record_def)
  finally have rec: "stored_factory_record d' = factory_record settings" .
  have d': "econfig d' = econfig d1" "length (storage d') = length (storage d1)" by (simp_all add: d'_def configure_keeps)
  have "storage d' ! i = fill (econfig d')" if "i < length (storage d')" "i < 512 \<or> 520 \<le> i" for i
  proof -
    have "storage d' ! i = storage d1 ! i" using stored that(2) by blast
    also have "\<dots> = fill (econfig d)" using that(1) unfolding d' d1(4) length_replicate by (rule nth_replicate)
    finally show ?thesis by (simp add: d' d1(3))
  qed
  then show ?thesis unfolding only_factory_record_def r d'_def [symmetric] using rec by blast
qed

text \<open>
  A reboot leaves an EEPROM that is kept in a file as it is, and the files too; without a file it clears the
  cells and stores the record of the factory settings the firmware was running with.
\<close>
theorem reboot_eeprom:
  assumes "handlers_ok (bc_on_channel bc) (bc_on_global bc)" "acct_reset (ses_accounting s) = (None, a)" "speed_ok (ses_clock s)"
    and "ses_eeprom s = (d, files)" "cells_ok d" "size_bytes (econfig d) = 4096" "session_reset bc s = Some s'"
  shows "(persistent_path d \<noteq> None \<longrightarrow> storage (fst (ses_eeprom s')) = storage d \<and> snd (ses_eeprom s') = files) \<and>
    (persistent_path d = None \<longrightarrow> only_factory_record (session_factory_settings bc s) (fst (ses_eeprom s')))"
proof -
  have e: "ses_eeprom s' = initialize_eeprom_for_reboot (session_factory_settings bc s) (eeprom_stop d, files)"
    by (rule session_reset_steps [OF assms(1-3)]) (use assms(4,7) in simp)
  have stopped: "cells_ok (eeprom_stop d)" "size_bytes (econfig (eeprom_stop d)) = 4096" "fill (econfig (eeprom_stop d)) = fill (econfig d)"
    "persistent_path (eeprom_stop d) = persistent_path d" "storage (eeprom_stop d) = storage d"
    using assms(5,6) by (simp_all add: eeprom_stop_def cells_ok_def)
  show ?thesis
    using reset_then_factory [OF stopped(1,2), of "session_factory_settings bc s" files] stopped
    by (cases "persistent_path d") (simp_all add: e initialize_eeprom_for_reboot_def, simp_all add: eeprom_stop_def)
qed

theorem reboot_eeprom_witness:
  "\<exists>s'. session_reset z1_code (blank_session True (new_eeprom, [])) = Some s' \<and> storage (fst (ses_eeprom s')) ! 514 = 3"
proof -
  let ?s = "blank_session True (new_eeprom, [])"
  obtain a where a: "acct_reset (ses_accounting ?s) = (None, a)" using blank_accounting by blast
  have speed: "speed_ok (ses_clock ?s)" by (simp add: speed_ok_def blank_session_def)
  obtain s' where s': "session_reset z1_code ?s = Some s'" using session_reset_steps [OF z1_handlers a speed] by blast
  have d: "ses_eeprom ?s = (new_eeprom, [])" by (simp add: blank_session_def)
  have sz: "size_bytes (econfig new_eeprom) = 4096" by (simp add: new_eeprom_def default_eeprom_config_def kEepromSize_def)
  have st: "session_factory_settings z1_code ?s = \<lparr>fs_model = MakeraZ1, function_setting = 3, reserve1 = 0, reserve2 = 0\<rparr>"
    by (simp add: session_factory_settings_def blank_session_def z1_code_def machine_model_from_firmware_def)
  have none: "persistent_path new_eeprom = None" by (simp add: new_eeprom_def)
  have "stored_factory_record (fst (ses_eeprom s')) = factory_record (session_factory_settings z1_code ?s)"
    using reboot_eeprom [OF z1_handlers a speed d new_eeprom_ok sz s'] none by (simp add: only_factory_record_def)
  then have "stored_factory_record (fst (ses_eeprom s')) ! 2 = 3" by (simp add: st factory_record_def model_byte_def)
  then show ?thesis using s' by (auto simp: stored_factory_record_def simp del: upt_rec_numeral)
qed

section \<open>Choosing the machine\<close>

text \<open>
  The factory settings can be chosen until the firmware boots: then they are the session's settings and the
  record in an otherwise cleared EEPROM.  After that the request is refused and changes nothing.
\<close>
theorem factory_settings_chosen_before_boot:
  assumes "ses_eeprom s = (d, files)" "cells_ok d" "size_bytes (econfig d) = 4096" "set_factory_settings settings s = (done', s')"
  shows "(booted s \<longrightarrow> \<not> done' \<and> s' = s) \<and>
    (\<not> booted s \<longrightarrow> done' \<and> session_factory_settings bc s' = settings \<and>
      only_factory_record settings (fst (ses_eeprom s')))"
proof (cases "booted s")
  case False
  then have "done'" "ses_factory s' = settings" "ses_kernel s' = None"
    "fst (ses_eeprom s') = fst (configure_factory_settings settings (eeprom_reset (d, files)))"
    using assms(1,4) by (auto simp: set_factory_settings_def booted_def)
  then show ?thesis
    using False reset_then_factory [OF assms(2,3), of settings files]
    by (simp add: session_factory_settings_def)
qed (use assms(4) in \<open>simp add: set_factory_settings_def\<close>)

theorem factory_settings_chosen_before_boot_witness:
  "session_factory_settings z1_code (snd (set_factory_settings default_factory_settings (blank_session False (new_eeprom, [])))) =
     default_factory_settings"
proof -
  have d: "ses_eeprom (blank_session False (new_eeprom, [])) = (new_eeprom, [])" by (simp add: blank_session_def)
  have sz: "size_bytes (econfig new_eeprom) = 4096" by (simp add: new_eeprom_def default_eeprom_config_def kEepromSize_def)
  obtain done' s' where r: "set_factory_settings default_factory_settings (blank_session False (new_eeprom, [])) = (done', s')"
    by fastforce
  have "\<not> booted (blank_session False (new_eeprom, []))" by (simp add: booted_def blank_session_def)
  then show ?thesis
    using factory_settings_chosen_before_boot [OF d new_eeprom_ok sz r, of z1_code] by (simp add: r)
qed

text \<open>A machine that finds its EEPROM in a file powers up with every cell as the file has it.\<close>

lemma power_on_keeps_file:
  "persistent_path d \<noteq> None \<Longrightarrow> loaded_from_file d \<Longrightarrow>
    storage (fst (ses_eeprom (new_session m (d, files) a sd settings))) = storage d \<and> snd (ses_eeprom (new_session m (d, files) a sd settings)) = files"
  by (simp add: new_session_def initialize_eeprom_for_power_on_def eeprom_stop_def)

section \<open>The objects of the boot\<close>

lemma record_object_inv [inv_intros]: "acct_inv a \<Longrightarrow> acct_inv (snd (record_firmware_object ob a))"
  using acct_deallocate_inv record_heap_inv by (simp add: record_firmware_object_def)

lemma record_objects_inv [inv_intros]: "acct_inv a \<Longrightarrow> acct_inv (snd (record_objects obs a))"
  using record_object_inv by (induction obs arbitrary: a) (auto split: prod.split option.split, (metis snd_conv)+)

end
