(* ===== verification/Spindle_Tach.thy ===== *)
theory Spindle_Tach
  imports Boot_Session
begin

text \<open>
  The spindle as the firmware sees it (\<^verbatim>\<open>SimulatorSpindleTachBridgeModule\<close> in
  \<^verbatim>\<open>src/runtime/runtime_modules.cpp\<close>): the duty of the PWM output is the requested speed, the spindle follows
  it, and the feedback pin gets a rising edge for every pulse of the tachometer that is due.

  The loop of pulses is a partial function: \<open>None\<close> is a loop that never ends, or an exception.  The
  configuration values are \<^verbatim>\<open>float\<close>s, real numbers here.
\<close>

section \<open>State\<close>

record tach =
  tach_model :: machine_model
  tach_pwm_pin :: firm_pin
  tach_feedback_pin :: firm_pin
  pwm_output_inverted :: bool
  max_pwm :: real
  pulses_per_rev :: real
  acc_ratio :: real
  last_pulse_us :: u64

definition no_pin :: firm_pin where
  "no_pin = \<lparr>fp_connected = False, fp_port = 0, fp_number = 0, fp_inverting = False\<rparr>"

definition new_tach :: tach where
  "new_tach = \<lparr>tach_model = CarveraC1, tach_pwm_pin = no_pin, tach_feedback_pin = no_pin, pwm_output_inverted = False,
     max_pwm = 1, pulses_per_rev = 2, acc_ratio = 1, last_pulse_us = 0\<rparr>"

definition spindle_number :: "('h, 'w, 'k) firmware \<Rightarrow> 'k \<Rightarrow> string \<Rightarrow> real \<Rightarrow> real" where
  "spindle_number fw k name def = fw_as_number fw k [fw_checksum fw ''spindle'', fw_checksum fw name] def"

text \<open>Loading the module: the configuration when there is one, then a spindle at rest.\<close>

definition configure_tach :: "('h, 'w, 'k) firmware \<Rightarrow> 'k \<Rightarrow> tach \<Rightarrow> tach" where
  "configure_tach fw k t =
     (let pwm = configured_pin fw k [fw_checksum fw ''spindle'', fw_checksum fw ''pwm_pin''] ''nc'';
          t = t\<lparr>tach_pwm_pin := pwm, pwm_output_inverted := fp_inverting pwm, max_pwm := spindle_number fw k ''max_pwm'' 1,
                tach_feedback_pin := configured_pin fw k [fw_checksum fw ''spindle'', fw_checksum fw ''feedback_pin''] ''nc'',
                pulses_per_rev := spindle_number fw k ''pulses_per_rev'' 2, acc_ratio := spindle_number fw k ''acc_ratio'' 1\<rparr>;
          t = (case fw_factory fw k of None \<Rightarrow> t | Some f \<Rightarrow> t\<lparr>tach_model := machine_model_from_firmware f (tach_model t)\<rparr>)
      in if tach_model t = CarveraAirCA1 then t\<lparr>max_pwm := 9 / 10\<rparr> else t)"

definition tach_on_module_loaded :: "('h, 'w, 'k) firmware \<Rightarrow> 'k option \<Rightarrow> u64 \<Rightarrow> tach \<times> ('h, 'w) machine \<Rightarrow> tach \<times> ('h, 'w) machine" where
  "tach_on_module_loaded fw k now = (\<lambda>(t, m).
     (let t = (case k of None \<Rightarrow> t | Some k \<Rightarrow> if fw_has_config fw k then configure_tach fw k t else t)
      in (t\<lparr>last_pulse_us := now\<rparr>, m\<lparr>m_spindle := spindle_reset\<rparr>)))"

section \<open>The requested speed\<close>

definition clamp_unit :: "real \<Rightarrow> real" where
  "clamp_unit x = max 0 (min x 1)"

definition requested_rpm_from_pwm :: "tach \<Rightarrow> ('h, 'w) machine \<Rightarrow> real option" where
  "requested_rpm_from_pwm t m =
     (if \<not> fp_connected (tach_pwm_pin t) \<or> max_pwm t \<le> 0 then Some 0
      else do { pwm \<leftarrow> pwm_output (firm_pin_address (tach_pwm_pin t)) m;
                if \<not> configured pwm then Some 0
                else let d = clamp_unit (duty pwm); d = (if pwm_output_inverted t then 1 - d else d)
                     in Some (clamp_unit (d / max_pwm t) * max_rpm (tach_model t)) })"

section \<open>Pulses\<close>

text \<open>The interval is a \<^verbatim>\<open>double\<close>; what is added to the time of the last pulse is its integer part.\<close>

partial_function (option) tach_pulses :: "('h \<Rightarrow> ('h, 'w) machine \<Rightarrow> ('h, 'w) machine) \<Rightarrow> pin_address \<Rightarrow> u64 \<Rightarrow> real \<Rightarrow>
    u64 \<Rightarrow> ('h, 'w) machine \<Rightarrow> (u64 \<times> ('h, 'w) machine) option" where
  "tach_pulses call p now interval last_us m =
     (if real (unat (now - last_us)) \<ge> interval
      then do { m \<leftarrow> trigger_interrupt_rise call p m;
                tach_pulses call p now interval (last_us + word_of_int \<lfloor>interval\<rfloor>) m }
      else Some (last_us, m))"

definition pulse_interval_us :: "tach \<Rightarrow> real \<Rightarrow> real" where
  "pulse_interval_us t rpm = 60000000 * max (1 / 1000) (acc_ratio t) / (rpm * pulses_per_rev t)"

definition tach_on_idle :: "('h \<Rightarrow> ('h, 'w) machine \<Rightarrow> ('h, 'w) machine) \<Rightarrow> u64 \<Rightarrow> tach \<times> ('h, 'w) machine \<Rightarrow> (tach \<times> ('h, 'w) machine) option" where
  "tach_on_idle call now = (\<lambda>(t, m).
     do { requested \<leftarrow> requested_rpm_from_pwm t m;
          let spindle = spindle_update (tach_model t) (requested > 1 / 2) requested now (m_spindle m);
          let m = m\<lparr>m_spindle := spindle\<rparr>;
          let rpm = actual_rpm spindle;
          if \<not> fp_connected (tach_feedback_pin t) \<or> pulses_per_rev t \<le> 0 \<or> rpm \<le> 1 / 2 then Some (t\<lparr>last_pulse_us := now\<rparr>, m)
          else do { (last_us, m) \<leftarrow> tach_pulses call (firm_pin_address (tach_feedback_pin t)) now (pulse_interval_us t rpm) (last_pulse_us t) m;
                    Some (t\<lparr>last_pulse_us := last_us\<rparr>, m) } })"

section \<open>The requested speed is in range\<close>

lemma clamp_unit_bounds: "0 \<le> clamp_unit x" "clamp_unit x \<le> 1"
  by (simp_all add: clamp_unit_def)

lemma clamp_unit_mono: "x \<le> y \<Longrightarrow> clamp_unit x \<le> clamp_unit y"
  by (auto simp: clamp_unit_def)

text \<open>The speed asked for is never negative and never above the machine's maximum.\<close>

lemma requested_rpm_bounds:
  "requested_rpm_from_pwm t m = Some r \<Longrightarrow> 0 \<le> r \<and> r \<le> max_rpm (tach_model t)"
  using clamp_unit_bounds max_rpm_pos [of "tach_model t"]
  by (auto simp: requested_rpm_from_pwm_def Let_def bind_eq_Some_conv mult_left_le_one_le split: if_splits)

section \<open>The pulses that are due\<close>

text \<open>One pulse, when the feedback pin has an entry in the table of handlers.\<close>

definition pulse :: "('h \<Rightarrow> ('h, 'w) machine \<Rightarrow> ('h, 'w) machine) \<Rightarrow> pin_address \<Rightarrow> ('h, 'w) machine \<Rightarrow> ('h, 'w) machine" where
  "pulse call p m = (case m_rises m ! port_pin p of None \<Rightarrow> m | Some h \<Rightarrow> call h m)"

definition keeps_table :: "('h \<Rightarrow> ('h, 'w) machine \<Rightarrow> ('h, 'w) machine) \<Rightarrow> bool" where
  "keeps_table call \<longleftrightarrow> (\<forall>h m. length (m_rises (call h m)) = length (m_rises m))"

lemma pulse_table: "keeps_table call \<Longrightarrow> length (m_rises (pulse call p m)) = length (m_rises m)"
  by (simp add: pulse_def keeps_table_def split: option.split)

lemma trigger_pulse: "port_pin p < length (m_rises m) \<Longrightarrow> trigger_interrupt_rise call p m = Some (pulse call p m)"
  by (simp add: trigger_interrupt_rise_def simulate_rise_def pulse_def)

lemma later_pulse:
  assumes "1 \<le> interval" "interval \<le> real (unat (now - last_us :: u64))"
  shows "unat (now - (last_us + word_of_int \<lfloor>interval\<rfloor>)) = unat (now - last_us) - nat \<lfloor>interval\<rfloor>"
    and "nat \<lfloor>interval\<rfloor> \<le> unat (now - last_us)" "0 < nat \<lfloor>interval\<rfloor>"
proof -
  have f: "1 \<le> \<lfloor>interval\<rfloor>" using assms(1) by simp
  have le: "\<lfloor>interval\<rfloor> \<le> int (unat (now - last_us))" using assms(2) by (simp add: floor_le_iff)
  show nat_le: "nat \<lfloor>interval\<rfloor> \<le> unat (now - last_us)" using le unfolding nat_le_iff .
  show "0 < nat \<lfloor>interval\<rfloor>" using f by simp
  have w: "unat (word_of_int \<lfloor>interval\<rfloor> :: u64) = nat \<lfloor>interval\<rfloor>"
  proof -
    have "nat \<lfloor>interval\<rfloor> < 2 ^ 64" using nat_le unat_u64_lt [of "now - last_us"] by simp
    moreover have "(word_of_int \<lfloor>interval\<rfloor> :: u64) = word_of_nat (nat \<lfloor>interval\<rfloor>)" using f by simp
    ultimately show ?thesis by (simp add: unsigned_of_nat take_bit_nat_eq_self)
  qed
  have "now - (last_us + word_of_int \<lfloor>interval\<rfloor>) = (now - last_us) - word_of_int \<lfloor>interval\<rfloor>" by simp
  also have "unat \<dots> = unat (now - last_us) - nat \<lfloor>interval\<rfloor>"
    using w nat_le by (subst unat_minus_if) (simp_all add: word_le_nat_alt)
  finally show "unat (now - (last_us + word_of_int \<lfloor>interval\<rfloor>)) = unat (now - last_us) - nat \<lfloor>interval\<rfloor>" .
qed

lemma tach_pulses_run:
  assumes "1 \<le> interval" "keeps_table call" "port_pin p < length (m_rises m)"
  shows "\<exists>n last_us'. tach_pulses call p now interval last_us m = Some (last_us', (pulse call p ^^ n) m) \<and>
    unat (now - last_us) = n * nat \<lfloor>interval\<rfloor> + unat (now - last_us') \<and> real (unat (now - last_us')) < interval"
  using assms(3)
proof (induction "unat (now - last_us)" arbitrary: last_us m rule: less_induct)
  case less
  show ?case
  proof (cases "real (unat (now - last_us)) \<ge> interval")
    case False
    then have "tach_pulses call p now interval last_us m = Some (last_us, (pulse call p ^^ 0) m)"
      by (subst tach_pulses.simps) simp
    with False show ?thesis by (intro exI [of _ 0] exI [of _ last_us]) simp
  next
    case True
    let ?l = "last_us + word_of_int \<lfloor>interval\<rfloor>"
    note later = later_pulse [OF assms(1) True]
    have "unat (now - ?l) < unat (now - last_us)" using later by linarith
    moreover have "port_pin p < length (m_rises (pulse call p m))" using less.prems pulse_table [OF assms(2)] by metis
    ultimately obtain n l' where n: "tach_pulses call p now interval ?l (pulse call p m) = Some (l', (pulse call p ^^ n) (pulse call p m))"
      "unat (now - ?l) = n * nat \<lfloor>interval\<rfloor> + unat (now - l')" "real (unat (now - l')) < interval"
      using less.hyps by blast
    have "tach_pulses call p now interval last_us m = Some (l', (pulse call p ^^ Suc n) m)"
      using True n(1) trigger_pulse [OF less.prems] by (subst tach_pulses.simps) (simp add: funpow_Suc_right del: funpow.simps)
    moreover have "unat (now - last_us) = Suc n * nat \<lfloor>interval\<rfloor> + unat (now - l')" using n(2) later by simp
    ultimately show ?thesis using n(3) by blast
  qed
qed



text \<open>
  With an interval below a microsecond the loop never ends once a pulse is due: the time of the last pulse is
  advanced by the integer part of the interval, which is zero.  This takes more than 60 million pulses a
  minute, from a configuration with very many pulses per revolution.
\<close>
theorem short_interval_never_returns:
  assumes "0 \<le> interval" "interval < 1" "interval \<le> real (unat (now - last_us))"
  shows "tach_pulses call p now interval last_us m = None"
proof -
  let ?P = "\<lambda>call p now interval last_us m r. \<not> (0 \<le> interval \<and> interval < 1 \<and> interval \<le> real (unat (now - last_us)))"
  have "?P call p now interval last_us m r" if "tach_pulses call p now interval last_us m = Some r" for r
  proof (rule tach_pulses.raw_induct [of ?P, OF _ that], rule notI)
    fix rec call p now interval last_us m r
    assume IH: "\<And>call p now interval last_us m r. rec call p now interval last_us m = Some r \<Longrightarrow> ?P call p now interval last_us m r"
      and body: "(if interval \<le> real (unat (now - last_us))
        then trigger_interrupt_rise call p m \<bind> (\<lambda>m. rec call p now interval (last_us + word_of_int \<lfloor>interval\<rfloor>) m)
        else Some (last_us, m)) = Some r"
      and i: "0 \<le> interval \<and> interval < 1 \<and> interval \<le> real (unat (now - last_us))"
    then have "\<lfloor>interval\<rfloor> = 0" by (simp add: floor_eq_iff)
    with body i obtain m' where "rec call p now interval last_us m' = Some r" by (auto simp: bind_eq_Some_conv)
    from IH [OF this] i show False by blast
  qed
  then show ?thesis using assms by (cases "tach_pulses call p now interval last_us m") blast+
qed

theorem short_interval_never_returns_witness:
  "tach_pulses (\<lambda>h m. m) \<lparr>pin_port = 2, pin_number = 7\<rparr> 5000 (pulse_interval_us (new_tach\<lparr>pulses_per_rev := 10000\<rparr>) 12000) 1000
     (blank_machine () :: (nat, unit) machine) = None"
  by (rule short_interval_never_returns) (simp_all add: pulse_interval_us_def new_tach_def)

end
