(* ===== verification/Machine_Snapshot.thy ===== *)
theory Machine_Snapshot
  imports Boot_Session Api_Harness
begin

text \<open>
  The state of the machine as one value (\<^verbatim>\<open>src/core/machine_state_snapshot.cpp\<close>) and its protocol message
  (\<^verbatim>\<open>src/protocol/machine_state_proto.cpp\<close>): the firmware's view and the physical one side by side.

  What the snapshot asks of the firmware is the record \<open>robot_state\<close>: whether there is a robot, its homed
  axes, its soft limits and positions, and the tool status its tool changer publishes.
\<close>

section \<open>The snapshot\<close>

record tool_status =
  ts_active_tool :: int
  ts_target_tool :: int
  ts_tool_offset :: real
  ts_cur_tool_mz :: real
  ts_ref_tool_mz :: real
  ts_target_collet_type :: int

record robot_state =
  rs_present :: bool
  rs_homed :: "nat \<Rightarrow> bool"
  rs_soft_endstops :: bool
  rs_soft_min :: "nat \<Rightarrow> real"
  rs_soft_max :: "nat \<Rightarrow> real"
  rs_axis_position :: "nat \<Rightarrow> real"
  rs_motors :: nat
  rs_tool_status :: "tool_status option"

record axis_machine_state =
  am_axis :: nat
  am_physical_steps :: int
  am_physical_mm :: real
  am_machine_position :: real
  am_endstop_triggered :: bool
  am_speed_per_min :: real

record atc_spindle_machine_state =
  as_spindle :: atc_spindle
  as_active_tool :: int
  as_target_tool :: int
  as_tool_offset_mm :: real
  as_cur_tool_mz :: real
  as_ref_tool_mz :: real
  as_target_collet_type :: int

record machine_state =
  mst_booted :: bool
  mst_homed :: bool
  mst_soft_endstop_enabled :: bool
  mst_work_area :: "box option"
  mst_physical_travel :: "box option"
  mst_tool_setter :: "box option"
  mst_spindle :: spindle_snapshot
  mst_atc_available :: bool
  mst_atc_spindle :: atc_spindle_machine_state
  mst_pockets :: "atc_pocket list"
  mst_axes :: "axis_machine_state list"

definition max_stock_axis_count :: nat where "max_stock_axis_count = 5"

definition firmware_axes_homed :: "robot_state \<Rightarrow> bool" where
  "firmware_axes_homed r \<longleftrightarrow> rs_present r \<and> (\<forall>axis \<in> set [0..<3]. rs_homed r axis)"

definition resolved_axis_count :: "nat option \<Rightarrow> robot_state \<Rightarrow> axis list \<Rightarrow> nat" where
  "resolved_axis_count asked r axes = (case asked of
     Some n \<Rightarrow> min max_stock_axis_count n
   | None \<Rightarrow> min (if rs_present r then rs_motors r else length axes) max_stock_axis_count)"

definition firmware_work_area :: "robot_state \<Rightarrow> box option" where
  "firmware_work_area r = (if \<not> rs_present r then None
     else Some (make_box (rs_soft_min r 0) (rs_soft_min r 1) (rs_soft_min r 2) (rs_soft_max r 0) (rs_soft_max r 1) (rs_soft_max r 2)))"

definition snapshot_travel :: "machine_model \<Rightarrow> box option \<Rightarrow> box option" where
  "snapshot_travel model work_area = (case geometry_for model of Some g \<Rightarrow> Some (physical_travel g) | None \<Rightarrow> work_area)"

definition atc_spindle_state :: "robot_state \<Rightarrow> physical_scene \<Rightarrow> atc_spindle_machine_state" where
  "atc_spindle_state r scene =
     (let physical = spindle_tool (scene_rack scene);
          s = (case rs_tool_status r of
            None \<Rightarrow> \<lparr>as_spindle = physical, as_active_tool = - 1, as_target_tool = - 1, as_tool_offset_mm = 0, as_cur_tool_mz = 0,
                     as_ref_tool_mz = 0, as_target_collet_type = 0\<rparr>
          | Some t \<Rightarrow> \<lparr>as_spindle = physical, as_active_tool = ts_active_tool t, as_target_tool = ts_target_tool t,
                       as_tool_offset_mm = ts_tool_offset t, as_cur_tool_mz = ts_cur_tool_mz t, as_ref_tool_mz = ts_ref_tool_mz t,
                       as_target_collet_type = ts_target_collet_type t\<rparr>)
      in if has_tool physical then s\<lparr>as_active_tool := spindle_tool_no physical\<rparr> else s)"

definition axis_snapshot :: "robot_state \<Rightarrow> axis list \<Rightarrow> nat \<Rightarrow> axis_machine_state" where
  "axis_snapshot r axes i =
     (let s = \<lparr>am_axis = i, am_physical_steps = 0, am_physical_mm = 0,
               am_machine_position = (if rs_present r then rs_axis_position r i else 0), am_endstop_triggered = False, am_speed_per_min = 0\<rparr>
      in if i < length axes
         then s\<lparr>am_physical_steps := position_steps (axes ! i), am_physical_mm := position_mm (axes ! i),
                am_endstop_triggered := endstop_triggered (axes ! i)\<rparr>
         else s)"

text \<open>With \<open>refresh\<close>, the tool changer's configuration is read first; the result is the snapshot and the machine.\<close>

definition assemble_machine_state :: "robot_state \<Rightarrow> (physical_scene \<Rightarrow> physical_scene) option \<Rightarrow> nat option \<Rightarrow> bool \<Rightarrow> machine_model \<Rightarrow>
    ('h, 'w) machine \<Rightarrow> machine_state \<times> ('h, 'w) machine" where
  "assemble_machine_state r refresh asked homed model m =
     (let work_area = firmware_work_area r;
          axes = map (axis_snapshot r (m_axes m)) [0..<resolved_axis_count asked r (m_axes m)];
          m = (case refresh of None \<Rightarrow> m | Some f \<Rightarrow> m\<lparr>m_scene := f (m_scene m)\<rparr>)
      in (\<lparr>mst_booted = True, mst_homed = homed, mst_soft_endstop_enabled = (rs_present r \<and> rs_soft_endstops r),
           mst_work_area = work_area, mst_physical_travel = snapshot_travel model work_area,
           mst_tool_setter = tool_setter_box (scene_probe (m_scene m)), mst_spindle = spindle_snapshot_of model (m_spindle m),
           mst_atc_available = rack_available (scene_rack (m_scene m)), mst_atc_spindle = atc_spindle_state r (m_scene m),
           mst_pockets = sorted_pockets (scene_rack (m_scene m)), mst_axes = axes\<rparr>, m))"

definition assemble_with_firmware_homed :: "robot_state \<Rightarrow> (physical_scene \<Rightarrow> physical_scene) option \<Rightarrow> nat option \<Rightarrow> machine_model \<Rightarrow>
    ('h, 'w) machine \<Rightarrow> machine_state \<times> ('h, 'w) machine" where
  "assemble_with_firmware_homed r refresh asked model m = assemble_machine_state r refresh asked (firmware_axes_homed r) model m"


section \<open>What a snapshot holds\<close>

lemma length_axes_snapshot [simp]:
  "length (mst_axes (fst (assemble_machine_state r refresh asked homed model m))) = resolved_axis_count asked r (m_axes m)"
  by (simp add: assemble_machine_state_def Let_def)

lemma resolved_axis_count_le: "resolved_axis_count asked r axes \<le> 5"
  by (auto simp: resolved_axis_count_def max_stock_axis_count_def split: option.split)

lemma snapshot_axis:
  "i < resolved_axis_count asked r (m_axes m) \<Longrightarrow>
     mst_axes (fst (assemble_machine_state r refresh asked homed model m)) ! i = axis_snapshot r (m_axes m) i"
  by (simp add: assemble_machine_state_def Let_def)

lemma assemble_keeps_machine [simp]:
  "snd (assemble_machine_state r None asked homed model m) = m"
  by (simp add: assemble_machine_state_def Let_def)

lemma snapshot_spindle [simp]:
  "mst_spindle (fst (assemble_machine_state r refresh asked homed model m)) = spindle_snapshot_of model (m_spindle m)"
  by (auto simp: assemble_machine_state_def Let_def split: option.split)

lemma axis_snapshot_physical:
  "i < length axes \<Longrightarrow> am_physical_mm (axis_snapshot r axes i) = position_mm (axes ! i)"
  by (simp add: axis_snapshot_def)

text \<open>The tool in the spindle is the active tool whatever the tool changer of the firmware believes.\<close>

lemma installed_tool_is_active:
  "has_tool (spindle_tool (scene_rack scene)) \<Longrightarrow>
     as_active_tool (atc_spindle_state r scene) = spindle_tool_no (spindle_tool (scene_rack scene))"
  by (simp add: atc_spindle_state_def Let_def)

lemma empty_spindle_reports_firmware:
  "\<not> has_tool (spindle_tool (scene_rack scene)) \<Longrightarrow>
     as_active_tool (atc_spindle_state r scene) = (case rs_tool_status r of None \<Rightarrow> - 1 | Some t \<Rightarrow> ts_active_tool t)"
  by (simp add: atc_spindle_state_def Let_def split: option.split)

section \<open>The messages\<close>

text \<open>The fill functions set the fields of a message they are given; a field that is not set keeps its value.\<close>

record pb_tool_state =
  pt_active_tool :: int
  pt_target_tool :: int
  pt_tool_offset_mm :: real
  pt_cur_tool_mz :: real
  pt_ref_tool_mz :: real
  pt_target_collet_type :: u32
  pt_length_mm :: real
  pt_kind :: int
  pt_probe_tip_diameter_mm :: real

record pb_pocket =
  pp_pocket :: u32
  pp_tool :: int
  pp_occupied :: bool
  pp_length_mm :: real
  pp_x :: real
  pp_y :: real
  pp_z :: real
  pp_kind :: int
  pp_probe_tip_diameter_mm :: real

record pb_atc =
  pa_available :: bool
  pa_spindle :: pb_tool_state
  pa_pockets :: "pb_pocket list"

record pb_axis_state =
  px_axis :: int
  px_physical_steps :: int
  px_physical_mm :: real
  px_machine_position :: real
  px_endstop_triggered :: bool
  px_speed_per_min :: real

record pb_snapshot =
  psn_booted :: bool
  psn_homed :: bool
  psn_soft_endstop_enabled :: bool
  psn_work_area :: "box option"
  psn_physical_travel :: "box option"
  psn_spindle :: "spindle_snapshot option"
  psn_axes :: "pb_axis_state list"
  psn_tool_setter_available :: bool
  psn_tool_setter :: "box option"
  psn_atc :: "pb_atc option"

record pb_telemetry =
  pte_booted :: bool
  pte_homed :: bool
  pte_physical_travel :: "box option"
  pte_spindle :: "spindle_snapshot option"
  pte_atc :: "pb_atc option"
  pte_axes :: "pb_axis_state list"
  pte_time_us :: u64

definition proto_axis :: "nat \<Rightarrow> int" where
  "proto_axis axis = (if axis < 5 then int axis + 1 else 0)"

definition fill_atc_spindle_proto :: "atc_spindle_machine_state \<Rightarrow> pb_tool_state \<Rightarrow> pb_tool_state" where
  "fill_atc_spindle_proto source t =
     (let physical = as_spindle source;
          t = t\<lparr>pt_active_tool := as_active_tool source, pt_target_tool := as_target_tool source,
                pt_tool_offset_mm := as_tool_offset_mm source, pt_cur_tool_mz := as_cur_tool_mz source,
                pt_ref_tool_mz := as_ref_tool_mz source, pt_target_collet_type := word_of_int (as_target_collet_type source)\<rparr>
      in if has_tool physical
         then t\<lparr>pt_active_tool := spindle_tool_no physical, pt_length_mm := spindle_length_mm physical,
                pt_kind := proto_tool_kind (spindle_kind physical), pt_probe_tip_diameter_mm := spindle_tip_mm physical\<rparr>
         else t)"

definition axis_state_proto :: "axis_machine_state \<Rightarrow> pb_axis_state" where
  "axis_state_proto source = \<lparr>px_axis = proto_axis (am_axis source), px_physical_steps = am_physical_steps source,
     px_physical_mm = am_physical_mm source, px_machine_position = am_machine_position source,
     px_endstop_triggered = am_endstop_triggered source, px_speed_per_min = am_speed_per_min source\<rparr>"

definition pocket_proto :: "atc_pocket \<Rightarrow> pb_pocket" where
  "pocket_proto p = \<lparr>pp_pocket = word_of_int (pocket p), pp_tool = pocket_tool p, pp_occupied = occupied p,
     pp_length_mm = pocket_length_mm p, pp_x = px (pocket_position p), pp_y = py (pocket_position p),
     pp_z = pz (pocket_position p), pp_kind = proto_tool_kind (pocket_kind p), pp_probe_tip_diameter_mm = pocket_tip_mm p\<rparr>"

definition empty_tool_state :: pb_tool_state where
  "empty_tool_state = \<lparr>pt_active_tool = 0, pt_target_tool = 0, pt_tool_offset_mm = 0, pt_cur_tool_mz = 0, pt_ref_tool_mz = 0,
     pt_target_collet_type = 0, pt_length_mm = 0, pt_kind = 0, pt_probe_tip_diameter_mm = 0\<rparr>"

definition empty_atc :: pb_atc where
  "empty_atc = \<lparr>pa_available = False, pa_spindle = empty_tool_state, pa_pockets = []\<rparr>"

definition fill_atc_state_proto :: "machine_state \<Rightarrow> pb_atc \<Rightarrow> pb_atc" where
  "fill_atc_state_proto source t = t\<lparr>pa_available := mst_atc_available source,
     pa_spindle := fill_atc_spindle_proto (mst_atc_spindle source) (pa_spindle t),
     pa_pockets := pa_pockets t @ map pocket_proto (mst_pockets source)\<rparr>"

definition some_box :: "box option \<Rightarrow> box option \<Rightarrow> box option" where
  "some_box source target = (case source of None \<Rightarrow> target | Some b \<Rightarrow> Some b)"

definition mutable_atc :: "pb_atc option \<Rightarrow> pb_atc" where
  "mutable_atc a = (case a of None \<Rightarrow> empty_atc | Some a \<Rightarrow> a)"

definition fill_machine_snapshot_proto :: "machine_state \<Rightarrow> pb_snapshot \<Rightarrow> pb_snapshot" where
  "fill_machine_snapshot_proto source t =
     (let t = t\<lparr>psn_booted := mst_booted source, psn_homed := mst_homed source,
                psn_soft_endstop_enabled := mst_soft_endstop_enabled source,
                psn_work_area := some_box (mst_work_area source) (psn_work_area t),
                psn_physical_travel := some_box (mst_physical_travel source) (psn_physical_travel t),
                psn_spindle := Some (mst_spindle source), psn_axes := psn_axes t @ map axis_state_proto (mst_axes source)\<rparr>;
          t = (if mst_tool_setter source \<noteq> None
               then t\<lparr>psn_tool_setter_available := True, psn_tool_setter := mst_tool_setter source\<rparr> else t)
      in t\<lparr>psn_atc := Some (fill_atc_state_proto source (mutable_atc (psn_atc t)))\<rparr>)"

definition fill_machine_telemetry_proto :: "machine_state \<Rightarrow> pb_telemetry \<Rightarrow> pb_telemetry" where
  "fill_machine_telemetry_proto source t = t\<lparr>pte_booted := mst_booted source, pte_homed := mst_homed source,
     pte_physical_travel := some_box (mst_physical_travel source) (pte_physical_travel t),
     pte_spindle := Some (mst_spindle source), pte_atc := Some (fill_atc_state_proto source (mutable_atc (pte_atc t))),
     pte_axes := pte_axes t @ map axis_state_proto (mst_axes source)\<rparr>"

text \<open>On messages that are empty before, both messages of one state agree on what they share.\<close>

lemma messages_agree:
  assumes "psn_physical_travel t = None" "pte_physical_travel u = None" "psn_axes t = []" "pte_axes u = []"
    "psn_atc t = None" "pte_atc u = None"
  shows "(let s = fill_machine_snapshot_proto source t; v = fill_machine_telemetry_proto source u
          in psn_booted s = pte_booted v \<and> psn_homed s = pte_homed v \<and> psn_physical_travel s = pte_physical_travel v \<and>
             psn_spindle s = pte_spindle v \<and> psn_axes s = pte_axes v \<and> psn_atc s = pte_atc v)"
  using assms by (simp add: fill_machine_snapshot_proto_def fill_machine_telemetry_proto_def Let_def)

end
