(* ===== verification/Motion_Telemetry.thy ===== *)
theory Motion_Telemetry
  imports Machine_Snapshot
begin

text \<open>
  What the machine reports while it moves (\<^verbatim>\<open>src/core/motion_telemetry.cpp\<close>): after each idle round of the
  firmware the telemetry looks at the axes and the spindle and decides whether a sample goes to the sink.

  An observation carries what it reads: the firmware's view, the model, the mode of the clock, the simulated time
  and the wall-clock time in nanoseconds.  The clock of the library never goes back.
\<close>

section \<open>State\<close>

record machine_telemetry =
  tm_sequence :: u64
  tm_time_us :: u64
  tm_state :: machine_state

record position_sample =
  sample_time :: u64
  sample_positions :: "real list"

record telemetry =
  tl_sink :: bool
  interval_ticks :: nat
  tl_interval_us :: u64
  ticks_since_emit :: nat
  next_sequence :: u64
  observed_steps :: "int list"
  emitted_rpm :: "real option"
  emitted_target_rpm :: "real option"
  emitted_time :: "u64 option"
  emitted_wall :: "int option"
  emitted_steps :: "int list option"
  position_history :: "position_sample list"
  had_motion :: bool

record view =
  v_robot :: robot_state
  v_factory :: "firmware_machine option"
  v_realtime :: bool
  v_now :: u64
  v_wall :: int

definition machine_model_from_kernel :: "firmware_machine option \<Rightarrow> machine_model" where
  "machine_model_from_kernel factory = (case factory of
     None \<Rightarrow> CarveraC1 | Some model \<Rightarrow> machine_model_from_firmware model CarveraC1)"

definition new_telemetry :: telemetry where
  "new_telemetry = \<lparr>tl_sink = False, interval_ticks = 30, tl_interval_us = 10000, ticks_since_emit = 0, next_sequence = 1,
     observed_steps = [], emitted_rpm = None, emitted_target_rpm = None, emitted_time = None, emitted_wall = None,
     emitted_steps = None, position_history = [], had_motion = False\<rparr>"

definition telemetry_reset :: "telemetry \<Rightarrow> telemetry" where
  "telemetry_reset t = t\<lparr>ticks_since_emit := 0, next_sequence := 1, observed_steps := [], emitted_rpm := None,
     emitted_target_rpm := None, emitted_time := None, emitted_wall := None, emitted_steps := None,
     position_history := [], had_motion := False\<rparr>"

definition set_sink :: "bool \<Rightarrow> telemetry \<Rightarrow> telemetry" where
  "set_sink present t = telemetry_reset (t\<lparr>tl_sink := present\<rparr>)"

definition set_interval_ticks :: "nat \<Rightarrow> telemetry \<Rightarrow> telemetry" where
  "set_interval_ticks ticks t = t\<lparr>interval_ticks := (if ticks = 0 then 1 else ticks)\<rparr>"

definition set_interval_us :: "u64 \<Rightarrow> telemetry \<Rightarrow> telemetry" where
  "set_interval_us interval t = t\<lparr>tl_interval_us := (if interval = 0 then 1 else interval)\<rparr>"

section \<open>The decision to emit\<close>

definition telemetry_axis_count :: "('h, 'w) machine \<Rightarrow> nat" where
  "telemetry_axis_count m = min max_stock_axis_count (length (m_axes m))"

definition telemetry_steps :: "('h, 'w) machine \<Rightarrow> int list" where
  "telemetry_steps m = map (\<lambda>i. position_steps (m_axes m ! i)) [0..<telemetry_axis_count m]"

definition rpm_near :: "real \<Rightarrow> real option \<Rightarrow> bool" where
  "rpm_near rpm last_rpm \<longleftrightarrow> (case last_rpm of None \<Rightarrow> False | Some l \<Rightarrow> \<bar>rpm - l\<bar> < 10)"

definition spindle_changed :: "spindle_snapshot \<Rightarrow> telemetry \<Rightarrow> bool" where
  "spindle_changed spindle t \<longleftrightarrow>
     (case emitted_rpm t of None \<Rightarrow> True
      | Some l \<Rightarrow> 10 \<le> \<bar>snap_actual_rpm spindle - l\<bar> \<or> spinning spindle \<noteq> (l > 1 / 2)) \<or>
     (case emitted_target_rpm t of None \<Rightarrow> True | Some l \<Rightarrow> 10 \<le> \<bar>snap_target_rpm spindle - l\<bar>)"

definition resting_unemitted :: "int list \<Rightarrow> telemetry \<Rightarrow> bool" where
  "resting_unemitted steps t \<longleftrightarrow> emitted_steps t \<noteq> Some steps \<or> had_motion t"

definition time_elapsed :: "view \<Rightarrow> telemetry \<Rightarrow> bool" where
  "time_elapsed v t \<longleftrightarrow>
     (if v_realtime v
      then (case emitted_wall t of None \<Rightarrow> True | Some l \<Rightarrow> int (unat (tl_interval_us t)) * 1000 \<le> v_wall v - l)
      else (case emitted_time t of None \<Rightarrow> True | Some l \<Rightarrow> v_now v < l \<or> tl_interval_us t \<le> v_now v - l))"

definition nothing_new :: "int list \<Rightarrow> spindle_snapshot \<Rightarrow> telemetry \<Rightarrow> bool" where
  "nothing_new steps spindle t \<longleftrightarrow> emitted_steps t = Some steps \<and> rpm_near (snap_actual_rpm spindle) (emitted_rpm t) \<and>
     rpm_near (snap_target_rpm spindle) (emitted_target_rpm t) \<and> \<not> had_motion t"

text \<open>The state with the tick counted, the steps observed, and whether a sample is emitted.\<close>

definition first_look :: "bool \<Rightarrow> int list \<Rightarrow> telemetry \<Rightarrow> bool" where
  "first_look force steps t \<longleftrightarrow> \<not> force \<and> observed_steps t = [] \<and> steps \<noteq> []"

definition counted :: "bool \<Rightarrow> int list \<Rightarrow> telemetry \<Rightarrow> telemetry" where
  "counted force steps t = t\<lparr>ticks_since_emit := (if force then ticks_since_emit t else Suc (ticks_since_emit t)),
     observed_steps := steps\<rparr>"

definition emit_due :: "bool \<Rightarrow> view \<Rightarrow> int list \<Rightarrow> spindle_snapshot \<Rightarrow> telemetry \<Rightarrow> bool" where
  "emit_due force v steps spindle t \<longleftrightarrow>
     (let t' = counted force steps t;
          changed = (steps \<noteq> observed_steps t);
          elapsed = (if changed then interval_ticks t \<le> ticks_since_emit t' \<or> time_elapsed v t else time_elapsed v t)
      in force \<or>
         ((changed \<or> spindle_changed spindle t \<or> resting_unemitted steps t) \<and>
          (elapsed \<or> emitted_steps t = None) \<and> \<not> nothing_new steps spindle t))"

section \<open>The speed window\<close>

definition physical_speed_window_us :: u64 where "physical_speed_window_us = 100000"

fun drop_old :: "u64 \<Rightarrow> position_sample list \<Rightarrow> position_sample list" where
  "drop_old cutoff (a # b # hs) = (if sample_time b \<le> cutoff then drop_old cutoff (b # hs) else a # b # hs)"
| "drop_old cutoff hs = hs"

definition window_cutoff :: "u64 \<Rightarrow> u64" where
  "window_cutoff now = (if now > physical_speed_window_us then now - physical_speed_window_us else 0)"

definition push_history :: "u64 \<Rightarrow> real list \<Rightarrow> position_sample list \<Rightarrow> position_sample list" where
  "push_history now positions hs =
     (let hs = (if hs \<noteq> [] \<and> now < sample_time (last hs) then [] else hs)
      in drop_old (window_cutoff now) (hs @ [\<lparr>sample_time = now, sample_positions = positions\<rparr>]))"

definition axis_speed :: "u64 \<Rightarrow> position_sample \<Rightarrow> real \<Rightarrow> nat \<Rightarrow> real" where
  "axis_speed now oldest mm i =
     \<bar>mm - sample_positions oldest ! i\<bar> / (real (unat (max (now - sample_time oldest) physical_speed_window_us)) / 60000000)"

definition axes_with_speed :: "bool \<Rightarrow> u64 \<Rightarrow> position_sample list \<Rightarrow> axis_machine_state list \<Rightarrow> axis_machine_state list" where
  "axes_with_speed moved now hs axes =
     (let oldest = hd hs
      in if moved \<and> sample_time oldest < now \<and> length (sample_positions oldest) = length axes
         then map (\<lambda>(i, a). a\<lparr>am_speed_per_min := axis_speed now oldest (am_physical_mm a) i\<rparr>) (enumerate 0 axes)
         else axes)"

definition motion_visible :: "bool \<Rightarrow> u64 \<Rightarrow> position_sample list \<Rightarrow> axis_machine_state list \<Rightarrow> bool" where
  "motion_visible moved now hs axes \<longleftrightarrow>
     moved \<and> sample_time (hd hs) < now \<and> length (sample_positions (hd hs)) = length axes \<and>
     (\<exists>a \<in> set (axes_with_speed moved now hs axes). 5 / 100 \<le> am_speed_per_min a)"

section \<open>Observing\<close>

definition emit :: "view \<Rightarrow> ('h, 'w) machine \<Rightarrow> int list \<Rightarrow> spindle_snapshot \<Rightarrow> telemetry \<Rightarrow> machine_telemetry \<times> telemetry" where
  "emit v m steps spindle t =
     (let moved = (emitted_steps t \<noteq> None \<and> emitted_steps t \<noteq> Some steps);
          state = fst (assemble_with_firmware_homed (v_robot v) None (Some (telemetry_axis_count m)) (machine_model_from_kernel (v_factory v)) m);
          hs = push_history (v_now v) (map am_physical_mm (mst_axes state)) (position_history t);
          sample = \<lparr>tm_sequence = next_sequence t, tm_time_us = v_now v,
                    tm_state = state\<lparr>mst_axes := axes_with_speed moved (v_now v) hs (mst_axes state)\<rparr>\<rparr>
      in (sample, t\<lparr>ticks_since_emit := 0, emitted_steps := Some steps, emitted_rpm := Some (snap_actual_rpm spindle),
                    emitted_target_rpm := Some (snap_target_rpm spindle), emitted_time := Some (v_now v),
                    emitted_wall := Some (v_wall v), next_sequence := next_sequence t + 1, position_history := hs,
                    had_motion := motion_visible moved (v_now v) hs (mst_axes state)\<rparr>))"

definition observe :: "bool \<Rightarrow> view \<Rightarrow> ('h, 'w) machine \<Rightarrow> telemetry \<Rightarrow> machine_telemetry option \<times> telemetry" where
  "observe force v m t =
     (if \<not> tl_sink t then (None, t)
      else let steps = telemetry_steps m; spindle = spindle_snapshot_of (machine_model_from_kernel (v_factory v)) (m_spindle m)
           in if first_look force steps t then (None, t\<lparr>observed_steps := steps\<rparr>)
              else if emit_due force v steps spindle t
              then map_prod Some id (emit v m steps spindle (counted force steps t))
              else (None, counted force steps t))"

fun observe_all :: "(bool \<times> view \<times> ('h, 'w) machine) list \<Rightarrow> telemetry \<Rightarrow> machine_telemetry list \<times> telemetry" where
  "observe_all [] t = ([], t)"
| "observe_all ((force, v, m) # os) t =
     (let (sample, t) = observe force v m t; (samples, t) = observe_all os t
      in ((case sample of None \<Rightarrow> [] | Some s \<Rightarrow> [s]) @ samples, t))"


lemma set_sink_simps [simp]:
  "tl_sink (set_sink p t) = p" "next_sequence (set_sink p t) = 1" "emitted_steps (set_sink p t) = None"
  "emitted_time (set_sink p t) = None" "observed_steps (set_sink p t) = []" "had_motion (set_sink p t) = False"
  "tl_interval_us (set_sink p t) = tl_interval_us t"
  by (simp_all add: set_sink_def telemetry_reset_def)

lemma counted_simps [simp]:
  "tl_sink (counted f s t) = tl_sink t" "next_sequence (counted f s t) = next_sequence t"
  "emitted_steps (counted f s t) = emitted_steps t" "emitted_time (counted f s t) = emitted_time t"
  "observed_steps (counted f s t) = s" "had_motion (counted f s t) = had_motion t"
  "emitted_rpm (counted f s t) = emitted_rpm t" "emitted_target_rpm (counted f s t) = emitted_target_rpm t"
  "tl_interval_us (counted f s t) = tl_interval_us t" "position_history (counted f s t) = position_history t"
  by (simp_all add: counted_def)

lemma nothing_new_counted [simp]: "nothing_new steps spindle (counted f s t) = nothing_new steps spindle t"
  by (simp add: nothing_new_def)

lemma observe_all_append:
  "observe_all (xs @ ys) t = (let (a, t) = observe_all xs t; (b, t) = observe_all ys t in (a @ b, t))"
  by (induction xs t rule: observe_all.induct) (auto simp: Let_def split: prod.splits)

lemma observe_cases [consumes 1, case_names no_sink look emitted quiet]:
  assumes "observe force v m t = (sample, t')"
  obtains "\<not> tl_sink t" "sample = None" "t' = t"
  | "tl_sink t" "first_look force (telemetry_steps m) t" "sample = None" "t' = t\<lparr>observed_steps := telemetry_steps m\<rparr>"
  | s where "tl_sink t" "\<not> first_look force (telemetry_steps m) t"
      "emit_due force v (telemetry_steps m) (spindle_snapshot_of (machine_model_from_kernel (v_factory v)) (m_spindle m)) t"
      "sample = Some s"
      "emit v m (telemetry_steps m) (spindle_snapshot_of (machine_model_from_kernel (v_factory v)) (m_spindle m))
         (counted force (telemetry_steps m) t) = (s, t')"
  | "tl_sink t" "\<not> first_look force (telemetry_steps m) t"
      "\<not> emit_due force v (telemetry_steps m) (spindle_snapshot_of (machine_model_from_kernel (v_factory v)) (m_spindle m)) t"
      "sample = None" "t' = counted force (telemetry_steps m) t"
  using assms by (auto simp: observe_def Let_def map_prod_def split: if_splits prod.splits)

section \<open>The sequence of the samples\<close>

lemma emit_sequence:
  "emit v m steps spindle t = (s, t') \<Longrightarrow> tm_sequence s = next_sequence t \<and> next_sequence t' = next_sequence t + 1"
  by (auto simp: emit_def Let_def)

lemma observe_sequence:
  "observe force v m t = (sample, t') \<Longrightarrow>
     (case sample of None \<Rightarrow> next_sequence t' = next_sequence t
      | Some s \<Rightarrow> tm_sequence s = next_sequence t \<and> next_sequence t' = next_sequence t + 1)"
  by (erule observe_cases) (auto dest: emit_sequence)

lemma observe_all_sequence:
  "map tm_sequence (fst (observe_all os t)) =
     map (\<lambda>i. next_sequence t + of_nat i) [0..<length (fst (observe_all os t))]"
proof (induction os t rule: observe_all.induct)
  case (2 force v m os t)
  obtain sample u where o: "observe force v m t = (sample, u)" by fastforce
  obtain samples w where os: "observe_all os u = (samples, w)" by fastforce
  have IH: "map tm_sequence samples = map (\<lambda>i. next_sequence u + of_nat i) [0..<length samples]"
    using 2 [OF o [symmetric]] os by simp
  show ?case
    using observe_sequence [OF o] IH o os
    by (auto simp: map_upt_Suc add.assoc simp del: upt_Suc split: option.splits)
qed simp

text \<open>
  The samples a new sink receives are numbered from one without a gap, whatever is observed and when.
\<close>

theorem samples_numbered:
  "map tm_sequence (fst (observe_all os (set_sink present t))) = map of_nat [1..<Suc (length (fst (observe_all os (set_sink present t))))]"
proof -
  have "map (\<lambda>i. (1 :: u64) + of_nat i) [0..<n] = map of_nat [1..<Suc n]" for n
    by (simp add: map_Suc_upt [symmetric] comp_def del: upt_Suc)
  then show ?thesis by (simp only: observe_all_sequence set_sink_simps)
qed


text \<open>The message of a sample.\<close>

definition fill_telemetry_sample_proto :: "machine_telemetry \<Rightarrow> pb_telemetry \<Rightarrow> pb_telemetry" where
  "fill_telemetry_sample_proto source t = (fill_machine_telemetry_proto (tm_state source) t)\<lparr>pte_time_us := tm_time_us source\<rparr>"

section \<open>What a sample says\<close>

definition sample_steps :: "machine_telemetry \<Rightarrow> int list" where
  "sample_steps s = map am_physical_steps (mst_axes (tm_state s))"

definition sample_moves :: "machine_telemetry \<Rightarrow> bool" where
  "sample_moves s \<longleftrightarrow> (\<exists>a \<in> set (mst_axes (tm_state s)). 5 / 100 \<le> am_speed_per_min a)"

lemma map_with_speed:
  "(\<And>a x. f (a\<lparr>am_speed_per_min := x\<rparr>) = f a) \<Longrightarrow> map f (axes_with_speed moved now hs axes) = map f axes"
  by (auto simp: axes_with_speed_def Let_def intro!: nth_equalityI simp: nth_enumerate_eq)

lemma telemetry_count_resolved [simp]:
  "resolved_axis_count (Some (telemetry_axis_count m)) r axes = telemetry_axis_count m"
  by (simp add: resolved_axis_count_def telemetry_axis_count_def)

lemma snapshot_axes:
  "mst_axes (fst (assemble_with_firmware_homed r None (Some (telemetry_axis_count m)) model m)) =
     map (axis_snapshot r (m_axes m)) [0..<telemetry_axis_count m]"
  by (simp add: assemble_with_firmware_homed_def assemble_machine_state_def Let_def)

lemma emit_steps: "sample_steps (fst (emit v m steps spindle t)) = telemetry_steps m"
  by (auto simp: emit_def Let_def sample_steps_def map_with_speed snapshot_axes telemetry_steps_def axis_snapshot_def)
    (auto simp: telemetry_axis_count_def)

lemma emit_moves: "sample_moves (fst (emit v m steps spindle t)) = had_motion (snd (emit v m steps spindle t))"
  by (auto simp: emit_def Let_def sample_moves_def motion_visible_def axes_with_speed_def snapshot_axes axis_snapshot_def
      split: if_splits)

lemma emit_time: "tm_time_us (fst (emit v m steps spindle t)) = v_now v"
  by (simp add: emit_def Let_def)

lemma emit_spindle:
  "mst_spindle (tm_state (fst (emit v m steps spindle t))) = spindle_snapshot_of (machine_model_from_kernel (v_factory v)) (m_spindle m)"
  by (simp add: emit_def Let_def assemble_with_firmware_homed_def)

lemma emit_state [simp]:
  "emitted_steps (snd (emit v m steps spindle t)) = Some steps"
  "emitted_time (snd (emit v m steps spindle t)) = Some (v_now v)"
  "emitted_rpm (snd (emit v m steps spindle t)) = Some (snap_actual_rpm spindle)"
  "emitted_target_rpm (snd (emit v m steps spindle t)) = Some (snap_target_rpm spindle)"
  "observed_steps (snd (emit v m steps spindle t)) = observed_steps t"
  "tl_sink (snd (emit v m steps spindle t)) = tl_sink t"
  "tl_interval_us (snd (emit v m steps spindle t)) = tl_interval_us t"
  by (simp_all add: emit_def Let_def)

text \<open>What the state remembers is what the last sample said.\<close>

definition remembers :: "machine_telemetry option \<Rightarrow> telemetry \<Rightarrow> bool" where
  "remembers last_sample t \<longleftrightarrow> (case last_sample of
     None \<Rightarrow> emitted_steps t = None \<and> emitted_time t = None \<and> \<not> had_motion t
   | Some s \<Rightarrow> emitted_steps t = Some (sample_steps s) \<and> emitted_time t = Some (tm_time_us s) \<and> had_motion t = sample_moves s \<and>
       emitted_rpm t = Some (snap_actual_rpm (mst_spindle (tm_state s))) \<and>
       emitted_target_rpm t = Some (snap_target_rpm (mst_spindle (tm_state s))))"

definition latest :: "machine_telemetry option \<Rightarrow> machine_telemetry list \<Rightarrow> machine_telemetry option" where
  "latest first_one samples = (if samples = [] then first_one else Some (last samples))"

lemma latest_simps [simp]:
  "latest f [] = f" "latest f (a @ b) = latest (latest f a) b" "latest f [s] = Some s"
  by (simp_all add: latest_def)

lemma observe_remembers:
  assumes "observe force v m t = (sample, t')" "remembers l t"
  shows "remembers (case sample of None \<Rightarrow> l | Some s \<Rightarrow> Some s) t'"
  using assms(1)
proof (cases rule: observe_cases)
  case (emitted s)
  let ?sp = "spindle_snapshot_of (machine_model_from_kernel (v_factory v)) (m_spindle m)"
  let ?e = "emit v m (telemetry_steps m) ?sp (counted force (telemetry_steps m) t)"
  have "s = fst ?e" "t' = snd ?e" using emitted(5) by simp_all
  then show ?thesis unfolding emitted(4)
    by (simp add: remembers_def emit_steps emit_moves emit_time emit_spindle)
qed (use assms(2) in \<open>auto simp: remembers_def counted_def split: option.splits\<close>)

lemma observe_all_remembers:
  "remembers l t \<Longrightarrow> remembers (latest l (fst (observe_all os t))) (snd (observe_all os t))"
proof (induction os t arbitrary: l rule: observe_all.induct)
  case (2 force v m os t)
  obtain sample u where o: "observe force v m t = (sample, u)" by fastforce
  show ?case using 2(1) [OF o [symmetric] refl observe_remembers [OF o 2(2)]] o
    by (auto simp: Let_def split: prod.splits option.splits)
qed simp

lemma observe_keeps [simp]:
  "tl_sink (snd (observe force v m t)) = tl_sink t" "tl_interval_us (snd (observe force v m t)) = tl_interval_us t"
  by (auto simp: observe_def Let_def)

lemma observe_all_keeps [simp]:
  "tl_sink (snd (observe_all os t)) = tl_sink t" "tl_interval_us (snd (observe_all os t)) = tl_interval_us t"
proof (induction os arbitrary: t)
  case (Cons ob os)
  { case 1 then show ?case using Cons.IH by (cases ob) (simp add: case_prod_unfold Let_def) }
  { case 2 then show ?case using Cons.IH by (cases ob) (simp add: case_prod_unfold Let_def) }
qed simp_all

section \<open>At rest\<close>

text \<open>\<open>settled\<close>: what the sink last heard is where the machine is.\<close>

definition settled :: "('h, 'w) machine \<Rightarrow> telemetry \<Rightarrow> bool" where
  "settled m t \<longleftrightarrow> tl_sink t \<and> observed_steps t = telemetry_steps m \<and>
     nothing_new (telemetry_steps m) (spindle_snapshot_of CarveraC1 (m_spindle m)) t"

lemma nothing_new_model:
  "nothing_new steps (spindle_snapshot_of model s) t = nothing_new steps (spindle_snapshot_of model' s) t"
  by (simp add: nothing_new_def spindle_snapshot_of_def)

lemma settled_is_quiet:
  assumes "settled m t"
  shows "fst (observe False v m t) = None" "settled m (snd (observe False v m t))"
proof -
  have n: "nothing_new (telemetry_steps m) (spindle_snapshot_of (machine_model_from_kernel (v_factory v)) (m_spindle m)) t"
    using assms nothing_new_model unfolding settled_def by blast
  have "tl_sink t" "observed_steps t = telemetry_steps m" using assms by (simp_all add: settled_def)
  then have "observe False v m t = (None, counted False (telemetry_steps m) t)"
    using n by (simp add: observe_def Let_def first_look_def emit_due_def)
  then show "fst (observe False v m t) = None" "settled m (snd (observe False v m t))"
    using assms by (simp_all add: settled_def)
qed

lemma settled_stays_quiet:
  "\<lbrakk>settled m t; list_all (\<lambda>(force, v, n). \<not> force \<and> n = m) os\<rbrakk> \<Longrightarrow>
     fst (observe_all os t) = [] \<and> settled m (snd (observe_all os t))"
proof (induction os t rule: observe_all.induct)
  case (2 force v n os t)
  then show ?case
    using settled_is_quiet [OF "2.prems"(1), of v] by (cases "observe False v m t") (auto simp: Let_def split: prod.splits)
qed simp

lemma spindle_unchanged_near:
  "\<not> spindle_changed spindle t \<Longrightarrow> rpm_near (snap_actual_rpm spindle) (emitted_rpm t) \<and> rpm_near (snap_target_rpm spindle) (emitted_target_rpm t)"
  by (auto simp: spindle_changed_def rpm_near_def split: option.splits)

lemma not_due_nothing_new:
  "\<lbrakk>\<not> emit_due False v steps spindle t; time_elapsed v t\<rbrakk> \<Longrightarrow> nothing_new steps spindle t"
  using spindle_unchanged_near [of spindle t] by (auto simp: emit_due_def Let_def nothing_new_def resting_unemitted_def split: if_splits)

text \<open>
  An observation after the interval settles the telemetry or reports the position; the report of a position that
  was reported before is at rest and settles it.
\<close>

lemma elapsed_observation:
  assumes "tl_sink t" "\<not> first_look False (telemetry_steps m) t" "time_elapsed v t"
  defines "t' \<equiv> snd (observe False v m t)"
  shows "settled m t' \<or> emitted_steps t' = Some (telemetry_steps m) \<and> observed_steps t' = telemetry_steps m \<and>
      emitted_time t' = Some (v_now v) \<and> emitted_wall t' = Some (v_wall v)"
    and "emitted_steps t = Some (telemetry_steps m) \<Longrightarrow> settled m t'"
proof -
  let ?sp = "spindle_snapshot_of (machine_model_from_kernel (v_factory v)) (m_spindle m)"
  let ?u = "counted False (telemetry_steps m) t"
  have quiet: "settled m t'" if "\<not> emit_due False v (telemetry_steps m) ?sp t"
  proof -
    have "nothing_new (telemetry_steps m) (spindle_snapshot_of CarveraC1 (m_spindle m)) t"
      using not_due_nothing_new [OF that assms(3)] by (simp add: nothing_new_def spindle_snapshot_of_def)
    then show ?thesis using that assms(1,2) by (simp add: t'_def observe_def Let_def settled_def)
  qed
  have t': "t' = snd (emit v m (telemetry_steps m) ?sp ?u)" if "emit_due False v (telemetry_steps m) ?sp t"
    using that assms(1,2) by (simp add: t'_def observe_def Let_def)
  have wall: "emitted_wall (snd (emit v m (telemetry_steps m) ?sp ?u)) = Some (v_wall v)"
    by (simp add: emit_def Let_def)
  show "settled m t' \<or> emitted_steps t' = Some (telemetry_steps m) \<and> observed_steps t' = telemetry_steps m \<and>
      emitted_time t' = Some (v_now v) \<and> emitted_wall t' = Some (v_wall v)"
    using quiet t' wall by (cases "emit_due False v (telemetry_steps m) ?sp t") simp_all
  show "settled m t'" if "emitted_steps t = Some (telemetry_steps m)"
  proof (cases "emit_due False v (telemetry_steps m) ?sp t")
    case True
    have "\<not> had_motion (snd (emit v m (telemetry_steps m) ?sp ?u))"
      using that by (simp add: emit_def Let_def motion_visible_def)
    then show ?thesis using assms(1) t' [OF True]
      by (simp add: settled_def nothing_new_def rpm_near_def spindle_snapshot_of_def)
  qed (rule quiet)
qed

definition not_before :: "view \<Rightarrow> telemetry \<Rightarrow> bool" where
  "not_before v t \<longleftrightarrow> (\<forall>l. emitted_time t = Some l \<longrightarrow> l \<le> v_now v) \<and> (\<forall>l. emitted_wall t = Some l \<longrightarrow> l \<le> v_wall v)"

definition interval_later :: "u64 \<Rightarrow> view \<Rightarrow> view \<Rightarrow> bool" where
  "interval_later i v w \<longleftrightarrow> v_now v \<le> v_now w \<and> i \<le> v_now w - v_now v \<and> v_wall v + int (unat i) * 1000 \<le> v_wall w"

lemma observe_not_before:
  "\<lbrakk>not_before w t; v_now v \<le> v_now w; v_wall v \<le> v_wall w\<rbrakk> \<Longrightarrow> not_before w (snd (observe force v m t))"
  by (auto simp: not_before_def observe_def emit_def Let_def counted_def)

lemma observe_all_not_before:
  "\<lbrakk>not_before w t; list_all (\<lambda>(force, v, m). v_now v \<le> v_now w \<and> v_wall v \<le> v_wall w) os\<rbrakk> \<Longrightarrow>
     not_before w (snd (observe_all os t))"
proof (induction os arbitrary: t)
  case (Cons ob os)
  then show ?case by (cases ob) (simp add: case_prod_unfold Let_def observe_not_before)
qed simp

lemma interval_elapsed:
  assumes "interval_later (tl_interval_us t) v w" "not_before v t"
  shows "time_elapsed w t"
proof -
  have "tl_interval_us t \<le> v_now w - l" if "l \<le> v_now v" for l
  proof -
    have "v_now w - v_now v \<le> v_now w - l"
      using that assms(1) by (simp add: interval_later_def word_le_nat_alt unat_sub)
    then show ?thesis using assms(1) by (auto simp: interval_later_def)
  qed
  then show ?thesis using assms
    by (fastforce simp: time_elapsed_def not_before_def interval_later_def split: option.splits)
qed

lemma interval_later_le: "interval_later i v w \<Longrightarrow> v_now v \<le> v_now w \<and> v_wall v \<le> v_wall w"
proof -
  assume "interval_later i v w"
  moreover have "0 \<le> int (unat i) * 1000" by simp
  ultimately show ?thesis unfolding interval_later_def by linarith
qed

lemma not_before_later: "\<lbrakk>interval_later i v w; not_before v t\<rbrakk> \<Longrightarrow> not_before w t"
  using interval_later_le [of i v w] by (fastforce simp: not_before_def)

lemma observe_not_first_look: "tl_sink t \<Longrightarrow> \<not> first_look False (telemetry_steps m) (snd (observe force v m t))"
  by (auto simp: observe_def Let_def first_look_def)


text \<open>
  C30: The resting position always reaches the sink: however the machine moved before, three looks at the machine at
  rest, an interval apart, end with a sample that holds its position and no speed, and after it nothing more is
  sent while the machine stays where it is.
\<close>

theorem resting_position_reported:
  assumes earlier: "list_all (\<lambda>(force, v, n). v_now v \<le> v_now v1 \<and> v_wall v \<le> v_wall v1) os"
    and later: "interval_later (tl_interval_us t) v1 v2" "interval_later (tl_interval_us t) v2 v3"
    and idle: "list_all (\<lambda>(force, v, n). \<not> force \<and> n = m) idles"
  defines "looks \<equiv> os @ [(False, v1, m), (False, v2, m), (False, v3, m)]"
  shows "let samples = fst (observe_all looks (set_sink True t))
         in samples \<noteq> [] \<and> sample_steps (last samples) = telemetry_steps m \<and> \<not> sample_moves (last samples) \<and>
            fst (observe_all (looks @ idles) (set_sink True t)) = samples"
proof -
  define t0 where "t0 = snd (observe_all os (set_sink True t))"
  define t1 where "t1 = snd (observe False v1 m t0)"
  define t2 where "t2 = snd (observe False v2 m t1)"
  define t3 where "t3 = snd (observe False v3 m t2)"
  have sink: "tl_sink t0" "tl_sink t1" "tl_sink t2" by (simp_all add: t0_def t1_def t2_def)
  have i: "tl_interval_us t1 = tl_interval_us t" "tl_interval_us t2 = tl_interval_us t" by (simp_all add: t0_def t1_def t2_def)
  have "not_before v1 (set_sink True t)" by (simp add: not_before_def set_sink_def telemetry_reset_def)
  then have "not_before v1 t1" unfolding t1_def t0_def using earlier by (simp add: observe_all_not_before observe_not_before)
  then have e2: "time_elapsed v2 t1" using interval_elapsed later(1) i by metis
  have "not_before v2 t2" unfolding t2_def
    by (rule observe_not_before [OF not_before_later [OF later(1) \<open>not_before v1 t1\<close>]]) simp_all
  then have e3: "time_elapsed v3 t2" using interval_elapsed later(2) i by metis
  have look: "\<not> first_look False (telemetry_steps m) t1" "\<not> first_look False (telemetry_steps m) t2"
    using observe_not_first_look sink unfolding t1_def t2_def by blast+
  have "settled m t3"
    using elapsed_observation(1) [OF sink(2) look(1) e2] elapsed_observation(2) [OF sink(3) look(2) e3] settled_is_quiet(2)
    unfolding t2_def [symmetric] t3_def [symmetric] by (metis t3_def)
  have t3: "t3 = snd (observe_all looks (set_sink True t))"
    by (simp add: looks_def observe_all_append t0_def t1_def t2_def t3_def case_prod_unfold Let_def)
  have "remembers (latest None (fst (observe_all looks (set_sink True t)))) t3"
    unfolding t3 by (rule observe_all_remembers) (simp add: remembers_def)
  moreover have "emitted_steps t3 = Some (telemetry_steps m)" "\<not> had_motion t3"
    using \<open>settled m t3\<close> by (simp_all add: settled_def nothing_new_def)
  moreover have "fst (observe_all (looks @ idles) (set_sink True t)) = fst (observe_all looks (set_sink True t))"
    using settled_stays_quiet [OF \<open>settled m t3\<close> idle] t3 by (simp add: observe_all_append case_prod_unfold Let_def)
  ultimately show ?thesis by (auto simp: latest_def remembers_def Let_def split: if_splits)
qed

definition example_robot :: robot_state where
  "example_robot = \<lparr>rs_present = False, rs_homed = \<lambda>_. False, rs_soft_endstops = False, rs_soft_min = \<lambda>_. 0, rs_soft_max = \<lambda>_. 0,
     rs_axis_position = \<lambda>_. 0, rs_motors = 0, rs_tool_status = None\<rparr>"

definition example_view :: "u64 \<Rightarrow> int \<Rightarrow> view" where
  "example_view now wall = \<lparr>v_robot = example_robot, v_factory = None, v_realtime = False, v_now = now, v_wall = wall\<rparr>"

theorem resting_position_reported_witness:
  "\<forall>m :: (nat, nat) machine. let samples = fst (observe_all [(False, example_view 0 0, m), (False, example_view 10000 10000000, m),
       (False, example_view 20000 20000000, m)] (set_sink True new_telemetry))
   in samples \<noteq> [] \<and> sample_steps (last samples) = telemetry_steps m \<and> \<not> sample_moves (last samples)"
proof
  fix m :: "(nat, nat) machine"
  show "let samples = fst (observe_all [(False, example_view 0 0, m), (False, example_view 10000 10000000, m),
       (False, example_view 20000 20000000, m)] (set_sink True new_telemetry))
   in samples \<noteq> [] \<and> sample_steps (last samples) = telemetry_steps m \<and> \<not> sample_moves (last samples)"
    using resting_position_reported [of "example_view 0 0" "[]" new_telemetry "example_view 10000 10000000"
        "example_view 20000 20000000" m "[]"]
    by (simp add: interval_later_def example_view_def new_telemetry_def Let_def)
qed


section \<open>A spindle that stops slowly\<close>

text \<open>
  A change of the \<^verbatim>\<open>spinning\<close> flag counts as news, but a sample is sent only if a speed moved by ten or more: a
  spindle last reported at 8 rpm stops without a word, and the sink is left with a spinning spindle for good.
\<close>

definition spindle_at :: "real \<Rightarrow> spindle_state" where
  "spindle_at rpm = \<lparr>actual_rpm = rpm, target_rpm = 0, last_update_us = 0, initialized = True\<rparr>"

lemma two_looks:
  "\<exists>s t'. observe_all [(False, v, m), (False, v, m)] (set_sink True t) = ([s], t') \<and>
     mst_spindle (tm_state s) = spindle_snapshot_of (machine_model_from_kernel (v_factory v)) (m_spindle m) \<and> settled m t'"
proof -
  let ?sp = "spindle_snapshot_of (machine_model_from_kernel (v_factory v)) (m_spindle m)"
  have due: "emit_due False v (telemetry_steps m) ?sp u" if "emitted_steps u = None" for u
    using that by (simp add: emit_due_def Let_def resting_unemitted_def nothing_new_def)
  have settles: "settled m (snd (emit v m (telemetry_steps m) ?sp (counted False (telemetry_steps m) u)))"
    if "emitted_steps u = None" "tl_sink u" for u
    using that by (simp add: settled_def nothing_new_def rpm_near_def spindle_snapshot_of_def)
      (simp add: emit_def Let_def motion_visible_def)
  show ?thesis
  proof (cases "telemetry_steps m = []")
    case True
    let ?e = "emit v m (telemetry_steps m) ?sp (counted False (telemetry_steps m) (set_sink True t))"
    have o: "observe False v m (set_sink True t) = map_prod Some id ?e"
      using due [of "set_sink True t"] True by (simp add: observe_def Let_def first_look_def)
    have "settled m (snd ?e)" by (rule settles) simp_all
    moreover from this have "settled m (snd (observe False v m (snd ?e)))" "fst (observe False v m (snd ?e)) = None"
      by (rule settled_is_quiet)+
    ultimately show ?thesis using o by (simp add: case_prod_unfold Let_def emit_spindle)
  next
    case False
    let ?u = "(set_sink True t)\<lparr>observed_steps := telemetry_steps m\<rparr>"
    let ?e = "emit v m (telemetry_steps m) ?sp (counted False (telemetry_steps m) ?u)"
    have o: "observe False v m (set_sink True t) = (None, ?u)"
      using False by (simp add: observe_def Let_def first_look_def)
    have o2: "observe False v m ?u = map_prod Some id ?e"
      using due [of ?u] False by (simp add: observe_def Let_def first_look_def)
    have "settled m (snd ?e)" by (rule settles) simp_all
    then show ?thesis by (simp add: o o2 case_prod_unfold Let_def emit_spindle)
  qed
qed

theorem slow_spindle_stop_unreported:
  "\<exists>s t'. observe_all [(False, v, m\<lparr>m_spindle := spindle_at 8\<rparr>), (False, v, m\<lparr>m_spindle := spindle_at 8\<rparr>)]
            (set_sink True t) = ([s], t') \<and>
     spinning (mst_spindle (tm_state s)) \<and>
     \<not> spinning (spindle_snapshot_of (machine_model_from_kernel (v_factory v)) (spindle_at 0)) \<and>
     (\<forall>looks. fst (observe_all (map (\<lambda>w. (False, w, m\<lparr>m_spindle := spindle_at 0\<rparr>)) looks) t') = [])"
proof -
  let ?m = "m\<lparr>m_spindle := spindle_at 8\<rparr>" and ?n = "m\<lparr>m_spindle := spindle_at 0\<rparr>"
  obtain s t' where st: "observe_all [(False, v, ?m), (False, v, ?m)] (set_sink True t) = ([s], t')"
    and sp: "mst_spindle (tm_state s) = spindle_snapshot_of (machine_model_from_kernel (v_factory v)) (spindle_at 8)"
    and set: "settled ?m t'"
    using two_looks [of v ?m t] by auto
  have r: "remembers (Some s) t'"
    using observe_all_remembers [of None "set_sink True t" "[(False, v, ?m), (False, v, ?m)]"] st
    by (simp add: remembers_def)
  have "telemetry_steps ?n = telemetry_steps ?m" by (simp add: telemetry_steps_def telemetry_axis_count_def)
  then have "settled ?n t'"
    using set r sp by (simp add: settled_def nothing_new_def remembers_def rpm_near_def spindle_snapshot_of_def spindle_at_def)
  then have "fst (observe_all (map (\<lambda>w. (False, w, ?n)) looks) t') = []" for looks
    by (rule settled_stays_quiet [THEN conjunct1]) (simp add: list_all_iff)
  then show ?thesis using st sp by (auto simp: spindle_snapshot_of_def spindle_at_def)
qed

section \<open>The window of the speeds\<close>

text \<open>The history is ordered in time, ends now, and only its first sample is older than the window.\<close>

definition history_ok :: "position_sample list \<Rightarrow> bool" where
  "history_ok hs \<longleftrightarrow> sorted (map sample_time hs) \<and>
     (hs \<noteq> [] \<longrightarrow> list_all (\<lambda>h. window_cutoff (sample_time (last hs)) < sample_time h) (tl hs))"

lemma drop_old_suffix: "\<exists>xs. hs = xs @ drop_old c hs"
proof (induction c hs rule: drop_old.induct)
  case (1 cutoff a b hs)
  then show ?case by (cases "sample_time b \<le> cutoff") (auto intro: exI [of _ "a # _"])
qed auto

lemma sorted_le_last: "\<lbrakk>sorted xs; x \<in> set xs\<rbrakk> \<Longrightarrow> x \<le> last xs"
  by (induction xs) (auto split: if_splits)

lemma drop_old_props: "hs \<noteq> [] \<Longrightarrow> drop_old c hs \<noteq> [] \<and> last (drop_old c hs) = last hs"
  by (induction c hs rule: drop_old.induct) auto

lemma drop_old_recent:
  "sorted (map sample_time hs) \<Longrightarrow> list_all (\<lambda>h. c < sample_time h) (tl (drop_old c hs))"
  by (induction c hs rule: drop_old.induct) (auto simp: list_all_iff not_le intro: less_le_trans)

lemma push_history_ok:
  assumes "history_ok hs"
  shows "history_ok (push_history now positions hs)" "push_history now positions hs \<noteq> []"
    "sample_time (last (push_history now positions hs)) = now"
proof -
  define keep where "keep = (if hs \<noteq> [] \<and> now < sample_time (last hs) then [] else hs)"
  let ?all = "keep @ [\<lparr>sample_time = now, sample_positions = positions\<rparr>]"
  have p: "push_history now positions hs = drop_old (window_cutoff now) ?all"
    by (simp add: push_history_def keep_def Let_def)
  have "\<forall>h \<in> set keep. sample_time h \<le> now"
  proof (cases "keep = []")
    case False
    then have "sample_time (last hs) \<le> now" "keep = hs" by (auto simp: keep_def split: if_splits)
    then show ?thesis using assms False
      using sorted_le_last [of "map sample_time hs"] by (fastforce simp: history_ok_def last_map)
  qed simp
  moreover have "sorted (map sample_time keep)" using assms by (simp add: keep_def history_ok_def)
  ultimately have sorted_all: "sorted (map sample_time ?all)" by (simp add: sorted_append)
  obtain xs where "?all = xs @ drop_old (window_cutoff now) ?all" using drop_old_suffix by blast
  then have "sorted (map sample_time (drop_old (window_cutoff now) ?all))"
    using sorted_all by (metis map_append sorted_append)
  moreover note d = drop_old_props [of ?all "window_cutoff now"]
  moreover note drop_old_recent [OF sorted_all, of "window_cutoff now"]
  ultimately show "history_ok (push_history now positions hs)" by (auto simp: p history_ok_def list_all_iff)
  show "push_history now positions hs \<noteq> []" "sample_time (last (push_history now positions hs)) = now"
    using d by (simp_all add: p)
qed

lemma observe_all_history_ok:
  "history_ok (position_history t) \<Longrightarrow> history_ok (position_history (snd (observe_all os t)))"
proof (induction os arbitrary: t)
  case (Cons ob os)
  obtain force v m where ob: "ob = (force, v, m)" by (cases ob) auto
  have "history_ok (position_history (snd (observe force v m t)))"
    using Cons.prems by (auto simp: observe_def emit_def Let_def push_history_ok(1))
  then show ?case using Cons.IH by (simp add: ob case_prod_unfold Let_def)
qed simp

text \<open>A reported speed is at most the distance moved in a window, however close together the samples are.\<close>

lemma axis_speed_bound:
  "0 \<le> axis_speed now oldest mm i \<and> axis_speed now oldest mm i \<le> 600 * \<bar>mm - sample_positions oldest ! i\<bar>"
proof -
  define w where "w = real (unat (max (now - sample_time oldest) physical_speed_window_us))"
  have "unat (100000 :: u64) \<le> unat (max (now - sample_time oldest) physical_speed_window_us)"
    unfolding word_le_nat_alt [symmetric] physical_speed_window_us_def by simp
  then have "real (unat (100000 :: u64)) \<le> w" unfolding w_def by (rule of_nat_mono)
  then have "100000 \<le> w" by simp
  moreover have "100000 * \<bar>x\<bar> \<le> w * \<bar>x\<bar>" if "100000 \<le> w" for x using that by (rule mult_right_mono) simp
  ultimately have "\<bar>x\<bar> / (w / 60000000) \<le> 600 * \<bar>x\<bar>" "0 \<le> \<bar>x\<bar> / (w / 60000000)" for x
    by (simp_all add: field_simps)
  then show ?thesis by (simp add: axis_speed_def w_def)
qed

end
