(* ===== verification/Transport_Manager.thy ===== *)
theory Transport_Manager
  imports Transport
begin

text \<open>
  The virtual COM port (\<^verbatim>\<open>src/protocol/virtual_com_port.cpp\<close>) and the manager of the interactive transports
  (\<^verbatim>\<open>src/protocol/interactive_transport_manager.cpp\<close>): starting and stopping the port, the bridges and the
  beacon, and one turn of the pump that moves bytes between them and the firmware.

  The system calls of a pseudo terminal are parameters as those of the sockets are.  The host of the manager
  is the record \<open>host\<close>; running a batch of the firmware is a parameter that gets the callback the firmware's
  delays run.  The log is left out.
\<close>

section \<open>The virtual COM port\<close>

record 'os pty_calls =
  pty_sockets :: "'os sys_calls"
  pty_open_master :: "'os \<Rightarrow> handle \<times> 'os"
  pty_grant_unlock :: "handle \<Rightarrow> 'os \<Rightarrow> bool \<times> 'os"
  pty_slave_name :: "handle \<Rightarrow> 'os \<Rightarrow> string option \<times> 'os"
  pty_open_slave :: "string \<Rightarrow> 'os \<Rightarrow> handle \<times> 'os"
  pty_prepare :: "handle \<Rightarrow> handle \<Rightarrow> 'os \<Rightarrow> 'os"
  pty_now_ms :: "'os \<Rightarrow> nat"

record com_port =
  device_path :: string
  slave_anchor :: handle
  com_io :: fd_pump

definition new_com_port :: com_port where
  "new_com_port = \<lparr>device_path = [], slave_anchor = kInvalidHandle, com_io = new_fd_pump kInvalidHandle\<rparr>"

definition com_open :: "com_port \<Rightarrow> bool" where
  "com_open p \<longleftrightarrow> pump_fd (com_io p) \<noteq> kInvalidHandle"

definition com_stop :: "'os pty_calls \<Rightarrow> com_port \<Rightarrow> 'os \<Rightarrow> com_port \<times> 'os" where
  "com_stop c p os =
     (let (io, os) = pump_close (pty_sockets c) (com_io p) os;
          (anchor, os) = close_fd (pty_sockets c) (slave_anchor p) os
      in (p\<lparr>com_io := io, slave_anchor := anchor, device_path := []\<rparr>, os))"

text \<open>The failing branches close the master and stop.\<close>

definition com_give_up :: "'os pty_calls \<Rightarrow> handle \<Rightarrow> com_port \<Rightarrow> 'os \<Rightarrow> (bool \<times> com_port) \<times> 'os" where
  "com_give_up c master p os =
     (let (_, os) = close_fd (pty_sockets c) master os; (p, os) = com_stop c p os in ((False, p), os))"

definition com_start :: "'os pty_calls \<Rightarrow> com_port \<Rightarrow> 'os \<Rightarrow> (bool \<times> com_port) \<times> 'os" where
  "com_start c p os =
     (if com_open p then ((True, p), os)
      else let (master, os) = pty_open_master c os
           in if master = kInvalidHandle then ((False, p), os)
              else let (granted, os) = pty_grant_unlock c master os
                   in if \<not> granted then com_give_up c master p os
                      else let (slave, os) = pty_slave_name c master os
                           in case slave of
                                None \<Rightarrow> com_give_up c master p os
                              | Some path \<Rightarrow>
                                  let (anchor, os) = pty_open_slave c path os;
                                      p = p\<lparr>device_path := path, slave_anchor := anchor\<rparr>
                                  in if anchor = kInvalidHandle then com_give_up c master p os
                                     else let os = pty_prepare c anchor master os;
                                              (io, os) = pump_reset (pty_sockets c) master (com_io p) os
                                          in ((True, p\<lparr>com_io := io\<rparr>), os))"

definition com_options :: pump_options where
  "com_options = \<lparr>close_on_read_error = False, close_on_write_error = False\<rparr>"

definition com_service :: "'os pty_calls \<Rightarrow> com_port \<Rightarrow> 'os \<Rightarrow> (com_port \<times> 'os) option" where
  "com_service c p os = map_option (\<lambda>((_, io), os). (p\<lparr>com_io := io\<rparr>, os)) (pump_service (pty_sockets c) com_options (com_io p) os)"

definition com_poll_input :: "'os pty_calls \<Rightarrow> (string \<Rightarrow> ('h, 'w) runtime \<Rightarrow> ('h, 'w) runtime option) \<Rightarrow>
    com_port \<Rightarrow> ('h, 'w) runtime \<Rightarrow> 'os \<Rightarrow> (string \<times> com_port \<times> ('h, 'w) runtime \<times> 'os) option" where
  "com_poll_input c write p r os =
     (if \<not> com_open p then Some ([], p, r, os)
      else case com_service c p os of
        None \<Rightarrow> None
      | Some (p, os) \<Rightarrow>
          (let (input, io) = take_input (com_io p); p = p\<lparr>com_io := io\<rparr>
           in case (if input \<noteq> [] then write input r else Some r) of
                None \<Rightarrow> None | Some r \<Rightarrow> Some (input, p, r, os)))"

definition com_write_output :: "'os pty_calls \<Rightarrow> string \<Rightarrow> com_port \<Rightarrow> 'os \<Rightarrow> (com_port \<times> 'os) option" where
  "com_write_output c bytes p os =
     (if \<not> com_open p \<or> bytes = [] then Some (p, os)
      else com_service c (p\<lparr>com_io := queue_output bytes (com_io p)\<rparr>) os)"

definition com_poll :: "'os pty_calls \<Rightarrow> (string \<Rightarrow> ('h, 'w) runtime \<Rightarrow> ('h, 'w) runtime option) \<Rightarrow> ('h, 'w) boot_call \<Rightarrow>
    com_port \<Rightarrow> ('h, 'w) runtime \<Rightarrow> 'os \<Rightarrow> (com_port \<times> ('h, 'w) runtime \<times> 'os) option" where
  "com_poll c write boot p r os = (case com_poll_input c write p r os of
     None \<Rightarrow> None
   | Some (_, p, r, os) \<Rightarrow> (let (bytes, r) = read_serial boot r in
       map_option (\<lambda>(p, os). (p, r, os)) (com_write_output c bytes p os)))"

section \<open>The manager\<close>

record start_transport =
  enable_uart :: bool
  tcp_ports :: "u32 list"
  log_traffic :: bool

record transport_info =
  uart_supported :: bool
  uart_path :: string
  tcp_endpoints :: "(string \<times> u16) list"

record manager =
  mgr_uart :: "com_port option"
  mgr_bridges :: "tcp_bridge list"
  mgr_beacon :: beacon
  mgr_logging :: bool

record ('h, 'w, 'os, 'x) host =
  h_mgr :: manager
  h_io :: "('h, 'w) runtime"
  h_os :: 'os
  h_world :: 'x

definition new_manager :: manager where
  "new_manager = \<lparr>mgr_uart = None, mgr_bridges = [], mgr_beacon = \<lparr>beacon_payload = [], next_send_ms = 0, beacon_fd = kInvalidHandle\<rparr>,
     mgr_logging = False\<rparr>"

definition transport_active :: "manager \<Rightarrow> bool" where
  "transport_active m \<longleftrightarrow> mgr_uart m \<noteq> None \<or> mgr_bridges m \<noteq> []"

definition fill_transport :: "manager \<Rightarrow> transport_info" where
  "fill_transport m = \<lparr>uart_supported = True, uart_path = (case mgr_uart m of None \<Rightarrow> [] | Some p \<Rightarrow> device_path p),
     tcp_endpoints = map (\<lambda>b. (''0.0.0.0'', bridge_port b)) (mgr_bridges m)\<rparr>"

text \<open>A port that could not be opened is destroyed, which stops it.\<close>

definition start_uart :: "'os pty_calls \<Rightarrow> bool \<Rightarrow> manager \<Rightarrow> 'os \<Rightarrow> (bool \<times> manager) \<times> 'os" where
  "start_uart c enable m os =
     (if enable \<and> mgr_uart m = None
      then let ((started, p), os) = com_start c new_com_port os
           in if \<not> started then (let (_, os) = com_stop c p os in ((False, m), os))
              else ((True, m\<lparr>mgr_uart := Some p\<rparr>), os)
      else ((True, m), os))"

fun start_bridges :: "'os sys_calls \<Rightarrow> u32 list \<Rightarrow> manager \<Rightarrow> ('h, 'w) runtime \<Rightarrow> 'os \<Rightarrow>
    (string option \<times> manager) \<times> ('h, 'w) runtime \<times> 'os" where
  "start_bridges c [] m r os = ((None, m), r, os)"
| "start_bridges c (port # ports) m r os =
     (if port > 0xFFFF then ((Some ''TCP port must fit in uint16'', m), r, os)
      else let ((started, b), os) = bridge_start c (ucast port) new_bridge os
           in if \<not> started
              then (let (_, r, os) = bridge_stop c b r os in ((Some ''failed to start TCP bridge'', m), r, os))
              else start_bridges c ports (m\<lparr>mgr_bridges := mgr_bridges m @ [b]\<rparr>) r os)"

definition start_tcp :: "'os pty_calls \<Rightarrow> u32 list \<Rightarrow> manager \<Rightarrow> ('h, 'w) runtime \<Rightarrow> 'os \<Rightarrow>
    (string option \<times> manager) \<times> ('h, 'w) runtime \<times> 'os" where
  "start_tcp c ports m r os =
     (if mgr_bridges m \<noteq> [] then ((None, m), r, os)
      else case start_bridges (pty_sockets c) ports m r os of
        ((Some e, m), r, os) \<Rightarrow> ((Some e, m), r, os)
      | ((None, m), r, os) \<Rightarrow>
          (if mgr_bridges m \<noteq> []
           then let ((_, b), os) = beacon_start (pty_sockets c) (pty_now_ms c os) (mgr_beacon m) os
                in ((None, m\<lparr>mgr_beacon := b\<rparr>), r, os)
           else ((None, m), r, os)))"

definition start_transports :: "'os pty_calls \<Rightarrow> start_transport \<Rightarrow> manager \<Rightarrow> ('h, 'w) runtime \<Rightarrow> 'os \<Rightarrow>
    (string + transport_info) \<times> manager \<times> ('h, 'w) runtime \<times> 'os" where
  "start_transports c req m r os =
     (let ((started, m), os) = start_uart c (enable_uart req) (m\<lparr>mgr_logging := log_traffic req\<rparr>) os
      in if \<not> started then (Inl ''failed to start virtual COM port'', m, r, os)
         else case start_tcp c (tcp_ports req) m r os of
           ((Some e, m), r, os) \<Rightarrow> (Inl e, m, r, os)
         | ((None, m), r, os) \<Rightarrow> (Inr (fill_transport m), m, r, os))"

fun stop_bridges :: "'os sys_calls \<Rightarrow> tcp_bridge list \<Rightarrow> ('h, 'w) runtime \<Rightarrow> 'os \<Rightarrow> ('h, 'w) runtime \<times> 'os" where
  "stop_bridges c [] r os = (r, os)"
| "stop_bridges c (b # bs) r os = (let (_, r, os) = bridge_stop c b r os in stop_bridges c bs r os)"

definition stop_transports :: "'os pty_calls \<Rightarrow> manager \<Rightarrow> ('h, 'w) runtime \<Rightarrow> 'os \<Rightarrow> manager \<times> ('h, 'w) runtime \<times> 'os" where
  "stop_transports c m r os =
     (let os = (case mgr_uart m of None \<Rightarrow> os | Some p \<Rightarrow> snd (com_stop c p os));
          (r, os) = stop_bridges (pty_sockets c) (mgr_bridges m) r os;
          (b, os) = beacon_stop (pty_sockets c) (mgr_beacon m) os
      in (m\<lparr>mgr_uart := None, mgr_bridges := [], mgr_beacon := b, mgr_logging := False\<rparr>, r, os))"

section \<open>The pump\<close>

text \<open>The links of the firmware the pump uses: \<^verbatim>\<open>write_serial\<close>, \<^verbatim>\<open>write_wifi_tcp\<close> and the boot the reads make.\<close>

record ('h, 'w) link =
  link_write_serial :: "string \<Rightarrow> ('h, 'w) runtime \<Rightarrow> ('h, 'w) runtime option"
  link_write_wifi :: "string \<Rightarrow> ('h, 'w) runtime \<Rightarrow> ('h, 'w) runtime option"
  link_boot :: "('h, 'w) boot_call"

fun poll_bridges :: "'os sys_calls \<Rightarrow> (string \<Rightarrow> ('h, 'w) runtime \<Rightarrow> ('h, 'w) runtime option) \<Rightarrow> tcp_bridge list \<Rightarrow>
    ('h, 'w) runtime \<Rightarrow> 'os \<Rightarrow> (tcp_bridge list \<times> ('h, 'w) runtime \<times> 'os) option" where
  "poll_bridges c write [] r os = Some ([], r, os)"
| "poll_bridges c write (b # bs) r os = (case bridge_poll_input c write b r os of
     None \<Rightarrow> None
   | Some (_, b, r, os) \<Rightarrow> (case poll_bridges c write bs r os of
       None \<Rightarrow> None | Some (bs, r, os) \<Rightarrow> Some (b # bs, r, os)))"

fun write_bridges :: "'os sys_calls \<Rightarrow> string \<Rightarrow> tcp_bridge list \<Rightarrow> 'os \<Rightarrow> (tcp_bridge list \<times> 'os) option" where
  "write_bridges c bytes [] os = Some ([], os)"
| "write_bridges c bytes (b # bs) os = (case bridge_write_output c bytes b os of
     None \<Rightarrow> None
   | Some (b, os) \<Rightarrow> (case write_bridges c bytes bs os of None \<Rightarrow> None | Some (bs, os) \<Rightarrow> Some (b # bs, os)))"

definition poll_uart :: "'os pty_calls \<Rightarrow> ('h, 'w) link \<Rightarrow> com_port option \<Rightarrow> ('h, 'w) runtime \<Rightarrow> 'os \<Rightarrow>
    (com_port option \<times> ('h, 'w) runtime \<times> 'os) option" where
  "poll_uart c l u r os = (case u of None \<Rightarrow> Some (None, r, os)
   | Some p \<Rightarrow> map_option (\<lambda>(_, p, r, os). (Some p, r, os)) (com_poll_input c (link_write_serial l) p r os))"

definition write_uart :: "'os pty_calls \<Rightarrow> string \<Rightarrow> com_port option \<Rightarrow> 'os \<Rightarrow> (com_port option \<times> 'os) option" where
  "write_uart c bytes u os = (case u of None \<Rightarrow> Some (None, os)
   | Some p \<Rightarrow> map_option (map_prod Some id) (com_write_output c bytes p os))"

definition pump_transport_io :: "'os pty_calls \<Rightarrow> ('h, 'w) link \<Rightarrow> (('h, 'w, 'os, 'x) host \<Rightarrow> ('h, 'w, 'os, 'x) host option) \<Rightarrow>
    ('h, 'w, 'os, 'x) host \<Rightarrow> ('h, 'w, 'os, 'x) host option" where
  "pump_transport_io c l aux s =
     (case poll_uart c l (mgr_uart (h_mgr s)) (h_io s) (h_os s) of
        None \<Rightarrow> None
      | Some (u, r, os) \<Rightarrow> (case poll_bridges (pty_sockets c) (link_write_wifi l) (mgr_bridges (h_mgr s)) r os of
          None \<Rightarrow> None
        | Some (bs, r, os) \<Rightarrow>
            (let (uart_output, r) = read_serial (link_boot l) r
             in case write_uart c uart_output u os of
                  None \<Rightarrow> None
                | Some (u, os) \<Rightarrow>
                    (let (wifi_output, r) = read_wifi_tcp (link_boot l) r
                     in case write_bridges (pty_sockets c) wifi_output bs os of
                          None \<Rightarrow> None
                        | Some (bs, os) \<Rightarrow>
                            aux (s\<lparr>h_mgr := (h_mgr s)\<lparr>mgr_uart := u, mgr_bridges := bs\<rparr>, h_io := r, h_os := os\<rparr>)))))"

definition pump_discovery :: "'os pty_calls \<Rightarrow> ('h, 'w, 'os, 'x) host \<Rightarrow> ('h, 'w, 'os, 'x) host" where
  "pump_discovery c s =
     (let m = h_mgr s;
          (b, r, os) = relay_wifi_discovery (pty_sockets c) (pty_now_ms c (h_os s)) (mgr_bridges m) (mgr_beacon m, h_io s, h_os s);
          (b, os) = beacon_poll (pty_sockets c) (pty_now_ms c os) b os
      in s\<lparr>h_mgr := m\<lparr>mgr_beacon := b\<rparr>, h_io := r, h_os := os\<rparr>)"

text \<open>One round of the loop: a batch of the firmware, during whose delays the transports are served, and a service after it.\<close>

type_synonym ('h, 'w, 'os, 'x) host_step = "('h, 'w, 'os, 'x) host \<Rightarrow> ('h, 'w, 'os, 'x) host option"

fun pump_batches :: "'os pty_calls \<Rightarrow> ('h, 'w, 'os, 'x) host_step \<Rightarrow>
    (('h, 'w, 'os, 'x) host_step \<Rightarrow> ('h, 'w, 'os, 'x) host_step) \<Rightarrow> nat \<Rightarrow> ('h, 'w, 'os, 'x) host_step" where
  "pump_batches c io free_run 0 s = Some s"
| "pump_batches c io free_run (Suc n) s = (case free_run io s of
     None \<Rightarrow> None
   | Some s \<Rightarrow> (case io s of None \<Rightarrow> None | Some s \<Rightarrow> pump_batches c io free_run n (pump_discovery c s)))"

definition pump_interactive :: "'os pty_calls \<Rightarrow> ('h, 'w) link \<Rightarrow> ('h, 'w, 'os, 'x) host_step \<Rightarrow>
    (('h, 'w, 'os, 'x) host_step \<Rightarrow> ('h, 'w, 'os, 'x) host_step) \<Rightarrow> ('x \<Rightarrow> real) \<Rightarrow> ('h, 'w, 'os, 'x) host_step" where
  "pump_interactive c l aux free_run speed s =
     (if \<not> transport_active (h_mgr s) then Some s
      else let io = pump_transport_io c l aux
           in case io s of
                None \<Rightarrow> None
              | Some s \<Rightarrow>
                  (let s = pump_discovery c s
                   in case pump_batches c io free_run (free_running_batches (speed (h_world s))) s of
                        None \<Rightarrow> None
                      | Some s \<Rightarrow> map_option (pump_discovery c) (io s)))"


section \<open>Descriptors are not leaked\<close>

text \<open>
  What the operating system promises: a descriptor it hands out was not in use, closing one frees it, and the
  other calls neither open nor close any.
\<close>

definition opens_one :: "('os \<Rightarrow> handle set) \<Rightarrow> handle \<Rightarrow> 'os \<Rightarrow> 'os \<Rightarrow> bool" where
  "opens_one opens fd os os' \<longleftrightarrow>
     (if fd = kInvalidHandle then opens os' = opens os else fd \<notin> opens os \<and> opens os' = insert fd (opens os))"

definition fd_laws :: "'os pty_calls \<Rightarrow> ('os \<Rightarrow> handle set) \<Rightarrow> bool" where
  "fd_laws c opens \<longleftrightarrow>
     (\<forall>os fd. opens (sys_close (pty_sockets c) fd os) = opens os - {fd}) \<and>
     (\<forall>os port. opens_one opens (fst (fst (sys_listen (pty_sockets c) port os))) os (snd (sys_listen (pty_sockets c) port os))) \<and>
     (\<forall>os. opens_one opens (fst (sys_udp_socket (pty_sockets c) os)) os (snd (sys_udp_socket (pty_sockets c) os))) \<and>
     (\<forall>os. opens_one opens (fst (pty_open_master c os)) os (snd (pty_open_master c os))) \<and>
     (\<forall>os path. opens_one opens (fst (pty_open_slave c path os)) os (snd (pty_open_slave c path os))) \<and>
     (\<forall>os fd. opens (snd (pty_grant_unlock c fd os)) = opens os) \<and>
     (\<forall>os fd. opens (snd (pty_slave_name c fd os)) = opens os) \<and>
     (\<forall>os fd fd'. opens (pty_prepare c fd fd' os) = opens os)"

definition valid_fds :: "handle list \<Rightarrow> handle set" where
  "valid_fds fds = set fds - {kInvalidHandle}"

definition com_fds :: "com_port \<Rightarrow> handle list" where
  "com_fds p = [pump_fd (com_io p), slave_anchor p]"

definition bridge_fds :: "tcp_bridge \<Rightarrow> handle list" where
  "bridge_fds b = listen_fd b # map pump_fd (clients b)"

definition owned :: "manager \<Rightarrow> handle set" where
  "owned m = valid_fds ((case mgr_uart m of None \<Rightarrow> [] | Some p \<Rightarrow> com_fds p) @ concat (map bridge_fds (mgr_bridges m)) @
     [beacon_fd (mgr_beacon m)])"

lemma valid_fds_simps [simp]:
  "valid_fds [] = {}" "valid_fds (xs @ ys) = valid_fds xs \<union> valid_fds ys"
  "valid_fds (fd # xs) = (if fd = kInvalidHandle then valid_fds xs else insert fd (valid_fds xs))"
  by (auto simp: valid_fds_def)

lemma fd_lawsD:
  assumes "fd_laws c opens"
  shows "opens (sys_close (pty_sockets c) fd os) = opens os - {fd}"
    "sys_listen (pty_sockets c) port os = ((fd, bound), os') \<Longrightarrow> opens_one opens fd os os'"
    "sys_udp_socket (pty_sockets c) os = (fd, os') \<Longrightarrow> opens_one opens fd os os'"
    "pty_open_master c os = (fd, os') \<Longrightarrow> opens_one opens fd os os'"
    "pty_open_slave c path os = (fd, os') \<Longrightarrow> opens_one opens fd os os'"
    "pty_grant_unlock c fd os = (granted, os') \<Longrightarrow> opens os' = opens os"
    "pty_slave_name c fd os = (slave, os') \<Longrightarrow> opens os' = opens os"
    "opens (pty_prepare c fd fd' os) = opens os"
  using assms unfolding fd_laws_def by (metis fst_conv snd_conv)+

lemma close_fd_opens:
  assumes "fd_laws c opens"
  shows "opens (snd (close_fd (pty_sockets c) fd os)) = opens os - valid_fds [fd]"
    "fst (close_fd (pty_sockets c) fd os) = kInvalidHandle"
  using assms by (simp_all add: close_fd_def fd_lawsD(1))

lemma pump_close_opens:
  assumes "fd_laws c opens"
  shows "opens (snd (pump_close (pty_sockets c) p os)) = opens os - valid_fds [pump_fd p]"
    "pump_fd (fst (pump_close (pty_sockets c) p os)) = kInvalidHandle"
  using close_fd_opens [OF assms] by (simp_all add: pump_close_def clear_buffers_def Let_def case_prod_unfold)

lemma com_stop_opens:
  assumes "fd_laws c opens"
  shows "opens (snd (com_stop c p os)) = opens os - valid_fds (com_fds p)"
    "valid_fds (com_fds (fst (com_stop c p os))) = {}"
proof -
  have "opens (snd (com_stop c p os)) = opens os - valid_fds [pump_fd (com_io p)] - valid_fds [slave_anchor p]"
    using close_fd_opens [OF assms] pump_close_opens [OF assms]
    by (simp add: com_stop_def Let_def case_prod_unfold del: valid_fds_simps)
  then show "opens (snd (com_stop c p os)) = opens os - valid_fds (com_fds p)" by (auto simp: com_fds_def split: if_splits)
  show "valid_fds (com_fds (fst (com_stop c p os))) = {}"
    using close_fd_opens [OF assms] pump_close_opens [OF assms]
    by (simp add: com_stop_def Let_def case_prod_unfold com_fds_def)
qed

lemma close_clients_opens:
  assumes "fd_laws c opens"
  shows "opens (close_clients (pty_sockets c) ps os) = opens os - valid_fds (map pump_fd ps)"
proof (induction ps arbitrary: os)
  case (Cons p ps)
  then show ?case using pump_close_opens(1) [OF assms, of p os] by auto
qed simp

lemma bridge_stop_opens:
  assumes "fd_laws c opens"
  shows "opens (snd (snd (bridge_stop (pty_sockets c) b r os))) = opens os - valid_fds (bridge_fds b)"
proof -
  have "opens (snd (snd (bridge_stop (pty_sockets c) b r os))) = opens os - valid_fds (map pump_fd (clients b)) - valid_fds [listen_fd b]"
    using close_fd_opens [OF assms] close_clients_opens [OF assms]
    by (simp add: bridge_stop_def Let_def case_prod_unfold del: valid_fds_simps)
  then show ?thesis by (auto simp: bridge_fds_def)
qed

lemma stop_bridges_opens:
  assumes "fd_laws c opens"
  shows "opens (snd (stop_bridges (pty_sockets c) bs r os)) = opens os - valid_fds (concat (map bridge_fds bs))"
proof (induction bs arbitrary: r os)
  case (Cons b bs)
  show ?case
    using Cons.IH [of "fst (snd (bridge_stop (pty_sockets c) b r os))" "snd (snd (bridge_stop (pty_sockets c) b r os))"]
      bridge_stop_opens [OF assms, of b r os]
    by (simp add: case_prod_unfold Let_def Diff_eq Int_assoc)
qed simp

lemma stop_transports_opens:
  assumes "fd_laws c opens"
  shows "opens (snd (snd (stop_transports c m r os))) = opens os - owned m"
proof -
  define os1 where "os1 = (case mgr_uart m of None \<Rightarrow> os | Some p \<Rightarrow> snd (com_stop c p os))"
  have "opens os1 = opens os - valid_fds (case mgr_uart m of None \<Rightarrow> [] | Some p \<Rightarrow> com_fds p)"
    using com_stop_opens [OF assms] by (simp add: os1_def split: option.split)
  moreover have "opens (snd (snd (stop_transports c m r os))) =
      opens os1 - valid_fds (concat (map bridge_fds (mgr_bridges m))) - valid_fds [beacon_fd (mgr_beacon m)]"
    by (simp add: close_fd_opens [OF assms] stop_bridges_opens [OF assms] stop_transports_def os1_def [symmetric] Let_def case_prod_unfold beacon_stop_def del: valid_fds_simps)
  ultimately show ?thesis by (simp add: owned_def Diff_eq Int_assoc)
qed

lemma stop_transports_idle: "\<not> transport_active (fst (stop_transports c m r os))"
  by (simp add: stop_transports_def Let_def case_prod_unfold transport_active_def)

text \<open>\<open>tracked\<close>: what is open is what was open before the manager, and the manager's own descriptors.\<close>

definition tracked :: "('os \<Rightarrow> handle set) \<Rightarrow> handle set \<Rightarrow> manager \<Rightarrow> 'os \<Rightarrow> bool" where
  "tracked opens base m os \<longleftrightarrow> opens os = base \<union> owned m \<and> base \<inter> owned m = {}"

lemma com_give_up_opens:
  assumes "fd_laws c opens" "((started, q), os') = com_give_up c master p os"
  shows "opens os' = opens os - valid_fds [master] - valid_fds (com_fds p) \<and> \<not> started \<and> valid_fds (com_fds q) = {}"
proof -
  have "opens (snd (com_give_up c master p os)) = opens os - valid_fds [master] - valid_fds (com_fds p)"
    "\<not> fst (fst (com_give_up c master p os))" "valid_fds (com_fds (snd (fst (com_give_up c master p os)))) = {}"
    using close_fd_opens [OF assms(1)] com_stop_opens [OF assms(1)]
    by (simp_all add: com_give_up_def Let_def case_prod_unfold del: valid_fds_simps)
  then show ?thesis unfolding assms(2) [symmetric] by simp
qed

text \<open>A port that starts adds its descriptors; one that fails leaves everything as it was.\<close>

lemma com_start_opens:
  assumes laws: "fd_laws c opens" and start: "com_start c new_com_port os = ((started, p), os')"
  shows "if started then opens os' = opens os \<union> valid_fds (com_fds p) \<and> opens os \<inter> valid_fds (com_fds p) = {}
         else opens os' = opens os \<and> valid_fds (com_fds p) = {}"
proof -
  obtain master os1 where o1: "pty_open_master c os = (master, os1)" by fastforce
  obtain granted os2 where o2: "pty_grant_unlock c master os1 = (granted, os2)" by fastforce
  obtain slave os3 where o3: "pty_slave_name c master os2 = (slave, os3)" by fastforce
  obtain anchor os4 where o4: "pty_open_slave c (the slave) os3 = (anchor, os4)" by fastforce
  note l1 = fd_lawsD(4) [OF laws o1] and l2 = fd_lawsD(6) [OF laws o2] and l3 = fd_lawsD(7) [OF laws o3]
    and l4 = fd_lawsD(5) [OF laws o4]
  have blank: "valid_fds (com_fds new_com_port) = {}" "\<not> com_open new_com_port"
    by (simp_all add: com_fds_def new_com_port_def new_fd_pump_def com_open_def)
  have gone: "valid_fds (com_fds (new_com_port\<lparr>device_path := path, slave_anchor := kInvalidHandle\<rparr>)) = {}" for path
    by (simp add: com_fds_def new_com_port_def new_fd_pump_def)
  consider "master = kInvalidHandle" | "master \<noteq> kInvalidHandle" "\<not> granted" | "master \<noteq> kInvalidHandle" "granted" "slave = None"
    | path where "master \<noteq> kInvalidHandle" "granted" "slave = Some path" "anchor = kInvalidHandle"
    | path where "master \<noteq> kInvalidHandle" "granted" "slave = Some path" "anchor \<noteq> kInvalidHandle" by blast
  then show ?thesis
  proof cases
    case 1
    then show ?thesis using start blank o1 l1 by (auto simp: com_start_def opens_one_def)
  next
    case 2
    then have "((started, p), os') = com_give_up c master new_com_port os2"
      using start blank o1 o2 by (simp add: com_start_def)
    then show ?thesis using com_give_up_opens [OF laws] 2 blank l1 l2 by (auto simp: opens_one_def)
  next
    case 3
    then have "((started, p), os') = com_give_up c master new_com_port os3"
      using start blank o1 o2 o3 by (simp add: com_start_def)
    then show ?thesis using com_give_up_opens [OF laws] 3 blank l1 l2 l3 by (auto simp: opens_one_def)
  next
    case 4
    then have "((started, p), os') = com_give_up c master (new_com_port\<lparr>device_path := path, slave_anchor := kInvalidHandle\<rparr>) os4"
      using start blank o1 o2 o3 o4 by (simp add: com_start_def Let_def)
    then show ?thesis using com_give_up_opens [OF laws] 4 gone l1 l2 l3 l4 by (auto simp: opens_one_def)
  next
    case 5
    then have "started" "valid_fds (com_fds p) = {master, anchor}" "os' = pty_prepare c anchor master os4"
      using start blank o1 o2 o3 o4
      by (auto simp: com_start_def Let_def com_fds_def new_com_port_def new_fd_pump_def pump_reset_def pump_close_def close_fd_def)
    then show ?thesis using 5 l1 l2 l3 l4 fd_lawsD(8) [OF laws] by (auto simp: opens_one_def)
  qed
qed


lemma tracked_insert:
  assumes "tracked opens base m os" "opens os' = opens os \<union> new" "opens os \<inter> new = {}" "owned m' = owned m \<union> new"
  shows "tracked opens base m' os'"
  using assms by (auto simp: tracked_def)

lemma start_uart_tracked:
  assumes "fd_laws c opens" "tracked opens base m os"
  shows "tracked opens base (snd (fst (start_uart c enable m os))) (snd (start_uart c enable m os))"
proof (cases "enable \<and> mgr_uart m = None")
  case True
  obtain started p os1 where st: "com_start c new_com_port os = ((started, p), os1)" by (metis prod.exhaust)
  note o = com_start_opens [OF assms(1) st]
  show ?thesis
  proof (cases started)
    case True
    then show ?thesis using o st \<open>enable \<and> mgr_uart m = None\<close> assms(2)
      by (auto simp: start_uart_def owned_def intro!: tracked_insert [where m = m and os = os and new = "valid_fds (com_fds p)"])
  next
    case False
    then show ?thesis using o st \<open>enable \<and> mgr_uart m = None\<close> assms com_stop_opens(1) [OF assms(1), of p os1]
      by (simp add: start_uart_def Let_def case_prod_unfold tracked_def)
  qed
qed (use assms(2) in \<open>auto simp: start_uart_def\<close>)

lemma bridge_start_opens:
  assumes "fd_laws c opens" "bridge_start (pty_sockets c) port new_bridge os = ((started, b), os')"
  shows "opens_one opens (listen_fd b) os os' \<and> started = (listen_fd b \<noteq> kInvalidHandle) \<and> clients b = []"
proof -
  obtain fd bound os1 where l: "sys_listen (pty_sockets c) port os = ((fd, bound), os1)" by (metis prod.exhaust)
  have "listen_fd b = fd" "os' = os1" "started = (fd \<noteq> kInvalidHandle)" "clients b = []"
    using assms(2) l by (auto simp: bridge_start_def new_bridge_def Let_def split: if_splits)
  then show ?thesis using fd_lawsD(2) [OF assms(1) l] by simp
qed

lemma start_bridges_tracked:
  assumes "fd_laws c opens"
  shows "tracked opens base m os \<Longrightarrow> start_bridges (pty_sockets c) ports m r os = ((e, m'), r', os') \<Longrightarrow> tracked opens base m' os'"
proof (induction ports arbitrary: m r os)
  case (Cons port ports)
  obtain started b os1 where st: "bridge_start (pty_sockets c) (ucast port) new_bridge os = ((started, b), os1)"
    by (metis prod.exhaust)
  note o = bridge_start_opens [OF assms st]
  consider "port > 0xFFFF" | "\<not> port > 0xFFFF" "\<not> started" | "\<not> port > 0xFFFF" started by blast
  then show ?case
  proof cases
    case 1
    then show ?thesis using Cons.prems by simp
  next
    case 2
    obtain b' r1 os2 where bs: "bridge_stop (pty_sockets c) b r os1 = (b', r1, os2)" by (metis prod.exhaust)
    have "opens os2 = opens os"
      using o 2 bridge_stop_opens [OF assms, of b r os1] bs by (simp add: opens_one_def bridge_fds_def)
    moreover have "m' = m" "os' = os2" using Cons.prems(2) st 2 bs by simp_all
    ultimately show ?thesis using Cons.prems(1) by (simp add: tracked_def)
  next
    case 3
    let ?m = "m\<lparr>mgr_bridges := mgr_bridges m @ [b]\<rparr>"
    have "opens os1 = opens os \<union> {listen_fd b}" "opens os \<inter> {listen_fd b} = {}" "owned ?m = owned m \<union> {listen_fd b}"
      using o 3 by (auto simp: opens_one_def owned_def bridge_fds_def)
    then have "tracked opens base ?m os1" by (rule tracked_insert [OF Cons.prems(1)])
    moreover have "start_bridges (pty_sockets c) ports ?m r os1 = ((e, m'), r', os')" using Cons.prems(2) st 3 by simp
    ultimately show ?thesis by (rule Cons.IH)
  qed
qed simp

lemma start_tcp_tracked:
  assumes "fd_laws c opens" "tracked opens base m os" "start_tcp c ports m r os = ((e, m'), r', os')"
  shows "tracked opens base m' os'"
proof (cases "mgr_bridges m = []")
  case True
  obtain e1 m1 r1 os1 where sb: "start_bridges (pty_sockets c) ports m r os = ((e1, m1), r1, os1)" by (metis prod.exhaust)
  note t1 = start_bridges_tracked [OF assms(1,2) sb]
  show ?thesis
  proof (cases "e1 = None \<and> mgr_bridges m1 \<noteq> [] \<and> beacon_fd (mgr_beacon m1) = kInvalidHandle")
    case False
    then have "m' = m1 \<and> os' = os1"
      using assms(3) True sb by (cases e1) (auto simp: start_tcp_def beacon_start_def split: if_splits)
    then show ?thesis using t1 by simp
  next
    case True
    obtain fd os2 where u: "sys_udp_socket (pty_sockets c) os1 = (fd, os2)" by fastforce
    have m': "beacon_fd (mgr_beacon m') = fd" "mgr_uart m' = mgr_uart m1" "mgr_bridges m' = mgr_bridges m1" "os' = os2"
      using assms(3) True \<open>mgr_bridges m = []\<close> sb u by (auto simp: start_tcp_def beacon_start_def Let_def split: if_splits)
    have "opens os2 = opens os1 \<union> valid_fds [fd]" "opens os1 \<inter> valid_fds [fd] = {}"
      using fd_lawsD(3) [OF assms(1) u] by (auto simp: opens_one_def)
    moreover have "owned m' = owned m1 \<union> valid_fds [fd]" using m' True by (auto simp: owned_def)
    ultimately show ?thesis unfolding m'(4) by (rule tracked_insert [OF t1])
  qed
qed (use assms in \<open>auto simp: start_tcp_def\<close>)

lemma start_transports_tracked:
  assumes "fd_laws c opens" "tracked opens base m os" "start_transports c req m r os = (res, m', r', os')"
  shows "tracked opens base m' os'"
proof -
  obtain started m1 os1 where su: "start_uart c (enable_uart req) (m\<lparr>mgr_logging := log_traffic req\<rparr>) os = ((started, m1), os1)"
    by (metis prod.exhaust)
  have "tracked opens base (m\<lparr>mgr_logging := log_traffic req\<rparr>) os" using assms(2) by (simp add: tracked_def owned_def)
  then have t: "tracked opens base m1 os1" using start_uart_tracked [OF assms(1), of base _ os "enable_uart req"] su by fastforce
  obtain e m2 r2 os2 where sp: "start_tcp c (tcp_ports req) m1 r os1 = ((e, m2), r2, os2)" by (metis prod.exhaust)
  show ?thesis using start_tcp_tracked [OF assms(1) t sp] t assms(3) su sp
    by (auto simp: start_transports_def split: if_splits option.splits)
qed

fun start_all :: "'os pty_calls \<Rightarrow> start_transport list \<Rightarrow> manager \<Rightarrow> ('h, 'w) runtime \<Rightarrow> 'os \<Rightarrow> manager \<times> ('h, 'w) runtime \<times> 'os" where
  "start_all c [] m r os = (m, r, os)"
| "start_all c (req # reqs) m r os = (case start_transports c req m r os of (_, m, r, os) \<Rightarrow> start_all c reqs m r os)"

lemma start_all_tracked:
  "\<lbrakk>fd_laws c opens; tracked opens base m os; start_all c reqs m r os = (m', r', os')\<rbrakk> \<Longrightarrow> tracked opens base m' os'"
proof (induction reqs arbitrary: m r os)
  case (Cons req reqs)
  obtain res m1 r1 os1 where s: "start_transports c req m r os = (res, m1, r1, os1)" by (metis prod.exhaust)
  show ?case using Cons.IH [OF Cons.prems(1) start_transports_tracked [OF Cons.prems(1,2) s]] Cons.prems(3) s by simp
qed simp

lemma start_stop_balanced:
  assumes "fd_laws c opens" "start_all c reqs new_manager r os = (m, r', os')"
  shows "opens (snd (snd (stop_transports c m r' os'))) = opens os"
proof -
  have "tracked opens (opens os) new_manager os" by (simp add: tracked_def owned_def new_manager_def)
  from start_all_tracked [OF assms(1) this assms(2)]
  have "opens os' - owned m = opens os" by (auto simp: tracked_def)
  then show ?thesis by (simp add: stop_transports_opens [OF assms(1)])
qed



text \<open>An operating system with three descriptors.\<close>

definition fresh_handle :: "handle list \<Rightarrow> handle \<times> handle list" where
  "fresh_handle os = (case filter (\<lambda>h. h \<notin> set os) [1, 2, 3] of [] \<Rightarrow> (kInvalidHandle, os) | h # _ \<Rightarrow> (h, h # os))"

definition three_handles :: "handle list pty_calls" where
  "three_handles = \<lparr>pty_sockets = \<lparr>sys_recv = (\<lambda>fd n os. (Recv_Again, os)), sys_send = (\<lambda>fd bs os. (Sent (length bs), os)),
     sys_close = (\<lambda>fd os. filter (\<lambda>h. h \<noteq> fd) os), sys_listen = (\<lambda>port os. case fresh_handle os of (fd, os) \<Rightarrow> ((fd, port), os)),
     sys_accept = (\<lambda>fd os. (kInvalidHandle, os)), sys_udp_socket = fresh_handle, sys_sendto = (\<lambda>fd port bs os. os)\<rparr>,
     pty_open_master = fresh_handle, pty_grant_unlock = (\<lambda>fd os. (True, os)), pty_slave_name = (\<lambda>fd os. (Some ''/dev/pts/0'', os)),
     pty_open_slave = (\<lambda>path. fresh_handle), pty_prepare = (\<lambda>anchor master os. os), pty_now_ms = (\<lambda>os. 0)\<rparr>"

lemma fresh_handle_opens: "opens_one set (fst (fresh_handle os)) os (snd (fresh_handle os))"
  by (auto simp: fresh_handle_def opens_one_def kInvalidHandle_def)

lemma three_handles_laws: "fd_laws three_handles set"
  using fresh_handle_opens by (auto simp: fd_laws_def three_handles_def case_prod_unfold)


section \<open>What a start leaves\<close>

lemma start_bridges_all:
  "start_bridges c ports m r os = ((None, m'), r', os') \<Longrightarrow>
     \<exists>bs. mgr_bridges m' = mgr_bridges m @ bs \<and>
       list_all2 (\<lambda>port b. port \<le> 0xFFFF \<and> listen_fd b \<noteq> kInvalidHandle \<and> clients b = []) ports bs"
proof (induction ports arbitrary: m r os)
  case (Cons port ports)
  obtain started b os1 where st: "bridge_start c (ucast port) new_bridge os = ((started, b), os1)" by (metis prod.exhaust)
  have here: "port \<le> 0xFFFF" "started" "start_bridges c ports (m\<lparr>mgr_bridges := mgr_bridges m @ [b]\<rparr>) r os1 = ((None, m'), r', os')"
    using Cons.prems st by (auto simp: Let_def split: if_splits prod.splits)
  have "listen_fd b \<noteq> kInvalidHandle \<and> clients b = []"
    using st here(2) by (auto simp: bridge_start_def new_bridge_def Let_def split: prod.splits if_splits)
  then show ?case using Cons.IH [OF here(3)] here(1) by (auto intro: exI [of _ "b # _"])
qed simp

text \<open>A start that is answered with endpoints listens on every port that was asked for.\<close>

lemma started_listens_everywhere:
  assumes "start_transports c req m r os = (Inr info, m', r', os')" "mgr_bridges m = []"
  shows "list_all2 (\<lambda>port b. port \<le> 0xFFFF \<and> listen_fd b \<noteq> kInvalidHandle \<and> clients b = []) (tcp_ports req) (mgr_bridges m')"
    "tcp_endpoints info = map (\<lambda>b. (''0.0.0.0'', bridge_port b)) (mgr_bridges m')"
proof -
  obtain started m1 os1 where su: "start_uart c (enable_uart req) (m\<lparr>mgr_logging := log_traffic req\<rparr>) os = ((started, m1), os1)"
    by (metis prod.exhaust)
  have m1: "mgr_bridges m1 = []" using su assms(2) by (auto simp: start_uart_def Let_def split: if_splits prod.splits)
  obtain e m2 r2 os2 where sp: "start_tcp c (tcp_ports req) m1 r os1 = ((e, m2), r2, os2)" by (metis prod.exhaust)
  have res: "e = None" "m2 = m'" "info = fill_transport m'" using assms(1) su sp
    by (auto simp: start_transports_def split: if_splits option.splits)
  obtain e3 m3 r3 os3 where sb: "start_bridges (pty_sockets c) (tcp_ports req) m1 r os1 = ((e3, m3), r3, os3)" by (metis prod.exhaust)
  have "e3 = None" "mgr_bridges m' = mgr_bridges m3" using sp sb m1 res
    by (auto simp: start_tcp_def Let_def split: if_splits option.splits prod.splits)
  then show "list_all2 (\<lambda>port b. port \<le> 0xFFFF \<and> listen_fd b \<noteq> kInvalidHandle \<and> clients b = []) (tcp_ports req) (mgr_bridges m')"
    "tcp_endpoints info = map (\<lambda>b. (''0.0.0.0'', bridge_port b)) (mgr_bridges m')"
    using start_bridges_all sb m1 res by (fastforce simp: fill_transport_def)+
qed

text \<open>
  A start that fails in the middle keeps the bridges it has opened, and the next start takes them for the whole:
  it is answered with success although it opens nothing and the discovery beacon is off.
\<close>

theorem failed_start_is_kept:
  assumes "sys_listen (pty_sockets c) port os = ((fd, port), os1)" "fd \<noteq> kInvalidHandle" "more_ports \<noteq> []"
  shows "\<exists>m info. start_transports c \<lparr>enable_uart = False, tcp_ports = ucast port # [0x10000], log_traffic = False\<rparr> new_manager r os =
        (Inl ''TCP port must fit in uint16'', m, r, os1) \<and> transport_active m \<and>
      start_transports c \<lparr>enable_uart = False, tcp_ports = ucast port # more_ports, log_traffic = False\<rparr> m r os1 = (Inr info, m, r, os1) \<and>
      tcp_endpoints info = [(''0.0.0.0'', port)] \<and> beacon_fd (mgr_beacon m) = kInvalidHandle"
proof -
  have u: "ucast (ucast port :: u32) = port" by (rule bit_word_eqI) (auto simp: bit_simps)
  have "unat (ucast port :: u32) = unat port"
    using unat_u16_lt [of port] by (simp add: unsigned_ucast_eq take_bit_nat_eq_self)
  then have u': "\<not> (ucast port :: u32) > 0xFFFF" using unat_u16_lt [of port] by (simp add: word_less_nat_alt)
  let ?m = "new_manager\<lparr>mgr_bridges := [\<lparr>listen_fd = fd, clients = [], bridge_port = port\<rparr>]\<rparr>"
  have "start_transports c \<lparr>enable_uart = False, tcp_ports = [ucast port, 0x10000], log_traffic = False\<rparr> new_manager r os =
      (Inl ''TCP port must fit in uint16'', ?m, r, os1)"
    using assms u u' by (simp add: start_transports_def start_uart_def start_tcp_def new_manager_def bridge_start_def new_bridge_def)
  moreover have "start_transports c \<lparr>enable_uart = False, tcp_ports = ucast port # more_ports, log_traffic = False\<rparr> ?m r os1 =
      (Inr (fill_transport ?m), ?m, r, os1)"
    by (simp add: start_transports_def start_uart_def start_tcp_def new_manager_def)
  ultimately show ?thesis by (auto simp: fill_transport_def transport_active_def new_manager_def)
qed

end
