(* ===== verification/Memory_Report.thy ===== *)
theory Memory_Report
  imports Firmware_Allocation Host_Files Lpc_Heap_Laws "HOL-Library.Multiset"
begin

text \<open>
  What is told of the firmware's memory: the snapshot of the accounting, the report the firmware prints
  (\<^verbatim>\<open>print_memory_report\<close> in \<^verbatim>\<open>src/firmware/lpc_memory_accounting.cpp\<close>) and its protocol messages
  (\<^verbatim>\<open>src/protocol/lpc_memory_proto.cpp\<close>).

  \<^verbatim>\<open>std::ranges::sort\<close> may order equal elements as it likes: the function that sorts is a parameter.  The report
  is the list of the texts that are printed.
\<close>

section \<open>The snapshot\<close>

record accounting_snapshot =
  sn_model :: model_snapshot
  sn_groups :: "allocation_group list"

definition acct_snapshot :: "memory_accounting \<Rightarrow> accounting_snapshot" where
  "acct_snapshot s = \<lparr>sn_model = heap_snapshot_of (acct_heap s), sn_groups = groups s\<rparr>"

section \<open>The report\<close>

definition nl :: string where "nl = [CHR 0x0A]"

definition cr_nl :: string where "cr_nl = [CHR 0x0D, CHR 0x0A]"

definition num :: "'a::len word \<Rightarrow> string" where
  "num w = decimal_digits (unat w)"

definition heap_lines :: "heap_snapshot \<Rightarrow> string list" where
  "heap_lines h =
     [''Heap free: '' @ num (hs_total_free_bytes h) @ '' bytes, minimum ever free: '' @ num (hs_minimum_ever_free_bytes h) @
        '' bytes'' @ cr_nl,
      ''Largest contiguous free area: '' @ num (hs_largest_free_block_bytes h) @ '' bytes, free areas: '' @
        num (hs_free_area_count h) @ cr_nl]"

definition region_line :: "u32 \<Rightarrow> u32 \<Rightarrow> u32 \<Rightarrow> u32 \<Rightarrow> u32 \<Rightarrow> u32 \<Rightarrow> string" where
  "region_line used_bytes live peak overhead free largest =
     ''  Heap region: used='' @ num used_bytes @ '' live='' @ num live @ '' peak='' @ num peak @ '' overhead='' @ num overhead @
     '' free='' @ num free @ '' largest-free='' @ num largest @ nl"

definition main_lines :: "main_snapshot \<Rightarrow> string list" where
  "main_lines m =
     [''LPC1768 Main SRAM: capacity='' @ num (ms_capacity_bytes m) @ '' static='' @ num (ms_static_bytes m) @ '' stack='' @
        num (ms_stack_reserved_bytes m) @ nl,
      region_line (ms_heap_committed_bytes m) (ms_live_payload_bytes m) (ms_peak_live_payload_bytes m)
        (ms_allocator_overhead_bytes m) (ms_fragmented_free_bytes m) (ms_largest_free_block_bytes m)]"

definition ahb_used :: "ahb_snapshot \<Rightarrow> u32" where
  "ahb_used a = as_live_payload_bytes a + as_allocator_overhead_bytes a"

definition ahb_lines :: "ahb_snapshot \<Rightarrow> string list" where
  "ahb_lines a =
     [''LPC1768 AHB SRAM: capacity='' @ num (as_capacity_bytes a) @ '' static='' @ num (as_static_bytes a) @ '' heap='' @
        num (as_dynamic_capacity_bytes a) @ nl,
      region_line (ahb_used a) (as_live_payload_bytes a) (as_peak_live_payload_bytes a)
        (as_allocator_overhead_bytes a) (as_total_free_bytes a) (as_largest_free_block_bytes a)]"

definition failure_line :: "heap_snapshot \<Rightarrow> string" where
  "failure_line h = ''Unified heap allocation failures: '' @ num (hs_failed_allocation_count h) @ '' ('' @
     num (hs_failed_allocation_bytes h) @ '' requested bytes)'' @ nl"

definition unresolved_line :: "unresolved_totals \<Rightarrow> string" where
  "unresolved_line t = ''Unresolved ABI allocations (not charged to LPC totals): main live='' @ num (un_main_live t) @
     '' peak='' @ num (un_main_peak t) @ ''; AHB live='' @ num (un_ahb_live t) @ '' peak='' @ num (un_ahb_peak t) @
     ''; unplaced live='' @ num (un_heap_live t) @ '' peak='' @ num (un_heap_peak t) @ '' host-request bytes'' @ nl"

definition pad_right :: "nat \<Rightarrow> string \<Rightarrow> string" where
  "pad_right n s = s @ replicate (n - length s) CHR '' ''"

definition group_line :: "allocation_group \<Rightarrow> string" where
  "group_line g =
     (let region_text = (case g_region g of MainSram \<Rightarrow> ''main'' | AhbSram \<Rightarrow> ''AHB'' | UnifiedHeap \<Rightarrow> ''unplaced'');
          type_text = (if g_type_name g = [] then ''unlabelled'' else g_type_name g)
      in ''  '' @ region_text @ '' '' @ pad_right 20 type_text @ '' '' @ num (g_host_payload_bytes g) @ '' -> '' @
         num (g_target_payload_bytes g) @ '' bytes, live='' @ num (g_live_count g) @ '' peak='' @ num (g_peak_live_count g) @
         '' total='' @ num (g_total_count g) @ (if g_target_size_exact g then [] else '' (host-size estimate)'') @ nl)"

definition verbose_lines :: "(allocation_group list \<Rightarrow> allocation_group list) \<Rightarrow> accounting_snapshot \<Rightarrow> string list" where
  "verbose_lines sorter sn =
     (let h = snap_heap (sn_model sn)
      in (''Smallest free area: '' @ num (hs_smallest_free_block_bytes h) @ '' bytes, allocations: '' @
            num (hs_successful_allocation_count h) @ '', frees: '' @ num (hs_successful_free_count h) @ cr_nl) #
         (''Allocation groups (host request -> LPC charge):'' @ nl) # map group_line (sorter (sn_groups sn)))"

definition report_lines :: "(allocation_group list \<Rightarrow> allocation_group list) \<Rightarrow> bool \<Rightarrow> accounting_snapshot \<Rightarrow> string list" where
  "report_lines sorter verbose sn =
     (let h = snap_heap (sn_model sn)
      in heap_lines h @ main_lines (snap_main (sn_model sn)) @ ahb_lines (snap_ahb (sn_model sn)) @
         [failure_line h, unresolved_line (unresolved_report (sn_groups sn))] @
         (if verbose then verbose_lines sorter sn else []))"

text \<open>The stream may be null, and there may be no context.\<close>

definition print_memory_report :: "(allocation_group list \<Rightarrow> allocation_group list) \<Rightarrow> bool \<Rightarrow> memory_accounting option \<Rightarrow> bool \<Rightarrow> string list" where
  "print_memory_report sorter stream context verbose =
     (if \<not> stream then []
      else case context of
        None \<Rightarrow> [''LPC memory accounting unavailable'' @ nl]
      | Some s \<Rightarrow> report_lines sorter verbose (acct_snapshot s))"

section \<open>The messages\<close>

record pb_heap_summary =
  ph_capacity_bytes :: u32
  ph_live_payload_bytes :: u32
  ph_peak_live_payload_bytes :: u32
  ph_allocator_overhead_bytes :: u32
  ph_total_free_bytes :: u32
  ph_minimum_ever_free_bytes :: u32
  ph_largest_free_block_bytes :: u32
  ph_smallest_free_block_bytes :: u32
  ph_free_area_count :: u32
  ph_successful_allocation_count :: u32
  ph_successful_free_count :: u32
  ph_failed_allocation_count :: u32
  ph_failed_allocation_bytes :: u64

record pb_main_summary =
  pm_capacity_bytes :: u32
  pm_static_bytes :: u32
  pm_stack_reserved_bytes :: u32
  pm_heap_committed_bytes :: u32
  pm_live_payload_bytes :: u32
  pm_peak_live_payload_bytes :: u32
  pm_allocator_overhead_bytes :: u32
  pm_fragmented_free_bytes :: u32
  pm_largest_free_block_bytes :: u32
  pm_top_unallocated_bytes :: u32
  pm_minimum_margin_bytes :: u32
  pm_config_cache_active :: bool
  pm_config_cache_start :: u32
  pm_config_cache_bytes :: u32
  pm_config_cache_collision :: bool
  pm_failed_allocation_count :: u32
  pm_failed_allocation_bytes :: u64
  pm_heap_limit_collision :: bool
  pm_total_free_bytes :: u32

record pb_ahb_summary =
  pah_capacity_bytes :: u32
  pah_static_bytes :: u32
  pah_dynamic_capacity_bytes :: u32
  pah_live_payload_bytes :: u32
  pah_peak_live_payload_bytes :: u32
  pah_allocator_overhead_bytes :: u32
  pah_total_free_bytes :: u32
  pah_largest_free_block_bytes :: u32
  pah_failed_allocation_count :: u32
  pah_failed_allocation_bytes :: u64

record pb_memory_summary =
  pmem_heap :: pb_heap_summary
  pmem_main :: pb_main_summary
  pmem_ahb :: pb_ahb_summary
  pmem_main_live :: u64
  pmem_main_peak :: u64
  pmem_ahb_live :: u64
  pmem_ahb_peak :: u64
  pmem_heap_live :: u64
  pmem_heap_peak :: u64

record pb_group =
  pg_region :: int
  pg_type_name :: string
  pg_host_payload_bytes :: u32
  pg_target_payload_bytes :: u32
  pg_live_count :: u32
  pg_peak_live_count :: u32
  pg_total_count :: u32
  pg_live_target_bytes :: u64
  pg_peak_target_bytes :: u64
  pg_target_size_exact :: bool

record pb_memory_details =
  pd_summary :: pb_memory_summary
  pd_groups :: "pb_group list"

definition heap_message :: "heap_snapshot \<Rightarrow> pb_heap_summary" where
  "heap_message h = \<lparr>ph_capacity_bytes = hs_capacity_bytes h, ph_live_payload_bytes = hs_live_payload_bytes h,
     ph_peak_live_payload_bytes = hs_peak_live_payload_bytes h, ph_allocator_overhead_bytes = hs_allocator_overhead_bytes h,
     ph_total_free_bytes = hs_total_free_bytes h, ph_minimum_ever_free_bytes = hs_minimum_ever_free_bytes h,
     ph_largest_free_block_bytes = hs_largest_free_block_bytes h, ph_smallest_free_block_bytes = hs_smallest_free_block_bytes h,
     ph_free_area_count = hs_free_area_count h, ph_successful_allocation_count = hs_successful_allocation_count h,
     ph_successful_free_count = hs_successful_free_count h, ph_failed_allocation_count = hs_failed_allocation_count h,
     ph_failed_allocation_bytes = hs_failed_allocation_bytes h\<rparr>"

definition main_message :: "main_snapshot \<Rightarrow> pb_main_summary" where
  "main_message m = \<lparr>pm_capacity_bytes = ms_capacity_bytes m, pm_static_bytes = ms_static_bytes m,
     pm_stack_reserved_bytes = ms_stack_reserved_bytes m, pm_heap_committed_bytes = ms_heap_committed_bytes m,
     pm_live_payload_bytes = ms_live_payload_bytes m, pm_peak_live_payload_bytes = ms_peak_live_payload_bytes m,
     pm_allocator_overhead_bytes = ms_allocator_overhead_bytes m, pm_fragmented_free_bytes = ms_fragmented_free_bytes m,
     pm_largest_free_block_bytes = ms_largest_free_block_bytes m, pm_top_unallocated_bytes = ms_top_unallocated_bytes m,
     pm_minimum_margin_bytes = ms_minimum_margin_bytes m, pm_config_cache_active = ms_config_cache_active m,
     pm_config_cache_start = ms_config_cache_start m, pm_config_cache_bytes = ms_config_cache_bytes m,
     pm_config_cache_collision = ms_config_cache_collision m, pm_failed_allocation_count = ms_failed_allocation_count m,
     pm_failed_allocation_bytes = ms_failed_allocation_bytes m, pm_heap_limit_collision = ms_heap_limit_collision m,
     pm_total_free_bytes = ms_fragmented_free_bytes m + ms_top_unallocated_bytes m\<rparr>"

definition ahb_message :: "ahb_snapshot \<Rightarrow> pb_ahb_summary" where
  "ahb_message a = \<lparr>pah_capacity_bytes = as_capacity_bytes a, pah_static_bytes = as_static_bytes a,
     pah_dynamic_capacity_bytes = as_dynamic_capacity_bytes a, pah_live_payload_bytes = as_live_payload_bytes a,
     pah_peak_live_payload_bytes = as_peak_live_payload_bytes a, pah_allocator_overhead_bytes = as_allocator_overhead_bytes a,
     pah_total_free_bytes = as_total_free_bytes a, pah_largest_free_block_bytes = as_largest_free_block_bytes a,
     pah_failed_allocation_count = as_failed_allocation_count a, pah_failed_allocation_bytes = as_failed_allocation_bytes a\<rparr>"

definition unresolved_message_step :: "allocation_group \<Rightarrow> pb_memory_summary \<Rightarrow> pb_memory_summary" where
  "unresolved_message_step g t =
     (if g_target_size_exact g then t
      else let live = ucast (g_host_payload_bytes g) * ucast (g_live_count g);
               peak = ucast (g_host_payload_bytes g) * ucast (g_peak_live_count g)
           in case g_region g of
                MainSram \<Rightarrow> t\<lparr>pmem_main_live := pmem_main_live t + live, pmem_main_peak := pmem_main_peak t + peak\<rparr>
              | AhbSram \<Rightarrow> t\<lparr>pmem_ahb_live := pmem_ahb_live t + live, pmem_ahb_peak := pmem_ahb_peak t + peak\<rparr>
              | UnifiedHeap \<Rightarrow> t\<lparr>pmem_heap_live := pmem_heap_live t + live, pmem_heap_peak := pmem_heap_peak t + peak\<rparr>)"

definition memory_summary_message :: "accounting_snapshot \<Rightarrow> pb_memory_summary" where
  "memory_summary_message sn =
     fold unresolved_message_step (sn_groups sn)
       \<lparr>pmem_heap = heap_message (snap_heap (sn_model sn)), pmem_main = main_message (snap_main (sn_model sn)),
        pmem_ahb = ahb_message (snap_ahb (sn_model sn)), pmem_main_live = 0, pmem_main_peak = 0, pmem_ahb_live = 0,
        pmem_ahb_peak = 0, pmem_heap_live = 0, pmem_heap_peak = 0\<rparr>"

definition proto_region :: "memory_region \<Rightarrow> int" where
  "proto_region r = (case r of MainSram \<Rightarrow> 1 | AhbSram \<Rightarrow> 2 | UnifiedHeap \<Rightarrow> 3)"

definition group_message :: "allocation_group \<Rightarrow> pb_group" where
  "group_message g = \<lparr>pg_region = proto_region (g_region g), pg_type_name = g_type_name g,
     pg_host_payload_bytes = g_host_payload_bytes g, pg_target_payload_bytes = g_target_payload_bytes g,
     pg_live_count = g_live_count g, pg_peak_live_count = g_peak_live_count g, pg_total_count = g_total_count g,
     pg_live_target_bytes = g_live_target_bytes g, pg_peak_target_bytes = g_peak_target_bytes g,
     pg_target_size_exact = g_target_size_exact g\<rparr>"

definition memory_details_message :: "accounting_snapshot \<Rightarrow> pb_memory_details" where
  "memory_details_message sn = \<lparr>pd_summary = memory_summary_message sn, pd_groups = map group_message (sn_groups sn)\<rparr>"


section \<open>The figures add up\<close>

lemma fold_snapshot_regions:
  "ms_heap_committed_bytes (snap_main (fold snapshot_chunk cs s)) = ms_heap_committed_bytes (snap_main s) +
     (\<Sum>c\<leftarrow>cs. if used c \<and> region c = MainSram then span_bytes c else 0)"
  "ms_allocator_overhead_bytes (snap_main (fold snapshot_chunk cs s)) = ms_allocator_overhead_bytes (snap_main s) +
     (\<Sum>c\<leftarrow>cs. if used c \<and> region c = MainSram then span_bytes c - payload_bytes c else 0)"
  "ms_fragmented_free_bytes (snap_main (fold snapshot_chunk cs s)) = ms_fragmented_free_bytes (snap_main s) +
     (\<Sum>c\<leftarrow>cs. if \<not> used c \<and> region c = MainSram then span_bytes c else 0)"
  "as_allocator_overhead_bytes (snap_ahb (fold snapshot_chunk cs s)) = as_allocator_overhead_bytes (snap_ahb s) +
     (\<Sum>c\<leftarrow>cs. if used c \<and> region c \<noteq> MainSram then span_bytes c - payload_bytes c else 0)"
  "as_total_free_bytes (snap_ahb (fold snapshot_chunk cs s)) = as_total_free_bytes (snap_ahb s) +
     (\<Sum>c\<leftarrow>cs. if \<not> used c \<and> region c \<noteq> MainSram then span_bytes c else 0)"
  "ms_live_payload_bytes (snap_main (fold snapshot_chunk cs s)) = ms_live_payload_bytes (snap_main s)"
  "as_live_payload_bytes (snap_ahb (fold snapshot_chunk cs s)) = as_live_payload_bytes (snap_ahb s)"
  "as_dynamic_capacity_bytes (snap_ahb (fold snapshot_chunk cs s)) = as_dynamic_capacity_bytes (snap_ahb s)"
  by (induction cs arbitrary: s) (simp_all add: snapshot_chunk_def Let_def add.assoc)

lemma word_live_sum: "word_of_nat (live_sum P cs) = (\<Sum>c\<leftarrow>cs. if used c \<and> P c then payload_bytes c else (0 :: u32))"
  by (induction cs) (simp_all add: live_sum_def)

lemma span_split:
  fixes cs :: "chunk list"
  shows "(\<Sum>c\<leftarrow>cs. if used c \<and> P c then payload_bytes c else 0) + (\<Sum>c\<leftarrow>cs. if used c \<and> P c then span_bytes c - payload_bytes c else 0) +
     (\<Sum>c\<leftarrow>cs. if \<not> used c \<and> P c then span_bytes c else 0) = word_of_nat (\<Sum>c\<leftarrow>filter P cs. unat (span_bytes c))"
  by (induction cs) (auto simp: algebra_simps)

lemma committed_split:
  fixes cs :: "chunk list"
  shows "(\<Sum>c\<leftarrow>cs. if used c \<and> P c then span_bytes c else 0) =
     (\<Sum>c\<leftarrow>cs. if used c \<and> P c then payload_bytes c else 0) + (\<Sum>c\<leftarrow>cs. if used c \<and> P c then span_bytes c - payload_bytes c else 0)"
  by (induction cs) (auto simp: algebra_simps)

lemma region_words:
  assumes "heap_inv h"
  shows "main_live_payload_bytes h = (\<Sum>c\<leftarrow>chunks h. if used c \<and> region c = MainSram then payload_bytes c else 0)"
    "ahb_live_payload_bytes h = (\<Sum>c\<leftarrow>chunks h. if used c \<and> region c \<noteq> MainSram then payload_bytes c else 0)"
    "word_of_nat (\<Sum>c\<leftarrow>filter (\<lambda>c. region c = MainSram) (chunks h). unat (span_bytes c)) =
       main_heap_end (main_layout h) - main_heap_start (main_layout h) - kHeapRegionSentinelBytes"
    "word_of_nat (\<Sum>c\<leftarrow>filter (\<lambda>c. region c \<noteq> MainSram) (chunks h). unat (span_bytes c)) =
       ahb_heap_end (the_ahb_layout h) - ahb_heap_start (the_ahb_layout h) - kHeapRegionSentinelBytes"
proof -
  have inv: "unat (main_live_payload_bytes h) = live_sum (\<lambda>c. region c = MainSram) (chunks h)"
    "unat (ahb_live_payload_bytes h) = live_sum (\<lambda>c. region c = AhbSram) (chunks h)" "chunks_inv h (chunks h)"
    "layouts_ok (main_layout h) (the_ahb_layout h)"
    using assms by (simp_all add: heap_inv_def)
  have "region c = AhbSram \<longleftrightarrow> region c \<noteq> MainSram" if "c \<in> set (chunks h)" for c
    using inv(3) that by (cases "region c") (auto simp: chunks_inv_def list_all_iff chunk_ok_def)
  then have ahb: "live_sum (\<lambda>c. region c = AhbSram) (chunks h) = live_sum (\<lambda>c. region c \<noteq> MainSram) (chunks h)"
    "filter (\<lambda>c. region c \<noteq> MainSram) (chunks h) = in_region AhbSram (chunks h)"
    by (auto simp: live_sum_def in_region_def intro!: arg_cong [where f = sum_list] filter_cong)
  have word: "w = word_of_nat n" if "unat w = n" for w :: u32 and n using that by (simp flip: that)
  show "main_live_payload_bytes h = (\<Sum>c\<leftarrow>chunks h. if used c \<and> region c = MainSram then payload_bytes c else 0)"
    "ahb_live_payload_bytes h = (\<Sum>c\<leftarrow>chunks h. if used c \<and> region c \<noteq> MainSram then payload_bytes c else 0)"
    using word [OF inv(1)] word [OF inv(2)] ahb(1) by (simp_all add: word_live_sum)
  have span: "word_of_nat (unat b - 8 - unat a) = b - a - (8 :: u32)" if "unat a + 8 < unat b" for a b :: u32
    using that by (simp add: of_nat_diff)
  show "word_of_nat (\<Sum>c\<leftarrow>filter (\<lambda>c. region c = MainSram) (chunks h). unat (span_bytes c)) =
       main_heap_end (main_layout h) - main_heap_start (main_layout h) - kHeapRegionSentinelBytes"
    "word_of_nat (\<Sum>c\<leftarrow>filter (\<lambda>c. region c \<noteq> MainSram) (chunks h). unat (span_bytes c)) =
       ahb_heap_end (the_ahb_layout h) - ahb_heap_start (the_ahb_layout h) - kHeapRegionSentinelBytes"
    using tiles_spans inv(3) inv(4) span unfolding ahb(2)
    by (force simp: chunks_inv_def main_span_def ahb_span_def in_region_def layouts_ok_def kHeapRegionSentinelBytes_def)+
qed

text \<open>
  In every state the heap can reach, the lines of the report add up: in each region the used bytes are the live
  payload and the allocator's overhead, and with the free bytes they make the region's heap.
\<close>

theorem report_adds_up:
  assumes "heap_inv h"
  shows "let sn = heap_snapshot_of h; m = snap_main sn; a = snap_ahb sn
    in ms_heap_committed_bytes m = ms_live_payload_bytes m + ms_allocator_overhead_bytes m \<and>
       ms_heap_committed_bytes m + ms_fragmented_free_bytes m =
         main_heap_end (main_layout h) - main_heap_start (main_layout h) - kHeapRegionSentinelBytes \<and>
       ahb_used a + as_total_free_bytes a = as_dynamic_capacity_bytes a"
proof -
  let ?f = "fold snapshot_chunk (chunks h) (snapshot_start h)"
  have "snap_main (heap_snapshot_of h) = snap_main ?f" "snap_ahb (heap_snapshot_of h) = snap_ahb ?f"
    by (simp_all add: heap_snapshot_of_def Let_def)
  then show ?thesis
    using region_words [OF assms] span_split [of "\<lambda>c. region c = MainSram" "chunks h"]
      span_split [of "\<lambda>c. region c \<noteq> MainSram" "chunks h"] committed_split [of "\<lambda>c. region c = MainSram" "chunks h"]
    by (simp add: fold_snapshot_regions snapshot_start_def Let_def ahb_used_def)
qed

theorem report_adds_up_witness:
  "ahb_used (snap_ahb (heap_snapshot_of example_heap)) + as_total_free_bytes (snap_ahb (heap_snapshot_of example_heap)) =
     as_dynamic_capacity_bytes (snap_ahb (heap_snapshot_of example_heap))"
  using report_adds_up [OF example_inv] by (simp add: Let_def)

text \<open>The message and the report count the unresolved allocations alike.\<close>

definition unresolved_of_message :: "pb_memory_summary \<Rightarrow> unresolved_totals" where
  "unresolved_of_message t = \<lparr>un_main_live = pmem_main_live t, un_main_peak = pmem_main_peak t, un_ahb_live = pmem_ahb_live t,
     un_ahb_peak = pmem_ahb_peak t, un_heap_live = pmem_heap_live t, un_heap_peak = pmem_heap_peak t\<rparr>"

lemma unresolved_step: "unresolved_of_message (unresolved_message_step g t) = add_unresolved g (unresolved_of_message t)"
  by (cases "g_region g") (simp_all add: unresolved_message_step_def add_unresolved_def unresolved_of_message_def Let_def)

theorem message_agrees_with_report:
  "unresolved_of_message (memory_summary_message sn) = unresolved_report (sn_groups sn)"
proof -
  have "unresolved_of_message (fold unresolved_message_step gs t) = fold add_unresolved gs (unresolved_of_message t)" for gs t
    by (induction gs arbitrary: t) (simp_all add: unresolved_step)
  then show ?thesis by (simp add: memory_summary_message_def unresolved_report_def unresolved_of_message_def)
qed

text \<open>The verbose listing names every group once, whatever the sorting function does with equal ones.\<close>

lemma verbose_lists_every_group:
  assumes "mset (sorter (sn_groups sn)) = mset (sn_groups sn)"
  shows "mset (drop 2 (verbose_lines sorter sn)) = image_mset group_line (mset (sn_groups sn))"
  using assms by (simp add: verbose_lines_def Let_def)

end
