(* ===== verification/Api_Service.thy ===== *)
theory Api_Service
  imports Api_Physical Machine_Snapshot Memory_Report Transport_Manager Host_Filesystem
begin

text \<open>
  The whole API (\<^verbatim>\<open>src/protocol/api_service.cpp\<close>): the lifecycle commands
  (\<^verbatim>\<open>src/protocol/api_lifecycle_commands.cpp\<close>), the serial and motion commands
  (\<^verbatim>\<open>src/protocol/api_serial_motion_commands.cpp\<close>), the snapshot and transport commands
  (\<^verbatim>\<open>src/protocol/api_snapshot.cpp\<close>, \<^verbatim>\<open>src/protocol/api_snapshot_transport_commands.cpp\<close>), and the order in which a
  request is offered to the groups.

  The state joins the boot session with the firmware's links, the mounts and the transports.  The Wi-Fi module
  and the mainboard are those of the links.  The microsecond ticker and the run of the firmware are parameters;
  so is the text of a number (\<^verbatim>\<open>std::setprecision(9)\<close>).  The log is left out.  \<open>None\<close> is an exception.
\<close>

section \<open>State\<close>

record ('h, 'w, 'k, 'os) world =
  w_session :: "('h, 'w, 'k) session"
  w_io :: "('h, 'w) runtime"
  w_mounts :: mounts
  w_mgr :: manager
  w_os :: 'os

record ('h, 'w, 'k, 'os) api_code =
  ac_boot :: "('h, 'w, 'k) boot_code"
  ac_ports :: "'k \<Rightarrow> ('h, 'w) serial option \<times> ('h, 'w) serial option"
  ac_robot :: "'k \<Rightarrow> ('h, 'w) machine \<Rightarrow> robot_state"
  ac_fw :: "('h, 'w, 'k option) firmware"
  ac_layout :: layout
  ac_call :: "'h \<Rightarrow> ('h, 'w) machine \<Rightarrow> ('h, 'w) machine"
  ac_port_call :: "('h, 'w) port_call"
  ac_md5 :: "string \<Rightarrow> string"
  ac_poll :: "('h, 'w, 'k, 'os) world \<Rightarrow> ('h, 'w, 'k, 'os) world"
  ac_until_idle :: "nat \<Rightarrow> ('h, 'w, 'k, 'os) world \<Rightarrow> (bool \<times> ('h, 'w, 'k, 'os) world) option"
  ac_os :: "'os pty_calls"
  ac_cwd :: host_path
  ac_format :: "real \<Rightarrow> string"

text \<open>The session as the reset sees it, and the ports, which belong to the kernel.\<close>

definition session_view :: "('h, 'w, 'k, 'os) world \<Rightarrow> ('h, 'w, 'k) session" where
  "session_view w = (w_session w)\<lparr>ses_wifi := rt_wifi (w_io w),
     ses_mainboard := (if z1_family (w_io w) then Some (rt_z1 (w_io w)) else None)\<rparr>"

definition put_session :: "('h, 'w, 'k) session \<Rightarrow> ('h, 'w, 'k, 'os) world \<Rightarrow> ('h, 'w, 'k, 'os) world" where
  "put_session s w = w\<lparr>w_session := s, w_io := (w_io w)\<lparr>rt_wifi := ses_wifi s,
     rt_z1 := (case ses_mainboard s of None \<Rightarrow> rt_z1 (w_io w) | Some z \<Rightarrow> z)\<rparr>\<rparr>"

definition attach_ports :: "('h, 'w, 'k, 'os) api_code \<Rightarrow> ('h, 'w, 'k, 'os) world \<Rightarrow> ('h, 'w, 'k, 'os) world" where
  "attach_ports ac w = (case (case ses_kernel (w_session w) of None \<Rightarrow> (None, None) | Some k \<Rightarrow> ac_ports ac k) of
     (console, probe) \<Rightarrow> w\<lparr>w_io := (w_io w)\<lparr>console_serial := console, probe_serial := probe\<rparr>\<rparr>)"

definition api_view :: "('h, 'w, 'k, 'os) world \<Rightarrow> ('h, 'w, 'k option) api" where
  "api_view w = \<lparr>api_sim = \<lparr>machine = ses_machine (w_session w), kernel = ses_kernel (w_session w)\<rparr>,
     api_eeprom = ses_eeprom (w_session w)\<rparr>"

definition put_api :: "('h, 'w, 'k option) api \<Rightarrow> ('h, 'w, 'k, 'os) world \<Rightarrow> ('h, 'w, 'k, 'os) world" where
  "put_api a w = w\<lparr>w_session := (w_session w)\<lparr>ses_machine := machine (api_sim a), ses_kernel := kernel (api_sim a),
     ses_eeprom := api_eeprom a\<rparr>\<rparr>"

section \<open>Requests and responses\<close>

datatype request =
    Below command
  | Reset_Firmware
  | Poll
  | Get_Status
  | Set_Time_Mode int
  | Set_Realtime_Speed "real option"
  | Advance_Time u64
  | Mount_Filesystem string string
  | Set_Machine_Model int u32
  | Write_Serial string
  | Read_Serial
  | Run_Until_Idle u32
  | Jog "(int \<times> real) list" real u32
  | Get_Machine_Snapshot
  | Get_Memory_Details
  | Start_Interactive_Transport start_transport
  | Stop_Interactive_Transport
  | Command_Not_Set
  | Unknown_Command

record status_body =
  sb_time_us :: u64
  sb_realtime :: bool
  sb_machine_model :: int
  sb_function_setting :: u8
  sb_realtime_speed :: real

datatype service_body =
    Body body
  | Status_Body status_body
  | Serial_Data string
  | Run_Result bool
  | Jog_Result bool string
  | Snapshot_Body pb_snapshot pb_memory_summary
  | Memory_Body pb_memory_details
  | Transport_Body transport_info

record answer =
  ans_id :: u64
  ans_ok :: bool
  ans_error :: string
  ans_body :: service_body

type_synonym ('h, 'w, 'k, 'os) answered = "(answer option \<times> ('h, 'w, 'k, 'os) world) option"

definition answer_ok :: "u64 \<Rightarrow> answer" where
  "answer_ok i = \<lparr>ans_id = i, ans_ok = True, ans_error = [], ans_body = Body No_Body\<rparr>"

definition answer_error :: "u64 \<Rightarrow> string \<Rightarrow> answer" where
  "answer_error i message = \<lparr>ans_id = i, ans_ok = False, ans_error = message, ans_body = Body No_Body\<rparr>"

definition answer_with :: "u64 \<Rightarrow> service_body \<Rightarrow> answer" where
  "answer_with i b = (answer_ok i)\<lparr>ans_body := b\<rparr>"

definition answer_of :: "response \<Rightarrow> answer" where
  "answer_of r = \<lparr>ans_id = resp_id r, ans_ok = resp_ok r, ans_error = resp_error r, ans_body = Body (resp_body r)\<rparr>"

definition give :: "answer \<Rightarrow> ('h, 'w, 'k, 'os) world \<Rightarrow> ('h, 'w, 'k, 'os) answered" where
  "give a w = Some (Some a, w)"

section \<open>Booting\<close>

definition start_world :: "('h, 'w, 'k, 'os) api_code \<Rightarrow> ('h, 'w, 'k, 'os) world \<Rightarrow> ('h, 'w, 'k, 'os) world option" where
  "start_world ac w =
     (if booted (w_session w) then Some w
      else case start_session (ac_boot ac) (session_view w) of
        (Some e, s) \<Rightarrow> None
      | (None, s) \<Rightarrow> Some (attach_ports ac (put_session s w)))"

definition boot_world :: "('h, 'w, 'k, 'os) api_code \<Rightarrow> ('h, 'w, 'k, 'os) world \<Rightarrow> ('h, 'w, 'k, 'os) world option" where
  "boot_world ac w =
     (if booted (w_session w) then Some w
      else case start_world ac w of
        None \<Rightarrow> None
      | Some w \<Rightarrow> map_option (\<lambda>(_, w). w\<lparr>w_session := refresh_homed (ac_boot ac) (w_session w)\<rparr>) (ac_until_idle ac 200000 w))"

section \<open>The lifecycle commands\<close>

definition status_of :: "('h, 'w, 'k, 'os) api_code \<Rightarrow> ('h, 'w, 'k, 'os) world \<Rightarrow> status_body" where
  "status_of ac w =
     (let c = ses_clock (w_session w); f = session_factory_settings (ac_boot ac) (w_session w)
      in \<lparr>sb_time_us = base_us c, sb_realtime = realtime c, sb_machine_model = proto_machine_model (fs_model f),
          sb_function_setting = function_setting f, sb_realtime_speed = realtime_speed c\<rparr>)"

definition on_clock :: "(virtual_clock \<Rightarrow> virtual_clock) \<Rightarrow> ('h, 'w, 'k, 'os) world \<Rightarrow> ('h, 'w, 'k, 'os) world" where
  "on_clock f w = w\<lparr>w_session := (w_session w)\<lparr>ses_clock := f (ses_clock (w_session w))\<rparr>\<rparr>"

definition mount_world :: "('h, 'w, 'k, 'os) api_code \<Rightarrow> string \<Rightarrow> string \<Rightarrow> ('h, 'w, 'k, 'os) world \<Rightarrow> ('h, 'w, 'k, 'os) world" where
  "mount_world ac name hroot w =
     (let (mounts, d, f) = mount (ac_cwd ac) name hroot (w_mounts w, ses_eeprom (w_session w));
          w = w\<lparr>w_mounts := mounts, w_session := (w_session w)\<lparr>ses_eeprom := (d, f)\<rparr>\<rparr>
      in if name = ''sd'' \<and> z1_family (w_io w)
         then w\<lparr>w_io := (w_io w)\<lparr>rt_z1 := set_sd_root (os_path (ac_cwd ac) hroot) (rt_z1 (w_io w))\<rparr>\<rparr> else w)"

definition reset_world :: "('h, 'w, 'k, 'os) api_code \<Rightarrow> ('h, 'w, 'k, 'os) world \<Rightarrow> ('h, 'w, 'k, 'os) world option" where
  "reset_world ac w = map_option (\<lambda>s. attach_ports ac (put_session s w)) (session_reset (ac_boot ac) (session_view w))"

definition choose_model :: "('h, 'w, 'k, 'os) api_code \<Rightarrow> machine_model \<Rightarrow> u32 \<Rightarrow> ('h, 'w, 'k, 'os) world \<Rightarrow>
    bool \<times> ('h, 'w, 'k, 'os) world" where
  "choose_model ac model setting w =
     (let (done', s) = set_factory_settings \<lparr>fs_model = model, function_setting = ucast setting, reserve1 = 0, reserve2 = 0\<rparr>
            (w_session w)
      in (done', w\<lparr>w_session := s\<rparr>))"

definition handle_lifecycle_command :: "('h, 'w, 'k, 'os) api_code \<Rightarrow> u64 \<Rightarrow> request \<Rightarrow> ('h, 'w, 'k, 'os) world \<Rightarrow> ('h, 'w, 'k, 'os) answered" where
  "handle_lifecycle_command ac i c w = (case c of
     Reset_Firmware \<Rightarrow> (case reset_world ac w of None \<Rightarrow> None | Some w \<Rightarrow> give (answer_ok i) w)
   | Poll \<Rightarrow> give (answer_ok i) (ac_poll ac w)
   | Get_Status \<Rightarrow> give (answer_with i (Status_Body (status_of ac w))) w
   | Set_Time_Mode mode \<Rightarrow>
       (if mode = 1 then give (answer_ok i) (on_clock pause_realtime w)
        else if mode = 2 then give (answer_ok i) (on_clock start_realtime w)
        else give (answer_error i ''unsupported time mode'') w)
   | Set_Realtime_Speed speed \<Rightarrow>
       (if fst (set_realtime_speed speed (ses_clock (w_session w)))
        then give (answer_ok i) (on_clock (\<lambda>c. snd (set_realtime_speed speed c)) w)
        else give (answer_error i ''realtime speed multiplier must be > 0 and <= 100'') w)
   | Advance_Time delta \<Rightarrow> give (answer_ok i) (ac_poll ac (on_clock (vc_advance_us delta) w))
   | Mount_Filesystem name hroot \<Rightarrow>
       (if name = [] then give (answer_error i ''mount name is required'') w
        else if hroot = [] then give (answer_error i ''mount host_path is required'') w
        else give (answer_ok i) (mount_world ac name hroot w))
   | Set_Machine_Model model setting \<Rightarrow> (case api_machine_model model of
       None \<Rightarrow> give (answer_error i ''unsupported machine model'') w
     | Some m \<Rightarrow>
         (if setting > 0xFF then give (answer_error i ''function_setting must fit in one byte'') w
          else case choose_model ac m setting w of (done', w) \<Rightarrow>
            if done' then give (answer_ok i) w else give (answer_error i ''machine model cannot change after firmware boot'') w))
   | _ \<Rightarrow> Some (None, w))"

definition handle_cooperative_lifecycle_command :: "('h, 'w, 'k, 'os) api_code \<Rightarrow> u64 \<Rightarrow> request \<Rightarrow> ('h, 'w, 'k, 'os) world \<Rightarrow>
    ('h, 'w, 'k, 'os) answered" where
  "handle_cooperative_lifecycle_command ac i c w = (case c of
     Set_Realtime_Speed _ \<Rightarrow> handle_lifecycle_command ac i c w | _ \<Rightarrow> Some (None, w))"

section \<open>The serial and motion commands\<close>

definition kDefaultMaxStepTicks :: u32 where "kDefaultMaxStepTicks = 100000"

definition step_ticks :: "u32 \<Rightarrow> nat" where
  "step_ticks n = unat (if n = 0 then kDefaultMaxStepTicks else n)"

definition axis_letter :: "int \<Rightarrow> string option" where
  "axis_letter axis = map_option (\<lambda>a. [''XYZAB'' ! a]) (api_axis_index axis)"

fun jog_deltas :: "(real \<Rightarrow> string) \<Rightarrow> (int \<times> real) list \<Rightarrow> string option" where
  "jog_deltas fmt [] = Some []"
| "jog_deltas fmt ((axis, distance) # ds) =
     (case axis_letter axis of
        None \<Rightarrow> None
      | Some letter \<Rightarrow> (if distance = 0 then None else map_option (\<lambda>t. '' '' @ letter @ fmt distance @ t) (jog_deltas fmt ds)))"

text \<open>An empty text is an invalid jog.\<close>

definition jog_command :: "(real \<Rightarrow> string) \<Rightarrow> (int \<times> real) list \<Rightarrow> real \<Rightarrow> string" where
  "jog_command fmt deltas feed =
     (if deltas = [] \<or> feed \<le> 0 then []
      else case jog_deltas fmt deltas of None \<Rightarrow> [] | Some t \<Rightarrow> ''G0'' @ t @ '' F'' @ fmt feed @ [CHR 0x0A])"

definition write_serial_world :: "('h, 'w, 'k, 'os) api_code \<Rightarrow> string \<Rightarrow> ('h, 'w, 'k, 'os) world \<Rightarrow> ('h, 'w, 'k, 'os) world option" where
  "write_serial_world ac data w = (case start_world ac w of None \<Rightarrow> None
   | Some w \<Rightarrow> map_option (\<lambda>r. w\<lparr>w_io := r\<rparr>) (write_serial (ac_md5 ac) (\<lambda>r. r) (ac_port_call ac) data (w_io w)))"

definition write_serial_command_world :: "('h, 'w, 'k, 'os) api_code \<Rightarrow> string \<Rightarrow> ('h, 'w, 'k, 'os) world \<Rightarrow> ('h, 'w, 'k, 'os) world option" where
  "write_serial_command_world ac cmd w = (case start_world ac w of None \<Rightarrow> None
   | Some w \<Rightarrow> map_option (\<lambda>r. w\<lparr>w_io := r\<rparr>) (write_serial_command (ac_md5 ac) (\<lambda>r. r) (ac_port_call ac) cmd (w_io w)))"

definition read_world :: "('h, 'w, 'k, 'os) api_code \<Rightarrow> (('h, 'w) runtime \<Rightarrow> string \<times> ('h, 'w) runtime) \<Rightarrow>
    ('h, 'w, 'k, 'os) world \<Rightarrow> (string \<times> ('h, 'w, 'k, 'os) world) option" where
  "read_world ac f w = map_option (\<lambda>w. let (bytes, r) = f (w_io w) in (bytes, w\<lparr>w_io := r\<rparr>)) (start_world ac w)"

definition handle_serial_motion_command :: "('h, 'w, 'k, 'os) api_code \<Rightarrow> u64 \<Rightarrow> request \<Rightarrow> ('h, 'w, 'k, 'os) world \<Rightarrow>
    ('h, 'w, 'k, 'os) answered" where
  "handle_serial_motion_command ac i c w = (case c of
     Write_Serial data \<Rightarrow> (case write_serial_world ac data w of None \<Rightarrow> None | Some w \<Rightarrow> give (answer_ok i) w)
   | Read_Serial \<Rightarrow> (case read_world ac (read_serial (\<lambda>r. r)) w of
       None \<Rightarrow> None | Some (bytes, w) \<Rightarrow> give (answer_with i (Serial_Data bytes)) w)
   | Run_Until_Idle n \<Rightarrow> (case ac_until_idle ac (step_ticks n) w of
       None \<Rightarrow> None
     | Some (idle, w) \<Rightarrow>
         (let a = answer_with i (Run_Result idle)
          in give (if idle then a else a\<lparr>ans_ok := False, ans_error := ''motion did not reach idle''\<rparr>) w))
   | Jog deltas feed n \<Rightarrow>
       (let cmd = jog_command (ac_format ac) deltas feed
        in if cmd = [] then give (answer_error i ''invalid jog command'') w
           else case write_serial_command_world ac (''G91'' @ [CHR 0x0A] @ cmd) w of
             None \<Rightarrow> None
           | Some w \<Rightarrow> (case ac_until_idle ac (step_ticks n) w of
               None \<Rightarrow> None
             | Some (idle, w) \<Rightarrow> (case read_world ac (read_serial_text (\<lambda>r. r)) w of
                 None \<Rightarrow> None
               | Some (txt, w) \<Rightarrow>
                   (let a = answer_with i (Jog_Result idle txt)
                    in give (if idle then a else a\<lparr>ans_ok := False, ans_error := ''jog did not reach idle''\<rparr>) w))))
   | _ \<Rightarrow> Some (None, w))"

section \<open>The snapshot and transport commands\<close>

definition empty_snapshot :: pb_snapshot where
  "empty_snapshot = \<lparr>psn_booted = False, psn_homed = False, psn_soft_endstop_enabled = False, psn_work_area = None,
     psn_physical_travel = None, psn_spindle = None, psn_axes = [], psn_tool_setter_available = False, psn_tool_setter = None,
     psn_atc = None\<rparr>"

definition fill_snapshot_from_kernel :: "('h, 'w, 'k, 'os) api_code \<Rightarrow> ('h, 'w, 'k, 'os) world \<Rightarrow>
    ((pb_snapshot \<times> pb_memory_summary) option \<times> ('h, 'w, 'k, 'os) world) option" where
  "fill_snapshot_from_kernel ac w = (case start_world ac w of
     None \<Rightarrow> None
   | Some w \<Rightarrow>
       (let s = w_session w; r = ac_robot ac (the (ses_kernel s)) (ses_machine s)
        in if \<not> rs_present r then Some (None, w)
           else let (st, m) = assemble_with_firmware_homed r (Some (configure_physical_scene (ac_fw ac) (ses_kernel s) False)) None
                      (fs_model (session_factory_settings (ac_boot ac) s)) (ses_machine s)
                in Some (Some (fill_machine_snapshot_proto st empty_snapshot, memory_summary_message (acct_snapshot (ses_accounting s))),
                     w\<lparr>w_session := s\<lparr>ses_machine := m\<rparr>\<rparr>)))"

definition fill_machine_snapshot :: "('h, 'w, 'k, 'os) api_code \<Rightarrow> ('h, 'w, 'k, 'os) world \<Rightarrow>
    ((pb_snapshot \<times> pb_memory_summary) option \<times> ('h, 'w, 'k, 'os) world) option" where
  "fill_machine_snapshot ac w = (case boot_world ac w of None \<Rightarrow> None | Some w \<Rightarrow> fill_snapshot_from_kernel ac w)"

definition fill_machine_snapshot_nonblocking :: "('h, 'w, 'k, 'os) api_code \<Rightarrow> ('h, 'w, 'k, 'os) world \<Rightarrow>
    ((pb_snapshot \<times> pb_memory_summary) option \<times> ('h, 'w, 'k, 'os) world) option" where
  "fill_machine_snapshot_nonblocking ac w =
     (if \<not> booted (w_session w) then Some (None, w) else fill_snapshot_from_kernel ac w)"

definition handle_snapshot_transport_command :: "('h, 'w, 'k, 'os) api_code \<Rightarrow> u64 \<Rightarrow> request \<Rightarrow> ('h, 'w, 'k, 'os) world \<Rightarrow>
    ('h, 'w, 'k, 'os) answered" where
  "handle_snapshot_transport_command ac i c w = (case c of
     Get_Machine_Snapshot \<Rightarrow> (case fill_machine_snapshot ac w of
       None \<Rightarrow> None
     | Some (None, w) \<Rightarrow> give (answer_error i ''firmware Robot is not available'') w
     | Some (Some (sn, memory), w) \<Rightarrow> give (answer_with i (Snapshot_Body sn memory)) w)
   | Get_Memory_Details \<Rightarrow>
       (if \<not> booted (w_session w) then give (answer_error i ''firmware is not running'') w
        else give (answer_with i (Memory_Body (memory_details_message (acct_snapshot (ses_accounting (w_session w)))))) w)
   | Start_Interactive_Transport req \<Rightarrow>
       (case start_transports (ac_os ac) req (w_mgr w) (w_io w) (w_os w) of (res, m, r, os) \<Rightarrow>
          (let w = w\<lparr>w_mgr := m, w_io := r, w_os := os\<rparr>
           in case res of Inl message \<Rightarrow> give (answer_error i message) w
              | Inr info \<Rightarrow> give (answer_with i (Transport_Body info)) w))
   | Stop_Interactive_Transport \<Rightarrow>
       (case stop_transports (ac_os ac) (w_mgr w) (w_io w) (w_os w) of (m, r, os) \<Rightarrow>
          give (answer_ok i) (w\<lparr>w_mgr := m, w_io := r, w_os := os\<rparr>))
   | _ \<Rightarrow> Some (None, w))"

definition handle_cooperative_snapshot_transport_command :: "('h, 'w, 'k, 'os) api_code \<Rightarrow> u64 \<Rightarrow> request \<Rightarrow> ('h, 'w, 'k, 'os) world \<Rightarrow>
    ('h, 'w, 'k, 'os) answered" where
  "handle_cooperative_snapshot_transport_command ac i c w = (case c of
     Get_Memory_Details \<Rightarrow> handle_snapshot_transport_command ac i c w | _ \<Rightarrow> Some (None, w))"

section \<open>The groups in order\<close>

definition on_command :: "(command \<Rightarrow> ('h, 'w, 'k option) api \<Rightarrow> ('h, 'w, 'k option) handled) \<Rightarrow> request \<Rightarrow>
    ('h, 'w, 'k, 'os) world \<Rightarrow> ('h, 'w, 'k, 'os) answered" where
  "on_command f c w = (case c of
     Below b \<Rightarrow> map_option (\<lambda>(r, a). (map_option answer_of r, put_api a w)) (f b (api_view w))
   | _ \<Rightarrow> Some (None, w))"

fun offer :: "(request \<Rightarrow> ('h, 'w, 'k, 'os) world \<Rightarrow> ('h, 'w, 'k, 'os) answered) list \<Rightarrow> answer \<Rightarrow> request \<Rightarrow>
    ('h, 'w, 'k, 'os) world \<Rightarrow> (answer \<times> ('h, 'w, 'k, 'os) world) option" where
  "offer [] otherwise c w = Some (otherwise, w)"
| "offer (g # gs) otherwise c w = (case g c w of
     None \<Rightarrow> None
   | Some (None, w) \<Rightarrow> offer gs otherwise c w
   | Some (Some a, w) \<Rightarrow> Some (a, w))"

definition nobody_took :: "string \<Rightarrow> u64 \<Rightarrow> request \<Rightarrow> answer" where
  "nobody_took message i c = answer_error i (if c = Command_Not_Set then ''command is required'' else message)"

definition handle_request :: "('h, 'w, 'k, 'os) api_code \<Rightarrow> u64 \<Rightarrow> request \<Rightarrow> ('h, 'w, 'k, 'os) world \<Rightarrow> (answer \<times> ('h, 'w, 'k, 'os) world) option" where
  "handle_request ac i c w = offer
     [handle_lifecycle_command ac i,
      on_command (handle_harness_command (ac_layout ac) (ac_fw ac) (ac_call ac) i),
      handle_serial_motion_command ac i,
      on_command (handle_physical_command (ac_fw ac) True i),
      handle_snapshot_transport_command ac i] (nobody_took ''unknown command'' i c) c w"

definition handle_cooperative :: "('h, 'w, 'k, 'os) api_code \<Rightarrow> u64 \<Rightarrow> request \<Rightarrow> ('h, 'w, 'k, 'os) world \<Rightarrow>
    (answer \<times> ('h, 'w, 'k, 'os) world) option" where
  "handle_cooperative ac i c w = offer
     [handle_cooperative_lifecycle_command ac i,
      on_command (handle_cooperative_harness_command (ac_layout ac) (ac_fw ac) (ac_call ac) i),
      on_command (handle_cooperative_physical_command (ac_fw ac) i),
      handle_cooperative_snapshot_transport_command ac i] (nobody_took ''simulator busy running firmware command'' i c) c w"


section \<open>Every answer carries the id of its request\<close>

lemma answer_simps [simp]:
  "ans_id (answer_ok i) = i" "ans_id (answer_error i message) = i" "ans_id (answer_with i b) = i" "ans_id (answer_of r) = resp_id r"
  "ans_ok (answer_ok i)" "\<not> ans_ok (answer_error i message)" "ans_ok (answer_with i b)" "ans_ok (answer_of r) = resp_ok r"
  "ans_body (answer_with i b) = b" "ans_body (answer_of r) = Body (resp_body r)" "ans_id (nobody_took message i c) = i"
  "\<not> ans_ok (nobody_took message i c)"
  by (simp_all add: answer_ok_def answer_error_def answer_with_def answer_of_def nobody_took_def)

lemma harness_id: "handle_harness_command l fw call i c s = Some (Some r, s') \<Longrightarrow> resp_id r = i"
  by (cases c) (auto simp: handle_harness_command_def reply_def ok_def ok_with_def error_def bind_eq_Some_conv Let_def
    split: if_splits option.splits prod.splits)

lemma cooperative_harness_id: "handle_cooperative_harness_command l fw call i c s = Some (Some r, s') \<Longrightarrow> resp_id r = i"
  using harness_id by (fastforce simp: handle_cooperative_harness_command_def split: command.splits)

lemma answered_id: "answered i ms = Some (Some r, s') \<Longrightarrow> resp_id r = i"
  by (auto simp: answered_def reply_def ok_def error_def split: option.splits prod.splits)

lemma physical_id: "handle_physical_command fw pump i c s = Some (Some r, s') \<Longrightarrow> resp_id r = i"
  by (cases c) (auto simp: handle_physical_command_def reply_def ok_def ok_with_def error_def bind_eq_Some_conv Let_def
    split: if_splits option.splits prod.splits dest: answered_id)

lemma cooperative_physical_id: "handle_cooperative_physical_command fw i c s = Some (Some r, s') \<Longrightarrow> resp_id r = i"
  using physical_id by (auto simp: handle_cooperative_physical_command_def split: if_splits)

lemma on_command_id:
  "\<lbrakk>\<And>b s r s'. f b s = Some (Some r, s') \<Longrightarrow> resp_id r = i; on_command f c w = Some (Some a, w')\<rbrakk> \<Longrightarrow> ans_id a = i"
  by (auto simp: on_command_def split: request.splits)

lemma lifecycle_id: "handle_lifecycle_command ac i c w = Some (Some a, w') \<Longrightarrow> ans_id a = i"
  by (auto simp: handle_lifecycle_command_def give_def split: request.splits if_splits option.splits prod.splits)

lemma serial_motion_id: "handle_serial_motion_command ac i c w = Some (Some a, w') \<Longrightarrow> ans_id a = i"
  by (auto simp: handle_serial_motion_command_def give_def Let_def split: request.splits if_splits option.splits prod.splits)

lemma snapshot_transport_id: "handle_snapshot_transport_command ac i c w = Some (Some a, w') \<Longrightarrow> ans_id a = i"
  by (auto simp: handle_snapshot_transport_command_def give_def Let_def
    split: request.splits if_splits option.splits prod.splits sum.splits)

lemma cooperative_snapshot_id: "handle_cooperative_snapshot_transport_command ac i c w = Some (Some a, w') \<Longrightarrow> ans_id a = i"
  using snapshot_transport_id by (auto simp: handle_cooperative_snapshot_transport_command_def split: request.splits)

lemma cooperative_lifecycle_id: "handle_cooperative_lifecycle_command ac i c w = Some (Some a, w') \<Longrightarrow> ans_id a = i"
  using lifecycle_id by (auto simp: handle_cooperative_lifecycle_command_def split: request.splits)

lemma offer_id:
  assumes "offer gs otherwise c w = Some (a, w')" "ans_id otherwise = i"
    "\<And>g w a w'. g \<in> set gs \<Longrightarrow> g c w = Some (Some a, w') \<Longrightarrow> ans_id a = i"
  shows "ans_id a = i"
  using assms
proof (induction gs arbitrary: w)
  case (Cons g gs)
  then show ?case by (fastforce split: option.splits prod.splits)
qed simp

text \<open>Whatever the request, an answer has its id, and one that is given while the firmware blocks has too.\<close>

theorem answers_carry_the_id:
  "(case handle_request ac i c w of None \<Rightarrow> True | Some (a, w') \<Rightarrow> ans_id a = i) \<and>
   (case handle_cooperative ac i c w of None \<Rightarrow> True | Some (a, w') \<Rightarrow> ans_id a = i)"
proof -
  have "ans_id a = i" if "handle_request ac i c w = Some (a, w')" for a w'
    using that unfolding handle_request_def
    by (rule offer_id) (auto intro: lifecycle_id serial_motion_id snapshot_transport_id on_command_id [OF harness_id] on_command_id [OF physical_id])
  moreover have "ans_id a = i" if "handle_cooperative ac i c w = Some (a, w')" for a w'
    using that unfolding handle_cooperative_def
    by (rule offer_id) (auto intro: cooperative_lifecycle_id cooperative_snapshot_id on_command_id [OF cooperative_harness_id]
      on_command_id [OF cooperative_physical_id])
  ultimately show ?thesis by (auto split: option.splits)
qed

section \<open>What a request may change while the firmware blocks\<close>

text \<open>The part of the world a cooperative request leaves alone.\<close>

definition same_run :: "('h, 'w, 'k, 'os) world \<Rightarrow> ('h, 'w, 'k, 'os) world \<Rightarrow> bool" where
  "same_run w w' \<longleftrightarrow> w_io w' = w_io w \<and> w_mounts w' = w_mounts w \<and> w_mgr w' = w_mgr w \<and> w_os w' = w_os w \<and>
     ses_factory (w_session w') = ses_factory (w_session w) \<and> ses_homed (w_session w') = ses_homed (w_session w) \<and>
     ses_accounting (w_session w') = ses_accounting (w_session w) \<and>
     base_us (ses_clock (w_session w')) = base_us (ses_clock (w_session w)) \<and>
     realtime (ses_clock (w_session w')) = realtime (ses_clock (w_session w))"

lemma same_run_refl [simp]: "same_run w w"
  by (simp add: same_run_def)

lemma same_run_trans: "same_run u v \<Longrightarrow> same_run v w \<Longrightarrow> same_run u w"
  by (simp add: same_run_def)

lemma same_run_api [simp]: "same_run w (put_api a w)"
  by (simp add: same_run_def put_api_def)

lemma on_command_same_run: "on_command f c w = Some (r, w') \<Longrightarrow> same_run w w'"
  by (auto simp: on_command_def split: request.splits)

lemma offer_same_run:
  assumes "offer gs otherwise c w = Some (a, w')"
    "\<And>g w r w'. g \<in> set gs \<Longrightarrow> g c w = Some (r, w') \<Longrightarrow> same_run w w'"
  shows "same_run w w'"
  using assms
proof (induction gs arbitrary: w)
  case (Cons g gs)
  then obtain r v where g: "g c w = Some (r, v)" by (cases "g c w") auto
  then have "same_run w v" using Cons.prems(2) [of g w r v] by simp
  moreover have "same_run v w'"
  proof (cases r)
    case None
    have "same_run u u'" if "h \<in> set gs" "h c u = Some (q, u')" for h u q u'
      by (rule Cons.prems(2) [of h u q u']) (use that in simp_all)
    then show ?thesis using Cons.IH [of v] Cons.prems(1) g None by simp
  qed (use Cons.prems(1) g in simp)
  ultimately show ?case by (rule same_run_trans)
qed simp

lemma cooperative_same_run:
  assumes "handle_cooperative ac i c w = Some (a, w')"
  shows "same_run w w'"
  using assms unfolding handle_cooperative_def
proof (rule offer_same_run)
  fix g w r w'
  have life: "same_run w w'" if "handle_cooperative_lifecycle_command ac i c w = Some (r, w')"
    using that by (auto simp: handle_cooperative_lifecycle_command_def handle_lifecycle_command_def give_def same_run_def on_clock_def
        set_realtime_speed_def split: request.splits if_splits option.splits)
  have snap: "same_run w w'" if "handle_cooperative_snapshot_transport_command ac i c w = Some (r, w')"
    using that by (auto simp: handle_cooperative_snapshot_transport_command_def handle_snapshot_transport_command_def give_def
        split: request.splits if_splits)
  assume "g \<in> set [handle_cooperative_lifecycle_command ac i,
      on_command (handle_cooperative_harness_command (ac_layout ac) (ac_fw ac) (ac_call ac) i),
      on_command (handle_cooperative_physical_command (ac_fw ac) i), handle_cooperative_snapshot_transport_command ac i]"
    "g c w = Some (r, w')"
  then show "same_run w w'" using life snap on_command_same_run by auto
qed


section \<open>Lifecycle\<close>

text \<open>A lifecycle command that is refused changes nothing.\<close>

theorem lifecycle_error_changes_nothing:
  assumes "handle_lifecycle_command ac i c w = Some (Some a, w')" "\<not> ans_ok a"
  shows "w' = w \<and> ans_error a \<noteq> []"
  using assms
  by (auto simp: handle_lifecycle_command_def give_def answer_error_def choose_model_def set_factory_settings_def Let_def
    split: request.splits if_splits option.splits prod.splits)

lemma handle_lifecycle:
  "handle_lifecycle_command ac i c w = Some (Some a, w') \<Longrightarrow> handle_request ac i c w = Some (a, w')"
  by (simp add: handle_request_def)

text \<open>
  C15: The model that is chosen before the boot is the one that is reported, with its function setting; any other
  request for a model is refused and changes nothing.
\<close>

theorem chosen_model_is_reported:
  "if api_machine_model model \<noteq> None \<and> setting \<le> 0xFF \<and> \<not> booted (w_session w)
   then \<exists>w' sb. handle_request ac i (Set_Machine_Model model setting) w = Some (answer_ok i, w') \<and>
      handle_request ac j Get_Status w' = Some (answer_with j (Status_Body sb), w') \<and>
      sb_machine_model sb = model \<and> unat (sb_function_setting sb) = unat setting \<and>
      sb_time_us sb = base_us (ses_clock (w_session w))
   else \<exists>message. handle_request ac i (Set_Machine_Model model setting) w = Some (answer_error i message, w)"
proof (cases "api_machine_model model \<noteq> None \<and> setting \<le> 0xFF \<and> \<not> booted (w_session w)")
  case True
  then obtain m where m: "api_machine_model model = Some m" by auto
  define s where "s = snd (set_factory_settings \<lparr>fs_model = m, function_setting = ucast setting, reserve1 = 0, reserve2 = 0\<rparr> (w_session w))"
  have s: "ses_kernel s = None" "fs_model (ses_factory s) = m" "function_setting (ses_factory s) = ucast setting" "ses_clock s = ses_clock (w_session w)"
    using True by (simp_all add: s_def set_factory_settings_def booted_def)
  have "choose_model ac m setting w = (True, w\<lparr>w_session := s\<rparr>)"
    using True by (simp add: choose_model_def s_def set_factory_settings_def Let_def)
  then have "handle_request ac i (Set_Machine_Model model setting) w = Some (answer_ok i, w\<lparr>w_session := s\<rparr>)"
    using m True by (intro handle_lifecycle) (auto simp: handle_lifecycle_command_def give_def dest: leD)
  moreover have got: "handle_request ac j Get_Status (w\<lparr>w_session := s\<rparr>) =
      Some (answer_with j (Status_Body (status_of ac (w\<lparr>w_session := s\<rparr>))), w\<lparr>w_session := s\<rparr>)"
    by (intro handle_lifecycle) (simp add: handle_lifecycle_command_def give_def)
  have "unat (ucast setting :: u8) = unat setting"
    using True by (simp add: unsigned_ucast_eq take_bit_nat_eq_self word_le_nat_alt)
  then have func: "unat (sb_function_setting (status_of ac (w\<lparr>w_session := s\<rparr>))) = unat setting"
    using s by (simp add: status_of_def session_factory_settings_def Let_def)
  moreover have "sb_machine_model (status_of ac (w\<lparr>w_session := s\<rparr>)) = model"
      "sb_time_us (status_of ac (w\<lparr>w_session := s\<rparr>)) = base_us (ses_clock (w_session w))"
    using s m by (auto simp: status_of_def session_factory_settings_def Let_def api_machine_model_def proto_machine_model_def split: if_splits)
  ultimately show ?thesis using func got unfolding if_P [OF True] by blast
next
  case False
  have "\<exists>message. handle_lifecycle_command ac i (Set_Machine_Model model setting) w = Some (Some (answer_error i message), w)"
  proof (cases "api_machine_model model")
    case (Some m)
    have "choose_model ac m setting w = (False, w)" if "booted (w_session w)"
      using that by (simp add: choose_model_def set_factory_settings_def)
    then show ?thesis using Some False by (auto simp: handle_lifecycle_command_def give_def not_less)
  qed (auto simp: handle_lifecycle_command_def give_def)
  then show ?thesis unfolding if_not_P [OF False] using handle_lifecycle by blast
qed

text \<open>A speed is taken if it is a number above 0 and at most 100, and then it is reported.\<close>

theorem realtime_speed_is_reported:
  "if (\<exists>v. speed = Some v \<and> 0 < v \<and> v \<le> 100)
   then \<exists>w' sb. handle_request ac i (Set_Realtime_Speed speed) w = Some (answer_ok i, w') \<and>
      handle_request ac j Get_Status w' = Some (answer_with j (Status_Body sb), w') \<and> Some (sb_realtime_speed sb) = speed \<and>
      same_run w w'
   else \<exists>message. handle_request ac i (Set_Realtime_Speed speed) w = Some (answer_error i message, w)"
proof (cases "\<exists>v. speed = Some v \<and> 0 < v \<and> v \<le> 100")
  case True
  then obtain v where v: "speed = Some v" "0 < v" "v \<le> 100" by blast
  let ?w = "on_clock (\<lambda>c. c\<lparr>realtime_speed := v\<rparr>) w"
  have "on_clock (\<lambda>c. snd (set_realtime_speed speed c)) w = ?w"
    using v by (simp add: on_clock_def set_realtime_speed_def)
  then have "handle_request ac i (Set_Realtime_Speed speed) w = Some (answer_ok i, ?w)"
    using v by (intro handle_lifecycle) (simp add: handle_lifecycle_command_def give_def set_realtime_speed_def)
  moreover have "handle_request ac j Get_Status ?w = Some (answer_with j (Status_Body (status_of ac ?w)), ?w)"
    by (intro handle_lifecycle) (simp add: handle_lifecycle_command_def give_def)
  moreover have "Some (sb_realtime_speed (status_of ac ?w)) = speed" "same_run w ?w"
    using v by (simp_all add: status_of_def Let_def on_clock_def same_run_def)
  ultimately show ?thesis unfolding if_P [OF True] by blast
next
  case False
  then have "\<not> fst (set_realtime_speed speed (ses_clock (w_session w)))"
    by (auto simp: set_realtime_speed_def not_le not_less split: option.splits)
  then have "handle_lifecycle_command ac i (Set_Realtime_Speed speed) w =
      Some (Some (answer_error i ''realtime speed multiplier must be > 0 and <= 100''), w)"
    by (simp add: handle_lifecycle_command_def give_def)
  then show ?thesis unfolding if_not_P [OF False] using handle_lifecycle by blast
qed

end
