(* ===== verification/Physical_Io.thy ===== *)
theory Physical_Io
  imports Api_Physical
begin

text \<open>
  The picture of the machine's inputs and outputs that is streamed to observers
  (\<^verbatim>\<open>fill_physical_io_snapshot\<close> in \<^verbatim>\<open>src/protocol/api_physical_commands.cpp\<close>,
  \<^verbatim>\<open>fill_physical_io_snapshot_nonblocking\<close> in \<^verbatim>\<open>src/protocol/api_service.cpp\<close>), the laser's state, and the
  names the log uses.  What the laser publishes is a parameter.
\<close>

section \<open>The laser\<close>

record laser_state =
  laser_available :: bool
  laser_mode :: bool
  laser_firing :: bool
  laser_testing :: bool
  laser_power :: real
  laser_scale :: real

type_synonym ('h, 'w, 'k) laser_source = "('h, 'w, 'k) simulation \<Rightarrow> (bool \<times> bool \<times> bool \<times> real \<times> real) option"

definition no_laser :: laser_state where
  "no_laser = \<lparr>laser_available = False, laser_mode = False, laser_firing = False, laser_testing = False, laser_power = 0, laser_scale = 0\<rparr>"

definition laser_state_of :: "('h, 'w, 'k) firmware \<Rightarrow> ('h, 'w, 'k) laser_source \<Rightarrow> ('h, 'w, 'k) simulation \<Rightarrow>
    laser_state \<times> ('h, 'w, 'k) simulation" where
  "laser_state_of fw laser s =
     (let s = session_boot fw s
      in (case laser s of
            None \<Rightarrow> no_laser
          | Some (mode, firing, testing, pwr, scl) \<Rightarrow>
              \<lparr>laser_available = True, laser_mode = mode, laser_firing = firing, laser_testing = testing,
               laser_power = pwr, laser_scale = scl\<rparr>, s))"

section \<open>The snapshot\<close>

record pb_front_panel =
  pf_main_button :: bool
  pf_e_stop :: bool
  pf_v12 :: bool
  pf_v24 :: bool
  pf_rgb_available :: bool
  pf_rgb :: "u32 \<times> u32 \<times> u32"
  pf_strip_available :: bool
  pf_strip :: "(u32 \<times> u32 \<times> u32) list"

record io_snapshot =
  io_probe :: bool
  io_tool_setter :: bool
  io_cover_open :: bool
  io_front_panel :: pb_front_panel
  io_motor_alarms :: "(int \<times> bool) list"
  io_spindle_alarm :: "bool \<times> bool"
  io_switches :: "(int \<times> switch_state) list"
  io_laser :: laser_state
  io_pwm :: "(pin_address \<times> pwm_pin) list"

definition lamp :: "bool \<Rightarrow> u32" where
  "lamp on = (if on then 255 else 0)"

definition fill_front_panel :: "front_panel \<Rightarrow> pb_front_panel" where
  "fill_front_panel p = \<lparr>pf_main_button = main_button_pressed p, pf_e_stop = e_stop_pressed p, pf_v12 = fst (panel_rails p),
     pf_v24 = snd (panel_rails p), pf_rgb_available = rgb_available p,
     pf_rgb = (lamp (rgb_red p), lamp (rgb_green p), lamp (rgb_blue p)), pf_strip_available = led_strip_available p,
     pf_strip = map (\<lambda>c. (ucast (red c), ucast (green c), ucast (blue c))) (led_segments p)\<rparr>"

definition snapshot_axes_asked :: "int list" where
  "snapshot_axes_asked = [1, 2, 3, 4, 5]"

definition snapshot_switches_asked :: "int list" where
  "snapshot_switches_asked = [1, 2, 3, 4, 5, 6, 7, 8]"

definition snapshot_pwm_pins :: "pin_address list" where
  "snapshot_pwm_pins = map (\<lambda>n. \<lparr>pin_port = 2, pin_number = n\<rparr>) [5, 4, 3, 2, 1, 0]"

fun read_alarms :: "('h, 'w, 'k) firmware \<Rightarrow> int list \<Rightarrow> ('h, 'w, 'k) simulation \<Rightarrow> (int \<times> bool) list \<times> ('h, 'w, 'k) simulation" where
  "read_alarms fw [] s = ([], s)"
| "read_alarms fw (axis # axes) s = (case api_axis_index axis of
     None \<Rightarrow> read_alarms fw axes s
   | Some a \<Rightarrow> (let (triggered, s) = motor_alarm fw a s; (rest, s) = read_alarms fw axes s in ((axis, triggered) # rest, s)))"

fun read_switches :: "('h, 'w, 'k) firmware \<Rightarrow> int list \<Rightarrow> ('h, 'w, 'k) simulation \<Rightarrow> (int \<times> switch_state) list \<times> ('h, 'w, 'k) simulation" where
  "read_switches fw [] s = ([], s)"
| "read_switches fw (name # names) s = (case api_machine_switch name of
     None \<Rightarrow> read_switches fw names s
   | Some sw \<Rightarrow> (let (st, s) = switch_state_of fw sw s; (rest, s) = read_switches fw names s in ((name, st) # rest, s)))"

fun read_pwm_outputs :: "pin_address list \<Rightarrow> ('h, 'w) machine \<Rightarrow> (pin_address \<times> pwm_pin) list option" where
  "read_pwm_outputs [] m = Some []"
| "read_pwm_outputs (p # ps) m = (case pwm_output p m of
     None \<Rightarrow> None | Some st \<Rightarrow> map_option (Cons (p, st)) (read_pwm_outputs ps m))"

definition fill_physical_io_snapshot :: "('h, 'w, 'k) firmware \<Rightarrow> ('h, 'w, 'k) laser_source \<Rightarrow> ('h, 'w, 'k) simulation \<Rightarrow>
    (io_snapshot \<times> ('h, 'w, 'k) simulation) option" where
  "fill_physical_io_snapshot fw laser s = do {
     ((probe, setter), s) \<leftarrow> probe_inputs fw s;
     let (opened, s) = cover_open fw s;
     (panel, s) \<leftarrow> front_panel_state fw s;
     let (alarms, s) = read_alarms fw snapshot_axes_asked s;
     let (spindle, s) = spindle_alarm fw s;
     let (switches, s) = read_switches fw snapshot_switches_asked s;
     let (beam, s) = laser_state_of fw laser s;
     pwm \<leftarrow> read_pwm_outputs snapshot_pwm_pins (machine s);
     Some (\<lparr>io_probe = probe, io_tool_setter = setter, io_cover_open = opened, io_front_panel = fill_front_panel panel,
            io_motor_alarms = alarms, io_spindle_alarm = (spindle \<noteq> None, spindle = Some True), io_switches = switches,
            io_laser = beam, io_pwm = pwm\<rparr>, s) }"

definition fill_physical_io_snapshot_nonblocking :: "('h, 'w, 'k) firmware \<Rightarrow> ('h, 'w, 'k) laser_source \<Rightarrow> ('h, 'w, 'k) simulation \<Rightarrow>
    (io_snapshot option \<times> ('h, 'w, 'k) simulation) option" where
  "fill_physical_io_snapshot_nonblocking fw laser s =
     (if \<not> fw_booted fw (kernel s) then Some (None, s)
      else map_option (\<lambda>(sn, s). (Some sn, s)) (fill_physical_io_snapshot fw laser s))"

section \<open>Names in the log\<close>

definition bool_text :: "bool \<Rightarrow> string" where
  "bool_text v = (if v then ''on'' else ''off'')"

definition switch_name :: "int \<Rightarrow> string" where
  "switch_name n = (if 1 \<le> n \<and> n \<le> 8
     then [''light'', ''vacuum'', ''spindle_fan'', ''power_fan'', ''tool_sensor'', ''probe_charger'', ''air'', ''beep''] ! nat (n - 1)
     else ''unknown'')"

definition temperature_sensor_name :: "int \<Rightarrow> string" where
  "temperature_sensor_name n = (if n = 1 then ''spindle'' else if n = 2 then ''power'' else ''unknown'')"

definition machine_model_name :: "machine_model \<Rightarrow> string" where
  "machine_model_name m = (case m of CarveraC1 \<Rightarrow> ''C1'' | CarveraAirCA1 \<Rightarrow> ''CA1'' | MakeraZ1 \<Rightarrow> ''Z1'' | MakeraZ1Pro \<Rightarrow> ''Z1 Pro'')"

lemma switch_names: "switch_name n = ''unknown'' \<longleftrightarrow> api_machine_switch n = None"
proof (cases "1 \<le> n \<and> n \<le> 8")
  case True
  then have "n \<in> {1, 2, 3, 4, 5, 6, 7, 8}" by auto
  then show ?thesis by (auto simp: switch_name_def api_machine_switch_def)
qed (auto simp: switch_name_def api_machine_switch_def)

section \<open>Looking changes nothing\<close>

lemma session_boot_booted [simp]: "fw_booted fw (kernel s) \<Longrightarrow> session_boot fw s = s"
  by (simp add: session_boot_def)

lemma read_alarms_booted:
  "fw_booted fw (kernel s) \<Longrightarrow> read_alarms fw axes s =
     (concat (map (\<lambda>axis. case api_axis_index axis of None \<Rightarrow> [] | Some a \<Rightarrow> [(axis, fst (motor_alarm fw a s))]) axes), s)"
  by (induction axes) (auto simp: Let_def motor_alarm_def split: option.split)

lemma read_switches_booted:
  "fw_booted fw (kernel s) \<Longrightarrow> read_switches fw names s =
     (concat (map (\<lambda>n. case api_machine_switch n of None \<Rightarrow> [] | Some sw \<Rightarrow> [(n, fst (switch_state_of fw sw s))]) names), s)"
  by (induction names) (auto simp: Let_def switch_state_of_def split: option.split)

lemma board_pin_level:
  assumes "machine_wf m" "unat (pin_port p) < 5" "unat (pin_number p) < 32"
  shows "\<exists>b. machine_level p m = Some b"
proof -
  have "valid_pin (m_mcu m) p" using assms by (simp add: valid_pin_def machine_wf_def)
  then show ?thesis by (rule machine_level_total)
qed


lemma snapshot_pwm_total:
  assumes "machine_wf m"
  shows "read_pwm_outputs snapshot_pwm_pins m =
    Some (map (\<lambda>p. (p, m_pwm m ! port_pin p)) snapshot_pwm_pins)"
  using assms by (simp add: snapshot_pwm_pins_def pwm_output_def pwm_state_def port_pin_def machine_wf_def)

lemma board_pins_exist:
  assumes "machine_wf m"
  shows "\<exists>b. machine_level (signal_pin (physical_probe (board_profile_of model))) m = Some b"
    "\<exists>b. machine_level (signal_pin (physical_tool_setter (board_profile_of model))) m = Some b"
    "\<exists>rails. power_rails m = Some rails"
proof -
  have pin: "\<exists>b. machine_level \<lparr>pin_port = p, pin_number = n\<rparr> m = Some b" if "unat p < 5" "unat n < 32" for p n
    using board_pin_level [OF assms, of "\<lparr>pin_port = p, pin_number = n\<rparr>"] that by simp
  have "unat (pin_port (signal_pin (physical_probe (board_profile_of model)))) < 5"
    "unat (pin_number (signal_pin (physical_probe (board_profile_of model)))) < 32"
    "unat (pin_port (signal_pin (physical_tool_setter (board_profile_of model)))) < 5"
    "unat (pin_number (signal_pin (physical_tool_setter (board_profile_of model)))) < 32"
    by (cases model; simp add: board_profile_of_def profile_defs)+
  then show "\<exists>b. machine_level (signal_pin (physical_probe (board_profile_of model))) m = Some b"
    "\<exists>b. machine_level (signal_pin (physical_tool_setter (board_profile_of model))) m = Some b"
    using board_pin_level [OF assms] by blast+
  show "\<exists>rails. power_rails m = Some rails"
    using pin [of 0 22] pin [of 0 10] by (auto simp: power_rails_def)
qed


lemma api_boot_state_same [simp]: "api_boot_state a (api_sim a) = a"
  by (simp add: api_boot_state_def)

lemma front_panel_total:
  assumes "fw_booted fw (kernel s)" "machine_wf (machine s)"
  shows "\<exists>panel. front_panel_state fw s = Some (panel, s)"
proof -
  obtain rails where "power_rails (machine s) = Some rails" using board_pins_exist(3) [OF assms(2)] by blast
  then show ?thesis using assms(1) by (simp add: front_panel_state_def Let_def split: prod.split)
qed

lemma probe_inputs_total:
  assumes "fw_booted fw (kernel s)" "machine_wf (machine s)"
  shows "\<exists>pr st. probe_inputs fw s = Some ((pr, st), s)"
proof -
  obtain a b where "machine_level (signal_pin (physical_probe (board_profile_of (fw_model fw (kernel s))))) (machine s) = Some a"
    "machine_level (signal_pin (physical_tool_setter (board_profile_of (fw_model fw (kernel s))))) (machine s) = Some b"
    using board_pins_exist(1,2) [OF assms(2), of "fw_model fw (kernel s)"] by blast
  then show ?thesis using assms(1) by (simp add: probe_inputs_def Let_def)
qed

text \<open>Reading a booted simulation gives the simulation back.\<close>

lemma readings_booted:
  assumes "fw_booted fw (kernel s)"
  shows "snd (cover_open fw s) = s" "snd (spindle_alarm fw s) = s" "snd (motor_alarm fw j s) = s"
    "snd (switch_state_of fw sw s) = s" "snd (laser_state_of fw laser s) = s"
    "snd (read_alarms fw axes s) = s" "snd (read_switches fw names s) = s"
  using assms by (simp_all add: cover_open_def spindle_alarm_def motor_alarm_def switch_state_of_def laser_state_of_def
      read_alarms_booted read_switches_booted Let_def)

text \<open>What the streamed snapshot has to agree with: the answers of the commands that ask for one reading.\<close>

definition agrees_with_commands :: "('h, 'w, 'k) firmware \<Rightarrow> u64 \<Rightarrow> io_snapshot \<Rightarrow> ('h, 'w, 'k) api \<Rightarrow> bool" where
  "agrees_with_commands fw i sn a =
     (let ask = \<lambda>c. handle_physical_command fw True i c a
      in ask Get_Probe_Inputs = reply (ok_with i (Probe_Inputs (io_probe sn) (io_tool_setter sn))) a \<and>
         ask Get_Cover_Open = reply (ok_with i (Cover_State (io_cover_open sn))) a \<and>
         (\<exists>panel. ask Get_Front_Panel_State = reply (ok_with i (Front_Panel_State panel)) a \<and>
            io_front_panel sn = fill_front_panel panel) \<and>
         ask Get_Spindle_Alarm = reply (ok_with i (Spindle_Alarm_State (fst (io_spindle_alarm sn)) (snd (io_spindle_alarm sn)))) a \<and>
         map fst (io_motor_alarms sn) = snapshot_axes_asked \<and>
         (\<forall>(axis, triggered) \<in> set (io_motor_alarms sn).
            ask (Get_Motor_Alarm axis) = reply (ok_with i (Motor_Alarm_State axis triggered)) a) \<and>
         map fst (io_switches sn) = snapshot_switches_asked \<and>
         (\<forall>(name, st) \<in> set (io_switches sn).
            ask (Get_Switch_State name) = reply (ok_with i (Switch_State name st)) a))"

definition snapshot_of :: "('h, 'w, 'k) firmware \<Rightarrow> ('h, 'w, 'k) laser_source \<Rightarrow> bool \<Rightarrow> bool \<Rightarrow> front_panel \<Rightarrow>
    ('h, 'w, 'k) simulation \<Rightarrow> io_snapshot \<times> ('h, 'w, 'k) simulation" where
  "snapshot_of fw laser pr st panel s =
    (\<lparr>io_probe = pr, io_tool_setter = st, io_cover_open = fst (cover_open fw s), io_front_panel = fill_front_panel panel,
      io_motor_alarms = fst (read_alarms fw snapshot_axes_asked s),
      io_spindle_alarm = (fst (spindle_alarm fw s) \<noteq> None, fst (spindle_alarm fw s) = Some True),
      io_switches = fst (read_switches fw snapshot_switches_asked s), io_laser = fst (laser_state_of fw laser s),
      io_pwm = map (\<lambda>p. (p, m_pwm (machine s) ! port_pin p)) snapshot_pwm_pins\<rparr>, s)"

lemma snapshot_of_booted:
  assumes "fw_booted fw (kernel s)" "machine_wf (machine s)"
    "probe_inputs fw s = Some ((pr, st), s)" "front_panel_state fw s = Some (panel, s)"
  shows "fill_physical_io_snapshot fw laser s = Some (snapshot_of fw laser pr st panel s)"
  by (simp add: fill_physical_io_snapshot_def snapshot_of_def Let_def case_prod_unfold readings_booted assms snapshot_pwm_total)

lemma alarms_asked:
  assumes "fw_booted fw (kernel (api_sim a))"
  shows "map fst (fst (read_alarms fw snapshot_axes_asked (api_sim a))) = snapshot_axes_asked"
    "\<forall>(axis, triggered) \<in> set (fst (read_alarms fw snapshot_axes_asked (api_sim a))).
      handle_physical_command fw pump i (Get_Motor_Alarm axis) a = reply (ok_with i (Motor_Alarm_State axis triggered)) a"
  unfolding read_alarms_booted [OF assms] fst_conv
   apply (simp add: snapshot_axes_asked_def api_axis_index_def)
  by (auto simp: handle_physical_command_def Let_def case_prod_unfold readings_booted assms split: option.splits)

lemma switches_asked:
  assumes "fw_booted fw (kernel (api_sim a))"
  shows "map fst (fst (read_switches fw snapshot_switches_asked (api_sim a))) = snapshot_switches_asked"
    "\<forall>(name, st) \<in> set (fst (read_switches fw snapshot_switches_asked (api_sim a))).
      handle_physical_command fw pump i (Get_Switch_State name) a = reply (ok_with i (Switch_State name st)) a"
  unfolding read_switches_booted [OF assms] fst_conv
   apply (simp add: snapshot_switches_asked_def api_machine_switch_def)
  by (auto simp: handle_physical_command_def Let_def case_prod_unfold readings_booted assms split: option.splits)



text \<open>While the firmware is not booted, the streaming snapshot is refused and nothing is booted for it.\<close>

lemma unbooted_snapshot:
  "\<not> fw_booted fw (kernel s) \<Longrightarrow> fill_physical_io_snapshot_nonblocking fw laser s = Some (None, s)"
  by (simp add: fill_physical_io_snapshot_nonblocking_def)

end
