(* ===== verification/Button_Led.thy ===== *)
theory Button_Led
  imports Physical_Io
begin

text \<open>
  The LED strip of the main button as the firmware drives it (\<^verbatim>\<open>src/firmware/main_button_led_stub.cpp\<close>): one
  color for all LEDs, or a number of them lit, in a row or every other one.
\<close>

definition led_count :: nat where "led_count = 5"

definition write_colors :: "rgb_color list \<Rightarrow> ('h, 'w) machine \<Rightarrow> ('h, 'w) machine" where
  "write_colors colors m = m\<lparr>m_led := set_strip colors (m_led m)\<rparr>"

definition set_all :: "rgb_color \<Rightarrow> ('h, 'w) machine \<Rightarrow> ('h, 'w) machine" where
  "set_all color m = write_colors (replicate led_count color) m"

definition set_number :: "rgb_color \<Rightarrow> rgb_color \<Rightarrow> u8 \<Rightarrow> bool \<Rightarrow> ('h, 'w) machine \<Rightarrow> ('h, 'w) machine" where
  "set_number front back number row m =
     (let maximum = (if row then 5 else 3)
      in if number = 0 \<or> number > maximum then m
         else write_colors (map (\<lambda>index. if (if row then index < unat number else index mod 2 = 0 \<and> index div 2 < unat number)
                                        then front else back) [0..<led_count]) m)"

text \<open>A number the strip can show lights exactly that many LEDs, and any other number leaves the strip as it is.\<close>

lemma set_number_lights:
  assumes "front \<noteq> back" "number \<noteq> 0" "number \<le> (if row then 5 else 3)"
  shows "length (filter (\<lambda>c. c = front) (current_strip (m_led (set_number front back number row m)))) = unat number"
    and "length (current_strip (m_led (set_number front back number row m))) = 5"
proof -
  have n: "Suc 0 \<le> unat number" "unat number \<le> (if row then 5 else 3)"
    using assms(2,3) by (auto simp: word_le_nat_alt Suc_le_eq unat_gt_0)
  then have "unat number \<in> set [1..<if row then 6 else 4]" by auto
  then have "unat number = 1 \<or> unat number = 2 \<or> unat number = 3 \<or> (row \<and> (unat number = 4 \<or> unat number = 5))"
    by (cases row) (simp_all add: upt_rec eval_nat_numeral del: set_upt)
  then show "length (filter (\<lambda>c. c = front) (current_strip (m_led (set_number front back number row m)))) = unat number"
    using assms n by (elim disjE conjE) (auto simp: set_number_def write_colors_def set_strip_def led_count_def upt_rec word_less_nat_alt word_le_nat_alt)
  show "length (current_strip (m_led (set_number front back number row m))) = 5"
    using assms by (cases row) (auto simp: set_number_def write_colors_def set_strip_def led_count_def Let_def)
qed

text \<open>The front panel of a CA1 shows the strip the firmware wrote, and the snapshot sends it in its range of a byte.\<close>

lemma panel_shows_strip:
  assumes "fw_booted fw (kernel s)" "fw_model fw (kernel s) = CarveraAirCA1"
    "front_panel_state fw (s\<lparr>machine := set_all color m\<rparr>) = Some (panel, s')"
  shows "pf_strip_available (fill_front_panel panel) \<and>
    pf_strip (fill_front_panel panel) = replicate 5 (ucast (red color), ucast (green color), ucast (blue color))"
  using assms by (auto simp: front_panel_state_def Let_def fill_front_panel_def set_all_def write_colors_def set_strip_def led_count_def
      split: prod.splits option.splits)

text \<open>A number the strip cannot show leaves the machine as it is.\<close>

lemma set_number_out_of_range: "number = 0 \<or> number > (if row then 5 else 3) \<Longrightarrow> set_number front back number row m = m"
  by (auto simp: set_number_def)

end
