(* ===== verification/Simulator_Lifetime.thy ===== *)
theory Simulator_Lifetime
  imports Machine_Simulator Realtime_Clock Step_Laws
begin

text \<open>
  The active simulator of the process (\<^verbatim>\<open>src/compat/active_context.cpp\<close>) and the constructor and destructor of
  \<^verbatim>\<open>MachineSimulator\<close> (\<^verbatim>\<open>src/core/machine_simulator.cpp\<close>), which remember the simulator that was active before
  and put it back.  A context is named by a number, a null pointer is \<open>None\<close>.  The delay callbacks
  of \<^verbatim>\<open>src/core/delay_hooks.cpp\<close> are saved in the same way.
\<close>

section \<open>Slots that a scope saves and restores\<close>

text \<open>Scopes that open and close inside each other, each with the value it puts into the slot.\<close>

datatype 'v scope = Scope 'v "'v scope list"

text \<open>
  A run of nested scopes: at the start of a scope and after each scope inside it, the value the scope put
  into the slot and the one that is seen there.
\<close>

fun watch_scope :: "('v \<Rightarrow> 's \<Rightarrow> 'p \<times> 's) \<Rightarrow> ('p \<Rightarrow> 's \<Rightarrow> 's) \<Rightarrow> ('s \<Rightarrow> 'v) \<Rightarrow> 'v scope \<Rightarrow> 's \<Rightarrow> ('v \<times> 'v) list \<times> 's"
and watch_scopes :: "('v \<Rightarrow> 's \<Rightarrow> 'p \<times> 's) \<Rightarrow> ('p \<Rightarrow> 's \<Rightarrow> 's) \<Rightarrow> ('s \<Rightarrow> 'v) \<Rightarrow> 'v \<Rightarrow> 'v scope list \<Rightarrow> 's \<Rightarrow> ('v \<times> 'v) list \<times> 's" where
  "watch_scope enter leave look (Scope v body) s =
     (let (saved, s) = enter v s; (seen, s) = watch_scopes enter leave look v body s in (seen, leave saved s))"
| "watch_scopes enter leave look v [] s = ([(v, look s)], s)"
| "watch_scopes enter leave look v (b # bs) s =
     (let (inner, t) = watch_scope enter leave look b s; (outer, u) = watch_scopes enter leave look v bs t
      in ((v, look s) # inner @ outer, u))"

locale saved_slot =
  fixes enter :: "'v \<Rightarrow> 's \<Rightarrow> 'p \<times> 's" and leave :: "'p \<Rightarrow> 's \<Rightarrow> 's" and look :: "'s \<Rightarrow> 'v"
  assumes look_enter: "look (snd (enter v s)) = v"
    and look_leave: "look (leave (fst (enter v s)) t) = look s"
begin

definition steady :: "'v scope \<Rightarrow> bool" where
  "steady b \<longleftrightarrow> (\<forall>s. look (snd (watch_scope enter leave look b s)) = look s \<and>
     (\<forall>(x, y) \<in> set (fst (watch_scope enter leave look b s)). x = y))"

lemma steady_body:
  assumes "\<And>b. b \<in> set bs \<Longrightarrow> steady b" "look s = v"
  shows "look (snd (watch_scopes enter leave look v bs s)) = v \<and>
     (\<forall>(x, y) \<in> set (fst (watch_scopes enter leave look v bs s)). x = y)"
  using assms
proof (induction bs arbitrary: s)
  case (Cons b bs)
  have "look (snd (watch_scope enter leave look b s)) = v" "\<forall>(x, y) \<in> set (fst (watch_scope enter leave look b s)). x = y"
    using Cons.prems(1) [of b] Cons.prems(2) unfolding steady_def by auto
  moreover from this(1) have "look (snd (watch_scopes enter leave look v bs (snd (watch_scope enter leave look b s)))) = v \<and>
     (\<forall>(x, y) \<in> set (fst (watch_scopes enter leave look v bs (snd (watch_scope enter leave look b s)))). x = y)"
    using Cons.IH Cons.prems(1) by simp
  ultimately show ?case using Cons.prems(2) by (auto simp: Let_def case_prod_unfold)
qed simp

lemma every_scope_steady: "steady b"
proof (induction b)
  case (Scope v bs)
  show ?case
    unfolding steady_def
    using steady_body [OF Scope, where v = v] look_enter look_leave by (auto simp: Let_def case_prod_unfold)
qed

text \<open>However scopes are nested, code sees the value of the innermost scope it is in, and afterwards the slot is as before.\<close>

lemma nested_scopes:
  "look (snd (watch_scope enter leave look b s)) = look s"
  "(x, y) \<in> set (fst (watch_scope enter leave look b s)) \<Longrightarrow> x = y"
  using every_scope_steady [of b] unfolding steady_def by auto

end

text \<open>The delay callback of a thread is such a slot.\<close>

interpretation delay_callback: saved_slot hook_enter hook_leave "\<lambda>active. active"
  by unfold_locales (simp_all add: hook_enter_def hook_leave_def)

section \<open>The active context\<close>

datatype context_error = No_Active_Simulator

definition active_context :: "nat option \<Rightarrow> context_error + nat" where
  "active_context current = (case current of None \<Rightarrow> Inl No_Active_Simulator | Some c \<Rightarrow> Inr c)"

definition set_active_context :: "nat option \<Rightarrow> nat option \<Rightarrow> nat option \<times> nat option" where
  "set_active_context c current = (current, c)"

text \<open>The simulators that live, the newest first, each with the context that was active before it.\<close>

record lifetimes =
  current_context :: "nat option"
  simulators :: "(nat \<times> nat option) list"

definition no_simulators :: lifetimes where
  "no_simulators = \<lparr>current_context = None, simulators = []\<rparr>"

definition construct_simulator :: "nat \<Rightarrow> lifetimes \<Rightarrow> lifetimes" where
  "construct_simulator i s = (let (previous, c) = set_active_context (Some i) (current_context s)
     in \<lparr>current_context = c, simulators = (i, previous) # simulators s\<rparr>)"

definition destroy_simulator :: "nat \<Rightarrow> lifetimes \<Rightarrow> lifetimes" where
  "destroy_simulator i s = (case map_of (simulators s) i of
     None \<Rightarrow> s
   | Some previous \<Rightarrow> \<lparr>current_context = snd (set_active_context previous (current_context s)),
                       simulators = filter (\<lambda>(j, _). j \<noteq> i) (simulators s)\<rparr>)"

definition alive :: "nat \<Rightarrow> lifetimes \<Rightarrow> bool" where
  "alive i s \<longleftrightarrow> i \<in> fst ` set (simulators s)"

text \<open>The scope of a simulator as a local variable: its constructor and its destructor.\<close>

definition enter_simulator :: "nat option \<Rightarrow> lifetimes \<Rightarrow> nat option \<times> lifetimes" where
  "enter_simulator c s = (let (previous, new) = set_active_context c (current_context s) in (previous, s\<lparr>current_context := new\<rparr>))"

definition leave_simulator :: "nat option \<Rightarrow> lifetimes \<Rightarrow> lifetimes" where
  "leave_simulator previous s = s\<lparr>current_context := snd (set_active_context previous (current_context s))\<rparr>"

interpretation active_simulator: saved_slot enter_simulator leave_simulator current_context
  by unfold_locales (simp_all add: enter_simulator_def leave_simulator_def set_active_context_def)

section \<open>Lifetimes in any order\<close>

inductive lifetime_step :: "lifetimes \<Rightarrow> lifetimes \<Rightarrow> bool" where
  construct: "\<not> alive i s \<Longrightarrow> lifetime_step s (construct_simulator i s)"
| destroy: "alive i s \<Longrightarrow> lifetime_step s (destroy_simulator i s)"

text \<open>Simulators that are members or local variables die in the reverse order of their construction.\<close>

inductive nested_step :: "lifetimes \<Rightarrow> lifetimes \<Rightarrow> bool" where
  construct: "\<not> alive i s \<Longrightarrow> nested_step s (construct_simulator i s)"
| destroy_newest: "simulators s = (i, previous) # older \<Longrightarrow> nested_step s (destroy_simulator i s)"

inductive_cases nested_stepE: "nested_step s t"

inductive_simps lifetime_step_simps: "lifetime_step s t"

fun chained :: "(nat \<times> nat option) list \<Rightarrow> bool" where
  "chained [] = True"
| "chained ((i, previous) # older) =
     (i \<notin> fst ` set older \<and> previous = (case older of [] \<Rightarrow> None | (j, _) # _ \<Rightarrow> Some j) \<and> chained older)"

definition newest :: "(nat \<times> nat option) list \<Rightarrow> nat option" where
  "newest sims = (case sims of [] \<Rightarrow> None | (j, _) # _ \<Rightarrow> Some j)"

definition lifetimes_ok :: "lifetimes \<Rightarrow> bool" where
  "lifetimes_ok s \<longleftrightarrow> chained (simulators s) \<and> current_context s = newest (simulators s)"

lemma nested_step_is_step: "nested_step s t \<Longrightarrow> lifetime_step s t"
  by (erule nested_stepE) (auto intro!: lifetime_step.intros simp: alive_def)

lemma nested_step_ok: "nested_step s t \<Longrightarrow> lifetimes_ok s \<Longrightarrow> lifetimes_ok t"
proof (erule nested_stepE)
  fix i assume "lifetimes_ok s" "t = construct_simulator i s" "\<not> alive i s"
  then show "lifetimes_ok t"
    by (auto simp: lifetimes_ok_def construct_simulator_def set_active_context_def newest_def alive_def split: list.splits)
next
  fix i previous older
  assume ok: "lifetimes_ok s" and t: "t = destroy_simulator i s" and sims: "simulators s = (i, previous) # older"
  then have "filter (\<lambda>(j, _). j \<noteq> i) older = older"
    by (force simp: lifetimes_ok_def intro!: filter_True)
  with ok t sims show "lifetimes_ok t"
    by (auto simp: lifetimes_ok_def destroy_simulator_def set_active_context_def newest_def split: list.splits)
qed

interpretation lifetimes: step_relation nested_step lifetimes_ok
  by unfold_locales (rule nested_step_ok)

text \<open>
  C34: As long as simulators die in the reverse order of their birth, the active one is the youngest that
  lives, and there is none exactly when none lives: no call of the firmware reaches a destroyed simulator.
\<close>
theorem nested_simulators_safe:
  assumes "nested_step\<^sup>*\<^sup>* no_simulators s"
  shows "active_context (current_context s) = (case simulators s of [] \<Rightarrow> Inl No_Active_Simulator | (i, _) # _ \<Rightarrow> Inr i)"
proof -
  have "lifetimes_ok s"
    by (rule lifetimes.reachable [OF assms]) (simp add: lifetimes_ok_def no_simulators_def newest_def)
  then show ?thesis
    by (auto simp: lifetimes_ok_def newest_def active_context_def split: list.splits)
qed

theorem nested_simulators_safe_witness:
  "active_context (current_context (construct_simulator 2 (construct_simulator 1 no_simulators))) = Inr 2"
proof -
  have "nested_step\<^sup>*\<^sup>* no_simulators (construct_simulator 2 (construct_simulator 1 no_simulators))"
    by (rule rtranclp.rtrancl_into_rtrancl [OF r_into_rtranclp]; rule nested_step.construct)
       (simp_all add: alive_def no_simulators_def construct_simulator_def set_active_context_def)
  from nested_simulators_safe [OF this] show ?thesis
    by (simp add: construct_simulator_def no_simulators_def set_active_context_def)
qed

text \<open>
  In another order the destructor puts a dead simulator back: of two simulators the older one dies first,
  then the younger one, and the active context is the one that died first.
\<close>
theorem dead_simulator_becomes_active:
  "\<exists>s. lifetime_step\<^sup>*\<^sup>* no_simulators s \<and> simulators s = [] \<and> active_context (current_context s) = Inr 1"
proof (intro exI conjI)
  let ?a = "construct_simulator 1 no_simulators" let ?b = "construct_simulator 2 ?a" let ?c = "destroy_simulator 1 ?b"
  have "lifetime_step no_simulators ?a" "lifetime_step ?a ?b" "lifetime_step ?b ?c" "lifetime_step ?c (destroy_simulator 2 ?c)"
    by (rule lifetime_step.construct lifetime_step.destroy;
        simp add: alive_def no_simulators_def construct_simulator_def destroy_simulator_def set_active_context_def)+
  then show "lifetime_step\<^sup>*\<^sup>* no_simulators (destroy_simulator 2 ?c)" by (meson r_into_rtranclp rtranclp.rtrancl_into_rtrancl)
qed (simp_all add: no_simulators_def construct_simulator_def destroy_simulator_def set_active_context_def active_context_def)

section \<open>A simulator at its construction\<close>

text \<open>\<^verbatim>\<open>MachineSimulator::initialize\<close> on the machine: a reset of its context, and room temperature at its sensors.\<close>

definition initialize :: "('h, 'w) on_channel \<Rightarrow> ('h, 'w) on_global \<Rightarrow> ('h, 'w) machine \<Rightarrow> ('h, 'w) machine option" where
  "initialize oc og m = map_option (\<lambda>m. set_temperature oc og Power_Sensor 25 (set_temperature oc og Spindle_Sensor 25 m))
     (context_reset False m)"

lemma initialize_is_reset: "map_option (\<lambda>m. m\<lparr>rotary_installed := False\<rparr>) (initialize oc og m) = machine_reset oc og False m"
  by (cases "context_reset False m") (simp_all add: initialize_def machine_reset_def)

end
