(* ===== verification/Host_Hooks.thy ===== *)
theory Host_Hooks
  imports Firmware_Allocation
begin

text \<open>
  Where the host program meets the simulator: the replaced \<^verbatim>\<open>operator new\<close> and \<^verbatim>\<open>operator delete\<close> and the
  hooks at the start and end of a function (\<^verbatim>\<open>src/firmware/firmware_allocation_hooks.cpp\<close>), the
  names of functions with their cache (\<^verbatim>\<open>src/firmware/lpc_function_symbols.cpp\<close>) and the printable form of logged
  bytes (\<^verbatim>\<open>src/core/logging.cpp\<close>).  \<^verbatim>\<open>malloc\<close>, the dynamic linker, the demangler and the format of a pointer are
  parameters; the clock of the log is left out.
\<close>

section \<open>Allocation\<close>

datatype new_error = Bad_Alloc

type_synonym hooks_state = "firmware_call_stack \<times> memory_accounting option"

definition cyg_profile_func_enter :: "u64 \<Rightarrow> hooks_state \<Rightarrow> hooks_state" where
  "cyg_profile_func_enter f st = (enter_firmware_function f (fst st), snd st)"

definition cyg_profile_func_exit :: "hooks_state \<Rightarrow> hooks_state" where
  "cyg_profile_func_exit st = (exit_firmware_function (fst st), snd st)"

definition malloc_size :: "u64 \<Rightarrow> u64" where
  "malloc_size bytes = (if bytes = 0 then 1 else bytes)"

text \<open>The four forms of \<^verbatim>\<open>operator new\<close>: for one object or an array, and the ones that do not throw.\<close>

definition operator_new :: "abi \<Rightarrow> (u64 \<Rightarrow> u64) \<Rightarrow> bool \<Rightarrow> u64 \<Rightarrow> hooks_state \<Rightarrow> (new_error + u64) \<times> hooks_state" where
  "operator_new abi malloc arr bytes st =
     (let pointer = malloc (malloc_size bytes)
      in if pointer = 0 then (Inl Bad_Alloc, st)
         else (Inr pointer, (fst st, record_host_heap_allocation abi pointer bytes arr (fst st) (snd st))))"

definition operator_new_nothrow :: "abi \<Rightarrow> (u64 \<Rightarrow> u64) \<Rightarrow> bool \<Rightarrow> u64 \<Rightarrow> hooks_state \<Rightarrow> u64 \<times> hooks_state" where
  "operator_new_nothrow abi malloc arr bytes st =
     (let pointer = malloc (malloc_size bytes)
      in (pointer, (fst st, record_host_heap_allocation abi pointer bytes arr (fst st) (snd st))))"

text \<open>Every form of \<^verbatim>\<open>operator delete\<close>; the memory itself goes back to the host.\<close>

definition operator_delete :: "u64 \<Rightarrow> hooks_state \<Rightarrow> hooks_state" where
  "operator_delete pointer st = (fst st, snd (release_host_allocation pointer (fst st) (snd st)))"

lemma nothrow_agrees:
  "operator_new_nothrow abi malloc arr bytes st =
     (case operator_new abi malloc arr bytes st of (Inl Bad_Alloc, st) \<Rightarrow> (0, st) | (Inr p, st) \<Rightarrow> (p, st))"
  by (auto simp: operator_new_nothrow_def operator_new_def Let_def record_host_heap_allocation_def)

definition pointers :: "hooks_state \<Rightarrow> u64 set" where
  "pointers st = (case snd st of None \<Rightarrow> {} | Some a \<Rightarrow> fst ` set (allocations a))"

lemma record_heap_pointers:
  "fst ` set (allocations (snd (record_heap p host target ty exact s))) - {p} = fst ` set (allocations s) - {p}"
  by (auto simp: record_heap_def Let_def split: sum.splits prod.splits option.splits)

lemma acct_deallocate_pointers:
  assumes "p \<noteq> 0"
  shows "fst ` set (allocations (snd (acct_deallocate p s))) = fst ` set (allocations s) - {p}"
proof (cases "map_of (allocations s) p")
  case None
  moreover have "p \<notin> fst ` set (allocations s)" using None by (simp add: map_of_eq_None_iff)
  ultimately show ?thesis using assms by (simp add: acct_deallocate_def)
next
  case (Some al)
  then show ?thesis
    using assms by (simp add: acct_deallocate_def Let_def release_allocation_def) force
qed

text \<open>
  A pointer that was allocated and deleted is not tracked any more, whatever the call stack was in between, and the
  tracked pointers are the ones before; memory that never was accounted may be deleted.
\<close>
theorem delete_forgets_new:
  assumes "\<not> accounting_suppressed (fst st')" "operator_new abi malloc arr bytes st = (Inr p, st1)" "snd st' = snd st1"
  shows "pointers (operator_delete p st') = pointers st - {p}"
proof -
  have p: "p \<noteq> 0" "snd st1 = record_host_heap_allocation abi p bytes arr (fst st) (snd st)"
    using assms(2) by (auto simp: operator_new_def Let_def split: if_splits)
  show ?thesis
  proof (cases "snd st")
    case None
    then show ?thesis
      using assms p by (simp add: operator_delete_def pointers_def release_host_allocation_def record_host_heap_allocation_def)
  next
    case (Some a)
    then obtain b where b: "snd st1 = Some b" "fst ` set (allocations b) - {p} = fst ` set (allocations a) - {p}"
      using p record_heap_pointers by (auto simp: record_host_heap_allocation_def Let_def case_prod_unfold split: if_splits)
    then show ?thesis
      using assms p(1) Some acct_deallocate_pointers [OF p(1), of b]
      by (simp add: operator_delete_def pointers_def release_host_allocation_def case_prod_unfold Let_def)
  qed
qed

section \<open>Names of functions\<close>

text \<open>What \<^verbatim>\<open>dladdr\<close> finds: the symbol's name and its address; \<open>demangle_abi\<close> answers null for a name it does not know.\<close>

type_synonym symbol_table = "u64 \<Rightarrow> (string \<times> u64) option"

definition demangle :: "(string \<Rightarrow> string option) \<Rightarrow> string \<Rightarrow> string" where
  "demangle demangle_abi name = (case demangle_abi name of None \<Rightarrow> name | Some s \<Rightarrow> s)"

definition describe_uncached :: "(string \<Rightarrow> string option) \<Rightarrow> (u64 \<Rightarrow> string) \<Rightarrow> (u64 \<Rightarrow> string) \<Rightarrow> symbol_table \<Rightarrow> u64 \<Rightarrow> string" where
  "describe_uncached demangle_abi hex pointer_text syms f =
     (if f = 0 then ''unknown firmware function''
      else case syms f of
          Some (name, symbol) \<Rightarrow> demangle demangle_abi name @ (if f > symbol then ''+0x'' @ hex (f - symbol) else [])
        | None \<Rightarrow> pointer_text f)"

definition describe_firmware_function :: "(u64 \<Rightarrow> string) \<Rightarrow> u64 \<Rightarrow> (u64 \<rightharpoonup> string) \<Rightarrow> string \<times> (u64 \<rightharpoonup> string)" where
  "describe_firmware_function uncached f cache =
     (case cache f of
        Some description \<Rightarrow> (description, cache)
      | None \<Rightarrow> let description = uncached f in (description, cache(f \<mapsto> description)))"

definition cache_ok :: "(u64 \<Rightarrow> string) \<Rightarrow> (u64 \<rightharpoonup> string) \<Rightarrow> bool" where
  "cache_ok uncached cache \<longleftrightarrow> (\<forall>f d. cache f = Some d \<longrightarrow> d = uncached f)"

lemma describe_step:
  "cache_ok uncached cache \<Longrightarrow> fst (describe_firmware_function uncached f cache) = uncached f \<and>
     cache_ok uncached (snd (describe_firmware_function uncached f cache))"
  by (auto simp: describe_firmware_function_def cache_ok_def Let_def split: option.splits)

fun describe_all :: "(u64 \<Rightarrow> string) \<Rightarrow> u64 list \<Rightarrow> (u64 \<rightharpoonup> string) \<Rightarrow> string list" where
  "describe_all uncached [] cache = []"
| "describe_all uncached (f # fs) cache =
     (let (d, cache) = describe_firmware_function uncached f cache in d # describe_all uncached fs cache)"

text \<open>The cache is invisible: any number of questions is answered as if each was asked of the dynamic linker.\<close>

lemma cached_descriptions: "cache_ok uncached cache \<Longrightarrow> describe_all uncached fs cache = map uncached fs"
  using describe_step by (induction fs arbitrary: cache) (auto simp: Let_def case_prod_unfold)

section \<open>The log\<close>

definition max_logged_bytes :: nat where "max_logged_bytes = 512"

definition is_print :: "char \<Rightarrow> bool" where
  "is_print c \<longleftrightarrow> (32 :: nat) \<le> of_char c \<and> (of_char c :: nat) < 127"

definition hex_digit :: "nat \<Rightarrow> char" where
  "hex_digit n = ''0123456789abcdef'' ! n"

definition printable_byte :: "char \<Rightarrow> string" where
  "printable_byte c =
     (if c = CHR 0x0A then [CHR 0x5C, CHR ''n''] else if c = CHR 0x0D then [CHR 0x5C, CHR ''r''] else if c = CHR 0x09 then [CHR 0x5C, CHR ''t'']
      else if is_print c then [c]
      else [CHR 0x5C, CHR ''x'', hex_digit (of_char c div 16), hex_digit (of_char c mod 16)])"

definition printable_bytes :: "(nat \<Rightarrow> string) \<Rightarrow> string \<Rightarrow> string" where
  "printable_bytes dec bytes =
     concat (map printable_byte (take max_logged_bytes bytes)) @
     (if length bytes > max_logged_bytes then ''...('' @ dec (length bytes) @ '' bytes)'' else [])"

lemma hex_digit_print: "n < 16 \<Longrightarrow> is_print (hex_digit n)"
proof -
  assume "n < 16"
  moreover have "list_all is_print ''0123456789abcdef''" by code_simp
  ultimately show ?thesis by (simp add: hex_digit_def list_all_length del: list.pred_inject)
qed

lemma hex_of_char: "is_print (hex_digit (of_char c div 16))" "is_print (hex_digit (of_char c mod 16))"
proof -
  have "(of_char c :: nat) < 256" using nat_of_char_less_256 by simp
  then have "(of_char c :: nat) div 16 < 16" "(of_char c :: nat) mod 16 < 16"
    using less_mult_imp_div_less [of "of_char c" 16 16] by simp_all
  then show "is_print (hex_digit (of_char c div 16))" "is_print (hex_digit (of_char c mod 16))"
    using hex_digit_print by blast+
qed

lemma printable_byte_ok: "\<forall>d \<in> set (printable_byte c). is_print d" "length (printable_byte c) \<le> 4" "printable_byte c \<noteq> []"
  using hex_of_char [of c] by (auto simp: printable_byte_def) (simp_all add: is_print_def)

text \<open>What the log writes of bytes never contains a control character, and has a bounded length.\<close>

theorem logged_bytes_printable:
  assumes "\<And>n. \<forall>d \<in> set (dec n). is_print d"
  shows "\<forall>d \<in> set (printable_bytes dec bytes). is_print d"
    and "length bytes \<le> max_logged_bytes \<Longrightarrow> length (printable_bytes dec bytes) \<le> 4 * length bytes"
proof -
  show "\<forall>d \<in> set (printable_bytes dec bytes). is_print d"
    using assms printable_byte_ok(1) by (auto simp: printable_bytes_def) (auto simp: is_print_def)
  have "length (concat (map printable_byte xs)) \<le> 4 * length xs" for xs
    using printable_byte_ok(2) by (induction xs) (auto intro: add_mono)
  then show "length bytes \<le> max_logged_bytes \<Longrightarrow> length (printable_bytes dec bytes) \<le> 4 * length bytes"
    by (simp add: printable_bytes_def)
qed

text \<open>The log is not a faithful record: a line break and a backslash followed by an \<open>n\<close> are logged alike.\<close>

lemma logged_bytes_ambiguous: "printable_bytes dec [CHR 0x0A] = printable_bytes dec [CHR 0x5C, CHR ''n'']"
  by (simp add: printable_bytes_def printable_byte_def is_print_def max_logged_bytes_def)

end
