(* ===== verification/Firm_Config.thy ===== *)
theory Firm_Config
  imports Runtime_Controls
begin

text \<open>
  The default configuration that is linked into the simulator (\<^verbatim>\<open>src/firmware/firm_config_source.cpp\<close>): which
  text a machine has, how it is cut into lines, and how its values are found.  The texts are generated by the
  build, and parsing a line belongs to the firmware: both are parameters, as is the checksum of a name.
  A null pointer is \<open>None\<close>.
\<close>

section \<open>Which text\<close>

record config_texts =
  config_default :: string
  config2_default :: string
  config_z1_default :: string
  config_z1pro_default :: string

definition blob_for_machine_model :: "bool \<Rightarrow> config_texts \<Rightarrow> firmware_machine \<Rightarrow> string option" where
  "blob_for_machine_model enabled texts model =
     (if \<not> enabled then None
      else case model of
          CARVERA_AIR \<Rightarrow> Some (config2_default texts)
        | Z1 \<Rightarrow> Some (config_z1_default texts)
        | Z1PRO \<Rightarrow> Some (config_z1pro_default texts)
        | _ \<Rightarrow> Some (config_default texts))"

record firm_config_source =
  source_name :: u16
  source_text :: "string option"

definition new_firm_config_source :: "(string \<Rightarrow> u16) \<Rightarrow> bool \<Rightarrow> config_texts \<Rightarrow> firmware_machine \<Rightarrow> string \<Rightarrow> firm_config_source" where
  "new_firm_config_source checksum enabled texts model name =
     \<lparr>source_name = checksum name, source_text = blob_for_machine_model enabled texts model\<rparr>"

definition firm_config_source_of :: "(string \<Rightarrow> u16) \<Rightarrow> string \<Rightarrow> string option \<Rightarrow> firm_config_source" where
  "firm_config_source_of checksum name blob = \<lparr>source_name = checksum name, source_text = blob\<rparr>"

definition is_named :: "u16 \<Rightarrow> firm_config_source \<Rightarrow> bool" where
  "is_named chk src \<longleftrightarrow> chk = source_name src"

text \<open>A source that is linked in cannot be written.\<close>

definition write_source :: "string \<Rightarrow> string \<Rightarrow> firm_config_source \<Rightarrow> bool" where
  "write_source setting v src = False"

section \<open>The lines of a text\<close>

text \<open>The inner loop, from \<open>p\<close> to behind the next line break: the line, with its break, and the rest.\<close>

fun next_line :: "string \<Rightarrow> string \<times> string" where
  "next_line [] = ([], [])"
| "next_line (c # cs) = (if c = CHR 0x0A then ([c], cs) else let (line, rest) = next_line cs in (c # line, rest))"

lemma next_line_split: "fst (next_line s) @ snd (next_line s) = s"
  by (induction s) (auto simp: Let_def case_prod_unfold)

lemma next_line_shorter:
  assumes "(line, rest) = next_line (c # cs)"
  shows "length rest < length (c # cs)"
proof -
  have "fst (next_line (c # cs)) \<noteq> []" by (simp add: Let_def case_prod_unfold)
  then show ?thesis
    using next_line_split [of "c # cs"] assms by (metis append_eq_append_conv2 fst_conv length_append length_greater_0_conv less_add_same_cancel2 snd_conv)
qed

definition sd_ok_line :: string where "sd_ok_line = ''sd_ok true''"

text \<open>The outer loops: over what is left of the text.\<close>

function (sequential) transfer_loop :: "(string \<Rightarrow> 'c \<Rightarrow> 'c) \<Rightarrow> string \<Rightarrow> 'c \<Rightarrow> 'c" where
  "transfer_loop put [] cache = cache"
| "transfer_loop put (c # cs) cache = (let (line, rest) = next_line (c # cs) in transfer_loop put rest (put line cache))"
  by pat_completeness auto

termination transfer_loop
  by (relation "measure (\<lambda>(put, s, cache). length s)") (simp_all only: in_measure prod.case next_line_shorter wf_measure)

function (sequential) read_loop :: "(string \<Rightarrow> string) \<Rightarrow> string \<Rightarrow> string" where
  "read_loop get [] = get sd_ok_line"
| "read_loop get (c # cs) =
     (let (line, rest) = next_line (c # cs); v = get line in if v \<noteq> [] then v else read_loop get rest)"
  by pat_completeness auto

termination read_loop
  by (relation "measure (\<lambda>(get, s). length s)") (simp_all only: in_measure prod.case next_line_shorter wf_measure)

definition transfer_values_to_cache :: "(string \<Rightarrow> 'c \<Rightarrow> 'c) \<Rightarrow> firm_config_source \<Rightarrow> 'c \<Rightarrow> 'c" where
  "transfer_values_to_cache put src cache = (case source_text src of
     None \<Rightarrow> cache | Some text \<Rightarrow> put sd_ok_line (transfer_loop put text cache))"

definition read_value :: "(string \<Rightarrow> 'k \<Rightarrow> string) \<Rightarrow> firm_config_source \<Rightarrow> 'k \<Rightarrow> string" where
  "read_value get src chks = (case source_text src of
     None \<Rightarrow> [] | Some text \<Rightarrow> read_loop (\<lambda>line. get line chks) text)"

section \<open>The lines, as a list\<close>

function (sequential) text_lines :: "string \<Rightarrow> string list" where
  "text_lines [] = []"
| "text_lines (c # cs) = (let (line, rest) = next_line (c # cs) in line # text_lines rest)"
  by pat_completeness auto

termination text_lines
  by (relation "measure (length)") (simp_all only: in_measure prod.case next_line_shorter wf_measure)

text \<open>A division of a text into lines: only the end of a line is a line break, and only the last line may lack it.\<close>

fun lines_ok :: "string list \<Rightarrow> bool" where
  "lines_ok [] = True"
| "lines_ok (l # ls) = (l \<noteq> [] \<and> CHR 0x0A \<notin> set (butlast l) \<and> (ls \<noteq> [] \<longrightarrow> last l = CHR 0x0A) \<and> lines_ok ls)"

lemma next_line_ok:
  "s \<noteq> [] \<Longrightarrow> fst (next_line s) \<noteq> [] \<and> CHR 0x0A \<notin> set (butlast (fst (next_line s))) \<and>
     (snd (next_line s) \<noteq> [] \<longrightarrow> last (fst (next_line s)) = CHR 0x0A)"
proof (induction s)
  case (Cons c cs)
  then show ?case by (cases cs) (auto simp: Let_def case_prod_unfold)
qed simp

lemma text_lines_ok: "concat (text_lines s) = s \<and> lines_ok (text_lines s)"
proof (induction s rule: text_lines.induct)
  case (2 c cs)
  obtain line rest where l: "next_line (c # cs) = (line, rest)" by (cases "next_line (c # cs)")
  have "text_lines rest = [] \<longleftrightarrow> rest = []" by (cases rest) (auto simp: Let_def case_prod_unfold)
  with 2 [OF l [symmetric] refl] l next_line_ok [of "c # cs"] next_line_split [of "c # cs"] show ?case
    by (simp del: next_line.simps add: Let_def)
qed simp

lemma next_line_prefix:
  "l \<noteq> [] \<Longrightarrow> CHR 0x0A \<notin> set (butlast l) \<Longrightarrow> (rest = [] \<or> last l = CHR 0x0A) \<Longrightarrow> next_line (l @ rest) = (l, rest)"
proof (induction l)
  case (Cons c l)
  show ?case
  proof (cases l)
    case Nil
    then show ?thesis using Cons.prems by (cases rest) auto
  next
    case (Cons d ds)
    then show ?thesis using Cons.IH Cons.prems by (auto simp: Let_def)
  qed
qed simp

text \<open>The loops cut a text in the only way there is: every division into lines is the one they use.\<close>

lemma text_lines_unique: "lines_ok ls \<Longrightarrow> text_lines (concat ls) = ls"
proof (induction ls)
  case (Cons l ls)
  then have "next_line (l @ concat ls) = (l, concat ls)"
    by (intro next_line_prefix) (cases ls; simp)+
  moreover obtain c cs where "l @ concat ls = c # cs" using Cons.prems by (cases l) auto
  ultimately show ?case using Cons by simp
qed simp

lemma transfer_loop_lines: "transfer_loop put s cache = fold put (text_lines s) cache"
  by (induction s arbitrary: cache rule: text_lines.induct) (auto simp: Let_def case_prod_unfold)

lemma read_loop_lines:
  "read_loop get s = (case List.find (\<lambda>v. v \<noteq> []) (map get (text_lines s @ [sd_ok_line])) of Some v \<Rightarrow> v | None \<Rightarrow> [])"
  by (induction s rule: text_lines.induct) (auto simp: Let_def case_prod_unfold)

section \<open>Reading agrees with the cache\<close>

text \<open>
  A value is found in two ways: line by line, or in the cache that all lines were put into.  The first takes the
  first line that has the setting, the second keeps the last: they agree as long as no setting occurs twice.
  \<open>parse\<close> is what the firmware finds in a line, a setting and a value that is not empty.
\<close>

definition settings_of :: "(string \<Rightarrow> ('k \<times> string) option) \<Rightarrow> string list \<Rightarrow> ('k \<times> string) list" where
  "settings_of parse lines = List.map_filter parse lines"

lemma settings_of_simps [simp]:
  "settings_of parse [] = []"
  "settings_of parse (l # ls) = (case parse l of None \<Rightarrow> settings_of parse ls | Some kv \<Rightarrow> kv # settings_of parse ls)"
  by (simp_all add: settings_of_def map_filter_simps split: option.split)

lemma cached_settings:
  assumes "\<And>line c. put line c = (case parse line of None \<Rightarrow> c | Some (k, v) \<Rightarrow> c(k \<mapsto> v))"
  shows "fold put ls c = c ++ map_of (rev (settings_of parse ls))"
  by (induction ls arbitrary: c) (auto simp: assms split: option.splits)

lemma first_setting:
  assumes "\<And>line. get line = (case parse line of Some (k', v) \<Rightarrow> if k' = k then v else [] | None \<Rightarrow> [])"
    and "\<And>line k v. parse line = Some (k, v) \<Longrightarrow> v \<noteq> []"
  shows "(case List.find (\<lambda>v. v \<noteq> []) (map get ls) of Some v \<Rightarrow> v | None \<Rightarrow> []) =
    (case map_of (settings_of parse ls) k of Some v \<Rightarrow> v | None \<Rightarrow> [])"
proof (induction ls)
  case (Cons l ls)
  show ?case
  proof (cases "parse l")
    case None
    then show ?thesis using Cons by (simp add: assms(1))
  next
    case (Some kv)
    then show ?thesis using Cons assms(2) [of l "fst kv" "snd kv"] by (cases kv) (simp add: assms(1))
  qed
qed simp

lemma map_of_rev_distinct: "distinct (map fst xs) \<Longrightarrow> map_of (rev xs) = map_of xs"
  by (simp add: map_of_inject_set rev_map [symmetric])

theorem reading_agrees_with_cache:
  assumes put: "\<And>line c. put line c = (case parse line of None \<Rightarrow> c | Some (k, v) \<Rightarrow> c(k \<mapsto> v))"
    and get: "\<And>line k. get line k = (case parse line of Some (k', v) \<Rightarrow> if k' = k then v else [] | None \<Rightarrow> [])"
    and vals: "\<And>line k v. parse line = Some (k, v) \<Longrightarrow> v \<noteq> []"
    and src: "source_text src = Some blob" and dist: "distinct (map fst (settings_of parse (text_lines blob @ [sd_ok_line])))"
  shows "read_value get src k = (case transfer_values_to_cache put src Map.empty k of None \<Rightarrow> [] | Some v \<Rightarrow> v)"
proof -
  let ?ls = "text_lines blob @ [sd_ok_line]"
  have "transfer_values_to_cache put src Map.empty = fold put ?ls Map.empty"
    by (simp add: transfer_values_to_cache_def src transfer_loop_lines)
  also have "\<dots> = map_of (settings_of parse ?ls)"
    by (simp only: cached_settings [where put = put and parse = parse, OF put] map_of_rev_distinct [OF dist] empty_map_add)
  finally have "transfer_values_to_cache put src Map.empty = map_of (settings_of parse ?ls)" .
  moreover have "read_value get src k = (case List.find (\<lambda>v. v \<noteq> []) (map (\<lambda>line. get line k) ?ls) of Some v \<Rightarrow> v | None \<Rightarrow> [])"
    by (simp only: read_value_def src option.case read_loop_lines)
  ultimately show ?thesis
    using first_setting [where get = "\<lambda>line. get line k" and parse = parse and k = k and ls = ?ls, OF get vals]
    by (simp split: option.splits)
qed

text \<open>A parser for the witness: what comes before a space is the setting, what comes after it the value.\<close>

definition sample_parse :: "string \<Rightarrow> (string \<times> string) option" where
  "sample_parse line =
     (let v = takeWhile (\<lambda>c. c \<noteq> CHR 0x0A) (drop 1 (dropWhile (\<lambda>c. c \<noteq> CHR '' '') line))
      in if v = [] then None else Some (takeWhile (\<lambda>c. c \<noteq> CHR '' '') line, v))"

definition sample_source :: firm_config_source where
  "sample_source = \<lparr>source_name = 7, source_text = Some (''alpha 80'' @ [CHR 0x0A, CHR 0x0A] @ ''beta 10'')\<rparr>"

theorem reading_agrees_with_cache_witness:
  "read_value (\<lambda>line k. case sample_parse line of Some (k', v) \<Rightarrow> if k' = k then v else [] | None \<Rightarrow> []) sample_source ''beta'' = ''10''"
proof -
  have "read_value (\<lambda>line k. case sample_parse line of Some (k', v) \<Rightarrow> if k' = k then v else [] | None \<Rightarrow> []) sample_source ''beta'' =
    (case transfer_values_to_cache (\<lambda>line c. case sample_parse line of None \<Rightarrow> c | Some (k, v) \<Rightarrow> c(k \<mapsto> v)) sample_source Map.empty ''beta'' of
       None \<Rightarrow> [] | Some v \<Rightarrow> v)"
  proof (rule reading_agrees_with_cache [where parse = sample_parse])
    show "source_text sample_source = Some (''alpha 80'' @ [CHR 0x0A, CHR 0x0A] @ ''beta 10'')" by (simp add: sample_source_def)
    show "distinct (map fst (settings_of sample_parse (text_lines (''alpha 80'' @ [CHR 0x0A, CHR 0x0A] @ ''beta 10'') @ [sd_ok_line])))"
      by (simp add: sample_parse_def sd_ok_line_def)
  qed (auto simp: sample_parse_def Let_def split: if_splits)
  then show ?thesis
    by (simp add: transfer_values_to_cache_def sample_source_def sample_parse_def sd_ok_line_def)
qed

end
