(* ===== verification/Firmware_Modules.thy ===== *)
theory Firmware_Modules
  imports Boot_Session Spindle_Tach Event_Engine Host_Filesystem Firm_Config
begin

text \<open>
  Loading the firmware's modules at boot, and the modules of the simulator among them
  (\<^verbatim>\<open>src/runtime/runtime_modules.cpp\<close>): the order of the modules and their accounting, the pump that runs timers while
  the firmware waits, the bridge to the tool changer, the watchdog, and the configuration overrides
  that are replayed line by line.

  The record \<open>module_code\<close> is what the firmware does here: the constructors of its modules, what they do when
  they are loaded, the pools that load tools, the tickers, and a line on the console.  A message to the
  streams is a value of \<open>boot_message\<close>.
\<close>

section \<open>State\<close>

datatype boot_message = Watchdog_Enabled real | Watchdog_Disabled | Loading_Override string | Override_Line string | Override_Executed

text \<open>What firmware code can change: the simulation and the accounting of its allocations.\<close>

type_synonym ('h, 'w, 'k) firmware_world = "('h, 'w, 'k) simulation \<times> memory_accounting"

type_synonym ('h, 'w, 'k) firmware_act = "('h, 'w, 'k) firmware_world \<Rightarrow> ('h, 'w, 'k) firmware_world"

record ('h, 'w, 'k) boot_state =
  bs_world :: "('h, 'w, 'k) firmware_world"
  bs_active :: bool
  bs_tach :: tach
  bs_modules :: "string list"
  bs_messages :: "boot_message list"
  bs_lines :: "string list"

record ('h, 'w, 'k) module_code =
  mc_version :: "('h, 'w, 'k) firmware_act"
  mc_new :: "string \<Rightarrow> real option \<Rightarrow> ('h, 'w, 'k) firmware_world \<Rightarrow> (u64 \<times> u64) \<times> ('h, 'w, 'k) firmware_world"
  mc_lpc_bytes :: "string \<Rightarrow> u64"
  mc_loaded :: "string \<Rightarrow> ('h, 'w, 'k) firmware_act"
  mc_switch_pool :: "('h, 'w, 'k) firmware_act"
  mc_temperature_pool :: "('h, 'w, 'k) firmware_act"
  mc_spindle :: "('h, 'w, 'k) firmware_act"
  mc_console_line :: "string \<Rightarrow> ('h, 'w, 'k) firmware_act"
  mc_motors :: "'k \<Rightarrow> nat"
  mc_has_conveyor :: "'k \<Rightarrow> bool"
  mc_start_conveyor :: "nat \<Rightarrow> ('h, 'w, 'k) firmware_act"
  mc_start_step_ticker :: "('h, 'w, 'k) firmware_act option"
  mc_start_slow_ticker :: "('h, 'w, 'k) firmware_act option"
  mc_override_filename :: "'k \<Rightarrow> string"

definition bs_sim :: "('h, 'w, 'k) boot_state \<Rightarrow> ('h, 'w, 'k) simulation" where
  "bs_sim st = fst (bs_world st)"

definition run_code :: "('h, 'w, 'k) firmware_act \<Rightarrow> ('h, 'w, 'k) boot_state \<Rightarrow> ('h, 'w, 'k) boot_state" where
  "run_code f st = st\<lparr>bs_world := f (bs_world st)\<rparr>"

definition run_sim :: "(('h, 'w, 'k) simulation \<Rightarrow> ('h, 'w, 'k) simulation option) \<Rightarrow> ('h, 'w, 'k) boot_state \<Rightarrow> ('h, 'w, 'k) boot_state option" where
  "run_sim f st = map_option (\<lambda>s. st\<lparr>bs_world := (s, snd (bs_world st))\<rparr>) (f (bs_sim st))"

section \<open>Modules\<close>

text \<open>The accounting's exceptions are swallowed; without an active simulator nothing is recorded.\<close>

definition tracked_firmware_new :: "('h, 'w, 'k) module_code \<Rightarrow> string \<Rightarrow> real option \<Rightarrow> ('h, 'w, 'k) boot_state \<Rightarrow> ('h, 'w, 'k) boot_state" where
  "tracked_firmware_new mc name arg st =
     (let ((pointer, host_bytes), w) = mc_new mc name arg (bs_world st);
          a = (if bs_active st then snd (record_heap pointer host_bytes (mc_lpc_bytes mc name) name True (snd w)) else snd w)
      in st\<lparr>bs_world := (fst w, a)\<rparr>)"

definition add_module :: "('h, 'w, 'k) firmware_act \<Rightarrow> string \<Rightarrow> ('h, 'w, 'k) boot_state \<Rightarrow> ('h, 'w, 'k) boot_state" where
  "add_module loaded name st = run_code loaded (st\<lparr>bs_modules := bs_modules st @ [name]\<rparr>)"

definition add_firmware_module :: "('h, 'w, 'k) module_code \<Rightarrow> string \<Rightarrow> ('h, 'w, 'k) boot_state \<Rightarrow> ('h, 'w, 'k) boot_state" where
  "add_firmware_module mc name st = add_module (mc_loaded mc name) name (tracked_firmware_new mc name None st)"

text \<open>The bridge to the tool changer: when it is loaded, and when a G-code is received.\<close>

definition atc_bridge_loaded :: "('h, 'w, 'k) firmware \<Rightarrow> ('h, 'w, 'k) firmware_act" where
  "atc_bridge_loaded fw w = ((fst w)\<lparr>machine := (machine (fst w))\<lparr>m_scene :=
     configure_physical_scene fw (kernel (fst w)) True (m_scene (machine (fst w)))\<rparr>\<rparr>, snd w)"

definition atc_bridge_on_gcode :: "('h, 'w, 'k) firmware \<Rightarrow> ('h, 'w, 'k) firmware_act" where
  "atc_bridge_on_gcode fw w = ((fst w)\<lparr>machine := (machine (fst w))\<lparr>m_scene :=
     configure_physical_scene fw (kernel (fst w)) False (m_scene (machine (fst w)))\<rparr>\<rparr>, snd w)"

definition add_tach_module :: "('h, 'w, 'k) firmware \<Rightarrow> u64 \<Rightarrow> ('h, 'w, 'k) boot_state \<Rightarrow> ('h, 'w, 'k) boot_state" where
  "add_tach_module fw now st =
     (let (t, m) = tach_on_module_loaded fw (Some (kernel (bs_sim st))) now (bs_tach st, machine (bs_sim st))
      in st\<lparr>bs_modules := bs_modules st @ [''SimulatorSpindleTachBridgeModule''], bs_tach := t,
            bs_world := ((bs_sim st)\<lparr>machine := m\<rparr>, snd (bs_world st))\<rparr>)"

section \<open>The pump\<close>

definition idle_motion_iterations :: "virtual_clock \<Rightarrow> nat" where
  "idle_motion_iterations c =
     (if \<not> realtime c \<or> realtime_speed c \<le> 1 then 1 else max 1 (min (nat \<lceil>realtime_speed c\<rceil>) 100))"

fun idle_burst :: "'w kernel \<Rightarrow> nat \<Rightarrow> 'w sim \<Rightarrow> 'w sim option" where
  "idle_burst k 0 s = Some s"
| "idle_burst k (Suc n) s = (case run_one_timer_event k s of
     None \<Rightarrow> None
   | Some (advanced, s) \<Rightarrow> if \<not> advanced then Some s else idle_burst k n s)"

text \<open>\<open>argument\<close> says whether the event has one, \<open>hook\<close> is the delay callback of the thread.\<close>

definition pump_on_idle :: "'w kernel \<Rightarrow> virtual_clock \<Rightarrow> ('w sim \<Rightarrow> bool) \<Rightarrow> ('w sim \<Rightarrow> 'w sim) option \<Rightarrow> bool \<Rightarrow> 'w sim \<Rightarrow> 'w sim option" where
  "pump_on_idle k c uploading hook argument s =
     (let s = (if argument \<and> \<not> uploading s then snd (hook_run hook s) else s)
      in idle_burst k (idle_motion_iterations c) s)"

section \<open>Startup pins\<close>

definition startup_pins :: "pin_address list" where
  "startup_pins = [\<lparr>pin_port = 4, pin_number = 29\<rparr>, \<lparr>pin_port = 4, pin_number = 28\<rparr>, \<lparr>pin_port = 0, pin_number = 4\<rparr>,
     \<lparr>pin_port = 1, pin_number = 17\<rparr>, \<lparr>pin_port = 1, pin_number = 14\<rparr>]"

text \<open>\<open>make_output\<close> and \<open>put\<close> are the firmware's \<^verbatim>\<open>GPIO::output\<close> and the assignment to a \<^verbatim>\<open>GPIO\<close>.\<close>

definition initialize_startup_gpio :: "(pin_address \<Rightarrow> 'm \<Rightarrow> 'm) \<Rightarrow> (pin_address \<Rightarrow> bool \<Rightarrow> 'm \<Rightarrow> 'm) \<Rightarrow> 'm \<Rightarrow> 'm" where
  "initialize_startup_gpio make_output put = fold (\<lambda>p m. put p False (make_output p m)) startup_pins"

section \<open>The watchdog and the overrides\<close>

definition load_watchdog_if_enabled :: "('h, 'w, 'k) firmware \<Rightarrow> ('h, 'w, 'k) module_code \<Rightarrow> ('h, 'w, 'k) boot_state \<Rightarrow> ('h, 'w, 'k) boot_state" where
  "load_watchdog_if_enabled fw mc st =
     (let timeout = fw_as_number fw (kernel (bs_sim st)) [fw_checksum fw ''watchdog_timeout''] 10
      in if timeout > 1 / 10
         then let st = add_module (mc_loaded mc ''Watchdog'') ''Watchdog'' (tracked_firmware_new mc ''Watchdog'' (Some (timeout * 1000000)) st)
              in st\<lparr>bs_messages := bs_messages st @ [Watchdog_Enabled timeout]\<rparr>
         else st\<lparr>bs_messages := bs_messages st @ [Watchdog_Disabled]\<rparr>)"

text \<open>\<^verbatim>\<open>std::getline\<close>: the characters up to a line break, which is dropped, and the rest; it fails at the end.\<close>

definition get_line :: "string \<Rightarrow> (string \<times> string) option" where
  "get_line s = (if s = [] then None else Some (takeWhile (\<lambda>c. c \<noteq> CHR 0x0A) s, drop 1 (dropWhile (\<lambda>c. c \<noteq> CHR 0x0A) s)))"

lemma get_line_shorter: "get_line s = Some (line, rest) \<Longrightarrow> length rest < length s"
  using length_dropWhile_le [of "\<lambda>c. c \<noteq> CHR 0x0A" s] by (cases s) (auto simp: get_line_def split: if_splits)

definition replay_line :: "('h, 'w, 'k) module_code \<Rightarrow> string \<Rightarrow> ('h, 'w, 'k) boot_state \<Rightarrow> ('h, 'w, 'k) boot_state" where
  "replay_line mc line st =
     (let line = line @ [CHR 0x0A]; st = st\<lparr>bs_messages := bs_messages st @ [Override_Line line]\<rparr>
      in if hd line = CHR '';'' then st
         else run_code (mc_console_line mc line) (st\<lparr>bs_lines := bs_lines st @ [line]\<rparr>))"

function (sequential) replay_lines :: "('h, 'w, 'k) module_code \<Rightarrow> string \<Rightarrow> ('h, 'w, 'k) boot_state \<Rightarrow> ('h, 'w, 'k) boot_state" where
  "replay_lines mc s st = (case get_line s of None \<Rightarrow> st | Some (line, rest) \<Rightarrow> replay_lines mc rest (replay_line mc line st))"
  by pat_completeness auto

termination replay_lines
  by (relation "measure (\<lambda>(mc, s, st). length s)") (auto dest: get_line_shorter)

text \<open>The text behind the firmware's name of the override file; the stream does not open when there is no such file.\<close>

definition override_text :: "host_path \<Rightarrow> mounts \<Rightarrow> host_fs \<Rightarrow> string \<Rightarrow> string option" where
  "override_text cwd m disk name = (case translate cwd m (Some name) of
     None \<Rightarrow> None | Some p \<Rightarrow> if fs_exists disk p then Some (read_file disk p) else None)"

definition replay_config_override :: "('h, 'w, 'k) module_code \<Rightarrow> (string \<Rightarrow> string option) \<Rightarrow> ('h, 'w, 'k) boot_state \<Rightarrow> ('h, 'w, 'k) boot_state" where
  "replay_config_override mc open_text st =
     (let name = mc_override_filename mc (kernel (bs_sim st))
      in case open_text name of
           None \<Rightarrow> st
         | Some s \<Rightarrow>
             let st = replay_lines mc s (st\<lparr>bs_messages := bs_messages st @ [Loading_Override name]\<rparr>)
             in st\<lparr>bs_messages := bs_messages st @ [Override_Executed]\<rparr>)"

section \<open>Loading\<close>

type_synonym ('h, 'w, 'k) boot_step = "('h, 'w, 'k) boot_state \<Rightarrow> ('h, 'w, 'k) boot_state option"

fun run_steps :: "('h, 'w, 'k) boot_step list \<Rightarrow> ('h, 'w, 'k) boot_step" where
  "run_steps [] st = Some st"
| "run_steps (f # steps) st = (case f st of None \<Rightarrow> None | Some st \<Rightarrow> run_steps steps st)"

definition wire_alarms :: "('h, 'w, 'k) firmware \<Rightarrow> ('h, 'w, 'k) firmware_act" where
  "wire_alarms fw w = ((fst w)\<lparr>machine := (machine (fst w))\<lparr>m_alarms := configure_alarms fw (kernel (fst w))\<rparr>\<rparr>, snd w)"

definition add_zprobe :: "('h, 'w, 'k) firmware \<Rightarrow> ('h, 'w, 'k) module_code \<Rightarrow> ('h, 'w, 'k) boot_state \<Rightarrow> ('h, 'w, 'k) boot_state" where
  "add_zprobe fw mc st = (if fw_has_robot fw (kernel (bs_sim st)) \<and> mc_motors mc (kernel (bs_sim st)) \<ge> 3
     then add_firmware_module mc ''ZProbe'' st else st)"

definition room_temperature :: "('h, 'w, 'k) firmware \<Rightarrow> ('h, 'w, 'k) firmware_act" where
  "room_temperature fw w =
     (let s = (fst w)\<lparr>machine := set_temperature (fw_on_channel fw) (fw_on_global fw) Power_Sensor 25
            (set_temperature (fw_on_channel fw) (fw_on_global fw) Spindle_Sensor 25 (machine (fst w)))\<rparr>
      in (refresh_temperature_reading fw Power_Sensor 25 (refresh_temperature_reading fw Spindle_Sensor 25 s), snd w))"

definition release_cache :: "('h, 'w, 'k) firmware_act" where
  "release_cache w = (fst w, release_config_cache (snd w))"

definition start_tickers :: "('h, 'w, 'k) firmware \<Rightarrow> ('h, 'w, 'k) module_code \<Rightarrow> ('h, 'w, 'k) firmware_act" where
  "start_tickers fw mc w =
     (let k = kernel (fst w);
          w = (if mc_has_conveyor mc k \<and> fw_has_robot fw k then mc_start_conveyor mc (mc_motors mc k) w else w);
          w = (case mc_start_step_ticker mc of None \<Rightarrow> w | Some f \<Rightarrow> f w)
      in case mc_start_slow_ticker mc of None \<Rightarrow> w | Some f \<Rightarrow> f w)"

definition release_button :: "('h, 'w, 'k) firmware \<Rightarrow> string \<Rightarrow> string \<Rightarrow> ('h, 'w, 'k) boot_step" where
  "release_button fw name def = run_sim (drive_configured_input fw [fw_checksum fw name] def False)"

definition load_firmware_modules :: "('h, 'w, 'k) firmware \<Rightarrow> 'k robot_view \<Rightarrow> ('h, 'w, 'k) module_code \<Rightarrow> (string \<Rightarrow> string option) \<Rightarrow>
    u64 \<Rightarrow> machine_model \<Rightarrow> ('h, 'w, 'k) boot_step" where
  "load_firmware_modules fw rb mc open_text now model = run_steps
     [Some \<circ> run_code (mc_version mc),
      run_sim (\<lambda>s. attach_configured_stepper_axes fw rb model (rotary_installed (machine s)) s),
      Some \<circ> run_code (wire_alarms fw),
      Some \<circ> add_firmware_module mc ''Player'',
      Some \<circ> add_module (atc_bridge_loaded fw) ''SimulatorAtcPhysicalBridgeModule'',
      Some \<circ> add_firmware_module mc ''ATCHandler'',
      Some \<circ> tracked_firmware_new mc ''BedCleaning'' None,
      Some \<circ> tracked_firmware_new mc ''SpindleAccessories'' None,
      Some \<circ> add_module (mc_loaded mc ''BedCleaning'') ''BedCleaning'',
      Some \<circ> add_module (mc_loaded mc ''SpindleAccessories'') ''SpindleAccessories'',
      Some \<circ> add_firmware_module mc ''SerialConsole2'',
      release_button fw ''main_button_pin'' (default_main_button_pin (board_profile_of model)),
      release_button fw ''e_stop_pin'' (default_e_stop_pin (board_profile_of model)),
      Some \<circ> add_firmware_module mc ''MainButton'',
      Some \<circ> add_firmware_module mc ''WifiProvider'',
      Some \<circ> run_code (mc_switch_pool mc),
      Some \<circ> run_code (mc_temperature_pool mc),
      Some \<circ> add_firmware_module mc ''Endstops'',
      Some \<circ> add_firmware_module mc ''Laser'',
      Some \<circ> run_code (mc_spindle mc),
      Some \<circ> add_tach_module fw now,
      Some \<circ> add_module id ''SimulatorTimerPumpBridgeModule'',
      Some \<circ> add_zprobe fw mc,
      Some \<circ> run_code (room_temperature fw),
      Some \<circ> add_firmware_module mc ''TemperatureSwitch'',
      Some \<circ> add_firmware_module mc ''Drillingcycles'',
      Some \<circ> load_watchdog_if_enabled fw mc,
      Some \<circ> run_code release_cache,
      Some \<circ> replay_config_override mc open_text,
      Some \<circ> run_code (start_tickers fw mc)]"

section \<open>The pump is bounded\<close>

lemma idle_motion_bounds: "1 \<le> idle_motion_iterations c" "idle_motion_iterations c \<le> 100"
  by (auto simp: idle_motion_iterations_def max_def)

lemma manual_idle: "\<not> realtime c \<Longrightarrow> idle_motion_iterations c = 1"
  by (simp add: idle_motion_iterations_def)

text \<open>Faster than real time by a factor up to 100, the burst is as long as the factor.\<close>

lemma idle_motion_covers_speed:
  "realtime c \<Longrightarrow> realtime_speed c \<le> 100 \<Longrightarrow> realtime_speed c \<le> idle_motion_iterations c"
  by (auto simp: idle_motion_iterations_def)

section \<open>The overrides, line by line\<close>

definition getlines :: "string \<Rightarrow> string list" where
  "getlines s = map (\<lambda>l. takeWhile (\<lambda>c. c \<noteq> CHR 0x0A) l) (text_lines s)"

text \<open>The console gets every line that is no comment, in order, closed by a line break, whether the file ends with one or not.\<close>

definition override_lines :: "string \<Rightarrow> string list" where
  "override_lines s = filter (\<lambda>l. hd l \<noteq> CHR '';'') (map (\<lambda>l. l @ [CHR 0x0A]) (getlines s))"

lemma next_line_get_line: "s \<noteq> [] \<Longrightarrow> get_line s = Some (takeWhile (\<lambda>c. c \<noteq> CHR 0x0A) (fst (next_line s)), snd (next_line s))"
proof (induction s)
  case (Cons c cs)
  then show ?case by (cases cs) (auto simp: get_line_def Let_def case_prod_unfold)
qed simp

lemma replay_line_lines: "bs_lines (replay_line mc l st) = bs_lines st @ filter (\<lambda>l. hd l \<noteq> CHR '';'') [l @ [CHR 0x0A]]"
  by (simp add: replay_line_def run_code_def Let_def)

lemma replay_lines_console: "bs_lines (replay_lines mc s st) = bs_lines st @ override_lines s"
proof (induction s arbitrary: st rule: text_lines.induct)
  case 1
  then show ?case by (simp add: get_line_def override_lines_def getlines_def)
next
  case (2 c cs)
  obtain line rest where l: "next_line (c # cs) = (line, rest)" by (cases "next_line (c # cs)")
  then have "get_line (c # cs) = Some (takeWhile (\<lambda>c. c \<noteq> CHR 0x0A) line, rest)"
    using next_line_get_line [of "c # cs"] by simp
  then show ?case
    using 2 [OF l [symmetric] refl] l
    by (simp del: next_line.simps add: replay_line_lines override_lines_def getlines_def)
qed

section \<open>The modules load in order\<close>

text \<open>
  What the boot relies on: the firmware's code keeps the machine and the accounting well formed and does
  not change what it is asked about its kernel, the number of its motors, its configuration and the name of its
  override file.
\<close>

record kernel_view =
  kv_robot :: bool
  kv_motors :: nat
  kv_timeout :: real
  kv_override :: string

definition kernel_view_of :: "('h, 'w, 'k) firmware \<Rightarrow> ('h, 'w, 'k) module_code \<Rightarrow> 'k \<Rightarrow> kernel_view" where
  "kernel_view_of fw mc k = \<lparr>kv_robot = fw_has_robot fw k, kv_motors = mc_motors mc k,
     kv_timeout = fw_as_number fw k [fw_checksum fw ''watchdog_timeout''] 10, kv_override = mc_override_filename mc k\<rparr>"

definition world_ok :: "('h, 'w, 'k) firmware \<Rightarrow> ('h, 'w, 'k) module_code \<Rightarrow> kernel_view \<Rightarrow> ('h, 'w, 'k) firmware_world \<Rightarrow> bool" where
  "world_ok fw mc v w \<longleftrightarrow> machine_wf (machine (fst w)) \<and> acct_inv (snd w) \<and> kernel_view_of fw mc (kernel (fst w)) = v"

definition act_ok :: "('h, 'w, 'k) firmware \<Rightarrow> ('h, 'w, 'k) module_code \<Rightarrow> kernel_view \<Rightarrow> ('h, 'w, 'k) firmware_act \<Rightarrow> bool" where
  "act_ok fw mc v f \<longleftrightarrow> (\<forall>w. world_ok fw mc v w \<longrightarrow> world_ok fw mc v (f w))"

definition firmware_ok :: "('h, 'w, 'k) firmware \<Rightarrow> ('h, 'w, 'k) module_code \<Rightarrow> kernel_view \<Rightarrow> bool" where
  "firmware_ok fw mc v \<longleftrightarrow>
     act_ok fw mc v (mc_version mc) \<and> (\<forall>n. act_ok fw mc v (mc_loaded mc n)) \<and> (\<forall>n arg. act_ok fw mc v (\<lambda>w. snd (mc_new mc n arg w))) \<and>
     act_ok fw mc v (mc_switch_pool mc) \<and> act_ok fw mc v (mc_temperature_pool mc) \<and> act_ok fw mc v (mc_spindle mc) \<and>
     (\<forall>l. act_ok fw mc v (mc_console_line mc l)) \<and> (\<forall>n. act_ok fw mc v (mc_start_conveyor mc n)) \<and>
     pred_option (act_ok fw mc v) (mc_start_step_ticker mc) \<and> pred_option (act_ok fw mc v) (mc_start_slow_ticker mc) \<and>
     act_ok fw mc v (\<lambda>w. (fw_timer2_irq fw (fst w), snd w)) \<and> handlers_ok (fw_on_channel fw) (fw_on_global fw) \<and> pins_exist fw"

text \<open>A step of the boot that succeeds, adds the given modules and sends the given lines to the console.\<close>

definition adds :: "('h, 'w, 'k) firmware \<Rightarrow> ('h, 'w, 'k) module_code \<Rightarrow> kernel_view \<Rightarrow> ('h, 'w, 'k) boot_step \<Rightarrow> string list \<Rightarrow> string list \<Rightarrow> bool" where
  "adds fw mc v f names lines \<longleftrightarrow> (\<forall>st. world_ok fw mc v (bs_world st) \<longrightarrow>
     (\<exists>st'. f st = Some st' \<and> world_ok fw mc v (bs_world st') \<and>
        bs_modules st' = bs_modules st @ names \<and> bs_lines st' = bs_lines st @ lines))"

lemma adds_Nil: "adds fw mc v (run_steps []) [] []"
  by (simp add: adds_def)

lemma adds_Cons:
  assumes "adds fw mc v f n l" "adds fw mc v (run_steps steps) ns ls"
  shows "adds fw mc v (run_steps (f # steps)) (n @ ns) (l @ ls)"
  unfolding adds_def
proof (intro allI impI)
  fix st :: "('a, 'b, 'c) boot_state" assume ok: "world_ok fw mc v (bs_world st)"
  then obtain st1 where 1: "f st = Some st1" "world_ok fw mc v (bs_world st1)" "bs_modules st1 = bs_modules st @ n" "bs_lines st1 = bs_lines st @ l"
    using assms(1) unfolding adds_def by blast
  then obtain st2 where "run_steps steps st1 = Some st2" "world_ok fw mc v (bs_world st2)" "bs_modules st2 = bs_modules st1 @ ns"
    "bs_lines st2 = bs_lines st1 @ ls"
    using assms(2) unfolding adds_def by blast
  with 1 show "\<exists>st'. run_steps (f # steps) st = Some st' \<and> world_ok fw mc v (bs_world st') \<and>
      bs_modules st' = bs_modules st @ n @ ns \<and> bs_lines st' = bs_lines st @ l @ ls" by simp
qed

lemma act_okI: "(\<And>w. world_ok fw mc v w \<Longrightarrow> world_ok fw mc v (f w)) \<Longrightarrow> act_ok fw mc v f"
  unfolding act_ok_def by blast

lemma act_okD: "act_ok fw mc v f \<Longrightarrow> world_ok fw mc v w \<Longrightarrow> world_ok fw mc v (f w)"
  unfolding act_ok_def by blast

lemma firmware_okD:
  assumes "firmware_ok fw mc v"
  shows "act_ok fw mc v (mc_version mc)" "act_ok fw mc v (mc_loaded mc n)" "act_ok fw mc v (\<lambda>w. snd (mc_new mc n arg w))"
    "act_ok fw mc v (mc_switch_pool mc)" "act_ok fw mc v (mc_temperature_pool mc)" "act_ok fw mc v (mc_spindle mc)"
    "act_ok fw mc v (mc_console_line mc l)" "act_ok fw mc v (mc_start_conveyor mc i)"
    "mc_start_step_ticker mc = Some f \<Longrightarrow> act_ok fw mc v f" "mc_start_slow_ticker mc = Some f \<Longrightarrow> act_ok fw mc v f"
    "act_ok fw mc v (\<lambda>w. (fw_timer2_irq fw (fst w), snd w))" "handlers_ok (fw_on_channel fw) (fw_on_global fw)" "pins_exist fw"
  using assms unfolding firmware_ok_def by (auto simp: pred_option_def)

lemma adds_code: "act_ok fw mc v g \<Longrightarrow> adds fw mc v (Some \<circ> run_code g) [] []"
  by (simp add: adds_def run_code_def act_okD)

lemma adds_module: "act_ok fw mc v g \<Longrightarrow> adds fw mc v (Some \<circ> add_module g n) [n] []"
  by (simp add: adds_def add_module_def run_code_def act_okD)

lemma tracked_new_ok:
  assumes "firmware_ok fw mc v" "world_ok fw mc v (bs_world st)"
  shows "world_ok fw mc v (bs_world (tracked_firmware_new mc n arg st))"
    "bs_modules (tracked_firmware_new mc n arg st) = bs_modules st" "bs_lines (tracked_firmware_new mc n arg st) = bs_lines st"
proof -
  have "world_ok fw mc v (snd (mc_new mc n arg (bs_world st)))"
    using act_okD [OF firmware_okD(3) [OF assms(1)] assms(2)] .
  then show "world_ok fw mc v (bs_world (tracked_firmware_new mc n arg st))"
    by (simp add: tracked_firmware_new_def Let_def case_prod_unfold world_ok_def record_heap_inv)
qed (simp_all add: tracked_firmware_new_def Let_def case_prod_unfold)

lemma adds_new: "firmware_ok fw mc v \<Longrightarrow> adds fw mc v (Some \<circ> tracked_firmware_new mc n arg) [] []"
  by (simp add: adds_def tracked_new_ok)

lemma add_new_ok:
  assumes "firmware_ok fw mc v" "world_ok fw mc v (bs_world st)"
  shows "world_ok fw mc v (bs_world (add_module (mc_loaded mc n) n (tracked_firmware_new mc n arg st))) \<and>
    bs_modules (add_module (mc_loaded mc n) n (tracked_firmware_new mc n arg st)) = bs_modules st @ [n] \<and>
    bs_lines (add_module (mc_loaded mc n) n (tracked_firmware_new mc n arg st)) = bs_lines st"
  using tracked_new_ok [OF assms] act_okD [OF firmware_okD(2) [OF assms(1)]] by (simp add: add_module_def run_code_def)

lemma adds_firmware_module: "firmware_ok fw mc v \<Longrightarrow> adds fw mc v (Some \<circ> add_firmware_module mc n) [n] []"
  by (simp add: adds_def add_firmware_module_def add_new_ok)

lemma adds_zprobe:
  "firmware_ok fw mc v \<Longrightarrow> adds fw mc v (Some \<circ> add_zprobe fw mc) (if kv_robot v \<and> kv_motors v \<ge> 3 then [''ZProbe''] else []) []"
  unfolding adds_def add_zprobe_def add_firmware_module_def o_apply bs_sim_def
  using add_new_ok by (fastforce simp: world_ok_def kernel_view_of_def)

lemma adds_watchdog:
  "firmware_ok fw mc v \<Longrightarrow> adds fw mc v (Some \<circ> load_watchdog_if_enabled fw mc) (if kv_timeout v > 1 / 10 then [''Watchdog''] else []) []"
  unfolding adds_def load_watchdog_if_enabled_def o_apply bs_sim_def
  using add_new_ok by (fastforce simp: world_ok_def kernel_view_of_def Let_def)

lemma adds_sim:
  assumes "\<And>w. world_ok fw mc v w \<Longrightarrow> \<exists>s. f (fst w) = Some s \<and> machine_wf (machine s) \<and> kernel s = kernel (fst w)"
  shows "adds fw mc v (run_sim f) [] []"
  unfolding adds_def
proof (intro allI impI)
  fix st :: "('a, 'b, 'c) boot_state" assume ok: "world_ok fw mc v (bs_world st)"
  from assms [OF this] show "\<exists>st'. run_sim f st = Some st' \<and> world_ok fw mc v (bs_world st') \<and>
      bs_modules st' = bs_modules st @ [] \<and> bs_lines st' = bs_lines st @ []"
    using ok by (auto simp: run_sim_def bs_sim_def world_ok_def)
qed

lemma adds_release_button: "pins_exist fw \<Longrightarrow> adds fw mc v (release_button fw name def) [] []"
proof -
  assume pins: "pins_exist fw"
  show ?thesis
    unfolding release_button_def
  proof (rule adds_sim)
    fix w :: "('a, 'b, 'c) firmware_world" assume ok: "world_ok fw mc v w"
    let ?p = "configured_pin fw (kernel (fst w)) [fw_checksum fw name] def"
    show "\<exists>s. drive_configured_input fw [fw_checksum fw name] def False (fst w) = Some s \<and> machine_wf (machine s) \<and> kernel s = kernel (fst w)"
    proof (cases "fp_connected ?p")
      case True
      then have "usable ?p" using pins by (simp add: pins_exist_def configured_pin_def)
      then have "valid_pin (m_mcu (machine (fst w))) (firm_pin_address ?p)"
        using ok by (intro machine_wf_pins) (simp_all add: usable_def firm_pin_address_def world_ok_def)
      then obtain m' where "set_gpio_input (firm_pin_address ?p) (raw_level_for_pin_get ?p False) (machine (fst w)) = Some m'" "machine_wf m'"
        using set_gpio_input_wf ok by (metis world_ok_def)
      then show ?thesis using True by (simp add: drive_configured_input_def drive_pin_def machine_op_def)
    qed (use ok in \<open>simp add: drive_configured_input_def drive_pin_def world_ok_def\<close>)
  qed
qed

lemma adds_axes:
  assumes "pins_exist fw"
  shows "adds fw mc v (run_sim (\<lambda>s. attach_configured_stepper_axes fw rb model (rotary_installed (machine s)) s)) [] []"
proof (rule adds_sim)
  fix w :: "('a, 'b, 'c) firmware_world" assume ok: "world_ok fw mc v w"
  show "\<exists>s. attach_configured_stepper_axes fw rb model (rotary_installed (machine (fst w))) (fst w) = Some s \<and> machine_wf (machine s) \<and>
      kernel s = kernel (fst w)"
  proof (cases "fw_has_config fw (kernel (fst w)) \<and> fw_has_robot fw (kernel (fst w))")
    case True
    then show ?thesis using attach_binds_connected_motors [of "fst w" fw] ok assms unfolding world_ok_def by blast
  qed (use ok in \<open>auto simp: attach_configured_stepper_axes_def world_ok_def\<close>)
qed

lemma configured_alarms_wf:
  assumes "pins_exist fw" "machine_wf m"
  shows "machine_wf (m\<lparr>m_alarms := configure_alarms fw k\<rparr>)"
proof -
  define ok where "ok as \<longleftrightarrow> length as = 5 \<and> (\<forall>al \<in> set as. alarm_connected al \<longrightarrow> unat (pin_port (alarm_pin al)) < 5 \<and> unat (pin_number (alarm_pin al)) < 32)"
    for as :: "alarm_signal list"
  have start: "ok alarms_clear" by (simp add: ok_def alarms_clear_def motor_alarm_count_def)
  have step: "ok (let p = configured_pin fw k [motor_alarm_checksum fw axis] ''nc''
      in if \<not> fp_connected p then as else alarms_set axis (firm_pin_address p) (raw_level_for_pin_get p True) as)" if "ok as" for axis as
  proof (cases "fp_connected (configured_pin fw k [motor_alarm_checksum fw axis] ''nc'')")
    case True
    then have "usable (configured_pin fw k [motor_alarm_checksum fw axis] ''nc'')"
      using assms(1) by (simp add: pins_exist_def configured_pin_def)
    then show ?thesis
      using that set_update_subset_insert by (fastforce simp: ok_def alarms_set_def usable_def firm_pin_address_def Let_def)
  qed (use that in simp)
  have "ok (configure_alarms fw k)"
    unfolding configure_alarms_def by (rule fold_invariant [where Q = "\<lambda>_. True"]) (simp_all only: start step)
  then show ?thesis
    using assms(2) by (auto simp: machine_wf_def ok_def m_mcu_def valid_pin_def)
qed

lemma machine_wf_scene [simp]: "machine_wf (m\<lparr>m_scene := x\<rparr>) = machine_wf m" "machine_wf (m\<lparr>m_spindle := y\<rparr>) = machine_wf m"
  by (simp_all add: machine_wf_def m_mcu_def)

lemma simulator_acts_ok:
  assumes "firmware_ok fw mc v"
  shows "act_ok fw mc v (wire_alarms fw)" "act_ok fw mc v (atc_bridge_loaded fw)" "act_ok fw mc v (atc_bridge_on_gcode fw)"
    "act_ok fw mc v release_cache"
  by (rule act_okI;
      simp add: world_ok_def wire_alarms_def atc_bridge_loaded_def atc_bridge_on_gcode_def release_cache_def
        configured_alarms_wf [OF firmware_okD(13) [OF assms]] acct_step_inv [where op = ReleaseConfigOp, unfolded acct_step_def, simplified])+

lemma refresh_ok:
  assumes "firmware_ok fw mc v" "world_ok fw mc v (s, a)"
  shows "world_ok fw mc v (refresh_temperature_reading fw sensor c s, a)"
proof -
  have irq: "world_ok fw mc v (fw_timer2_irq fw s, a)" if "world_ok fw mc v (s, a)" for s
    using act_okD [OF firmware_okD(11) [OF assms(1)] that] by simp
  have "world_ok fw mc v (refresh_ticks fw sensor c n s, a)" if "world_ok fw mc v (s, a)" for n s
    using that
  proof (induction n arbitrary: s)
    case (Suc n)
    then show ?case using irq by (auto simp: Let_def split: option.split)
  qed simp
  then show ?thesis using assms(2) by (simp add: refresh_temperature_reading_def)
qed

lemma room_temperature_ok:
  assumes "firmware_ok fw mc v"
  shows "act_ok fw mc v (room_temperature fw)"
proof (rule act_okI)
  fix w :: "('a, 'b, 'c) firmware_world" assume ok: "world_ok fw mc v w"
  let ?s = "(fst w)\<lparr>machine := set_temperature (fw_on_channel fw) (fw_on_global fw) Power_Sensor 25
            (set_temperature (fw_on_channel fw) (fw_on_global fw) Spindle_Sensor 25 (machine (fst w)))\<rparr>"
  have "world_ok fw mc v (?s, snd w)"
    using ok firmware_okD(12) [OF assms] by (simp add: world_ok_def inv_intros)
  then show "world_ok fw mc v (room_temperature fw w)"
    unfolding room_temperature_def Let_def by (intro refresh_ok [OF assms])
qed

lemma start_tickers_ok:
  assumes "firmware_ok fw mc v"
  shows "act_ok fw mc v (start_tickers fw mc)"
proof (rule act_okI)
  fix w :: "('a, 'b, 'c) firmware_world" assume ok: "world_ok fw mc v w"
  note d = firmware_okD [OF assms]
  define k where "k = kernel (fst w)"
  define w1 where "w1 = (if mc_has_conveyor mc k \<and> fw_has_robot fw k then mc_start_conveyor mc (mc_motors mc k) w else w)"
  define w2 where "w2 = (case mc_start_step_ticker mc of None \<Rightarrow> w1 | Some f \<Rightarrow> f w1)"
  have 1: "world_ok fw mc v w1" using act_okD [OF d(8) ok] ok by (simp add: w1_def)
  have 2: "world_ok fw mc v w2" using act_okD [OF d(9) 1] 1 by (simp add: w2_def split: option.split)
  have "start_tickers fw mc w = (case mc_start_slow_ticker mc of None \<Rightarrow> w2 | Some f \<Rightarrow> f w2)"
    by (simp only: start_tickers_def w2_def w1_def k_def Let_def)
  then show "world_ok fw mc v (start_tickers fw mc w)"
    using act_okD [OF d(10) 2] 2 by (simp split: option.split)
qed

lemma adds_tach: "adds fw mc v (Some \<circ> add_tach_module fw now) [''SimulatorSpindleTachBridgeModule''] []"
  by (simp add: adds_def add_tach_module_def tach_on_module_loaded_def Let_def bs_sim_def world_ok_def)

lemma replay_line_ok:
  assumes "firmware_ok fw mc v" "world_ok fw mc v (bs_world st)"
  shows "world_ok fw mc v (bs_world (replay_line mc l st))" "bs_modules (replay_line mc l st) = bs_modules st"
  using act_okD [OF firmware_okD(7) [OF assms(1)] assms(2)] assms(2) by (simp_all add: replay_line_def run_code_def Let_def)

lemma replay_ok:
  assumes "firmware_ok fw mc v" "world_ok fw mc v (bs_world st)"
  shows "world_ok fw mc v (bs_world (replay_lines mc s st)) \<and> bs_modules (replay_lines mc s st) = bs_modules st"
  using assms(2)
proof (induction s arbitrary: st rule: measure_induct_rule [of length])
  case (less s)
  show ?case
  proof (cases "get_line s")
    case None
    then show ?thesis using less.prems by simp
  next
    case (Some lr)
    then obtain l rest where lr: "get_line s = Some (l, rest)" by (cases lr) simp
    have "world_ok fw mc v (bs_world (replay_lines mc rest (replay_line mc l st))) \<and>
        bs_modules (replay_lines mc rest (replay_line mc l st)) = bs_modules (replay_line mc l st)"
      by (rule less.IH [OF get_line_shorter [OF lr]]) (rule replay_line_ok [OF assms(1) less.prems])
    then show ?thesis using lr replay_line_ok [OF assms(1) less.prems] by simp
  qed
qed

definition override_console :: "(string \<Rightarrow> string option) \<Rightarrow> string \<Rightarrow> string list" where
  "override_console open_text name = (case open_text name of None \<Rightarrow> [] | Some s \<Rightarrow> override_lines s)"

lemma adds_replay:
  assumes "firmware_ok fw mc v"
  shows "adds fw mc v (Some \<circ> replay_config_override mc open_text) [] (override_console open_text (kv_override v))"
  unfolding adds_def
proof (intro allI impI)
  fix st :: "('a, 'b, 'c) boot_state" assume ok: "world_ok fw mc v (bs_world st)"
  then have name: "mc_override_filename mc (kernel (bs_sim st)) = kv_override v"
    by (auto simp: world_ok_def kernel_view_of_def bs_sim_def)
  show "\<exists>st'. (Some \<circ> replay_config_override mc open_text) st = Some st' \<and> world_ok fw mc v (bs_world st') \<and>
      bs_modules st' = bs_modules st @ [] \<and> bs_lines st' = bs_lines st @ override_console open_text (kv_override v)"
    using replay_ok [OF assms, of "st\<lparr>bs_messages := bs_messages st @ [Loading_Override (kv_override v)]\<rparr>"] ok
    by (cases "open_text (kv_override v)")
       (simp_all del: replay_lines.simps add: replay_config_override_def name override_console_def Let_def replay_lines_console)
qed

definition module_order :: "kernel_view \<Rightarrow> string list" where
  "module_order v =
     [''Player'', ''SimulatorAtcPhysicalBridgeModule'', ''ATCHandler'', ''BedCleaning'', ''SpindleAccessories'', ''SerialConsole2'',
      ''MainButton'', ''WifiProvider'', ''Endstops'', ''Laser'', ''SimulatorSpindleTachBridgeModule'', ''SimulatorTimerPumpBridgeModule''] @
     (if kv_robot v \<and> kv_motors v \<ge> 3 then [''ZProbe''] else []) @ [''TemperatureSwitch'', ''Drillingcycles''] @
     (if kv_timeout v > 1 / 10 then [''Watchdog''] else [])"

lemma adds_eq: "adds fw mc v f n l \<Longrightarrow> n = n' \<Longrightarrow> l = l' \<Longrightarrow> adds fw mc v f n' l'"
  by simp

lemmas boot_steps = adds_Cons adds_Nil adds_axes adds_release_button adds_tach adds_zprobe adds_watchdog adds_replay
  adds_firmware_module adds_new adds_code adds_module

lemmas firmware_acts = firmware_okD(1,2,4-6,13) simulator_acts_ok room_temperature_ok start_tickers_ok

lemma act_ok_id: "act_ok fw mc v id"
  by (simp add: act_ok_def)

text \<open>
  C38: The boot never throws: it loads the modules in their order, the probe only for a robot with three motors and the
  watchdog only for a timeout of more than a tenth of a second, sends the lines of the override file
  that are no comments to the console, in order and each with its line break, and leaves the machine and the accounting well formed.
\<close>
theorem boot_loads_modules:
  assumes "firmware_ok fw mc v" "world_ok fw mc v (bs_world st)"
  shows "\<exists>st'. load_firmware_modules fw rb mc open_text now model st = Some st' \<and> world_ok fw mc v (bs_world st') \<and>
    bs_modules st' = bs_modules st @ module_order v \<and> bs_lines st' = bs_lines st @ override_console open_text (kv_override v)"
proof -
  have "adds fw mc v (load_firmware_modules fw rb mc open_text now model) (module_order v) (override_console open_text (kv_override v))"
    unfolding load_firmware_modules_def
    by (rule adds_eq, (rule boot_steps firmware_acts [OF assms(1)] act_ok_id assms(1))+) (simp_all add: module_order_def)
  then show ?thesis using assms(2) unfolding adds_def by blast
qed

text \<open>Firmware that does nothing, with the configuration of the sample.\<close>

definition idle_code :: "(nat, unit, bool) module_code" where
  "idle_code = \<lparr>mc_version = id, mc_new = (\<lambda>n arg w. ((4096, 8), w)), mc_lpc_bytes = (\<lambda>_. 8), mc_loaded = (\<lambda>_. id), mc_switch_pool = id,
     mc_temperature_pool = id, mc_spindle = id, mc_console_line = (\<lambda>_. id), mc_motors = (\<lambda>_. 4), mc_has_conveyor = (\<lambda>_. True),
     mc_start_conveyor = (\<lambda>_. id), mc_start_step_ticker = Some id, mc_start_slow_ticker = None, mc_override_filename = (\<lambda>_. ''/sd/config-override'')\<rparr>"

definition idle_boot :: "(nat, unit, bool) boot_state" where
  "idle_boot = \<lparr>bs_world = (sample_sim, \<lparr>acct_heap = example_heap, allocations = [], groups = [], next_id = 7\<rparr>), bs_active = True,
     bs_tach = new_tach, bs_modules = [], bs_messages = [], bs_lines = []\<rparr>"

theorem boot_loads_modules_witness:
  "\<exists>st'. load_firmware_modules sample_firmware sample_robot idle_code
       (\<lambda>_. Some ([CHR '';''] @ ''old'' @ [CHR 0x0A] @ ''M370'')) 0 CarveraC1 idle_boot = Some st' \<and>
     ''ZProbe'' \<in> set (bs_modules st') \<and> bs_lines st' = [''M370'' @ [CHR 0x0A]]"
proof -
  let ?v = "kernel_view_of sample_firmware idle_code (kernel sample_sim)"
  let ?t = "\<lambda>_. Some ([CHR '';''] @ ''old'' @ [CHR 0x0A] @ ''M370'')"
  have "firmware_ok sample_firmware idle_code ?v"
    using sample_pins_exist unfolding firmware_ok_def
    by (simp add: idle_code_def sample_firmware_def handlers_ok_def act_ok_id [unfolded id_def] act_ok_id act_ok_def)
  moreover have "world_ok sample_firmware idle_code ?v (bs_world idle_boot)"
    using example_inv by (simp add: world_ok_def idle_boot_def sample_sim_def blank_machine_wf acct_inv_def)
  ultimately obtain st' where "load_firmware_modules sample_firmware sample_robot idle_code ?t 0 CarveraC1 idle_boot = Some st'"
    "bs_modules st' = module_order ?v" "bs_lines st' = override_console ?t (kv_override ?v)"
    using boot_loads_modules [of sample_firmware idle_code ?v idle_boot sample_robot ?t 0 CarveraC1] by (auto simp: idle_boot_def)
  moreover have "''ZProbe'' \<in> set (module_order ?v)"
    by (simp add: module_order_def kernel_view_of_def idle_code_def sample_firmware_def)
  moreover have "override_console ?t (kv_override ?v) = [''M370'' @ [CHR 0x0A]]"
    by (simp add: override_console_def override_lines_def getlines_def)
  ultimately show ?thesis by auto
qed

end
