(* ===== verification/Stream_Server.thy ===== *)
theory Stream_Server
  imports Framed_Stream Step_Laws
begin

text \<open>
  The request pump of Windows (\<^verbatim>\<open>src/protocol/stream_request_pump_windows.cpp\<close>), which reads on a thread of its own.  A run
  of the two threads is a sequence of their steps; both take the mutex for as long as they touch what they share.  While
  the main thread answers the requests it took, the reader only appends to the queue, so answering is one step.
\<close>

section \<open>The pump of Windows\<close>

datatype read_outcome = Read_Success | Read_Closed | Read_Stopped | Read_Broken

text \<open>What \<^verbatim>\<open>ReadFile\<close> does: bytes (none at the end of the input), or an error.\<close>

datatype file_read = File_Bytes string | File_Ended | File_Aborted | File_Error

record 'os file_calls =
  file_read :: "nat \<Rightarrow> 'os \<Rightarrow> file_read \<times> 'os"
  file_stopping :: "'os \<Rightarrow> bool"

text \<open>The loop of \<^verbatim>\<open>read_exact\<close>, with \<open>acc\<close> read and \<open>n\<close> bytes to go.\<close>

function read_exact :: "'os file_calls \<Rightarrow> nat \<Rightarrow> string \<Rightarrow> 'os \<Rightarrow> read_outcome \<times> string \<times> 'os" where
  "read_exact c n acc os =
     (if n = 0 then (Read_Success, acc, os)
      else if file_stopping c os then (Read_Stopped, acc, os)
      else case file_read c n os of
          (File_Bytes bs, os) \<Rightarrow> if bs = [] then (Read_Closed, acc, os) else read_exact c (n - length bs) (acc @ bs) os
        | (File_Ended, os) \<Rightarrow> (Read_Closed, acc, os)
        | (File_Aborted, os) \<Rightarrow> (if file_stopping c os then Read_Stopped else Read_Broken, acc, os)
        | (File_Error, os) \<Rightarrow> (Read_Broken, acc, os))"
  by pat_completeness auto
termination by (relation "measure (\<lambda>(c, n, acc, os). n)") auto

declare read_exact.simps [simp del]

record ('req, 'w, 'os) win_pump =
  wp_output :: ostream
  wp_closed :: bool
  wp_failed :: bool
  wp_requests :: "'req list"
  wp_reading :: bool
  wp_world :: 'w
  wp_os :: 'os

definition finish :: "read_outcome \<Rightarrow> ('req, 'w, 'os) win_pump \<Rightarrow> ('req, 'w, 'os) win_pump" where
  "finish result s = (if result = Read_Stopped then s\<lparr>wp_reading := False\<rparr>
     else s\<lparr>wp_reading := False, wp_closed := (result = Read_Closed), wp_failed := (result = Read_Broken)\<rparr>)"

text \<open>One pass of the reader's loop.\<close>

definition read_request :: "'os file_calls \<Rightarrow> (string \<Rightarrow> 'req option) \<Rightarrow> ('req, 'w, 'os) win_pump \<Rightarrow> ('req, 'w, 'os) win_pump" where
  "read_request c parse s = (case read_exact c 4 [] (wp_os s) of
     (header_result, header, os) \<Rightarrow>
       (if header_result \<noteq> Read_Success then finish header_result (s\<lparr>wp_os := os\<rparr>)
        else let size = unat (decode_frame_size header)
             in if size > kMaxFrameSize then finish Read_Broken (s\<lparr>wp_os := os\<rparr>)
                else case read_exact c size [] os of
                  (payload_result, payload, os) \<Rightarrow>
                    (if payload_result \<noteq> Read_Success then finish payload_result (s\<lparr>wp_os := os\<rparr>)
                     else case parse payload of
                         None \<Rightarrow> finish Read_Broken (s\<lparr>wp_os := os\<rparr>)
                       | Some request \<Rightarrow> s\<lparr>wp_os := os, wp_requests := wp_requests s @ [request]\<rparr>)))"

text \<open>The loop over the requests taken from the queue; what is left of them after a failed write is lost.\<close>

fun answer_requests :: "('resp \<Rightarrow> string) \<Rightarrow> ('req \<Rightarrow> 'w \<Rightarrow> 'resp \<times> 'w) \<Rightarrow> 'req list \<Rightarrow> ('req, 'w, 'os) win_pump \<Rightarrow>
    bool \<times> ('req, 'w, 'os) win_pump" where
  "answer_requests ser h [] s = (True, s)"
| "answer_requests ser h (r # rs) s =
     (let (response, w) = h r (wp_world s); (ok, out) = write_message ser response (wp_output s);
          s = s\<lparr>wp_world := w, wp_output := out\<rparr>
      in if \<not> ok \<or> \<not> good out then (False, s) else answer_requests ser h rs s)"

definition win_drain_available :: "('resp \<Rightarrow> string) \<Rightarrow> ('req \<Rightarrow> 'w \<Rightarrow> 'resp \<times> 'w) \<Rightarrow> ('req, 'w, 'os) win_pump \<Rightarrow>
    bool \<times> ('req, 'w, 'os) win_pump" where
  "win_drain_available ser h s =
     (let requests = wp_requests s; failed = wp_failed s;
          (ok, s) = answer_requests ser h requests (s\<lparr>wp_requests := []\<rparr>)
      in (ok \<and> \<not> failed, s))"

text \<open>The two threads.\<close>

inductive pump_step :: "'os file_calls \<Rightarrow> (string \<Rightarrow> 'req option) \<Rightarrow> ('resp \<Rightarrow> string) \<Rightarrow> ('req \<Rightarrow> 'w \<Rightarrow> 'resp \<times> 'w) \<Rightarrow>
    ('req, 'w, 'os) win_pump \<Rightarrow> ('req, 'w, 'os) win_pump \<Rightarrow> bool"
  for c :: "'os file_calls" and parse :: "string \<Rightarrow> 'req option" and ser :: "'resp \<Rightarrow> string" and h :: "'req \<Rightarrow> 'w \<Rightarrow> 'resp \<times> 'w" where
  reader: "wp_reading s \<Longrightarrow> pump_step c parse ser h s (read_request c parse s)"
| main: "pump_step c parse ser h s (snd (win_drain_available ser h s))"

inductive_cases pump_stepE: "pump_step c parse ser h s t"

section \<open>Every request is answered, in order, however the threads run\<close>

text \<open>A file that gives what is left of it in pieces of any length, then ends, and is not stopped.\<close>

definition reads_file :: "'os file_calls \<Rightarrow> ('os \<Rightarrow> string) \<Rightarrow> bool" where
  "reads_file c left \<longleftrightarrow> (\<forall>os. \<not> file_stopping c os) \<and>
     (\<forall>os n. 0 < n \<longrightarrow> (if left os = [] then fst (file_read c n os) = File_Ended \<and> left (snd (file_read c n os)) = []
        else \<exists>k. 0 < k \<and> k \<le> n \<and> fst (file_read c n os) = File_Bytes (take k (left os)) \<and>
               left (snd (file_read c n os)) = drop k (left os)))"

lemma read_exact_file:
  assumes "reads_file c left"
  shows "\<exists>os'. read_exact c n acc os =
      (if n \<le> length (left os) then Read_Success else Read_Closed, acc @ take n (left os), os') \<and> left os' = drop n (left os)"
proof (induction n arbitrary: acc os rule: less_induct)
  case (less n)
  show ?case
  proof (cases "n = 0")
    case True
    then show ?thesis by (subst read_exact.simps) simp
  next
    case False
    have go: "\<not> file_stopping c os" using assms by (simp add: reads_file_def)
    show ?thesis
    proof (cases "left os = []")
      case True
      then have "fst (file_read c n os) = File_Ended" "left (snd (file_read c n os)) = []"
        using assms False unfolding reads_file_def by (metis gr0I)+
      then show ?thesis
        using False True go by (subst read_exact.simps) (auto split: prod.split)
    next
      case nonempty: False
      then obtain k where k: "0 < k" "k \<le> n" "fst (file_read c n os) = File_Bytes (take k (left os))"
        "left (snd (file_read c n os)) = drop k (left os)"
        using assms False unfolding reads_file_def by (metis gr0I)
      define os1 where "os1 = snd (file_read c n os)"
      have rd: "file_read c n os = (File_Bytes (take k (left os)), os1)" using k(3) by (simp add: os1_def prod_eq_iff)
      define m where "m = n - length (take k (left os))"
      have m: "m < n" using k nonempty by (simp add: m_def min_def)
      have step: "read_exact c n acc os = read_exact c m (acc @ take k (left os)) os1"
        using False go rd nonempty k(1) by (subst read_exact.simps) (simp add: m_def)
      obtain os' where os': "read_exact c m (acc @ take k (left os)) os1 =
          (if m \<le> length (left os1) then Read_Success else Read_Closed, (acc @ take k (left os)) @ take m (left os1), os')"
          "left os' = drop m (left os1)"
        using less.IH [OF m] by blast
      have left1: "left os1 = drop k (left os)" using k(4) by (simp add: os1_def)
      have "take k (left os) @ take m (drop k (left os)) = take n (left os)" "drop m (drop k (left os)) = drop n (left os)"
        "(m \<le> length (drop k (left os))) = (n \<le> length (left os))"
        using k(2) by (auto simp: m_def min_def take_add [symmetric] simp flip: take_add)
      then show ?thesis using step os' left1 by auto
    qed
  qed
qed

lemma read_request_frame:
  assumes "reads_file c left" "fits parse enc ser" "left (wp_os s) = frame_of (enc r) @ rest"
  shows "\<exists>os'. read_request c parse s = s\<lparr>wp_os := os', wp_requests := wp_requests s @ [r]\<rparr> \<and> left os' = rest"
proof -
  have fit: "parse (enc r) = Some r" "length (enc r) \<le> kMaxFrameSize" using assms(2) by (simp_all add: fits_def)
  obtain os1 where 1: "read_exact c 4 [] (wp_os s) = (Read_Success, encode_frame_size (word_of_nat (length (enc r))), os1)"
    "left os1 = enc r @ rest"
    using read_exact_file [OF assms(1), of 4 "[]" "wp_os s"] by (auto simp: assms(3) frame_of_def)
  obtain os2 where 2: "read_exact c (length (enc r)) [] os1 = (Read_Success, enc r, os2)" "left os2 = rest"
    using read_exact_file [OF assms(1), of "length (enc r)" "[]" os1] by (auto simp: 1(2))
  have size: "unat (decode_frame_size (encode_frame_size (word_of_nat (length (enc r))))) = length (enc r)"
    using decode_encode_size [of _ "[]"] unat_frame_size [OF fit(2)] by simp
  have "read_request c parse s = s\<lparr>wp_os := os2, wp_requests := wp_requests s @ [r]\<rparr>"
    using 1 2 size fit by (simp add: read_request_def)
  then show ?thesis using 2(2) by blast
qed

lemma read_request_end:
  assumes "reads_file c left" "left (wp_os s) = []"
  shows "\<exists>os'. read_request c parse s = s\<lparr>wp_os := os', wp_reading := False, wp_closed := True, wp_failed := False\<rparr> \<and> left os' = []"
proof -
  obtain os1 where "read_exact c 4 [] (wp_os s) = (Read_Closed, [], os1)" "left os1 = []"
    using read_exact_file [OF assms(1), of 4 "[]" "wp_os s"] by (auto simp: assms(2))
  then have "read_request c parse s = s\<lparr>wp_os := os1, wp_reading := False, wp_closed := True, wp_failed := False\<rparr>" "left os1 = []"
    by (simp_all add: read_request_def finish_def)
  then show ?thesis by blast
qed

lemma serve_append:
  "serve h (as @ bs) w = (fst (serve h as w) @ fst (serve h bs (snd (serve h as w))), snd (serve h bs (snd (serve h as w))))"
  by (induction as arbitrary: w) (simp_all split: prod.splits)

lemma answer_all:
  assumes "fits parse enc ser" "good (wp_output s)"
  shows "answer_requests ser h rs s = (True, s\<lparr>wp_world := snd (serve h rs (wp_world s)),
    wp_output := (wp_output s)\<lparr>written := written (wp_output s) @ frames ser (fst (serve h rs (wp_world s)))\<rparr>\<rparr>)"
  using assms(2)
proof (induction rs arbitrary: s)
  case (Cons r rs)
  have w: "write_message ser m (wp_output s) = (True, (wp_output s)\<lparr>written := written (wp_output s) @ frame_of (ser m)\<rparr>)" for m
    by (rule write_message_frame [OF Cons.prems]) (use assms(1) in \<open>simp add: fits_def\<close>)
  show ?case using Cons by (simp add: w Let_def split: prod.split)
qed simp

text \<open>The requests are those answered, those queued and those still in the file.\<close>

definition pump_inv :: "('os \<Rightarrow> string) \<Rightarrow> ('req \<Rightarrow> string) \<Rightarrow> ('resp \<Rightarrow> string) \<Rightarrow> ('req \<Rightarrow> 'w \<Rightarrow> 'resp \<times> 'w) \<Rightarrow> 'req list \<Rightarrow> 'w \<Rightarrow>
    string \<Rightarrow> ('req, 'w, 'os) win_pump \<Rightarrow> bool" where
  "pump_inv left enc ser h rs w0 out0 s \<longleftrightarrow> (\<exists>answered rest. rs = answered @ wp_requests s @ rest \<and> left (wp_os s) = frames enc rest \<and>
     wp_world s = snd (serve h answered w0) \<and> written (wp_output s) = out0 @ frames ser (fst (serve h answered w0)) \<and>
     good (wp_output s) \<and> \<not> wp_failed s \<and> (\<not> wp_reading s \<longrightarrow> rest = [] \<and> wp_closed s))"

lemma pump_inv_reader:
  assumes "reads_file c left" "fits parse enc ser" "pump_inv left enc ser h rs w0 out0 s" "wp_reading s"
  shows "pump_inv left enc ser h rs w0 out0 (read_request c parse s)"
proof -
  obtain answered rest where inv: "rs = answered @ wp_requests s @ rest" "left (wp_os s) = frames enc rest"
    "wp_world s = snd (serve h answered w0)" "written (wp_output s) = out0 @ frames ser (fst (serve h answered w0))"
    "good (wp_output s)" "\<not> wp_failed s"
    using assms(3) unfolding pump_inv_def by blast
  show ?thesis
  proof (cases rest)
    case Nil
    then show ?thesis
      using read_request_end [OF assms(1), of s parse] inv unfolding pump_inv_def by (auto intro: exI [of _ answered])
  next
    case (Cons r rest')
    then obtain os' where "read_request c parse s = s\<lparr>wp_os := os', wp_requests := wp_requests s @ [r]\<rparr>" "left os' = frames enc rest'"
      using read_request_frame [OF assms(1,2), of s r "frames enc rest'"] inv(2) by auto
    then show ?thesis
      using inv assms(4) Cons unfolding pump_inv_def by (auto intro: exI [of _ answered])
  qed
qed

lemma pump_inv_main:
  assumes "fits parse enc ser" "pump_inv left enc ser h rs w0 out0 s"
  shows "pump_inv left enc ser h rs w0 out0 (snd (win_drain_available ser h s))" "fst (win_drain_available ser h s)"
    "wp_requests (snd (win_drain_available ser h s)) = []" "wp_reading (snd (win_drain_available ser h s)) = wp_reading s"
proof -
  obtain answered rest where inv: "rs = answered @ wp_requests s @ rest" "left (wp_os s) = frames enc rest"
    "wp_world s = snd (serve h answered w0)" "written (wp_output s) = out0 @ frames ser (fst (serve h answered w0))"
    "good (wp_output s)" "\<not> wp_failed s" "\<not> wp_reading s \<longrightarrow> rest = [] \<and> wp_closed s"
    using assms(2) unfolding pump_inv_def by blast
  have run: "win_drain_available ser h s = (True, s\<lparr>wp_requests := [], wp_world := snd (serve h (wp_requests s) (wp_world s)),
      wp_output := (wp_output s)\<lparr>written := written (wp_output s) @ frames ser (fst (serve h (wp_requests s) (wp_world s)))\<rparr>\<rparr>)"
    using answer_all [OF assms(1), of "s\<lparr>wp_requests := []\<rparr>"] inv(5,6) by (simp add: win_drain_available_def Let_def)
  have app: "frames ser (as @ bs) = frames ser as @ frames ser bs" for as bs by (simp add: frames_def)
  show "pump_inv left enc ser h rs w0 out0 (snd (win_drain_available ser h s))"
    unfolding pump_inv_def run
    by (rule exI [of _ "answered @ wp_requests s"], rule exI [of _ rest]) (use inv in \<open>simp add: serve_append app\<close>)
  show "fst (win_drain_available ser h s)" "wp_requests (snd (win_drain_available ser h s)) = []"
    "wp_reading (snd (win_drain_available ser h s)) = wp_reading s"
    by (simp_all add: run)
qed

definition fresh_pump :: "'w \<Rightarrow> 'os \<Rightarrow> ('req, 'w, 'os) win_pump" where
  "fresh_pump w os = \<lparr>wp_output = \<lparr>written = [], good = True\<rparr>, wp_closed = False, wp_failed = False, wp_requests = [],
     wp_reading = True, wp_world = w, wp_os = os\<rparr>"

interpretation pump: step_relation "pump_step c parse ser h"
    "\<lambda>s. reads_file c left \<and> fits parse enc ser \<and> pump_inv left enc ser h rs w0 out0 s"
  for c :: "'os file_calls" and parse :: "string \<Rightarrow> 'req option" and ser :: "'resp \<Rightarrow> string" and h :: "'req \<Rightarrow> 'w \<Rightarrow> 'resp \<times> 'w"
    and left enc rs w0 out0
proof unfold_locales
  fix s t
  assume inv: "reads_file c left \<and> fits parse enc ser \<and> pump_inv left enc ser h rs w0 out0 s" and "pump_step c parse ser h s t"
  from this(2) show "reads_file c left \<and> fits parse enc ser \<and> pump_inv left enc ser h rs w0 out0 t"
    using inv by cases (auto intro: pump_inv_reader pump_inv_main(1))
qed

definition new_win_pump :: "bool \<Rightarrow> 'w \<Rightarrow> 'os \<Rightarrow> ('req, 'w, 'os) win_pump" where
  "new_win_pump ready w os = (if ready then fresh_pump w os else (fresh_pump w os)\<lparr>wp_failed := True, wp_reading := False\<rparr>)"

lemma unready_pump_fails: "\<not> fst (win_drain_available ser h (new_win_pump False w os))"
  by (simp add: win_drain_available_def new_win_pump_def fresh_pump_def Let_def)

lemma drained:
  assumes "reads_file c left" "fits parse enc ser" "left os = frames enc rs"
    "(pump_step c parse ser h)\<^sup>*\<^sup>* (fresh_pump w os) s" "\<not> wp_reading s"
  shows "fst (win_drain_available ser h s)"
    "written (wp_output (snd (win_drain_available ser h s))) = frames ser (fst (serve h rs w))"
    "wp_world (snd (win_drain_available ser h s)) = snd (serve h rs w)"
    "wp_closed (snd (win_drain_available ser h s))"
proof -
  have "pump_inv left enc ser h rs w [] (fresh_pump w os)"
    using assms(3) by (auto simp: pump_inv_def fresh_pump_def intro: exI [of _ "[]"])
  then have "pump_inv left enc ser h rs w [] s"
    using pump.reachable [OF assms(4)] assms(1,2) by blast
  from pump_inv_main [OF assms(2) this] assms(5)
  show "fst (win_drain_available ser h s)" "wp_closed (snd (win_drain_available ser h s))"
    "written (wp_output (snd (win_drain_available ser h s))) = frames ser (fst (serve h rs w))"
    "wp_world (snd (win_drain_available ser h s)) = snd (serve h rs w)"
    unfolding pump_inv_def by auto
qed


text \<open>The file of two requests, cut into pieces of three bytes; the main thread answers once in between.\<close>

definition piecewise :: "string file_calls" where
  "piecewise = \<lparr>file_read = (\<lambda>n os. if os = [] then (File_Ended, []) else (File_Bytes (take (min 3 n) os), drop (min 3 n) os)),
     file_stopping = (\<lambda>os. False)\<rparr>"

lemma piecewise_file: "reads_file piecewise (\<lambda>os. os)"
  by (auto simp: reads_file_def piecewise_def min_def intro: exI [of _ "Suc 2"])

lemma byte_fits: "fits byte_parse (\<lambda>c. [c]) (\<lambda>c. [c, c])"
  by (simp add: fits_def byte_parse_def kMaxFrameSize_def)

definition example_run :: "(char, nat, string) win_pump" where
  "example_run = (let reader = read_request piecewise byte_parse; main = (\<lambda>s. snd (win_drain_available (\<lambda>c. [c, c]) (\<lambda>r n. (r, n + 1)) s))
     in reader (reader (main (reader (fresh_pump 0 (frames (\<lambda>c. [c]) ''ab''))))))"

lemma example_run_steps:
  "(pump_step piecewise byte_parse (\<lambda>c. [c, c]) (\<lambda>r n. (r, n + 1)))\<^sup>*\<^sup>* (fresh_pump 0 (frames (\<lambda>c. [c]) ''ab'')) example_run \<and>
   \<not> wp_reading example_run"
proof -
  let ?p = "pump_step piecewise byte_parse (\<lambda>c. [c, c]) (\<lambda>r n. (r, n + 1))"
  define s0 :: "(char, nat, string) win_pump" where "s0 = fresh_pump 0 (frames (\<lambda>c. [c]) ''ab'')"
  define s1 where "s1 = read_request piecewise byte_parse s0"
  define s2 where "s2 = snd (win_drain_available (\<lambda>c. [c, c]) (\<lambda>r n. (r, n + 1)) s1)"
  define s3 where "s3 = read_request piecewise byte_parse s2"
  have run: "example_run = read_request piecewise byte_parse s3"
    by (simp add: example_run_def s0_def s1_def s2_def s3_def Let_def)
  obtain o1 where 1: "s1 = s0\<lparr>wp_os := o1, wp_requests := ''a''\<rparr>" "o1 = frames (\<lambda>c. [c]) ''b''"
    using read_request_frame [OF piecewise_file byte_fits, of s0 "CHR ''a''" "frames (\<lambda>c. [c]) ''b''"] by (auto simp: s0_def s1_def fresh_pump_def)
  have s2: "wp_requests s2 = []" "wp_reading s2" "wp_os s2 = frames (\<lambda>c. [c]) ''b''"
    by (simp_all add: s2_def 1 s0_def fresh_pump_def win_drain_available_def answer_all [OF byte_fits] Let_def)
  obtain o3 where 3: "s3 = s2\<lparr>wp_os := o3, wp_requests := ''b''\<rparr>" "o3 = []"
    using read_request_frame [OF piecewise_file byte_fits, of s2 "CHR ''b''" "[]"] s2 by (auto simp: s3_def)
  obtain o4 where 4: "example_run = s3\<lparr>wp_os := o4, wp_reading := False, wp_closed := True, wp_failed := False\<rparr>"
    using read_request_end [OF piecewise_file, of s3 byte_parse] 3 by (auto simp: run)
  have "wp_reading s0" "wp_reading s3" by (simp_all add: 3(1) s2(2)) (simp add: s0_def fresh_pump_def)
  then have "?p s0 s1" "?p s1 s2" "?p s2 s3" "?p s3 example_run"
    using s2(2) pump_step.main [of piecewise byte_parse "\<lambda>c. [c, c]" "\<lambda>r n. (r, n + 1)" s1]
    unfolding s1_def s3_def run by (simp_all add: pump_step.reader s2_def s1_def)
  then have "?p\<^sup>*\<^sup>* s0 example_run"
    by (meson converse_rtranclp_into_rtranclp rtranclp.rtrancl_refl)
  moreover have "\<not> wp_reading example_run" unfolding 4 by simp
  ultimately show ?thesis unfolding s0_def by simp
qed


end
