(* ===== verification/Stdio_Server.thy ===== *)
theory Stdio_Server
  imports Stream_Server Physical_Io Api_Service Motion_Telemetry
begin

text \<open>
  The server on standard input and output (\<^verbatim>\<open>src/apps/sim_stream_stdio_server.cpp\<close>): the two emitters of events, what the
  server logs, the pump that runs while the firmware blocks, and the main loop.  The request pump, the run of the firmware and
  the calls to the API are parameters; \<open>posix_server\<close> puts the pump of \<^verbatim>\<open>Framed_Stream\<close> in, and \<open>api_fills\<close> the API.
  Times of the steady clock are in nanoseconds since its epoch.
\<close>

section \<open>The state\<close>

datatype 'resp stream_frame =
    Response_Frame 'resp
  | Snapshot_Event u64 "pb_snapshot \<times> pb_memory_summary"
  | Physical_Event u64 io_snapshot
  | Telemetry_Event u64 pb_telemetry

record emitter =
  next_emit :: int
  event_number :: u64

record transition_log =
  last_booted :: "bool option"
  last_homed :: "bool option"
  last_axis_steps :: "int list option"
  axes_moving :: bool

record ('w, 'p) server =
  srv_world :: 'w
  srv_pump :: 'p
  srv_out :: ostream
  srv_snapshots :: emitter
  srv_transitions :: transition_log
  srv_physical :: emitter
  srv_stream_ok :: bool
  srv_log :: "(string \<times> string) list"

type_synonym ('w, 'p) server_step = "('w, 'p) server \<Rightarrow> (bool \<times> ('w, 'p) server) option"

record ('w, 'p, 'resp) server_code =
  sc_now :: "'w \<Rightarrow> int"
  sc_fill_snapshot :: "'w \<Rightarrow> ((pb_snapshot \<times> pb_memory_summary) option \<times> 'w) option"
  sc_fill_physical :: "'w \<Rightarrow> (io_snapshot option \<times> 'w) option"
  sc_serialise :: "'resp stream_frame \<Rightarrow> string"
  sc_drain :: "('w, 'p) server_step"
  sc_drain_cooperative :: "('w, 'p) server_step"
  sc_closed :: "'p \<Rightarrow> bool"
  sc_pump :: "(('w, 'p) server \<Rightarrow> ('w, 'p) server option) \<Rightarrow> ('w, 'p) server \<Rightarrow> ('w, 'p) server option"

section \<open>The emitters\<close>

definition new_emitter :: emitter where "new_emitter = \<lparr>next_emit = 0, event_number = 1\<rparr>"

definition emit_physical_io_due :: "('w, 'p, 'resp) server_code \<Rightarrow> ('w, 'p) server_step" where
  "emit_physical_io_due code s =
     (let now = sc_now code (srv_world s)
      in if now < next_emit (srv_physical s) then Some (True, s)
         else let s = s\<lparr>srv_physical := (srv_physical s)\<lparr>next_emit := now + 100 * 1000000\<rparr>\<rparr>
              in case sc_fill_physical code (srv_world s) of
                   None \<Rightarrow> None
                 | Some (None, w) \<Rightarrow> Some (True, s\<lparr>srv_world := w\<rparr>)
                 | Some (Some snapshot, w) \<Rightarrow>
                     (let n = event_number (srv_physical s);
                          (fine, out) = write_message (sc_serialise code) (Physical_Event n snapshot) (srv_out s)
                      in Some (fine, s\<lparr>srv_world := w, srv_physical := (srv_physical s)\<lparr>event_number := n + 1\<rparr>, srv_out := out\<rparr>)))"

definition log_change :: "string \<Rightarrow> string \<Rightarrow> string \<Rightarrow> bool \<Rightarrow> bool option \<Rightarrow> (string \<times> string) list" where
  "log_change category yes no now before =
     (if before = None \<or> the before \<noteq> now then [(category, if now then yes else no)] else [])"

definition log_state_transitions :: "pb_snapshot \<Rightarrow> transition_log \<Rightarrow> (string \<times> string) list \<times> transition_log" where
  "log_state_transitions snapshot l =
     (let booted_log = log_change ''firmware'' ''booted'' ''off'' (psn_booted snapshot) (last_booted l);
          homed_log = log_change ''motion'' ''machine homed'' ''machine not homed'' (psn_homed snapshot) (last_homed l);
          axis_steps = map px_physical_steps (psn_axes snapshot);
          (axes_log, moving) = (case last_axis_steps l of
             None \<Rightarrow> ([], axes_moving l)
           | Some before \<Rightarrow>
               (let axes_changed = axis_steps \<noteq> before
                in if axes_changed \<noteq> axes_moving l then ([(''motion'', if axes_changed then ''axes moving'' else ''axes idle'')], axes_changed)
                   else ([], axes_moving l)))
      in (booted_log @ homed_log @ axes_log,
          l\<lparr>last_booted := Some (psn_booted snapshot), last_homed := Some (psn_homed snapshot),
            last_axis_steps := Some axis_steps, axes_moving := moving\<rparr>))"

definition new_transitions :: transition_log where
  "new_transitions = \<lparr>last_booted = None, last_homed = None, last_axis_steps = None, axes_moving = False\<rparr>"

definition emit_machine_snapshot_due :: "('w, 'p, 'resp) server_code \<Rightarrow> ('w, 'p) server_step" where
  "emit_machine_snapshot_due code s =
     (let now = sc_now code (srv_world s)
      in if now < next_emit (srv_snapshots s) then Some (True, s)
         else let s = s\<lparr>srv_snapshots := (srv_snapshots s)\<lparr>next_emit := now + 200 * 1000000\<rparr>\<rparr>
              in case sc_fill_snapshot code (srv_world s) of
                   None \<Rightarrow> None
                 | Some (None, w) \<Rightarrow> Some (True, s\<lparr>srv_world := w\<rparr>)
                 | Some (Some snapshot, w) \<Rightarrow>
                     (let (logged, l) = log_state_transitions (fst snapshot) (srv_transitions s);
                          n = event_number (srv_snapshots s);
                          (fine, out) = write_message (sc_serialise code) (Snapshot_Event n snapshot) (srv_out s)
                      in Some (fine, s\<lparr>srv_world := w, srv_log := srv_log s @ logged, srv_transitions := l,
                           srv_snapshots := (srv_snapshots s)\<lparr>event_number := n + 1\<rparr>, srv_out := out\<rparr>)))"

text \<open>The sink of the telemetry, which does not look at what the write returns.\<close>

definition empty_telemetry_message :: pb_telemetry where
  "empty_telemetry_message = \<lparr>pte_booted = False, pte_homed = False, pte_physical_travel = None, pte_spindle = None,
     pte_atc = None, pte_axes = [], pte_time_us = 0\<rparr>"

definition telemetry_sink :: "('w, 'p, 'resp) server_code \<Rightarrow> machine_telemetry \<Rightarrow> ('w, 'p) server \<Rightarrow> ('w, 'p) server" where
  "telemetry_sink code sample s = s\<lparr>srv_out := snd (write_message (sc_serialise code)
     (Telemetry_Event (tm_sequence sample) (fill_telemetry_sample_proto sample empty_telemetry_message)) (srv_out s))\<rparr>"

section \<open>The loop\<close>

definition auxiliary_pump :: "('w, 'p, 'resp) server_code \<Rightarrow> ('w, 'p) server \<Rightarrow> ('w, 'p) server option" where
  "auxiliary_pump code s = fold (\<lambda>act s. case s of
       None \<Rightarrow> None
     | Some s \<Rightarrow> if srv_stream_ok s then map_option (\<lambda>(fine, s). s\<lparr>srv_stream_ok := fine\<rparr>) (act s) else Some s)
     [sc_drain_cooperative code, emit_machine_snapshot_due code, emit_physical_io_due code] (Some s)"

text \<open>One pass: whether the loop goes on.\<close>

definition server_pass :: "('w, 'p, 'resp) server_code \<Rightarrow> ('w, 'p) server_step" where
  "server_pass code s = (case sc_drain code s of
     None \<Rightarrow> None
   | Some (fine, s) \<Rightarrow>
       if \<not> fine \<or> sc_closed code (srv_pump s) then Some (False, s)
       else case sc_pump code (auxiliary_pump code) s of
           None \<Rightarrow> None
         | Some s \<Rightarrow>
             if \<not> srv_stream_ok s then Some (False, s)
             else case emit_machine_snapshot_due code s of
                 None \<Rightarrow> None
               | Some (fine, s) \<Rightarrow> if \<not> fine then Some (False, s) else emit_physical_io_due code s)"

partial_function (option) server_loop :: "('w, 'p, 'resp) server_code \<Rightarrow> ('w, 'p) server \<Rightarrow> ('w, 'p) server option" where
  "server_loop code s = (case server_pass code s of
     None \<Rightarrow> None
   | Some (go_on, s) \<Rightarrow> if go_on then server_loop code s else Some s)"

definition server_main :: "('w, 'p, 'resp) server_code \<Rightarrow> ('w, 'p) server \<Rightarrow> (nat \<times> ('w, 'p) server) option" where
  "server_main code s = map_option (\<lambda>s. (if sc_closed code (srv_pump s) then 0 else 1, s)) (server_loop code s)"

definition new_server :: "'w \<Rightarrow> 'p \<Rightarrow> ('w, 'p) server" where
  "new_server w p = \<lparr>srv_world = w, srv_pump = p, srv_out = \<lparr>written = [], good = True\<rparr>, srv_snapshots = new_emitter,
     srv_transitions = new_transitions, srv_physical = new_emitter, srv_stream_ok = True, srv_log = []\<rparr>"

text \<open>The API's side: what the emitters ask it for.\<close>

definition api_fill_physical :: "('h, 'w, 'k, 'os) api_code \<Rightarrow> ('h, 'w, 'k option) laser_source \<Rightarrow> ('h, 'w, 'k, 'os) world \<Rightarrow>
    (io_snapshot option \<times> ('h, 'w, 'k, 'os) world) option" where
  "api_fill_physical ac laser w =
     map_option (\<lambda>(snapshot, sim). (snapshot, put_api ((api_view w)\<lparr>api_sim := sim\<rparr>) w))
       (fill_physical_io_snapshot_nonblocking (ac_fw ac) laser (api_sim (api_view w)))"

definition api_fills :: "('h, 'w, 'k, 'os) api_code \<Rightarrow> ('h, 'w, 'k option) laser_source \<Rightarrow>
    (('h, 'w, 'k, 'os) world, 'p, 'resp) server_code \<Rightarrow> (('h, 'w, 'k, 'os) world, 'p, 'resp) server_code" where
  "api_fills ac laser code = code\<lparr>sc_fill_snapshot := fill_machine_snapshot_nonblocking ac, sc_fill_physical := api_fill_physical ac laser\<rparr>"

text \<open>The two pumps.\<close>

record 'os posix_input =
  pi_closed :: bool
  pi_buffer :: string
  pi_os :: 'os

definition posix_drain :: "'os stdin_calls \<Rightarrow> (string \<Rightarrow> 'req option) \<Rightarrow> ('resp stream_frame \<Rightarrow> string) \<Rightarrow> ('req \<Rightarrow> 'w \<Rightarrow> 'resp \<times> 'w) \<Rightarrow>
    ('w, 'os posix_input) server_step" where
  "posix_drain c parse ser h s =
     (let i = srv_pump s
      in map_option (\<lambda>(fine, p). (fine, s\<lparr>srv_world := pump_world p, srv_out := pump_output p,
             srv_pump := \<lparr>pi_closed = pump_closed p, pi_buffer = pump_buffer p, pi_os = pump_os p\<rparr>\<rparr>))
           (drain_available c parse (\<lambda>response. ser (Response_Frame response)) h
             \<lparr>pump_output = srv_out s, pump_closed = pi_closed i, pump_buffer = pi_buffer i, pump_world = srv_world s, pump_os = pi_os i\<rparr>))"

definition posix_server :: "'os stdin_calls \<Rightarrow> (string \<Rightarrow> 'req option) \<Rightarrow> ('req \<Rightarrow> 'w \<Rightarrow> 'resp \<times> 'w) \<Rightarrow> ('req \<Rightarrow> 'w \<Rightarrow> 'resp \<times> 'w) \<Rightarrow>
    ('w, 'os posix_input, 'resp) server_code \<Rightarrow> ('w, 'os posix_input, 'resp) server_code" where
  "posix_server c parse h hc code = code\<lparr>sc_drain := posix_drain c parse (sc_serialise code) h,
     sc_drain_cooperative := posix_drain c parse (sc_serialise code) hc, sc_closed := pi_closed\<rparr>"

text \<open>The output and the world of the pump of Windows are those of the server; its own are not looked at.\<close>

definition windows_drain :: "('resp stream_frame \<Rightarrow> string) \<Rightarrow> ('req \<Rightarrow> 'w \<Rightarrow> 'resp \<times> 'w) \<Rightarrow> ('w, ('req, 'w, 'os) win_pump) server_step" where
  "windows_drain ser h s =
     (let (fine, p) = win_drain_available (\<lambda>response. ser (Response_Frame response)) h
            ((srv_pump s)\<lparr>wp_output := srv_out s, wp_world := srv_world s\<rparr>)
      in Some (fine, s\<lparr>srv_world := wp_world p, srv_out := wp_output p, srv_pump := p\<rparr>))"

definition windows_server :: "('req \<Rightarrow> 'w \<Rightarrow> 'resp \<times> 'w) \<Rightarrow> ('req \<Rightarrow> 'w \<Rightarrow> 'resp \<times> 'w) \<Rightarrow>
    ('w, ('req, 'w, 'os) win_pump, 'resp) server_code \<Rightarrow> ('w, ('req, 'w, 'os) win_pump, 'resp) server_code" where
  "windows_server h hc code = code\<lparr>sc_drain := windows_drain (sc_serialise code) h,
     sc_drain_cooperative := windows_drain (sc_serialise code) hc, sc_closed := wp_closed\<rparr>"

section \<open>The log tells the changes\<close>

fun log_snapshots :: "pb_snapshot list \<Rightarrow> transition_log \<Rightarrow> (string \<times> string) list \<times> transition_log" where
  "log_snapshots [] l = ([], l)"
| "log_snapshots (sn # sns) l =
     (let (now, l) = log_state_transitions sn l; (later, l) = log_snapshots sns l in (now @ later, l))"

text \<open>The values that differ from the one before, the first of them from \<open>before\<close>.\<close>

definition transitions :: "'a option \<Rightarrow> 'a list \<Rightarrow> 'a list" where
  "transitions before xs = (case before of None \<Rightarrow> remdups_adj xs | Some a \<Rightarrow> tl (remdups_adj (a # xs)))"

lemma transitions_simps [simp]:
  "transitions before [] = []"
  "transitions before (x # xs) = (if before = Some x then transitions before xs else x # transitions (Some x) xs)"
  by (auto simp: transitions_def remdups_adj_Cons_alt split: option.split)

definition steps_of :: "pb_snapshot \<Rightarrow> int list" where
  "steps_of sn = map px_physical_steps (psn_axes sn)"

fun step_changes :: "int list option \<Rightarrow> int list list \<Rightarrow> bool list" where
  "step_changes before [] = []"
| "step_changes None (x # xs) = step_changes (Some x) xs"
| "step_changes (Some a) (x # xs) = (x \<noteq> a) # step_changes (Some x) xs"

definition booted_message :: "bool \<Rightarrow> string \<times> string" where
  "booted_message b = (''firmware'', if b then ''booted'' else ''off'')"

definition homed_message :: "bool \<Rightarrow> string \<times> string" where
  "homed_message b = (''motion'', if b then ''machine homed'' else ''machine not homed'')"

definition moving_message :: "bool \<Rightarrow> string \<times> string" where
  "moving_message b = (''motion'', if b then ''axes moving'' else ''axes idle'')"

definition among :: "(bool \<Rightarrow> string \<times> string) \<Rightarrow> (string \<times> string) list \<Rightarrow> (string \<times> string) list" where
  "among message = filter (\<lambda>e. e \<in> range message)"

lemma among_simps [simp]:
  "among message [] = []" "among message (as @ bs) = among message as @ among message bs"
  "among message (e # es) = (if e = message True \<or> e = message False then e # among message es else among message es)"
  by (auto simp: among_def image_iff) (metis (full_types))+

lemma log_change_message:
  "log_change ''firmware'' ''booted'' ''off'' now before = (if before = Some now then [] else [booted_message now])"
  "log_change ''motion'' ''machine homed'' ''machine not homed'' now before = (if before = Some now then [] else [homed_message now])"
  by (auto simp: log_change_def booted_message_def homed_message_def)

lemma log_snapshots_changes:
  "among booted_message (fst (log_snapshots sns l)) = map booted_message (transitions (last_booted l) (map psn_booted sns)) \<and>
   among homed_message (fst (log_snapshots sns l)) = map homed_message (transitions (last_homed l) (map psn_homed sns)) \<and>
   among moving_message (fst (log_snapshots sns l)) =
     map moving_message (transitions (Some (axes_moving l)) (step_changes (last_axis_steps l) (map steps_of sns)))"
proof (induction sns arbitrary: l)
  case (Cons sn sns)
  show ?case
    using Cons.IH [of "snd (log_state_transitions sn l)"]
    by (cases "last_axis_steps l")
      (auto simp: log_state_transitions_def log_change_message Let_def case_prod_unfold steps_of_def
        booted_message_def homed_message_def moving_message_def)
qed simp

text \<open>
  C39: whatever the snapshots, the log has a message for the firmware exactly where its state differs from that of the snapshot
  before, one for homing exactly where it changes, and one for the axes exactly where they start or stop to differ from one
  snapshot to the next; the first snapshot reports the firmware and homing, and of the axes nothing.
\<close>
theorem state_changes_logged:
  "among booted_message (fst (log_snapshots sns new_transitions)) = map booted_message (remdups_adj (map psn_booted sns)) \<and>
   among homed_message (fst (log_snapshots sns new_transitions)) = map homed_message (remdups_adj (map psn_homed sns)) \<and>
   among moving_message (fst (log_snapshots sns new_transitions)) =
     map moving_message (tl (remdups_adj (False # map2 (\<noteq>) (map steps_of sns) (tl (map steps_of sns)))))"
proof -
  have later: "step_changes (Some x) xs = map2 (\<noteq>) (x # xs) xs" for x xs
    by (induction xs arbitrary: x) auto
  have "step_changes None xs = map2 (\<noteq>) xs (tl xs)" for xs
    by (cases xs) (simp_all add: later)
  then show ?thesis
    using log_snapshots_changes [of sns new_transitions] by (simp add: new_transitions_def transitions_def)
qed

section \<open>What is left unanswered when standard input ends\<close>

text \<open>A file on standard input: always ready, it gives what is left of it in pieces, then its end.\<close>

definition posix_file :: "'os stdin_calls \<Rightarrow> ('os \<Rightarrow> string) \<Rightarrow> bool" where
  "posix_file c left \<longleftrightarrow>
     (\<forall>os. fst (sys_poll c os) = Poll_Ready False True \<and> left (snd (sys_poll c os)) = left os) \<and>
     (\<forall>os n. 0 < n \<longrightarrow> (if left os = [] then fst (sys_read c n os) = Read_Eof
        else \<exists>k. 0 < k \<and> k \<le> n \<and> fst (sys_read c n os) = Read_Bytes (take k (left os)) \<and>
               left (snd (sys_read c n os)) = drop k (left os)))"

lemma pump_read_file:
  assumes "posix_file c left"
  shows "\<exists>s'. pump_read c s = Some (False, s') \<and> pump_closed s' \<and> pump_buffer s' = pump_buffer s @ left (pump_os s) \<and>
    pump_output s' = pump_output s \<and> pump_world s' = pump_world s"
proof (induction "length (left (pump_os s))" arbitrary: s rule: less_induct)
  case less
  obtain os where poll: "sys_poll c (pump_os s) = (Poll_Ready False True, os)" "left os = left (pump_os s)"
    using assms unfolding posix_file_def by (metis prod.collapse)
  show ?case
  proof (cases "left os = []")
    case True
    then have "fst (sys_read c 4096 os) = Read_Eof" using assms by (simp add: posix_file_def)
    then show ?thesis using poll True by (subst pump_read.simps) (auto split: prod.split)
  next
    case False
    then obtain k where k: "0 < k" "fst (sys_read c 4096 os) = Read_Bytes (take k (left os))"
      "left (snd (sys_read c 4096 os)) = drop k (left os)"
      using assms unfolding posix_file_def by (metis zero_less_numeral)
    define s1 where "s1 = s\<lparr>pump_os := snd (sys_read c 4096 os), pump_buffer := pump_buffer s @ take k (left os)\<rparr>"
    have "pump_read c s = pump_read c s1"
      using poll k(2) by (subst pump_read.simps) (simp add: s1_def case_prod_unfold)
    moreover have "length (left (pump_os s1)) < length (left (pump_os s))"
      using k False by (simp add: s1_def flip: poll(2))
    moreover have "pump_buffer s1 @ left (pump_os s1) = pump_buffer s @ left (pump_os s)"
      by (simp add: s1_def k(3) flip: poll(2))
    ultimately show ?thesis
      using less [of s1] by (auto simp: s1_def)
  qed
qed

lemma posix_drain_file:
  assumes "posix_file c left"
  shows "\<exists>i. posix_drain c parse ser h s = Some (False, s\<lparr>srv_pump := i\<rparr>) \<and> pi_closed i \<and>
    pi_buffer i = pi_buffer (srv_pump s) @ left (pi_os (srv_pump s))"
proof -
  obtain p where "pump_read c \<lparr>pump_output = srv_out s, pump_closed = pi_closed (srv_pump s), pump_buffer = pi_buffer (srv_pump s),
      pump_world = srv_world s, pump_os = pi_os (srv_pump s)\<rparr> = Some (False, p)"
    "pump_closed p" "pump_buffer p = pi_buffer (srv_pump s) @ left (pi_os (srv_pump s))" "pump_output p = srv_out s" "pump_world p = srv_world s"
    using pump_read_file [OF assms, of "\<lparr>pump_output = srv_out s, pump_closed = pi_closed (srv_pump s), pump_buffer = pi_buffer (srv_pump s),
      pump_world = srv_world s, pump_os = pi_os (srv_pump s)\<rparr>"] by auto
  then show ?thesis
    by (intro exI [of _ "\<lparr>pi_closed = pump_closed p, pi_buffer = pump_buffer p, pi_os = pump_os p\<rparr>"])
      (simp add: posix_drain_def drain_available_def Let_def)
qed

lemma main_stops: "server_pass code s = Some (False, t) \<Longrightarrow> sc_closed code (srv_pump t) \<Longrightarrow> server_main code s = Some (0, t)"
  by (simp add: server_main_def server_loop.simps [of code s])

text \<open>
  With the pump of POSIX, a server whose standard input is a file reads all of it in the first pass, sees the end, and exits with
  code 0: whatever requests the file has, none is handed to the handler and nothing is written; they are in the buffer, whole.
\<close>
theorem posix_exits_unanswered:
  assumes "posix_file c left" "left (pi_os input) = frames enc rs" "pi_buffer input = []"
  shows "\<exists>t. server_main (posix_server c parse h hc code) (new_server w input) = Some (0, t) \<and>
    srv_world t = w \<and> written (srv_out t) = [] \<and> pi_buffer (srv_pump t) = frames enc rs"
proof -
  obtain i where i: "posix_drain c parse (sc_serialise code) h (new_server w input) = Some (False, (new_server w input)\<lparr>srv_pump := i\<rparr>)"
    "pi_closed i" "pi_buffer i = pi_buffer (srv_pump (new_server w input)) @ left (pi_os (srv_pump (new_server w input)))"
    using posix_drain_file [OF assms(1)] by blast
  have "server_pass (posix_server c parse h hc code) (new_server w input) = Some (False, (new_server w input)\<lparr>srv_pump := i\<rparr>)"
    using i(1) by (simp add: server_pass_def posix_server_def)
  then have "server_main (posix_server c parse h hc code) (new_server w input) = Some (0, (new_server w input)\<lparr>srv_pump := i\<rparr>)"
    by (rule main_stops) (simp add: posix_server_def i(2))
  then show ?thesis
    using i(3) assms(2,3) by (simp add: new_server_def)
qed

text \<open>A file of two requests of one byte each, read four bytes at a time.\<close>

definition short_file :: "string stdin_calls" where
  "short_file = \<lparr>sys_poll = (\<lambda>os. (Poll_Ready False True, os)),
     sys_read = (\<lambda>n os. if os = [] then (Read_Eof, []) else (Read_Bytes (take (min 4 n) os), drop (min 4 n) os))\<rparr>"

theorem posix_exits_unanswered_witness:
  "\<exists>t. server_main (posix_server short_file byte_parse (\<lambda>r n. (r, n + 1)) (\<lambda>r n. (r, n + 1)) code)
      (new_server (0 :: nat) \<lparr>pi_closed = False, pi_buffer = [], pi_os = frames (\<lambda>c. [c]) ''ab''\<rparr>) = Some (0, t) \<and>
    srv_world t = 0 \<and> written (srv_out t) = [] \<and> pi_buffer (srv_pump t) = frames (\<lambda>c. [c]) ''ab''"
proof -
  have posix: "posix_file short_file (\<lambda>os. os)"
    by (auto simp: posix_file_def short_file_def min_def intro: exI [of _ "Suc 3"])
  show ?thesis by (rule posix_exits_unanswered [OF posix]) simp_all
qed

text \<open>
  With the pump of Windows, the same file is answered to its end, if the reader gets there before the first pass: the exit code is
  0 as well, and exactly the responses have been written, in the order of the requests.
\<close>
theorem windows_exits_answered:
  assumes "reads_file c left" "fits parse enc (\<lambda>response. sc_serialise code (Response_Frame response))" "left os = frames enc rs"
    "(pump_step c parse (\<lambda>response. sc_serialise code (Response_Frame response)) h)\<^sup>*\<^sup>* (fresh_pump w os) p" "\<not> wp_reading p"
  shows "\<exists>t. server_main (windows_server h hc code) ((new_server (wp_world p) p)\<lparr>srv_out := wp_output p\<rparr>) = Some (0, t) \<and>
    srv_world t = snd (serve h rs w) \<and>
    written (srv_out t) = frames (\<lambda>response. sc_serialise code (Response_Frame response)) (fst (serve h rs w))"
proof -
  let ?s = "(new_server (wp_world p) p)\<lparr>srv_out := wp_output p\<rparr>"
  let ?d = "win_drain_available (\<lambda>response. sc_serialise code (Response_Frame response)) h p"
  have drain: "windows_drain (sc_serialise code) h ?s =
      Some (fst ?d, ?s\<lparr>srv_world := wp_world (snd ?d), srv_out := wp_output (snd ?d), srv_pump := snd ?d\<rparr>)"
    by (simp add: windows_drain_def new_server_def case_prod_unfold Let_def)
  have all: "fst ?d" "written (wp_output (snd ?d)) = frames (\<lambda>response. sc_serialise code (Response_Frame response)) (fst (serve h rs w))"
    "wp_world (snd ?d) = snd (serve h rs w)" "wp_closed (snd ?d)"
    using drained [OF assms] by simp_all
  have "server_pass (windows_server h hc code) ?s =
      Some (False, ?s\<lparr>srv_world := wp_world (snd ?d), srv_out := wp_output (snd ?d), srv_pump := snd ?d\<rparr>)"
    using all(1,4) drain by (simp add: server_pass_def windows_server_def)
  then have "server_main (windows_server h hc code) ?s =
      Some (0, ?s\<lparr>srv_world := wp_world (snd ?d), srv_out := wp_output (snd ?d), srv_pump := snd ?d\<rparr>)"
    by (rule main_stops) (simp add: windows_server_def all(4))
  then show ?thesis using all by simp
qed

end
