(* ===== verification/Platform_Io.thy ===== *)
theory Platform_Io
  imports Transport_Manager
begin

text \<open>
  What the transports call of the operating system, on both platforms: \<^verbatim>\<open>src/protocol/platform_io_posix.cpp\<close> and
  \<^verbatim>\<open>src/protocol/platform_io_windows.cpp\<close>.  The system calls themselves are parameters on a state \<open>'os\<close>; a descriptor of
  POSIX is a 32-bit integer and a socket of Windows a 64-bit one.  Each platform provides the calls \<open>sys_calls\<close> that the theory
  \<^verbatim>\<open>Transport\<close> is written on.  A platform stores integers with the least byte first, which is what \<open>htons\<close> turns round.
\<close>

section \<open>Addresses\<close>

definition htons :: "u16 \<Rightarrow> u16" where
  "htons n = push_bit 8 n OR drop_bit 8 n"

definition htonl :: "u32 \<Rightarrow> u32" where
  "htonl n = push_bit 24 n OR (push_bit 8 n AND 0x00FF0000) OR (drop_bit 8 n AND 0x0000FF00) OR drop_bit 24 n"

definition INADDR_ANY :: u32 where "INADDR_ANY = 0"

definition INADDR_LOOPBACK :: u32 where "INADDR_LOOPBACK = 0x7F000001"

record sockaddr_in =
  sin_addr :: u32
  sin_port :: u16

lemma ntohs_htons [simp]: "htons (htons n) = n"
proof (rule bit_word_eqI)
  fix i assume "i < LENGTH(16)"
  then show "bit (htons (htons n)) i = bit n i"
    by (cases "i < 8") (auto simp: htons_def bit_simps)
qed

section \<open>POSIX\<close>

type_synonym i32 = "32 word"

datatype io_failure = Would_Block | Io_Broken

record 'os posix_calls =
  px_socket :: "bool \<Rightarrow> 'os \<Rightarrow> i32 \<times> 'os"
  px_reuse_address :: "i32 \<Rightarrow> 'os \<Rightarrow> 'os"
  px_bind :: "i32 \<Rightarrow> sockaddr_in \<Rightarrow> 'os \<Rightarrow> i32 \<times> 'os"
  px_listen :: "i32 \<Rightarrow> nat \<Rightarrow> 'os \<Rightarrow> i32 \<times> 'os"
  px_getsockname :: "i32 \<Rightarrow> 'os \<Rightarrow> (i32 \<times> sockaddr_in) \<times> 'os"
  px_accept :: "i32 \<Rightarrow> 'os \<Rightarrow> i32 \<times> 'os"
  px_getfl :: "i32 \<Rightarrow> 'os \<Rightarrow> i32 \<times> 'os"
  px_setfl :: "i32 \<Rightarrow> i32 \<Rightarrow> 'os \<Rightarrow> 'os"
  px_read :: "i32 \<Rightarrow> nat \<Rightarrow> 'os \<Rightarrow> (io_failure + string) \<times> 'os"
  px_write :: "i32 \<Rightarrow> string \<Rightarrow> 'os \<Rightarrow> (io_failure + nat) \<times> 'os"
  px_sendto :: "i32 \<Rightarrow> string \<Rightarrow> sockaddr_in \<Rightarrow> 'os \<Rightarrow> i32 \<times> 'os"
  px_close :: "i32 \<Rightarrow> 'os \<Rightarrow> 'os"
  px_nonblock_flag :: i32

definition native_fd :: "handle \<Rightarrow> i32" where
  "native_fd fd = ucast fd"

definition io_handle :: "i32 \<Rightarrow> handle" where
  "io_handle fd = (if fd <s 0 then kInvalidHandle else ucast fd)"

definition set_nonblocking :: "'os posix_calls \<Rightarrow> handle \<Rightarrow> 'os \<Rightarrow> 'os" where
  "set_nonblocking c fd os =
     (let (flags, os) = px_getfl c (native_fd fd) os
      in if 0 \<le>s flags then px_setfl c (native_fd fd) (flags OR px_nonblock_flag c) os else os)"

definition open_tcp_listener :: "'os posix_calls \<Rightarrow> u16 \<Rightarrow> u16 \<Rightarrow> 'os \<Rightarrow> (handle \<times> u16) \<times> 'os" where
  "open_tcp_listener c requested_port bound_port os =
     (let (listener, os) = px_socket c True os
      in if listener <s 0 then ((kInvalidHandle, bound_port), os)
         else let os = px_reuse_address c listener os;
                  address = \<lparr>sin_addr = htonl INADDR_ANY, sin_port = htons requested_port\<rparr>;
                  (bind_result, os) = px_bind c listener address os;
                  (failed, os) = (if bind_result \<noteq> 0 then (True, os)
                    else let (listen_result, os) = px_listen c listener 4 os in (listen_result \<noteq> 0, os))
              in if failed then ((kInvalidHandle, bound_port), px_close c listener os)
                 else let ((name_result, bound), os) = px_getsockname c listener os
                      in if name_result \<noteq> 0 then ((kInvalidHandle, bound_port), px_close c listener os)
                         else let handle = io_handle listener
                              in ((handle, htons (sin_port bound)), set_nonblocking c handle os))"

definition accept_pending_client :: "'os posix_calls \<Rightarrow> handle \<Rightarrow> 'os \<Rightarrow> handle \<times> 'os" where
  "accept_pending_client c listener os =
     (let (client, os) = px_accept c (native_fd listener) os
      in if client <s 0 then (kInvalidHandle, os)
         else let handle = io_handle client in (handle, set_nonblocking c handle os))"

definition open_udp_socket :: "'os posix_calls \<Rightarrow> 'os \<Rightarrow> handle \<times> 'os" where
  "open_udp_socket c os = (let (fd, os) = px_socket c False os in (io_handle fd, os))"

definition send_udp_loopback :: "'os posix_calls \<Rightarrow> handle \<Rightarrow> u16 \<Rightarrow> string \<Rightarrow> 'os \<Rightarrow> bool \<times> 'os" where
  "send_udp_loopback c fd port message os =
     (let (sent, os) = px_sendto c (native_fd fd) message \<lparr>sin_addr = htonl INADDR_LOOPBACK, sin_port = htons port\<rparr> os in (0 \<le>s sent, os))"

function write_all :: "'os posix_calls \<Rightarrow> handle \<Rightarrow> string \<Rightarrow> 'os \<Rightarrow> bool \<times> 'os" where
  "write_all c fd bytes os =
     (if bytes = [] then (True, os)
      else case px_write c (native_fd fd) bytes os of
          (Inr n, os) \<Rightarrow> if n > 0 then write_all c fd (drop n bytes) os else (False, os)
        | (Inl _, os) \<Rightarrow> (False, os))"
  by pat_completeness auto
termination by (relation "measure (\<lambda>(c, fd, bytes, os). length bytes)") auto

declare write_all.simps [simp del]

text \<open>The calls the transports are written on.\<close>

definition read_outcome_of :: "io_failure + string \<Rightarrow> recv_result" where
  "read_outcome_of r = (case r of
     Inr bytes \<Rightarrow> if bytes \<noteq> [] then Received bytes else Recv_Eof | Inl Would_Block \<Rightarrow> Recv_Again | Inl Io_Broken \<Rightarrow> Recv_Error)"

definition write_outcome_of :: "io_failure + nat \<Rightarrow> send_result" where
  "write_outcome_of r = (case r of Inr n \<Rightarrow> Sent n | Inl Would_Block \<Rightarrow> Send_Again | Inl Io_Broken \<Rightarrow> Send_Error)"

definition posix_sockets :: "'os posix_calls \<Rightarrow> 'os sys_calls" where
  "posix_sockets c = \<lparr>
     sys_recv = (\<lambda>fd n os. let (r, os) = px_read c (native_fd fd) n os in (read_outcome_of r, os)),
     sys_send = (\<lambda>fd bytes os. let (r, os) = px_write c (native_fd fd) bytes os in (write_outcome_of r, os)),
     sys_close = (\<lambda>fd os. px_close c (native_fd fd) os),
     sys_listen = (\<lambda>port os. open_tcp_listener c port 0 os),
     sys_accept = accept_pending_client c,
     sys_udp_socket = open_udp_socket c,
     sys_sendto = (\<lambda>fd port message os. snd (send_udp_loopback c fd port message os))\<rparr>"

section \<open>Windows\<close>

record 'os win_calls =
  wn_startup :: "'os \<Rightarrow> bool \<times> 'os"
  wn_socket :: "bool \<Rightarrow> 'os \<Rightarrow> u64 \<times> 'os"
  wn_reuse_address :: "u64 \<Rightarrow> 'os \<Rightarrow> 'os"
  wn_bind :: "u64 \<Rightarrow> sockaddr_in \<Rightarrow> 'os \<Rightarrow> i32 \<times> 'os"
  wn_listen :: "u64 \<Rightarrow> nat \<Rightarrow> 'os \<Rightarrow> i32 \<times> 'os"
  wn_getsockname :: "u64 \<Rightarrow> 'os \<Rightarrow> (i32 \<times> sockaddr_in) \<times> 'os"
  wn_accept :: "u64 \<Rightarrow> 'os \<Rightarrow> u64 \<times> 'os"
  wn_set_nonblocking :: "u64 \<Rightarrow> 'os \<Rightarrow> 'os"
  wn_recv :: "u64 \<Rightarrow> nat \<Rightarrow> 'os \<Rightarrow> (io_failure + string) \<times> 'os"
  wn_send :: "u64 \<Rightarrow> string \<Rightarrow> 'os \<Rightarrow> (io_failure + nat) \<times> 'os"
  wn_sendto :: "u64 \<Rightarrow> string \<Rightarrow> sockaddr_in \<Rightarrow> 'os \<Rightarrow> i32 \<times> 'os"
  wn_closesocket :: "u64 \<Rightarrow> 'os \<Rightarrow> 'os"

definition SOCKET_ERROR :: i32 where "SOCKET_ERROR = - 1"

definition INVALID_SOCKET :: u64 where "INVALID_SOCKET = NOT 0"

text \<open>The process: the state of the system, and what the only call of \<^verbatim>\<open>WSAStartup\<close> returned.\<close>

record 'os win_process =
  win_os :: 'os
  socket_runtime :: "bool option"

definition on_os :: "('os \<Rightarrow> 'a \<times> 'os) \<Rightarrow> 'os win_process \<Rightarrow> 'a \<times> 'os win_process" where
  "on_os f p = (let (a, os) = f (win_os p) in (a, p\<lparr>win_os := os\<rparr>))"

definition ensure_socket_runtime :: "'os win_calls \<Rightarrow> 'os win_process \<Rightarrow> bool \<times> 'os win_process" where
  "ensure_socket_runtime c p = (case socket_runtime p of
     Some available \<Rightarrow> (available, p)
   | None \<Rightarrow> (let (available, os) = wn_startup c (win_os p) in (available, p\<lparr>win_os := os, socket_runtime := Some available\<rparr>)))"

definition send_size :: "string \<Rightarrow> string" where
  "send_size bytes = take (min (length bytes) (2 ^ 31 - 1)) bytes"

definition socket_handle :: "u64 \<Rightarrow> handle" where
  "socket_handle s = (if s = INVALID_SOCKET then kInvalidHandle else s)"

definition win_open_tcp_listener :: "'os win_calls \<Rightarrow> u16 \<Rightarrow> u16 \<Rightarrow> 'os win_process \<Rightarrow> (handle \<times> u16) \<times> 'os win_process" where
  "win_open_tcp_listener c requested_port bound_port p =
     (let (available, p) = ensure_socket_runtime c p
      in if \<not> available then ((kInvalidHandle, bound_port), p)
         else let (listener, os) = wn_socket c True (win_os p)
              in if listener = INVALID_SOCKET then ((kInvalidHandle, bound_port), p\<lparr>win_os := os\<rparr>)
                 else let os = wn_reuse_address c listener os;
                          address = \<lparr>sin_addr = htonl INADDR_ANY, sin_port = htons requested_port\<rparr>;
                          (bind_result, os) = wn_bind c listener address os;
                          (failed, os) = (if bind_result = SOCKET_ERROR then (True, os)
                            else let (listen_result, os) = wn_listen c listener 4 os in (listen_result = SOCKET_ERROR, os))
                      in if failed then ((kInvalidHandle, bound_port), p\<lparr>win_os := wn_closesocket c listener os\<rparr>)
                         else let ((name_result, bound), os) = wn_getsockname c listener os
                              in if name_result = SOCKET_ERROR then ((kInvalidHandle, bound_port), p\<lparr>win_os := wn_closesocket c listener os\<rparr>)
                                 else ((socket_handle listener, htons (sin_port bound)),
                                       p\<lparr>win_os := wn_set_nonblocking c (socket_handle listener) os\<rparr>))"

definition win_accept_pending_client :: "'os win_calls \<Rightarrow> handle \<Rightarrow> 'os win_process \<Rightarrow> handle \<times> 'os win_process" where
  "win_accept_pending_client c listener p =
     (let (available, p) = ensure_socket_runtime c p
      in if \<not> available then (kInvalidHandle, p)
         else let (client, os) = wn_accept c listener (win_os p)
              in if client = INVALID_SOCKET then (kInvalidHandle, p\<lparr>win_os := os\<rparr>)
                 else (socket_handle client, p\<lparr>win_os := wn_set_nonblocking c (socket_handle client) os\<rparr>))"

definition win_open_udp_socket :: "'os win_calls \<Rightarrow> 'os win_process \<Rightarrow> handle \<times> 'os win_process" where
  "win_open_udp_socket c p =
     (let (available, p) = ensure_socket_runtime c p
      in if \<not> available then (kInvalidHandle, p)
         else let (s, os) = wn_socket c False (win_os p) in (socket_handle s, p\<lparr>win_os := os\<rparr>))"

definition win_send_udp_loopback :: "'os win_calls \<Rightarrow> handle \<Rightarrow> u16 \<Rightarrow> string \<Rightarrow> 'os win_process \<Rightarrow> bool \<times> 'os win_process" where
  "win_send_udp_loopback c fd port message p =
     (let (sent, p) = on_os (wn_sendto c fd (send_size message) \<lparr>sin_addr = htonl INADDR_LOOPBACK, sin_port = htons port\<rparr>) p
      in (sent \<noteq> SOCKET_ERROR, p))"

function win_write_all :: "'os win_calls \<Rightarrow> handle \<Rightarrow> string \<Rightarrow> 'os win_process \<Rightarrow> bool \<times> 'os win_process" where
  "win_write_all c fd bytes p =
     (if bytes = [] then (True, p)
      else case on_os (wn_send c fd (send_size bytes)) p of
          (Inr n, p) \<Rightarrow> if n > 0 then win_write_all c fd (drop n bytes) p else (False, p)
        | (Inl _, p) \<Rightarrow> (False, p))"
  by pat_completeness auto
termination by (relation "measure (\<lambda>(c, fd, bytes, p). length bytes)") auto

declare win_write_all.simps [simp del]

definition win_sockets :: "'os win_calls \<Rightarrow> 'os win_process sys_calls" where
  "win_sockets c = \<lparr>
     sys_recv = (\<lambda>fd n p. let (r, p) = on_os (wn_recv c fd n) p in (read_outcome_of r, p)),
     sys_send = (\<lambda>fd bytes p. let (r, p) = on_os (wn_send c fd (send_size bytes)) p in (write_outcome_of r, p)),
     sys_close = (\<lambda>fd p. p\<lparr>win_os := wn_closesocket c fd (win_os p)\<rparr>),
     sys_listen = (\<lambda>port p. win_open_tcp_listener c port 0 p),
     sys_accept = win_accept_pending_client c,
     sys_udp_socket = win_open_udp_socket c,
     sys_sendto = (\<lambda>fd port message p. snd (win_send_udp_loopback c fd port message p))\<rparr>"

text \<open>The virtual serial port of Windows (\<^verbatim>\<open>src/protocol/virtual_com_port_windows.cpp\<close>) never starts.\<close>

definition win_ptys :: "'os win_calls \<Rightarrow> ('os \<Rightarrow> nat) \<Rightarrow> 'os win_process pty_calls" where
  "win_ptys c now = \<lparr>pty_sockets = win_sockets c, pty_open_master = (\<lambda>p. (kInvalidHandle, p)), pty_grant_unlock = (\<lambda>fd p. (False, p)),
     pty_slave_name = (\<lambda>fd p. (None, p)), pty_open_slave = (\<lambda>path p. (kInvalidHandle, p)), pty_prepare = (\<lambda>fd fd' p. p),
     pty_now_ms = (\<lambda>p. now (win_os p))\<rparr>"

section \<open>A listener is opened wholly or not at all\<close>

text \<open>What POSIX promises, for the descriptors \<open>fds\<close> that are open and their status \<open>flags\<close>.\<close>

definition hands_out :: "('os \<Rightarrow> i32 set) \<Rightarrow> 'os \<Rightarrow> i32 \<times> 'os \<Rightarrow> bool" where
  "hands_out fds os r \<longleftrightarrow> (if fst r <s 0 then fds (snd r) = fds os else fst r \<notin> fds os \<and> fds (snd r) = insert (fst r) (fds os))"

definition posix_laws :: "'os posix_calls \<Rightarrow> ('os \<Rightarrow> i32 set) \<Rightarrow> ('os \<Rightarrow> i32 \<Rightarrow> i32) \<Rightarrow> bool" where
  "posix_laws c fds flags \<longleftrightarrow>
     (\<forall>os stream. hands_out fds os (px_socket c stream os)) \<and> (\<forall>os fd. hands_out fds os (px_accept c fd os)) \<and>
     (\<forall>os fd. fds (px_reuse_address c fd os) = fds os) \<and> (\<forall>os fd a. fds (snd (px_bind c fd a os)) = fds os) \<and>
     (\<forall>os fd n. fds (snd (px_listen c fd n os)) = fds os) \<and> (\<forall>os fd. fds (snd (px_getsockname c fd os)) = fds os) \<and>
     (\<forall>os fd. fds (snd (px_getfl c fd os)) = fds os) \<and> (\<forall>os fd v. fds (px_setfl c fd v os) = fds os) \<and>
     (\<forall>os fd. fds (px_close c fd os) = fds os - {fd}) \<and>
     (\<forall>os fd. fd \<in> fds os \<longrightarrow> fst (px_getfl c fd os) = flags os fd \<and> 0 \<le>s flags os fd) \<and>
     (\<forall>os fd v. flags (px_setfl c fd v os) fd = v)"

lemma posix_lawsD:
  assumes "posix_laws c fds flags"
  shows "hands_out fds os (px_socket c stream os)" "hands_out fds os (px_accept c fd os)" "fds (px_reuse_address c fd os) = fds os"
    "fds (snd (px_bind c fd a os)) = fds os" "fds (snd (px_listen c fd n os)) = fds os" "fds (snd (px_getsockname c fd os)) = fds os"
    "fds (snd (px_getfl c fd os)) = fds os" "fds (px_setfl c fd v os) = fds os" "fds (px_close c fd os) = fds os - {fd}"
    "fd \<in> fds os \<Longrightarrow> fst (px_getfl c fd os) = flags os fd" "fd \<in> fds os \<Longrightarrow> 0 \<le>s flags os fd"
    "flags (px_setfl c fd v os) fd = v"
  using assms by (simp_all add: posix_laws_def)

lemma canonical_handle:
  assumes "\<not> fd <s (0 :: i32)"
  shows "io_handle fd = ucast fd" "native_fd (ucast fd) = fd" "ucast fd \<noteq> kInvalidHandle" "ucast fd \<noteq> INVALID_SOCKET"
proof -
  have "ucast fd \<noteq> (NOT 0 :: u64)"
  proof
    assume "ucast fd = (NOT 0 :: u64)"
    then have "bit (ucast fd :: u64) 40 = bit (NOT 0 :: u64) 40" by simp
    then have "bit fd 40" by (simp add: bit_simps)
    then show False using bit_imp_le_length [of fd 40] by simp
  qed
  then show "ucast fd \<noteq> kInvalidHandle" "ucast fd \<noteq> INVALID_SOCKET" by (simp_all add: kInvalidHandle_def INVALID_SOCKET_def)
  show "native_fd (ucast fd) = fd" by (rule bit_word_eqI) (simp add: native_fd_def bit_simps)
qed (use assms in \<open>simp add: io_handle_def\<close>)

text \<open>Made nonblocking: its flag is set in the status of the descriptor.\<close>

lemma set_nonblocking_laws:
  assumes "posix_laws c fds flags"
  shows "fds (set_nonblocking c h os) = fds os"
    "native_fd h \<in> fds os \<Longrightarrow> flags (set_nonblocking c h os) (native_fd h) AND px_nonblock_flag c = px_nonblock_flag c"
proof -
  note D = posix_lawsD [OF assms]
  show "fds (set_nonblocking c h os) = fds os"
    by (simp add: set_nonblocking_def case_prod_unfold Let_def D)
  assume "native_fd h \<in> fds os"
  then have "0 \<le>s fst (px_getfl c (native_fd h) os)" using D(10,11) by simp
  then show "flags (set_nonblocking c h os) (native_fd h) AND px_nonblock_flag c = px_nonblock_flag c"
    by (simp add: set_nonblocking_def case_prod_unfold Let_def D(12) bit_eq_iff bit_simps)
qed

definition fresh_nonblocking :: "'os posix_calls \<Rightarrow> ('os \<Rightarrow> i32 set) \<Rightarrow> ('os \<Rightarrow> i32 \<Rightarrow> i32) \<Rightarrow> 'os \<Rightarrow> handle \<times> 'os \<Rightarrow> bool" where
  "fresh_nonblocking c fds flags os r \<longleftrightarrow>
     (if fst r = kInvalidHandle then fds (snd r) = fds os
      else fst r = io_handle (native_fd (fst r)) \<and> native_fd (fst r) \<notin> fds os \<and> fds (snd r) = insert (native_fd (fst r)) (fds os) \<and>
           flags (snd r) (native_fd (fst r)) AND px_nonblock_flag c = px_nonblock_flag c)"

text \<open>
  Opening a listener on POSIX and accepting a client hand out a new descriptor that does not block, or none; whichever call
  fails on the way, no descriptor stays open that the caller does not know.
\<close>
theorem listener_all_or_nothing:
  assumes "posix_laws c fds flags"
  shows "(case open_tcp_listener c port bound os of ((h, _), os') \<Rightarrow> fresh_nonblocking c fds flags os (h, os')) \<and>
    fresh_nonblocking c fds flags os (accept_pending_client c listener os)"
proof -
  note D = posix_lawsD [OF assms]
  note N = set_nonblocking_laws [OF assms]
  have fresh: "fresh_nonblocking c fds flags os (io_handle fd, set_nonblocking c (io_handle fd) os')"
    if "\<not> fd <s 0" "fd \<notin> fds os" "fds os' = insert fd (fds os)" for fd os'
    using that N [where h = "ucast fd" and os = os'] by (simp add: fresh_nonblocking_def canonical_handle)
  have kept: "fresh_nonblocking c fds flags os (kInvalidHandle, os')" if "fds os' = fds os" for os'
    using that by (simp add: fresh_nonblocking_def)
  obtain fd os1 where s: "px_socket c True os = (fd, os1)" by fastforce
  have "case open_tcp_listener c port bound os of ((h, _), os') \<Rightarrow> fresh_nonblocking c fds flags os (h, os')"
  proof (cases "fd <s 0")
    case True
    then show ?thesis using D(1) [of os True] by (simp add: open_tcp_listener_def s hands_out_def kept)
  next
    case False
    then have "fd \<notin> fds os" "fds os1 = insert fd (fds os)" using D(1) [of os True] by (simp_all add: s hands_out_def)
    with False show ?thesis
      by (simp add: open_tcp_listener_def s case_prod_unfold Let_def D kept fresh)
  qed
  moreover have "fresh_nonblocking c fds flags os (accept_pending_client c listener os)"
    using D(2) [of os "native_fd listener"] by (auto simp: accept_pending_client_def case_prod_unfold Let_def hands_out_def kept fresh)
  ultimately show ?thesis by blast
qed

section \<open>The two platforms agree\<close>

definition returned :: "i32 \<Rightarrow> i32" where
  "returned rc = (if rc \<noteq> 0 then SOCKET_ERROR else 0)"

text \<open>One system seen through both interfaces: where POSIX returns a negative number Windows returns an invalid socket or an error.\<close>

definition same_system :: "'os posix_calls \<Rightarrow> 'os win_calls \<Rightarrow> bool" where
  "same_system c d \<longleftrightarrow>
     (\<forall>os stream. wn_socket d stream os = apfst io_handle (px_socket c stream os)) \<and>
     (\<forall>os fd. \<not> fd <s 0 \<longrightarrow>
        wn_accept d (io_handle fd) os = apfst io_handle (px_accept c fd os) \<and>
        wn_reuse_address d (io_handle fd) os = px_reuse_address c fd os \<and>
        (\<forall>a. wn_bind d (io_handle fd) a os = apfst returned (px_bind c fd a os)) \<and>
        (\<forall>n. wn_listen d (io_handle fd) n os = apfst returned (px_listen c fd n os)) \<and>
        wn_getsockname d (io_handle fd) os = apfst (apfst returned) (px_getsockname c fd os) \<and>
        wn_set_nonblocking d (io_handle fd) os = set_nonblocking c (io_handle fd) os \<and>
        wn_closesocket d (io_handle fd) os = px_close c fd os \<and>
        (\<forall>n. wn_recv d (io_handle fd) n os = px_read c fd n os) \<and> (\<forall>bytes. wn_send d (io_handle fd) bytes os = px_write c fd bytes os) \<and>
        (\<forall>bytes a. wn_sendto d (io_handle fd) bytes a os = apfst (\<lambda>r. if r <s 0 then SOCKET_ERROR else r) (px_sendto c fd bytes a os)))"

lemma same_systemD:
  assumes "same_system c d"
  shows "wn_socket d stream os = apfst io_handle (px_socket c stream os)"
    "\<not> fd <s 0 \<Longrightarrow> wn_accept d (io_handle fd) os = apfst io_handle (px_accept c fd os)"
    "\<not> fd <s 0 \<Longrightarrow> wn_reuse_address d (io_handle fd) os = px_reuse_address c fd os"
    "\<not> fd <s 0 \<Longrightarrow> wn_bind d (io_handle fd) a os = apfst returned (px_bind c fd a os)"
    "\<not> fd <s 0 \<Longrightarrow> wn_listen d (io_handle fd) n os = apfst returned (px_listen c fd n os)"
    "\<not> fd <s 0 \<Longrightarrow> wn_getsockname d (io_handle fd) os = apfst (apfst returned) (px_getsockname c fd os)"
    "\<not> fd <s 0 \<Longrightarrow> wn_set_nonblocking d (io_handle fd) os = set_nonblocking c (io_handle fd) os"
    "\<not> fd <s 0 \<Longrightarrow> wn_closesocket d (io_handle fd) os = px_close c fd os"
    "\<not> fd <s 0 \<Longrightarrow> wn_recv d (io_handle fd) n os = px_read c fd n os"
    "\<not> fd <s 0 \<Longrightarrow> wn_send d (io_handle fd) bytes os = px_write c fd bytes os"
    "\<not> fd <s 0 \<Longrightarrow> wn_sendto d (io_handle fd) bytes a os = apfst (\<lambda>r. if r <s 0 then SOCKET_ERROR else r) (px_sendto c fd bytes a os)"
  using assms by (simp_all add: same_system_def)

lemma apfst_simps: "apfst f x = (f (fst x), snd x)"
  by (cases x) simp

lemma returned_iff: "(returned rc = SOCKET_ERROR) = (rc \<noteq> 0)"
  by (simp add: returned_def SOCKET_ERROR_def)

lemma error_negative: "((if r <s 0 then SOCKET_ERROR else r) \<noteq> SOCKET_ERROR) = (0 \<le>s (r :: i32))"
  by (auto simp: SOCKET_ERROR_def)

lemma socket_of_fd:
  "io_handle fd = INVALID_SOCKET \<longleftrightarrow> fd <s 0" "socket_handle (io_handle fd) = io_handle fd"
  using canonical_handle(4) [of fd] by (auto simp: io_handle_def socket_handle_def INVALID_SOCKET_def kInvalidHandle_def)

lemma native_io_handle: "\<not> fd <s 0 \<Longrightarrow> native_fd (io_handle fd) = fd"
  by (simp add: canonical_handle)

lemma listeners_agree:
  assumes "same_system c d" "socket_runtime p = Some True"
  shows "win_open_tcp_listener d port bound p = on_os (open_tcp_listener c port bound) p"
proof -
  note D = same_systemD [OF assms(1)]
  obtain fd os1 where s: "px_socket c True (win_os p) = (fd, os1)" by fastforce
  have run: "ensure_socket_runtime d p = (True, p)" by (simp add: ensure_socket_runtime_def assms(2))
  show ?thesis
  proof (cases "fd <s 0")
    case True
    then show ?thesis
      by (simp add: win_open_tcp_listener_def run on_os_def open_tcp_listener_def s D(1) socket_of_fd io_handle_def [of fd] INVALID_SOCKET_def
          kInvalidHandle_def)
  next
    case False
    note H = D(3-8) [OF False]
    show ?thesis
      using False by (simp add: win_open_tcp_listener_def run on_os_def open_tcp_listener_def s D(1) socket_of_fd H apfst_simps returned_iff
          case_prod_unfold Let_def)
  qed
qed


text \<open>Every system of POSIX can be seen so.\<close>

definition as_windows :: "'os posix_calls \<Rightarrow> 'os win_calls" where
  "as_windows c = \<lparr>wn_startup = Pair True, wn_socket = (\<lambda>stream os. apfst io_handle (px_socket c stream os)),
     wn_reuse_address = (\<lambda>s. px_reuse_address c (native_fd s)), wn_bind = (\<lambda>s a os. apfst returned (px_bind c (native_fd s) a os)),
     wn_listen = (\<lambda>s n os. apfst returned (px_listen c (native_fd s) n os)),
     wn_getsockname = (\<lambda>s os. apfst (apfst returned) (px_getsockname c (native_fd s) os)),
     wn_accept = (\<lambda>s os. apfst io_handle (px_accept c (native_fd s) os)), wn_set_nonblocking = set_nonblocking c,
     wn_recv = (\<lambda>s. px_read c (native_fd s)), wn_send = (\<lambda>s. px_write c (native_fd s)),
     wn_sendto = (\<lambda>s bytes a os. apfst (\<lambda>r. if r <s 0 then SOCKET_ERROR else r) (px_sendto c (native_fd s) bytes a os)),
     wn_closesocket = (\<lambda>s. px_close c (native_fd s))\<rparr>"

lemma as_windows_same: "same_system c (as_windows c)"
  by (simp add: same_system_def as_windows_def native_io_handle)


text \<open>Both write everything or say that they did not.\<close>

lemma writes_agree:
  assumes "same_system c d" "\<not> fd <s 0"
  shows "length bytes < 2 ^ 31 \<Longrightarrow> win_write_all d (io_handle fd) bytes p = on_os (write_all c (io_handle fd) bytes) p"
proof (induction "length bytes" arbitrary: bytes p rule: less_induct)
  case less
  have size: "send_size bytes = bytes" using less(2) by (simp add: send_size_def)
  obtain r os1 where w: "px_write c fd bytes (win_os p) = (r, os1)" by fastforce
  have win: "on_os (wn_send d (io_handle fd) (send_size bytes)) p = (r, p\<lparr>win_os := os1\<rparr>)"
    by (simp add: size on_os_def same_systemD(10) [OF assms] w)
  show ?case
  proof (cases "bytes = [] \<or> (\<forall>n. r = Inr n \<longrightarrow> n = 0)")
    case True
    then show ?thesis
      by (subst win_write_all.simps, subst write_all.simps [abs_def])
        (auto simp: on_os_def win [unfolded on_os_def] native_io_handle assms(2) w write_all.simps split: sum.split)
  next
    case False
    then obtain n where n: "r = Inr n" "0 < n" "bytes \<noteq> []" by auto
    have "win_write_all d (io_handle fd) (drop n bytes) (p\<lparr>win_os := os1\<rparr>) = on_os (write_all c (io_handle fd) (drop n bytes)) (p\<lparr>win_os := os1\<rparr>)"
      by (rule less(1)) (use n less(2) in simp_all)
    then show ?thesis
      using n by (subst win_write_all.simps) (simp add: win [unfolded on_os_def Let_def] on_os_def write_all.simps [of c "io_handle fd" bytes] native_io_handle assms(2) w)
  qed
qed

section \<open>Descriptors of Windows\<close>

definition win_hands_out :: "('os \<Rightarrow> handle set) \<Rightarrow> 'os \<Rightarrow> handle \<times> 'os \<Rightarrow> bool" where
  "win_hands_out socks os r \<longleftrightarrow>
     (if fst r = INVALID_SOCKET then socks (snd r) = socks os else fst r \<notin> socks os \<and> socks (snd r) = insert (fst r) (socks os))"

definition win_laws :: "'os win_calls \<Rightarrow> ('os \<Rightarrow> handle set) \<Rightarrow> bool" where
  "win_laws d socks \<longleftrightarrow>
     (\<forall>os. socks (snd (wn_startup d os)) = socks os) \<and> (\<forall>os stream. win_hands_out socks os (wn_socket d stream os)) \<and>
     (\<forall>os s. socks (wn_reuse_address d s os) = socks os) \<and> (\<forall>os s a. socks (snd (wn_bind d s a os)) = socks os) \<and>
     (\<forall>os s n. socks (snd (wn_listen d s n os)) = socks os) \<and> (\<forall>os s. socks (snd (wn_getsockname d s os)) = socks os) \<and>
     (\<forall>os s. socks (wn_set_nonblocking d s os) = socks os) \<and> (\<forall>os s. socks (wn_closesocket d s os) = socks os - {s})"

lemma runtime_socks:
  "win_laws d socks \<Longrightarrow> socks (win_os (snd (ensure_socket_runtime d p))) = socks (win_os p)"
  by (simp add: ensure_socket_runtime_def win_laws_def case_prod_unfold Let_def split: option.split)

text \<open>The starts of the runtime: one at most.\<close>

lemma runtime_started_once: "ensure_socket_runtime d (snd (ensure_socket_runtime d p)) = ensure_socket_runtime d p"
  by (simp add: ensure_socket_runtime_def case_prod_unfold Let_def split: option.split)

text \<open>
  What the transport manager asks of a system follows from what Windows promises of its sockets.
\<close>
theorem windows_fd_laws:
  assumes "win_laws d socks"
  shows "fd_laws (win_ptys d now) (\<lambda>p. socks (win_os p))"
proof -
  have L: "socks (wn_reuse_address d s os) = socks os" "socks (snd (wn_bind d s a os)) = socks os" "socks (snd (wn_listen d s n os)) = socks os"
    "socks (snd (wn_getsockname d s os)) = socks os" "socks (wn_set_nonblocking d s os) = socks os"
    "socks (wn_closesocket d s os) = socks os - {s}" "win_hands_out socks os (wn_socket d stream os)" for s a n os stream
    using assms by (simp_all add: win_laws_def)
  have same: "INVALID_SOCKET = kInvalidHandle" "socket_handle s = s" for s
    by (simp_all add: INVALID_SOCKET_def kInvalidHandle_def socket_handle_def)
  have "opens_one (\<lambda>p. socks (win_os p)) (fst (fst (win_open_tcp_listener d port 0 p))) p (snd (win_open_tcp_listener d port 0 p))" for port p
    using L(7) [of "win_os (snd (ensure_socket_runtime d p))" True] runtime_socks [OF assms, of p]
    by (auto simp: win_open_tcp_listener_def case_prod_unfold Let_def opens_one_def win_hands_out_def same L)
  moreover have "opens_one (\<lambda>p. socks (win_os p)) (fst (win_open_udp_socket d p)) p (snd (win_open_udp_socket d p))" for p
    using L(7) [of "win_os (snd (ensure_socket_runtime d p))" False] runtime_socks [OF assms, of p]
    by (auto simp: win_open_udp_socket_def case_prod_unfold Let_def opens_one_def win_hands_out_def same)
  ultimately show ?thesis
    by (simp add: fd_laws_def win_ptys_def win_sockets_def L opens_one_def)
qed

text \<open>On Windows, starting and stopping the transports any number of times leaves the sockets of the process as they were.\<close>

corollary windows_leaks_nothing:
  assumes "win_laws d socks" "start_all (win_ptys d now) reqs new_manager r p = (m, r', p')"
  shows "socks (win_os (snd (snd (stop_transports (win_ptys d now) m r' p')))) = socks (win_os p)"
  by (rule start_stop_balanced [OF windows_fd_laws [OF assms(1)] assms(2)])

end
