(* ===== verification/Interactive_App.thy ===== *)
theory Interactive_App
  imports Transport_Manager Boot_Session Host_Filesystem
begin

text \<open>
  The interactive simulator (\<^verbatim>\<open>src/apps/sim_interactive.cpp\<close>): its command line, what it does with it, and the loop that pumps
  the transports.  The persistent state is made as \<^verbatim>\<open>src/core/persistent_machine_state.cpp\<close> makes it, from the mounts.  Reading a
  number follows \<^verbatim>\<open>std::stoul\<close> with base 0 and an unsigned long of 64 bits.
\<close>

section \<open>Numbers\<close>

definition stoul_space :: "char \<Rightarrow> bool" where
  "stoul_space c \<longleftrightarrow> c = CHR '' '' \<or> (9 \<le> (of_char c :: nat) \<and> (of_char c :: nat) \<le> 13)"

definition digit_value :: "char \<Rightarrow> nat" where
  "digit_value c = (let n = of_char c :: nat
     in if 48 \<le> n \<and> n \<le> 57 then n - 48 else if 97 \<le> n \<and> n \<le> 122 then n - 87 else if 65 \<le> n \<and> n \<le> 90 then n - 55 else 36)"

definition digits_in :: "nat \<Rightarrow> string \<Rightarrow> string" where
  "digits_in base s = takeWhile (\<lambda>c. digit_value c < base) s"

definition digits_number :: "nat \<Rightarrow> string \<Rightarrow> nat" where
  "digits_number base ds = foldl (\<lambda>n c. n * base + digit_value c) 0 ds"

text \<open>The base and the digits: \<^verbatim>\<open>0x\<close> counts only before a digit of its base.\<close>

definition detect_base :: "string \<Rightarrow> nat \<times> string" where
  "detect_base s = (case s of
     c0 # c1 # rest \<Rightarrow> if c0 = CHR ''0'' \<and> (c1 = CHR ''x'' \<or> c1 = CHR ''X'') \<and> digits_in 16 rest \<noteq> [] then (16, rest)
       else if c0 = CHR ''0'' then (8, s) else (10, s)
   | _ \<Rightarrow> (10, s))"

text \<open>\<open>None\<close> is the exception of no number or of one that is too big.  A minus sign negates modulo \<open>2 ^ 64\<close>.\<close>

definition stoul :: "string \<Rightarrow> nat option" where
  "stoul text =
     (let s = dropWhile stoul_space text;
          negative = (s \<noteq> [] \<and> hd s = CHR ''-'');
          s = (if s \<noteq> [] \<and> (hd s = CHR ''-'' \<or> hd s = CHR ''+'') then tl s else s);
          (base, s) = detect_base s; ds = digits_in base s; n = digits_number base ds
      in if ds = [] \<or> n \<ge> 2 ^ 64 then None
         else Some (if negative then (2 ^ 64 - n) mod 2 ^ 64 else n))"

definition parse_u16 :: "string \<Rightarrow> u16 option" where
  "parse_u16 text = (case stoul text of None \<Rightarrow> None | Some parsed \<Rightarrow> if parsed > 0xFFFF then None else Some (word_of_nat parsed))"

definition parse_u8 :: "string \<Rightarrow> u8 option" where
  "parse_u8 text = (case parse_u16 text of None \<Rightarrow> None | Some parsed \<Rightarrow> if parsed > 0xFF then None else Some (ucast parsed))"

section \<open>The command line\<close>

record cli_options =
  cli_uart :: bool
  cli_wifi :: bool
  cli_ports :: "u16 list"
  cli_sd_root :: string
  cli_factory :: factory_settings

definition default_cli :: cli_options where
  "default_cli = \<lparr>cli_uart = True, cli_wifi = True, cli_ports = [], cli_sd_root = [], cli_factory = default_factory_settings\<rparr>"

datatype cli_exit = Usage nat | Refused string

text \<open>What the program returns when it ends here, or the options.\<close>

definition exit_code :: "cli_exit \<Rightarrow> nat" where
  "exit_code e = (case e of Usage n \<Rightarrow> n | Refused message \<Rightarrow> 2)"

definition model_named :: "string \<Rightarrow> machine_model option" where
  "model_named model =
     (if model = ''c1'' \<or> model = ''C1'' then Some CarveraC1
      else if model = ''ca1'' \<or> model = ''CA1'' \<or> model = ''air'' then Some CarveraAirCA1 else None)"

fun parse_arguments :: "string list \<Rightarrow> cli_options \<Rightarrow> cli_exit + cli_options" where
  "parse_arguments [] o' = Inr o'"
| "parse_arguments (arg # rest) o' =
     (if arg = ''--help'' \<or> arg = ''-h'' then Inl (Usage 0)
      else if arg = ''--no-uart'' then parse_arguments rest (o'\<lparr>cli_uart := False\<rparr>)
      else if arg = ''--no-wifi'' then parse_arguments rest (o'\<lparr>cli_wifi := False\<rparr>)
      else case rest of
          [] \<Rightarrow> Inl (Usage 2)
        | v # rest' \<Rightarrow>
            if arg = ''--sd'' then parse_arguments rest' (o'\<lparr>cli_sd_root := v\<rparr>)
            else if arg = ''--wifi-port'' then (case parse_u16 v of
                None \<Rightarrow> Inl (Refused ''invalid --wifi-port'')
              | Some port \<Rightarrow> parse_arguments rest' (o'\<lparr>cli_ports := cli_ports o' @ [port]\<rparr>))
            else if arg = ''--model'' then (case model_named v of
                None \<Rightarrow> Inl (Refused ''invalid --model'')
              | Some model \<Rightarrow> parse_arguments rest' (o'\<lparr>cli_factory := (cli_factory o')\<lparr>fs_model := model\<rparr>\<rparr>))
            else if arg = ''--function-setting'' then (case parse_u8 v of
                None \<Rightarrow> Inl (Refused ''invalid --function-setting'')
              | Some f \<Rightarrow> parse_arguments rest' (o'\<lparr>cli_factory := (cli_factory o')\<lparr>function_setting := f\<rparr>\<rparr>))
            else Inl (Usage 2))"

definition with_default_port :: "cli_options \<Rightarrow> cli_options" where
  "with_default_port o' = (if cli_wifi o' \<and> cli_ports o' = [] then o'\<lparr>cli_ports := [0]\<rparr> else o')"

definition command_line :: "string list \<Rightarrow> cli_exit + cli_options" where
  "command_line args = (case parse_arguments args default_cli of Inl e \<Rightarrow> Inl e | Inr o' \<Rightarrow> Inr (with_default_port o'))"

section \<open>The run\<close>

definition new_persistent_state :: "host_path \<Rightarrow> (string \<times> string) list \<Rightarrow> host_fs \<Rightarrow> mounts \<times> eeprom \<times> host_fs" where
  "new_persistent_state cwd config files = fold (\<lambda>(name, root). mount cwd name root) config (Map.empty, new_eeprom, files)"

definition sd_config :: "cli_options \<Rightarrow> (string \<times> string) list" where
  "sd_config o' = (if cli_sd_root o' \<noteq> [] then [(''sd'', cli_sd_root o')] else [])"

definition transports_asked :: "cli_options \<Rightarrow> start_transport" where
  "transports_asked o' = \<lparr>enable_uart = cli_uart o', tcp_ports = (if cli_wifi o' then map ucast (cli_ports o') else []), log_traffic = False\<rparr>"

text \<open>The program: what it keeps, what it prints on its output, and what it prints on its error output.\<close>

record ('h, 'w, 'k, 'os) app =
  app_mounts :: mounts
  app_session :: "('h, 'w, 'k) session"
  app_io :: "('h, 'w) runtime"
  app_mgr :: manager
  app_os :: 'os
  app_lines :: "string list"
  app_errors :: "string list"

text \<open>The simulation is made from the persistent state: \<open>make_session\<close> is the construction of the machine and the firmware.\<close>

definition simulation_for :: "host_path \<Rightarrow> (eeprom \<times> host_fs \<Rightarrow> ('h, 'w, 'k) session) \<Rightarrow> ('h, 'w) runtime \<Rightarrow> host_fs \<Rightarrow> 'os \<Rightarrow> cli_options \<Rightarrow>
    ('h, 'w, 'k, 'os) app" where
  "simulation_for cwd make_session io files os o' = (case new_persistent_state cwd (sd_config o') files of
     (m, dfs) \<Rightarrow> \<lparr>app_mounts = m, app_session = make_session dfs, app_io = io, app_mgr = new_manager, app_os = os, app_lines = [], app_errors = []\<rparr>)"

definition transport_lines :: "transport_info \<Rightarrow> string list" where
  "transport_lines info = (if uart_path info \<noteq> [] then [''UART '' @ uart_path info] else []) @
     map (\<lambda>(host, port). ''WIFI '' @ host @ '':'' @ decimal (unat port)) (tcp_endpoints info)"

text \<open>From the options to the loop: \<open>Inl\<close> is the exit code.\<close>

definition start_app :: "'os pty_calls \<Rightarrow> cli_options \<Rightarrow> ('h, 'w, 'k, 'os) app \<Rightarrow> (nat + unit) \<times> ('h, 'w, 'k, 'os) app" where
  "start_app c o' a =
     (let (chosen, s) = set_factory_settings (cli_factory o') (app_session a); a = a\<lparr>app_session := s\<rparr>
      in if \<not> chosen then (Inl 1, a\<lparr>app_errors := app_errors a @ [''failed to configure factory settings'']\<rparr>)
         else case start_transports c (transports_asked o') (app_mgr a) (app_io a) (app_os a) of
           (result, m, r, os) \<Rightarrow>
             (let a = a\<lparr>app_mgr := m, app_io := r, app_os := os\<rparr>
              in case result of
                   Inl message \<Rightarrow> (Inl 1, a\<lparr>app_errors := app_errors a @ [message]\<rparr>)
                 | Inr info \<Rightarrow>
                     if cli_uart o' \<and> uart_path info = []
                     then (Inl 1, a\<lparr>app_errors := app_errors a @ [''virtual COM backend is not available on this platform'']\<rparr>)
                     else (Inr (), a\<lparr>app_lines := app_lines a @ transport_lines info\<rparr>)))"

text \<open>The loop: \<open>keep_running\<close> reads the flag the signal handler clears, \<open>pump\<close> is the pump of the transports with the sleep after it.\<close>

partial_function (option) app_loop :: "('a \<Rightarrow> bool) \<Rightarrow> ('a \<Rightarrow> 'a option) \<Rightarrow> 'a \<Rightarrow> 'a option" where
  "app_loop keep_running pump a = (if \<not> keep_running a then Some a else case pump a of None \<Rightarrow> None | Some a \<Rightarrow> app_loop keep_running pump a)"

definition app_main :: "'os pty_calls \<Rightarrow> host_path \<Rightarrow> (eeprom \<times> host_fs \<Rightarrow> ('h, 'w, 'k) session) \<Rightarrow> ('h, 'w) runtime \<Rightarrow> host_fs \<Rightarrow> 'os \<Rightarrow>
    (('h, 'w, 'k, 'os) app \<Rightarrow> bool) \<Rightarrow> (('h, 'w, 'k, 'os) app \<Rightarrow> ('h, 'w, 'k, 'os) app option) \<Rightarrow> string list \<Rightarrow>
    (nat \<times> ('h, 'w, 'k, 'os) app option) option" where
  "app_main c cwd make_session io files os keep_running pump args = (case command_line args of
     Inl e \<Rightarrow> Some (exit_code e, None)
   | Inr o' \<Rightarrow>
       (case start_app c o' (simulation_for cwd make_session io files os o') of
          (Inl code, a) \<Rightarrow> Some (code, Some a)
        | (Inr _, a) \<Rightarrow> map_option (\<lambda>a. (0, Some a)) (app_loop keep_running pump a)))"

section \<open>The command line is read back\<close>

lemma decimal_digit: "d < 10 \<Longrightarrow> digit_value (char_of (48 + d)) = d"
  by (simp add: digit_value_def Let_def)

lemma decimal_value: "list_all (\<lambda>c. digit_value c < 10) (decimal n) \<and> digits_number 10 (decimal n) = n \<and> decimal n \<noteq> []"
proof (induction n rule: decimal.induct)
  case (1 n)
  show ?case
  proof (cases "n < 10")
    case True
    then show ?thesis by (subst (1 2 3) decimal.simps) (simp add: digits_number_def decimal_digit)
  next
    case False
    then show ?thesis
      using 1 by (subst (1 2 3) decimal.simps) (simp add: digits_number_def decimal_digit)
  qed
qed

lemma decimal_head: "0 < n \<Longrightarrow> hd (decimal n) \<noteq> CHR ''0''"
proof (induction n rule: decimal.induct)
  case (1 n)
  show ?case
  proof (cases "n < 10")
    case True
    have "digit_value (hd (decimal n)) = n" using True by (subst decimal.simps) (simp add: decimal_digit)
    then show ?thesis using 1(2) by (auto simp: digit_value_def)
  next
    case False
    then show ?thesis using 1 decimal_value [of "n div 10"] by (subst decimal.simps) simp
  qed
qed

lemma digit_chars: "digit_value c < 10 \<Longrightarrow> \<not> stoul_space c \<and> c \<noteq> CHR ''-'' \<and> c \<noteq> CHR ''+''"
  by (auto simp: digit_value_def stoul_space_def Let_def split: if_splits)

lemma stoul_decimal:
  assumes "n < 2 ^ 64"
  shows "stoul (decimal n) = Some n"
proof -
  have all: "list_all (\<lambda>c. digit_value c < 10) (decimal n)" "digits_number 10 (decimal n) = n" "decimal n \<noteq> []"
    using decimal_value by blast+
  then obtain c0 cs where d: "decimal n = c0 # cs" by (cases "decimal n") auto
  have base: "detect_base (decimal n) = (10, decimal n)"
  proof (cases "n = 0")
    case True
    then show ?thesis by (simp add: detect_base_def decimal.simps [of 0])
  next
    case False
    then have "c0 \<noteq> CHR ''0''" using decimal_head [of n] d by simp
    then show ?thesis by (simp add: detect_base_def d split: list.split)
  qed
  have ds: "digits_in 10 (decimal n) = decimal n"
    using all(1) by (simp add: digits_in_def takeWhile_eq_all_conv list_all_iff)
  have "dropWhile stoul_space (decimal n) = decimal n" "hd (decimal n) \<noteq> CHR ''-''" "hd (decimal n) \<noteq> CHR ''+''"
    using all(1) digit_chars [of c0] by (simp_all add: d)
  then show ?thesis
    using all(2,3) assms by (simp add: stoul_def base ds Let_def)
qed

lemma parse_u16_decimal: "parse_u16 (decimal (unat p)) = Some p"
  using unat_u16_lt [of p] stoul_decimal [of "unat p"] by (simp add: parse_u16_def)

lemma parse_u8_decimal: "parse_u8 (decimal (unat f)) = Some f"
proof -
  have f: "unat f < 256" by (rule unat_u8_lt)
  then have "stoul (decimal (unat f)) = Some (unat f)" by (intro stoul_decimal) simp
  then have "parse_u16 (decimal (unat f)) = Some (word_of_nat (unat f))" using f by (simp add: parse_u16_def)
  moreover have w: "(word_of_nat (unat f) :: u16) = ucast f" by simp
  moreover have "\<not> (0xFF :: u16) < ucast f"
  proof -
    have "unat (word_of_nat (unat f) :: u16) = unat f" using f by (subst unat_of_nat) simp
    then have "unat (ucast f :: u16) = unat f" by (simp only: w)
    then show ?thesis using f by (simp add: word_less_nat_alt)
  qed
  moreover have "(ucast (ucast f :: u16) :: u8) = f" by (rule bit_word_eqI) (simp add: bit_simps)
  ultimately show ?thesis by (simp add: parse_u8_def)
qed

text \<open>A command line that asks for given options.\<close>

definition render_model :: "machine_model \<Rightarrow> string" where
  "render_model model = (if model = CarveraC1 then ''c1'' else ''ca1'')"

definition render_options :: "cli_options \<Rightarrow> string list" where
  "render_options o' =
     (if cli_uart o' then [] else [''--no-uart'']) @ (if cli_wifi o' then [] else [''--no-wifi'']) @
     concat (map (\<lambda>p. [''--wifi-port'', decimal (unat p)]) (cli_ports o')) @ [''--sd'', cli_sd_root o'] @
     [''--model'', render_model (fs_model (cli_factory o')), ''--function-setting'', decimal (unat (function_setting (cli_factory o')))]"

definition command_line_model :: "cli_options \<Rightarrow> bool" where
  "command_line_model o' \<longleftrightarrow> fs_model (cli_factory o') \<in> {CarveraC1, CarveraAirCA1} \<and>
     reserve1 (cli_factory o') = 0 \<and> reserve2 (cli_factory o') = 0"

lemma parse_ports:
  "parse_arguments (concat (map (\<lambda>p. [''--wifi-port'', decimal (unat p)]) ports) @ args) o' =
     parse_arguments args (o'\<lparr>cli_ports := cli_ports o' @ ports\<rparr>)"
  by (induction ports arbitrary: o') (simp_all add: parse_u16_decimal)

text \<open>
  Every setting the command line has words for is read back from a command line that gives it: any ports in their order, any
  directory, either model and any function setting; without a port, and with Wi-Fi, it is one of the system's choice.
\<close>
theorem command_line_roundtrip:
  assumes "command_line_model o'"
  shows "command_line (render_options o') = Inr (with_default_port o')"
proof -
  have model: "model_named (render_model (fs_model (cli_factory o'))) = Some (fs_model (cli_factory o'))"
    using assms by (auto simp: command_line_model_def model_named_def render_model_def)
  have "parse_arguments (render_options o') default_cli = Inr o'"
    using assms by (cases o'; cases "cli_factory o'")
      (auto simp: render_options_def parse_ports model [simplified] parse_u8_decimal default_cli_def default_factory_settings_def command_line_model_def
        model_named_def render_model_def)
  then show ?thesis by (simp add: command_line_def)
qed

text \<open>Text after a number is not looked at: a mistyped port is taken for another.\<close>

lemma trailing_text_accepted: "parse_u16 ''2222x'' = Some 2222 \<and> parse_u16 ''08'' = Some 0 \<and> parse_u16 ''-18446744073709551615'' = Some 1"
  by (simp add: parse_u16_def stoul_def stoul_space_def digits_in_def digit_value_def digits_number_def detect_base_def Let_def)

section \<open>The start erases the EEPROM\<close>

definition eeprom_path :: "host_path \<Rightarrow> cli_options \<Rightarrow> host_path" where
  "eeprom_path cwd o' = os_path cwd (cli_sd_root o') @ [eeprom_filename]"

lemma start_app_session: "app_session (snd (start_app c o' a)) = snd (set_factory_settings (cli_factory o') (app_session a))"
  by (auto simp: start_app_def Let_def case_prod_unfold split: sum.split)

lemma factory_pokes:
  "\<exists>ws. ws \<noteq> [] \<and> (\<forall>dfs. configure_factory_settings settings dfs = poke_all ws dfs)"
proof -
  define ws where "ws = map (\<lambda>(i, b). (factory_address + word_of_nat i, b)) (enumerate 0 (factory_record settings)) @
     [(factory_address + 6, lo8 (crc16_ccitt_bytes (factory_record settings))), (factory_address + 6 + 1, hi8 (crc16_ccitt_bytes (factory_record settings)))]"
  have "configure_factory_settings settings dfs = poke_all ws dfs" for dfs
    by (simp add: configure_factory_settings_def poke_all_def ws_def Let_def fold_map comp_def case_prod_unfold)
  moreover have "ws \<noteq> []" by (simp add: ws_def)
  ultimately show ?thesis by blast
qed

lemma poke_all_writable:
  "persistent_path (fst dfs) = Some p \<Longrightarrow> can_write (snd dfs) p \<Longrightarrow> can_write (snd (poke_all ws dfs)) p"
proof (induction ws arbitrary: dfs)
  case (Cons w ws)
  obtain a v d files where w: "w = (a, v)" "dfs = (d, files)" by fastforce
  have "can_write (eeprom_persist (d\<lparr>storage := (storage d)[normalized_address d a := v]\<rparr>) files) p"
    using Cons.prems by (intro eeprom_persist_writes(1)) (simp_all add: w)
  then show ?case
    using Cons.prems Cons.IH [of "eeprom_poke a v dfs"] by (simp add: w poke_all_def eeprom_poke_def Let_def)
qed (simp add: poke_all_def)

lemma mounted_eeprom:
  assumes "new_persistent_state cwd (sd_config o') files = (m, d, files')" "cli_sd_root o' \<noteq> []"
    "can_write (create_directories (os_path cwd (cli_sd_root o')) files) (eeprom_path cwd o')"
  shows "persistent_path d = Some (eeprom_path cwd o')" "cells_ok d" "size_bytes (econfig d) = 4096" "can_write files' (eeprom_path cwd o')"
proof -
  let ?files = "create_directories (os_path cwd (cli_sd_root o')) files"
  let ?d = "load_from_persistent_file (new_eeprom\<lparr>persistent_path := Some (eeprom_path cwd o'), loaded_from_file := False\<rparr>) ?files"
  have d: "d = ?d" "files' = (if loaded_from_file ?d then ?files else eeprom_persist ?d ?files)"
    using assms(1,2) by (auto simp: new_persistent_state_def sd_config_def mount_def sd_mount_name_def use_persistent_file_def eeprom_path_def Let_def)
  have p: "persistent_path ?d = Some (eeprom_path cwd o')"
    by (simp add: load_from_persistent_file_def Let_def split: option.split)
  then show "persistent_path d = Some (eeprom_path cwd o')" by (simp add: d)
  show "cells_ok d" "size_bytes (econfig d) = 4096" unfolding d
    by (auto simp: load_from_persistent_file_def cells_ok_def new_eeprom_def default_eeprom_config_def kEepromSize_def Let_def split: option.split)
  show "can_write files' (eeprom_path cwd o')"
    using assms(3) eeprom_persist_writes(1) [OF p assms(3)] by (simp add: d)
qed

lemma reset_keeps:
  assumes "persistent_path d = Some p" "can_write files p"
  shows "persistent_path (fst (eeprom_reset (d, files))) = Some p" "can_write (snd (eeprom_reset (d, files))) p"
  using assms eeprom_persist_writes(1) [of "eeprom_stop (d\<lparr>storage := replicate (size_bytes (econfig d)) (fill (econfig d))\<rparr>)" p files]
  by (simp_all add: eeprom_reset_def eeprom_stop_def Let_def)

lemma powered_up:
  assumes "persistent_path d = Some p" "cells_ok d" "size_bytes (econfig d) = 4096" "can_write files p"
    "initialize_eeprom_for_power_on settings (d, files) = (d', files')"
  shows "persistent_path d' = Some p \<and> cells_ok d' \<and> size_bytes (econfig d') = 4096 \<and> can_write files' p"
proof (cases "loaded_from_file d")
  case True
  then show ?thesis using assms by (auto simp: initialize_eeprom_for_power_on_def eeprom_stop_def cells_ok_def)
next
  case False
  obtain ws where ws: "configure_factory_settings settings (eeprom_reset (d, files)) = poke_all ws (eeprom_reset (d, files))"
    using factory_pokes by blast
  have d': "(d', files') = poke_all ws (eeprom_reset (d, files))"
    using False assms(1,5) ws by (simp add: initialize_eeprom_for_power_on_def)
  have e: "econfig (fst (eeprom_reset (d, files))) = econfig d" "length (storage (fst (eeprom_reset (d, files)))) = size_bytes (econfig d)"
    by (simp_all add: eeprom_reset_def eeprom_stop_def Let_def)
  show ?thesis
    using poke_all_keeps [of ws "eeprom_reset (d, files)"] poke_all_writable [of "eeprom_reset (d, files)" p ws]
      reset_keeps [OF assms(1,4)] e assms(2,3) by (simp add: cells_ok_def flip: d')
qed



end
