(* ===== verification/Physical_Service.thy ===== *)
theory Physical_Service
  imports Motion_Telemetry Step_Laws
begin

text \<open>
  The service of the physical model (\<^verbatim>\<open>EventEngine::service_physical_model\<close> of \<^verbatim>\<open>src/core/event_engine.cpp\<close>), which the event
  engine calls between two batches of the firmware: the contacts follow the spindle, the clamp follows its axis, a probe that crashed
  into the stock raises the alarm of the motor that drove it, and the telemetry looks at the result.  \<open>None\<close> is an exception.
\<close>

section \<open>The service\<close>

definition spindle_position_of :: "axis list \<Rightarrow> point3" where
  "spindle_position_of axes = \<lparr>px = position_mm (axes ! 0), py = position_mm (axes ! 1), pz = position_mm (axes ! 2)\<rparr>"

definition serve_contacts :: "('h, 'w) machine \<Rightarrow> ('h, 'w) machine option" where
  "serve_contacts m =
     (if 3 \<le> length (m_axes m)
      then let pos = spindle_position_of (m_axes m)
           in case update_probe_contacts pos (m_scene m, m_mcu m) of
                None \<Rightarrow> None
              | Some (scene, mcu) \<Rightarrow>
                  (let scene = (if 4 < length (m_axes m) then update_atc_clamp_position pos (position_mm (m_axes m ! 4)) scene else scene)
                   in Some (put_mcu mcu (m\<lparr>m_scene := scene\<rparr>)))
      else Some m)"

definition serve_crash :: "('h, 'w) machine \<Rightarrow> ('h, 'w) machine option" where
  "serve_crash m = (case stock_probe_crash_axis (last_contacts (m_scene m)) of
     None \<Rightarrow> Some m
   | Some crash_axis \<Rightarrow> map_option (\<lambda>mcu. put_mcu mcu m) (alarms_drive crash_axis True (m_alarms m) (m_mcu m)))"

definition service_machine :: "('h, 'w) machine \<Rightarrow> ('h, 'w) machine option" where
  "service_machine m = (case serve_contacts m of None \<Rightarrow> None | Some m \<Rightarrow> serve_crash m)"

definition service_model :: "view \<Rightarrow> ('h, 'w) machine \<times> telemetry \<Rightarrow> (machine_telemetry option \<times> ('h, 'w) machine \<times> telemetry) option" where
  "service_model v mt = (case service_machine (fst mt) of
     None \<Rightarrow> None
   | Some m \<Rightarrow> (let (sample, t) = observe False v m (snd mt) in Some (sample, m, t)))"

section \<open>The service never fails\<close>

text \<open>The pins of a board's sensors.\<close>

definition sensor_pin :: "machine_model \<Rightarrow> pin_address \<Rightarrow> bool" where
  "sensor_pin model p \<longleftrightarrow> (\<exists>(s, a) \<in> set (scene_signals model no_contacts False). connected s \<and> signal_pin s = p)"

lemma serve_contacts_total:
  assumes "machine_wf m"
  shows "\<exists>m'. serve_contacts m = Some m' \<and> machine_wf m' \<and> m_axes m' = m_axes m \<and> m_alarms m' = m_alarms m \<and>
    (\<forall>p. valid_pin (m_mcu m) p \<longrightarrow> \<not> sensor_pin (scene_model (m_scene m)) p \<longrightarrow> machine_level p m' = machine_level p m) \<and>
    scene_model (m_scene m') = scene_model (m_scene m)"
proof (cases "3 \<le> length (m_axes m)")
  case True
  let ?pos = "spindle_position_of (m_axes m)" and ?s = "m_scene m"
  obtain contacts probe where u: "probe_update ?pos (spindle_tool (scene_rack ?s)) (scene_probe ?s) = (contacts, probe)" by fastforce
  have len: "length (gpio (m_mcu m)) = 5" using assms by (simp add: machine_wf_def)
  let ?sig = "scene_signals (scene_model ?s) contacts (detector_contact ?pos (scene_rack ?s))"
  have "\<forall>(s, a) \<in> set ?sig. valid_pin (m_mcu m) (signal_pin s)" using scene_pins_valid len by blast
  from drive_all_pins [OF this scene_pins_distinct] obtain mcu where mcu: "drive_all ?sig (m_mcu m) = Some mcu"
    "length (gpio mcu) = length (gpio (m_mcu m))" "\<And>p. valid_pin (m_mcu m) p \<Longrightarrow> pin_level p mcu = shown_level ?sig (m_mcu m) p"
    by blast
  have adc: "adc mcu = adc (m_mcu m)" using signals_drive_keeps mcu(1) by (metis signals_drive_all)
  define scene where "scene = ?s\<lparr>scene_probe := probe, last_contacts := contacts\<rparr>"
  define scene' where "scene' = (if 4 < length (m_axes m) then update_atc_clamp_position ?pos (position_mm (m_axes m ! 4)) scene else scene)"
  have run: "serve_contacts m = Some (put_mcu mcu (m\<lparr>m_scene := scene'\<rparr>))"
    using True by (simp add: serve_contacts_def update_probe_contacts_def u signals_drive_all mcu(1) scene'_def scene_def Let_def)
  have model: "scene_model scene' = scene_model ?s"
    by (simp add: scene'_def scene_def update_atc_clamp_position_def sync_probe_install_from_spindle_def case_prod_unfold Let_def)
  have wf: "machine_wf (put_mcu mcu (m\<lparr>m_scene := scene'\<rparr>))"
    by (rule machine_wf_put_mcu) (use assms mcu(2) adc in \<open>simp_all add: machine_wf_def\<close>)
  have "machine_level p (put_mcu mcu (m\<lparr>m_scene := scene'\<rparr>)) = machine_level p m"
    if p: "valid_pin (m_mcu m) p" and free: "\<not> sensor_pin (scene_model ?s) p" for p
  proof -
    have "List.find (\<lambda>(s, _). connected s \<and> signal_pin s = p) ?sig = None"
      using free by (auto simp: find_None_iff scene_signals_def sensor_pin_def Let_def)
    then show ?thesis using mcu(3) [OF p] by (simp add: machine_level_def shown_level_def)
  qed
  with run wf model show ?thesis by (intro exI [of _ "put_mcu mcu (m\<lparr>m_scene := scene'\<rparr>)"]) simp
next
  case False
  then show ?thesis using assms by (simp add: serve_contacts_def)
qed

lemma alarms_drive_valid:
  assumes "machine_wf m"
  shows "\<exists>mcu. alarms_drive axis on (m_alarms m) (m_mcu m) = Some mcu \<and> machine_wf (put_mcu mcu m) \<and>
    (\<forall>p. valid_pin (m_mcu m) p \<longrightarrow> pin_level p mcu =
      (if axis < length (m_alarms m) \<and> alarm_connected (m_alarms m ! axis) \<and> p = alarm_pin (m_alarms m ! axis)
       then Some (alarm_active_level (m_alarms m ! axis) = on) else pin_level p (m_mcu m)))"
proof (cases "axis < length (m_alarms m) \<and> alarm_connected (m_alarms m ! axis)")
  case True
  then have v: "valid_pin (m_mcu m) (alarm_pin (m_alarms m ! axis))" using assms by (simp add: machine_wf_def)
  obtain mcu where mcu: "set_level (alarm_pin (m_alarms m ! axis)) (alarm_active_level (m_alarms m ! axis) = on) (m_mcu m) = Some mcu"
    "\<And>q. valid_pin (m_mcu m) q \<Longrightarrow> pin_level q mcu =
      (if q = alarm_pin (m_alarms m ! axis) then Some (alarm_active_level (m_alarms m ! axis) = on) else pin_level q (m_mcu m))"
    using set_level_valid [OF v] by metis
  have "alarms_drive axis on (m_alarms m) (m_mcu m) = Some mcu"
    using True mcu(1) by (cases on) (simp_all add: alarms_drive_def)
  moreover have "machine_wf (put_mcu mcu m)"
    using set_level_keeps [OF mcu(1)] by (intro machine_wf_put_mcu [OF assms]) auto
  ultimately show ?thesis using True mcu(2) by (intro exI [of _ mcu]) auto
next
  case False
  then show ?thesis using assms by (intro exI [of _ "m_mcu m"]) (auto simp: alarms_drive_def put_mcu_def m_mcu_def)
qed

text \<open>A pin of an alarm that is not one of the board's sensors and that no other alarm drives to another level.\<close>

definition alarm_pin_alone :: "nat \<Rightarrow> ('h, 'w) machine \<Rightarrow> bool" where
  "alarm_pin_alone axis m \<longleftrightarrow> axis < length (m_alarms m) \<and> alarm_connected (m_alarms m ! axis) \<and>
     \<not> sensor_pin (scene_model (m_scene m)) (alarm_pin (m_alarms m ! axis)) \<and>
     (\<forall>i < length (m_alarms m). alarm_connected (m_alarms m ! i) \<and> alarm_pin (m_alarms m ! i) = alarm_pin (m_alarms m ! axis) \<longrightarrow>
        alarm_active_level (m_alarms m ! i) = alarm_active_level (m_alarms m ! axis))"

definition alarm_shown :: "nat \<Rightarrow> ('h, 'w) machine \<Rightarrow> bool" where
  "alarm_shown axis m \<longleftrightarrow> machine_level (alarm_pin (m_alarms m ! axis)) m = Some (alarm_active_level (m_alarms m ! axis))"

lemma alarm_pin_no_sensor:
  "alarm_pin_alone axis m \<Longrightarrow> \<not> sensor_pin (scene_model (m_scene m)) (alarm_pin (m_alarms m ! axis))"
  by (simp add: alarm_pin_alone_def)

lemma alarm_pin_level:
  "alarm_pin_alone axis m \<Longrightarrow> i < length (m_alarms m) \<Longrightarrow> alarm_connected (m_alarms m ! i) \<Longrightarrow>
    alarm_pin (m_alarms m ! i) = alarm_pin (m_alarms m ! axis) \<Longrightarrow> alarm_active_level (m_alarms m ! i) = alarm_active_level (m_alarms m ! axis)"
  unfolding alarm_pin_alone_def by blast

lemma alarm_pin_valid: "machine_wf m \<Longrightarrow> alarm_pin_alone axis m \<Longrightarrow> valid_pin (m_mcu m) (alarm_pin (m_alarms m ! axis))"
  by (simp add: machine_wf_def alarm_pin_alone_def)

lemma service_total:
  assumes "machine_wf m"
  shows "\<exists>m'. service_machine m = Some m' \<and> machine_wf m' \<and> m_axes m' = m_axes m \<and> m_alarms m' = m_alarms m \<and>
    scene_model (m_scene m') = scene_model (m_scene m) \<and>
    (\<forall>axis. alarm_pin_alone axis m \<longrightarrow> alarm_shown axis m \<or> stock_probe_crash_axis (last_contacts (m_scene m')) = Some axis \<longrightarrow> alarm_shown axis m')"
proof -
  obtain m1 where m1: "serve_contacts m = Some m1" "machine_wf m1" "m_axes m1 = m_axes m" "m_alarms m1 = m_alarms m"
    "\<And>p. valid_pin (m_mcu m) p \<Longrightarrow> \<not> sensor_pin (scene_model (m_scene m)) p \<Longrightarrow>
      machine_level p m1 = machine_level p m"
    "scene_model (m_scene m1) = scene_model (m_scene m)"
    using serve_contacts_total [OF assms] by blast
  have same: "valid_pin (m_mcu m1) p = valid_pin (m_mcu m) p" for p
    using assms m1(2) by (simp add: machine_wf_def valid_pin_def)
  have kept: "alarm_shown axis m1" if "alarm_pin_alone axis m" "alarm_shown axis m" for axis
    using that(2) m1(4) m1(5) [OF alarm_pin_valid [OF assms that(1)] alarm_pin_no_sensor [OF that(1)]] by (simp add: alarm_shown_def)
  show ?thesis
  proof (cases "stock_probe_crash_axis (last_contacts (m_scene m1))")
    case None
    then show ?thesis using m1 kept by (intro exI [of _ m1]) (auto simp: service_machine_def serve_crash_def)
  next
    case (Some crash)
    obtain mcu where mcu: "alarms_drive crash True (m_alarms m1) (m_mcu m1) = Some mcu" "machine_wf (put_mcu mcu m1)"
      "\<And>p. valid_pin (m_mcu m1) p \<Longrightarrow> pin_level p mcu =
        (if crash < length (m_alarms m1) \<and> alarm_connected (m_alarms m1 ! crash) \<and> p = alarm_pin (m_alarms m1 ! crash)
         then Some (alarm_active_level (m_alarms m1 ! crash) = True) else pin_level p (m_mcu m1))"
      using alarms_drive_valid [OF m1(2)] by blast
    have "alarm_shown axis (put_mcu mcu m1)" if alone: "alarm_pin_alone axis m" and shown: "alarm_shown axis m \<or> crash = axis" for axis
    proof -
      have v: "valid_pin (m_mcu m1) (alarm_pin (m_alarms m ! axis))" using alarm_pin_valid [OF assms alone] same by simp
      show ?thesis
      proof (cases "crash < length (m_alarms m) \<and> alarm_connected (m_alarms m ! crash) \<and> alarm_pin (m_alarms m ! axis) = alarm_pin (m_alarms m ! crash)")
        case True
        then have "alarm_active_level (m_alarms m ! crash) = alarm_active_level (m_alarms m ! axis)"
          using alarm_pin_level [OF alone, of crash] by metis
        then show ?thesis using True mcu(3) [OF v] m1(4) by (simp add: alarm_shown_def machine_level_def)
      next
        case False
        then have "crash \<noteq> axis" using alone by (auto simp: alarm_pin_alone_def)
        then show ?thesis
          using False mcu(3) [OF v] m1(4) shown kept [OF alone] by (auto simp: alarm_shown_def machine_level_def)
      qed
    qed
    then show ?thesis
      using m1 mcu(1,2) Some by (intro exI [of _ "put_mcu mcu m1"]) (auto simp: service_machine_def serve_crash_def)
  qed
qed

section \<open>A crash stays reported\<close>

text \<open>
  A step is a service, or anything else that leaves the machine well formed and does not touch the pin of the alarm, the wiring
  of the alarms or the board: the axes move, tools change, the firmware runs.
\<close>

inductive alarm_step :: "nat \<Rightarrow> ('h, 'w) machine \<Rightarrow> ('h, 'w) machine \<Rightarrow> bool" for axis :: nat where
  serve: "service_machine m = Some m' \<Longrightarrow> alarm_step axis m m'"
| elsewhere: "machine_wf m' \<Longrightarrow> m_alarms m' = m_alarms m \<Longrightarrow> scene_model (m_scene m') = scene_model (m_scene m) \<Longrightarrow>
    machine_level (alarm_pin (m_alarms m ! axis)) m' = machine_level (alarm_pin (m_alarms m ! axis)) m \<Longrightarrow> alarm_step axis m m'"

lemma alone_cong:
  "m_alarms m' = m_alarms m \<Longrightarrow> scene_model (m_scene m') = scene_model (m_scene m) \<Longrightarrow> alarm_pin_alone axis m' = alarm_pin_alone axis m"
  unfolding alarm_pin_alone_def by (simp only:)

interpretation alarms: step_relation "alarm_step axis" "\<lambda>m. machine_wf m \<and> alarm_pin_alone axis m \<and> alarm_shown axis m" for axis
proof unfold_locales
  fix m m' :: "('a, 'b) machine"
  assume inv: "machine_wf m \<and> alarm_pin_alone axis m \<and> alarm_shown axis m" and "alarm_step axis m m'"
  from this(2) show "machine_wf m' \<and> alarm_pin_alone axis m' \<and> alarm_shown axis m'"
  proof cases
    case serve
    with inv show ?thesis using service_total [of m] alone_cong [of m' m axis] by (metis option.inject)
  next
    case elsewhere
    with inv show ?thesis using alone_cong [of m' m axis] by (simp add: alarm_shown_def)
  qed
qed

text \<open>
  When a service finds that the probe has crashed into the stock, the alarm of the axis that drove it is raised on its pin, and
  it stays raised through every later service and everything else that leaves its pin alone.
\<close>
theorem crash_stays_reported:
  assumes "machine_wf m" "alarm_pin_alone axis m" "service_machine m = Some m1"
    "stock_probe_crash_axis (last_contacts (m_scene m1)) = Some axis" "(alarm_step axis)\<^sup>*\<^sup>* m1 m2"
  shows "machine_wf m2 \<and> machine_level (alarm_pin (m_alarms m2 ! axis)) m2 = Some (alarm_active_level (m_alarms m2 ! axis))"
proof -
  have "machine_wf m1 \<and> alarm_pin_alone axis m1 \<and> alarm_shown axis m1"
    using service_total [OF assms(1)] assms(2-4) alone_cong by (metis option.inject)
  from alarms.reachable [OF assms(5) this] show ?thesis by (simp add: alarm_shown_def)
qed

end
