(* ===== verification/Firmware_Delay.thy ===== *)
theory Firmware_Delay
  imports Us_Ticker Realtime_Clock
begin

text \<open>
  The delays of the firmware (\<^verbatim>\<open>safe_delay_ms\<close> and \<^verbatim>\<open>safe_delay_us\<close> of \<^verbatim>\<open>src/firmware/utils_stubs.cpp\<close>) and of a host
  (\<^verbatim>\<open>MachineSimulator::advance_us\<close> of \<^verbatim>\<open>src/core/machine_simulator.cpp\<close>): virtual time moves on, and the microsecond ticker
  runs what has come due.  During a delay of the firmware the host's callback runs, after which the process sleeps for a
  millisecond at most, and then the idle event of the firmware.
\<close>

section \<open>The delays\<close>

definition pass_time :: "u64 \<Rightarrow> ('h, 'w) ticker \<Rightarrow> ('h, 'w) ticker" where
  "pass_time us s = s\<lparr>ticker_clock_us := ticker_clock_us s + us\<rparr>"

definition machine_advance_us :: "('h, 'w) caller \<Rightarrow> u64 \<Rightarrow> ('h, 'w) ticker \<Rightarrow> ('h, 'w) ticker option" where
  "machine_advance_us call us s = dispatch_due_events call (pass_time us s)"

text \<open>The wall-clock sleep in microseconds, if there is one, and the state; \<open>idle\<close> is the event of the kernel, if there is one.\<close>

definition advance_delay_time :: "('h, 'w) caller \<Rightarrow> (('h, 'w) ticker \<Rightarrow> ('h, 'w) ticker) option \<Rightarrow>
    (('h, 'w) ticker \<Rightarrow> ('h, 'w) ticker) option \<Rightarrow> u64 \<Rightarrow> ('h, 'w) ticker \<Rightarrow> (u64 option \<times> ('h, 'w) ticker) option" where
  "advance_delay_time call hook idle delay_us s =
     (case dispatch_due_events call (pass_time delay_us s) of
        None \<Rightarrow> None
      | Some s \<Rightarrow>
          (let (ran, s) = hook_run hook s; slept = (if ran then Some (min delay_us 1000) else None);
               s = (case idle of None \<Rightarrow> s | Some call_idle \<Rightarrow> call_idle s)
           in Some (slept, s)))"

definition safe_delay_ms :: "('h, 'w) caller \<Rightarrow> (('h, 'w) ticker \<Rightarrow> ('h, 'w) ticker) option \<Rightarrow>
    (('h, 'w) ticker \<Rightarrow> ('h, 'w) ticker) option \<Rightarrow> u32 \<Rightarrow> ('h, 'w) ticker \<Rightarrow> (u64 option \<times> ('h, 'w) ticker) option" where
  "safe_delay_ms call hook idle ms = advance_delay_time call hook idle (ucast ms * 1000)"

definition safe_delay_us :: "('h, 'w) caller \<Rightarrow> (('h, 'w) ticker \<Rightarrow> ('h, 'w) ticker) option \<Rightarrow>
    (('h, 'w) ticker \<Rightarrow> ('h, 'w) ticker) option \<Rightarrow> u32 \<Rightarrow> ('h, 'w) ticker \<Rightarrow> (u64 option \<times> ('h, 'w) ticker) option" where
  "safe_delay_us call hook idle us = advance_delay_time call hook idle (ucast us)"

section \<open>A delay and its parts\<close>

lemma pass_time_simps [simp]:
  "queued (pass_time us s) xs = queued s xs" "stamp (pass_time us s) = stamp s" "active_handler (pass_time us s) = active_handler s"
  "events (pass_time us s) = events s" "ticker_firmware (pass_time us s) = ticker_firmware s"
  "ticker_clock_us (pass_time us s) = ticker_clock_us s + us"
  by (simp_all add: pass_time_def queued_def stamp_def fun_eq_iff)

lemma fold_takeWhile_twice:
  assumes "\<And>x. x \<in> set xs \<Longrightarrow> p x \<Longrightarrow> q x"
  shows "takeWhile p xs @ takeWhile q (dropWhile p xs) = takeWhile q xs" "dropWhile q (dropWhile p xs) = dropWhile q xs"
  using assms by (induction xs) auto

text \<open>Time that stays within half the range of the counter after a base.\<close>

lemma low_word_add: "(ucast (x + y) :: u32) = ucast x + ucast y" for x y :: u64
proof (rule unsigned_word_eqI)
  show "unat (ucast (x + y) :: u32) = unat (ucast x + ucast y :: u32)"
    by (simp add: unat_word_ariths unsigned_ucast_eq unsigned_take_bit_eq take_bit_eq_mod mod_mod_cancel mod_add_eq)
qed

lemma offset_pass_time:
  assumes "offset base (ticker_read s) + unat us < 2 ^ 31"
  shows "offset base (ticker_read (pass_time us s)) = offset base (ticker_read s) + unat us"
proof -
  have small: "unat us < 2 ^ 32" using assms by simp
  then have us: "unat (ucast us :: u32) = unat us" by (simp add: unsigned_ucast_eq unsigned_take_bit_eq take_bit_nat_eq_self)
  have "ticker_read (pass_time us s) - base = (ticker_read s - base) + ucast us"
    by (simp add: ticker_read_def low_word_add)
  then show ?thesis
    unfolding offset_def by (simp only:) (subst unat_plus_if, use assms us in \<open>simp_all add: offset_def\<close>)
qed

lemma due_later:
  assumes "in_order base s xs" "offset base (ticker_read s) + unat us < 2 ^ 31" "x \<in> set xs" "due (stamp s x) s"
  shows "due (stamp s x) (pass_time us s)"
  using assms due_offset [of base "stamp s x" s] due_offset [of base "stamp s x" "pass_time us s"] offset_pass_time [OF assms(2)]
  by (simp add: in_order_def)

lemma advance_queue:
  assumes "queued s xs" "active_handler s = Some h"
  shows "\<exists>s'. machine_advance_us (plain_caller f) us s = Some s' \<and>
    queued s' (dropWhile (\<lambda>x. due (stamp s x) (pass_time us s)) xs) \<and>
    ticker_firmware s' = fold (f h) (map (\<lambda>x. ev_id (events s x)) (takeWhile (\<lambda>x. due (stamp s x) (pass_time us s)) xs)) (ticker_firmware s) \<and>
    stamp s' = stamp s \<and> active_handler s' = Some h \<and> ticker_clock_us s' = ticker_clock_us s + us \<and>
    (\<forall>x. ev_id (events s' x) = ev_id (events s x))"
  using dispatch_queue [of "pass_time us s" xs h f] assms by (simp add: machine_advance_us_def)

text \<open>
  Two delays, one after the other, run the same events in the same order as one delay of their sum, each once, and leave the same
  events waiting: however the firmware cuts its waiting into pieces, handlers that only work on its memory see no difference, as
  long as queue and time stay within half the range of the counter.
\<close>
theorem delays_add_up:
  assumes "queued s xs" "in_order base s xs" "active_handler s = Some h" "offset base (ticker_read s) + unat a + unat b < 2 ^ 31"
  shows "\<exists>s1 s2 s3. machine_advance_us (plain_caller f) a s = Some s1 \<and> machine_advance_us (plain_caller f) b s1 = Some s2 \<and>
    machine_advance_us (plain_caller f) (a + b) s = Some s3 \<and> ticker_firmware s2 = ticker_firmware s3 \<and>
    ticker_clock_us s2 = ticker_clock_us s3 \<and> (\<exists>ys. queued s2 ys \<and> queued s3 ys)"
proof -
  let ?da = "\<lambda>x. due (stamp s x) (pass_time a s)" and ?dab = "\<lambda>x. due (stamp s x) (pass_time (a + b) s)"
  have ab: "unat (a + b) = unat a + unat b" using assms(4) by (intro unat_plus_if) simp
  obtain s1 where s1: "machine_advance_us (plain_caller f) a s = Some s1" "queued s1 (dropWhile ?da xs)"
    "ticker_firmware s1 = fold (f h) (map (\<lambda>x. ev_id (events s x)) (takeWhile ?da xs)) (ticker_firmware s)"
    "stamp s1 = stamp s" "active_handler s1 = Some h" "ticker_clock_us s1 = ticker_clock_us s + a" "\<forall>x. ev_id (events s1 x) = ev_id (events s x)"
    using advance_queue [OF assms(1,3)] by blast
  have later: "due ts (pass_time b s1) = due ts (pass_time (a + b) s)" for ts
    by (simp add: due_def ticker_read_def s1(6) add.assoc)
  obtain s2 where s2: "machine_advance_us (plain_caller f) b s1 = Some s2" "queued s2 (dropWhile ?dab (dropWhile ?da xs))"
    "ticker_firmware s2 = fold (f h) (map (\<lambda>x. ev_id (events s x)) (takeWhile ?dab (dropWhile ?da xs))) (ticker_firmware s1)"
    "ticker_clock_us s2 = ticker_clock_us s + a + b"
    using advance_queue [OF s1(2,5), of f b] by (auto simp: s1(4,6,7) later)
  obtain s3 where s3: "machine_advance_us (plain_caller f) (a + b) s = Some s3" "queued s3 (dropWhile ?dab xs)"
    "ticker_firmware s3 = fold (f h) (map (\<lambda>x. ev_id (events s x)) (takeWhile ?dab xs)) (ticker_firmware s)"
    "ticker_clock_us s3 = ticker_clock_us s + (a + b)"
    using advance_queue [OF assms(1,3), of f "a + b"] by auto
  have "?dab x" if "x \<in> set xs" "?da x" for x
  proof -
    have "due (stamp s x) (pass_time b (pass_time a s))"
      using due_later [of base "pass_time a s" xs b x] that assms(2,4) offset_pass_time [of base s a] by (simp add: in_order_def)
    then show ?thesis by (simp add: due_def ticker_read_def add.assoc)
  qed
  note pieces = fold_takeWhile_twice [of xs ?da ?dab, OF this]
  have "ticker_firmware s2 = fold (f h) (map (\<lambda>x. ev_id (events s x)) (takeWhile ?da xs @ takeWhile ?dab (dropWhile ?da xs))) (ticker_firmware s)"
    by (simp add: s2(3) s1(3))
  then show ?thesis
    using s1(1) s2 s3 by (simp add: pieces add.assoc) blast
qed

text \<open>A delay of the firmware with nothing on the host's side is the passing of time.\<close>

lemma plain_delay:
  "safe_delay_ms call None None ms s = map_option (Pair None) (machine_advance_us call (ucast ms * 1000) s)"
  "safe_delay_us call None None us s = map_option (Pair None) (machine_advance_us call (ucast us) s)"
  by (simp_all add: safe_delay_ms_def safe_delay_us_def advance_delay_time_def machine_advance_us_def hook_run_def split: option.split)

lemma delay_sleeps_a_millisecond_at_most:
  "safe_delay_ms call hook idle ms s = Some (Some slept, s') \<Longrightarrow> slept \<le> 1000"
  by (auto simp: safe_delay_ms_def advance_delay_time_def Let_def case_prod_unfold split: option.splits if_splits)

end
