(* ===== verification/Request_Server.thy ===== *)
theory Request_Server
  imports Stream_Server
begin

text \<open>
  The server that does nothing but answer (\<^verbatim>\<open>src/apps/sim_stdio_server.cpp\<close>): a request is read, handled and answered before
  the next is read.  Its standard input is all the bytes that will come.
\<close>

section \<open>The server\<close>

text \<open>Whether a failed \<^verbatim>\<open>read_message\<close> has met the end of its input, in the size or in the message.\<close>

definition read_meets_end :: "string \<Rightarrow> bool" where
  "read_meets_end bytes \<longleftrightarrow> length bytes < 4 \<or>
     unat (decode_frame_size bytes) \<le> kMaxFrameSize \<and> length bytes - 4 < unat (decode_frame_size bytes)"

text \<open>The loop: the exit code, what is written, and the state of the handler.\<close>

function request_loop :: "(string \<Rightarrow> 'req option) \<Rightarrow> ('resp \<Rightarrow> string) \<Rightarrow> ('req \<Rightarrow> 'w \<Rightarrow> 'resp \<times> 'w) \<Rightarrow> string \<Rightarrow> ostream \<Rightarrow> 'w \<Rightarrow>
    nat \<times> ostream \<times> 'w" where
  "request_loop parse ser h input out w =
     (case read_message parse input of
        (None, _) \<Rightarrow> (if read_meets_end input then 0 else 1, out, w)
      | (Some request, rest) \<Rightarrow>
          (let (response, w) = h request w; (written_well, out) = write_message ser response out
           in if \<not> written_well then (1, out, w) else request_loop parse ser h rest out w))"
  by pat_completeness auto
termination
  by (relation "measure (\<lambda>(parse, ser, h, input, out, w). length input)")
    (auto simp: read_message_def Let_def split: if_splits)

declare request_loop.simps [simp del]

section \<open>It answers its input\<close>

lemma request_loop_frame:
  assumes "fits parse enc ser" "good out"
  shows "request_loop parse ser h (frame_of (enc r) @ rest) out w =
    request_loop parse ser h rest (out\<lparr>written := written out @ frame_of (ser (fst (h r w)))\<rparr>) (snd (h r w))"
proof -
  have fit: "parse (enc r) = Some r" "length (enc r) \<le> kMaxFrameSize" "\<And>m. length (ser m) \<le> kMaxFrameSize"
    using assms(1) unfolding fits_def by blast+
  have "read_message parse (frame_of (enc r) @ rest) = (Some r, rest)"
    using fit(1,2) by (simp add: read_message_def frame_of_def decode_encode_size unat_frame_size)
  moreover have "write_message ser (fst (h r w)) out = (True, out\<lparr>written := written out @ frame_of (ser (fst (h r w)))\<rparr>)"
    using assms(2) fit(3) by (rule write_message_frame)
  ultimately show ?thesis
    by (subst request_loop.simps) (simp add: case_prod_unfold Let_def)
qed

lemma request_loop_frames:
  assumes "fits parse enc ser" "good out"
  shows "request_loop parse ser h (frames enc rs @ rest) out w =
    request_loop parse ser h rest (out\<lparr>written := written out @ frames ser (fst (serve h rs w))\<rparr>) (snd (serve h rs w))"
  using assms(2) by (induction rs arbitrary: out w) (simp_all add: request_loop_frame [OF assms(1)] case_prod_unfold)

text \<open>
  Given a file of requests the server answers each once, in order, and exits with code 0.  The end of the input in the middle
  of a request is no error either: what is complete is answered, and the code is 0.
\<close>
theorem server_answers_file:
  assumes "fits parse enc ser" "length partial < length (frame_of (enc r))" "partial @ missing = frame_of (enc r)"
  shows "request_loop parse ser h (frames enc rs @ partial) \<lparr>written = [], good = True\<rparr> w =
    (0, \<lparr>written = frames ser (fst (serve h rs w)), good = True\<rparr>, snd (serve h rs w))"
proof -
  have fit: "length (enc r) \<le> kMaxFrameSize" using assms(1) by (simp add: fits_def)
  have "read_message parse partial = (None, []) \<and> read_meets_end partial"
  proof (cases "length partial < 4")
    case False
    have "partial = take (length partial) (frame_of (enc r))" using assms(3) by (metis append_eq_conv_conj)
    also have "\<dots> = encode_frame_size (word_of_nat (length (enc r))) @ take (length partial - 4) (enc r)"
      using False by (simp add: frame_of_def)
    finally have "unat (decode_frame_size partial) = length (enc r)"
      by (metis decode_encode_size unat_frame_size fit)
    then show ?thesis
      using False assms(2) fit by (auto simp: read_message_def read_meets_end_def frame_of_def Let_def)
  qed (simp add: read_message_def read_meets_end_def)
  then show ?thesis
    by (simp add: request_loop_frames [OF assms(1)]) (simp add: request_loop.simps)
qed

text \<open>On whole requests this server and the pump of the stream server write the same, whatever the chunks the pump is given.\<close>

theorem servers_agree:
  assumes "fits parse enc ser" "concat chunks = frames enc rs"
  shows "(let (code, out, w') = request_loop parse ser h (frames enc rs) \<lparr>written = [], good = True\<rparr> w;
      (fine, p) = feed_chunks parse ser h chunks
        \<lparr>pump_output = \<lparr>written = [], good = True\<rparr>, pump_closed = False, pump_buffer = [], pump_world = w, pump_os = ()\<rparr>
     in code = 0 \<and> fine \<and> out = pump_output p \<and> w' = pump_world p)"
proof -
  have "feed_chunks parse ser h chunks
      \<lparr>pump_output = \<lparr>written = [], good = True\<rparr>, pump_closed = False, pump_buffer = [], pump_world = w, pump_os = ()\<rparr> =
    (True, served ser h rs [] \<lparr>pump_output = \<lparr>written = [], good = True\<rparr>, pump_closed = False, pump_buffer = [], pump_world = w, pump_os = ()\<rparr>)"
    by (rule feed_chunks_served [OF assms(1)]) (use assms(2) in \<open>simp_all add: frame_of_def\<close>)
  moreover have "request_loop parse ser h (frames enc rs @ []) \<lparr>written = [], good = True\<rparr> w =
      (0, \<lparr>written = frames ser (fst (serve h rs w)), good = True\<rparr>, snd (serve h rs w))"
    by (subst request_loop_frames [OF assms(1)]) (simp_all add: request_loop.simps [of _ _ _ "[]"] read_message_def read_meets_end_def)
  ultimately show ?thesis by (simp add: served_def)
qed

end
