(* ===== verification/Stub_Devices.thy ===== *)
theory Stub_Devices
  imports Machine_Simulator Host_Filesystem Step_Laws
begin

text \<open>
  Devices the simulator only pretends to have: the CAN peripheral of mbed (\<^verbatim>\<open>include/CAN.h\<close>), the CAN
  bus of the firmware, and the disk and the modules of
  the boot (\<^verbatim>\<open>include/sim/firmware_boot_stubs.hpp\<close>, \<^verbatim>\<open>src/firmware/firmware_boot_stubs.cpp\<close>); and the numbers that name the pins
  (\<^verbatim>\<open>include/PinNames.h\<close>).
\<close>

section \<open>Pin names\<close>

text \<open>The enumerators in their order, from zero; then the names of the six analogue pins, and of no pin.\<close>

definition pin_names :: "(nat \<times> nat) list" where
  "pin_names = concat (map (\<lambda>port. map (Pair port) [0..<32]) [0..<5])"

definition pin_enumerator :: "nat \<Rightarrow> nat \<Rightarrow> nat" where
  "pin_enumerator port n = length (takeWhile (\<lambda>p. p \<noteq> (port, n)) pin_names)"

definition analogue_names :: "(nat \<times> nat) list" where
  "analogue_names = [(15, pin_enumerator 0 23), (16, pin_enumerator 0 24), (17, pin_enumerator 0 25), (18, pin_enumerator 0 26), (19, pin_enumerator 1 30), (20, pin_enumerator 1 31)]"

definition pin_NC :: u32 where "pin_NC = 0xFFFFFFFF"

lemma pin_names_map: "pin_names = map (\<lambda>i. (i div 32, i mod 32)) [0..<160]"
proof -
  have block: "concat (map (\<lambda>port. map (Pair port) [0..<32]) [0..<k]) = map (\<lambda>i. (i div 32, i mod 32)) [0..<32 * k]" for k
  proof (induction k)
    case (Suc k)
    have "map (Pair k) [0..<32] = map (\<lambda>i. (i div 32, i mod 32)) [32 * k..<32 * k + 32]"
      by (rule nth_equalityI) (simp_all add: div_mult_self4 add.commute)
    moreover have "[0..<32 * Suc k] = [0..<32 * k] @ [32 * k..<32 * k + 32]"
      by (metis add.commute mult_Suc_right upt_add_eq_append zero_le)
    ultimately show ?case using Suc by simp
  qed simp
  show ?thesis using block [of 5] unfolding pin_names_def by simp
qed

lemma pin_names_nth: "i < 160 \<Longrightarrow> pin_names ! i = (i div 32, i mod 32)"
  by (simp add: pin_names_map del: upt_rec_numeral)

lemma length_pin_names: "length pin_names = 160"
  by (simp add: pin_names_map del: upt_rec_numeral)

text \<open>The number of a name is what the simulator's tables are indexed by: a name and an address of the same pin meet.\<close>

theorem pin_enumerator_is_port_pin:
  assumes "port < 5" "n < 32"
  shows "pin_enumerator port n = port_pin \<lparr>pin_port = word_of_nat port, pin_number = word_of_nat n\<rparr>"
proof -
  have i: "32 * port + n < 160" using assms by simp
  have at: "pin_names ! (32 * port + n) = (port, n)" using pin_names_nth [OF i] assms by simp
  have before: "pin_names ! j \<noteq> (port, n)" if "j < 32 * port + n" for j
  proof -
    have "pin_names ! j = (j div 32, j mod 32)" using pin_names_nth that i by simp
    then show ?thesis using that by (metis div_mult_mod_eq mult.commute nat_neq_iff prod.inject)
  qed
  have "takeWhile (\<lambda>p. p \<noteq> (port, n)) pin_names = take (32 * port + n) pin_names"
    by (rule takeWhile_eq_take_P_nth) (use i at before in \<open>simp_all add: length_pin_names\<close>)
  then have "pin_enumerator port n = 32 * port + n" using i by (simp add: pin_enumerator_def length_pin_names)
  moreover have "unat (word_of_nat port :: u8) = port" "unat (word_of_nat n AND 0x1F :: u8) = n"
  proof -
    show "unat (word_of_nat port :: u8) = port" using assms by (simp add: unat_of_nat)
    have "word_of_nat n AND (0x1F :: u8) = take_bit 5 (word_of_nat n)" by (simp add: take_bit_eq_mask mask_eq_exp_minus_1)
    then show "unat (word_of_nat n AND 0x1F :: u8) = n" using assms(2) by (simp add: unsigned_take_bit_eq unat_of_nat take_bit_nat_eq_self)
  qed
  ultimately show ?thesis by (simp add: port_pin_def)
qed

section \<open>CAN\<close>

datatype can_type = CANData | CANRemote

datatype can_format = CANStandard | CANExtended

record can_message =
  can_id :: u32
  can_data :: "u8 list"
  can_len :: u8
  can_type_of :: can_type
  can_format_of :: can_format

definition new_can_message :: can_message where
  "new_can_message = \<lparr>can_id = 0, can_data = replicate 8 0, can_len = 8, can_type_of = CANData, can_format_of = CANStandard\<rparr>"

text \<open>The bytes a message is made from are read up to its length, and at most eight.\<close>

definition make_can_message :: "u32 \<Rightarrow> u8 list \<Rightarrow> u8 \<Rightarrow> can_type \<Rightarrow> can_format \<Rightarrow> can_message option" where
  "make_can_message i bytes len ty format =
     (let n = min (unat len) 8
      in if length bytes < n then None
         else Some \<lparr>can_id = i, can_data = take n bytes @ replicate (8 - n) 0, can_len = len, can_type_of = ty, can_format_of = format\<rparr>)"

record 'h can =
  can_rx :: "can_message list"
  can_callback :: "'h option"

definition new_can :: "'h can" where "new_can = \<lparr>can_rx = [], can_callback = None\<rparr>"

definition can_reset :: "'h can \<Rightarrow> 'h can" where "can_reset c = c\<lparr>can_rx := []\<rparr>"

definition can_write_message :: "can_message \<Rightarrow> 'h can \<Rightarrow> int \<times> 'h can" where "can_write_message m c = (1, c)"

definition can_read :: "can_message \<Rightarrow> 'h can \<Rightarrow> (int \<times> can_message) \<times> 'h can" where
  "can_read m c = (case can_rx c of [] \<Rightarrow> ((0, m), c) | first # rest \<Rightarrow> ((1, first), c\<lparr>can_rx := rest\<rparr>))"

definition can_attach :: "'h option \<Rightarrow> 'h can \<Rightarrow> 'h can" where "can_attach h c = c\<lparr>can_callback := h\<rparr>"

datatype 'h can_op = Can_Reset | Can_Write can_message | Can_Read can_message | Can_Attach "'h option"

definition can_step :: "'h can_op \<Rightarrow> 'h can \<Rightarrow> 'h can" where
  "can_step op c = (case op of
     Can_Reset \<Rightarrow> can_reset c | Can_Write m \<Rightarrow> snd (can_write_message m c) | Can_Read m \<Rightarrow> snd (can_read m c) | Can_Attach h \<Rightarrow> can_attach h c)"

interpretation silent_bus: operations can_step "\<lambda>c. can_rx c = []" "\<lambda>op. True"
  by unfold_locales (simp add: can_step_def can_reset_def can_write_message_def can_read_def can_attach_def split: can_op.split)

text \<open>Nothing is ever received: what is written is not heard, and a read leaves the message it is given as it was.\<close>

theorem can_bus_is_silent: "fst (can_read m (fold can_step ops new_can)) = (0, m)"
  using silent_bus.run_kept [of new_can ops] by (simp add: can_read_def new_can_def)

section \<open>The CAN bus of the firmware\<close>

text \<open>
  The stand-in for the firmware's driver (\<^verbatim>\<open>src/firmware/can_bus_stub.cpp\<close>): whether it is started, and its counts, whose width the
  header of the firmware gives; here they are numbers without a bound.
\<close>

record can_bus =
  bus_ready :: bool
  tx_count :: nat
  tx_failed_count :: nat
  rx_count :: nat
  rx_overflow_count :: nat
  tx_timeout_count :: nat

definition new_can_bus :: can_bus where
  "new_can_bus = \<lparr>bus_ready = False, tx_count = 0, tx_failed_count = 0, rx_count = 0, rx_overflow_count = 0, tx_timeout_count = 0\<rparr>"

definition can_bus_start :: "u32 \<Rightarrow> can_bus \<Rightarrow> bool \<times> can_bus" where
  "can_bus_start bitrate b = (let ready = 0 < bitrate \<and> bitrate \<le> 1000000 in (ready, b\<lparr>bus_ready := ready\<rparr>))"

definition can_bus_stop :: "can_bus \<Rightarrow> can_bus" where "can_bus_stop b = b\<lparr>bus_ready := False\<rparr>"

definition can_bus_send :: "can_message \<Rightarrow> can_bus \<Rightarrow> bool \<times> can_bus" where
  "can_bus_send m b =
     (if \<not> bus_ready b \<or> 8 < can_len m then (False, b\<lparr>tx_failed_count := tx_failed_count b + 1\<rparr>)
      else (True, b\<lparr>tx_count := tx_count b + 1\<rparr>))"

definition can_bus_read :: "can_message \<Rightarrow> can_bus \<Rightarrow> (bool \<times> can_message) \<times> can_bus" where
  "can_bus_read m b = ((False, m), b)"

definition can_bus_statistics :: "can_bus \<Rightarrow> nat list" where
  "can_bus_statistics b = [tx_count b, rx_count b, rx_overflow_count b, tx_failed_count b, tx_timeout_count b, 0, 0]"

text \<open>Every message of a sequence is counted once: sent when the bus is started and the message fits a frame, else failed.\<close>

theorem can_bus_counts:
  assumes "fst (can_bus_start bitrate new_can_bus)"
  shows "can_bus_statistics (fold (\<lambda>m b. snd (can_bus_send m b)) ms (snd (can_bus_start bitrate new_can_bus))) =
      [length (filter (\<lambda>m. can_len m \<le> 8) ms), 0, 0, length (filter (\<lambda>m. 8 < can_len m) ms), 0, 0, 0]"
proof -
  have "fold (\<lambda>m b. snd (can_bus_send m b)) ms b =
      b\<lparr>tx_count := tx_count b + length (filter (\<lambda>m. can_len m \<le> 8) ms),
        tx_failed_count := tx_failed_count b + length (filter (\<lambda>m. 8 < can_len m) ms)\<rparr>" if "bus_ready b" for b
    using that by (induction ms arbitrary: b) (auto simp: can_bus_send_def not_less)
  then show ?thesis using assms by (simp add: can_bus_start_def can_bus_statistics_def new_can_bus_def Let_def)
qed

section \<open>The disk and the modules of the boot\<close>

record boot_stubs =
  loaded_count :: int
  disk_status :: int

definition reset_boot_stubs :: "boot_stubs \<Rightarrow> boot_stubs" where "reset_boot_stubs s = s\<lparr>loaded_count := 0, disk_status := 1\<rparr>"

definition boot_module_loaded :: "boot_stubs \<Rightarrow> boot_stubs" where "boot_module_loaded s = s\<lparr>loaded_count := loaded_count s + 1\<rparr>"

definition loaded_module_count :: "boot_stubs \<Rightarrow> int" where "loaded_module_count s = loaded_count s"

definition disk_initialize :: "boot_stubs \<Rightarrow> int" where "disk_initialize s = disk_status s"

definition sdfat_remount :: "host_path \<Rightarrow> mounts \<times> eeprom \<times> host_fs \<Rightarrow> int \<times> mounts \<times> eeprom \<times> host_fs" where
  "sdfat_remount tmp s = (0, ensure_mount tmp ''sd'' s)"

lemma modules_counted: "loaded_module_count (fold (\<lambda>_. boot_module_loaded) modules (reset_boot_stubs s)) = int (length modules)"
proof -
  have "loaded_count (fold (\<lambda>_. boot_module_loaded) modules s) = loaded_count s + int (length modules)" for s
    by (induction modules arbitrary: s) (simp_all add: boot_module_loaded_def)
  then show ?thesis by (simp add: loaded_module_count_def reset_boot_stubs_def)
qed

text \<open>The mount is there after the remount, and a mount that was there stays.\<close>

theorem remount_mounts_once:
  "(case sdfat_remount tmp s of (result, m, d, files) \<Rightarrow> result = 0 \<and> m ''sd'' \<noteq> None \<and> sdfat_remount tmp (m, d, files) = (0, m, d, files)) \<and>
   (fst s ''sd'' \<noteq> None \<longrightarrow> sdfat_remount tmp s = (0, s))"
  by (cases s) (auto simp: sdfat_remount_def ensure_mount_def Let_def case_prod_unfold sd_mount_name_def)

end
