(* ===== verification/Firmware_Files.thy ===== *)
theory Firmware_Files
  imports Host_Filesystem Step_Laws
begin

text \<open>
  The file streams of the firmware (namespace \<^verbatim>\<open>fwfs\<close> of \<^verbatim>\<open>src/firmware/host_filesystem.cpp\<close>).  A stream is opened on the translated
  path and then used through the C library, whose streams are modelled here as on a POSIX host: what is written is seen at once,
  and a file is neither removed nor renamed while it is open.
\<close>

section \<open>Streams of the C library\<close>

record c_stream =
  st_path :: host_path
  st_readable :: bool
  st_writable :: bool
  st_append :: bool
  st_pos :: nat
  st_eof :: bool

definition known_mode :: "string \<Rightarrow> bool" where
  "known_mode mode \<longleftrightarrow> mode \<noteq> [] \<and> hd mode \<in> {CHR ''r'', CHR ''w'', CHR ''a''}"

definition has_plus :: "string \<Rightarrow> bool" where "has_plus mode \<longleftrightarrow> CHR ''+'' \<in> set (tl mode)"

text \<open>A directory opens for reading, but nothing can be read from it.\<close>

definition c_fopen :: "host_path \<Rightarrow> string \<Rightarrow> host_fs \<Rightarrow> c_stream option \<times> host_fs" where
  "c_fopen p mode fs =
     (let r = hd mode = CHR ''r''; a = hd mode = CHR ''a'';
          s = \<lparr>st_path = p, st_readable = r \<or> has_plus mode, st_writable = \<not> r \<or> has_plus mode, st_append = a,
               st_pos = (if a \<and> \<not> has_plus mode then length (read_file fs p) else 0), st_eof = False\<rparr>
      in if \<not> known_mode mode then (None, fs)
         else if r then (if fs_exists fs p \<and> \<not> (has_plus mode \<and> is_directory fs p) then (Some s, fs) else (None, fs))
         else if \<not> can_write fs p then (None, fs)
         else (Some s, if a \<and> is_regular_file fs p then fs else fs_put p (File []) fs))"

definition overwrite :: "nat \<Rightarrow> string \<Rightarrow> string \<Rightarrow> string" where
  "overwrite pos bytes content = take pos (content @ replicate (pos - length content) (CHR 0x00)) @ bytes @ drop (pos + length bytes) content"

definition c_write :: "string \<Rightarrow> c_stream \<times> host_fs \<Rightarrow> bool \<times> c_stream \<times> host_fs" where
  "c_write bytes f =
     (let (s, fs) = f
      in if \<not> st_writable s then (False, s, fs)
         else if bytes = [] then (True, s, fs)
         else let content = read_file fs (st_path s); pos = (if st_append s then length content else st_pos s)
              in (True, s\<lparr>st_pos := pos + length bytes\<rparr>, fs_put (st_path s) (File (overwrite pos bytes content)) fs))"

definition c_read :: "nat \<Rightarrow> c_stream \<times> host_fs \<Rightarrow> string \<times> c_stream \<times> host_fs" where
  "c_read n f =
     (let (s, fs) = f; bytes = (if st_readable s then read_block fs (st_path s) (st_pos s) n else [])
      in (bytes, s\<lparr>st_pos := st_pos s + length bytes,
                   st_eof := st_eof s \<or> st_readable s \<and> is_regular_file fs (st_path s) \<and> length bytes < n\<rparr>, fs))"

datatype whence = SEEK_SET | SEEK_CUR | SEEK_END

definition c_fseek :: "int \<Rightarrow> whence \<Rightarrow> c_stream \<times> host_fs \<Rightarrow> int \<times> c_stream \<times> host_fs" where
  "c_fseek offset origin f =
     (let (s, fs) = f;
          target = offset + (case origin of SEEK_SET \<Rightarrow> 0 | SEEK_CUR \<Rightarrow> int (st_pos s) | SEEK_END \<Rightarrow> int (length (read_file fs (st_path s))))
      in if target < 0 then (-1, s, fs) else (0, s\<lparr>st_pos := nat target, st_eof := False\<rparr>, fs))"

section \<open>The calls of the firmware\<close>

definition fw_fopen :: "host_path \<Rightarrow> mounts \<Rightarrow> string option \<Rightarrow> string \<Rightarrow> host_fs \<Rightarrow> c_stream option \<times> host_fs" where
  "fw_fopen cwd m path mode fs =
     (case fw_open_path cwd m path (Some mode) fs of
        (None, fs) \<Rightarrow> (None, fs)
      | (Some p, fs) \<Rightarrow> c_fopen p mode fs)"

text \<open>\<^verbatim>\<open>freopen\<close> closes the stream it is given, whatever becomes of the new one.\<close>

definition fw_freopen :: "host_path \<Rightarrow> mounts \<Rightarrow> string option \<Rightarrow> string \<Rightarrow> c_stream \<Rightarrow> host_fs \<Rightarrow> c_stream option \<times> host_fs" where
  "fw_freopen cwd m path mode old fs = fw_fopen cwd m path mode fs"

definition fw_fread :: "nat \<Rightarrow> nat \<Rightarrow> c_stream \<times> host_fs \<Rightarrow> (nat \<times> string) \<times> c_stream \<times> host_fs" where
  "fw_fread item cnt f =
     (if item = 0 \<or> cnt = 0 then ((0, []), f)
      else let (bytes, f) = c_read (item * cnt) f in ((length bytes div item, bytes), f))"

definition fw_fwrite :: "string \<Rightarrow> nat \<Rightarrow> nat \<Rightarrow> c_stream \<times> host_fs \<Rightarrow> nat \<times> c_stream \<times> host_fs" where
  "fw_fwrite buffer item cnt f =
     (if item = 0 \<or> cnt = 0 then (0, f)
      else let (fine, f) = c_write (take (item * cnt) buffer) f in (if fine then cnt else 0, f))"

text \<open>The text is what the format and its arguments stand for.\<close>

definition fw_fprintf :: "string \<Rightarrow> c_stream \<times> host_fs \<Rightarrow> int \<times> c_stream \<times> host_fs" where
  "fw_fprintf text f = (let (fine, f) = c_write text f in (if fine then int (length text) else -1, f))"

definition fw_fputs :: "string \<Rightarrow> c_stream \<times> host_fs \<Rightarrow> bool \<times> c_stream \<times> host_fs" where
  "fw_fputs text f = c_write text f"

definition fw_fputc :: "char \<Rightarrow> c_stream \<times> host_fs \<Rightarrow> int \<times> c_stream \<times> host_fs" where
  "fw_fputc c f = (let (fine, f) = c_write [c] f in (if fine then of_char c else -1, f))"

definition fw_fgetc :: "c_stream \<times> host_fs \<Rightarrow> int \<times> c_stream \<times> host_fs" where
  "fw_fgetc f = (let (bytes, f) = c_read 1 f in (case bytes of [] \<Rightarrow> -1 | c # _ \<Rightarrow> of_char c, f))"

text \<open>Up to a newline, and no more than fits the buffer with its terminator; \<open>None\<close> is the null pointer.\<close>

definition line_length :: "string \<Rightarrow> nat" where
  "line_length ahead = (let n = length (takeWhile (\<lambda>c. c \<noteq> CHR 0x0A) ahead) in if n < length ahead then n + 1 else n)"

definition fw_fgets :: "int \<Rightarrow> c_stream \<times> host_fs \<Rightarrow> string option \<times> c_stream \<times> host_fs" where
  "fw_fgets cnt f =
     (if cnt \<le> 0 then (None, f)
      else if cnt = 1 then (Some [], f)
      else let room = nat cnt - 1; ahead = fst (c_read room f); n = line_length ahead
           in if n < length ahead \<or> ahead \<noteq> [] \<and> last ahead = CHR 0x0A
              then let (bytes, f) = c_read n f in (Some bytes, f)
              else let (bytes, f) = c_read room f in (if bytes = [] then None else Some bytes, f))"

definition fw_fseek :: "int \<Rightarrow> whence \<Rightarrow> c_stream \<times> host_fs \<Rightarrow> int \<times> c_stream \<times> host_fs" where
  "fw_fseek = c_fseek"

definition fw_ftell :: "c_stream \<times> host_fs \<Rightarrow> int" where "fw_ftell f = int (st_pos (fst f))"

definition fw_feof :: "c_stream \<times> host_fs \<Rightarrow> bool" where "fw_feof f = st_eof (fst f)"

definition fw_fclose :: "c_stream \<times> host_fs \<Rightarrow> int \<times> host_fs" where "fw_fclose f = (0, snd f)"

definition sim_fgetpos_as_long :: "int \<Rightarrow> c_stream \<times> host_fs \<Rightarrow> int \<times> int" where
  "sim_fgetpos_as_long pos f = (let v = fw_ftell f in if v < 0 then (-1, pos) else (0, v))"

definition sim_fsetpos_as_long :: "int \<Rightarrow> c_stream \<times> host_fs \<Rightarrow> int \<times> c_stream \<times> host_fs" where
  "sim_fsetpos_as_long pos f = fw_fseek pos SEEK_SET f"

definition fw_opendir :: "host_path \<Rightarrow> mounts \<Rightarrow> string option \<Rightarrow> host_fs \<Rightarrow> string list option" where
  "fw_opendir cwd m path fs = (case translate cwd m path of
     None \<Rightarrow> None
   | Some p \<Rightarrow> (if is_directory fs p then Some (dir_names fs p) else None))"

section \<open>Positions\<close>

text \<open>A saved position brings the stream back: what is read after the restore is what was read after the save.\<close>

theorem position_restored:
  assumes "fw_fread a b f = (r, f')" "sim_fgetpos_as_long 0 f = (0, pos)"
  shows "case sim_fsetpos_as_long pos f' of (code, f'') \<Rightarrow> code = 0 \<and> fst (fw_fread a b f'') = r"
  using assms
  by (cases f) (auto simp: fw_fread_def c_read_def sim_fgetpos_as_long_def sim_fsetpos_as_long_def fw_fseek_def c_fseek_def fw_ftell_def
      Let_def split: if_splits)

section \<open>A file that is written reads back\<close>

text \<open>The stream is at a place of its file.\<close>

definition writing_at :: "string \<Rightarrow> host_path \<Rightarrow> c_stream \<times> host_fs \<Rightarrow> bool" where
  "writing_at content p f \<longleftrightarrow> st_path (fst f) = p \<and> st_writable (fst f) \<and> p \<noteq> [] \<and> st_pos (fst f) = length content \<and>
     fs_lookup (snd f) p = Some (File content)"

lemma writing_read_file: "writing_at content p f \<Longrightarrow> read_file (snd f) p = content"
  by (simp add: writing_at_def read_file_def)

lemma fputs_at_end:
  assumes "writing_at content p f"
  shows "\<exists>f'. fw_fputs text f = (True, f') \<and> writing_at (content @ text) p f'"
  using assms by (cases f) (auto simp: fw_fputs_def c_write_def writing_at_def read_file_def overwrite_def fs_lookup_put Let_def)

definition put_all :: "string list \<Rightarrow> c_stream \<times> host_fs \<Rightarrow> c_stream \<times> host_fs" where
  "put_all texts f = fold (\<lambda>text f. snd (fw_fputs text f)) texts f"

lemma put_all_at_end: "writing_at content p f \<Longrightarrow> writing_at (content @ concat texts) p (put_all texts f)"
proof (induction texts arbitrary: content f)
  case (Cons t ts)
  from fputs_at_end [OF Cons.prems] obtain f' where "fw_fputs t f = (True, f')" "writing_at (content @ t) p f'" by blast
  then show ?case using Cons.IH [of "content @ t" f'] by (simp add: put_all_def)
qed (simp add: put_all_def)

text \<open>The lines of a file through a buffer of a fixed size, to the end.\<close>

definition unread :: "c_stream \<times> host_fs \<Rightarrow> string" where
  "unread f = drop (st_pos (fst f)) (read_file (snd f) (st_path (fst f)))"

lemma line_length_le: "line_length xs \<le> length xs" "xs \<noteq> [] \<Longrightarrow> 0 < line_length xs"
  using length_takeWhile_le [of "\<lambda>c. c \<noteq> CHR 0x0A" xs] by (auto simp: line_length_def Let_def)

lemma c_read_unread: "c_read n f = (bytes, f') \<Longrightarrow> st_readable (fst f) \<Longrightarrow>
    bytes = take n (unread f) \<and> unread f' = drop n (unread f) \<and> st_readable (fst f')"
  by (cases f) (auto simp: c_read_def unread_def read_block_def Let_def min_def add.commute)

lemma fgets_unread:
  assumes "st_readable (fst f)" "2 \<le> cnt"
  shows "\<exists>f'. st_readable (fst f') \<and>
    (if unread f = [] then fw_fgets cnt f = (None, f') \<and> unread f' = []
     else \<exists>line. line \<noteq> [] \<and> unread f = line @ unread f' \<and> length line < nat cnt \<and> fw_fgets cnt f = (Some line, f'))"
proof -
  define room where "room = nat cnt - 1"
  have room: "0 < room" "room < nat cnt" "\<not> cnt \<le> 0" "cnt \<noteq> 1" using assms(2) by (auto simp: room_def)
  define ahead where "ahead = fst (c_read room f)"
  define n where "n = line_length ahead"
  have ahead: "ahead = take room (unread f)" using c_read_unread [OF prod.collapse [symmetric] assms(1)] by (simp add: ahead_def)
  have n: "n \<le> length ahead" "ahead \<noteq> [] \<Longrightarrow> 0 < n" using line_length_le by (auto simp: n_def)
  define k where "k = (if n < length ahead \<or> ahead \<noteq> [] \<and> last ahead = CHR 0x0A then n else room)"
  obtain bytes f' where r: "c_read k f = (bytes, f')" by (meson surj_pair)
  note u = c_read_unread [OF r assms(1)]
  have k: "k \<le> room" using n(1) ahead by (auto simp: k_def)
  have "fw_fgets cnt f =
      (if n < length ahead \<or> ahead \<noteq> [] \<and> last ahead = CHR 0x0A then (let (bytes, f) = c_read n f in (Some bytes, f))
       else (let (bytes, f) = c_read room f in (if bytes = [] then None else Some bytes, f)))"
    unfolding fw_fgets_def Let_def n_def ahead_def room_def using room by (simp only: if_False)
  moreover have "n < length ahead \<or> ahead \<noteq> [] \<and> last ahead = CHR 0x0A \<Longrightarrow> bytes \<noteq> []"
    using u n(2) ahead by (cases "unread f = []") (auto simp: k_def)
  ultimately have eq: "fw_fgets cnt f = (if bytes = [] then None else Some bytes, f')" using r by (auto simp: k_def split: if_splits)
  have "bytes \<noteq> []" if "unread f \<noteq> []"
  proof -
    have "ahead \<noteq> []" using that ahead room by simp
    then have "0 < k" using n(2) room by (simp add: k_def)
    then show ?thesis using u that by simp
  qed
  then show ?thesis using eq u k room by (intro exI [of _ f']) auto
qed

lemma fgets_shrinks:
  "(Some line, f') = fw_fgets cnt f \<Longrightarrow> \<not> cnt < 2 \<Longrightarrow> st_readable (fst f) \<Longrightarrow> length (unread f') < length (unread f)"
  using fgets_unread [of f cnt] by (auto split: if_splits)

function read_lines :: "int \<Rightarrow> c_stream \<times> host_fs \<Rightarrow> string list" where
  "read_lines cnt f =
     (if cnt < 2 \<or> \<not> st_readable (fst f) then []
      else case fw_fgets cnt f of (None, f) \<Rightarrow> [] | (Some line, f) \<Rightarrow> line # read_lines cnt f)"
  by pat_completeness auto
termination
  by (relation "measure (\<lambda>(cnt, f). length (unread f))") (use fgets_shrinks in \<open>force+\<close>)

declare read_lines.simps [simp del]

lemma read_lines_concat: "2 \<le> cnt \<Longrightarrow> st_readable (fst f) \<Longrightarrow> concat (read_lines cnt f) = unread f"
proof (induction cnt f rule: read_lines.induct)
  case (1 cnt f)
  obtain l f' where g: "fw_fgets cnt f = (l, f')" by (meson surj_pair)
  with fgets_unread [OF 1(3,2)] have f': "st_readable (fst f')"
    "if unread f = [] then l = None else \<exists>line. unread f = line @ unread f' \<and> l = Some line" by (auto split: if_splits)
  show ?case
  proof (cases l)
    case None
    then show ?thesis using f' g by (subst read_lines.simps) (auto split: if_splits)
  next
    case (Some line)
    then have "unread f = line @ unread f'" using f'(2) by (auto split: if_splits)
    moreover have "concat (read_lines cnt f') = unread f'" using 1 g Some f'(1) by simp
    ultimately show ?thesis using g Some 1(2,3) by (subst read_lines.simps) simp
  qed
qed

text \<open>No file is in the way of a path.\<close>

definition way_clear :: "host_path \<Rightarrow> host_fs \<Rightarrow> bool" where
  "way_clear p fs \<longleftrightarrow> (\<forall>n \<in> set [0..<Suc (length p)]. \<not> is_regular_file fs (take n p))"

lemma create_directories_clear:
  assumes "way_clear p fs"
  shows "is_directory (create_directories p fs) p \<and> (\<forall>q. \<not> path_below q p \<longrightarrow> fs_lookup (create_directories p fs) q = fs_lookup fs q)"
proof -
  let ?make = "\<lambda>k. fold (\<lambda>n fs. snd (create_directory (take n p) fs)) [1..<Suc k] fs"
  have "k \<le> length p \<Longrightarrow> is_directory (?make k) (take k p) \<and>
      (\<forall>q. (\<forall>n. 1 \<le> n \<and> n \<le> k \<longrightarrow> q \<noteq> take n p) \<longrightarrow> fs_lookup (?make k) q = fs_lookup fs q)" for k
  proof (induction k)
    case (Suc k)
    let ?f = "?make k" and ?p = "take (Suc k) p"
    have p: "?p \<noteq> []" "butlast ?p = take k p" using Suc.prems by (auto simp: butlast_take)
    have other: "?p \<noteq> take n p" if "n \<le> k" for n
      using that Suc.prems by (metis le_imp_less_Suc length_take less_le_trans linorder_not_less min.absorb2 order_less_imp_le)
    have "fs_lookup ?f ?p = fs_lookup fs ?p" using Suc other by auto
    moreover have "\<not> is_regular_file fs ?p" using assms Suc.prems unfolding way_clear_def by auto
    ultimately have q: "fs_lookup ?f ?p = None \<or> is_directory ?f ?p"
      by (auto simp: is_regular_file_def is_directory_def split: option.splits fs_node.splits)
    have "?make (Suc k) = snd (create_directory ?p ?f)" by simp
    then show ?case using q p Suc
      by (auto simp: create_directory_def is_directory_def fs_lookup_put split: if_splits)
  qed (simp add: is_directory_def fs_lookup_def)
  moreover have "path_below (take n p) p" for n by (simp add: path_below_def min_def)
  ultimately show ?thesis unfolding create_directories_def by (metis order_refl take_all)
qed

text \<open>
  A file the firmware opens for writing on a path whose way is clear holds, whatever it held before, exactly what is put into
  it; opened again and read line by line through any buffer it gives the same text.
\<close>
theorem saved_file_reads_back:
  assumes "translate cwd m (Some path) = Some p" "p \<noteq> []" "way_clear (butlast p) fs" "\<not> is_directory fs p" "2 \<le> cnt"
  shows "\<exists>s fs1 r. fw_fopen cwd m (Some path) ''w'' fs = (Some s, fs1) \<and>
    fw_fopen cwd m (Some path) ''r'' (snd (put_all texts (s, fs1))) = (Some r, snd (put_all texts (s, fs1))) \<and>
    concat (read_lines cnt (r, snd (put_all texts (s, fs1)))) = concat texts"
proof -
  let ?fs = "create_directories (butlast p) fs"
  note d = create_directories_clear [OF assms(3)]
  have "\<not> path_below p (butlast p)" using assms(2) by (cases p rule: rev_cases) (auto simp: path_below_def)
  then have "\<not> is_directory ?fs p" using d assms(4) by (simp add: is_directory_def)
  then have w: "can_write ?fs p" using d assms(2) by (simp add: can_write_def)
  obtain s where s: "fw_fopen cwd m (Some path) ''w'' fs = (Some s, fs_put p (File []) ?fs)" "st_path s = p" "st_writable s" "st_pos s = 0"
    using w assms(1) by (simp add: fw_fopen_def fw_open_path_def write_mode_def c_fopen_def known_mode_def Let_def)
  let ?f = "put_all texts (s, fs_put p (File []) ?fs)"
  have "writing_at [] p (s, fs_put p (File []) ?fs)" using s assms(2) by (simp add: writing_at_def fs_lookup_put)
  from put_all_at_end [OF this, of texts] have at: "writing_at (concat texts) p ?f" by simp
  then obtain r where r: "fw_fopen cwd m (Some path) ''r'' (snd ?f) = (Some r, snd ?f)" "st_path r = p" "st_readable r" "st_pos r = 0"
    using assms(1)
    by (simp add: fw_fopen_def fw_open_path_def write_mode_def c_fopen_def known_mode_def has_plus_def writing_at_def fs_exists_def Let_def)
  have "unread (r, snd ?f) = concat texts" using r writing_read_file [OF at] by (simp add: unread_def)
  then show ?thesis using s(1) r read_lines_concat [OF assms(5), of "(r, snd ?f)"] by auto
qed

end
