(* ===== verification/Spec2Isabelle.thy ===== *)
theory Spec2Isabelle
  imports Sim_Prelude Byte_Queue Crc16 Makera_Protocol Lpc_Heap Lpc_Heap_Laws Memory_Accounting
    Firmware_Allocation Host_Files Z1_Mainboard Z1_Laws M8266_Wifi Lpc1768 Interrupt_Controller
    Timer_Scheduler Timer_Laws Event_Engine I2c_Eeprom Host_Filesystem Stepper_Axis
    Physical_Tooling Atc_Rack Probe_Contact Board_Profile Physical_Scene Spindle_State Us_Ticker Adc
    Serial_Port Framed_Stream Runtime_Io Transport Machine_Simulator Runtime_Controls Api_Harness Api_Physical Firmware_Utils
    Realtime_Clock Robot_Axes Boot_Session Spindle_Tach Machine_Snapshot Motion_Telemetry Transport_Manager Memory_Report Api_Service Physical_Io Button_Led
    Simulator_Lifetime Host_Hooks Firm_Config Firmware_Modules Step_Laws Stream_Server Stdio_Server
    Platform_Io Interactive_App Physical_Service Firmware_Delay Request_Server Stub_Devices Firmware_Files
begin

text \<open>
  Verification development of the Carvera firmware simulator.

  The simulator runs the firmware of a Carvera CNC machine on a host computer.  The firmware (outside this
  repository) is linked against replacements of the processor's registers, of its mbed library and of its
  hardware; the simulator counts virtual time, raises the interrupts, moves the axes, holds the tools, and
  answers requests over a protocol.  Paths below are relative to \<^verbatim>\<open>src/\<close> of the repository unless they start
  with \<^verbatim>\<open>include/\<close>.

  \<^bold>\<open>Parts and theories\<close>

  \<^item> Shared: \<^verbatim>\<open>Sim_Prelude\<close> (machine integers, bytes of strings, searches, the collections \<open>byte_simps\<close>,
    \<open>frame_simps\<close>, \<open>inv_intros\<close>), \<^verbatim>\<open>Byte_Queue\<close> (the interfaces \<open>fifo_queue\<close> and \<open>chunked_input\<close>),
    \<^verbatim>\<open>Host_Files\<close> (the host's files and paths).
  \<^item> Protocol codecs: \<^verbatim>\<open>Crc16\<close> (\<^verbatim>\<open>include/sim/crc16.hpp\<close>), \<^verbatim>\<open>Makera_Protocol\<close>
    (\<^verbatim>\<open>protocol/makera_protocol.cpp\<close>), \<^verbatim>\<open>Framed_Stream\<close> (\<^verbatim>\<open>protocol/framed_proto.cpp\<close>,
    \<^verbatim>\<open>stream_request_pump_posix.cpp\<close>).
  \<^item> Memory of the firmware: \<^verbatim>\<open>Lpc_Heap\<close>, \<^verbatim>\<open>Lpc_Heap_Laws\<close>, \<^verbatim>\<open>Memory_Accounting\<close>
    (\<^verbatim>\<open>firmware/lpc_memory_accounting.cpp\<close>), \<^verbatim>\<open>Firmware_Allocation\<close> (\<^verbatim>\<open>firmware/lpc_allocation_resolver.cpp\<close> and
    the call stack), \<^verbatim>\<open>Host_Hooks\<close> (\<^verbatim>\<open>firmware_allocation_hooks.cpp\<close>, \<^verbatim>\<open>lpc_function_symbols.cpp\<close> and the
    bytes of the log), \<^verbatim>\<open>Memory_Report\<close> (the report and its message).  \<^verbatim>\<open>Lpc_Heap_Laws\<close> provides the interface \<open>id_allocator\<close>, on which the accounting rests.
  \<^item> Processor and time: \<^verbatim>\<open>Lpc1768\<close> (\<^verbatim>\<open>core/lpc1768_sim.cpp\<close>, \<^verbatim>\<open>include/LPC17xx.h\<close>), \<^verbatim>\<open>Interrupt_Controller\<close>,
    \<^verbatim>\<open>Timer_Scheduler\<close> with \<^verbatim>\<open>Timer_Laws\<close>, \<^verbatim>\<open>Event_Engine\<close> (\<^verbatim>\<open>core/event_engine.cpp\<close>,
    \<^verbatim>\<open>runtime/runtime_pump.cpp\<close>), \<^verbatim>\<open>Us_Ticker\<close>, \<^verbatim>\<open>Realtime_Clock\<close> (\<^verbatim>\<open>core/virtual_clock.cpp\<close>,
    \<^verbatim>\<open>realtime_timer_pacer.cpp\<close>, \<^verbatim>\<open>delay_hooks.cpp\<close>), \<^verbatim>\<open>Firmware_Delay\<close> (the delays of \<^verbatim>\<open>firmware/utils_stubs.cpp\<close>).  Registers are one record of words; an interrupt is a
    pending entry with the closure the code raises; virtual time is a 64-bit count of microseconds.
  \<^item> Peripherals: \<^verbatim>\<open>Adc\<close>, \<^verbatim>\<open>Serial_Port\<close> (\<^verbatim>\<open>include/Serial.h\<close>), \<^verbatim>\<open>I2c_Eeprom\<close> (\<^verbatim>\<open>firmware/i2c_sim.cpp\<close>),
    \<^verbatim>\<open>M8266_Wifi\<close>, \<^verbatim>\<open>Z1_Mainboard\<close> with \<^verbatim>\<open>Z1_Laws\<close> (\<^verbatim>\<open>protocol/z1_mainboard.cpp\<close>).
  \<^item> The physical machine: \<^verbatim>\<open>Stepper_Axis\<close>, \<^verbatim>\<open>Robot_Axes\<close> (\<^verbatim>\<open>core/robot_axis_binding.cpp\<close>),
    \<^verbatim>\<open>Physical_Tooling\<close>, \<^verbatim>\<open>Atc_Rack\<close>, \<^verbatim>\<open>Probe_Contact\<close>, \<^verbatim>\<open>Board_Profile\<close>, \<^verbatim>\<open>Physical_Scene\<close>,
    \<^verbatim>\<open>Spindle_State\<close>, \<^verbatim>\<open>Spindle_Tach\<close> (\<^verbatim>\<open>runtime/runtime_modules.cpp\<close>), \<^verbatim>\<open>Machine_Simulator\<close>
    (\<^verbatim>\<open>core/machine_simulator.cpp\<close>), which joins them in one record, \<^verbatim>\<open>Physical_Service\<close> (what \<^verbatim>\<open>core/event_engine.cpp\<close> does to
    it between two batches of the firmware), and \<^verbatim>\<open>Simulator_Lifetime\<close>
    (\<^verbatim>\<open>compat/active_context.cpp\<close>), in which simulators are born and die as an inductive step relation; its interface
    \<open>saved_slot\<close> is what every scope that saves and restores a value relies on.
  \<^item> The runtime around the firmware: \<^verbatim>\<open>Host_Filesystem\<close> with \<^verbatim>\<open>Firmware_Files\<close>
    (\<^verbatim>\<open>firmware/host_filesystem.cpp\<close>: mounts, paths, file streams), \<^verbatim>\<open>Firmware_Utils\<close> (\<^verbatim>\<open>firmware/utils_stubs.cpp\<close>),
    \<^verbatim>\<open>Boot_Session\<close> (\<^verbatim>\<open>runtime/runtime_boot_session.cpp\<close>, \<^verbatim>\<open>firmware_runtime.cpp\<close>), \<^verbatim>\<open>Firm_Config\<close>
    (\<^verbatim>\<open>firmware/firm_config_source.cpp\<close>), \<^verbatim>\<open>Firmware_Modules\<close> (\<^verbatim>\<open>runtime/runtime_modules.cpp\<close>), \<^verbatim>\<open>Runtime_Io\<close>,
    \<^verbatim>\<open>Runtime_Controls\<close> (\<^verbatim>\<open>runtime_physical_controls.cpp\<close> and the pin, temperature and tool changer
    configuration), \<^verbatim>\<open>Transport\<close> (\<^verbatim>\<open>protocol/platform_io_posix.cpp\<close>, \<^verbatim>\<open>localhost_tcp_bridge.cpp\<close> and its
    neighbours), \<^verbatim>\<open>Transport_Manager\<close> (\<^verbatim>\<open>interactive_transport_manager.cpp\<close>, \<^verbatim>\<open>virtual_com_port.cpp\<close>).
  \<^item> The server on standard input and output: \<^verbatim>\<open>Framed_Stream\<close> (frames and the request pump of POSIX),
    \<^verbatim>\<open>Stream_Server\<close> (the pump of Windows, two threads as an inductive step relation) and \<^verbatim>\<open>Stdio_Server\<close>
    (\<^verbatim>\<open>apps/sim_stream_stdio_server.cpp\<close>: the event emitters, the log of changes, the main loop over either pump); \<^verbatim>\<open>Request_Server\<close> is the server that only answers (\<^verbatim>\<open>apps/sim_stdio_server.cpp\<close>).
  \<^item> Platforms and the interactive program: \<^verbatim>\<open>Platform_Io\<close> (\<^verbatim>\<open>protocol/platform_io_posix.cpp\<close> and
    \<^verbatim>\<open>platform_io_windows.cpp\<close>, which provide the calls of the system the transports are written on) and
    \<^verbatim>\<open>Interactive_App\<close> (\<^verbatim>\<open>apps/sim_interactive.cpp\<close>: command line, start, loop).
  \<^item> The API: \<^verbatim>\<open>Api_Harness\<close>, \<^verbatim>\<open>Api_Physical\<close>, \<^verbatim>\<open>Api_Service\<close> (\<^verbatim>\<open>protocol/api_*.cpp\<close>): the commands and their
    dispatch.  What is streamed without a request: \<^verbatim>\<open>Machine_Snapshot\<close> (\<^verbatim>\<open>core/machine_state_snapshot.cpp\<close>,
    \<^verbatim>\<open>protocol/machine_state_proto.cpp\<close>), \<^verbatim>\<open>Motion_Telemetry\<close> (\<^verbatim>\<open>core/motion_telemetry.cpp\<close>), \<^verbatim>\<open>Physical_Io\<close>
    (the inputs and outputs) and \<^verbatim>\<open>Button_Led\<close> (\<^verbatim>\<open>firmware/main_button_led_stub.cpp\<close>).
  \<^item> \<^verbatim>\<open>Stub_Devices\<close>: the names of the pins (\<^verbatim>\<open>include/PinNames.h\<close>), the CAN bus that is always silent (\<^verbatim>\<open>include/CAN.h\<close>,
    \<^verbatim>\<open>firmware/can_bus_stub.cpp\<close>) and the disk and module counts of the boot (\<^verbatim>\<open>firmware/firmware_boot_stubs.cpp\<close>).

  \<^bold>\<open>How the parts interact\<close>

  A request of the API ends in an operation of the machine, which changes registers or the scene; the
  firmware's handlers read the registers.  In the other direction the firmware writes registers, the level
  changes this reports move the axes, the axes drive their endstop pins, and the scene drives the probe and
  tool pins.  The timers raise the interrupts that run the firmware, the pacer slows them to the wall clock.
  Bytes of a host travel through a transport, the mainboard or the Wi-Fi module and the serial ports.

  \<^bold>\<open>What the lemmas show\<close>

  Each theory has the state of its component as a record, its operations, an invariant (\<open>heap_inv\<close>,
  \<open>acct_inv\<close>, \<open>cells_ok\<close>, \<open>machine_wf\<close>, \<open>api_wf\<close>, \<open>bound_ok\<close>, \<open>spindle_inv\<close>, \<open>speed_ok\<close>) with its preservation, and
  the functional theorems.  The heap is a refinement of a set of live ids that tiles its regions; the
  microsecond ticker's linked queue refines a sorted list; an axis refines the count of rising edges; the
  clamp refines a hysteresis.  Codecs have round trips, incremental decoders are equal to decoding the whole
  input, and the links deliver what they are given in order.  The boot is a list of steps, each of which adds
  its modules and keeps the machine and the accounting well formed; a snapshot is proved equal to what the single
  commands answer.  The two platforms are proved to do the same on the same system.

  The laws of a run are proved once, in the locales of \<^verbatim>\<open>Step_Laws\<close>: operations that keep an invariant, that refine a
  specification, that leave a part of the state alone, and step relations.  The heap, the accounting, the clamp, the lifetimes
  of simulators and the request pump interpret them.

  \<^bold>\<open>Conventions and bounds\<close>

  Integers keep their width where it matters; \<^verbatim>\<open>double\<close> and \<^verbatim>\<open>float\<close> are real numbers, so rounding is not
  modelled, and one that may be infinite or not a number is a \<^typ>\<open>real option\<close>.  An exception, an access outside an
  array and a conversion C++ leaves undefined are \<open>None\<close> or an error value.  A loop that may not end is a
  partial function whose value is then \<open>None\<close>: counting cycles, dispatching interrupts, the run loop of the
  event engine and the pulses of the tachometer.  For each of them it is proved when a value is returned; no
  fuel is used anywhere.

  Code outside the repository is a parameter: the firmware's kernel, robot, modules, interrupt routines and
  configuration, the protobuf library, MD5, the calls of the operating system, the C library's formatting,
  and the generated memory layout.  What a theorem needs of a parameter is a named hypothesis
  (\<open>quiet_isr\<close>, \<open>handlers_ok\<close>, \<open>pins_read\<close>, \<open>streams_ok\<close>, ...), and its witness uses a concrete one.

  \<^bold>\<open>Not modelled\<close>

  Threads and mutexes, other than the two threads of the Windows request pump (each operation is one step); the Windows
  twin of the symbol lookup; the text of usage messages; the text of most log messages and the log's clock; the ELF reader of the
  allocation resolver; stubs with an empty body (debugger hooks, \<^verbatim>\<open>include/Timer.h\<close>, \<^verbatim>\<open>include/Ticker.h\<close>); the accessors of
  \<^verbatim>\<open>include/sim/simulator_context.hpp\<close> and \<^verbatim>\<open>runtime/simulation_instance.cpp\<close>, which only hand out the parts; \<^verbatim>\<open>FirmwareRuntime::home_machine\<close>, which only the tests
  call; the
  graphical client, scripts and tests.
\<close>

end
